(* ===== verification/Prelude.thy ===== *)
theory Prelude
  imports Complex_Main "HOL-Library.List_Lexorder" "HOL-Library.Char_ord" "HOL-Library.Sublist"
    "HOL-Library.AList"
begin

text \<open>
  Shared ground of the DevRadar development.

  \<^item> Go strings as \<^typ>\<open>string\<close> (one \<^typ>\<open>char\<close> per byte) with the functions of package
    \<open>strings\<close> the code calls. Case mapping and white space are those of ASCII: bytes above 127
    are left alone, where Go would also map letters of other scripts.
  \<^item> Go errors as a datatype: sentinel errors keep their identity, \<open>fmt.Errorf("p: %w", e)\<close> is
    \<open>Wrapf p e\<close>.
  \<^item> The database as a state with numbered statements: the environment says which statement
    fails and what the database clock reads at it, and a transaction restores the state it
    started from when it does not commit.
  \<^item> Tables as lists of rows with the operations SQL performs on them (filter, upsert on a key).
\<close>

named_theorems go_string "unfolding rules of the models of Go's string functions"
named_theorems db_run "how the database combinators run"

section \<open>Go strings\<close>

definition lower_char :: "char \<Rightarrow> char" where
  "lower_char c = (let n = (of_char c :: nat) in if 65 \<le> n \<and> n \<le> 90 then char_of (n + 32) else c)"

definition upper_char :: "char \<Rightarrow> char" where
  "upper_char c = (let n = (of_char c :: nat) in if 97 \<le> n \<and> n \<le> 122 then char_of (n - 32) else c)"

definition ToLower :: "string \<Rightarrow> string" where
  "ToLower s = map lower_char s"

definition ToUpper :: "string \<Rightarrow> string" where
  "ToUpper s = map upper_char s"

text \<open>The ASCII white space of \<open>unicode.IsSpace\<close>: tab, newline, vertical tab, form feed, carriage
  return and blank.\<close>

definition is_space :: "char \<Rightarrow> bool" where
  "is_space c = (let n = (of_char c :: nat) in (9 \<le> n \<and> n \<le> 13) \<or> n = 32)"

definition TrimSpace :: "string \<Rightarrow> string" where
  "TrimSpace s = rev (dropWhile is_space (rev (dropWhile is_space s)))"

definition EqualFold :: "string \<Rightarrow> string \<Rightarrow> bool" where
  "EqualFold s t = (ToLower s = ToLower t)"

definition HasPrefix :: "string \<Rightarrow> string \<Rightarrow> bool" where
  "HasPrefix s p = prefix p s"

definition HasSuffix :: "string \<Rightarrow> string \<Rightarrow> bool" where
  "HasSuffix s p = suffix p s"

definition TrimSuffix :: "string \<Rightarrow> string \<Rightarrow> string" where
  "TrimSuffix s p = (if suffix p s then take (length s - length p) s else s)"

text \<open>\<open>strings.Cut(s, sep)\<close>: the text before and after the first occurrence of \<open>sep\<close>.\<close>

fun Cut :: "string \<Rightarrow> string \<Rightarrow> (string \<times> string) option" where
  "Cut [] sep = (if sep = [] then Some ([], []) else None)"
| "Cut (c # s) sep =
     (if prefix sep (c # s) then Some ([], drop (length sep) (c # s))
      else map_option (\<lambda>(a, b). (c # a, b)) (Cut s sep))"

definition Contains :: "string \<Rightarrow> string \<Rightarrow> bool" where
  "Contains s sep = (Cut s sep \<noteq> None)"

text \<open>\<open>strings.Join\<close>.\<close>

fun Join :: "string list \<Rightarrow> string \<Rightarrow> string" where
  "Join [] sep = []"
| "Join [s] sep = s"
| "Join (s # t # ss) sep = s @ sep @ Join (t # ss) sep"

text \<open>Decimal text of a number: \<open>%d\<close>.\<close>

function nat_text :: "nat \<Rightarrow> string" where
  "nat_text n = (if n < 10 then [char_of (48 + n)] else nat_text (n div 10) @ [char_of (48 + n mod 10)])"
  by pat_completeness auto

termination by (relation "measure (\<lambda>n. n)") auto

declare nat_text.simps [simp del]

definition itoa :: "int \<Rightarrow> string" where
  "itoa i = (if i < 0 then ''-'' @ nat_text (nat (- i)) else nat_text (nat i))"

text \<open>\<open>%q\<close>: the text in quotes, with the escapes of quotes, backslashes and control characters.\<close>

definition quote_char :: "char \<Rightarrow> string" where
  "quote_char c =
     (let n = (of_char c :: nat); hex = (\<lambda>d. ''0123456789abcdef'' ! (d mod 16)) in
      if n = 34 \<or> n = 92 then [CHR 0x5C, c]
      else if n = 7 then [CHR 0x5C, CHR ''a''] else if n = 8 then [CHR 0x5C, CHR ''b'']
      else if n = 9 then [CHR 0x5C, CHR ''t''] else if n = 10 then [CHR 0x5C, CHR ''n'']
      else if n = 11 then [CHR 0x5C, CHR ''v''] else if n = 12 then [CHR 0x5C, CHR ''f'']
      else if n = 13 then [CHR 0x5C, CHR ''r'']
      else if n < 32 \<or> n = 127 then [CHR 0x5C, CHR ''x'', hex (n div 16), hex n]
      else [c])"

definition quoted :: "string \<Rightarrow> string" where
  "quoted s = [CHR 0x22] @ concat (map quote_char s) @ [CHR 0x22]"

lemmas go_string_defs = ToLower_def ToUpper_def TrimSpace_def EqualFold_def HasPrefix_def
  HasSuffix_def TrimSuffix_def Contains_def lower_char_def upper_char_def is_space_def

lemma ToLower_append [simp]: "ToLower (s @ t) = ToLower s @ ToLower t"
  by (simp add: ToLower_def)

lemma ToLower_Nil [simp]: "ToLower [] = []"
  by (simp add: ToLower_def)

lemma ToLower_Cons [simp]: "ToLower (c # s) = lower_char c # ToLower s"
  by (simp add: ToLower_def)

lemma length_ToLower [simp]: "length (ToLower s) = length s"
  by (simp add: ToLower_def)

lemma lower_char_idem [simp]: "lower_char (lower_char c) = lower_char c"
  by (auto simp: lower_char_def Let_def of_char_of take_bit_eq_mod)

lemma ToLower_idem [simp]: "ToLower (ToLower s) = ToLower s"
  by (simp add: ToLower_def)

lemma Cut_Some: "Cut s sep = Some (a, b) \<Longrightarrow> s = a @ sep @ b"
proof (induction s arbitrary: a)
  case Nil
  then show ?case by (simp split: if_splits)
next
  case (Cons c s)
  then show ?case by (auto split: if_splits elim!: prefixE)
qed

lemma split_at_inj:
  "xs @ c # us = ys @ c # vs \<Longrightarrow> c \<notin> set xs \<Longrightarrow> c \<notin> set ys \<Longrightarrow> xs = ys \<and> us = vs"
proof (induction xs arbitrary: ys)
  case Nil
  then show ?case by (cases ys) auto
next
  case (Cons x xs)
  then show ?case by (cases ys) auto
qed

lemma two_units: "2 \<le> (f :: nat) \<Longrightarrow> (\<And>g. f = Suc (Suc g) \<Longrightarrow> P) \<Longrightarrow> P"
  by (cases f; cases "f - 1") auto

section \<open>Go errors\<close>

text \<open>The sentinel errors of the code are constructors of their own, since the code compares them
  with \<open>errors.Is\<close>. \<open>Driver\<close> is an error of the database driver or of another callee, \<open>Errorf\<close> an
  error built from a text, \<open>Wrapf\<close> one that wraps another with a text before it, \<open>Joined\<close> the
  \<open>errors.Join\<close> of two. \<open>ProviderError\<close> and \<open>invalidMessageError\<close> are error types of package \<open>net\<close>.\<close>

datatype go_error =
    Driver string
  | Errorf string
  | Wrapf string go_error
  | ErrNotFound
  | ErrAccountInactive
  | ErrSBOMLimit
  | ErrImageLimit
  | ErrStaleDeliveryLease
  | ErrStaleDeliverySlot
  | ErrStaleDeliveryInvitation
  | ErrTerminalDelivery
  | ErrLastAdmin
  | ErrForbidden
  | ErrInvitationInvalid
  | ErrInvitationExpired
  | ErrInvitationEmailMismatch
  | ErrActiveMember
  | ErrRateLimited
  | ErrAPITokenLimit
  | ErrLoginTokenInvalid
  | ErrLoginTokenExpired
  | ErrSessionInvalid
  | ErrAPITokenInvalid
  | ErrInvalidComparison
  | ErrAccountDeletionIncomplete
  | ErrAccountDeletionInProgress
  | errAuditNoMutation
  | errIdentityLinkRace
  | errCompatibilityOwnerAmbiguous
  | errCompatibilityOwnerMissing
  | DeadlineExceeded
  | Canceled
  | ProviderError int string string
  | invalidMessageError string
  | Joined go_error go_error

fun Error :: "go_error \<Rightarrow> string" where
  "Error (Driver m) = m"
| "Error (Errorf m) = m"
| "Error (Wrapf p e) = p @ Error e"
| "Error ErrNotFound = ''not found''"
| "Error ErrAccountInactive = ''account is not active''"
| "Error ErrSBOMLimit = ''active SBOM limit reached for tenant''"
| "Error ErrImageLimit = ''image (repository) limit reached for tenant''"
| "Error ErrStaleDeliveryLease = ''stale delivery lease''"
| "Error ErrStaleDeliverySlot = ''stale delivery slot''"
| "Error ErrStaleDeliveryInvitation = ''stale delivery invitation''"
| "Error ErrTerminalDelivery = ''interactive terminal delivery failed''"
| "Error ErrLastAdmin = ''account must retain at least one active admin''"
| "Error ErrForbidden = ''account operation forbidden''"
| "Error ErrInvitationInvalid = ''invitation is invalid or no longer available''"
| "Error ErrInvitationExpired = ''invitation has expired''"
| "Error ErrInvitationEmailMismatch = ''invitation email does not match signed-in user''"
| "Error ErrActiveMember = ''user is already an active account member''"
| "Error ErrRateLimited = ''invitation was sent too recently''"
| "Error ErrAPITokenLimit = ''API token limit reached for account''"
| "Error ErrLoginTokenInvalid = ''login link invalid or already used''"
| "Error ErrLoginTokenExpired = ''login link expired''"
| "Error ErrSessionInvalid = ''session expired or not found''"
| "Error ErrAPITokenInvalid = ''invalid or revoked API token''"
| "Error ErrInvalidComparison = ''invalid SBOM comparison''"
| "Error ErrAccountDeletionIncomplete = ''account deletion is incomplete''"
| "Error ErrAccountDeletionInProgress = ''account deletion is in progress''"
| "Error errAuditNoMutation = ''audit: no mutation''"
| "Error errIdentityLinkRace = ''identity linked concurrently''"
| "Error errCompatibilityOwnerAmbiguous = ''compatibility account has ambiguous identity owners''"
| "Error errCompatibilityOwnerMissing = ''modern compatibility account has no identity owner''"
| "Error DeadlineExceeded = ''context deadline exceeded''"
| "Error Canceled = ''context canceled''"
| "Error (ProviderError status name msg) = ''email provider returned '' @ itoa status @ '' '' @ name @ '': '' @ msg"
| "Error (invalidMessageError m) = m"
| "Error (Joined e1 e2) = Error e1 @ [CHR 0x0A] @ Error e2"

text \<open>\<open>errors.Is\<close> against a sentinel without parts: the error itself or one it wraps.\<close>

fun errors_Is :: "go_error \<Rightarrow> go_error \<Rightarrow> bool" where
  "errors_Is (Wrapf p e) target = errors_Is e target"
| "errors_Is (Joined e1 e2) target = (errors_Is e1 target \<or> errors_Is e2 target)"
| "errors_Is e target = (e = target)"

type_synonym 'a result = "go_error + 'a"

section \<open>Time\<close>

text \<open>A \<open>time.Time\<close> or \<open>timestamptz\<close> is the number of microseconds since 1970, the resolution of the
  database. Go's zero time is the first of January of the year 1. An interval of the database is a
  number of microseconds too; a \<open>time.Duration\<close> of Go is a number of nanoseconds.\<close>

type_synonym time = int
type_synonym interval = int
type_synonym duration = int

definition zero_time :: time where
  "zero_time = - 62135596800000000"

definition IsZero :: "time \<Rightarrow> bool" where
  "IsZero t = (t = zero_time)"

abbreviation seconds :: "int \<Rightarrow> interval" where
  "seconds n \<equiv> n * 1000000"

abbreviation minutes :: "int \<Rightarrow> interval" where
  "minutes n \<equiv> n * 60000000"

abbreviation hours :: "int \<Rightarrow> interval" where
  "hours n \<equiv> n * 3600000000"

section \<open>Tables\<close>

text \<open>\<open>INSERT ... ON CONFLICT (key) DO UPDATE\<close>: the row with the key of \<open>r\<close> is rewritten by \<open>upd\<close>;
  without such a row, \<open>r\<close> is appended.\<close>

fun upsert :: "('r \<Rightarrow> 'k) \<Rightarrow> ('r \<Rightarrow> 'r) \<Rightarrow> 'r \<Rightarrow> 'r list \<Rightarrow> 'r list" where
  "upsert key upd r [] = [r]"
| "upsert key upd r (x # xs) = (if key x = key r then upd x # xs else x # upsert key upd r xs)"

definition distinct_key :: "('r \<Rightarrow> 'k) \<Rightarrow> 'r list \<Rightarrow> bool" where
  "distinct_key key rs = distinct (map key rs)"

definition lookup_key :: "('r \<Rightarrow> 'k) \<Rightarrow> 'r list \<Rightarrow> 'k \<Rightarrow> 'r option" where
  "lookup_key key rs k = List.find (\<lambda>r. key r = k) rs"

text \<open>\<open>UPDATE ... SET f WHERE P\<close>, and the number of rows it changes.\<close>

definition update_where :: "('r \<Rightarrow> bool) \<Rightarrow> ('r \<Rightarrow> 'r) \<Rightarrow> 'r list \<Rightarrow> 'r list" where
  "update_where P f rs = map (\<lambda>r. if P r then f r else r) rs"

definition count_where :: "('r \<Rightarrow> bool) \<Rightarrow> 'r list \<Rightarrow> nat" where
  "count_where P rs = length (filter P rs)"

lemma set_update_where: "x \<in> set (update_where P f rs) \<longleftrightarrow> (\<exists>r \<in> set rs. x = (if P r then f r else r))"
  by (auto simp: update_where_def)

lemma keys_update_where: "(\<And>r. P r \<Longrightarrow> key (f r) = key r) \<Longrightarrow> map key (update_where P f rs) = map key rs"
  by (simp add: update_where_def)

lemma lookup_key_Nil [simp]: "lookup_key key [] k = None"
  by (simp add: lookup_key_def)

lemma lookup_key_Cons [simp]:
  "lookup_key key (r # rs) k = (if key r = k then Some r else lookup_key key rs k)"
  by (simp add: lookup_key_def)

lemma lookup_key_update_where:
  "(\<And>r. P r \<Longrightarrow> key (f r) = key r) \<Longrightarrow>
     lookup_key key (update_where P f rs) k = map_option (\<lambda>r. if P r then f r else r) (lookup_key key rs k)"
  by (induction rs) (auto simp: update_where_def)

lemma lookup_key_append:
  "lookup_key key (rs @ ss) k = (case lookup_key key rs k of None \<Rightarrow> lookup_key key ss k | Some r \<Rightarrow> Some r)"
  by (induction rs) auto

lemma lookup_key_Some: "lookup_key key rs k = Some r \<Longrightarrow> r \<in> set rs \<and> key r = k"
  by (induction rs) (auto split: if_splits)

lemma lookup_key_None: "lookup_key key rs k = None \<longleftrightarrow> k \<notin> key ` set rs"
  by (induction rs) auto

lemma lookup_key_in: "distinct_key key rs \<Longrightarrow> r \<in> set rs \<Longrightarrow> lookup_key key rs (key r) = Some r"
  by (induction rs) (auto simp: distinct_key_def image_iff)

lemma lookup_key_upsert:
  assumes "key (upd (the (lookup_key key rs (key r)))) = key r \<or> lookup_key key rs (key r) = None"
  shows "lookup_key key (upsert key upd r rs) k =
    (if k = key r then Some (case lookup_key key rs (key r) of None \<Rightarrow> r | Some x \<Rightarrow> upd x)
     else lookup_key key rs k)"
  using assms by (induction rs) (auto split: if_splits option.splits)

lemma lookup_key_upsert_keep:
  assumes "\<And>x. key x = key r \<Longrightarrow> key (upd x) = key r"
  shows "lookup_key key (upsert key upd r rs) k =
    (if k = key r then Some (case lookup_key key rs (key r) of None \<Rightarrow> r | Some x \<Rightarrow> upd x)
     else lookup_key key rs k)"
  using assms by (intro lookup_key_upsert) (metis lookup_key_Some not_None_eq option.sel)

lemma keys_upsert:
  assumes "\<And>x. key x = key r \<Longrightarrow> key (upd x) = key r"
  shows "map key (upsert key upd r rs) =
    (if key r \<in> key ` set rs then map key rs else map key rs @ [key r])"
  using assms by (induction rs) (auto simp: image_iff)

lemma upsert_set: "set (upsert key upd r rs) \<subseteq> insert r (set rs \<union> upd ` set rs)"
  by (induction rs) auto

lemma upsert_covers: "x \<in> set rs \<Longrightarrow> x \<in> set (upsert key upd r rs) \<or> (key x = key r \<and> upd x \<in> set (upsert key upd r rs))"
  by (induction rs) auto

lemma filter_upsert_length:
  assumes "\<And>x. key x = key r \<Longrightarrow> P (upd x) = P x" and "key r \<in> key ` set rs"
  shows "length (filter P (upsert key upd r rs)) = length (filter P rs)"
  using assms by (induction rs) auto

lemma upsert_fresh: "key r \<notin> key ` set rs \<Longrightarrow> upsert key upd r rs = rs @ [r]"
  by (induction rs) auto

lemma distinct_key_upsert:
  assumes "distinct_key key rs" and "\<And>x. key x = key r \<Longrightarrow> key (upd x) = key r"
  shows "distinct_key key (upsert key upd r rs)"
  using assms by (auto simp: distinct_key_def keys_upsert)

lemma distinct_key_filter: "distinct_key key rs \<Longrightarrow> distinct_key key (filter P rs)"
  by (simp add: distinct_key_def distinct_map_filter)

lemma lookup_key_filter:
  assumes "\<And>r. key r = k \<Longrightarrow> P r = Q"
  shows "lookup_key key (filter P rs) k = (if Q then lookup_key key rs k else None)"
  using assms by (induction rs) auto

lemma distinct_key_Nil [simp]: "distinct_key key []"
  by (simp add: distinct_key_def)

lemma distinct_key_Cons [simp]:
  "distinct_key key (r # rs) \<longleftrightarrow> key r \<notin> key ` set rs \<and> distinct_key key rs"
  by (simp add: distinct_key_def)

lemma distinct_key_append [simp]:
  "distinct_key key (rs @ ss) \<longleftrightarrow>
     distinct_key key rs \<and> distinct_key key ss \<and> key ` set rs \<inter> key ` set ss = {}"
  by (auto simp: distinct_key_def)

lemma distinct_key_map_same:
  "(\<And>r. key (f r) = key r) \<Longrightarrow> distinct_key key (map f rs) = distinct_key key rs"
  by (simp add: distinct_key_def o_def)

text \<open>The number of distinct values: \<open>COUNT(DISTINCT ...)\<close>.\<close>

definition count_distinct :: "'a list \<Rightarrow> nat" where
  "count_distinct xs = length (remdups xs)"

lemma count_distinct_card: "count_distinct xs = card (set xs)"
  by (simp add: count_distinct_def length_remdups_card_conv)

section \<open>Go maps\<close>

lemma map_of_rev_distinct: "distinct (map fst xs) \<Longrightarrow> map_of (rev xs) = map_of xs"
  by (intro map_of_inject_set [THEN iffD2]) (simp_all add: rev_map [symmetric])

text \<open>A Go map is an association list with distinct keys. Iteration in sorted key order
  (\<open>sortedKeys\<close>) makes the order of the list irrelevant.\<close>

type_synonym ('k, 'v) gomap = "('k \<times> 'v) list"

definition map_put :: "'k \<Rightarrow> 'v \<Rightarrow> ('k, 'v) gomap \<Rightarrow> ('k, 'v) gomap" where
  "map_put k v m = AList.update k v m"

definition map_from :: "('a \<Rightarrow> 'k) \<Rightarrow> ('a \<Rightarrow> 'v) \<Rightarrow> 'a list \<Rightarrow> ('k, 'v) gomap" where
  "map_from key val xs = foldl (\<lambda>m x. map_put (key x) (val x) m) [] xs"

lemma map_of_map_put: "map_of (map_put k v m) = (map_of m)(k \<mapsto> v)"
  by (simp add: map_put_def update_conv')

lemma distinct_map_put: "distinct (map fst m) \<Longrightarrow> distinct (map fst (map_put k v m))"
  by (simp add: map_put_def distinct_update)

lemma foldl_map_put:
  "map_of (foldl (\<lambda>m x. map_put (key x) (val x) m) m xs) = map_of m ++ map_of (rev (map (\<lambda>x. (key x, val x)) xs))"
  by (induction xs arbitrary: m) (auto simp: map_of_map_put map_add_def fun_eq_iff split: option.splits)

lemma map_of_map_from: "map_of (map_from key val xs) = map_of (rev (map (\<lambda>x. (key x, val x)) xs))"
  by (simp add: map_from_def foldl_map_put)

lemma foldl_map_put_distinct:
  "distinct (map fst m) \<Longrightarrow> distinct (map fst (foldl (\<lambda>m x. map_put (key x) (val x) m) m xs))"
  by (induction xs arbitrary: m) (auto simp: distinct_map_put)

lemma distinct_map_from [simp]: "distinct (map fst (map_from key val xs))"
  by (simp add: map_from_def foldl_map_put_distinct)

lemma set_map_from: "set (map fst (map_from key val xs)) = key ` set xs"
proof -
  have "set (map fst (map_from key val xs)) = dom (map_of (map_from key val xs))"
    by (simp add: dom_map_of_conv_image_fst)
  also have "\<dots> = key ` set xs"
    by (simp only: map_of_map_from dom_map_of_conv_image_fst) (auto simp: image_iff)
  finally show ?thesis .
qed

section \<open>The database\<close>

text \<open>
  \<open>fault n\<close> is the driver's error for the \<open>n\<close>-th statement the program sends, if that statement
  fails; \<open>clock n\<close> is the database clock when it runs it. A database program takes the
  environment, the number of the next statement and the state.
\<close>

record env =
  fault :: "nat \<Rightarrow> string option"
  clock :: "nat \<Rightarrow> time"

type_synonym ('s, 'a) db = "env \<Rightarrow> nat \<Rightarrow> 's \<Rightarrow> 'a result \<times> nat \<times> 's"

definition db_return :: "'a \<Rightarrow> ('s, 'a) db" where
  "db_return x e n s = (Inr x, n, s)"

definition db_fail :: "go_error \<Rightarrow> ('s, 'a) db" where
  "db_fail err e n s = (Inl err, n, s)"

definition db_bind :: "('s, 'a) db \<Rightarrow> ('a \<Rightarrow> ('s, 'b) db) \<Rightarrow> ('s, 'b) db" where
  "db_bind m f e n s =
     (case m e n s of (Inl err, n', s') \<Rightarrow> (Inl err, n', s') | (Inr x, n', s') \<Rightarrow> f x e n' s')"

text \<open>One statement: on a driver error the state is unchanged and the error is wrapped by \<open>wrap\<close>
  (the call's \<open>fmt.Errorf\<close>); otherwise \<open>g\<close> runs at the clock of the statement.\<close>

definition db_stmt :: "(go_error \<Rightarrow> go_error) \<Rightarrow> (time \<Rightarrow> 's \<Rightarrow> 'a result \<times> 's) \<Rightarrow> ('s, 'a) db" where
  "db_stmt wrap g e n s =
     (case fault e n of
        Some msg \<Rightarrow> (Inl (wrap (Driver msg)), Suc n, s)
      | None \<Rightarrow> (case g (clock e n) s of (r, s') \<Rightarrow> (r, Suc n, s')))"

text \<open>A statement that only reads, and one that only writes.\<close>

definition db_read :: "(go_error \<Rightarrow> go_error) \<Rightarrow> (time \<Rightarrow> 's \<Rightarrow> 'a result) \<Rightarrow> ('s, 'a) db" where
  "db_read wrap f = db_stmt wrap (\<lambda>t s. (f t s, s))"

definition db_write :: "(go_error \<Rightarrow> go_error) \<Rightarrow> (time \<Rightarrow> 's \<Rightarrow> 's) \<Rightarrow> ('s, unit) db" where
  "db_write wrap g = db_stmt wrap (\<lambda>t s. (Inr (), g t s))"

text \<open>A value the program computes without the database, which may be an error.\<close>

definition db_lift :: "'a result \<Rightarrow> ('s, 'a) db" where
  "db_lift r e n s = (r, n, s)"

text \<open>A transaction: \<open>BeginTx\<close>, the body, \<open>Commit\<close>; the deferred \<open>Rollback\<close> restores the state
  when the body or the commit fails. The body gets the transaction's \<open>now()\<close>.\<close>

definition db_tx :: "string \<Rightarrow> (time \<Rightarrow> ('s, 'a) db) \<Rightarrow> string \<Rightarrow> ('s, 'a) db" where
  "db_tx begin_msg body commit_msg e n s =
     (case fault e n of
        Some msg \<Rightarrow> (Inl (Wrapf begin_msg (Driver msg)), Suc n, s)
      | None \<Rightarrow>
          (case body (clock e n) e (Suc n) s of
             (Inl err, n', s') \<Rightarrow> (Inl err, n', s)
           | (Inr x, n', s') \<Rightarrow>
               (case fault e n' of
                  Some msg \<Rightarrow> (Inl (Wrapf commit_msg (Driver msg)), Suc n', s)
                | None \<Rightarrow> (Inr x, Suc n', s'))))"

text \<open>A transaction whose paths commit with texts of their own: the body returns the text with the result.\<close>

definition db_txm :: "string \<Rightarrow> (time \<Rightarrow> ('s, string \<times> 'a) db) \<Rightarrow> ('s, 'a) db" where
  "db_txm begin_msg body e n s =
     (case fault e n of
        Some msg \<Rightarrow> (Inl (Wrapf begin_msg (Driver msg)), Suc n, s)
      | None \<Rightarrow>
          (case body (clock e n) e (Suc n) s of
             (Inl err, n', s') \<Rightarrow> (Inl err, n', s)
           | (Inr (commit_msg, x), n', s') \<Rightarrow>
               (case fault e n' of
                  Some msg \<Rightarrow> (Inl (Wrapf commit_msg (Driver msg)), Suc n', s)
                | None \<Rightarrow> (Inr x, Suc n', s'))))"

text \<open>A loop over a list whose body may fail stops at the first error.\<close>

fun db_foreach :: "'x list \<Rightarrow> ('x \<Rightarrow> ('s, unit) db) \<Rightarrow> ('s, unit) db" where
  "db_foreach [] f = db_return ()"
| "db_foreach (x # xs) f = db_bind (f x) (\<lambda>_. db_foreach xs f)"

text \<open>A best-effort call: the code logs the error and goes on.\<close>

definition db_ignore :: "('s, 'a) db \<Rightarrow> ('s, unit) db" where
  "db_ignore m e n s = (case m e n s of (_, n', s') \<Rightarrow> (Inr (), n', s'))"

text \<open>A call whose error is wrapped by its caller.\<close>

definition db_wrap :: "string \<Rightarrow> ('s, 'a) db \<Rightarrow> ('s, 'a) db" where
  "db_wrap p m e n s = (case m e n s of (Inl err, n', s') \<Rightarrow> (Inl (Wrapf p err), n', s') | (Inr x, n', s') \<Rightarrow> (Inr x, n', s'))"

lemma db_wrap_run: "db_wrap p m e n s = (r, n', s') \<Longrightarrow> \<exists>r'. m e n s = (r', n', s')"
  by (auto simp: db_wrap_def split: prod.splits sum.splits)

text \<open>The result of a call as a value, for code that inspects the error.\<close>

definition db_try :: "('s, 'a) db \<Rightarrow> ('s, 'a result) db" where
  "db_try m e n s = (case m e n s of (r, n', s') \<Rightarrow> (Inr r, n', s'))"

lemmas db_defs = db_return_def db_fail_def db_bind_def db_stmt_def db_ignore_def db_try_def

lemma db_return_run [db_run, simp]: "db_return x e n s = (Inr x, n, s)"
  by (simp add: db_return_def)

lemma db_fail_run [db_run, simp]: "db_fail err e n s = (Inl err, n, s)"
  by (simp add: db_fail_def)

lemma db_bind_Inr:
  "db_bind m f e n s = (Inr y, n2, s2) \<longleftrightarrow>
     (\<exists>x n1 s1. m e n s = (Inr x, n1, s1) \<and> f x e n1 s1 = (Inr y, n2, s2))"
  by (auto simp: db_bind_def split: prod.splits sum.splits)

lemma db_stmt_Inr:
  "db_stmt wrap g e n s = (Inr y, n2, s2) \<longleftrightarrow>
     fault e n = None \<and> n2 = Suc n \<and> g (clock e n) s = (Inr y, s2)"
  by (auto simp: db_stmt_def split: option.splits prod.splits)

lemma db_tx_Inr:
  "db_tx b body c e n s = (Inr y, n2, s2) \<longleftrightarrow>
     fault e n = None \<and>
     (\<exists>n1. body (clock e n) e (Suc n) s = (Inr y, n1, s2) \<and> fault e n1 = None \<and> n2 = Suc n1)"
  by (auto simp: db_tx_def split: option.splits prod.splits sum.splits)

lemma db_read_Inr:
  "db_read wrap f e n s = (Inr y, n2, s2) \<longleftrightarrow> fault e n = None \<and> n2 = Suc n \<and> s2 = s \<and> f (clock e n) s = Inr y"
  by (auto simp: db_read_def db_stmt_Inr)

lemma db_write_Inr:
  "db_write wrap g e n s = (Inr y, n2, s2) \<longleftrightarrow> fault e n = None \<and> n2 = Suc n \<and> s2 = g (clock e n) s"
  by (auto simp: db_write_def db_stmt_Inr)

lemma db_lift_Inr: "db_lift r e n s = (Inr y, n2, s2) \<longleftrightarrow> r = Inr y \<and> n2 = n \<and> s2 = s"
  by (auto simp: db_lift_def)

lemma db_lift_run [db_run, simp]: "db_lift (Inr y) = db_return y" "db_lift (Inl err) = db_fail err"
  by (simp_all add: fun_eq_iff db_lift_def db_return_def db_fail_def)

lemma db_if_Inr:
  "(if b then p else q) e n s = (Inr y, n2, s2) \<longleftrightarrow> (b \<longrightarrow> p e n s = (Inr y, n2, s2)) \<and> (\<not> b \<longrightarrow> q e n s = (Inr y, n2, s2))"
  by simp

text \<open>A transaction that reports an error leaves the state as it was.\<close>

lemma db_tx_Inl: "db_tx b body c e n s = (Inl err, n2, s2) \<Longrightarrow> s2 = s"
  by (auto simp: db_tx_def split: option.splits prod.splits sum.splits)

lemma db_txm_Inr:
  "db_txm b body e n s = (Inr y, n2, s2) \<longleftrightarrow>
     fault e n = None \<and>
     (\<exists>c n1. body (clock e n) e (Suc n) s = (Inr (c, y), n1, s2) \<and> fault e n1 = None \<and> n2 = Suc n1)"
  by (auto simp: db_txm_def split: option.splits prod.splits sum.splits)

lemma db_txm_Inl: "db_txm b body e n s = (Inl err, n2, s2) \<Longrightarrow> s2 = s"
  by (auto simp: db_txm_def split: option.splits prod.splits sum.splits)

lemmas db_Inr = db_bind_Inr db_read_Inr db_write_Inr db_lift_Inr db_if_Inr db_stmt_Inr

definition no_faults :: "env \<Rightarrow> bool" where
  "no_faults e = (\<forall>n. fault e n = None)"

text \<open>An environment in which no statement fails and the clock reads \<open>t + n\<close> at statement \<open>n\<close>.\<close>

definition calm_env :: "time \<Rightarrow> env" where
  "calm_env t = \<lparr>fault = (\<lambda>_. None), clock = (\<lambda>n. t + int n)\<rparr>"

lemma calm_env_simps [simp]: "fault (calm_env t) n = None" "clock (calm_env t) n = t + int n"
  by (simp_all add: calm_env_def)

lemma no_faults_calm [simp]: "no_faults (calm_env t)"
  by (simp add: no_faults_def)

subsection \<open>Reasoning about database programs\<close>

text \<open>\<open>db_does m v g\<close>: whenever \<open>m\<close> succeeds it returns \<open>v s\<close> and leaves \<open>g s\<close>. \<open>db_total m\<close>: without
  faults \<open>m\<close> succeeds.\<close>

definition db_does :: "('s, 'a) db \<Rightarrow> ('s \<Rightarrow> 'a) \<Rightarrow> ('s \<Rightarrow> 's) \<Rightarrow> bool" where
  "db_does m v g \<longleftrightarrow> (\<forall>e n s r n' s'. m e n s = (Inr r, n', s') \<longrightarrow> r = v s \<and> s' = g s)"

definition db_total :: "('s, 'a) db \<Rightarrow> bool" where
  "db_total m \<longleftrightarrow> (\<forall>e n s. no_faults e \<longrightarrow> (\<exists>r n' s'. m e n s = (Inr r, n', s')))"

named_theorems db_rules "rules for what a database program does"

lemma db_doesD: "db_does m v g \<Longrightarrow> m e n s = (Inr r, n', s') \<Longrightarrow> r = v s \<and> s' = g s"
  by (auto simp: db_does_def)

lemma db_totalD: "db_total m \<Longrightarrow> no_faults e \<Longrightarrow> \<exists>r n' s'. m e n s = (Inr r, n', s')"
  by (simp add: db_total_def)

lemma db_does_return [db_rules]: "db_does (db_return x) (\<lambda>_. x) (\<lambda>s. s)"
  by (simp add: db_does_def)

lemma db_does_stmt [db_rules]: "db_does (db_stmt wrap (\<lambda>t s. (Inr (v s), g s))) v g"
  by (auto simp: db_does_def db_stmt_def split: option.splits)

lemma db_does_bind:
  assumes "db_does m v g" and "\<And>x. db_does (f x) (w x) (h x)"
  shows "db_does (db_bind m f) (\<lambda>s. w (v s) (g s)) (\<lambda>s. h (v s) (g s))"
  using assms by (fastforce simp: db_does_def db_bind_Inr)

lemma db_does_foreach:
  assumes "\<And>x. x \<in> set xs \<Longrightarrow> db_does (f x) (\<lambda>_. ()) (g x)"
  shows "db_does (db_foreach xs f) (\<lambda>_. ()) (fold g xs)"
  using assms
proof (induction xs)
  case Nil
  then show ?case by (simp add: db_does_def)
next
  case (Cons x xs)
  then have "db_does (db_bind (f x) (\<lambda>_. db_foreach xs f)) (\<lambda>s. ()) (\<lambda>s. fold g xs (g x s))"
    by (intro db_does_bind [where w = "\<lambda>_ _. ()" and h = "\<lambda>_. fold g xs" and v = "\<lambda>_. ()" and g = "g x"]) auto
  then show ?case by (simp add: comp_def)
qed

lemma db_does_cong: "db_does m v g \<Longrightarrow> v = v' \<Longrightarrow> g = g' \<Longrightarrow> db_does m v' g'"
  by simp

lemma db_total_return [db_rules]: "db_total (db_return x)"
  by (simp add: db_total_def)

lemma db_total_stmt [db_rules]: "db_total (db_stmt wrap (\<lambda>t s. (Inr (v t s), g t s)))"
  by (simp add: db_total_def db_stmt_def no_faults_def)

lemma db_total_bind [db_rules]: "db_total m \<Longrightarrow> (\<And>x. db_total (f x)) \<Longrightarrow> db_total (db_bind m f)"
  unfolding db_total_def
proof (intro allI impI)
  fix e :: env and n s
  assume m: "\<forall>e n s. no_faults e \<longrightarrow> (\<exists>r n' s'. m e n s = (Inr r, n', s'))"
    and f: "\<And>x. \<forall>e n s. no_faults e \<longrightarrow> (\<exists>r n' s'. f x e n s = (Inr r, n', s'))"
    and e: "no_faults e"
  from m e obtain x n1 s1 where 1: "m e n s = (Inr x, n1, s1)" by blast
  from f [of x] e obtain y n2 s2 where "f x e n1 s1 = (Inr y, n2, s2)" by blast
  with 1 show "\<exists>r n' s'. db_bind m f e n s = (Inr r, n', s')" by (auto simp: db_bind_Inr)
qed

lemma db_total_foreach [db_rules]: "(\<And>x. db_total (f x)) \<Longrightarrow> db_total (db_foreach xs f)"
  by (induction xs) (auto intro: db_rules)

lemma db_does_total_run:
  assumes "db_does m v g" and "db_total m" and "no_faults e"
  shows "\<exists>n'. m e n s = (Inr (v s), n', g s)"
  using db_totalD [OF assms(2,3), of n s] db_doesD [OF assms(1)] by metis

text \<open>\<open>db_keeps R m\<close>: whatever happens, \<open>m\<close> relates the state before it to the one after it.\<close>

definition db_keeps :: "('s \<Rightarrow> 's \<Rightarrow> bool) \<Rightarrow> ('s, 'a) db \<Rightarrow> bool" where
  "db_keeps R m = (\<forall>e n s r n' s'. m e n s = (r, n', s') \<longrightarrow> R s s')"

lemma db_keepsD: "db_keeps R m \<Longrightarrow> m e n s = (r, n', s') \<Longrightarrow> R s s'"
  by (auto simp: db_keeps_def)

lemma db_keeps_mono: "db_keeps R m \<Longrightarrow> (\<And>s s'. R s s' \<Longrightarrow> Q s s') \<Longrightarrow> db_keeps Q m"
  by (auto simp: db_keeps_def)

named_theorems db_keeps_rules "rules for what a database program keeps"

lemma db_keeps_return [db_keeps_rules]: "(\<And>s. R s s) \<Longrightarrow> db_keeps R (db_return x)"
  by (auto simp: db_keeps_def)

lemma db_keeps_fail [db_keeps_rules]: "(\<And>s. R s s) \<Longrightarrow> db_keeps R (db_fail x)"
  by (auto simp: db_keeps_def)

lemma db_keeps_stmt [db_keeps_rules]:
  "(\<And>s. R s s) \<Longrightarrow> (\<And>t s. R s (snd (g t s))) \<Longrightarrow> db_keeps R (db_stmt wrap g)"
  by (auto simp: db_keeps_def db_stmt_def split: option.splits prod.splits) (metis snd_conv)

lemma db_keeps_bind [db_keeps_rules]:
  assumes "\<And>a b c. R a b \<Longrightarrow> R b c \<Longrightarrow> R a c" and "db_keeps R m" and "\<And>x. db_keeps R (f x)"
  shows "db_keeps R (db_bind m f)"
  unfolding db_keeps_def
proof (intro allI impI)
  fix e n s r n' s' assume "db_bind m f e n s = (r, n', s')"
  then show "R s s'"
    using db_keepsD [OF assms(2)] db_keepsD [OF assms(3)] assms(1)
    by (auto simp: db_bind_def split: prod.splits sum.splits) blast+
qed

lemma db_keeps_tx [db_keeps_rules]: "(\<And>s. R s s) \<Longrightarrow> (\<And>t. db_keeps R (body t)) \<Longrightarrow> db_keeps R (db_tx b body c)"
  unfolding db_keeps_def by (auto simp: db_tx_def split: option.splits prod.splits sum.splits)

lemma db_keeps_try [db_keeps_rules]: "db_keeps R m \<Longrightarrow> db_keeps R (db_try m)"
  by (auto simp: db_keeps_def db_try_def split: prod.splits)

lemma db_keeps_ignore [db_keeps_rules]: "db_keeps R m \<Longrightarrow> db_keeps R (db_ignore m)"
  by (auto simp: db_keeps_def db_ignore_def split: prod.splits)

lemma db_keeps_wrap [db_keeps_rules]: "db_keeps R m \<Longrightarrow> db_keeps R (db_wrap p m)"
  unfolding db_keeps_def by (auto dest!: db_wrap_run)

lemma db_keeps_read [db_keeps_rules]: "(\<And>s. R s s) \<Longrightarrow> db_keeps R (db_read wrap f)"
  by (auto simp: db_read_def intro: db_keeps_stmt)

lemma db_keeps_write [db_keeps_rules]: "(\<And>s. R s s) \<Longrightarrow> (\<And>t s. R s (g t s)) \<Longrightarrow> db_keeps R (db_write wrap g)"
  by (auto simp: db_write_def intro: db_keeps_stmt)

lemma db_keeps_lift [db_keeps_rules]: "(\<And>s. R s s) \<Longrightarrow> db_keeps R (db_lift r)"
  by (auto simp: db_keeps_def db_lift_def)

text \<open>\<open>db_commits R m\<close>: when \<open>m\<close> succeeds. A transaction that fails leaves the state as it was, so for
  the body of a transaction this is enough.\<close>

definition db_commits :: "('s \<Rightarrow> 's \<Rightarrow> bool) \<Rightarrow> ('s, 'a) db \<Rightarrow> bool" where
  "db_commits R m = (\<forall>e n s x n' s'. m e n s = (Inr x, n', s') \<longrightarrow> R s s')"

named_theorems db_commits_rules "rules for what a database program that succeeds leaves"

lemma db_commitsI: "(\<And>e n s x n' s'. m e n s = (Inr x, n', s') \<Longrightarrow> R s s') \<Longrightarrow> db_commits R m"
  by (auto simp: db_commits_def)

lemma db_commitsD: "db_commits R m \<Longrightarrow> m e n s = (Inr x, n', s') \<Longrightarrow> R s s'"
  by (auto simp: db_commits_def)

lemma db_keeps_commits: "db_keeps R m \<Longrightarrow> db_commits R m"
  by (auto simp: db_commits_def db_keeps_def)

lemma db_commits_return [db_commits_rules]: "(\<And>s. R s s) \<Longrightarrow> db_commits R (db_return x)"
  by (auto simp: db_commits_def)

lemma db_commits_fail [db_commits_rules]: "db_commits R (db_fail x)"
  by (auto simp: db_commits_def)

lemma db_commits_bind [db_commits_rules]:
  "(\<And>a b c. R a b \<Longrightarrow> R b c \<Longrightarrow> R a c) \<Longrightarrow> db_commits R m \<Longrightarrow> (\<And>x. db_commits R (f x)) \<Longrightarrow> db_commits R (db_bind m f)"
  unfolding db_commits_def db_bind_Inr by blast

lemma db_commits_read [db_commits_rules]: "(\<And>s. R s s) \<Longrightarrow> db_commits R (db_read wrap f)"
  by (auto simp: db_commits_def db_read_Inr)

lemma db_keeps_tx_commits: "(\<And>s. R s s) \<Longrightarrow> (\<And>t. db_commits R (body t)) \<Longrightarrow> db_keeps R (db_tx b body c)"
  unfolding db_keeps_def db_commits_def by (auto simp: db_tx_def split: option.splits prod.splits sum.splits)

lemma db_keeps_txm_commits: "(\<And>s. R s s) \<Longrightarrow> (\<And>t. db_commits R (body t)) \<Longrightarrow> db_keeps R (db_txm b body)"
  unfolding db_keeps_def db_commits_def by (auto simp: db_txm_def split: option.splits prod.splits sum.splits)

text \<open>A context that may be done: \<open>done_at n\<close> is its error when the program asks before the \<open>n\<close>-th
  statement.\<close>

definition db_ctx :: "(nat \<Rightarrow> go_error option) \<Rightarrow> ('s, unit) db" where
  "db_ctx done_at e n s = (case done_at n of Some err \<Rightarrow> (Inl err, n, s) | None \<Rightarrow> (Inr (), n, s))"

lemma db_keeps_ctx [db_keeps_rules]: "(\<And>s. R s s) \<Longrightarrow> db_keeps R (db_ctx done_at)"
  by (auto simp: db_keeps_def db_ctx_def split: option.splits)

lemma db_keeps_foreach [db_keeps_rules]:
  "(\<And>a b c. R a b \<Longrightarrow> R b c \<Longrightarrow> R a c) \<Longrightarrow> (\<And>s. R s s) \<Longrightarrow> (\<And>x. db_keeps R (f x)) \<Longrightarrow> db_keeps R (db_foreach xs f)"
  by (induction xs) (auto intro: db_keeps_return db_keeps_bind)

end
