(* ===== verification/Severity.thy ===== *)
theory Severity
  imports Sha256
begin

text \<open>
  Package \<open>pkg/data\<close>: the scanner-agnostic vulnerability (\<open>vuln.go\<close>) and the severity order
  (\<open>severity.go\<close>). The severity, event type and cause of a row are texts, as in the code and in
  the database; the abbreviations name the code's constants.
\<close>

abbreviation SeverityCritical :: string where "SeverityCritical \<equiv> ''critical''"
abbreviation SeverityHigh :: string where "SeverityHigh \<equiv> ''high''"
abbreviation SeverityMedium :: string where "SeverityMedium \<equiv> ''medium''"
abbreviation SeverityLow :: string where "SeverityLow \<equiv> ''low''"
abbreviation SeverityNegligible :: string where "SeverityNegligible \<equiv> ''negligible''"
abbreviation SeverityUnknown :: string where "SeverityUnknown \<equiv> ''unknown''"

abbreviation EventAdded :: string where "EventAdded \<equiv> ''added''"
abbreviation EventResolved :: string where "EventResolved \<equiv> ''resolved''"
abbreviation EventRerated :: string where "EventRerated \<equiv> ''rerated''"
abbreviation EventFixed :: string where "EventFixed \<equiv> ''fixed''"

abbreviation CauseImage :: string where "CauseImage \<equiv> ''image''"
abbreviation CauseDB :: string where "CauseDB \<equiv> ''db''"
abbreviation CauseTooling :: string where "CauseTooling \<equiv> ''tooling''"

section \<open>Vulnerabilities\<close>

text \<open>A score is a finite \<open>float32\<close>, which is a rational number; the code only compares scores
  with \<open>!=\<close>, which on finite values is inequality of the numbers.\<close>

record vulnerability =
  Exposure :: string
  Package :: string
  Version :: string
  Severity :: string
  Score :: rat
  IsFixed :: bool

definition identity_text :: "vulnerability \<Rightarrow> string" where
  "identity_text v = Exposure v @ ''/'' @ Package v @ ''/'' @ Version v"

definition GetID :: "vulnerability \<Rightarrow> string" where
  "GetID v = sha256_hex (identity_text v)"

definition NormalizeSeverity :: "string \<Rightarrow> string" where
  "NormalizeSeverity s =
     (let t = ToLower (TrimSpace s) in
      if t = ''critical'' then SeverityCritical
      else if t = ''high'' then SeverityHigh
      else if t = ''medium'' \<or> t = ''moderate'' then SeverityMedium
      else if t = ''low'' then SeverityLow
      else if t = ''negligible'' \<or> t = ''none'' then SeverityNegligible
      else SeverityUnknown)"

section \<open>Severity order and thresholds\<close>

definition severityRank :: "(string, nat) gomap" where
  "severityRank =
     [(SeverityCritical, 5), (SeverityHigh, 4), (SeverityMedium, 3), (SeverityLow, 2), (SeverityNegligible, 1)]"

abbreviation DefaultMinSeverity :: string where "DefaultMinSeverity \<equiv> SeverityMedium"

definition ValidMinSeverity :: "string \<Rightarrow> bool" where
  "ValidMinSeverity s = (map_of severityRank s \<noteq> None)"

text \<open>The rank of a minimum, with the default for a text that is not a severity.\<close>

definition min_rank :: "string \<Rightarrow> nat" where
  "min_rank m = (case map_of severityRank m of Some r \<Rightarrow> r
                   | None \<Rightarrow> the (map_of severityRank DefaultMinSeverity))"

definition MeetsThreshold :: "string \<Rightarrow> string \<Rightarrow> bool" where
  "MeetsThreshold sev m =
     (if sev = SeverityUnknown then True
      else case map_of severityRank sev of
             None \<Rightarrow> True
           | Some r \<Rightarrow> min_rank m \<le> r)"

text \<open>The code appends the matching keys in Go's unspecified map order; the callers use the result
  as a set, and the model fixes the order of the table above.\<close>

definition allowedSeverities :: "string \<Rightarrow> bool \<Rightarrow> string list" where
  "allowedSeverities m includeUnknown =
     map fst (filter (\<lambda>(sev, r). min_rank m \<le> r) severityRank) @
     (if includeUnknown then [SeverityUnknown] else [])"

definition AllowedSeverities :: "string \<Rightarrow> string list" where
  "AllowedSeverities m = allowedSeverities m True"

definition AllowedSeveritiesStrict :: "string \<Rightarrow> string list" where
  "AllowedSeveritiesStrict m = allowedSeverities m False"

section \<open>Lemmas\<close>

lemma severityRank_Some:
  "map_of severityRank s = Some r \<longleftrightarrow>
     (s = SeverityCritical \<and> r = 5) \<or> (s = SeverityHigh \<and> r = 4) \<or> (s = SeverityMedium \<and> r = 3) \<or>
     (s = SeverityLow \<and> r = 2) \<or> (s = SeverityNegligible \<and> r = 1)"
  by (auto simp: severityRank_def)

lemma severityRank_mem: "(s, r) \<in> set severityRank \<longleftrightarrow> map_of severityRank s = Some r"
  by (auto simp: severityRank_def)

lemma severityRank_unknown [simp]: "map_of severityRank SeverityUnknown = None"
  by (simp add: severityRank_def)

lemma set_allowedSeverities:
  "sev \<in> set (allowedSeverities m u) \<longleftrightarrow>
     (\<exists>r. map_of severityRank sev = Some r \<and> min_rank m \<le> r) \<or> (u \<and> sev = SeverityUnknown)"
  by (auto simp: allowedSeverities_def severityRank_mem image_iff)

lemma NormalizeSeverity_range:
  "NormalizeSeverity s \<in> {SeverityCritical, SeverityHigh, SeverityMedium, SeverityLow, SeverityNegligible, SeverityUnknown}"
  by (simp add: NormalizeSeverity_def Let_def)

lemma NormalizeSeverity_known:
  "NormalizeSeverity s = SeverityUnknown \<or> (\<exists>r. map_of severityRank (NormalizeSeverity s) = Some r)"
  by (simp add: NormalizeSeverity_def Let_def severityRank_Some)

lemma min_rank_le: "min_rank m \<le> 5"
  by (auto simp: min_rank_def severityRank_Some severityRank_def split: option.splits)

text \<open>
  The two readings of a tenant's severity threshold agree: the list the store puts into its
  SQL filter holds exactly the severities that the predicate used by alerting lets through,
  among those a converter can produce. (A text that is no severity passes the predicate and is
  not in the list.)
\<close>

theorem AllowedSeverities_iff_MeetsThreshold:
  "(sev \<in> set (AllowedSeverities m) \<longleftrightarrow>
      MeetsThreshold sev m \<and> (sev = SeverityUnknown \<or> ValidMinSeverity sev)) \<and>
   (NormalizeSeverity s \<in> set (AllowedSeverities m) \<longleftrightarrow> MeetsThreshold (NormalizeSeverity s) m) \<and>
   set (AllowedSeveritiesStrict m) = set (AllowedSeverities m) - {SeverityUnknown}"
  using NormalizeSeverity_known [of s]
  by (auto simp: AllowedSeverities_def AllowedSeveritiesStrict_def set_allowedSeverities
      MeetsThreshold_def ValidMinSeverity_def split: option.splits)

text \<open>Lowering the threshold never hides a finding, and the lowest one shows everything.\<close>

lemma MeetsThreshold_mono:
  "MeetsThreshold sev m \<Longrightarrow> min_rank m' \<le> min_rank m \<Longrightarrow> MeetsThreshold sev m'"
  by (auto simp: MeetsThreshold_def split: option.splits)

lemma MeetsThreshold_negligible: "MeetsThreshold sev SeverityNegligible"
proof -
  have "min_rank SeverityNegligible = 1" by (simp add: min_rank_def severityRank_def)
  then show ?thesis by (auto simp: MeetsThreshold_def severityRank_Some split: option.splits)
qed

section \<open>Finding identity\<close>

lemma identity_text_inj:
  assumes "identity_text v = identity_text w"
    and "CHR ''/'' \<notin> set (Exposure v)" and "CHR ''/'' \<notin> set (Exposure w)"
    and "CHR ''/'' \<notin> set (Version v)" and "CHR ''/'' \<notin> set (Version w)"
  shows "Exposure v = Exposure w \<and> Package v = Package w \<and> Version v = Version w"
proof -
  from assms have e: "Exposure v = Exposure w"
    and rest: "Package v @ CHR ''/'' # Version v = Package w @ CHR ''/'' # Version w"
    using split_at_inj [of "Exposure v" "CHR ''/''" "Package v @ CHR ''/'' # Version v" "Exposure w"] by (auto simp: identity_text_def)
  from rest have "rev (Version v) @ CHR ''/'' # rev (Package v) = rev (Version w) @ CHR ''/'' # rev (Package w)"
    by (metis append_Cons append_assoc append_Nil rev.simps(2) rev_append rev_rev_ident)
  with split_at_inj [of "rev (Version v)" "CHR ''/''" "rev (Package v)" "rev (Version w)" "rev (Package w)"] assms
  have "rev (Version v) = rev (Version w)" "rev (Package v) = rev (Package w)" by auto
  with e show ?thesis by simp
qed

lemma GetID_cong: "identity_text v = identity_text w \<Longrightarrow> GetID v = GetID w"
  by (simp add: GetID_def)

end
