(* ===== verification/License_Expr.thy ===== *)
theory License_Expr
  imports Prelude
begin

text \<open>
  SPDX license expressions: \<open>pkg/data/license_expr.go\<close>. The tokenizer, the recursive-descent
  parser and the evaluator of the AST. The parser's state is the list of tokens not yet
  consumed (the code's \<open>toks\<close> from index \<open>pos\<close> on) and the \<open>malformed\<close> flag; \<open>nil\<close> nodes are
  \<^const>\<open>None\<close>.

  The four grammar functions call each other and loop, so the model gives them fuel, one unit per
  call; \<open>None\<close> as the whole result would be "out of fuel". \<open>parse_enough\<close> shows that four units
  per token and four more always suffice, so the exported parser is total.
\<close>

section \<open>Tokens\<close>

fun tokenize_loop :: "string \<Rightarrow> string \<Rightarrow> string list" where
  "tokenize_loop [] cur = (if cur = [] then [] else [cur])"
| "tokenize_loop (r # rs) cur =
     (if r = CHR ''('' \<or> r = CHR '')'' then
        (if cur = [] then [] else [cur]) @ [[r]] @ tokenize_loop rs []
      else if r = CHR '' '' \<or> r = CHR 0x09 \<or> r = CHR 0x0A \<or> r = CHR 0x0D then
        (if cur = [] then [] else [cur]) @ tokenize_loop rs []
      else tokenize_loop rs (cur @ [r]))"

definition tokenizeExpr :: "string \<Rightarrow> string list" where
  "tokenizeExpr expr = tokenize_loop expr []"

definition isKeyword :: "string \<Rightarrow> string \<Rightarrow> bool" where
  "isKeyword tok kw = EqualFold tok kw"

section \<open>Parser\<close>

datatype exprNode =
    Leaf (license: string) (excep: string)
  | AndNode "exprNode list"
  | OrNode "exprNode list"

record exprParser =
  toks :: "string list"
  malformed :: bool

definition peek :: "exprParser \<Rightarrow> string" where
  "peek p = (case toks p of [] \<Rightarrow> [] | t # _ \<Rightarrow> t)"

definition advance :: "exprParser \<Rightarrow> exprParser" where
  "advance p = p\<lparr>toks := tl (toks p)\<rparr>"

abbreviation mark :: "exprParser \<Rightarrow> exprParser" where
  "mark p \<equiv> p\<lparr>malformed := True\<rparr>"

text \<open>\<open>parseWith\<close> after its primary: the optional exception.\<close>

definition with_suffix :: "exprNode \<Rightarrow> exprParser \<Rightarrow> exprNode \<times> exprParser" where
  "with_suffix node p =
     (if isKeyword (peek p) ''with'' then
        (let p1 = advance p; exc = peek p1; p2 = advance p1 in
         if exc = [] \<or> isKeyword exc ''or'' \<or> isKeyword exc ''and'' \<or> exc = ''('' \<or> exc = '')''
         then (node, mark p2)
         else case node of Leaf l x \<Rightarrow> (Leaf l exc, p2) | _ \<Rightarrow> (node, p2))
      else (node, p))"

type_synonym 'a parsed = "('a \<times> exprParser) option"

definition wrap_nodes :: "(exprNode list \<Rightarrow> exprNode) \<Rightarrow> exprNode list \<Rightarrow> exprNode" where
  "wrap_nodes node nodes = (case nodes of [n] \<Rightarrow> n | _ \<Rightarrow> node nodes)"

fun parseOr :: "nat \<Rightarrow> exprParser \<Rightarrow> exprNode option parsed"
  and or_loop :: "nat \<Rightarrow> exprNode list \<Rightarrow> exprParser \<Rightarrow> exprNode list parsed"
  and parseAnd :: "nat \<Rightarrow> exprParser \<Rightarrow> exprNode option parsed"
  and and_loop :: "nat \<Rightarrow> exprNode list \<Rightarrow> exprParser \<Rightarrow> exprNode list parsed"
  and parseWith :: "nat \<Rightarrow> exprParser \<Rightarrow> exprNode option parsed"
  and parsePrimary :: "nat \<Rightarrow> exprParser \<Rightarrow> exprNode option parsed"
where
  "parseOr 0 p = None"
| "parseOr (Suc f) p =
     (case parseAnd f p of
        None \<Rightarrow> None
      | Some (None, p1) \<Rightarrow> Some (None, p1)
      | Some (Some left, p1) \<Rightarrow>
          map_option (\<lambda>(nodes, p2). (Some (wrap_nodes OrNode nodes), p2)) (or_loop f [left] p1))"
| "or_loop 0 nodes p = None"
| "or_loop (Suc f) nodes p =
     (if isKeyword (peek p) ''or'' then
        (case parseAnd f (advance p) of
           None \<Rightarrow> None
         | Some (None, p1) \<Rightarrow> Some (nodes, mark p1)
         | Some (Some right, p1) \<Rightarrow> or_loop f (nodes @ [right]) p1)
      else Some (nodes, p))"
| "parseAnd 0 p = None"
| "parseAnd (Suc f) p =
     (case parseWith f p of
        None \<Rightarrow> None
      | Some (None, p1) \<Rightarrow> Some (None, p1)
      | Some (Some left, p1) \<Rightarrow>
          map_option (\<lambda>(nodes, p2). (Some (wrap_nodes AndNode nodes), p2)) (and_loop f [left] p1))"
| "and_loop 0 nodes p = None"
| "and_loop (Suc f) nodes p =
     (if isKeyword (peek p) ''and'' then
        (case parseWith f (advance p) of
           None \<Rightarrow> None
         | Some (None, p1) \<Rightarrow> Some (nodes, mark p1)
         | Some (Some right, p1) \<Rightarrow> and_loop f (nodes @ [right]) p1)
      else Some (nodes, p))"
| "parseWith 0 p = None"
| "parseWith (Suc f) p =
     (case parsePrimary f p of
        None \<Rightarrow> None
      | Some (None, p1) \<Rightarrow> Some (None, p1)
      | Some (Some node, p1) \<Rightarrow> (case with_suffix node p1 of (n, p2) \<Rightarrow> Some (Some n, p2)))"
| "parsePrimary 0 p = None"
| "parsePrimary (Suc f) p =
     (let tok = peek p in
      if tok = [] then Some (None, p)
      else if tok = ''('' then
        (case parseOr f (advance p) of
           None \<Rightarrow> None
         | Some (inner, p1) \<Rightarrow>
             (let p2 = (if inner = None then mark p1 else p1) in
              if peek p2 = '')'' then Some (inner, advance p2) else Some (inner, mark p2)))
      else if tok = '')'' then Some (None, mark p)
      else if isKeyword tok ''or'' \<or> isKeyword tok ''and'' \<or> isKeyword tok ''with''
      then Some (None, mark p)
      else Some (Some (Leaf tok []), advance p))"

definition parse_fuel :: "string list \<Rightarrow> nat" where
  "parse_fuel ts = 4 * length ts + 4"

text \<open>\<open>None\<close> would be a parse that runs out of fuel; see \<open>parse_total\<close>.\<close>

definition parse_tokens :: "string list \<Rightarrow> (exprNode option \<times> bool) option" where
  "parse_tokens ts =
     (case parseOr (parse_fuel ts) \<lparr>toks = ts, malformed = False\<rparr> of
        None \<Rightarrow> None
      | Some (ast, p) \<Rightarrow>
          Some (ast, malformed p \<or> toks p \<noteq> [] \<or> (ast = None \<and> ts \<noteq> [])))"

definition parseLicenseExpressionChecked :: "string \<Rightarrow> exprNode option \<times> bool" where
  "parseLicenseExpressionChecked expr = the (parse_tokens (tokenizeExpr expr))"

definition parseLicenseExpression :: "string \<Rightarrow> exprNode option" where
  "parseLicenseExpression expr = fst (parseLicenseExpressionChecked expr)"

section \<open>Evaluation\<close>

text \<open>A leaf predicate says whether a license, with its exception, is denied and how to show it.
  \<open>offending\<close> is the code's out-parameter.\<close>

type_synonym deniedLeaf = "string \<Rightarrow> string \<Rightarrow> bool \<times> string"

fun eval :: "deniedLeaf \<Rightarrow> exprNode \<Rightarrow> string list \<Rightarrow> bool \<times> string list"
  and eval_and :: "deniedLeaf \<Rightarrow> exprNode list \<Rightarrow> bool \<Rightarrow> string list \<Rightarrow> bool \<times> string list"
  and eval_or :: "deniedLeaf \<Rightarrow> exprNode list \<Rightarrow> bool \<Rightarrow> string list \<Rightarrow> bool \<times> string list"
where
  "eval isDenied (Leaf l x) offending =
     (case isDenied l x of (denied, display) \<Rightarrow>
        if denied then (False, offending @ [display]) else (True, offending))"
| "eval isDenied (AndNode cs) offending = eval_and isDenied cs True offending"
| "eval isDenied (OrNode cs) offending =
     (case eval_or isDenied cs False [] of (anyAllowed, branchOffending) \<Rightarrow>
        if anyAllowed then (True, offending) else (False, offending @ branchOffending))"
| "eval_and isDenied [] ok offending = (ok, offending)"
| "eval_and isDenied (c # cs) ok offending =
     (case eval isDenied c offending of (b, off) \<Rightarrow> eval_and isDenied cs (ok \<and> b) off)"
| "eval_or isDenied [] anyAllowed branchOffending = (anyAllowed, branchOffending)"
| "eval_or isDenied (c # cs) anyAllowed branchOffending =
     (case eval isDenied c [] of (b, childOff) \<Rightarrow>
        eval_or isDenied cs (anyAllowed \<or> b) (if b then branchOffending else branchOffending @ childOff))"

section \<open>The parser is total\<close>

lemma isKeyword_Nil [simp]: "isKeyword [] ''or'' = False" "isKeyword [] ''and'' = False"
  "isKeyword [] ''with'' = False"
  by (simp_all add: isKeyword_def EqualFold_def)

lemma peek_keyword:
  "isKeyword (peek p) ''or'' \<Longrightarrow> toks p \<noteq> []" "isKeyword (peek p) ''and'' \<Longrightarrow> toks p \<noteq> []"
  "isKeyword (peek p) ''with'' \<Longrightarrow> toks p \<noteq> []"
  by (auto simp: peek_def split: list.splits)

lemma toks_advance [simp]: "toks (advance p) = tl (toks p)"
  by (simp add: advance_def)

lemma malformed_advance [simp]: "malformed (advance p) = malformed p"
  by (simp add: advance_def)

lemma with_suffix_shorter: "length (toks (snd (with_suffix node p))) \<le> length (toks p)"
  by (auto simp: with_suffix_def Let_def split: exprNode.splits)

text \<open>What each parsing function guarantees with enough fuel: it returns, it never gives tokens back,
  and a node has consumed at least one token.\<close>

definition shorter :: "'a option \<Rightarrow> exprParser \<Rightarrow> exprParser \<Rightarrow> bool" where
  "shorter r p p' \<longleftrightarrow> length (toks p') \<le> length (toks p) \<and>
     (r \<noteq> None \<longrightarrow> length (toks p') < length (toks p))"

definition returns_node :: "exprNode option parsed \<Rightarrow> exprParser \<Rightarrow> bool" where
  "returns_node res p \<longleftrightarrow> (\<exists>r p'. res = Some (r, p') \<and> shorter r p p')"

definition returns_nodes :: "exprNode list parsed \<Rightarrow> exprParser \<Rightarrow> bool" where
  "returns_nodes res p \<longleftrightarrow> (\<exists>ns p'. res = Some (ns, p') \<and> length (toks p') \<le> length (toks p))"

lemma returns_primary:
  assumes or: "\<And>q. 4 * length (toks q) + 4 \<le> f \<Longrightarrow> returns_node (parseOr f q) q"
    and fuel: "4 * length (toks p) + 1 \<le> Suc f"
  shows "returns_node (parsePrimary (Suc f) p) p"
proof (cases "toks p")
  case Nil
  then show ?thesis by (simp add: returns_node_def shorter_def peek_def)
next
  case (Cons t ts)
  show ?thesis
  proof (cases "t = ''(''")
    case True
    from fuel Cons have "4 * length (toks (advance p)) + 4 \<le> f" by simp
    from or [OF this] show ?thesis
      using Cons True by (auto simp: returns_node_def shorter_def peek_def Let_def)
  next
    case False
    with Cons show ?thesis by (auto simp: returns_node_def shorter_def peek_def Let_def)
  qed
qed

lemma returns_with:
  assumes "returns_node (parsePrimary f p) p"
  shows "returns_node (parseWith (Suc f) p) p"
proof -
  from assms obtain r p1 where 1: "parsePrimary f p = Some (r, p1)" and s: "shorter r p p1"
    by (auto simp: returns_node_def)
  show ?thesis
  proof (cases r)
    case None
    with 1 s show ?thesis by (simp add: returns_node_def)
  next
    case (Some node)
    with 1 s with_suffix_shorter [of node p1] show ?thesis
      by (auto simp: returns_node_def shorter_def split: prod.splits)
  qed
qed

lemma returns_and_loop:
  assumes w: "\<And>q. 4 * length (toks q) + 2 \<le> f \<Longrightarrow> returns_node (parseWith f q) q"
    and l: "\<And>q ns. 4 * length (toks q) + 2 \<le> f \<Longrightarrow> returns_nodes (and_loop f ns q) q"
    and fuel: "4 * length (toks p) + 2 \<le> Suc f"
  shows "returns_nodes (and_loop (Suc f) nodes p) p"
proof (cases "isKeyword (peek p) ''and''")
  case True
  with fuel peek_keyword(2) [OF True] have "4 * length (toks (advance p)) + 2 \<le> f"
    by (cases "toks p") auto
  from w [OF this] obtain r p1 where 1: "parseWith f (advance p) = Some (r, p1)"
    and s: "shorter r (advance p) p1" by (auto simp: returns_node_def)
  show ?thesis
  proof (cases r)
    case None
    with 1 s True show ?thesis by (auto simp: returns_nodes_def shorter_def)
  next
    case (Some right)
    with s fuel have "4 * length (toks p1) + 2 \<le> f" by (auto simp: shorter_def)
    from l [OF this] 1 s Some True show ?thesis
      by (fastforce simp: returns_nodes_def shorter_def)
  qed
next
  case False
  then show ?thesis by (simp add: returns_nodes_def)
qed

lemma returns_or_loop:
  assumes w: "\<And>q. 4 * length (toks q) + 3 \<le> f \<Longrightarrow> returns_node (parseAnd f q) q"
    and l: "\<And>q ns. 4 * length (toks q) + 3 \<le> f \<Longrightarrow> returns_nodes (or_loop f ns q) q"
    and fuel: "4 * length (toks p) + 3 \<le> Suc f"
  shows "returns_nodes (or_loop (Suc f) nodes p) p"
proof (cases "isKeyword (peek p) ''or''")
  case True
  with fuel peek_keyword(1) [OF True] have "4 * length (toks (advance p)) + 3 \<le> f"
    by (cases "toks p") auto
  from w [OF this] obtain r p1 where 1: "parseAnd f (advance p) = Some (r, p1)"
    and s: "shorter r (advance p) p1" by (auto simp: returns_node_def)
  show ?thesis
  proof (cases r)
    case None
    with 1 s True show ?thesis by (auto simp: returns_nodes_def shorter_def)
  next
    case (Some right)
    with s fuel have "4 * length (toks p1) + 3 \<le> f" by (auto simp: shorter_def)
    from l [OF this] 1 s Some True show ?thesis
      by (fastforce simp: returns_nodes_def shorter_def)
  qed
next
  case False
  then show ?thesis by (simp add: returns_nodes_def)
qed

lemma returns_and:
  assumes "returns_node (parseWith f p) p"
    and "\<And>q ns. length (toks q) < length (toks p) \<Longrightarrow> returns_nodes (and_loop f ns q) q"
  shows "returns_node (parseAnd (Suc f) p) p"
proof -
  from assms(1) obtain r p1 where 1: "parseWith f p = Some (r, p1)" and s: "shorter r p p1"
    by (auto simp: returns_node_def)
  then show ?thesis
    using assms(2) [of p1] by (cases r) (fastforce simp: returns_node_def returns_nodes_def shorter_def)+
qed

lemma returns_or:
  assumes "returns_node (parseAnd f p) p"
    and "\<And>q ns. length (toks q) < length (toks p) \<Longrightarrow> returns_nodes (or_loop f ns q) q"
  shows "returns_node (parseOr (Suc f) p) p"
proof -
  from assms(1) obtain r p1 where 1: "parseAnd f p = Some (r, p1)" and s: "shorter r p p1"
    by (auto simp: returns_node_def)
  then show ?thesis
    using assms(2) [of p1] by (cases r) (fastforce simp: returns_node_def returns_nodes_def shorter_def)+
qed

lemma parse_enough:
  "(\<forall>p. 4 * length (toks p) + 4 \<le> f \<longrightarrow> returns_node (parseOr f p) p) \<and>
   (\<forall>p ns. 4 * length (toks p) + 3 \<le> f \<longrightarrow> returns_nodes (or_loop f ns p) p) \<and>
   (\<forall>p. 4 * length (toks p) + 3 \<le> f \<longrightarrow> returns_node (parseAnd f p) p) \<and>
   (\<forall>p ns. 4 * length (toks p) + 2 \<le> f \<longrightarrow> returns_nodes (and_loop f ns p) p) \<and>
   (\<forall>p. 4 * length (toks p) + 2 \<le> f \<longrightarrow> returns_node (parseWith f p) p) \<and>
   (\<forall>p. 4 * length (toks p) + 1 \<le> f \<longrightarrow> returns_node (parsePrimary f p) p)"
proof (induction f)
  case 0
  then show ?case by simp
next
  case (Suc f)
  then have or: "\<And>p. 4 * length (toks p) + 4 \<le> f \<Longrightarrow> returns_node (parseOr f p) p"
    and orl: "\<And>p ns. 4 * length (toks p) + 3 \<le> f \<Longrightarrow> returns_nodes (or_loop f ns p) p"
    and "and": "\<And>p. 4 * length (toks p) + 3 \<le> f \<Longrightarrow> returns_node (parseAnd f p) p"
    and andl: "\<And>p ns. 4 * length (toks p) + 2 \<le> f \<Longrightarrow> returns_nodes (and_loop f ns p) p"
    and "with": "\<And>p. 4 * length (toks p) + 2 \<le> f \<Longrightarrow> returns_node (parseWith f p) p"
    and prim: "\<And>p. 4 * length (toks p) + 1 \<le> f \<Longrightarrow> returns_node (parsePrimary f p) p"
    by blast+
  show ?case
  proof (intro conjI allI impI)
    show "returns_node (parseOr (Suc f) p) p" if "4 * length (toks p) + 4 \<le> Suc f" for p
      using that by (intro returns_or "and" orl) auto
    show "returns_nodes (or_loop (Suc f) ns p) p" if "4 * length (toks p) + 3 \<le> Suc f" for p ns
      using that by (intro returns_or_loop "and" orl) auto
    show "returns_node (parseAnd (Suc f) p) p" if "4 * length (toks p) + 3 \<le> Suc f" for p
      using that by (intro returns_and "with" andl) auto
    show "returns_nodes (and_loop (Suc f) ns p) p" if "4 * length (toks p) + 2 \<le> Suc f" for p ns
      using that by (intro returns_and_loop "with" andl) auto
    show "returns_node (parseWith (Suc f) p) p" if "4 * length (toks p) + 2 \<le> Suc f" for p
      using that by (intro returns_with prim) auto
    show "returns_node (parsePrimary (Suc f) p) p" if "4 * length (toks p) + 1 \<le> Suc f" for p
      using that by (intro returns_primary or) auto
  qed
qed

lemma parse_total: "\<exists>ast bad. parse_tokens ts = Some (ast, bad)"
proof -
  have "returns_node (parseOr (parse_fuel ts) \<lparr>toks = ts, malformed = False\<rparr>) \<lparr>toks = ts, malformed = False\<rparr>"
    using parse_enough [of "parse_fuel ts"] by (simp add: parse_fuel_def)
  then show ?thesis by (auto simp: returns_node_def parse_tokens_def)
qed

section \<open>Printing and parsing\<close>

text \<open>The concrete syntax of an AST with as few parentheses as the precedences allow: OR binds
  weakest, AND stronger, WITH strongest.\<close>

fun sep_by :: "string \<Rightarrow> string list list \<Rightarrow> string list" where
  "sep_by s [] = []"
| "sep_by s [x] = x"
| "sep_by s (x # y # xs) = x @ s # sep_by s (y # xs)"

fun print_node :: "exprNode \<Rightarrow> string list" where
  "print_node (Leaf l x) = l # (if x = [] then [] else [''WITH'', x])"
| "print_node (AndNode cs) =
     sep_by ''AND'' (map (\<lambda>c. case c of Leaf l x \<Rightarrow> print_node c | _ \<Rightarrow> ''('' # print_node c @ ['')'']) cs)"
| "print_node (OrNode cs) =
     sep_by ''OR'' (map (\<lambda>c. case c of OrNode ds \<Rightarrow> ''('' # print_node c @ ['')''] | _ \<Rightarrow> print_node c) cs)"

definition plain_char :: "char \<Rightarrow> bool" where
  "plain_char c \<longleftrightarrow> c \<notin> {CHR ''('', CHR '')'', CHR '' '', CHR 0x09, CHR 0x0A, CHR 0x0D}"

definition license_token :: "string \<Rightarrow> bool" where
  "license_token t \<longleftrightarrow> t \<noteq> [] \<and> list_all plain_char t \<and>
     \<not> isKeyword t ''or'' \<and> \<not> isKeyword t ''and'' \<and> \<not> isKeyword t ''with''"

definition exception_token :: "string \<Rightarrow> bool" where
  "exception_token t \<longleftrightarrow> t = [] \<or> (list_all plain_char t \<and> \<not> isKeyword t ''or'' \<and> \<not> isKeyword t ''and'')"

fun wf_node :: "exprNode \<Rightarrow> bool" where
  "wf_node (Leaf l x) = (license_token l \<and> exception_token x)"
| "wf_node (AndNode cs) = (2 \<le> length cs \<and> list_all wf_node cs)"
| "wf_node (OrNode cs) = (2 \<le> length cs \<and> list_all wf_node cs)"

abbreviation parser :: "string list \<Rightarrow> bool \<Rightarrow> exprParser" where
  "parser ts m \<equiv> \<lparr>toks = ts, malformed = m\<rparr>"

definition stops :: "string list \<Rightarrow> string list \<Rightarrow> bool" where
  "stops kws ts \<longleftrightarrow> (\<forall>kw \<in> set kws. \<not> isKeyword (peek (parser ts False)) kw)"

text \<open>A child of an AND is a primary with an optional exception, a child of an OR an AND-level
  expression.\<close>

definition and_child :: "exprNode \<Rightarrow> string list" where
  "and_child c = (case c of Leaf l x \<Rightarrow> print_node c | _ \<Rightarrow> ''('' # print_node c @ ['')''])"

definition or_child :: "exprNode \<Rightarrow> string list" where
  "or_child c = (case c of OrNode ds \<Rightarrow> ''('' # print_node c @ ['')''] | _ \<Rightarrow> print_node c)"

lemma print_node_And: "print_node (AndNode cs) = sep_by ''AND'' (map and_child cs)"
  by (simp add: and_child_def cong: map_cong)

lemma print_node_Or: "print_node (OrNode cs) = sep_by ''OR'' (map or_child cs)"
  by (simp add: or_child_def cong: map_cong)

declare print_node.simps(2,3) [simp del]

lemma peek_parser [simp]: "peek (parser [] m) = []" "peek (parser (t # ts) m) = t"
  by (simp_all add: peek_def)

lemma advance_parser [simp]: "advance (parser (t # ts) m) = parser ts m"
  by (simp add: advance_def)

lemma stops_keyword: "stops kws ts \<Longrightarrow> kw \<in> set kws \<Longrightarrow> \<not> isKeyword (peek (parser ts m)) kw"
  by (auto simp: stops_def peek_def)

lemma keyword_facts [simp]:
  "isKeyword ''OR'' ''or''" "isKeyword ''AND'' ''and''" "isKeyword ''WITH'' ''with''"
  "\<not> isKeyword ''OR'' ''and''" "\<not> isKeyword ''OR'' ''with''" "\<not> isKeyword ''AND'' ''with''"
  "\<not> isKeyword '')'' ''or''" "\<not> isKeyword '')'' ''and''" "\<not> isKeyword '')'' ''with''"
  by code_simp+

lemma license_token_facts:
  assumes "license_token t"
  shows "t \<noteq> []" "t \<noteq> ''(''" "t \<noteq> '')''" "\<not> isKeyword t ''or''" "\<not> isKeyword t ''and''" "\<not> isKeyword t ''with''"
  using assms by (auto simp: license_token_def plain_char_def)

text \<open>\<open>reads\<close> says that a parsing function consumes exactly the tokens \<open>qs\<close> and returns \<open>r\<close>.\<close>

definition reads :: "(nat \<Rightarrow> exprParser \<Rightarrow> 'a parsed) \<Rightarrow> nat \<Rightarrow> string list \<Rightarrow> string list \<Rightarrow> 'a \<Rightarrow> bool" where
  "reads parse k kws qs r \<longleftrightarrow>
     (\<forall>f ts m. stops kws ts \<longrightarrow> 4 * length (qs @ ts) + k \<le> f \<longrightarrow>
        parse f (parser (qs @ ts) m) = Some (r, parser ts m))"

lemma readsD:
  "reads parse k kws qs r \<Longrightarrow> stops kws ts \<Longrightarrow> 4 * length (qs @ ts) + k \<le> f \<Longrightarrow>
     parse f (parser (qs @ ts) m) = Some (r, parser ts m)"
  by (simp add: reads_def)

lemma reads_leaf:
  assumes "license_token l" and "exception_token x"
  shows "reads parseWith 2 [''with''] (print_node (Leaf l x)) (Some (Leaf l x))"
  unfolding reads_def
proof (intro allI impI)
  fix f ts m
  assume st: "stops [''with''] ts" and fuel: "4 * length (print_node (Leaf l x) @ ts) + 2 \<le> f"
  from fuel have "2 \<le> f" by simp
  then obtain g where f: "f = Suc (Suc g)" by (rule two_units)
  have nw: "\<not> isKeyword (peek (parser ts m)) ''with''" using stops_keyword [OF st] by simp
  show "parseWith f (parser (print_node (Leaf l x) @ ts) m) = Some (Some (Leaf l x), parser ts m)"
    using assms(2) license_token_facts [OF assms(1)] nw
    by (auto simp: f with_suffix_def Let_def exception_token_def plain_char_def)
qed

lemma reads_paren:
  assumes "reads parseOr 4 [''with'', ''and'', ''or''] qs (Some e)"
    and "\<And>l x. e \<noteq> Leaf l x"
  shows "reads parseWith 2 [''with''] (''('' # qs @ ['')'']) (Some e)"
  unfolding reads_def
proof (intro allI impI)
  fix f ts m
  assume st: "stops [''with''] ts" and fuel: "4 * length ((''('' # qs @ ['')'']) @ ts) + 2 \<le> f"
  from fuel have "2 \<le> f" by simp
  then obtain g where f: "f = Suc (Suc g)" by (rule two_units)
  have nw: "\<not> isKeyword (peek (parser ts m)) ''with''" using stops_keyword [OF st] by simp
  have "parseOr g (parser (qs @ '')'' # ts) m) = Some (Some e, parser ('')'' # ts) m)"
    using fuel f by (intro readsD [OF assms(1)]) (simp_all add: stops_def)
  then show "parseWith f (parser ((''('' # qs @ ['')'']) @ ts) m) = Some (Some e, parser ts m)"
    using nw by (simp add: f with_suffix_def Let_def)
qed

lemma reads_and_loop:
  assumes "\<And>c. c \<in> set cs \<Longrightarrow> reads parseWith 2 [''with''] (and_child c) (Some c)"
    and "stops [''with'', ''and''] ts"
    and "4 * length (concat (map (\<lambda>c. ''AND'' # and_child c) cs) @ ts) + 2 \<le> f"
  shows "and_loop f ns (parser (concat (map (\<lambda>c. ''AND'' # and_child c) cs) @ ts) m) =
    Some (ns @ cs, parser ts m)"
  using assms
proof (induction cs arbitrary: f ns)
  case Nil
  then obtain g where f: "f = Suc g" by (cases f) auto
  from Nil.prems(2) have "\<not> isKeyword (peek (parser ts m)) ''and''" by (rule stops_keyword) simp
  then show ?case by (simp add: f)
next
  case (Cons c cs)
  let ?rest = "concat (map (\<lambda>c. ''AND'' # and_child c) cs) @ ts"
  from Cons.prems(3) obtain g where f: "f = Suc g" by (cases f) auto
  have "stops [''with''] ?rest"
    using Cons.prems(2) by (cases cs) (auto simp: stops_def)
  then have "parseWith g (parser (and_child c @ ?rest) m) = Some (Some c, parser ?rest m)"
    using Cons.prems(1,3) by (intro readsD) (auto simp: f)
  moreover have "and_loop g (ns @ [c]) (parser ?rest m) = Some ((ns @ [c]) @ cs, parser ts m)"
    using Cons.prems by (intro Cons.IH) (auto simp: f)
  ultimately show ?case by (simp add: f)
qed

lemma reads_or_loop:
  assumes "\<And>c. c \<in> set cs \<Longrightarrow> reads parseAnd 3 [''with'', ''and''] (or_child c) (Some c)"
    and "stops [''with'', ''and'', ''or''] ts"
    and "4 * length (concat (map (\<lambda>c. ''OR'' # or_child c) cs) @ ts) + 3 \<le> f"
  shows "or_loop f ns (parser (concat (map (\<lambda>c. ''OR'' # or_child c) cs) @ ts) m) =
    Some (ns @ cs, parser ts m)"
  using assms
proof (induction cs arbitrary: f ns)
  case Nil
  then obtain g where f: "f = Suc g" by (cases f) auto
  from Nil.prems(2) have "\<not> isKeyword (peek (parser ts m)) ''or''" by (rule stops_keyword) simp
  then show ?case by (simp add: f)
next
  case (Cons c cs)
  let ?rest = "concat (map (\<lambda>c. ''OR'' # or_child c) cs) @ ts"
  from Cons.prems(3) obtain g where f: "f = Suc g" by (cases f) auto
  have "stops [''with'', ''and''] ?rest"
    using Cons.prems(2) by (cases cs) (auto simp: stops_def)
  then have "parseAnd g (parser (or_child c @ ?rest) m) = Some (Some c, parser ?rest m)"
    using Cons.prems(1,3) by (intro readsD) (auto simp: f)
  moreover have "or_loop g (ns @ [c]) (parser ?rest m) = Some ((ns @ [c]) @ cs, parser ts m)"
    using Cons.prems by (intro Cons.IH) (auto simp: f)
  ultimately show ?case by (simp add: f)
qed

lemma sep_by_Cons: "sep_by s (map f (c # cs)) = f c @ concat (map (\<lambda>c. s # f c) cs)"
  by (induction cs arbitrary: c) auto

lemma wrap_nodes_two: "wrap_nodes node (a # b # cs) = node (a # b # cs)"
  by (simp add: wrap_nodes_def)

lemma reads_and_single:
  assumes "reads parseWith 2 [''with''] qs (Some e)"
  shows "reads parseAnd 3 [''with'', ''and''] qs (Some e)"
  unfolding reads_def
proof (intro allI impI)
  fix f ts m
  assume st: "stops [''with'', ''and''] ts" and fuel: "4 * length (qs @ ts) + 3 \<le> f"
  from fuel have "2 \<le> f" by simp
  then obtain g where f: "f = Suc (Suc g)" by (rule two_units)
  have w: "parseWith (Suc g) (parser (qs @ ts) m) = Some (Some e, parser ts m)"
    using st fuel f by (intro readsD [OF assms]) (auto simp: stops_def)
  have "\<not> isKeyword (peek (parser ts m)) ''and''" using stops_keyword [OF st] by simp
  then show "parseAnd f (parser (qs @ ts) m) = Some (Some e, parser ts m)"
    by (simp add: f w wrap_nodes_def del: parseWith.simps)
qed

lemma reads_or_single:
  assumes "reads parseAnd 3 [''with'', ''and''] qs (Some e)"
  shows "reads parseOr 4 [''with'', ''and'', ''or''] qs (Some e)"
  unfolding reads_def
proof (intro allI impI)
  fix f ts m
  assume st: "stops [''with'', ''and'', ''or''] ts" and fuel: "4 * length (qs @ ts) + 4 \<le> f"
  from fuel have "2 \<le> f" by simp
  then obtain g where f: "f = Suc (Suc g)" by (rule two_units)
  have w: "parseAnd (Suc g) (parser (qs @ ts) m) = Some (Some e, parser ts m)"
    using st fuel f by (intro readsD [OF assms]) (auto simp: stops_def)
  have "\<not> isKeyword (peek (parser ts m)) ''or''" using stops_keyword [OF st] by simp
  then show "parseOr f (parser (qs @ ts) m) = Some (Some e, parser ts m)"
    by (simp add: f w wrap_nodes_def del: parseAnd.simps)
qed

lemma reads_and_node:
  assumes "\<And>c. c \<in> set cs \<Longrightarrow> reads parseWith 2 [''with''] (and_child c) (Some c)" and "2 \<le> length cs"
  shows "reads parseAnd 3 [''with'', ''and''] (print_node (AndNode cs)) (Some (AndNode cs))"
  unfolding reads_def
proof (intro allI impI)
  fix f ts m
  assume st: "stops [''with'', ''and''] ts" and fuel: "4 * length (print_node (AndNode cs) @ ts) + 3 \<le> f"
  from assms(2) obtain a b ds where cs: "cs = a # b # ds"
    by (cases cs) (auto simp: Suc_le_length_iff numeral_2_eq_2)
  let ?rest = "concat (map (\<lambda>c. ''AND'' # and_child c) (b # ds)) @ ts"
  obtain g where f: "f = Suc g" using fuel by (cases f) auto
  have len: "print_node (AndNode cs) @ ts = and_child a @ ?rest"
    by (simp only: print_node_And cs sep_by_Cons append_assoc)
  have 1: "parseWith g (parser (and_child a @ ?rest) m) = Some (Some a, parser ?rest m)"
    using fuel cs len by (intro readsD [OF assms(1)]) (auto simp: f stops_def)
  have 2: "and_loop g [a] (parser ?rest m) = Some ([a] @ (b # ds), parser ts m)"
    using fuel cs len st by (intro reads_and_loop assms(1)) (auto simp: f)
  show "parseAnd f (parser (print_node (AndNode cs) @ ts) m) = Some (Some (AndNode cs), parser ts m)"
    unfolding len f parseAnd.simps 1 using 2 by (simp add: cs wrap_nodes_two)
qed

lemma reads_or_node:
  assumes "\<And>c. c \<in> set cs \<Longrightarrow> reads parseAnd 3 [''with'', ''and''] (or_child c) (Some c)" and "2 \<le> length cs"
  shows "reads parseOr 4 [''with'', ''and'', ''or''] (print_node (OrNode cs)) (Some (OrNode cs))"
  unfolding reads_def
proof (intro allI impI)
  fix f ts m
  assume st: "stops [''with'', ''and'', ''or''] ts" and fuel: "4 * length (print_node (OrNode cs) @ ts) + 4 \<le> f"
  from assms(2) obtain a b ds where cs: "cs = a # b # ds"
    by (cases cs) (auto simp: Suc_le_length_iff numeral_2_eq_2)
  let ?rest = "concat (map (\<lambda>c. ''OR'' # or_child c) (b # ds)) @ ts"
  obtain g where f: "f = Suc g" using fuel by (cases f) auto
  have len: "print_node (OrNode cs) @ ts = or_child a @ ?rest"
    by (simp only: print_node_Or cs sep_by_Cons append_assoc)
  have 1: "parseAnd g (parser (or_child a @ ?rest) m) = Some (Some a, parser ?rest m)"
    using fuel cs len by (intro readsD [OF assms(1)]) (auto simp: f stops_def)
  have 2: "or_loop g [a] (parser ?rest m) = Some ([a] @ (b # ds), parser ts m)"
    using fuel cs len st by (intro reads_or_loop assms(1)) (auto simp: f)
  show "parseOr f (parser (print_node (OrNode cs) @ ts) m) = Some (Some (OrNode cs), parser ts m)"
    unfolding len f parseOr.simps 1 using 2 by (simp add: cs wrap_nodes_two)
qed

text \<open>The three levels of the grammar at once, by induction on the AST.\<close>

lemma reads_node:
  "wf_node e \<Longrightarrow>
     reads parseOr 4 [''with'', ''and'', ''or''] (print_node e) (Some e) \<and>
     reads parseAnd 3 [''with'', ''and''] (or_child e) (Some e) \<and>
     reads parseWith 2 [''with''] (and_child e) (Some e)"
proof (induction e)
  case (Leaf l x)
  then have "reads parseWith 2 [''with''] (print_node (Leaf l x)) (Some (Leaf l x))"
    by (intro reads_leaf) auto
  note w = this and a = reads_and_single [OF this] and o = reads_or_single [OF reads_and_single [OF this]]
  show ?case using w a o by (simp add: or_child_def and_child_def)
next
  case (AndNode cs)
  then have a: "reads parseAnd 3 [''with'', ''and''] (print_node (AndNode cs)) (Some (AndNode cs))"
    by (intro reads_and_node) (auto simp: list_all_iff)
  then show ?case
    by (auto simp: or_child_def and_child_def intro: reads_or_single reads_paren)
next
  case (OrNode cs)
  then have a: "reads parseOr 4 [''with'', ''and'', ''or''] (print_node (OrNode cs)) (Some (OrNode cs))"
    by (intro reads_or_node) (auto simp: list_all_iff)
  then show ?case
    by (auto simp: or_child_def and_child_def intro: reads_and_single reads_paren)
qed

lemma parse_print_tokens: "wf_node e \<Longrightarrow> parse_tokens (print_node e) = Some (Some e, False)"
  using readsD [OF conjunct1 [OF reads_node], of e "[]"]
  by (simp add: parse_tokens_def parse_fuel_def stops_def)

text \<open>Joining tokens with blanks and tokenizing gives them back.\<close>

lemma tokenize_plain:
  "list_all plain_char t \<Longrightarrow> tokenize_loop (t @ s) cur = tokenize_loop s (cur @ t)"
  by (induction t arbitrary: cur) (auto simp: plain_char_def)

definition token :: "string \<Rightarrow> bool" where
  "token t \<longleftrightarrow> t = ''('' \<or> t = '')'' \<or> (t \<noteq> [] \<and> list_all plain_char t)"

lemma tokenize_token:
  assumes "token t"
  shows "tokenize_loop (t @ CHR '' '' # s) [] = t # tokenize_loop s []" "tokenize_loop t [] = [t]"
proof -
  from assms consider "t = ''(''" | "t = '')''" | "t \<noteq> []" "list_all plain_char t"
    by (auto simp: token_def)
  then have "tokenize_loop (t @ CHR '' '' # s) [] = t # tokenize_loop s [] \<and> tokenize_loop t [] = [t]"
    by cases (auto simp: tokenize_plain tokenize_plain [where s = "[]", simplified])
  then show "tokenize_loop (t @ CHR '' '' # s) [] = t # tokenize_loop s []" "tokenize_loop t [] = [t]"
    by blast+
qed

lemma tokenize_Join: "list_all token ts \<Longrightarrow> tokenizeExpr (Join ts '' '') = ts"
  unfolding tokenizeExpr_def
  by (induction ts "'' ''" rule: Join.induct) (auto simp: tokenize_token)

lemma plain_keywords: "token ''AND''" "token ''OR''" "token ''WITH''" "token ''(''" "token '')''"
  by (simp_all add: token_def plain_char_def)

lemma list_all_sep_by: "P s \<Longrightarrow> list_all (list_all P) xss \<Longrightarrow> list_all P (sep_by s xss)"
  by (induction s xss rule: sep_by.induct) auto

lemma print_node_tokens: "wf_node e \<Longrightarrow> list_all token (print_node e)"
proof (induction e)
  case (Leaf l x)
  then show ?case
    by (auto simp: license_token_def exception_token_def token_def plain_char_def)
next
  case (AndNode cs)
  then have "list_all (list_all token) (map and_child cs)"
    by (auto simp: list_all_iff and_child_def plain_keywords split: exprNode.splits)
  then show ?case unfolding print_node_And by (intro list_all_sep_by) (simp_all add: plain_keywords)
next
  case (OrNode cs)
  then have "list_all (list_all token) (map or_child cs)"
    by (auto simp: list_all_iff or_child_def plain_keywords split: exprNode.splits)
  then show ?case unfolding print_node_Or by (intro list_all_sep_by) (simp_all add: plain_keywords)
qed

definition print_expr :: "exprNode \<Rightarrow> string" where
  "print_expr e = Join (print_node e) '' ''"

lemma checked_print_expr: "wf_node e \<Longrightarrow> parseLicenseExpressionChecked (print_expr e) = (Some e, False)"
  by (simp add: parseLicenseExpressionChecked_def print_expr_def tokenize_Join print_node_tokens
      parse_print_tokens)

section \<open>What the evaluator decides\<close>

text \<open>The reference semantics of an expression: a conjunction of a disjunction of allowed leaves.\<close>

fun allowed :: "deniedLeaf \<Rightarrow> exprNode \<Rightarrow> bool" where
  "allowed isDenied (Leaf l x) = (\<not> fst (isDenied l x))"
| "allowed isDenied (AndNode cs) = list_all (allowed isDenied) cs"
| "allowed isDenied (OrNode cs) = list_ex (allowed isDenied) cs"

text \<open>The displays of the denied leaves that make an expression fail.\<close>

fun offenders :: "deniedLeaf \<Rightarrow> exprNode \<Rightarrow> string list" where
  "offenders isDenied (Leaf l x) = (if fst (isDenied l x) then [snd (isDenied l x)] else [])"
| "offenders isDenied (AndNode cs) = concat (map (offenders isDenied) cs)"
| "offenders isDenied (OrNode cs) =
     (if list_ex (allowed isDenied) cs then [] else concat (map (offenders isDenied) cs))"

lemma offenders_allowed: "allowed d e \<Longrightarrow> offenders d e = []"
  by (induction e) (auto simp: list_all_iff)

lemma eval_spec: "eval d e off = (allowed d e, off @ offenders d e)"
  and eval_and_spec: "eval_and d cs ok off = (ok \<and> list_all (allowed d) cs, off @ concat (map (offenders d) cs))"
  and eval_or_spec: "eval_or d cs any off =
    (any \<or> list_ex (allowed d) cs, off @ concat (map (offenders d) (filter (\<lambda>c. \<not> allowed d c) cs)))"
proof (induction d e off and d cs ok off and d cs any off rule: eval_eval_and_eval_or.induct)
  case (3 d cs off)
  have "filter (\<lambda>c. \<not> allowed d c) cs = cs" if "\<not> list_ex (allowed d) cs"
    using that by (auto simp: list_ex_iff intro: filter_True)
  with 3 show ?case by auto
qed (auto simp: offenders_allowed split: prod.splits)

lemma offenders_nonempty: "wf_node e \<Longrightarrow> \<not> allowed d e \<Longrightarrow> offenders d e \<noteq> []"
proof (induction e)
  case (OrNode cs)
  then obtain c ds where "cs = c # ds" by (cases cs) auto
  with OrNode show ?case by auto
qed (auto simp: list_all_iff)

lemma allowed_mono:
  assumes "\<And>l x. fst (d l x) \<Longrightarrow> fst (d' l x)"
  shows "allowed d' e \<Longrightarrow> allowed d e"
  using assms by (induction e) (auto simp: list_all_iff list_ex_iff)

text \<open>The AST a parse returns has no empty AND or OR, whatever the input: this is what makes
  "no offending license" and "allowed" the same thing.\<close>

fun solid :: "exprNode \<Rightarrow> bool" where
  "solid (Leaf l x) = True"
| "solid (AndNode cs) = (cs \<noteq> [] \<and> list_all solid cs)"
| "solid (OrNode cs) = (cs \<noteq> [] \<and> list_all solid cs)"

lemma offenders_solid: "solid e \<Longrightarrow> \<not> allowed d e \<Longrightarrow> offenders d e \<noteq> []"
proof (induction e)
  case (OrNode cs)
  then obtain c ds where "cs = c # ds" by (cases cs) auto
  with OrNode show ?case by auto
qed (auto simp: list_all_iff)

lemma solid_wrap: "ns \<noteq> [] \<Longrightarrow> list_all solid ns \<Longrightarrow> solid (wrap_nodes AndNode ns) \<and> solid (wrap_nodes OrNode ns)"
  by (auto simp: wrap_nodes_def split: list.splits)

lemma solid_with_suffix: "solid node \<Longrightarrow> solid (fst (with_suffix node p))"
  by (auto simp: with_suffix_def Let_def split: exprNode.splits)

lemma parse_solid:
  "parseOr f p = Some (Some e, p') \<Longrightarrow> solid e"
  "or_loop f ns p = Some (ns', p') \<Longrightarrow> ns \<noteq> [] \<Longrightarrow> list_all solid ns \<Longrightarrow> ns' \<noteq> [] \<and> list_all solid ns'"
  "parseAnd f p = Some (Some e, p') \<Longrightarrow> solid e"
  "and_loop f ns p = Some (ns', p') \<Longrightarrow> ns \<noteq> [] \<Longrightarrow> list_all solid ns \<Longrightarrow> ns' \<noteq> [] \<and> list_all solid ns'"
  "parseWith f p = Some (Some e, p') \<Longrightarrow> solid e"
  "parsePrimary f p = Some (Some e, p') \<Longrightarrow> solid e"
proof (induction f p and f ns p and f p and f ns p and f p and f p
    arbitrary: e p' and ns' p' and e p' and ns' p' and e p' and e p'
    rule: parseOr_or_loop_parseAnd_and_loop_parseWith_parsePrimary.induct)
  case (2 f p)
  from "2.prems" obtain left p1 ns where 1: "parseAnd f p = Some (Some left, p1)"
    and 2: "or_loop f [left] p1 = Some (ns, p')" and e: "e = wrap_nodes OrNode ns"
    by (auto split: option.splits)
  from "2.IH"(1) [OF 1] have "solid left" .
  with "2.IH"(2) [OF 1 _ _ 2] have "ns \<noteq> [] \<and> list_all solid ns" by auto
  with e show ?case using solid_wrap [of ns] by auto
next
  case (4 f ns p)
  then show ?case by (fastforce split: option.splits if_splits)
next
  case (6 f p)
  from "6.prems" obtain left p1 ns where 1: "parseWith f p = Some (Some left, p1)"
    and 2: "and_loop f [left] p1 = Some (ns, p')" and e: "e = wrap_nodes AndNode ns"
    by (auto split: option.splits)
  from "6.IH"(1) [OF 1] have "solid left" .
  with "6.IH"(2) [OF 1 _ _ 2] have "ns \<noteq> [] \<and> list_all solid ns" by auto
  with e show ?case using solid_wrap [of ns] by auto
next
  case (8 f ns p)
  then show ?case by (fastforce split: option.splits if_splits)
next
  case (10 f p)
  from "10.prems" obtain node p1 where "parsePrimary f p = Some (Some node, p1)"
    and "e = fst (with_suffix node p1)" by (auto split: option.splits prod.splits)
  with "10.IH" show ?case by (auto intro: solid_with_suffix)
next
  case (12 f p)
  then show ?case by (auto simp: Let_def split: option.splits if_splits)
qed auto

lemma parse_tokens_solid: "parse_tokens ts = Some (Some e, b) \<Longrightarrow> solid e"
  by (auto simp: parse_tokens_def split: option.splits dest: parse_solid(1))

lemma checked_solid: "parseLicenseExpressionChecked s = (Some e, b) \<Longrightarrow> solid e"
  using parse_total [of "tokenizeExpr s"]
  by (auto simp: parseLicenseExpressionChecked_def dest: parse_tokens_solid)

section \<open>Properties of the expression parser\<close>

text \<open>
  C7. Parsing always ends: \<open>parse_fuel\<close> is enough for every token sequence, well formed or not, so
  the parser returns a tree (or none) and a verdict on whether the input was malformed.
\<close>

theorem license_parser_total: "\<exists>ast bad. parse_tokens (tokenizeExpr expr) = Some (ast, bad)"
  by (rule parse_total)

text \<open>
  C8. Printing and parsing are inverse: the text of every well-formed expression, with parentheses
  where an operator stands under another, parses back to exactly that expression and is not
  reported as malformed.
\<close>

theorem license_expr_roundtrip:
  assumes "wf_node e"
  shows "parseLicenseExpressionChecked (print_expr e) = (Some e, False)"
  using assms by (rule checked_print_expr)

theorem license_expr_roundtrip_witness:
  "parseLicenseExpressionChecked ''( MIT OR GPL-2.0 WITH Classpath-exception-2.0 ) AND BSD-3-Clause'' =
     (Some (AndNode [OrNode [Leaf ''MIT'' [], Leaf ''GPL-2.0'' ''Classpath-exception-2.0''], Leaf ''BSD-3-Clause'' []]), False)"
proof -
  let ?e = "AndNode [OrNode [Leaf ''MIT'' [], Leaf ''GPL-2.0'' ''Classpath-exception-2.0''], Leaf ''BSD-3-Clause'' []]"
  have "wf_node ?e" and "print_expr ?e = ''( MIT OR GPL-2.0 WITH Classpath-exception-2.0 ) AND BSD-3-Clause''"
    by code_simp+
  with license_expr_roundtrip [of ?e] show ?thesis by simp
qed

text \<open>
  C9. The evaluator decides the boolean meaning of every expression the parser can return: allowed
  exactly when the formula over the allowed licenses is true, and the list of offending licenses
  is empty exactly then.
\<close>

theorem license_eval_boolean:
  "case parseLicenseExpression expr of
     None \<Rightarrow> True
   | Some e \<Rightarrow> eval d e [] = (allowed d e, offenders d e) \<and> (offenders d e = [] \<longleftrightarrow> allowed d e)"
proof (cases "parseLicenseExpressionChecked expr")
  case (Pair ast bad)
  then show ?thesis
    using offenders_allowed offenders_solid [OF checked_solid, of expr _ bad d]
    by (cases ast) (auto simp: parseLicenseExpression_def eval_spec)
qed

end
