(* ===== verification/License.thy ===== *)
theory License
  imports License_Expr
begin

text \<open>
  License classification and the compliance policy: \<open>pkg/data/license.go\<close>.
\<close>

section \<open>Categories\<close>

datatype LicenseCategory =
    CategoryPermissive
  | CategoryWeakCopyleft
  | CategoryStrongCopyleft
  | CategoryProprietary
  | CategoryUnknown

fun category_text :: "LicenseCategory \<Rightarrow> string" where
  "category_text CategoryPermissive = ''permissive''"
| "category_text CategoryWeakCopyleft = ''weak-copyleft''"
| "category_text CategoryStrongCopyleft = ''strong-copyleft''"
| "category_text CategoryProprietary = ''proprietary''"
| "category_text CategoryUnknown = ''unknown''"

definition ValidLicenseCategories :: "LicenseCategory list" where
  "ValidLicenseCategories =
     [CategoryPermissive, CategoryWeakCopyleft, CategoryStrongCopyleft, CategoryProprietary, CategoryUnknown]"

definition ValidLicenseCategory :: "string \<Rightarrow> bool" where
  "ValidLicenseCategory s = (s \<in> set (map category_text ValidLicenseCategories))"

record PackageLicense =
  pl_package :: string
  pl_version :: string
  pl_purl :: string
  pl_licenses :: "string list"

definition exactLicenseCategory :: "(string, LicenseCategory) gomap" where
  "exactLicenseCategory = [
    (''mit'', CategoryPermissive), (''mit-0'', CategoryPermissive), (''isc'', CategoryPermissive),
    (''apache-2.0'', CategoryPermissive), (''apache-1.1'', CategoryPermissive),
    (''bsd-2-clause'', CategoryPermissive), (''bsd-3-clause'', CategoryPermissive),
    (''bsd-4-clause'', CategoryPermissive), (''0bsd'', CategoryPermissive),
    (''zlib'', CategoryPermissive), (''libpng'', CategoryPermissive), (''png-2.0'', CategoryPermissive),
    (''x11'', CategoryPermissive), (''unlicense'', CategoryPermissive), (''wtfpl'', CategoryPermissive),
    (''python-2.0'', CategoryPermissive), (''psf-2.0'', CategoryPermissive),
    (''postgresql'', CategoryPermissive), (''ncsa'', CategoryPermissive),
    (''boost-1.0'', CategoryPermissive), (''bsl-1.0'', CategoryPermissive),
    (''cc0-1.0'', CategoryPermissive), (''cc0'', CategoryPermissive), (''cc-by-4.0'', CategoryPermissive),
    (''cc-by-3.0'', CategoryPermissive), (''beerware'', CategoryPermissive),
    (''kazlib'', CategoryPermissive), (''gap'', CategoryPermissive), (''unicode'', CategoryPermissive),
    (''unicode-dfs-2016'', CategoryPermissive), (''latex2e'', CategoryPermissive),
    (''freesoftware'', CategoryPermissive), (''pcre'', CategoryPermissive),
    (''bzip'', CategoryPermissive), (''tcl-like'', CategoryPermissive),
    (''tinyscheme'', CategoryPermissive), (''autoconf'', CategoryPermissive),
    (''isc+ibm'', CategoryPermissive), (''isc-original'', CategoryPermissive),
    (''curl'', CategoryPermissive), (''hpnd'', CategoryPermissive),
    (''hpnd-sell-variant'', CategoryPermissive), (''openldap'', CategoryPermissive),
    (''oldap-2.8'', CategoryPermissive), (''openldap-2.8'', CategoryPermissive),
    (''ftl'', CategoryPermissive), (''ntp'', CategoryPermissive), (''opengroup-mit'', CategoryPermissive),
    (''carnegie'', CategoryPermissive), (''bitstream-vera'', CategoryPermissive),
    (''sunpro'', CategoryPermissive), (''dec'', CategoryPermissive), (''rsa-md'', CategoryPermissive),
    (''pd'', CategoryPermissive), (''pd-debian'', CategoryPermissive),
    (''sdbm-public-domain'', CategoryPermissive), (''lgpl-2.0'', CategoryWeakCopyleft),
    (''lgpl-2.1'', CategoryWeakCopyleft), (''lgpl-3.0'', CategoryWeakCopyleft),
    (''mpl-1.1'', CategoryWeakCopyleft), (''mpl-2.0'', CategoryWeakCopyleft),
    (''epl-1.0'', CategoryWeakCopyleft), (''epl-2.0'', CategoryWeakCopyleft),
    (''cddl-1.0'', CategoryWeakCopyleft), (''cddl-1.1'', CategoryWeakCopyleft),
    (''cpl-1.0'', CategoryWeakCopyleft), (''ms-pl'', CategoryWeakCopyleft),
    (''artistic-2.0'', CategoryWeakCopyleft), (''artistic'', CategoryWeakCopyleft),
    (''artistic-1.0'', CategoryWeakCopyleft), (''artistic-dist'', CategoryWeakCopyleft),
    (''gpl-1.0'', CategoryStrongCopyleft), (''gpl-2.0'', CategoryStrongCopyleft),
    (''gpl-3.0'', CategoryStrongCopyleft), (''agpl-1.0'', CategoryStrongCopyleft),
    (''agpl-3.0'', CategoryStrongCopyleft), (''sleepycat'', CategoryStrongCopyleft),
    (''dont-change-the-gpl'', CategoryStrongCopyleft), (''smail-gpl'', CategoryStrongCopyleft),
    (''proprietary'', CategoryProprietary), (''commercial'', CategoryProprietary),
    (''ms-eula'', CategoryProprietary), (''cc-by-nc-4.0'', CategoryProprietary),
    (''cc-by-nd-4.0'', CategoryProprietary), (''noderivs'', CategoryProprietary)]"

definition normalizeLicenseID :: "string \<Rightarrow> string" where
  "normalizeLicenseID lid =
     (let s = ToLower (TrimSpace lid); s = TrimSuffix s ''+'' in
      foldl TrimSuffix s [''-only'', ''-or-later''])"

definition isDigestValue :: "string \<Rightarrow> bool" where
  "isDigestValue n = (HasPrefix n ''sha256:'' \<or> HasPrefix n ''sha512:'' \<or>
     HasPrefix n ''sha1:'' \<or> HasPrefix n ''md5:'')"

text \<open>The family prefixes, in the order of the code's \<open>switch\<close>.\<close>

definition family_category :: "string \<Rightarrow> LicenseCategory" where
  "family_category n =
     (if HasPrefix n ''agpl'' then CategoryStrongCopyleft
      else if HasPrefix n ''lgpl'' then CategoryWeakCopyleft
      else if HasPrefix n ''gfdl'' \<or> HasPrefix n ''fdl'' then CategoryWeakCopyleft
      else if HasPrefix n ''gpl'' then CategoryStrongCopyleft
      else if HasPrefix n ''mpl'' \<or> HasPrefix n ''epl'' \<or> HasPrefix n ''cddl'' then CategoryWeakCopyleft
      else if HasPrefix n ''bsd'' \<or> HasPrefix n ''apache'' \<or> HasPrefix n ''mit'' \<or> HasPrefix n ''expat'' \<or>
              HasPrefix n ''public-domain'' \<or> n = ''public.domain'' \<or> HasPrefix n ''permissive'' \<or>
              HasPrefix n ''fsful'' \<or> HasPrefix n ''fsfap'' \<or> HasPrefix n ''fsf-'' \<or> HasPrefix n ''hpnd'' \<or>
              (HasPrefix n ''cc-by-'' \<and> \<not> Contains n ''-nc'' \<and> \<not> Contains n ''-nd'')
           then CategoryPermissive
      else CategoryUnknown)"

definition Classify :: "string \<Rightarrow> LicenseCategory" where
  "Classify lid =
     (let n = normalizeLicenseID lid in
      if n = [] \<or> n = ''noassertion'' \<or> n = ''none'' \<or> HasPrefix n ''licenseref'' then CategoryUnknown
      else if isDigestValue n then CategoryUnknown
      else case map_of exactLicenseCategory n of
             Some c \<Rightarrow> c
           | None \<Rightarrow> family_category n)"

definition IsMalformedLicense :: "string \<Rightarrow> bool" where
  "IsMalformedLicense lid = isDigestValue (normalizeLicenseID lid)"

definition LicenseFamily :: "string \<Rightarrow> string" where
  "LicenseFamily lid =
     (let n = TrimSpace lid in
      if n = [] then ''unknown''
      else if EqualFold n ''noassertion'' \<or> EqualFold n ''none'' then ''unknown''
      else if isDigestValue (normalizeLicenseID n) then ''unknown''
      else case Cut n ''-'' of
             Some (head, rest) \<Rightarrow> if head \<noteq> [] then ToUpper head else n
           | None \<Rightarrow> n)"

section \<open>License identifiers of an expression\<close>

definition field_sep :: "char \<Rightarrow> bool" where
  "field_sep r = (r = CHR ''('' \<or> r = CHR '')'' \<or> r = CHR '' '' \<or> r = CHR 0x09 \<or> r = CHR 0x0A)"

fun fields_loop :: "string \<Rightarrow> string \<Rightarrow> string list" where
  "fields_loop [] cur = (if cur = [] then [] else [cur])"
| "fields_loop (r # rs) cur =
     (if field_sep r then (if cur = [] then [] else [cur]) @ fields_loop rs []
      else fields_loop rs (cur @ [r]))"

definition exprOperators :: "string set" where
  "exprOperators = {''and'', ''or'', ''with''}"

fun parse_expression_loop :: "string list \<Rightarrow> bool \<Rightarrow> string list \<Rightarrow> string list" where
  "parse_expression_loop [] skipNext seen = []"
| "parse_expression_loop (f # fs) skipNext seen =
     (let low = ToLower f in
      if low = ''with'' then parse_expression_loop fs True seen
      else if skipNext then parse_expression_loop fs False seen
      else if low \<in> exprOperators then parse_expression_loop fs False seen
      else if low \<in> set seen then parse_expression_loop fs False seen
      else f # parse_expression_loop fs False (low # seen))"

definition ParseExpression :: "string \<Rightarrow> string list" where
  "ParseExpression expr = parse_expression_loop (fields_loop expr []) False []"

section \<open>Evaluation against a flat denied set\<close>

definition pair_key :: "string \<Rightarrow> string \<Rightarrow> string" where
  "pair_key lic exc = normalizeLicenseID lic @ '' with '' @ ToLower (TrimSpace exc)"

definition flat_denied :: "string set \<Rightarrow> deniedLeaf" where
  "flat_denied denied lic exc =
     (if exc \<noteq> [] \<and> pair_key lic exc \<in> denied then (True, lic @ '' WITH '' @ exc)
      else if normalizeLicenseID lic \<in> denied then (True, lic)
      else (False, []))"

definition EvaluateExpression :: "string \<Rightarrow> string set \<Rightarrow> bool \<times> string list" where
  "EvaluateExpression expr denied =
     (case parseLicenseExpression expr of
        None \<Rightarrow> (True, [])
      | Some ast \<Rightarrow>
          (case eval (flat_denied denied) ast [] of (ok, off) \<Rightarrow> if ok then (True, []) else (False, off)))"

section \<open>Policy\<close>

record LicensePolicy =
  DeniedCategories :: "LicenseCategory list"
  AllowExceptions :: "string list"
  DenyExceptions :: "string list"

definition IsEmpty :: "LicensePolicy \<Rightarrow> bool" where
  "IsEmpty p = (DeniedCategories p = [] \<and> DenyExceptions p = [])"

definition normalizeExceptionKey :: "string \<Rightarrow> string" where
  "normalizeExceptionKey lid =
     (case Cut (ToLower (TrimSpace lid)) '' with '' of
        Some (lic, exc) \<Rightarrow> normalizeLicenseID lic @ '' with '' @ TrimSpace exc
      | None \<Rightarrow> normalizeLicenseID lid)"

definition exception_keys :: "string list \<Rightarrow> string set" where
  "exception_keys ids = set (map normalizeLicenseID ids) \<union> set (map normalizeExceptionKey ids)"

definition deniedLeafForPolicy :: "LicensePolicy \<Rightarrow> deniedLeaf" where
  "deniedLeafForPolicy p lic exc =
     (let allowEx = exception_keys (AllowExceptions p);
          denyEx = exception_keys (DenyExceptions p);
          bare = normalizeLicenseID lic;
          display = (if exc \<noteq> [] then lic @ '' WITH '' @ exc else lic);
          pair = (if exc \<noteq> [] then bare @ '' with '' @ ToLower (TrimSpace exc) else bare) in
      if pair \<in> allowEx then (False, [])
      else if exc \<noteq> [] \<and> bare \<in> allowEx then (False, [])
      else if pair \<in> denyEx then (True, display)
      else if bare \<in> denyEx then (True, display)
      else if Classify lic \<in> set (DeniedCategories p) then (True, display)
      else (False, []))"

fun dedupe :: "string list \<Rightarrow> string list \<Rightarrow> string list" where
  "dedupe seen [] = []"
| "dedupe seen (s # ss) = (if s \<in> set seen then dedupe seen ss else s # dedupe (s # seen) ss)"

definition dedupeSorted :: "string list \<Rightarrow> string list" where
  "dedupeSorted xs = sort (dedupe [] xs)"

text \<open>The loop of \<open>Evaluate\<close> over the entries of a package.\<close>

definition entry_offenders :: "LicensePolicy \<Rightarrow> string \<Rightarrow> string list" where
  "entry_offenders p entry =
     (case parseLicenseExpressionChecked entry of
        (ast, bad) \<Rightarrow>
          if bad \<or> ast = None then
            (if CategoryUnknown \<in> set (DeniedCategories p) then [entry @ '' (unparseable)''] else [])
          else (case eval (deniedLeafForPolicy p) (the ast) [] of (ok, off) \<Rightarrow> if ok then [] else off))"

definition Evaluate :: "LicensePolicy \<Rightarrow> PackageLicense \<Rightarrow> bool \<times> string" where
  "Evaluate p pkg =
     (if IsEmpty p then (False, [])
      else if pl_licenses pkg = [] then
        (if CategoryUnknown \<in> set (DeniedCategories p) then (True, ''no license declared (unknown)'')
         else (False, []))
      else
        (let offending = concat (map (entry_offenders p) (pl_licenses pkg)) in
         if offending = [] then (False, [])
         else (True, ''denied license: '' @ Join (dedupeSorted offending) '', '')))"

section \<open>Lemmas\<close>

lemma dedupe_set: "set (dedupe seen xs) = set xs - set seen"
  by (induction seen xs rule: dedupe.induct) auto

lemma distinct_dedupe: "distinct (dedupe seen xs)"
  by (induction seen xs rule: dedupe.induct) (auto simp: dedupe_set)

lemma dedupeSorted_spec: "dedupeSorted xs = sorted_list_of_set (set xs)"
  by (simp add: dedupeSorted_def sorted_list_of_set_sort_remdups [symmetric] dedupe_set
      sorted_distinct_set_unique distinct_dedupe)

definition denies_unknown :: "LicensePolicy \<Rightarrow> bool" where
  "denies_unknown p = (CategoryUnknown \<in> set (DeniedCategories p))"

text \<open>The reference verdict on one entry: an entry that does not parse is an unknown license, one
  that parses is judged by the boolean meaning of its expression.\<close>

definition entry_violates :: "LicensePolicy \<Rightarrow> string \<Rightarrow> bool" where
  "entry_violates p entry =
     (case parseLicenseExpressionChecked entry of
        (Some e, False) \<Rightarrow> \<not> allowed (deniedLeafForPolicy p) e
      | _ \<Rightarrow> denies_unknown p)"

lemma entry_offenders_iff: "entry_offenders p entry \<noteq> [] \<longleftrightarrow> entry_violates p entry"
proof (cases "parseLicenseExpressionChecked entry")
  case (Pair ast bad)
  then show ?thesis
    by (cases ast; cases bad)
      (auto simp: entry_offenders_def entry_violates_def denies_unknown_def eval_spec dest!: checked_solid offenders_solid)
qed

lemma Evaluate_violation_iff:
  "fst (Evaluate p pkg) \<longleftrightarrow> \<not> IsEmpty p \<and>
     (if pl_licenses pkg = [] then denies_unknown p else (\<exists>e \<in> set (pl_licenses pkg). entry_violates p e))"
proof -
  have "concat (map (entry_offenders p) xs) = [] \<longleftrightarrow> \<not> (\<exists>e \<in> set xs. entry_violates p e)" for xs
    using entry_offenders_iff [of p] by (induction xs) auto
  then show ?thesis
    by (auto simp: Evaluate_def denies_unknown_def Let_def)
qed

text \<open>
  A package is bound by every license entry: a non-empty policy flags it exactly when it has
  no license and the policy denies unknown licenses, or when some entry is a violation by
  itself, be it an expression whose boolean meaning is denied or a text that does not parse and
  unknown licenses are denied. The verdict and the reason depend on the set of entries only, not
  on their order or repetition.
\<close>

theorem Evaluate_conjunction:
  "(fst (Evaluate p pkg) \<longleftrightarrow> \<not> IsEmpty p \<and>
      (if pl_licenses pkg = [] then denies_unknown p else (\<exists>e \<in> set (pl_licenses pkg). entry_violates p e))) \<and>
   Evaluate p pkg = Evaluate p (pkg\<lparr>pl_licenses := sort (remdups (pl_licenses pkg))\<rparr>)"
proof -
  have "dedupeSorted (concat (map f (sort (remdups xs)))) = dedupeSorted (concat (map f xs))"
    for f :: "string \<Rightarrow> string list" and xs
    by (simp add: dedupeSorted_spec)
  moreover have "concat (map f (sort (remdups xs))) = [] \<longleftrightarrow> concat (map f xs) = []"
    for f :: "string \<Rightarrow> string list" and xs
    by (metis (no_types, lifting) concat_eq_Nil_conv image_set set_remdups set_sort)
  moreover have "sort (remdups xs) = [] \<longleftrightarrow> xs = []" for xs :: "string list"
    by (metis remdups_eq_nil_iff sort_key_simps(1) set_empty set_sort)
  ultimately show ?thesis
    unfolding Evaluate_violation_iff by (auto simp: Evaluate_def Let_def)
qed

lemma entry_offenders_print:
  "wf_node e \<Longrightarrow> entry_offenders p (print_expr e) = offenders (deniedLeafForPolicy p) e"
  by (simp add: entry_offenders_def checked_print_expr eval_spec offenders_allowed)

text \<open>
  The two SBOM formats agree: a package that lists its licenses one by one (CycloneDX) and
  one that joins the same licenses with AND in a single expression (SPDX) get the same verdict
  and the same reason from every policy, for all well-formed licenses, however nested.
\<close>

theorem Evaluate_entries_as_conjunction:
  assumes "2 \<le> length cs" and "list_all wf_node cs"
  shows "Evaluate p (pkg\<lparr>pl_licenses := map print_expr cs\<rparr>) =
         Evaluate p (pkg\<lparr>pl_licenses := [print_expr (AndNode cs)]\<rparr>)"
proof -
  have "concat (map (entry_offenders p) (map print_expr cs)) = entry_offenders p (print_expr (AndNode cs))"
  proof -
    have "map (entry_offenders p) (map print_expr cs) = map (offenders (deniedLeafForPolicy p)) cs"
      using assms(2) by (auto simp: entry_offenders_print list_all_iff)
    moreover have "entry_offenders p (print_expr (AndNode cs)) = offenders (deniedLeafForPolicy p) (AndNode cs)"
      using assms by (intro entry_offenders_print) simp
    ultimately show ?thesis by (simp only: offenders.simps)
  qed
  moreover have "cs \<noteq> []" using assms(1) by auto
  ultimately show ?thesis by (simp add: Evaluate_def Let_def)
qed

theorem Evaluate_entries_as_conjunction_witness:
  "Evaluate \<lparr>DeniedCategories = [CategoryStrongCopyleft], AllowExceptions = [], DenyExceptions = []\<rparr>
     \<lparr>pl_package = ''apt'', pl_version = ''2'', pl_purl = [], pl_licenses = [''BSD-3-Clause'', ''GPL-2.0'']\<rparr> =
   Evaluate \<lparr>DeniedCategories = [CategoryStrongCopyleft], AllowExceptions = [], DenyExceptions = []\<rparr>
     \<lparr>pl_package = ''apt'', pl_version = ''2'', pl_purl = [], pl_licenses = [''BSD-3-Clause AND GPL-2.0'']\<rparr>"
proof -
  let ?cs = "[Leaf ''BSD-3-Clause'' [], Leaf ''GPL-2.0'' []]"
  have "2 \<le> length ?cs" by simp
  moreover have "list_all wf_node ?cs" by code_simp
  moreover have "map print_expr ?cs = [''BSD-3-Clause'', ''GPL-2.0'']"
    and "print_expr (AndNode ?cs) = ''BSD-3-Clause AND GPL-2.0''" by code_simp+
  ultimately show ?thesis
    using Evaluate_entries_as_conjunction [of ?cs
        "\<lparr>DeniedCategories = [CategoryStrongCopyleft], AllowExceptions = [], DenyExceptions = []\<rparr>"
        "\<lparr>pl_package = ''apt'', pl_version = ''2'', pl_purl = [], pl_licenses = []\<rparr>"]
    by simp
qed

text \<open>A policy that denies more and excuses less flags at least the same packages.\<close>

definition stricter :: "LicensePolicy \<Rightarrow> LicensePolicy \<Rightarrow> bool" where
  "stricter q p \<longleftrightarrow> set (DeniedCategories p) \<subseteq> set (DeniedCategories q) \<and>
     set (DenyExceptions p) \<subseteq> set (DenyExceptions q) \<and> set (AllowExceptions q) \<subseteq> set (AllowExceptions p)"

lemma exception_keys_mono: "set ids \<subseteq> set ids' \<Longrightarrow> exception_keys ids \<subseteq> exception_keys ids'"
  by (auto simp: exception_keys_def)

lemma deniedLeaf_mono:
  assumes "stricter q p" and "fst (deniedLeafForPolicy p l x)"
  shows "fst (deniedLeafForPolicy q l x)"
proof -
  from assms(1) have "exception_keys (DenyExceptions p) \<subseteq> exception_keys (DenyExceptions q)"
    "exception_keys (AllowExceptions q) \<subseteq> exception_keys (AllowExceptions p)"
    by (auto simp: stricter_def intro!: exception_keys_mono del: subsetI)
  with assms show ?thesis
    by (auto simp: deniedLeafForPolicy_def Let_def stricter_def split: if_splits)
qed

lemma entry_violates_mono: "stricter q p \<Longrightarrow> entry_violates p e \<Longrightarrow> entry_violates q e"
  using allowed_mono [OF deniedLeaf_mono [of q p]]
  by (auto simp: entry_violates_def denies_unknown_def stricter_def split: prod.splits option.splits bool.splits)

text \<open>
  Policies are monotone: denying more categories or licenses and allowing fewer exceptions
  never clears a package that was flagged.
\<close>

theorem Evaluate_mono:
  assumes "stricter q p" and "fst (Evaluate p pkg)"
  shows "fst (Evaluate q pkg)"
proof -
  from assms(1) have "IsEmpty q \<Longrightarrow> IsEmpty p" by (auto simp: IsEmpty_def stricter_def)
  moreover from assms(1) have "denies_unknown p \<Longrightarrow> denies_unknown q" by (auto simp: denies_unknown_def stricter_def)
  ultimately show ?thesis
    using assms(2) entry_violates_mono [OF assms(1)] by (auto simp: Evaluate_violation_iff split: if_splits)
qed

theorem Evaluate_mono_witness:
  "fst (Evaluate \<lparr>DeniedCategories = [CategoryStrongCopyleft, CategoryUnknown], AllowExceptions = [], DenyExceptions = []\<rparr>
     \<lparr>pl_package = ''bash'', pl_version = ''5'', pl_purl = [], pl_licenses = [''GPL-3.0-or-later'']\<rparr>)"
  by (rule Evaluate_mono [of _ "\<lparr>DeniedCategories = [CategoryStrongCopyleft], AllowExceptions = [''MIT''], DenyExceptions = []\<rparr>"])
    (simp add: stricter_def, code_simp)

end
