(* ===== verification/Store.thy ===== *)
theory Store
  imports Severity License
begin

text \<open>
  The database: \<open>pkg/data/postgres/models.go\<close> and the tables its operations use. A table is a list
  of rows; the store is a record of tables. \<open>NULL\<close> in a text column that the code reads with
  \<open>COALESCE(..., '')\<close> is the empty text, and a time the code writes as \<open>NULL\<close> when it is zero is
  \<^const>\<open>zero_time\<close>; other nullable columns are options. Identifiers the database generates are
  drawn from counters of the store.
\<close>

section \<open>Rows\<close>

record SBOM =
  ID :: string
  TenantID :: string
  ImageRef :: string
  Repository :: string
  SBOMVersion :: string
  Digest :: string
  Format :: string
  SpecVersion :: string
  Tool :: string
  ToolVersion :: string
  PackageCount :: int
  ObjectPath :: string
  VerificationStatus :: string
  Status :: string
  Labels :: "string list"
  GeneratedAt :: time
  SubmittedAt :: time

text \<open>A row of \<open>devradar_sbom\<close> has one column more than the struct.\<close>

record sbom_row = SBOM +
  rescan_requested_at :: "time option"

record Versions =
  DBVersion :: string
  ScannerVersion :: string
  CanonicalizerVersion :: string

record scan_run =
  run_id :: nat
  run_sbom :: string
  run_scanner :: string
  run_versions :: Versions
  scanned_at :: time
  finding_count :: nat
  critical_count :: nat
  high_count :: nat
  medium_count :: nat
  low_count :: nat

record finding_row =
  f_sbom :: string
  f_scanner :: string
  f_id :: string
  f_vuln :: vulnerability
  f_updated_at :: time

record finding_event =
  ev_id :: int
  ev_tenant :: string
  ev_sbom :: string
  ev_scanner :: string
  ev_finding_id :: string
  ev_type :: string
  ev_exposure :: string
  ev_package :: string
  ev_version :: string
  ev_severity :: string
  ev_score :: rat
  ev_prev_severity :: "string option"
  ev_prev_score :: "rat option"
  ev_cause :: string
  ev_db_version :: string
  ev_scanner_version :: string
  ev_run_id :: nat
  ev_occurred_at :: time

record queue_row =
  q_consumer :: string
  q_tenant :: string
  q_occurred_at :: time
  q_event_id :: int
  q_processed_at :: "time option"

record rollup_row =
  ro_sbom :: string
  ro_critical :: nat
  ro_high :: nat
  ro_medium :: nat
  ro_low :: nat
  ro_negligible :: nat
  ro_unknown :: nat
  ro_total :: nat
  ro_fixable :: nat
  ro_fix_critical :: nat
  ro_fix_high :: nat
  ro_fix_medium :: nat
  ro_fix_low :: nat
  ro_kev :: nat
  ro_updated_at :: time

record enrichment_row =
  en_cve :: string
  en_epss_score :: "rat option"
  en_epss_percentile :: "rat option"
  en_kev :: bool
  en_kev_added :: string
  en_updated_at :: time

record attempt_row =
  at_sbom :: string
  at_scanner :: string
  at_fail_count :: nat
  at_quarantined :: bool
  at_last_error :: string
  at_next_attempt_at :: time
  at_updated_at :: time

record failure_row =
  sf_sbom :: string
  sf_scanner :: string
  sf_stage :: string
  sf_error :: string
  sf_occurred_at :: time

record tenant_row =
  tn_id :: string
  tn_status :: string

record package_row =
  pk_sbom :: string
  pk_license :: PackageLicense

record AlertPolicy =
  ap_id :: string
  ap_tenant :: string
  ap_enabled :: bool
  ap_min_severity :: string
  ap_kev :: bool
  ap_fix_available :: bool
  ap_include_image :: bool
  ap_include_db :: bool
  ap_labels :: "string list"
  ap_created_at :: time
  ap_updated_at :: time

record AlertEvent =
  ae_id :: int
  ae_occurred_at :: time
  ae_tenant :: string
  ae_sbom :: string
  ae_repository :: string
  ae_digest :: string
  ae_finding_id :: string
  ae_type :: string
  ae_exposure :: string
  ae_package :: string
  ae_version :: string
  ae_severity :: string
  ae_cause :: string
  ae_score :: rat
  ae_kev :: bool
  ae_labels :: "string list"

record AlertDraft =
  ad_policy_id :: string
  ad_policy_updated_at :: time
  ad_kind :: string
  ad_event :: AlertEvent

type_synonym AlertCandidate = "AlertPolicy \<times> AlertEvent"

record AlertPosition =
  pos_occurred_at :: time
  pos_event_id :: int

record AlertFailure =
  fail_position :: AlertPosition
  fail_error :: string

record alert_row =
  al_id :: nat
  al_tenant :: string
  al_policy_id :: string
  al_event_id :: int
  al_occurred_at :: time
  al_kind :: string
  al_sbom :: string
  al_repository :: string
  al_digest :: string
  al_finding_id :: string
  al_exposure :: string
  al_package :: string
  al_version :: string
  al_severity :: string
  al_score :: rat
  al_cause :: string

record alert_failure_row =
  af_consumer :: string
  af_position :: AlertPosition
  af_error :: string

record cursor_row =
  cu_consumer :: string
  cu_position :: AlertPosition

section \<open>The store\<close>

record store =
  tenants :: "tenant_row list"
  sboms :: "sbom_row list"
  scan_runs :: "scan_run list"
  findings :: "finding_row list"
  events :: "finding_event list"
  alert_queue :: "queue_row list"
  rollups :: "rollup_row list"
  enrichments :: "enrichment_row list"
  attempts :: "attempt_row list"
  failures :: "failure_row list"
  packages :: "package_row list"
  policies :: "AlertPolicy list"
  alerts :: "alert_row list"
  alert_failures :: "alert_failure_row list"
  cursors :: "cursor_row list"
  next_event_id :: int
  next_row_id :: nat

definition empty_store :: store where
  "empty_store = \<lparr>tenants = [], sboms = [], scan_runs = [], findings = [], events = [], alert_queue = [],
     rollups = [], enrichments = [], attempts = [], failures = [], packages = [], policies = [],
     alerts = [], alert_failures = [], cursors = [], next_event_id = 1, next_row_id = 0\<rparr>"

section \<open>Keys\<close>

definition finding_key :: "finding_row \<Rightarrow> string \<times> string \<times> string" where
  "finding_key f = (f_sbom f, f_scanner f, f_id f)"

definition event_key :: "finding_event \<Rightarrow> string \<times> string \<times> string \<times> string \<times> string \<times> string \<times> time" where
  "event_key v = (ev_sbom v, ev_scanner v, ev_finding_id v, ev_type v, ev_db_version v, ev_scanner_version v, ev_occurred_at v)"

definition run_key :: "scan_run \<Rightarrow> string \<times> string \<times> string \<times> string \<times> time" where
  "run_key r = (run_sbom r, run_scanner r, DBVersion (run_versions r), ScannerVersion (run_versions r), scanned_at r)"

definition queue_key :: "queue_row \<Rightarrow> string \<times> time \<times> int" where
  "queue_key q = (q_consumer q, q_occurred_at q, q_event_id q)"

definition attempt_key :: "attempt_row \<Rightarrow> string \<times> string" where
  "attempt_key a = (at_sbom a, at_scanner a)"

text \<open>The part of an event that names its run.\<close>

definition event_run :: "finding_event \<Rightarrow> string \<times> string \<times> string \<times> string \<times> time" where
  "event_run v = (ev_sbom v, ev_scanner v, ev_db_version v, ev_scanner_version v, ev_occurred_at v)"

text \<open>The uniqueness constraints of the schema; that event identifiers, also those in the alert
  queue, were drawn from the sequence; and that every event belongs to a recorded run.\<close>

definition store_inv :: "store \<Rightarrow> bool" where
  "store_inv s \<longleftrightarrow>
     distinct_key finding_key (findings s) \<and>
     distinct_key event_key (events s) \<and>
     distinct_key run_key (scan_runs s) \<and>
     distinct_key queue_key (alert_queue s) \<and>
     distinct_key ro_sbom (rollups s) \<and>
     distinct_key attempt_key (attempts s) \<and>
     distinct_key ID (sboms s) \<and>
     distinct_key ev_id (events s) \<and>
     list_all (\<lambda>v. 1 \<le> ev_id v \<and> ev_id v < next_event_id s) (events s) \<and> 1 \<le> next_event_id s \<and>
     list_all (\<lambda>q. q_event_id q < next_event_id s) (alert_queue s) \<and>
     list_all (\<lambda>v. event_run v \<in> run_key ` set (scan_runs s)) (events s)"

lemma store_inv_empty: "store_inv empty_store"
  by (simp add: store_inv_def empty_store_def)

end
