(* ===== verification/Delta.thy ===== *)
theory Delta
  imports Prelude
begin

text \<open>
  The contract behind the delta engine. A table of values by key is brought from one state to
  another by two loops, one over the new keys and one over the old ones, and every difference is
  announced by an event before it is written. What this achieves is proved once, for any table
  and any log that satisfy the laws of the locales; \<open>Apply_Scan\<close> interprets them on the finding
  table and the event log.
\<close>

datatype 'w change = Add 'w | Change 'w 'w | Remove 'w

definition sync_in ::
    "('k \<Rightarrow> 'w change \<Rightarrow> 's \<Rightarrow> 's) \<Rightarrow> ('k \<Rightarrow> 'w \<Rightarrow> 's \<Rightarrow> 's) \<Rightarrow> ('w \<Rightarrow> 'w \<Rightarrow> bool) \<Rightarrow>
     ('k \<rightharpoonup> 'w) \<Rightarrow> ('k \<rightharpoonup> 'w) \<Rightarrow> 'k \<Rightarrow> 's \<Rightarrow> 's" where
  "sync_in emit put dirty prev inc k s =
     (let w = the (inc k) in
      case prev k of
        None \<Rightarrow> put k w (emit k (Add w) s)
      | Some old \<Rightarrow> if dirty old w then put k w (emit k (Change old w) s) else s)"

definition sync_out ::
    "('k \<Rightarrow> 'w change \<Rightarrow> 's \<Rightarrow> 's) \<Rightarrow> ('k \<Rightarrow> 's \<Rightarrow> 's) \<Rightarrow> ('k \<rightharpoonup> 'w) \<Rightarrow> ('k \<rightharpoonup> 'w) \<Rightarrow> 'k \<Rightarrow> 's \<Rightarrow> 's" where
  "sync_out emit del prev inc k s =
     (if inc k \<noteq> None then s else del k (emit k (Remove (the (prev k))) s))"

text \<open>The differences between the old and the new contents, in the order of the loops.\<close>

definition changes_in :: "('w \<Rightarrow> 'w \<Rightarrow> bool) \<Rightarrow> ('k \<rightharpoonup> 'w) \<Rightarrow> ('k \<rightharpoonup> 'w) \<Rightarrow> 'k \<Rightarrow> ('k \<times> 'w change) list" where
  "changes_in dirty prev inc k =
     (let w = the (inc k) in
      case prev k of
        None \<Rightarrow> [(k, Add w)]
      | Some old \<Rightarrow> if dirty old w then [(k, Change old w)] else [])"

definition changes_out :: "('k \<rightharpoonup> 'w) \<Rightarrow> ('k \<rightharpoonup> 'w) \<Rightarrow> 'k \<Rightarrow> ('k \<times> 'w change) list" where
  "changes_out prev inc k = (if inc k \<noteq> None then [] else [(k, Remove (the (prev k)))])"

definition changes ::
    "('w \<Rightarrow> 'w \<Rightarrow> bool) \<Rightarrow> ('k \<rightharpoonup> 'w) \<Rightarrow> ('k \<rightharpoonup> 'w) \<Rightarrow> 'k list \<Rightarrow> 'k list \<Rightarrow> ('k \<times> 'w change) list" where
  "changes dirty prev inc ks ls =
     concat (map (changes_in dirty prev inc) ks) @ concat (map (changes_out prev inc) ls)"

lemmas delta_defs = sync_in_def sync_out_def changes_in_def changes_out_def Let_def

lemma changes_in_key: "kc \<in> set (changes_in dirty prev inc k) \<Longrightarrow> fst kc = k"
  by (auto simp: changes_in_def Let_def split: option.splits if_splits)

lemma changes_out_key: "kc \<in> set (changes_out prev inc k) \<Longrightarrow> fst kc = k"
  by (auto simp: changes_out_def split: if_splits)

section \<open>The table\<close>

locale delta_table =
  fixes get :: "'s \<Rightarrow> 'k \<Rightarrow> 'v option"
    and put :: "'k \<Rightarrow> 'w \<Rightarrow> 's \<Rightarrow> 's"
    and del :: "'k \<Rightarrow> 's \<Rightarrow> 's"
    and emit :: "'k \<Rightarrow> 'w change \<Rightarrow> 's \<Rightarrow> 's"
    and val :: "'w \<Rightarrow> 'v"
    and dirty :: "'w \<Rightarrow> 'w \<Rightarrow> bool"
  assumes get_put: "get (put k w s) = (get s)(k \<mapsto> val w)"
    and get_del: "get (del k s) = (get s)(k := None)"
    and get_emit: "get (emit k c s) = get s"
    and clean: "\<not> dirty a b \<Longrightarrow> val a = val b"
begin

lemma get_sync_in:
  assumes "distinct ks" and "\<And>k. k \<in> set ks \<Longrightarrow> inc k \<noteq> None"
    and "\<And>k. k \<in> set ks \<Longrightarrow> get s k = map_option val (prev k)"
  shows "get (fold (sync_in emit put dirty prev inc) ks s) =
    (\<lambda>k. if k \<in> set ks then map_option val (inc k) else get s k)"
  using assms
proof (induction ks arbitrary: s)
  case Nil
  then show ?case by simp
next
  case (Cons a ks)
  from Cons.prems(2) obtain w where w: "inc a = Some w" by (metis list.set_intros(1) not_None_eq)
  have step: "get (sync_in emit put dirty prev inc a s) = (get s)(a \<mapsto> val w)"
    using Cons.prems(3) [of a] w
    by (auto simp: sync_in_def Let_def get_put get_emit clean split: option.splits)
  then have "\<And>k. k \<in> set ks \<Longrightarrow> get (sync_in emit put dirty prev inc a s) k = map_option val (prev k)"
    using Cons.prems(1,3) by auto
  with Cons.prems Cons.IH [of "sync_in emit put dirty prev inc a s"] step w show ?case
    by auto
qed

lemma get_sync_out:
  "get (fold (sync_out emit del prev inc) ls s) =
    (\<lambda>k. if k \<in> set ls \<and> inc k = None then None else get s k)"
proof (induction ls arbitrary: s)
  case Nil
  then show ?case by simp
next
  case (Cons a ls)
  have step: "get (sync_out emit del prev inc a s) = (if inc a = None then (get s)(a := None) else get s)"
    by (simp add: sync_out_def get_del get_emit)
  show ?case unfolding fold_Cons comp_def Cons.IH step by (auto simp: fun_eq_iff)
qed

text \<open>The two loops bring the table to the new contents.\<close>

lemma sync_converges:
  assumes "distinct ks" and "set ks = dom inc" and "set ls = dom prev"
    and "get s = (\<lambda>k. map_option val (prev k))"
  shows "get (fold (sync_out emit del prev inc) ls (fold (sync_in emit put dirty prev inc) ks s)) =
    (\<lambda>k. map_option val (inc k))"
proof -
  have "get (fold (sync_in emit put dirty prev inc) ks s) =
      (\<lambda>k. if k \<in> set ks then map_option val (inc k) else get s k)"
    using assms by (intro get_sync_in) auto
  with assms show ?thesis by (auto simp: get_sync_out fun_eq_iff domIff)
qed

end

text \<open>When nothing differs the loops touch nothing, whatever the table is.\<close>

lemma sync_noop:
  assumes "\<And>k. k \<in> set ks \<Longrightarrow> \<exists>old. prev k = Some old \<and> \<not> dirty old (the (inc k))"
    and "\<And>k. k \<in> set ls \<Longrightarrow> inc k \<noteq> None"
  shows "fold (sync_out emit del prev inc) ls (fold (sync_in emit put dirty prev inc) ks s) = s"
proof -
  have "fold (sync_in emit put dirty prev inc) ks s = s"
    using assms(1)
  proof (induction ks)
    case (Cons a ks)
    then have "sync_in emit put dirty prev inc a s = s" by (fastforce simp: sync_in_def Let_def)
    with Cons show ?case by simp
  qed simp
  moreover have "fold (sync_out emit del prev inc) ls s = s"
    using assms(2) by (induction ls) (auto simp: sync_out_def)
  ultimately show ?thesis by simp
qed

text \<open>What every write keeps, the loops keep.\<close>

lemma sync_invariant:
  assumes "\<And>k w s. P s \<Longrightarrow> P (put k w s)" and "\<And>k s. P s \<Longrightarrow> P (del k s)"
    and "\<And>k c s. P s \<Longrightarrow> P (emit k c s)" and "P s"
  shows "P (fold (sync_out emit del prev inc) ls (fold (sync_in emit put dirty prev inc) ks s))"
proof -
  have "P (sync_in emit put dirty prev inc k s)" if "P s" for k s
    using assms that by (auto simp: sync_in_def Let_def split: option.splits)
  then have "P (fold (sync_in emit put dirty prev inc) ks s)"
    using assms(4) by (induction ks arbitrary: s) auto
  moreover have "P (sync_out emit del prev inc k s)" if "P s" for k s
    using assms that by (auto simp: sync_out_def)
  ultimately show ?thesis
    by (induction ls arbitrary: s rule: rev_induct) auto
qed

section \<open>The log\<close>

text \<open>\<open>free k s\<close>: an event about \<open>k\<close> can still be appended, it is not suppressed as a duplicate.\<close>

locale delta_log = delta_table get put del emit val dirty
  for get :: "'s \<Rightarrow> 'k \<Rightarrow> 'v option" and put :: "'k \<Rightarrow> 'w \<Rightarrow> 's \<Rightarrow> 's" and del emit val dirty +
  fixes log :: "'s \<Rightarrow> 'e list"
    and entry :: "'k \<Rightarrow> 'w change \<Rightarrow> 'e"
    and free :: "'k \<Rightarrow> 's \<Rightarrow> bool"
  assumes log_put: "log (put k w s) = log s"
    and log_del: "log (del k s) = log s"
    and log_emit: "free k s \<Longrightarrow> log (emit k c s) = log s @ [entry k c]"
    and free_put: "free j (put k w s) = free j s"
    and free_del: "free j (del k s) = free j s"
    and free_emit: "j \<noteq> k \<Longrightarrow> free j s \<Longrightarrow> free j (emit k c s)"
begin

lemma log_step_in:
  assumes "free k s"
  shows "log (sync_in emit put dirty prev inc k s) =
      log s @ map (case_prod entry) (changes_in dirty prev inc k)"
    and "j \<noteq> k \<Longrightarrow> free j s \<Longrightarrow> free j (sync_in emit put dirty prev inc k s)"
  using assms by (auto simp: delta_defs log_put log_emit free_put free_emit split: option.splits)

lemma log_step_out:
  assumes "inc k \<noteq> None \<or> free k s"
  shows "log (sync_out emit del prev inc k s) = log s @ map (case_prod entry) (changes_out prev inc k)"
    and "j \<noteq> k \<Longrightarrow> free j s \<Longrightarrow> free j (sync_out emit del prev inc k s)"
  using assms by (auto simp: delta_defs log_del log_emit free_del free_emit)

lemma log_sync_in:
  assumes "distinct ks" and "\<And>k. k \<in> set ks \<Longrightarrow> free k s"
  shows "log (fold (sync_in emit put dirty prev inc) ks s) =
      log s @ map (case_prod entry) (concat (map (changes_in dirty prev inc) ks)) \<and>
    (\<forall>j. j \<notin> set ks \<longrightarrow> free j s \<longrightarrow> free j (fold (sync_in emit put dirty prev inc) ks s))"
  using assms
proof (induction ks arbitrary: s)
  case (Cons a ks)
  let ?s = "sync_in emit put dirty prev inc a s"
  have 1: "log ?s = log s @ map (case_prod entry) (changes_in dirty prev inc a)"
    and 2: "\<And>j. j \<noteq> a \<Longrightarrow> free j s \<Longrightarrow> free j ?s"
    using Cons.prems log_step_in [of a s] by auto
  have "\<And>k. k \<in> set ks \<Longrightarrow> free k ?s" using Cons.prems 2 by fastforce
  with Cons.IH [of ?s] Cons.prems 1 2 show ?case by auto
qed simp

lemma log_sync_out:
  assumes "distinct ls" and "\<And>k. k \<in> set ls \<Longrightarrow> inc k \<noteq> None \<or> free k s"
  shows "log (fold (sync_out emit del prev inc) ls s) =
      log s @ map (case_prod entry) (concat (map (changes_out prev inc) ls))"
  using assms
proof (induction ls arbitrary: s)
  case (Cons a ls)
  let ?s = "sync_out emit del prev inc a s"
  have 1: "log ?s = log s @ map (case_prod entry) (changes_out prev inc a)"
    and 2: "\<And>j. j \<noteq> a \<Longrightarrow> free j s \<Longrightarrow> free j ?s"
    using Cons.prems log_step_out [of inc a s] by auto
  have "\<And>k. k \<in> set ls \<Longrightarrow> inc k \<noteq> None \<or> free k ?s" using Cons.prems 2 by fastforce
  with Cons.IH [of ?s] Cons.prems 1 show ?case by simp
qed simp

text \<open>The loops append exactly the differences.\<close>

lemma sync_logs:
  assumes "distinct ks" and "distinct ls" and "set ks = dom inc" and "\<And>k. free k s"
  shows "log (fold (sync_out emit del prev inc) ls (fold (sync_in emit put dirty prev inc) ks s)) =
    log s @ map (case_prod entry) (changes dirty prev inc ks ls)"
proof -
  let ?s = "fold (sync_in emit put dirty prev inc) ks s"
  have i: "log ?s = log s @ map (case_prod entry) (concat (map (changes_in dirty prev inc) ks))"
    and f: "\<And>j. j \<notin> set ks \<Longrightarrow> free j ?s"
    using log_sync_in [of ks s prev inc] assms by blast+
  have "\<And>k. k \<in> set ls \<Longrightarrow> inc k \<noteq> None \<or> free k ?s" using f assms(3) by (auto simp: domIff)
  from log_sync_out [OF assms(2) this, of prev] i show ?thesis by (simp add: changes_def)
qed

end

text \<open>Replaying the differences on the old contents gives the new ones, for any view \<open>val\<close> of the
  values that a clean comparison preserves.\<close>

fun after :: "'w change \<Rightarrow> 'w option" where
  "after (Add w) = Some w"
| "after (Change old w) = Some w"
| "after (Remove w) = None"

definition replay :: "('k \<times> 'v option) list \<Rightarrow> ('k \<rightharpoonup> 'v) \<Rightarrow> ('k \<rightharpoonup> 'v)" where
  "replay es m = foldl (\<lambda>m (k, v). m(k := v)) m es"

lemma replay_append: "replay (es @ fs) m = replay fs (replay es m)"
  by (simp add: replay_def)

lemma replay_Nil [simp]: "replay [] m = m"
  by (simp add: replay_def)

lemma replay_Cons [simp]: "replay ((k, v) # es) m = replay es (m(k := v))"
  by (simp add: replay_def)

lemma replay_in:
  assumes "distinct ks" and "\<And>k. k \<in> set ks \<Longrightarrow> inc k \<noteq> None"
    and "\<And>a b. \<not> dirty a b \<Longrightarrow> val a = val b"
    and "\<And>k. k \<in> set ks \<Longrightarrow> m k = map_option val (prev k)"
  shows "replay (map (\<lambda>(k, c). (k, map_option val (after c))) (concat (map (changes_in dirty prev inc) ks))) m =
    (\<lambda>k. if k \<in> set ks then map_option val (inc k) else m k)"
  using assms(1,2,4)
proof (induction ks arbitrary: m)
  case (Cons a ks)
  from Cons.prems(2) obtain w where w: "inc a = Some w" by (metis list.set_intros(1) not_None_eq)
  let ?m = "m(a \<mapsto> val w)"
  let ?f = "\<lambda>(k, c). (k, map_option val (after c))"
  have step: "replay (map ?f (changes_in dirty prev inc a)) m = ?m"
    using w Cons.prems(3) [of a] assms(3) by (auto simp: changes_in_def fun_eq_iff split: option.splits)
  have "\<And>k. k \<in> set ks \<Longrightarrow> ?m k = map_option val (prev k)" using Cons.prems by auto
  then have rest: "replay (map ?f (concat (map (changes_in dirty prev inc) ks))) ?m =
      (\<lambda>k. if k \<in> set ks then map_option val (inc k) else ?m k)"
    using Cons.prems(1,2) by (intro Cons.IH) auto
  show ?case
    unfolding list.map concat.simps map_append replay_append step rest using w by (auto simp: fun_eq_iff)
qed simp

lemma replay_out:
  "replay (map (\<lambda>(k, c). (k, map_option val (after c))) (concat (map (changes_out prev inc) ls))) m =
    (\<lambda>k. if k \<in> set ls \<and> inc k = None then None else m k)"
proof (induction ls arbitrary: m)
  case (Cons a ls)
  have "replay (map (\<lambda>(k, c). (k, map_option val (after c))) (changes_out prev inc a)) m =
      (if inc a = None then m(a := None) else m)"
    by (simp add: changes_out_def)
  then show ?case by (auto simp: replay_append Cons.IH fun_eq_iff)
qed simp

lemma replay_changes:
  assumes "distinct ks" and "set ks = dom inc" and "set ls = dom prev"
    and "\<And>a b. \<not> dirty a b \<Longrightarrow> val a = val b"
  shows "replay (map (\<lambda>(k, c). (k, map_option val (after c))) (changes dirty prev inc ks ls))
      (\<lambda>k. map_option val (prev k)) = (\<lambda>k. map_option val (inc k))"
proof -
  have "replay (map (\<lambda>(k, c). (k, map_option val (after c))) (concat (map (changes_in dirty prev inc) ks)))
      (\<lambda>k. map_option val (prev k)) = (\<lambda>k. if k \<in> set ks then map_option val (inc k) else map_option val (prev k))"
    using assms by (intro replay_in) auto
  with assms show ?thesis
    by (auto simp: changes_def replay_append replay_out fun_eq_iff domIff)
qed

end
