(* ===== verification/Apply_Scan.thy ===== *)
theory Apply_Scan
  imports Store Delta
begin

text \<open>
  The delta engine: \<open>pkg/data/postgres/applyscan.go\<close>. \<open>ApplyScan\<close> compares the findings of one scan
  of an SBOM with the stored ones, appends one event per difference, queues the alertable
  events, rewrites the current findings and recomputes the SBOM's severity rollup, in one
  transaction.

  Each helper of the code that sends a statement is a function on the store with a \<open>db_\<close>
  wrapper that adds the statement's possible failure. The advisory lock that serialises two
  calls for the same SBOM and scanner is a statement without effect on the tables.
\<close>

section \<open>Row helpers\<close>

definition sortedKeys :: "(string, 'v) gomap \<Rightarrow> string list" where
  "sortedKeys m = sort (map fst m)"

definition zero_versions :: Versions where
  "zero_versions = \<lparr>DBVersion = [], ScannerVersion = [], CanonicalizerVersion = []\<rparr>"

definition classifyCause :: "Versions \<Rightarrow> Versions \<Rightarrow> string" where
  "classifyCause ver prev =
     (if prev = zero_versions then CauseImage
      else if ScannerVersion prev \<noteq> ScannerVersion ver \<or> CanonicalizerVersion prev \<noteq> CanonicalizerVersion ver
      then CauseTooling
      else CauseDB)"

definition changed :: "vulnerability \<Rightarrow> vulnerability \<Rightarrow> bool" where
  "changed a b = (Severity a \<noteq> Severity b \<or> Score a \<noteq> Score b \<or> IsFixed a \<noteq> IsFixed b)"

definition current_findings :: "string \<Rightarrow> string \<Rightarrow> store \<Rightarrow> (string, vulnerability) gomap" where
  "current_findings sbomID scanner s =
     map_from f_id f_vuln (filter (\<lambda>f. f_sbom f = sbomID \<and> f_scanner f = scanner) (findings s))"

definition loadCurrentFindings :: "string \<Rightarrow> string \<Rightarrow> (store, (string, vulnerability) gomap) db" where
  "loadCurrentFindings sbomID scanner =
     db_stmt (Wrapf ''load findings: '') (\<lambda>t s. (Inr (current_findings sbomID scanner s), s))"

text \<open>\<open>ORDER BY scanned_at DESC LIMIT 1\<close>.\<close>

fun latest_run :: "scan_run list \<Rightarrow> scan_run option" where
  "latest_run [] = None"
| "latest_run (r # rs) =
     (case latest_run rs of
        None \<Rightarrow> Some r
      | Some r' \<Rightarrow> if scanned_at r' \<le> scanned_at r then Some r else Some r')"

definition prev_versions :: "string \<Rightarrow> string \<Rightarrow> store \<Rightarrow> Versions" where
  "prev_versions sbomID scanner s =
     (case latest_run (filter (\<lambda>r. run_sbom r = sbomID \<and> run_scanner r = scanner) (scan_runs s)) of
        None \<Rightarrow> zero_versions
      | Some r \<Rightarrow> run_versions r)"

definition loadPrevVersions :: "string \<Rightarrow> string \<Rightarrow> (store, Versions) db" where
  "loadPrevVersions sbomID scanner =
     db_stmt (Wrapf ''load prev versions: '') (\<lambda>t s. (Inr (prev_versions sbomID scanner s), s))"

definition count_severity :: "string \<Rightarrow> vulnerability list \<Rightarrow> nat" where
  "count_severity sev vulns = length (filter (\<lambda>v. Severity v = sev) vulns)"

definition new_run :: "string \<Rightarrow> string \<Rightarrow> Versions \<Rightarrow> time \<Rightarrow> vulnerability list \<Rightarrow> nat \<Rightarrow> scan_run" where
  "new_run sbomID scanner ver t vulns rid =
     \<lparr>run_id = rid, run_sbom = sbomID, run_scanner = scanner, run_versions = ver, scanned_at = t,
      finding_count = length vulns, critical_count = count_severity SeverityCritical vulns,
      high_count = count_severity SeverityHigh vulns, medium_count = count_severity SeverityMedium vulns,
      low_count = count_severity SeverityLow vulns\<rparr>"

text \<open>The table has a unique constraint on the SBOM, the scanner, the two version columns and the
  time; a second run with the same values is an error.\<close>

definition insertScanRun ::
    "string \<Rightarrow> string \<Rightarrow> Versions \<Rightarrow> time \<Rightarrow> vulnerability list \<Rightarrow> (store, nat) db" where
  "insertScanRun sbomID scanner ver at_time vulns =
     db_stmt (Wrapf ''insert scan_run: '') (\<lambda>t s.
       let r = new_run sbomID scanner ver at_time vulns (next_row_id s) in
       if run_key r \<in> run_key ` set (scan_runs s)
       then (Inl (Wrapf ''insert scan_run: '' (Driver ''duplicate key value violates unique constraint'')), s)
       else (Inr (run_id r), s\<lparr>scan_runs := scan_runs s @ [r], next_row_id := Suc (next_row_id s)\<rparr>))"

definition new_event ::
    "SBOM \<Rightarrow> string \<Rightarrow> string \<Rightarrow> string \<Rightarrow> vulnerability \<Rightarrow> vulnerability option \<Rightarrow> string \<Rightarrow> Versions \<Rightarrow> nat \<Rightarrow> time \<Rightarrow> int \<Rightarrow> finding_event" where
  "new_event sb scanner fid evType cur prev cause ver rid at_time eid =
     \<lparr>ev_id = eid, ev_tenant = TenantID sb, ev_sbom = ID sb, ev_scanner = scanner, ev_finding_id = fid,
      ev_type = evType, ev_exposure = Exposure cur, ev_package = Package cur, ev_version = Version cur,
      ev_severity = Severity cur, ev_score = Score cur, ev_prev_severity = map_option Severity prev,
      ev_prev_score = map_option Score prev, ev_cause = cause, ev_db_version = DBVersion ver,
      ev_scanner_version = ScannerVersion ver, ev_run_id = rid, ev_occurred_at = at_time\<rparr>"

text \<open>\<open>ON CONFLICT DO NOTHING\<close> returns no row, which the code reads as event id 0. The identity
  column draws its value either way.\<close>

definition insert_event :: "finding_event \<Rightarrow> store \<Rightarrow> int \<times> store" where
  "insert_event v s =
     (if event_key v \<in> event_key ` set (events s) then (0, s\<lparr>next_event_id := next_event_id s + 1\<rparr>)
      else (next_event_id s,
        s\<lparr>events := events s @ [v\<lparr>ev_id := next_event_id s\<rparr>], next_event_id := next_event_id s + 1\<rparr>))"

definition insertEvent ::
    "SBOM \<Rightarrow> string \<Rightarrow> string \<Rightarrow> string \<Rightarrow> vulnerability \<Rightarrow> vulnerability option \<Rightarrow> string \<Rightarrow> Versions \<Rightarrow> nat \<Rightarrow> time \<Rightarrow> (store, int) db" where
  "insertEvent sb scanner fid evType cur prev cause ver rid at_time =
     db_stmt (Wrapf ''insert event: '') (\<lambda>t s.
       case insert_event (new_event sb scanner fid evType cur prev cause ver rid at_time 0) s of
         (eid, s') \<Rightarrow> (Inr eid, s'))"

abbreviation DefaultConsumer :: string where "DefaultConsumer \<equiv> ''browser-alerts-v1''"

definition enqueue_alert :: "string \<Rightarrow> int \<Rightarrow> time \<Rightarrow> store \<Rightarrow> store" where
  "enqueue_alert tenant eid at_time s =
     (let q = \<lparr>q_consumer = DefaultConsumer, q_tenant = tenant, q_occurred_at = at_time, q_event_id = eid, q_processed_at = None\<rparr>
      in s\<lparr>alert_queue := upsert queue_key (\<lambda>x. x) q (alert_queue s)\<rparr>)"

definition alertable :: "int \<Rightarrow> string \<Rightarrow> bool" where
  "alertable eid cause = (\<not> (eid = 0 \<or> (cause \<noteq> CauseImage \<and> cause \<noteq> CauseDB)))"

definition enqueueAlertEvent :: "string \<Rightarrow> int \<Rightarrow> string \<Rightarrow> time \<Rightarrow> (store, unit) db" where
  "enqueueAlertEvent tenant eid cause at_time =
     (if \<not> alertable eid cause then db_return ()
      else db_stmt (Wrapf ''enqueue alert event: '') (\<lambda>t s. (Inr (), enqueue_alert tenant eid at_time s)))"

text \<open>On conflict only the mutable attributes and the time are written.\<close>

definition put_finding :: "string \<Rightarrow> string \<Rightarrow> string \<Rightarrow> vulnerability \<Rightarrow> time \<Rightarrow> store \<Rightarrow> store" where
  "put_finding sbomID scanner fid v at_time s =
     s\<lparr>findings := upsert finding_key
         (\<lambda>x. x\<lparr>f_vuln := (f_vuln x)\<lparr>Severity := Severity v, Score := Score v, IsFixed := IsFixed v\<rparr>, f_updated_at := at_time\<rparr>)
         \<lparr>f_sbom = sbomID, f_scanner = scanner, f_id = fid, f_vuln = v, f_updated_at = at_time\<rparr> (findings s)\<rparr>"

definition upsertFinding :: "string \<Rightarrow> string \<Rightarrow> string \<Rightarrow> vulnerability \<Rightarrow> time \<Rightarrow> (store, unit) db" where
  "upsertFinding sbomID scanner fid v at_time =
     db_stmt (Wrapf ''upsert finding: '') (\<lambda>t s. (Inr (), put_finding sbomID scanner fid v at_time s))"

definition del_finding :: "string \<Rightarrow> string \<Rightarrow> string \<Rightarrow> store \<Rightarrow> store" where
  "del_finding sbomID scanner fid s =
     s\<lparr>findings := filter (\<lambda>f. \<not> (f_sbom f = sbomID \<and> f_scanner f = scanner \<and> f_id f = fid)) (findings s)\<rparr>"

definition deleteFinding :: "string \<Rightarrow> string \<Rightarrow> string \<Rightarrow> (store, unit) db" where
  "deleteFinding sbomID scanner fid =
     db_stmt (Wrapf ''delete finding: '') (\<lambda>t s. (Inr (), del_finding sbomID scanner fid s))"

section \<open>The rollup\<close>

text \<open>\<open>COUNT(DISTINCT finding_id) FILTER (WHERE p)\<close> over the findings of one SBOM.\<close>

definition count_ids :: "(finding_row \<Rightarrow> bool) \<Rightarrow> finding_row list \<Rightarrow> nat" where
  "count_ids p fs = count_distinct (map f_id (filter p fs))"

definition kev_cve :: "store \<Rightarrow> string \<Rightarrow> bool" where
  "kev_cve s cve = list_ex (\<lambda>e. en_cve e = cve \<and> en_kev e) (enrichments s)"

definition rollup_of :: "string \<Rightarrow> time \<Rightarrow> store \<Rightarrow> rollup_row" where
  "rollup_of sbomID t s =
     (let fs = filter (\<lambda>f. f_sbom f = sbomID) (findings s);
          sev = (\<lambda>x f. Severity (f_vuln f) = x); fixed = (\<lambda>f. IsFixed (f_vuln f)) in
      \<lparr>ro_sbom = sbomID,
       ro_critical = count_ids (sev SeverityCritical) fs, ro_high = count_ids (sev SeverityHigh) fs,
       ro_medium = count_ids (sev SeverityMedium) fs, ro_low = count_ids (sev SeverityLow) fs,
       ro_negligible = count_ids (sev SeverityNegligible) fs, ro_unknown = count_ids (sev SeverityUnknown) fs,
       ro_total = count_ids (\<lambda>_. True) fs,
       ro_fixable = count_ids fixed fs,
       ro_fix_critical = count_ids (\<lambda>f. fixed f \<and> sev SeverityCritical f) fs,
       ro_fix_high = count_ids (\<lambda>f. fixed f \<and> sev SeverityHigh f) fs,
       ro_fix_medium = count_ids (\<lambda>f. fixed f \<and> sev SeverityMedium f) fs,
       ro_fix_low = count_ids (\<lambda>f. fixed f \<and> sev SeverityLow f) fs,
       ro_kev = count_distinct (map (\<lambda>f. Exposure (f_vuln f)) (filter (\<lambda>f. kev_cve s (Exposure (f_vuln f))) fs)),
       ro_updated_at = t\<rparr>)"

definition put_rollup :: "string \<Rightarrow> time \<Rightarrow> store \<Rightarrow> store" where
  "put_rollup sbomID t s =
     s\<lparr>rollups := upsert ro_sbom (\<lambda>_. rollup_of sbomID t s) (rollup_of sbomID t s) (rollups s)\<rparr>"

text \<open>\<open>now()\<close> in the statement is the start of the transaction.\<close>

definition recomputeSBOMRollup :: "time \<Rightarrow> string \<Rightarrow> (store, unit) db" where
  "recomputeSBOMRollup tx_now sbomID =
     db_stmt (Wrapf ''recompute rollup: '') (\<lambda>t s. (Inr (), put_rollup sbomID tx_now s))"

definition RecomputeSBOMRollup :: "string \<Rightarrow> (store, unit) db" where
  "RecomputeSBOMRollup sbomID = db_tx ''begin rollup tx: '' (\<lambda>now. recomputeSBOMRollup now sbomID) []"

section \<open>ApplyScan\<close>

text \<open>One iteration of the loop over the incoming findings.\<close>

definition apply_incoming ::
    "SBOM \<Rightarrow> string \<Rightarrow> Versions \<Rightarrow> string \<Rightarrow> nat \<Rightarrow> time \<Rightarrow> (string, vulnerability) gomap \<Rightarrow>
     (string, vulnerability) gomap \<Rightarrow> string \<Rightarrow> (store, unit) db" where
  "apply_incoming sb scanner ver cause rid now prev incoming fid =
     (let v = the (map_of incoming fid) in
      case map_of prev fid of
        None \<Rightarrow>
          db_bind (insertEvent sb scanner fid EventAdded v None cause ver rid now) (\<lambda>eid.
          db_bind (enqueueAlertEvent (TenantID sb) eid cause now) (\<lambda>_.
          upsertFinding (ID sb) scanner fid v now))
      | Some old \<Rightarrow>
          if changed old v then
            (let evType = (if \<not> IsFixed old \<and> IsFixed v then EventFixed else EventRerated) in
             db_bind (insertEvent sb scanner fid evType v (Some old) cause ver rid now) (\<lambda>eid.
             db_bind (enqueueAlertEvent (TenantID sb) eid cause now) (\<lambda>_.
             upsertFinding (ID sb) scanner fid v now)))
          else db_return ())"

text \<open>One iteration of the loop over the previous findings.\<close>

definition apply_resolved ::
    "SBOM \<Rightarrow> string \<Rightarrow> Versions \<Rightarrow> string \<Rightarrow> nat \<Rightarrow> time \<Rightarrow> (string, vulnerability) gomap \<Rightarrow>
     (string, vulnerability) gomap \<Rightarrow> string \<Rightarrow> (store, unit) db" where
  "apply_resolved sb scanner ver cause rid now prev incoming fid =
     (if map_of incoming fid \<noteq> None then db_return ()
      else
        (let old = the (map_of prev fid) in
         db_bind (insertEvent sb scanner fid EventResolved old (Some old) cause ver rid now) (\<lambda>eid.
         db_bind (enqueueAlertEvent (TenantID sb) eid cause now) (\<lambda>_.
         deleteFinding (ID sb) scanner fid))))"

definition ApplyScan :: "SBOM \<Rightarrow> string \<Rightarrow> Versions \<Rightarrow> vulnerability list \<Rightarrow> (store, unit) db" where
  "ApplyScan sb scanner ver vulns =
     db_tx ''begin: '' (\<lambda>tx_now.
       db_bind (db_stmt (Wrapf ''acquire scan lock: '') (\<lambda>t s. (Inr (), s))) (\<lambda>_.
       db_bind (loadCurrentFindings (ID sb) scanner) (\<lambda>prev.
       db_bind (loadPrevVersions (ID sb) scanner) (\<lambda>prevVer.
       let incoming = map_from GetID (\<lambda>v. v) vulns in
       db_bind (db_stmt (Wrapf ''read scan clock: '') (\<lambda>t s. (Inr t, s))) (\<lambda>now.
       db_bind (insertScanRun (ID sb) scanner ver now vulns) (\<lambda>rid.
       let cause = classifyCause ver prevVer in
       db_bind (db_foreach (sortedKeys incoming) (apply_incoming sb scanner ver cause rid now prev incoming)) (\<lambda>_.
       db_bind (db_foreach (sortedKeys prev) (apply_resolved sb scanner ver cause rid now prev incoming)) (\<lambda>_.
       recomputeSBOMRollup tx_now (ID sb)))))))))
     ''commit: ''"

section \<open>ApplyScan as a function of the store\<close>

text \<open>The event the code writes for a difference, and what it does about it: the row of the log
  and, for an alertable cause, the row of the alert queue.\<close>

fun change_event :: "SBOM \<Rightarrow> string \<Rightarrow> Versions \<Rightarrow> string \<Rightarrow> nat \<Rightarrow> time \<Rightarrow> string \<Rightarrow> vulnerability change \<Rightarrow> finding_event" where
  "change_event sb scanner ver cause rid now fid (Add v) =
     new_event sb scanner fid EventAdded v None cause ver rid now 0"
| "change_event sb scanner ver cause rid now fid (Change old v) =
     new_event sb scanner fid (if \<not> IsFixed old \<and> IsFixed v then EventFixed else EventRerated) v (Some old) cause ver rid now 0"
| "change_event sb scanner ver cause rid now fid (Remove old) =
     new_event sb scanner fid EventResolved old (Some old) cause ver rid now 0"

definition emit_event :: "string \<Rightarrow> string \<Rightarrow> time \<Rightarrow> finding_event \<Rightarrow> store \<Rightarrow> store" where
  "emit_event tenant cause now v s =
     (case insert_event v s of (eid, s1) \<Rightarrow> if alertable eid cause then enqueue_alert tenant eid now s1 else s1)"

definition emit_change :: "SBOM \<Rightarrow> string \<Rightarrow> Versions \<Rightarrow> string \<Rightarrow> nat \<Rightarrow> time \<Rightarrow> string \<Rightarrow> vulnerability change \<Rightarrow> store \<Rightarrow> store" where
  "emit_change sb scanner ver cause rid now fid c =
     emit_event (TenantID sb) cause now (change_event sb scanner ver cause rid now fid c)"

lemma db_does_emit:
  assumes "db_does k v h"
  shows "db_does
    (db_bind (insertEvent sb scanner fid evType cur prev cause ver rid now) (\<lambda>eid.
     db_bind (enqueueAlertEvent (TenantID sb) eid cause now) (\<lambda>_. k)))
    (\<lambda>s. v (emit_event (TenantID sb) cause now (new_event sb scanner fid evType cur prev cause ver rid now 0) s))
    (\<lambda>s. h (emit_event (TenantID sb) cause now (new_event sb scanner fid evType cur prev cause ver rid now 0) s))"
  using assms unfolding db_does_def
  by (auto simp: db_bind_Inr insertEvent_def db_stmt_Inr enqueueAlertEvent_def emit_event_def split: prod.splits if_splits)

lemma db_does_put: "db_does (upsertFinding sbomID scanner fid v now) (\<lambda>_. ()) (put_finding sbomID scanner fid v now)"
  unfolding upsertFinding_def by (rule db_does_stmt)

lemma db_does_del: "db_does (deleteFinding sbomID scanner fid) (\<lambda>_. ()) (del_finding sbomID scanner fid)"
  unfolding deleteFinding_def by (rule db_does_stmt)

lemma db_does_incoming:
  "db_does (apply_incoming sb scanner ver cause rid now prev incoming fid) (\<lambda>_. ())
     (sync_in (emit_change sb scanner ver cause rid now) (\<lambda>fid v. put_finding (ID sb) scanner fid v now) changed
       (map_of prev) (map_of incoming) fid)"
proof (cases "map_of prev fid")
  case None
  then show ?thesis
    by (auto simp: apply_incoming_def sync_in_def emit_change_def Let_def db_does_def
        dest: db_doesD [OF db_does_emit [OF db_does_put]])
next
  case (Some old)
  then show ?thesis
    by (auto simp: apply_incoming_def sync_in_def emit_change_def Let_def db_does_def
        dest: db_doesD [OF db_does_emit [OF db_does_put]])
qed

lemma db_does_resolved:
  "db_does (apply_resolved sb scanner ver cause rid now prev incoming fid) (\<lambda>_. ())
     (sync_out (emit_change sb scanner ver cause rid now) (del_finding (ID sb) scanner)
       (map_of prev) (map_of incoming) fid)"
  by (auto simp: apply_resolved_def sync_out_def emit_change_def Let_def db_does_def
      dest: db_doesD [OF db_does_emit [OF db_does_del]])

text \<open>The transaction's effect, given the run's clock \<open>now\<close> and the start of the transaction.\<close>

definition add_run :: "string \<Rightarrow> string \<Rightarrow> Versions \<Rightarrow> time \<Rightarrow> vulnerability list \<Rightarrow> store \<Rightarrow> store" where
  "add_run sbomID scanner ver now vulns s =
     s\<lparr>scan_runs := scan_runs s @ [new_run sbomID scanner ver now vulns (next_row_id s)],
       next_row_id := Suc (next_row_id s)\<rparr>"

definition sync_findings :: "SBOM \<Rightarrow> string \<Rightarrow> Versions \<Rightarrow> string \<Rightarrow> nat \<Rightarrow> time \<Rightarrow>
    (string, vulnerability) gomap \<Rightarrow> (string, vulnerability) gomap \<Rightarrow> store \<Rightarrow> store" where
  "sync_findings sb scanner ver cause rid now prev incoming s =
     fold (sync_out (emit_change sb scanner ver cause rid now) (del_finding (ID sb) scanner) (map_of prev) (map_of incoming))
       (sortedKeys prev)
       (fold (sync_in (emit_change sb scanner ver cause rid now) (\<lambda>fid v. put_finding (ID sb) scanner fid v now) changed
           (map_of prev) (map_of incoming))
         (sortedKeys incoming) s)"

definition incoming_findings :: "vulnerability list \<Rightarrow> (string, vulnerability) gomap" where
  "incoming_findings vulns = map_from GetID (\<lambda>v. v) vulns"

definition scan_cause :: "SBOM \<Rightarrow> string \<Rightarrow> Versions \<Rightarrow> store \<Rightarrow> string" where
  "scan_cause sb scanner ver s = classifyCause ver (prev_versions (ID sb) scanner s)"

definition apply_core :: "SBOM \<Rightarrow> string \<Rightarrow> Versions \<Rightarrow> vulnerability list \<Rightarrow> time \<Rightarrow> time \<Rightarrow> store \<Rightarrow> store" where
  "apply_core sb scanner ver vulns now tx_now s =
     put_rollup (ID sb) tx_now
       (sync_findings sb scanner ver (scan_cause sb scanner ver s) (next_row_id s) now
          (current_findings (ID sb) scanner s) (incoming_findings vulns)
          (add_run (ID sb) scanner ver now vulns s))"

definition sync_tail :: "time \<Rightarrow> SBOM \<Rightarrow> string \<Rightarrow> Versions \<Rightarrow> string \<Rightarrow> nat \<Rightarrow> time \<Rightarrow>
    (string, vulnerability) gomap \<Rightarrow> (string, vulnerability) gomap \<Rightarrow> (store, unit) db" where
  "sync_tail tx_now sb scanner ver cause rid now prev incoming =
     db_bind (db_foreach (sortedKeys incoming) (apply_incoming sb scanner ver cause rid now prev incoming)) (\<lambda>_.
     db_bind (db_foreach (sortedKeys prev) (apply_resolved sb scanner ver cause rid now prev incoming)) (\<lambda>_.
     recomputeSBOMRollup tx_now (ID sb)))"

lemma db_does_sync:
  "db_does (sync_tail tx_now sb scanner ver cause rid now prev incoming)
     (\<lambda>_. ()) (\<lambda>s. put_rollup (ID sb) tx_now (sync_findings sb scanner ver cause rid now prev incoming s))"
  unfolding sync_findings_def recomputeSBOMRollup_def sync_tail_def
  by (rule db_does_bind [OF db_does_foreach [OF db_does_incoming]
        db_does_bind [OF db_does_foreach [OF db_does_resolved] db_does_stmt]])

lemma db_total_sync: "db_total (sync_tail tx_now sb scanner ver cause rid now prev incoming)"
proof -
  have ev: "db_total (insertEvent sb scanner fid evType cur pv cause ver rid now)" for fid evType cur pv
    by (auto simp: insertEvent_def db_total_def db_stmt_def no_faults_def split: prod.splits)
  have en: "db_total (enqueueAlertEvent tenant eid cause now)" for tenant eid
    by (auto simp: enqueueAlertEvent_def intro: db_rules)
  show ?thesis
    by (auto simp: sync_tail_def apply_incoming_def apply_resolved_def upsertFinding_def deleteFinding_def
        recomputeSBOMRollup_def Let_def split: option.splits intro!: db_rules ev en)
qed

lemma run_key_new_run: "run_key (new_run sbomID scanner ver t vulns i) = (sbomID, scanner, DBVersion ver, ScannerVersion ver, t)"
  by (simp add: run_key_def new_run_def)

lemma ApplyScan_body:
  "ApplyScan sb scanner ver vulns =
     db_tx ''begin: '' (\<lambda>tx_now.
       db_bind (db_stmt (Wrapf ''acquire scan lock: '') (\<lambda>t s. (Inr (), s))) (\<lambda>_.
       db_bind (loadCurrentFindings (ID sb) scanner) (\<lambda>prev.
       db_bind (loadPrevVersions (ID sb) scanner) (\<lambda>prevVer.
       db_bind (db_stmt (Wrapf ''read scan clock: '') (\<lambda>t s. (Inr t, s))) (\<lambda>now.
       db_bind (insertScanRun (ID sb) scanner ver now vulns) (\<lambda>rid.
       sync_tail tx_now sb scanner ver (classifyCause ver prevVer) rid now prev (incoming_findings vulns)))))))
     ''commit: ''"
  by (simp add: ApplyScan_def sync_tail_def incoming_findings_def Let_def)

lemma insertScanRun_Inr:
  "insertScanRun sbomID scanner ver t vulns e n s = (Inr rid, n', s') \<longleftrightarrow>
     fault e n = None \<and> n' = Suc n \<and> rid = next_row_id s \<and> s' = add_run sbomID scanner ver t vulns s \<and>
     (sbomID, scanner, DBVersion ver, ScannerVersion ver, t) \<notin> run_key ` set (scan_runs s)"
  by (auto simp: insertScanRun_def db_stmt_Inr Let_def run_key_new_run add_run_def)
     (auto simp: new_run_def)

lemma ApplyScan_success:
  assumes "ApplyScan sb scanner ver vulns e n s = (Inr r, n', s')"
  shows "s' = apply_core sb scanner ver vulns (clock e (n + 4)) (clock e n) s \<and>
    (ID sb, scanner, DBVersion ver, ScannerVersion ver, clock e (n + 4)) \<notin> run_key ` set (scan_runs s)"
  using assms
  apply (simp add: ApplyScan_body db_tx_Inr db_bind_Inr db_stmt_Inr loadCurrentFindings_def loadPrevVersions_def
      insertScanRun_Inr)
  apply (elim conjE exE)
  apply (drule db_doesD [OF db_does_sync])
  by (simp add: apply_core_def scan_cause_def numeral_eq_Suc)

lemma ApplyScan_total:
  assumes "no_faults e"
    and "(ID sb, scanner, DBVersion ver, ScannerVersion ver, clock e (n + 4)) \<notin> run_key ` set (scan_runs s)"
  shows "\<exists>n'. ApplyScan sb scanner ver vulns e n s =
    (Inr (), n', apply_core sb scanner ver vulns (clock e (n + 4)) (clock e n) s)"
proof -
  have f: "fault e k = None" for k using assms(1) by (simp add: no_faults_def)
  have "\<exists>m. sync_tail (clock e n) sb scanner ver (scan_cause sb scanner ver s) (next_row_id s) (clock e (n + 4))
      (current_findings (ID sb) scanner s) (incoming_findings vulns) e (n + 6) (add_run (ID sb) scanner ver (clock e (n + 4)) vulns s)
    = (Inr (), m, apply_core sb scanner ver vulns (clock e (n + 4)) (clock e n) s)"
    unfolding apply_core_def by (rule db_does_total_run [OF db_does_sync db_total_sync assms(1)])
  with assms(2) show ?thesis
    by (auto simp: ApplyScan_body db_tx_Inr db_bind_Inr db_stmt_Inr loadCurrentFindings_def loadPrevVersions_def
      insertScanRun_Inr scan_cause_def numeral_eq_Suc f)
qed
section \<open>The delta engine meets its contract\<close>

text \<open>What the engine compares and rewrites of a finding, and the current findings of one SBOM and
  scanner seen through it.\<close>

definition attributes :: "vulnerability \<Rightarrow> string \<times> rat \<times> bool" where
  "attributes v = (Severity v, Score v, IsFixed v)"

definition finding_at :: "string \<Rightarrow> string \<Rightarrow> store \<Rightarrow> string \<Rightarrow> finding_row option" where
  "finding_at sbomID scanner s fid = lookup_key finding_key (findings s) (sbomID, scanner, fid)"

definition finding_view :: "string \<Rightarrow> string \<Rightarrow> store \<Rightarrow> string \<Rightarrow> (string \<times> rat \<times> bool) option" where
  "finding_view sbomID scanner s fid = map_option (\<lambda>f. attributes (f_vuln f)) (finding_at sbomID scanner s fid)"

definition event_log :: "store \<Rightarrow> finding_event list" where
  "event_log s = map (\<lambda>v. v\<lparr>ev_id := 0\<rparr>) (events s)"

definition no_event_at :: "string \<times> string \<times> string \<times> string \<times> time \<Rightarrow> string \<Rightarrow> store \<Rightarrow> bool" where
  "no_event_at run fid s = list_all (\<lambda>v. event_run v = run \<longrightarrow> ev_finding_id v \<noteq> fid) (events s)"

lemma emit_change_frame:
  "findings (emit_change sb scanner ver cause rid now fid c s) = findings s"
  "scan_runs (emit_change sb scanner ver cause rid now fid c s) = scan_runs s"
  by (auto simp: emit_change_def emit_event_def insert_event_def enqueue_alert_def Let_def)

lemma put_finding_frame:
  "events (put_finding sbomID scanner fid v t s) = events s"
  "alert_queue (put_finding sbomID scanner fid v t s) = alert_queue s"
  "next_event_id (put_finding sbomID scanner fid v t s) = next_event_id s"
  by (auto simp: put_finding_def)

lemma del_finding_frame:
  "events (del_finding sbomID scanner fid s) = events s"
  "alert_queue (del_finding sbomID scanner fid s) = alert_queue s"
  "next_event_id (del_finding sbomID scanner fid s) = next_event_id s"
  by (auto simp: del_finding_def)

lemmas sync_frames = emit_change_frame put_finding_frame del_finding_frame

lemma finding_at_put:
  "finding_at sbomID' scanner' (put_finding sbomID scanner fid v t s) fid' =
     (if (sbomID', scanner', fid') = (sbomID, scanner, fid)
      then Some (case finding_at sbomID scanner s fid of
          None \<Rightarrow> \<lparr>f_sbom = sbomID, f_scanner = scanner, f_id = fid, f_vuln = v, f_updated_at = t\<rparr>
        | Some x \<Rightarrow> x\<lparr>f_vuln := (f_vuln x)\<lparr>Severity := Severity v, Score := Score v, IsFixed := IsFixed v\<rparr>, f_updated_at := t\<rparr>)
      else finding_at sbomID' scanner' s fid')"
proof -
  let ?r = "\<lparr>f_sbom = sbomID, f_scanner = scanner, f_id = fid, f_vuln = v, f_updated_at = t\<rparr>"
  let ?u = "\<lambda>x. x\<lparr>f_vuln := (f_vuln x)\<lparr>Severity := Severity v, Score := Score v, IsFixed := IsFixed v\<rparr>, f_updated_at := t\<rparr>"
  have r: "finding_key ?r = (sbomID, scanner, fid)" by (simp add: finding_key_def)
  show ?thesis
    using lookup_key_upsert_keep [of finding_key ?r ?u "findings s" "(sbomID', scanner', fid')"] r
    by (simp add: finding_at_def put_finding_def finding_key_def)
qed

lemma finding_at_del:
  "finding_at sbomID' scanner' (del_finding sbomID scanner fid s) fid' =
     (if (sbomID', scanner', fid') = (sbomID, scanner, fid) then None else finding_at sbomID' scanner' s fid')"
  using lookup_key_filter [of finding_key "(sbomID', scanner', fid')"
      "\<lambda>f. \<not> (f_sbom f = sbomID \<and> f_scanner f = scanner \<and> f_id f = fid)"
      "(sbomID', scanner', fid') \<noteq> (sbomID, scanner, fid)" "findings s"]
  by (simp add: finding_at_def del_finding_def finding_key_def)

lemma finding_at_emit: "finding_at sbomID scanner (emit_change sb scanner' ver cause rid now fid c s) = finding_at sbomID scanner s"
  by (simp add: finding_at_def fun_eq_iff sync_frames)

lemma event_run_change_event:
  "event_run (change_event sb scanner ver cause rid now fid c) = (ID sb, scanner, DBVersion ver, ScannerVersion ver, now)"
  "ev_finding_id (change_event sb scanner ver cause rid now fid c) = fid"
  "ev_id (change_event sb scanner ver cause rid now fid c) = 0"
  by (cases c; simp add: event_run_def new_event_def)+

lemma event_key_run: "event_key v = event_key w \<Longrightarrow> event_run v = event_run w \<and> ev_finding_id v = ev_finding_id w"
  by (auto simp: event_key_def event_run_def)

lemma event_key_id: "event_key (v\<lparr>ev_id := i\<rparr>) = event_key v" "event_run (v\<lparr>ev_id := i\<rparr>) = event_run v"
  by (auto simp: event_key_def event_run_def)

text \<open>An event that is not a duplicate is appended under the next identifier.\<close>

lemma emit_change_fresh:
  assumes "no_event_at (ID sb, scanner, DBVersion ver, ScannerVersion ver, now) fid s"
  shows "events (emit_change sb scanner ver cause rid now fid c s) =
    events s @ [(change_event sb scanner ver cause rid now fid c)\<lparr>ev_id := next_event_id s\<rparr>]"
proof -
  have "event_key (change_event sb scanner ver cause rid now fid c) \<notin> event_key ` set (events s)"
    using assms by (auto simp: no_event_at_def list_all_iff event_run_change_event dest!: event_key_run)
  then show ?thesis
    by (auto simp: emit_change_def emit_event_def insert_event_def enqueue_alert_def Let_def)
qed

lemma emit_change_events:
  "set (events (emit_change sb scanner ver cause rid now fid c s)) \<subseteq>
    insert ((change_event sb scanner ver cause rid now fid c)\<lparr>ev_id := next_event_id s\<rparr>) (set (events s))"
  by (auto simp: emit_change_def emit_event_def insert_event_def enqueue_alert_def Let_def split: if_splits)

interpretation finding_sync: delta_log
    "finding_view (ID sb) scanner" "\<lambda>fid v. put_finding (ID sb) scanner fid v now" "del_finding (ID sb) scanner"
    "emit_change sb scanner ver cause rid now" attributes changed
    event_log "change_event sb scanner ver cause rid now"
    "no_event_at (ID sb, scanner, DBVersion ver, ScannerVersion ver, now)"
  for sb scanner ver cause rid now
proof unfold_locales
  fix k w s
  show "finding_view (ID sb) scanner (put_finding (ID sb) scanner k w now s) = (finding_view (ID sb) scanner s)(k \<mapsto> attributes w)"
    by (auto simp: finding_view_def fun_eq_iff finding_at_put attributes_def split: option.splits)
next
  fix k s
  show "finding_view (ID sb) scanner (del_finding (ID sb) scanner k s) = (finding_view (ID sb) scanner s)(k := None)"
    by (auto simp: finding_view_def fun_eq_iff finding_at_del)
next
  fix k c s
  show "finding_view (ID sb) scanner (emit_change sb scanner ver cause rid now k c s) = finding_view (ID sb) scanner s"
    by (simp add: finding_view_def finding_at_emit fun_eq_iff)
next
  fix a b
  show "\<not> changed a b \<Longrightarrow> attributes a = attributes b" by (simp add: changed_def attributes_def)
next
  fix k s c
  assume "no_event_at (ID sb, scanner, DBVersion ver, ScannerVersion ver, now) k s"
  then show "event_log (emit_change sb scanner ver cause rid now k c s) =
      event_log s @ [change_event sb scanner ver cause rid now k c]"
    by (cases c) (simp_all add: event_log_def emit_change_fresh new_event_def)
next
  fix j k c s
  show "j \<noteq> k \<Longrightarrow> no_event_at (ID sb, scanner, DBVersion ver, ScannerVersion ver, now) j s \<Longrightarrow>
      no_event_at (ID sb, scanner, DBVersion ver, ScannerVersion ver, now) j (emit_change sb scanner ver cause rid now k c s)"
    using emit_change_events event_run_change_event
    by (fastforce simp: no_event_at_def list_all_iff)
qed (simp_all add: event_log_def no_event_at_def sync_frames)

text \<open>The map the engine loads is the view of the table.\<close>

lemma distinct_finding_ids:
  "distinct_key finding_key fs \<Longrightarrow> distinct_key f_id (filter (\<lambda>f. f_sbom f = sbomID \<and> f_scanner f = scanner) fs)"
  by (induction fs) (auto simp: finding_key_def image_iff)

lemma map_of_finding_rows:
  "map_of (map (\<lambda>x. (f_id x, f_vuln x)) (filter (\<lambda>f. f_sbom f = sbomID \<and> f_scanner f = scanner) fs)) fid =
     map_option f_vuln (lookup_key finding_key fs (sbomID, scanner, fid))"
  by (induction fs) (auto simp: finding_key_def)

lemma map_of_current_findings:
  assumes "distinct_key finding_key (findings s)"
  shows "map_of (current_findings sbomID scanner s) fid = map_option f_vuln (finding_at sbomID scanner s fid)"
proof -
  let ?fs = "filter (\<lambda>f. f_sbom f = sbomID \<and> f_scanner f = scanner) (findings s)"
  have "distinct (map fst (map (\<lambda>x. (f_id x, f_vuln x)) ?fs))"
    using distinct_finding_ids [OF assms] by (simp add: distinct_key_def comp_def)
  from map_of_rev_distinct [OF this] show ?thesis
    by (simp add: current_findings_def map_of_map_from map_of_finding_rows finding_at_def rev_map)
qed

lemma set_sortedKeys [simp]: "set (sortedKeys m) = dom (map_of m)"
  by (simp add: sortedKeys_def dom_map_of_conv_image_fst)

lemma distinct_sortedKeys: "distinct (map fst m) \<Longrightarrow> distinct (sortedKeys m)"
  by (simp add: sortedKeys_def)

lemma finding_view_current:
  "distinct_key finding_key (findings s) \<Longrightarrow>
    finding_view sbomID scanner s = (\<lambda>fid. map_option attributes (map_of (current_findings sbomID scanner s) fid))"
  by (auto simp: finding_view_def map_of_current_findings fun_eq_iff option.map_comp comp_def)

lemma core_frame [simp]:
  "findings (add_run sbomID scanner ver t vulns s) = findings s"
  "events (add_run sbomID scanner ver t vulns s) = events s"
  "alert_queue (add_run sbomID scanner ver t vulns s) = alert_queue s"
  "next_event_id (add_run sbomID scanner ver t vulns s) = next_event_id s"
  "findings (put_rollup sbomID t s) = findings s"
  "events (put_rollup sbomID t s) = events s"
  "alert_queue (put_rollup sbomID t s) = alert_queue s"
  "scan_runs (put_rollup sbomID t s) = scan_runs s"
  "next_event_id (put_rollup sbomID t s) = next_event_id s"
  by (simp_all add: add_run_def put_rollup_def)

lemma finding_at_run: "finding_at sbomID scanner (add_run sbomID' scanner' ver t vulns s) = finding_at sbomID scanner s"
  by (simp add: finding_at_def fun_eq_iff)

lemma view_cong: "findings s = findings s' \<Longrightarrow> finding_view sbomID scanner s = finding_view sbomID scanner s'"
  by (simp add: finding_view_def finding_at_def fun_eq_iff)

lemma apply_core_view:
  assumes "distinct_key finding_key (findings s)"
  shows "finding_view (ID sb) scanner (apply_core sb scanner ver vulns now tx_now s) =
    (\<lambda>fid. map_option attributes (map_of (incoming_findings vulns) fid))"
proof -
  have "finding_view (ID sb) scanner (sync_findings sb scanner ver cause rid now (current_findings (ID sb) scanner s)
      (incoming_findings vulns) (add_run (ID sb) scanner ver now vulns s)) =
      (\<lambda>fid. map_option attributes (map_of (incoming_findings vulns) fid))" for cause rid
    unfolding sync_findings_def
    using finding_view_current [OF assms] view_cong [of "add_run (ID sb) scanner ver now vulns s" s]
    by (intro finding_sync.sync_converges) (simp_all add: distinct_sortedKeys incoming_findings_def)
  then show ?thesis unfolding apply_core_def by (simp add: view_cong [OF core_frame(5)])
qed

lemma apply_core_other:
  assumes "(sbomID, sc) \<noteq> (ID sb, scanner)"
  shows "finding_at sbomID sc (apply_core sb scanner ver vulns now tx_now s) = finding_at sbomID sc s"
proof -
  have "finding_at sbomID sc (sync_findings sb scanner ver cause rid now prev inc (add_run (ID sb) scanner ver now vulns s)) =
      finding_at sbomID sc s" for cause rid prev inc
    unfolding sync_findings_def
    by (rule sync_invariant [where P = "\<lambda>s'. finding_at sbomID sc s' = finding_at sbomID sc s"])
       (use assms in \<open>auto simp: finding_at_put finding_at_del finding_at_emit fun_eq_iff finding_at_run\<close>)
  then show ?thesis by (simp add: apply_core_def finding_at_def fun_eq_iff)
qed

text \<open>The differences between the stored findings and those of the scan, in the order in which the
  engine records them.\<close>

definition scan_changes :: "string \<Rightarrow> string \<Rightarrow> vulnerability list \<Rightarrow> store \<Rightarrow> (string \<times> vulnerability change) list" where
  "scan_changes sbomID scanner vulns s =
     (let prev = current_findings sbomID scanner s; inc = incoming_findings vulns in
      changes changed (map_of prev) (map_of inc) (sortedKeys inc) (sortedKeys prev))"

definition scan_events :: "SBOM \<Rightarrow> string \<Rightarrow> Versions \<Rightarrow> vulnerability list \<Rightarrow> time \<Rightarrow> store \<Rightarrow> finding_event list" where
  "scan_events sb scanner ver vulns now s =
     map (\<lambda>(fid, c). change_event sb scanner ver (scan_cause sb scanner ver s) (next_row_id s) now fid c)
       (scan_changes (ID sb) scanner vulns s)"

text \<open>The queue rows of events.\<close>

definition queue_rows :: "string \<Rightarrow> finding_event list \<Rightarrow> queue_row list" where
  "queue_rows tenant vs = map (\<lambda>v. \<lparr>q_consumer = DefaultConsumer, q_tenant = tenant,
     q_occurred_at = ev_occurred_at v, q_event_id = ev_id v, q_processed_at = None\<rparr>) vs"

definition alert_cause :: "string \<Rightarrow> bool" where
  "alert_cause cause = (cause = CauseImage \<or> cause = CauseDB)"

text \<open>What the loops keep: the queue follows the appended events, and the invariant.\<close>

definition appended :: "string \<Rightarrow> string \<Rightarrow> string \<times> string \<times> string \<times> string \<times> time \<Rightarrow> store \<Rightarrow> store \<Rightarrow> bool" where
  "appended tenant cause run s0 s \<longleftrightarrow>
     (\<exists>new. events s = events s0 @ new \<and>
        alert_queue s = alert_queue s0 @ (if alert_cause cause then queue_rows tenant new else [])) \<and>
     run \<in> run_key ` set (scan_runs s) \<and> store_inv s"

lemma distinct_key_put: "distinct_key finding_key (findings s) \<Longrightarrow> distinct_key finding_key (findings (put_finding sbomID scanner fid v t s))"
  by (auto simp: put_finding_def finding_key_def intro!: distinct_key_upsert)

lemma store_inv_put: "store_inv s \<Longrightarrow> store_inv (put_finding sbomID scanner fid v t s)"
  using distinct_key_put [of s] by (simp add: store_inv_def sync_frames) (simp add: put_finding_def)

lemma store_inv_del: "store_inv s \<Longrightarrow> store_inv (del_finding sbomID scanner fid s)"
  by (simp add: store_inv_def sync_frames) (simp add: del_finding_def distinct_key_filter)

lemma insert_event_cases:
  assumes "store_inv s"
  shows "event_key v \<in> event_key ` set (events s) \<and> emit_event tenant cause now v s = s\<lparr>next_event_id := next_event_id s + 1\<rparr> \<or>
    event_key v \<notin> event_key ` set (events s) \<and>
    emit_event tenant cause now v s =
      s\<lparr>events := events s @ [v\<lparr>ev_id := next_event_id s\<rparr>], next_event_id := next_event_id s + 1,
        alert_queue := alert_queue s @ (if alert_cause cause then
          [\<lparr>q_consumer = DefaultConsumer, q_tenant = tenant, q_occurred_at = now, q_event_id = next_event_id s, q_processed_at = None\<rparr>] else [])\<rparr>"
proof -
  have "queue_key \<lparr>q_consumer = DefaultConsumer, q_tenant = tenant, q_occurred_at = now, q_event_id = next_event_id s, q_processed_at = None\<rparr>
      \<notin> queue_key ` set (alert_queue s)" and "1 \<le> next_event_id s"
    using assms by (auto simp: store_inv_def list_all_iff queue_key_def image_iff)
  then show ?thesis
    by (auto simp: emit_event_def insert_event_def alertable_def alert_cause_def enqueue_alert_def Let_def upsert_fresh)
qed

lemma store_inv_skip: "store_inv s \<Longrightarrow> store_inv (s\<lparr>next_event_id := next_event_id s + 1\<rparr>)"
  by (fastforce simp: store_inv_def list_all_iff)

lemma store_inv_append:
  assumes "store_inv s" and "event_key v \<notin> event_key ` set (events s)" and "event_run v \<in> run_key ` set (scan_runs s)"
    and "qs = [] \<or> (\<exists>q. qs = [q] \<and> q_event_id q = next_event_id s)"
  shows "store_inv (s\<lparr>events := events s @ [v\<lparr>ev_id := next_event_id s\<rparr>], next_event_id := next_event_id s + 1,
    alert_queue := alert_queue s @ qs\<rparr>)"
proof -
  have "next_event_id s \<notin> ev_id ` set (events s)" and "next_event_id s \<notin> q_event_id ` set (alert_queue s)"
    using assms(1) by (auto simp: store_inv_def list_all_iff)
  moreover from this(2) have "queue_key ` set (alert_queue s) \<inter> queue_key ` set qs = {}"
    using assms(4) by (auto simp: queue_key_def image_iff)
  moreover have "distinct_key queue_key qs \<and> list_all (\<lambda>q. q_event_id q < next_event_id s + 1) qs"
    using assms(4) by auto
  ultimately show ?thesis
    using assms(1-3) by (fastforce simp: store_inv_def list_all_iff event_key_id)
qed

lemma store_inv_emit:
  assumes "store_inv s" and "(ID sb, scanner, DBVersion ver, ScannerVersion ver, now) \<in> run_key ` set (scan_runs s)"
  shows "store_inv (emit_change sb scanner ver cause rid now fid c s)"
proof -
  let ?v = "change_event sb scanner ver cause rid now fid c"
  have "event_run ?v \<in> run_key ` set (scan_runs s)" using assms(2) by (simp add: event_run_change_event)
  with insert_event_cases [OF assms(1), of ?v "TenantID sb" cause now] show ?thesis
    unfolding emit_change_def
    using store_inv_skip [OF assms(1)] by (elim disjE conjE ssubst) (assumption, intro store_inv_append [OF assms(1)], auto)
qed

lemma appended_emit:
  assumes "appended (TenantID sb) cause (ID sb, scanner, DBVersion ver, ScannerVersion ver, now) s0 s"
  shows "appended (TenantID sb) cause (ID sb, scanner, DBVersion ver, ScannerVersion ver, now) s0
    (emit_change sb scanner ver cause rid now fid c s)"
proof -
  have "ev_occurred_at (change_event sb scanner ver cause rid now fid c) = now"
    by (cases c) (simp_all add: new_event_def)
  then show ?thesis
    using assms store_inv_emit [of s sb scanner ver now cause rid fid c]
      insert_event_cases [of s "change_event sb scanner ver cause rid now fid c" "TenantID sb" cause now]
    by (fastforce simp: appended_def event_run_change_event emit_change_def sync_frames queue_rows_def)
qed

lemma store_inv_run:
  assumes "store_inv s" and "(sbomID, scanner, DBVersion ver, ScannerVersion ver, now) \<notin> run_key ` set (scan_runs s)"
  shows "store_inv (add_run sbomID scanner ver now vulns s)"
  using assms by (auto simp: store_inv_def add_run_def run_key_new_run list_all_iff)

lemma store_inv_rollup: "store_inv s \<Longrightarrow> store_inv (put_rollup sbomID t s)"
  by (auto simp: store_inv_def put_rollup_def rollup_of_def Let_def intro!: distinct_key_upsert)

lemma scan_runs_frame:
  "scan_runs (put_finding sbomID scanner fid v t s) = scan_runs s"
  "scan_runs (del_finding sbomID scanner fid s) = scan_runs s"
  by (simp_all add: put_finding_def del_finding_def)

lemma sync_appended:
  assumes "store_inv s" and "(ID sb, scanner, DBVersion ver, ScannerVersion ver, now) \<notin> run_key ` set (scan_runs s)"
  shows "appended (TenantID sb) cause (ID sb, scanner, DBVersion ver, ScannerVersion ver, now) s
    (sync_findings sb scanner ver cause rid now prev inc (add_run (ID sb) scanner ver now vulns s))"
  unfolding sync_findings_def
proof (rule sync_invariant)
  show "appended (TenantID sb) cause (ID sb, scanner, DBVersion ver, ScannerVersion ver, now) s
      (add_run (ID sb) scanner ver now vulns s)"
    using store_inv_run [OF assms]
    by (simp add: appended_def queue_rows_def) (simp add: add_run_def run_key_new_run)
qed (simp_all add: appended_emit, simp_all add: appended_def store_inv_put store_inv_del sync_frames scan_runs_frame)
lemma apply_core_appended:
  assumes "store_inv s" and "(ID sb, scanner, DBVersion ver, ScannerVersion ver, now) \<notin> run_key ` set (scan_runs s)"
  shows "appended (TenantID sb) (scan_cause sb scanner ver s) (ID sb, scanner, DBVersion ver, ScannerVersion ver, now) s
    (apply_core sb scanner ver vulns now tx_now s)"
  using sync_appended [OF assms, of "scan_cause sb scanner ver s"]
  by (auto simp: appended_def apply_core_def store_inv_rollup)

lemma no_event_at_run:
  assumes "store_inv s" and "run \<notin> run_key ` set (scan_runs s)"
  shows "no_event_at run fid s"
  using assms by (auto simp: no_event_at_def store_inv_def list_all_iff)

lemma apply_core_log:
  assumes "store_inv s" and "(ID sb, scanner, DBVersion ver, ScannerVersion ver, now) \<notin> run_key ` set (scan_runs s)"
  shows "event_log (apply_core sb scanner ver vulns now tx_now s) = event_log s @ scan_events sb scanner ver vulns now s"
proof -
  let ?s = "add_run (ID sb) scanner ver now vulns s"
  let ?p = "current_findings (ID sb) scanner s" and ?i = "incoming_findings vulns"
  have "event_log (sync_findings sb scanner ver (scan_cause sb scanner ver s) (next_row_id s) now ?p ?i ?s) =
      event_log ?s @ map (case_prod (change_event sb scanner ver (scan_cause sb scanner ver s) (next_row_id s) now))
        (changes changed (map_of ?p) (map_of ?i) (sortedKeys ?i) (sortedKeys ?p))"
    unfolding sync_findings_def using no_event_at_run [OF assms]
    by (intro finding_sync.sync_logs)
       (simp_all add: distinct_sortedKeys incoming_findings_def current_findings_def no_event_at_def)
  then show ?thesis
    by (simp add: apply_core_def event_log_def scan_events_def scan_changes_def Let_def)
qed

text \<open>An event tells what the finding's severity and score became; a resolved finding has none.\<close>

definition event_effect :: "finding_event \<Rightarrow> string \<times> (string \<times> rat) option" where
  "event_effect v = (ev_finding_id v, if ev_type v = EventResolved then None else Some (ev_severity v, ev_score v))"

definition rating :: "string \<Rightarrow> string \<Rightarrow> store \<Rightarrow> string \<Rightarrow> (string \<times> rat) option" where
  "rating sbomID scanner s fid = map_option (\<lambda>f. (Severity (f_vuln f), Score (f_vuln f))) (finding_at sbomID scanner s fid)"

lemma event_effect_change:
  "event_effect (change_event sb scanner ver cause rid now fid c) = (fid, map_option (\<lambda>v. (Severity v, Score v)) (after c))"
  by (cases c) (auto simp: event_effect_def new_event_def)

lemma rating_view: "rating sbomID scanner s fid = map_option (\<lambda>(a, b, c). (a, b)) (finding_view sbomID scanner s fid)"
  by (auto simp: rating_def finding_view_def attributes_def option.map_comp comp_def)

lemma rating_current:
  assumes "distinct_key finding_key (findings s)"
  shows "rating sbomID scanner s =
    (\<lambda>fid. map_option (\<lambda>v. (Severity v, Score v)) (map_of (current_findings sbomID scanner s) fid))"
  using map_of_current_findings [OF assms] by (simp add: rating_def fun_eq_iff option.map_comp comp_def)

lemma apply_core_clean:
  assumes "distinct_key finding_key (findings s)"
    and "finding_view (ID sb) scanner s = (\<lambda>fid. map_option attributes (map_of (incoming_findings vulns) fid))"
  shows "apply_core sb scanner ver vulns now tx_now s = put_rollup (ID sb) tx_now (add_run (ID sb) scanner ver now vulns s)"
proof -
  let ?p = "map_of (current_findings (ID sb) scanner s)" and ?i = "map_of (incoming_findings vulns)"
  have v: "map_option attributes (?p fid) = map_option attributes (?i fid)" for fid
    using assms(2) by (simp add: finding_view_current [OF assms(1)] fun_eq_iff)
  have "\<exists>old. ?p fid = Some old \<and> \<not> changed old (the (?i fid))" if "fid \<in> dom ?i" for fid
    using v [of fid] that by (auto simp: attributes_def changed_def dom_def)
  moreover have "?i fid \<noteq> None" if "fid \<in> dom ?p" for fid
    using v [of fid] that by (metis domIff option.map_disc_iff)
  ultimately have "sync_findings sb scanner ver cause rid now (current_findings (ID sb) scanner s) (incoming_findings vulns) s' = s'"
    for cause rid s' unfolding sync_findings_def by (intro sync_noop) simp_all
  then show ?thesis by (simp add: apply_core_def)
qed

lemma ro_sbom_rollup_of [simp]: "ro_sbom (rollup_of sbomID t s) = sbomID"
  by (simp add: rollup_of_def Let_def)

lemma lookup_put_rollup:
  "lookup_key ro_sbom (rollups (put_rollup sbomID t s)) k =
     (if k = sbomID then Some (rollup_of sbomID t s) else lookup_key ro_sbom (rollups s) k)"
  using lookup_key_upsert_keep [of ro_sbom "rollup_of sbomID t s" "\<lambda>_. rollup_of sbomID t s" "rollups s" k]
  by (simp add: put_rollup_def split: option.splits)

lemma rollup_of_cong:
  "findings s = findings s' \<Longrightarrow> enrichments s = enrichments s' \<Longrightarrow> rollup_of sbomID t s = rollup_of sbomID t s'"
  by (simp add: rollup_of_def kev_cve_def)

lemma sync_rollups:
  "rollups (sync_findings sb scanner ver cause rid now prev inc s) = rollups s"
  unfolding sync_findings_def
  by (rule sync_invariant [where P = "\<lambda>s'. rollups s' = rollups s"])
     (auto simp: put_finding_def del_finding_def emit_change_def emit_event_def insert_event_def enqueue_alert_def Let_def)

lemma count_ids_card: "count_ids p fs = card (f_id ` {f \<in> set fs. p f})"
  by (simp add: count_ids_def count_distinct_card)

lemma classifyCause_iff:
  "classifyCause ver prev = CauseImage \<longleftrightarrow> prev = zero_versions"
  "classifyCause ver prev = CauseTooling \<longleftrightarrow> prev \<noteq> zero_versions \<and>
     (ScannerVersion prev \<noteq> ScannerVersion ver \<or> CanonicalizerVersion prev \<noteq> CanonicalizerVersion ver)"
  by (auto simp: classifyCause_def)

section \<open>A run on a concrete input\<close>

definition demo_sbom :: SBOM where
  "demo_sbom = \<lparr>ID = ''s1'', TenantID = ''t1'', ImageRef = ''reg/app'', Repository = ''reg/app'', SBOMVersion = ''1'',
     Digest = ''sha256:0'', Format = ''spdx'', SpecVersion = ''2.3'', Tool = ''syft'', ToolVersion = ''1'',
     PackageCount = 3, ObjectPath = ''o'', VerificationStatus = ''verified'', Status = ''active'', Labels = [],
     GeneratedAt = 0, SubmittedAt = 0\<rparr>"

definition demo_versions :: Versions where
  "demo_versions = \<lparr>DBVersion = ''db1'', ScannerVersion = ''0.9'', CanonicalizerVersion = ''c1''\<rparr>"

definition demo_vulns :: "vulnerability list" where
  "demo_vulns = [\<lparr>Exposure = ''CVE-1'', Package = ''openssl'', Version = ''3.0'', Severity = ''high'', Score = 7, IsFixed = True\<rparr>]"

lemma demo_run:
  "\<exists>n' s'. ApplyScan demo_sbom ''grype'' demo_versions demo_vulns (calm_env 0) 0 empty_store = (Inr (), n', s') \<and> store_inv s' \<and>
     scan_runs s' = [new_run ''s1'' ''grype'' demo_versions 4 demo_vulns 0]"
proof -
  obtain n' where 1: "ApplyScan demo_sbom ''grype'' demo_versions demo_vulns (calm_env 0) 0 empty_store =
      (Inr (), n', apply_core demo_sbom ''grype'' demo_versions demo_vulns 4 0 empty_store)"
    using ApplyScan_total [of "calm_env 0" demo_sbom "''grype''" demo_versions 0 empty_store] by (auto simp: empty_store_def)
  have "scan_runs (sync_findings sb scanner ver cause rid now prev inc s) = scan_runs s" for sb scanner ver cause rid now prev inc s
    unfolding sync_findings_def
    by (rule sync_invariant [where P = "\<lambda>s'. scan_runs s' = scan_runs s"]) (simp_all add: sync_frames scan_runs_frame)
  then have "scan_runs (apply_core demo_sbom ''grype'' demo_versions demo_vulns 4 0 empty_store) =
      [new_run ''s1'' ''grype'' demo_versions 4 demo_vulns 0]"
    by (simp add: apply_core_def) (simp add: add_run_def empty_store_def demo_sbom_def)
  moreover have "store_inv (apply_core demo_sbom ''grype'' demo_versions demo_vulns 4 0 empty_store)"
    using apply_core_appended [OF store_inv_empty] by (auto simp: empty_store_def appended_def)
  ultimately show ?thesis using 1 by blast
qed

section \<open>Properties of ApplyScan\<close>

text \<open>
  C1. A successful \<open>ApplyScan\<close> leaves, for the scanned SBOM and scanner, exactly the findings of the
  scan, with their severity, score and fix state (of several findings with one identifier, the
  last); the findings of every other SBOM or scanner are untouched.
\<close>

theorem ApplyScan_converges:
  assumes "ApplyScan sb scanner ver vulns e n s = (Inr r, n', s')" and "store_inv s"
  shows "finding_view (ID sb) scanner s' = (\<lambda>fid. map_option attributes (map_of (incoming_findings vulns) fid)) \<and>
    (\<forall>sbomID sc. (sbomID, sc) \<noteq> (ID sb, scanner) \<longrightarrow> finding_at sbomID sc s' = finding_at sbomID sc s)"
  using ApplyScan_success [OF assms(1)] assms(2)
  by (simp add: apply_core_view apply_core_other store_inv_def)

theorem ApplyScan_converges_witness:
  "\<exists>n' s'. ApplyScan demo_sbom ''grype'' demo_versions demo_vulns (calm_env 0) 0 empty_store = (Inr (), n', s') \<and>
     finding_view ''s1'' ''grype'' s' (GetID (hd demo_vulns)) = Some (''high'', 7, True)"
proof -
  obtain n' s' where 1: "ApplyScan demo_sbom ''grype'' demo_versions demo_vulns (calm_env 0) 0 empty_store = (Inr (), n', s')"
    using demo_run by blast
  from ApplyScan_converges [OF 1 store_inv_empty] have "finding_view ''s1'' ''grype'' s' (GetID (hd demo_vulns)) = Some (''high'', 7, True)"
    by (simp add: demo_sbom_def incoming_findings_def map_of_map_from demo_vulns_def attributes_def)
  with 1 show ?thesis by blast
qed

text \<open>
  \<open>ApplyScan\<close> is all or nothing: whatever statement fails, an error means the database is as it
  was before the call, and success means the whole of the run's effect is there.
\<close>

theorem ApplyScan_atomic:
  "case ApplyScan sb scanner ver vulns e n s of
     (Inl err, n', s') \<Rightarrow> s' = s
   | (Inr _, n', s') \<Rightarrow> s' = apply_core sb scanner ver vulns (clock e (n + 4)) (clock e n) s"
  using db_tx_Inl ApplyScan_success unfolding ApplyScan_def
  by (fastforce split: prod.splits sum.splits)

text \<open>
  Success is reached: if no statement fails and the database clock is later than the recorded
  runs of this SBOM and scanner, the scan is applied.
\<close>

theorem ApplyScan_succeeds:
  assumes "no_faults e"
    and "list_all (\<lambda>q. run_sbom q = ID sb \<and> run_scanner q = scanner \<longrightarrow> scanned_at q < clock e (n + 4)) (scan_runs s)"
  shows "\<exists>n'. ApplyScan sb scanner ver vulns e n s =
    (Inr (), n', apply_core sb scanner ver vulns (clock e (n + 4)) (clock e n) s)"
  using assms by (intro ApplyScan_total) (auto simp: list_all_iff run_key_def)

theorem ApplyScan_succeeds_witness:
  "\<exists>n'. ApplyScan demo_sbom ''grype'' demo_versions demo_vulns (calm_env 0) 0 empty_store =
     (Inr (), n', apply_core demo_sbom ''grype'' demo_versions demo_vulns 4 0 empty_store)"
  using ApplyScan_succeeds [of "calm_env 0" demo_sbom "''grype''" 0 empty_store demo_versions demo_vulns]
  by (simp add: empty_store_def)

text \<open>
  C2. The event log grows by exactly the differences between the stored findings and the scan's, in
  the sorted order of their identifiers with the resolved ones last, each with the run's cause,
  versions and time; and the alert queue gets exactly one row per new event, unless the cause is a
  change of tooling, when it gets none.
\<close>

theorem ApplyScan_events:
  assumes "ApplyScan sb scanner ver vulns e n s = (Inr r, n', s')" and "store_inv s"
  shows "\<exists>new. events s' = events s @ new \<and>
    map (\<lambda>v. v\<lparr>ev_id := 0\<rparr>) new = scan_events sb scanner ver vulns (clock e (n + 4)) s \<and>
    alert_queue s' = alert_queue s @ (if scan_cause sb scanner ver s = CauseTooling then [] else queue_rows (TenantID sb) new)"
proof -
  note run = ApplyScan_success [OF assms(1)]
  let ?s' = "apply_core sb scanner ver vulns (clock e (n + 4)) (clock e n) s"
  obtain new where new: "events ?s' = events s @ new"
      "alert_queue ?s' = alert_queue s @ (if alert_cause (scan_cause sb scanner ver s) then queue_rows (TenantID sb) new else [])"
    using apply_core_appended [OF assms(2)] run unfolding appended_def by blast
  moreover have "alert_cause (scan_cause sb scanner ver s) = (scan_cause sb scanner ver s \<noteq> CauseTooling)"
    by (simp add: alert_cause_def scan_cause_def classifyCause_def)
  ultimately show ?thesis
    using apply_core_log [OF assms(2), of sb scanner ver "clock e (n + 4)" vulns "clock e n"] run by (auto simp: event_log_def)
qed

lemma ev_type_log: "map ev_type (map (\<lambda>v. v\<lparr>ev_id := 0\<rparr>) vs) = map ev_type vs"
  by simp

theorem ApplyScan_events_witness:
  "\<exists>n' s'. ApplyScan demo_sbom ''grype'' demo_versions demo_vulns (calm_env 0) 0 empty_store = (Inr (), n', s') \<and>
     map ev_type (events s') = [EventAdded] \<and> length (alert_queue s') = 1"
proof -
  obtain n' s' where 1: "ApplyScan demo_sbom ''grype'' demo_versions demo_vulns (calm_env 0) 0 empty_store = (Inr (), n', s')"
    using demo_run by blast
  obtain new where new: "events s' = events empty_store @ new"
      "map (\<lambda>v. v\<lparr>ev_id := 0\<rparr>) new = scan_events demo_sbom ''grype'' demo_versions demo_vulns 4 empty_store"
      "alert_queue s' = alert_queue empty_store @
         (if scan_cause demo_sbom ''grype'' demo_versions empty_store = CauseTooling then [] else queue_rows ''t1'' new)"
    using ApplyScan_events [OF 1 store_inv_empty] by (auto simp: demo_sbom_def)
  have "map ev_type (scan_events demo_sbom ''grype'' demo_versions demo_vulns 4 empty_store) = [EventAdded]"
    by (simp add: scan_events_def scan_changes_def changes_def changes_in_def demo_vulns_def incoming_findings_def
        current_findings_def map_from_def map_put_def sortedKeys_def empty_store_def Let_def new_event_def)
  with new(2) have "map ev_type new = [EventAdded]"
    by (metis ev_type_log)
  moreover have "scan_cause demo_sbom ''grype'' demo_versions empty_store \<noteq> CauseTooling"
    by (simp add: scan_cause_def prev_versions_def empty_store_def classifyCause_def)
  moreover have "length new = 1" using calculation(1) by (metis length_map One_nat_def length_Cons list.size(3))
  ultimately show ?thesis using 1 new by (auto simp: empty_store_def queue_rows_def)
qed

text \<open>
  C3. The log is enough to rebuild the current state: replaying the new events on the severities and
  scores stored before the scan gives those stored after it.
\<close>

theorem ApplyScan_replay:
  assumes "ApplyScan sb scanner ver vulns e n s = (Inr r, n', s')" and "store_inv s"
  shows "replay (map event_effect (drop (length (events s)) (events s'))) (rating (ID sb) scanner s) =
    rating (ID sb) scanner s'"
proof -
  note run = ApplyScan_success [OF assms(1)]
  let ?v = "\<lambda>v. (Severity v, Score v)"
  have d: "distinct_key finding_key (findings s)" using assms(2) by (simp add: store_inv_def)
  have "map event_effect (drop (length (events s)) (events s')) = map event_effect (drop (length (events s)) (event_log s'))"
    by (simp add: event_log_def drop_map comp_def event_effect_def)
  also have "\<dots> = map event_effect (scan_events sb scanner ver vulns (clock e (n + 4)) s)"
    using apply_core_log [OF assms(2), of sb scanner ver "clock e (n + 4)" vulns "clock e n"] run by (simp add: event_log_def)
  also have "\<dots> = map (\<lambda>(fid, c). (fid, map_option ?v (after c))) (scan_changes (ID sb) scanner vulns s)"
    by (auto simp: scan_events_def event_effect_change split: prod.splits)
  finally have "replay (map event_effect (drop (length (events s)) (events s'))) (rating (ID sb) scanner s) =
      (\<lambda>fid. map_option ?v (map_of (incoming_findings vulns) fid))"
    unfolding rating_current [OF d] scan_changes_def Let_def
    by (simp only:, intro replay_changes)
       (simp_all add: distinct_sortedKeys incoming_findings_def changed_def)
  also have "\<dots> = rating (ID sb) scanner s'"
    using run by (auto simp: rating_view apply_core_view [OF d] fun_eq_iff attributes_def option.map_comp comp_def)
  finally show ?thesis .
qed

theorem ApplyScan_replay_witness:
  "\<exists>n' s'. ApplyScan demo_sbom ''grype'' demo_versions demo_vulns (calm_env 0) 0 empty_store = (Inr (), n', s') \<and>
     replay (map event_effect (events s')) (\<lambda>_. None) = rating ''s1'' ''grype'' s'"
proof -
  obtain n' s' where 1: "ApplyScan demo_sbom ''grype'' demo_versions demo_vulns (calm_env 0) 0 empty_store = (Inr (), n', s')"
    using demo_run by blast
  have "rating ''s1'' ''grype'' empty_store = (\<lambda>_. None)"
    by (simp add: rating_def finding_at_def empty_store_def fun_eq_iff)
  with ApplyScan_replay [OF 1 store_inv_empty] 1 show ?thesis by (auto simp: empty_store_def demo_sbom_def)
qed

text \<open>
  Applying the same findings again, under whatever versions, changes no finding, appends no event
  and queues no alert.
\<close>

theorem ApplyScan_idempotent:
  assumes "ApplyScan sb scanner ver vulns e n s = (Inr r, n', s1)" and "store_inv s"
    and "ApplyScan sb scanner ver2 vulns e2 n2 s1 = (Inr r2, n2', s2)"
  shows "findings s2 = findings s1 \<and> events s2 = events s1 \<and> alert_queue s2 = alert_queue s1"
proof -
  have "store_inv s1" using assms(2) ApplyScan_success [OF assms(1)] apply_core_appended by (fastforce simp: appended_def)
  then have "distinct_key finding_key (findings s1)" "distinct_key finding_key (findings s)"
    using assms(2) by (simp_all add: store_inv_def)
  then show ?thesis
    using ApplyScan_success [OF assms(1)] ApplyScan_success [OF assms(3)]
      apply_core_clean [of s1 sb scanner vulns] apply_core_view [of s sb scanner] by simp
qed

theorem ApplyScan_idempotent_witness:
  "\<exists>n1 s1 n2 s2. ApplyScan demo_sbom ''grype'' demo_versions demo_vulns (calm_env 0) 0 empty_store = (Inr (), n1, s1) \<and>
     ApplyScan demo_sbom ''grype'' demo_versions demo_vulns (calm_env 100) 0 s1 = (Inr (), n2, s2) \<and>
     findings s2 = findings s1 \<and> events s2 = events s1 \<and> alert_queue s2 = alert_queue s1"
proof -
  obtain n1 s1 where 1: "ApplyScan demo_sbom ''grype'' demo_versions demo_vulns (calm_env 0) 0 empty_store = (Inr (), n1, s1)"
      "scan_runs s1 = [new_run ''s1'' ''grype'' demo_versions 4 demo_vulns 0]"
    using demo_run by blast
  obtain n2 s2 where 2: "ApplyScan demo_sbom ''grype'' demo_versions demo_vulns (calm_env 100) 0 s1 = (Inr (), n2, s2)"
    using ApplyScan_total [of "calm_env 100" demo_sbom "''grype''" demo_versions 0 s1 demo_vulns]
    by (auto simp: 1(2) run_key_new_run)
  from ApplyScan_idempotent [OF 1(1) store_inv_empty 2] 1(1) 2 show ?thesis by blast
qed

text \<open>
  Whether it succeeds or fails, \<open>ApplyScan\<close> keeps the store's invariant: the unique keys of the
  tables, the freshness of the event identifiers and that every event belongs to a recorded run.
\<close>

theorem ApplyScan_store_inv:
  assumes "ApplyScan sb scanner ver vulns e n s = (r, n', s')" and "store_inv s"
  shows "store_inv s'"
proof (cases r)
  case (Inl err)
  with assms show ?thesis by (auto simp: ApplyScan_def dest: db_tx_Inl)
next
  case (Inr x)
  with assms show ?thesis using ApplyScan_success apply_core_appended by (fastforce simp: appended_def)
qed

theorem ApplyScan_store_inv_witness:
  "store_inv (snd (snd (ApplyScan demo_sbom ''grype'' demo_versions demo_vulns (calm_env 0) 0 empty_store)))"
  using ApplyScan_store_inv [OF _ store_inv_empty] by (metis prod.collapse)

text \<open>
  A successful \<open>ApplyScan\<close> leaves the SBOM's rollup row equal to the counts over its findings of
  all scanners, the total being the number of different finding identifiers, and touches the
  rollup of no other SBOM.
\<close>

theorem ApplyScan_rollup:
  assumes "ApplyScan sb scanner ver vulns e n s = (Inr r, n', s')"
  shows "lookup_key ro_sbom (rollups s') (ID sb) = Some (rollup_of (ID sb) (clock e n) s') \<and>
    ro_total (rollup_of (ID sb) (clock e n) s') = card (f_id ` {f \<in> set (findings s'). f_sbom f = ID sb}) \<and>
    (\<forall>k. k \<noteq> ID sb \<longrightarrow> lookup_key ro_sbom (rollups s') k = lookup_key ro_sbom (rollups s) k)"
proof -
  obtain s0 where s0: "s' = put_rollup (ID sb) (clock e n) s0" and r: "rollups s0 = rollups s"
    using ApplyScan_success [OF assms]
    by (metis apply_core_def sync_rollups add_run_def store.ext_inject store.surjective store.update_convs(3) store.update_convs(17))
  have "rollup_of (ID sb) (clock e n) s0 = rollup_of (ID sb) (clock e n) s'"
    by (rule rollup_of_cong) (simp_all add: s0 put_rollup_def)
  moreover have "ro_total (rollup_of (ID sb) (clock e n) s') = card (f_id ` {f \<in> set (findings s'). f_sbom f = ID sb})"
    by (simp add: rollup_of_def Let_def count_ids_card)
  ultimately show ?thesis by (simp add: s0 lookup_put_rollup r)
qed

theorem ApplyScan_rollup_witness:
  "\<exists>n' s'. ApplyScan demo_sbom ''grype'' demo_versions demo_vulns (calm_env 0) 0 empty_store = (Inr (), n', s') \<and>
     lookup_key ro_sbom (rollups s') ''s1'' = Some (rollup_of ''s1'' 0 s')"
proof -
  obtain n' s' where 1: "ApplyScan demo_sbom ''grype'' demo_versions demo_vulns (calm_env 0) 0 empty_store = (Inr (), n', s')"
    using demo_run by blast
  with ApplyScan_rollup [OF 1] show ?thesis by (auto simp: demo_sbom_def)
qed

end
