(* ===== verification/Alert_Store.thy ===== *)
theory Alert_Store
  imports Apply_Scan "HOL-Library.Product_Lexorder"
begin

text \<open>
  The alert tables: \<open>pkg/data/postgres/alert.go\<close>. A policy per tenant, the queue of finding events
  waiting for evaluation, the alerts, the failures and the consumer's high-water cursor. The
  reading and marking of alerts by account members belongs to the account component and is not
  modelled here.
\<close>

abbreviation KindNewKEV :: string where "KindNewKEV \<equiv> ''new_kev''"
abbreviation KindNewFinding :: string where "KindNewFinding \<equiv> ''new_finding''"
abbreviation KindFixAvailable :: string where "KindFixAvailable \<equiv> ''fix_available''"
abbreviation KindPostureRegression :: string where "KindPostureRegression \<equiv> ''posture_regression''"

abbreviation maxPageLimit :: int where "maxPageLimit \<equiv> 1000"
abbreviation defaultAlertBatchSize :: int where "defaultAlertBatchSize \<equiv> 100"

section \<open>Policies\<close>

definition policy_of :: "string \<Rightarrow> store \<Rightarrow> AlertPolicy option" where
  "policy_of tenantID s = lookup_key ap_tenant (policies s) tenantID"

text \<open>The column defaults; the identifier is drawn from the store's counter.\<close>

definition default_policy :: "string \<Rightarrow> time \<Rightarrow> nat \<Rightarrow> AlertPolicy" where
  "default_policy tenantID now rid =
     \<lparr>ap_id = nat_text rid, ap_tenant = tenantID, ap_enabled = False, ap_min_severity = SeverityMedium, ap_kev = True,
      ap_fix_available = True, ap_include_image = True, ap_include_db = True, ap_labels = [], ap_created_at = now,
      ap_updated_at = now\<rparr>"

definition EnsureAlertPolicy :: "string \<Rightarrow> (store, AlertPolicy) db" where
  "EnsureAlertPolicy tenantID =
     db_stmt (Wrapf ''ensure alert policy: '') (\<lambda>now s.
       case policy_of tenantID s of
         Some p \<Rightarrow> (Inr p, s)
       | None \<Rightarrow>
           let p = default_policy tenantID now (next_row_id s) in
           (Inr p, s\<lparr>policies := policies s @ [p], next_row_id := Suc (next_row_id s)\<rparr>))"

text \<open>The columns an update compares and writes.\<close>

definition policy_settings :: "AlertPolicy \<Rightarrow> bool \<times> string \<times> bool \<times> bool \<times> bool \<times> bool \<times> string list" where
  "policy_settings p = (ap_enabled p, ap_min_severity p, ap_kev p, ap_fix_available p, ap_include_image p, ap_include_db p, ap_labels p)"

definition set_policy :: "AlertPolicy \<Rightarrow> time \<Rightarrow> AlertPolicy \<Rightarrow> AlertPolicy" where
  "set_policy policy now p =
     p\<lparr>ap_enabled := ap_enabled policy, ap_min_severity := ap_min_severity policy, ap_kev := ap_kev policy,
       ap_fix_available := ap_fix_available policy, ap_include_image := ap_include_image policy,
       ap_include_db := ap_include_db policy, ap_labels := ap_labels policy, ap_updated_at := now\<rparr>"

definition policy_differs :: "string \<Rightarrow> AlertPolicy \<Rightarrow> AlertPolicy \<Rightarrow> bool" where
  "policy_differs tenantID policy p = (ap_tenant p = tenantID \<and> policy_settings p \<noteq> policy_settings policy)"

definition updateAlertPolicy :: "string \<Rightarrow> AlertPolicy \<Rightarrow> (store, bool) db" where
  "updateAlertPolicy tenantID policy =
     (if \<not> ValidMinSeverity (ap_min_severity policy)
      then db_fail (Errorf (''invalid alert minimum severity '' @ quoted (ap_min_severity policy)))
      else
        db_bind (db_stmt (Wrapf ''update alert policy: '') (\<lambda>now s.
          (Inr (length (filter (policy_differs tenantID policy) (policies s))),
           s\<lparr>policies := map (\<lambda>p. if policy_differs tenantID policy p then set_policy policy now p else p) (policies s)\<rparr>))) (\<lambda>n.
        if n = 0 then
          db_bind (db_stmt (Wrapf ''check alert policy target: '') (\<lambda>now s. (Inr (policy_of tenantID s \<noteq> None), s))) (\<lambda>ex.
          if \<not> ex then db_fail ErrNotFound else db_return False)
        else db_return True))"

definition UpdateAlertPolicy :: "string \<Rightarrow> AlertPolicy \<Rightarrow> (store, unit) db" where
  "UpdateAlertPolicy tenantID policy = db_bind (updateAlertPolicy tenantID policy) (\<lambda>_. db_return ())"

section \<open>Reading the queue\<close>

fun latest_event :: "finding_event list \<Rightarrow> finding_event option" where
  "latest_event [] = None"
| "latest_event (v # vs) =
     (case latest_event vs of
        None \<Rightarrow> Some v
      | Some w \<Rightarrow> if (ev_occurred_at w, ev_id w) \<le> (ev_occurred_at v, ev_id v) then Some v else Some w)"

definition tail_position :: "store \<Rightarrow> AlertPosition" where
  "tail_position s =
     (case latest_event (events s) of
        None \<Rightarrow> \<lparr>pos_occurred_at = 0, pos_event_id = 0\<rparr>
      | Some v \<Rightarrow> \<lparr>pos_occurred_at = ev_occurred_at v, pos_event_id = ev_id v\<rparr>)"

definition event_kev :: "finding_event \<Rightarrow> store \<Rightarrow> bool" where
  "event_kev v s = (case lookup_key en_cve (enrichments s) (ev_exposure v) of None \<Rightarrow> False | Some en \<Rightarrow> en_kev en)"

definition alert_event :: "finding_event \<Rightarrow> sbom_row \<Rightarrow> store \<Rightarrow> AlertEvent" where
  "alert_event v sb s =
     \<lparr>ae_id = ev_id v, ae_occurred_at = ev_occurred_at v, ae_tenant = ev_tenant v, ae_sbom = ev_sbom v,
      ae_repository = Repository sb, ae_digest = Digest sb, ae_finding_id = ev_finding_id v, ae_type = ev_type v,
      ae_exposure = ev_exposure v, ae_package = ev_package v, ae_version = ev_version v, ae_severity = ev_severity v,
      ae_cause = ev_cause v, ae_score = ev_score v, ae_kev = event_kev v s, ae_labels = Labels sb\<rparr>"

text \<open>The policy of the event's tenant, or the values the query puts in its place.\<close>

definition candidate_policy :: "string \<Rightarrow> store \<Rightarrow> AlertPolicy" where
  "candidate_policy tenantID s =
     (case policy_of tenantID s of
        Some p \<Rightarrow> p\<lparr>ap_tenant := tenantID\<rparr>
      | None \<Rightarrow> \<lparr>ap_id = [], ap_tenant = tenantID, ap_enabled = False, ap_min_severity = SeverityMedium, ap_kev = True,
          ap_fix_available = True, ap_include_image = True, ap_include_db = True, ap_labels = [],
          ap_created_at = zero_time, ap_updated_at = zero_time\<rparr>)"

definition queue_event :: "string \<Rightarrow> finding_event \<Rightarrow> store \<Rightarrow> bool" where
  "queue_event consumer v s =
     list_ex (\<lambda>q. q_consumer q = consumer \<and> q_processed_at q = None \<and>
       q_occurred_at q = ev_occurred_at v \<and> q_event_id q = ev_id v) (alert_queue s)"

text \<open>The joins: the queue's key is unique, so an event joins at most one queue row; the SBOM's is
  too.\<close>

definition pending_candidates :: "string \<Rightarrow> store \<Rightarrow> AlertCandidate list" where
  "pending_candidates consumer s =
     sort_key (\<lambda>c. (ae_occurred_at (snd c), ae_id (snd c)))
       (List.map_filter (\<lambda>v.
          if queue_event consumer v s \<and> (ev_cause v = CauseImage \<or> ev_cause v = CauseDB)
          then map_option (\<lambda>sb. (candidate_policy (ev_tenant v) s, alert_event v sb s)) (lookup_key ID (sboms s) (ev_sbom v))
          else None) (events s))"

definition candidate_position :: "AlertCandidate \<Rightarrow> AlertPosition" where
  "candidate_position c = \<lparr>pos_occurred_at = ae_occurred_at (snd c), pos_event_id = ae_id (snd c)\<rparr>"

definition NextAlertEvents :: "string \<Rightarrow> int \<Rightarrow> (store, AlertCandidate list \<times> AlertPosition \<times> bool) db" where
  "NextAlertEvents consumer limit =
     (let limit' = (if limit \<le> 0 \<or> limit > maxPageLimit then defaultAlertBatchSize else limit) in
      db_bind (db_stmt (Wrapf ''initialize alert cursor: '') (\<lambda>now s.
        if lookup_key cu_consumer (cursors s) consumer \<noteq> None then (Inr (0 :: nat), s)
        else (Inr 1, s\<lparr>cursors := cursors s @ [\<lparr>cu_consumer = consumer, cu_position = tail_position s\<rparr>]\<rparr>))) (\<lambda>inserted.
      db_bind (db_stmt (Wrapf ''read alert cursor: '') (\<lambda>now s.
        case lookup_key cu_consumer (cursors s) consumer of
          None \<Rightarrow> (Inl (Wrapf ''read alert cursor: '' (Driver ''sql: no rows in result set'')), s)
        | Some c \<Rightarrow> (Inr (cu_position c), s))) (\<lambda>start.
      db_bind (db_stmt (Wrapf ''list alert events: '') (\<lambda>now s. (Inr (take (nat limit') (pending_candidates consumer s)), s))) (\<lambda>candidates.
      db_return (candidates, if candidates = [] then start else candidate_position (last candidates),
        inserted = 1 \<and> candidates = [])))))"

section \<open>Committing a batch\<close>

definition alert_key :: "alert_row \<Rightarrow> string \<times> string \<times> int \<times> time \<times> string" where
  "alert_key a = (al_tenant a, al_policy_id a, al_event_id a, al_occurred_at a, al_kind a)"

definition regression_key :: "alert_row \<Rightarrow> string \<times> string \<times> string" where
  "regression_key a = (al_tenant a, al_policy_id a, al_sbom a)"

definition alert_of :: "AlertDraft \<Rightarrow> nat \<Rightarrow> alert_row" where
  "alert_of d rid =
     (let e = ad_event d in
      \<lparr>al_id = rid, al_tenant = ae_tenant e, al_policy_id = ad_policy_id d, al_event_id = ae_id e,
       al_occurred_at = ae_occurred_at e, al_kind = ad_kind d, al_sbom = ae_sbom e, al_repository = ae_repository e,
       al_digest = ae_digest e, al_finding_id = ae_finding_id e, al_exposure = ae_exposure e, al_package = ae_package e,
       al_version = ae_version e, al_severity = ae_severity e, al_score = ae_score e, al_cause = ae_cause e\<rparr>)"

text \<open>The two unique indexes, the second for posture regressions only.\<close>

definition alert_conflict :: "alert_row \<Rightarrow> store \<Rightarrow> bool" where
  "alert_conflict a s =
     list_ex (\<lambda>b. alert_key b = alert_key a \<or>
       (al_kind a = KindPostureRegression \<and> al_kind b = KindPostureRegression \<and> regression_key b = regression_key a)) (alerts s)"

definition draft_current :: "AlertDraft \<Rightarrow> store \<Rightarrow> bool" where
  "draft_current d s =
     list_ex (\<lambda>p. ap_id p = ad_policy_id d \<and> ap_tenant p = ae_tenant (ad_event d) \<and> ap_enabled p \<and>
       (IsZero (ad_policy_updated_at d) \<or> ap_updated_at p = ad_policy_updated_at d)) (policies s)"

definition insert_alert :: "AlertDraft \<Rightarrow> store \<Rightarrow> store" where
  "insert_alert d s =
     (if draft_current d s \<and> \<not> alert_conflict (alert_of d (next_row_id s)) s
      then s\<lparr>alerts := alerts s @ [alert_of d (next_row_id s)], next_row_id := Suc (next_row_id s)\<rparr>
      else s)"

definition failure_key :: "alert_failure_row \<Rightarrow> string \<times> AlertPosition" where
  "failure_key f = (af_consumer f, af_position f)"

definition insert_failure :: "string \<Rightarrow> AlertFailure \<Rightarrow> store \<Rightarrow> store" where
  "insert_failure consumer f s =
     s\<lparr>alert_failures := upsert failure_key (\<lambda>x. x)
        \<lparr>af_consumer = consumer, af_position = fail_position f, af_error = fail_error f\<rparr> (alert_failures s)\<rparr>"

definition mark_processed :: "string \<Rightarrow> time \<Rightarrow> AlertPosition \<Rightarrow> store \<Rightarrow> store" where
  "mark_processed consumer now pos s =
     s\<lparr>alert_queue := map (\<lambda>q.
        if q_consumer q = consumer \<and> q_occurred_at q = pos_occurred_at pos \<and> q_event_id q = pos_event_id pos
        then q\<lparr>q_processed_at := Some (case q_processed_at q of None \<Rightarrow> now | Some t \<Rightarrow> t)\<rparr> else q) (alert_queue s)\<rparr>"

definition advance_cursor :: "string \<Rightarrow> AlertPosition \<Rightarrow> store \<Rightarrow> store" where
  "advance_cursor consumer pos s =
     s\<lparr>cursors := map (\<lambda>c.
        if cu_consumer c = consumer \<and>
           (pos_occurred_at (cu_position c), pos_event_id (cu_position c)) < (pos_occurred_at pos, pos_event_id pos)
        then c\<lparr>cu_position := pos\<rparr> else c) (cursors s)\<rparr>"

definition CommitAlertBatch ::
    "string \<Rightarrow> AlertDraft list \<Rightarrow> AlertFailure list \<Rightarrow> AlertPosition list \<Rightarrow> AlertPosition \<Rightarrow> (store, unit) db" where
  "CommitAlertBatch consumer drafts fails processed endpos =
     db_tx ''begin alert batch: '' (\<lambda>tx_now.
       db_bind (db_foreach drafts (\<lambda>d. db_stmt (Wrapf ''insert alert: '') (\<lambda>t s. (Inr (), insert_alert d s)))) (\<lambda>_.
       db_bind (db_foreach fails (\<lambda>f. db_stmt (Wrapf ''insert alert failure: '') (\<lambda>t s. (Inr (), insert_failure consumer f s)))) (\<lambda>_.
       db_bind (db_foreach processed (\<lambda>p. db_stmt (Wrapf ''mark alert event processed: '') (\<lambda>t s. (Inr (), mark_processed consumer tx_now p s)))) (\<lambda>_.
       db_stmt (Wrapf ''advance alert cursor: '') (\<lambda>t s. (Inr (), advance_cursor consumer endpos s))))))
     ''commit alert batch: ''"

end
