(* ===== verification/Alert.thy ===== *)
theory Alert
  imports Alert_Store
begin

text \<open>
  Browser alerts: \<open>pkg/alert\<close>. \<open>Match\<close> decides whether an event raises an alert under a policy;
  \<open>Evaluate\<close> drains the queue in batches, each committed with its alerts and failures in one
  transaction.

  The comparison with the previous SBOM (\<open>ComparePreviousSBOM\<close>) is the argument \<open>compare\<close>: its
  verdict, if there is a previous SBOM.
\<close>

section \<open>Matching\<close>

definition causeEnabled :: "AlertPolicy \<Rightarrow> string \<Rightarrow> bool" where
  "causeEnabled policy cause =
     (if cause = CauseImage then ap_include_image policy
      else if cause = CauseDB then ap_include_db policy
      else False)"

definition labelsMatch :: "string list \<Rightarrow> string list \<Rightarrow> bool" where
  "labelsMatch required actual = (required = [] \<or> list_ex (\<lambda>want. list_ex (\<lambda>got. want = got) actual) required)"

definition validateEvent :: "AlertEvent \<Rightarrow> go_error option" where
  "validateEvent event =
     (if ae_id event \<le> 0 \<or> IsZero (ae_occurred_at event) \<or> ae_tenant event = [] \<or> ae_sbom event = [] \<or>
         ae_finding_id event = [] \<or> ae_exposure event = []
      then Some (Errorf ''invalid alert event identity'')
      else if \<not> (ae_cause event = CauseImage \<or> ae_cause event = CauseDB \<or> ae_cause event = CauseTooling)
      then Some (Errorf (''invalid alert event cause '' @ quoted (ae_cause event)))
      else if \<not> (ae_type event = EventAdded \<or> ae_type event = EventResolved \<or> ae_type event = EventRerated \<or> ae_type event = EventFixed)
      then Some (Errorf (''invalid alert event type '' @ quoted (ae_type event)))
      else None)"

definition match_kind :: "AlertPolicy \<Rightarrow> AlertEvent \<Rightarrow> string" where
  "match_kind policy event =
     (if ae_type event = EventFixed then (if ap_fix_available policy then KindFixAvailable else [])
      else if ae_type event = EventAdded then
        (if ae_kev event \<and> ap_kev policy then KindNewKEV
         else if MeetsThreshold (ae_severity event) (ap_min_severity policy) then KindNewFinding
         else [])
      else [])"

definition Match :: "AlertPolicy \<Rightarrow> AlertEvent \<Rightarrow> AlertDraft list result" where
  "Match policy event =
     (case validateEvent event of
        Some err \<Rightarrow> Inl err
      | None \<Rightarrow>
          if \<not> IsZero (ap_updated_at policy) \<and> ae_occurred_at event < ap_updated_at policy then Inr []
          else if \<not> ap_enabled policy \<or> \<not> causeEnabled policy (ae_cause event) \<or> \<not> labelsMatch (ap_labels policy) (ae_labels event)
          then Inr []
          else
            (let kind = match_kind policy event in
             if kind = [] then Inr []
             else Inr [\<lparr>ad_policy_id = ap_id policy, ad_policy_updated_at = ap_updated_at policy, ad_kind = kind, ad_event = event\<rparr>]))"

section \<open>Evaluation\<close>

record Result =
  Examined :: nat
  Matched :: nat
  Failures :: nat

record batch =
  b_drafts :: "AlertDraft list"
  b_failures :: "AlertFailure list"
  b_processed :: "AlertPosition list"
  b_result :: Result
  b_seen :: "string list"

definition empty_batch :: "Result \<Rightarrow> string list \<Rightarrow> batch" where
  "empty_batch res seen = \<lparr>b_drafts = [], b_failures = [], b_processed = [], b_result = res, b_seen = seen\<rparr>"

abbreviation PostureRegresses :: string where "PostureRegresses \<equiv> ''regresses''"

type_synonym compare_db = "string \<Rightarrow> string \<Rightarrow> (store, string option) db"

definition add_failure :: "AlertPosition \<Rightarrow> string \<Rightarrow> batch \<Rightarrow> batch" where
  "add_failure pos msg b =
     b\<lparr>b_failures := b_failures b @ [\<lparr>fail_position = pos, fail_error = msg\<rparr>],
       b_result := (b_result b)\<lparr>Failures := Suc (Failures (b_result b))\<rparr>\<rparr>"

definition add_drafts :: "AlertDraft list \<Rightarrow> batch \<Rightarrow> batch" where
  "add_drafts ds b =
     b\<lparr>b_drafts := b_drafts b @ ds, b_result := (b_result b)\<lparr>Matched := Matched (b_result b) + length ds\<rparr>\<rparr>"

definition start_candidate :: "AlertCandidate \<Rightarrow> batch \<Rightarrow> batch" where
  "start_candidate c b =
     b\<lparr>b_processed := b_processed b @ [candidate_position c],
       b_result := (b_result b)\<lparr>Examined := Suc (Examined (b_result b))\<rparr>\<rparr>"

text \<open>One iteration of the loop over the candidates of a batch. The store of production detects
  regressions; \<open>compare\<close> is \<open>None\<close> for a store that does not.\<close>

definition examine :: "compare_db option \<Rightarrow> AlertCandidate \<Rightarrow> batch \<Rightarrow> (store, batch) db" where
  "examine compare c b0 =
     (let policy = fst c; event = snd c; b = start_candidate c b0 in
      case Match policy event of
        Inl err \<Rightarrow> db_return (add_failure (candidate_position c) (Error err) b)
      | Inr matched \<Rightarrow>
          let b1 = add_drafts matched b in
          (case compare of
             None \<Rightarrow> db_return b1
           | Some cmp \<Rightarrow>
               if matched = [] \<or> ae_type event \<noteq> EventAdded \<or> ae_cause event \<noteq> CauseImage \<or> ae_sbom event \<in> set (b_seen b1)
               then db_return b1
               else
                 let b2 = b1\<lparr>b_seen := ae_sbom event # b_seen b1\<rparr> in
                 db_bind (db_try (cmp (ae_tenant event) (ae_sbom event))) (\<lambda>r.
                 case r of
                   Inl err \<Rightarrow>
                     db_return (add_failure (candidate_position c)
                       (''compare previous SBOM '' @ quoted (ae_sbom event) @ '': '' @ Error err) b2)
                 | Inr verdict \<Rightarrow>
                     db_return (if verdict = Some PostureRegresses
                       then add_drafts [\<lparr>ad_policy_id = ap_id policy, ad_policy_updated_at = ap_updated_at policy,
                              ad_kind = KindPostureRegression, ad_event = event\<rparr>] b2
                       else b2))))"

fun examine_all :: "compare_db option \<Rightarrow> AlertCandidate list \<Rightarrow> batch \<Rightarrow> (store, batch) db" where
  "examine_all compare [] b = db_return b"
| "examine_all compare (c # cs) b = db_bind (examine compare c b) (examine_all compare cs)"

text \<open>The loop over the batches, with fuel: \<open>None\<close> is a loop that ran out of it. The result comes with
  the error, if any.\<close>

fun evaluate_loop ::
    "nat \<Rightarrow> compare_db option \<Rightarrow> (nat \<Rightarrow> go_error option) \<Rightarrow> string \<Rightarrow> int \<Rightarrow> Result \<Rightarrow> string list \<Rightarrow>
     (store, (Result \<times> go_error option) option) db" where
  "evaluate_loop 0 compare done_at consumer batchSize res seen = db_return None"
| "evaluate_loop (Suc fuel) compare done_at consumer batchSize res seen =
     db_bind (db_try (db_ctx done_at)) (\<lambda>c.
     case c of
       Inl err \<Rightarrow> db_return (Some (res, Some err))
     | Inr _ \<Rightarrow>
         db_bind (db_try (NextAlertEvents consumer batchSize)) (\<lambda>r.
         case r of
           Inl err \<Rightarrow> db_return (Some (res, Some (Wrapf ''read alert events: '' err)))
         | Inr (candidates, endpos, initialized) \<Rightarrow>
             if initialized \<or> candidates = [] then db_return (Some (res, None))
             else
               db_bind (examine_all compare candidates (empty_batch res seen)) (\<lambda>b.
               db_bind (db_try (CommitAlertBatch consumer (b_drafts b) (b_failures b) (b_processed b) endpos)) (\<lambda>r.
               case r of
                 Inl err \<Rightarrow> db_return (Some (b_result b, Some (Wrapf ''commit alert events: '' err)))
               | Inr _ \<Rightarrow>
                   if int (length candidates) < batchSize then db_return (Some (b_result b, None))
                   else evaluate_loop fuel compare done_at consumer batchSize (b_result b) (b_seen b)))))"

abbreviation DefaultBatchSize :: int where "DefaultBatchSize \<equiv> 100"

definition evaluate_fuel :: "store \<Rightarrow> nat" where
  "evaluate_fuel s = Suc (length (events s))"

definition EvaluateAlerts ::
    "compare_db option \<Rightarrow> (nat \<Rightarrow> go_error option) \<Rightarrow> string \<Rightarrow> int \<Rightarrow> (store, (Result \<times> go_error option) option) db" where
  "EvaluateAlerts compare done_at consumer0 batchSize0 e n s =
     (let consumer = (if consumer0 = [] then DefaultConsumer else consumer0);
          batchSize = (if batchSize0 \<le> 0 then DefaultBatchSize else batchSize0)
      in evaluate_loop (evaluate_fuel s) compare done_at consumer batchSize \<lparr>Examined = 0, Matched = 0, Failures = 0\<rparr> [] e n s)"

section \<open>Matching\<close>

text \<open>What \<open>Match\<close> decides: when an event raises an alert, and of which kind.\<close>

definition raises :: "AlertPolicy \<Rightarrow> AlertEvent \<Rightarrow> bool" where
  "raises p ev \<longleftrightarrow>
     ap_enabled p \<and> causeEnabled p (ae_cause ev) \<and> labelsMatch (ap_labels p) (ae_labels ev) \<and>
     (IsZero (ap_updated_at p) \<or> ap_updated_at p \<le> ae_occurred_at ev) \<and> match_kind p ev \<noteq> []"

definition draft_of :: "AlertPolicy \<Rightarrow> AlertEvent \<Rightarrow> AlertDraft" where
  "draft_of p ev = \<lparr>ad_policy_id = ap_id p, ad_policy_updated_at = ap_updated_at p, ad_kind = match_kind p ev, ad_event = ev\<rparr>"

lemma Match_Inr: "validateEvent ev = None \<Longrightarrow> Match p ev = Inr (if raises p ev then [draft_of p ev] else [])"
  by (auto simp: Match_def raises_def draft_of_def Let_def not_less)

lemma Match_Inl: "validateEvent ev = Some err \<Longrightarrow> Match p ev = Inl err"
  by (simp add: Match_def)

section \<open>One batch\<close>

text \<open>The tables evaluation only reads.\<close>

definition same_inputs :: "store \<Rightarrow> store \<Rightarrow> bool" where
  "same_inputs s s' \<longleftrightarrow> events s' = events s \<and> sboms s' = sboms s \<and> enrichments s' = enrichments s \<and> policies s' = policies s"

lemma same_inputs_refl [simp]: "same_inputs s s"
  by (simp add: same_inputs_def)

lemma same_inputs_trans: "same_inputs s s' \<Longrightarrow> same_inputs s' s'' \<Longrightarrow> same_inputs s s''"
  by (simp add: same_inputs_def)

definition init_cursor :: "string \<Rightarrow> store \<Rightarrow> store" where
  "init_cursor consumer s =
     (if lookup_key cu_consumer (cursors s) consumer \<noteq> None then s
      else s\<lparr>cursors := cursors s @ [\<lparr>cu_consumer = consumer, cu_position = tail_position s\<rparr>]\<rparr>)"

lemma init_cursor_frame [simp]:
  "same_inputs s (init_cursor consumer s)" "alert_queue (init_cursor consumer s) = alert_queue s"
  "alerts (init_cursor consumer s) = alerts s" "alert_failures (init_cursor consumer s) = alert_failures s"
  "next_row_id (init_cursor consumer s) = next_row_id s"
  by (simp_all add: init_cursor_def same_inputs_def)

lemma same_inputs_reads:
  assumes "same_inputs s s'"
  shows "alert_event v sb s' = alert_event v sb s" "candidate_policy tenant s' = candidate_policy tenant s"
    "policy_of tenant s' = policy_of tenant s" "events s' = events s" "sboms s' = sboms s"
  using assms by (simp_all add: same_inputs_def candidate_policy_def alert_event_def event_kev_def policy_of_def)

lemma pending_cong:
  assumes "same_inputs s s'" and "alert_queue s' = alert_queue s"
  shows "pending_candidates consumer s' = pending_candidates consumer s"
proof -
  have "queue_event consumer v s' = queue_event consumer v s" for v by (simp add: queue_event_def assms(2))
  then show ?thesis by (simp add: pending_candidates_def same_inputs_reads [OF assms(1)] cong: if_cong)
qed

lemma lookup_init_cursor: "\<exists>c. lookup_key cu_consumer (cursors (init_cursor consumer s)) consumer = Some c"
  by (auto simp: init_cursor_def lookup_key_append split: option.splits)

lemma NextAlertEvents_run:
  assumes "no_faults e" and "0 < limit" and "limit \<le> maxPageLimit"
  shows "\<exists>n' endpos init. NextAlertEvents consumer limit e n s =
    (Inr (take (nat limit) (pending_candidates consumer s), endpos, init), n', init_cursor consumer s) \<and>
    (init \<longrightarrow> pending_candidates consumer s = [])"
proof -
  have f: "fault e k = None" for k using assms(1) by (simp add: no_faults_def)
  obtain c where c: "lookup_key cu_consumer (cursors (init_cursor consumer s)) consumer = Some c"
    using lookup_init_cursor by blast
  have p: "pending_candidates consumer (init_cursor consumer s) = pending_candidates consumer s"
    by (rule pending_cong) simp_all
  show ?thesis
  proof (cases "lookup_key cu_consumer (cursors s) consumer")
    case None
    then have i: "s\<lparr>cursors := cursors s @ [\<lparr>cu_consumer = consumer, cu_position = tail_position s\<rparr>]\<rparr> = init_cursor consumer s"
      by (simp add: init_cursor_def)
    show ?thesis using assms None c p
      by (simp add: NextAlertEvents_def db_bind_def db_stmt_def f Let_def i)
  next
    case (Some x)
    then have i: "init_cursor consumer s = s" by (simp add: init_cursor_def)
    show ?thesis using assms Some
      by (simp add: NextAlertEvents_def db_bind_def db_stmt_def f Let_def i) blast
  qed
qed

definition read_only :: "compare_db option \<Rightarrow> bool" where
  "read_only compare \<longleftrightarrow> (\<forall>cmp tenant sbomID e n s r n' s'. compare = Some cmp \<longrightarrow> cmp tenant sbomID e n s = (r, n', s') \<longrightarrow> s' = s)"

lemma examine_run:
  assumes "read_only compare"
  shows "\<exists>n' b'. examine compare c b e n s = (Inr b', n', s) \<and>
    b_processed b' = b_processed b @ [candidate_position c] \<and> set (b_drafts b) \<subseteq> set (b_drafts b') \<and>
    (\<forall>ds. Match (fst c) (snd c) = Inr ds \<longrightarrow> set ds \<subseteq> set (b_drafts b')) \<and>
    (\<forall>err. Match (fst c) (snd c) = Inl err \<longrightarrow>
       \<lparr>fail_position = candidate_position c, fail_error = Error err\<rparr> \<in> set (b_failures b')) \<and>
    set (b_failures b) \<subseteq> set (b_failures b')"
proof (cases "Match (fst c) (snd c)")
  case (Inl err)
  then show ?thesis
    by (auto simp: examine_def Let_def add_failure_def start_candidate_def)
next
  case (Inr ds)
  show ?thesis
  proof (cases compare)
    case None
    with Inr show ?thesis by (simp add: examine_def Let_def add_drafts_def start_candidate_def)
  next
    case (Some cmp)
    obtain r n1 s1 where cmp: "cmp (ae_tenant (snd c)) (ae_sbom (snd c)) e n s = (r, n1, s1)" by (metis prod_cases3)
    with assms Some have "s1 = s" by (auto simp: read_only_def)
    with cmp Inr Some show ?thesis
      by (cases r) (auto simp: examine_def Let_def add_drafts_def start_candidate_def add_failure_def db_bind_def db_try_def)
  qed
qed

lemma examine_all_run:
  assumes "read_only compare"
  shows "\<exists>n' b'. examine_all compare cs b e n s = (Inr b', n', s) \<and>
    b_processed b' = b_processed b @ map candidate_position cs \<and> set (b_drafts b) \<subseteq> set (b_drafts b') \<and>
    (\<forall>c \<in> set cs. \<forall>ds. Match (fst c) (snd c) = Inr ds \<longrightarrow> set ds \<subseteq> set (b_drafts b')) \<and>
    (\<forall>c \<in> set cs. \<forall>err. Match (fst c) (snd c) = Inl err \<longrightarrow>
       \<lparr>fail_position = candidate_position c, fail_error = Error err\<rparr> \<in> set (b_failures b')) \<and>
    set (b_failures b) \<subseteq> set (b_failures b')"
proof (induction cs arbitrary: b n)
  case Nil
  then show ?case by simp
next
  case (Cons c cs)
  obtain n1 b1 where 1: "examine compare c b e n s = (Inr b1, n1, s)"
      "b_processed b1 = b_processed b @ [candidate_position c]" "set (b_drafts b) \<subseteq> set (b_drafts b1)"
      "\<forall>ds. Match (fst c) (snd c) = Inr ds \<longrightarrow> set ds \<subseteq> set (b_drafts b1)"
      "\<forall>err. Match (fst c) (snd c) = Inl err \<longrightarrow>
         \<lparr>fail_position = candidate_position c, fail_error = Error err\<rparr> \<in> set (b_failures b1)"
      "set (b_failures b) \<subseteq> set (b_failures b1)"
    using examine_run [OF assms, of c b e n s] by blast
  obtain n2 b2 where 2: "examine_all compare cs b1 e n1 s = (Inr b2, n2, s)"
      "b_processed b2 = b_processed b1 @ map candidate_position cs" "set (b_drafts b1) \<subseteq> set (b_drafts b2)"
      "\<forall>c \<in> set cs. \<forall>ds. Match (fst c) (snd c) = Inr ds \<longrightarrow> set ds \<subseteq> set (b_drafts b2)"
      "\<forall>c \<in> set cs. \<forall>err. Match (fst c) (snd c) = Inl err \<longrightarrow>
         \<lparr>fail_position = candidate_position c, fail_error = Error err\<rparr> \<in> set (b_failures b2)"
      "set (b_failures b1) \<subseteq> set (b_failures b2)"
    using Cons.IH [of b1 n1] by blast
  have "examine_all compare (c # cs) b e n s = (Inr b2, n2, s)" using 1(1) 2(1) by (simp add: db_bind_def)
  moreover have "b_processed b2 = b_processed b @ map candidate_position (c # cs)" using 1(2) 2(2) by simp
  moreover have "set (b_drafts b) \<subseteq> set (b_drafts b2)" "set (b_failures b) \<subseteq> set (b_failures b2)"
    using 1(3,6) 2(3,6) by blast+
  moreover have "\<forall>c' \<in> set (c # cs). \<forall>ds. Match (fst c') (snd c') = Inr ds \<longrightarrow> set ds \<subseteq> set (b_drafts b2)"
    using 1(4) 2(3,4) unfolding list.set ball_simps(7) by blast
  moreover have "\<forall>c' \<in> set (c # cs). \<forall>err. Match (fst c') (snd c') = Inl err \<longrightarrow>
      \<lparr>fail_position = candidate_position c', fail_error = Error err\<rparr> \<in> set (b_failures b2)"
    using 1(5) 2(5,6) unfolding list.set ball_simps(7) by blast
  ultimately show ?case by blast
qed
section \<open>The commit\<close>

definition commit_effect ::
    "string \<Rightarrow> AlertDraft list \<Rightarrow> AlertFailure list \<Rightarrow> AlertPosition list \<Rightarrow> AlertPosition \<Rightarrow> time \<Rightarrow> store \<Rightarrow> store" where
  "commit_effect consumer drafts fails processed endpos now s =
     advance_cursor consumer endpos (fold (mark_processed consumer now) processed
       (fold (insert_failure consumer) fails (fold insert_alert drafts s)))"

lemma db_does_commit_body:
  "db_does (db_bind (db_foreach drafts (\<lambda>d. db_stmt (Wrapf ''insert alert: '') (\<lambda>t s. (Inr (), insert_alert d s)))) (\<lambda>_.
       db_bind (db_foreach fails (\<lambda>f. db_stmt (Wrapf ''insert alert failure: '') (\<lambda>t s. (Inr (), insert_failure consumer f s)))) (\<lambda>_.
       db_bind (db_foreach processed (\<lambda>p. db_stmt (Wrapf ''mark alert event processed: '') (\<lambda>t s. (Inr (), mark_processed consumer tx_now p s)))) (\<lambda>_.
       db_stmt (Wrapf ''advance alert cursor: '') (\<lambda>t s. (Inr (), advance_cursor consumer endpos s))))))
     (\<lambda>_. ()) (commit_effect consumer drafts fails processed endpos tx_now)"
  unfolding commit_effect_def
  by (rule db_does_bind [OF db_does_foreach [OF db_does_stmt] db_does_bind [OF db_does_foreach [OF db_does_stmt]
        db_does_bind [OF db_does_foreach [OF db_does_stmt] db_does_stmt]]])

lemma Commit_Inr:
  "CommitAlertBatch consumer drafts fails processed endpos e n s = (Inr u, n', s') \<Longrightarrow>
     s' = commit_effect consumer drafts fails processed endpos (clock e n) s"
  unfolding CommitAlertBatch_def db_tx_Inr using db_doesD [OF db_does_commit_body] by blast

lemma Commit_Inl: "CommitAlertBatch consumer drafts fails processed endpos e n s = (Inl err, n', s') \<Longrightarrow> s' = s"
  unfolding CommitAlertBatch_def by (rule db_tx_Inl)

lemma Commit_run:
  assumes "no_faults e"
  shows "\<exists>n'. CommitAlertBatch consumer drafts fails processed endpos e n s =
    (Inr (), n', commit_effect consumer drafts fails processed endpos (clock e n) s)"
proof -
  have f: "fault e k = None" for k using assms by (simp add: no_faults_def)
  have "db_total (db_bind (db_foreach drafts (\<lambda>d. db_stmt (Wrapf ''insert alert: '') (\<lambda>t s. (Inr (), insert_alert d s)))) (\<lambda>_.
       db_bind (db_foreach fails (\<lambda>f. db_stmt (Wrapf ''insert alert failure: '') (\<lambda>t s. (Inr (), insert_failure consumer f s)))) (\<lambda>_.
       db_bind (db_foreach processed (\<lambda>p. db_stmt (Wrapf ''mark alert event processed: '') (\<lambda>t s. (Inr (), mark_processed consumer tx_now p s)))) (\<lambda>_.
       db_stmt (Wrapf ''advance alert cursor: '') (\<lambda>t s. (Inr (), advance_cursor consumer endpos s))))))" for tx_now
    by (intro db_rules)
  from db_does_total_run [OF db_does_commit_body this assms] show ?thesis
    unfolding CommitAlertBatch_def db_tx_Inr using f by blast
qed

text \<open>What the parts of a commit touch.\<close>

lemma insert_alert_frame [simp]:
  "same_inputs s (insert_alert d s)" "alert_queue (insert_alert d s) = alert_queue s"
  "alert_failures (insert_alert d s) = alert_failures s" "cursors (insert_alert d s) = cursors s"
  by (simp_all add: insert_alert_def same_inputs_def)

lemma insert_failure_frame [simp]:
  "same_inputs s (insert_failure consumer f s)" "alert_queue (insert_failure consumer f s) = alert_queue s"
  "alerts (insert_failure consumer f s) = alerts s"
  by (simp_all add: insert_failure_def same_inputs_def)

lemma mark_processed_frame [simp]:
  "same_inputs s (mark_processed consumer now p s)" "alerts (mark_processed consumer now p s) = alerts s"
  "alert_failures (mark_processed consumer now p s) = alert_failures s"
  by (simp_all add: mark_processed_def same_inputs_def)

lemma advance_cursor_frame [simp]:
  "same_inputs s (advance_cursor consumer p s)" "alerts (advance_cursor consumer p s) = alerts s"
  "alert_queue (advance_cursor consumer p s) = alert_queue s" "alert_failures (advance_cursor consumer p s) = alert_failures s"
  by (simp_all add: advance_cursor_def same_inputs_def)

lemma fold_same: "(\<And>x s. g (f x s) = g s) \<Longrightarrow> g (fold f xs s) = g s"
  by (induction xs arbitrary: s) auto

lemma fold_related: "(\<And>s. R s s) \<Longrightarrow> (\<And>a b c. R a b \<Longrightarrow> R b c \<Longrightarrow> R a c) \<Longrightarrow> (\<And>x s. R s (f x s)) \<Longrightarrow> R s (fold f xs s)"
  by (induction xs arbitrary: s) (simp, simp, blast)

lemma fold_frames:
  "same_inputs s (fold insert_alert ds s)" "alert_queue (fold insert_alert ds s) = alert_queue s"
  "same_inputs s (fold (insert_failure consumer) fs s)" "alert_queue (fold (insert_failure consumer) fs s) = alert_queue s"
  "alerts (fold (insert_failure consumer) fs s) = alerts s"
  "same_inputs s (fold (mark_processed consumer now) ps s)" "alerts (fold (mark_processed consumer now) ps s) = alerts s"
  by (rule fold_related fold_same; (simp | erule (1) same_inputs_trans))+

lemma commit_same_inputs: "same_inputs s (commit_effect consumer drafts fails processed endpos now s)"
  unfolding commit_effect_def
  by (meson advance_cursor_frame(1) fold_frames(1,3,6) same_inputs_trans)

lemma commit_alerts: "alerts (commit_effect consumer drafts fails processed endpos now s) = alerts (fold insert_alert drafts s)"
  by (simp add: commit_effect_def fold_frames)

definition mark_row :: "string \<Rightarrow> time \<Rightarrow> AlertPosition \<Rightarrow> queue_row \<Rightarrow> queue_row" where
  "mark_row consumer now pos q =
     (if q_consumer q = consumer \<and> q_occurred_at q = pos_occurred_at pos \<and> q_event_id q = pos_event_id pos
      then q\<lparr>q_processed_at := Some (case q_processed_at q of None \<Rightarrow> now | Some t \<Rightarrow> t)\<rparr> else q)"

lemma alert_queue_mark: "alert_queue (mark_processed consumer now p s) = map (mark_row consumer now p) (alert_queue s)"
  by (simp add: mark_processed_def mark_row_def [abs_def])

lemma alert_queue_marks:
  "alert_queue (fold (mark_processed consumer now) ps s) = fold (\<lambda>p. map (mark_row consumer now p)) ps (alert_queue s)"
  by (induction ps arbitrary: s) (simp_all add: alert_queue_mark)

lemma commit_queue:
  "alert_queue (commit_effect consumer drafts fails processed endpos now s) =
     fold (\<lambda>p. map (mark_row consumer now p)) processed (alert_queue s)"
  by (simp add: commit_effect_def fold_frames alert_queue_marks)

definition event_position :: "finding_event \<Rightarrow> AlertPosition" where
  "event_position v = \<lparr>pos_occurred_at = ev_occurred_at v, pos_event_id = ev_id v\<rparr>"

text \<open>Is an unprocessed row of the consumer at the position?\<close>

definition waits :: "string \<Rightarrow> AlertPosition \<Rightarrow> queue_row \<Rightarrow> bool" where
  "waits consumer pos q \<longleftrightarrow> q_consumer q = consumer \<and> q_processed_at q = None \<and>
     q_occurred_at q = pos_occurred_at pos \<and> q_event_id q = pos_event_id pos"

lemma queue_event_waits: "queue_event consumer v s \<longleftrightarrow> (\<exists>q \<in> set (alert_queue s). waits consumer (event_position v) q)"
  by (simp add: queue_event_def waits_def event_position_def list_ex_iff)

lemma waits_mark_row: "waits consumer pos (mark_row consumer now p q) \<longleftrightarrow> waits consumer pos q \<and> pos \<noteq> p"
  by (cases pos; cases p) (auto simp: waits_def mark_row_def)

lemma waits_marks:
  "(\<exists>q \<in> set (fold (\<lambda>p. map (mark_row consumer now p)) ps qs). waits consumer pos q) \<longleftrightarrow>
     (\<exists>q \<in> set qs. waits consumer pos q) \<and> pos \<notin> set ps"
proof (induction ps arbitrary: qs)
  case (Cons p ps)
  have "(\<exists>q \<in> set (map (mark_row consumer now p) qs). waits consumer pos q) \<longleftrightarrow> (\<exists>q \<in> set qs. waits consumer pos q) \<and> pos \<noteq> p"
    by (auto simp: waits_mark_row)
  then show ?case unfolding fold_Cons comp_def Cons.IH by auto
qed simp

lemma queue_event_commit:
  "queue_event consumer v (commit_effect consumer drafts fails processed endpos now s) \<longleftrightarrow>
     queue_event consumer v s \<and> event_position v \<notin> set processed"
  unfolding queue_event_waits commit_queue waits_marks ..

lemma map_filter_cong: "(\<And>x. x \<in> set xs \<Longrightarrow> f x = g x) \<Longrightarrow> List.map_filter f xs = List.map_filter g xs"
  by (induction xs) (simp_all add: List.map_filter_simps split: option.split)

lemma filter_map_filter: "filter P (List.map_filter f xs) = List.map_filter (\<lambda>x. case f x of None \<Rightarrow> None | Some y \<Rightarrow> if P y then Some y else None) xs"
  by (induction xs) (auto simp: List.map_filter_simps split: option.splits)

lemma pending_after_commit:
  "pending_candidates consumer (commit_effect consumer drafts fails processed endpos now s) =
     filter (\<lambda>c. candidate_position c \<notin> set processed) (pending_candidates consumer s)"
proof -
  let ?s = "commit_effect consumer drafts fails processed endpos now s"
  have p: "candidate_position (p, alert_event v sb s) = event_position v" for p v sb
    by (simp add: candidate_position_def alert_event_def event_position_def)
  show ?thesis
    unfolding pending_candidates_def filter_sort filter_map_filter same_inputs_reads(4) [OF commit_same_inputs]
    by (rule arg_cong [where f = "sort_key f" for f], rule map_filter_cong)
       (auto simp: queue_event_commit same_inputs_reads [OF commit_same_inputs] p split: option.splits)
qed
section \<open>The loop\<close>

definition batch_limit :: "int \<Rightarrow> nat" where
  "batch_limit limit = nat (if limit \<le> 0 \<or> limit > maxPageLimit then defaultAlertBatchSize else limit)"

lemma batch_limit_pos: "0 < batch_limit limit"
  by (simp add: batch_limit_def)

lemma Next_Inr:
  assumes "NextAlertEvents consumer limit e n s = (Inr (cs, endpos, init), n', s')"
  shows "s' = init_cursor consumer s \<and> cs = take (batch_limit limit) (pending_candidates consumer s) \<and> (init \<longrightarrow> cs = [])"
proof -
  have p: "pending_candidates consumer (init_cursor consumer s) = pending_candidates consumer s"
    by (rule pending_cong) simp_all
  show ?thesis
  proof (cases "lookup_key cu_consumer (cursors s) consumer")
    case None
    then have i: "s\<lparr>cursors := cursors s @ [\<lparr>cu_consumer = consumer, cu_position = tail_position s\<rparr>]\<rparr> = init_cursor consumer s"
      by (simp add: init_cursor_def)
    show ?thesis using assms None p
      by (auto simp: NextAlertEvents_def db_bind_Inr db_stmt_Inr Let_def i batch_limit_def split: option.splits if_splits)
  next
    case (Some x)
    then show ?thesis using assms
      by (auto simp: NextAlertEvents_def db_bind_Inr db_stmt_Inr Let_def init_cursor_def batch_limit_def split: option.splits if_splits)
  qed
qed

lemma filter_take_shorter:
  assumes "cs = take k xs" and "0 < k" and "xs \<noteq> []"
  shows "length (filter (\<lambda>c. f c \<notin> f ` set cs) xs) < length xs"
proof -
  have "hd xs \<in> set cs" using assms by (cases xs; cases k) auto
  then show ?thesis using assms(3) by (intro length_filter_less [of "hd xs"]) auto
qed

lemma evaluate_loop_returns:
  assumes "read_only compare"
  shows "length (pending_candidates consumer s) < fuel \<Longrightarrow>
    \<exists>res' err n' s'. evaluate_loop fuel compare done_at consumer batchSize res seen e n s = (Inr (Some (res', err)), n', s')"
proof (induction fuel arbitrary: res seen n s)
  case 0
  then show ?case by simp
next
  case (Suc fuel)
  obtain r n1 s1 where r: "NextAlertEvents consumer batchSize e n s = (r, n1, s1)" by (metis prod_cases3)
  show ?case
  proof (cases "done_at n")
    case (Some err)
    then show ?thesis by (simp add: db_bind_def db_try_def db_ctx_def)
  next
    case None
    show ?thesis
    proof (cases r)
      case (Inl err)
      with r None show ?thesis by (simp add: db_bind_def db_try_def db_ctx_def)
    next
      case (Inr x)
      obtain cs endpos init where x: "x = (cs, endpos, init)" by (metis prod_cases3)
      note nx = Next_Inr [OF r [unfolded Inr x]]
      show ?thesis
      proof (cases "init \<or> cs = []")
        case True
        with r None Inr x show ?thesis by (simp add: db_bind_def db_try_def db_ctx_def)
      next
        case False
        obtain n2 b where b: "examine_all compare cs (empty_batch res seen) e n1 s1 = (Inr b, n2, s1)"
            "b_processed b = map candidate_position cs"
          using examine_all_run [OF assms, of cs "empty_batch res seen" e n1 s1] by (auto simp: empty_batch_def)
        obtain r2 n3 s3 where c: "CommitAlertBatch consumer (b_drafts b) (b_failures b) (b_processed b) endpos e n2 s1 = (r2, n3, s3)"
          by (metis prod_cases3)
        show ?thesis
        proof (cases r2)
          case (Inl err)
          with r None Inr x False b c show ?thesis by (simp add: db_bind_def db_try_def db_ctx_def)
        next
          case r2: (Inr u)
          have "pending_candidates consumer s1 = pending_candidates consumer s" using nx by (auto intro: pending_cong)
          then have "pending_candidates consumer s3 =
              filter (\<lambda>c. candidate_position c \<notin> candidate_position ` set cs) (pending_candidates consumer s)"
            using Commit_Inr [OF c [unfolded r2]] b(2) by (simp add: pending_after_commit)
          moreover have "pending_candidates consumer s \<noteq> []" using False nx by auto
          ultimately have "length (pending_candidates consumer s3) < fuel"
            using Suc.prems filter_take_shorter [of cs, OF _ batch_limit_pos, of batchSize "pending_candidates consumer s" candidate_position]
              nx by simp
          from Suc.IH [OF this, of "b_result b" "b_seen b" n3] r None Inr x False b c r2 show ?thesis
            by (auto simp: db_bind_def db_try_def db_ctx_def)
        qed
      qed
    qed
  qed
qed

lemma length_map_filter: "length (List.map_filter f xs) \<le> length xs"
  by (induction xs) (auto simp: List.map_filter_simps split: option.split)

lemma pending_fuel: "length (pending_candidates consumer s) < evaluate_fuel s"
  using length_map_filter by (simp add: pending_candidates_def evaluate_fuel_def less_Suc_eq_le)
section \<open>Every alertable event is alerted\<close>

definition has_alert :: "AlertDraft \<Rightarrow> store \<Rightarrow> bool" where
  "has_alert d s \<longleftrightarrow> (\<exists>a \<in> set (alerts s). alert_key a = alert_key (alert_of d 0))"

lemma alert_key_of: "alert_key (alert_of d i) = (ae_tenant (ad_event d), ad_policy_id d, ae_id (ad_event d), ae_occurred_at (ad_event d), ad_kind d)"
  "al_kind (alert_of d i) = ad_kind d"
  by (simp_all add: alert_key_def alert_of_def Let_def)

lemma alerts_grow: "set (alerts s) \<subseteq> set (alerts (insert_alert d s))"
  by (auto simp: insert_alert_def)

lemma alerts_grow_fold: "set (alerts s) \<subseteq> set (alerts (fold insert_alert ds s))"
  by (rule fold_related [where R = "\<lambda>s s'. set (alerts s) \<subseteq> set (alerts s')"]) (auto simp: alerts_grow del: subsetI)

lemma has_alert_mono: "has_alert d s \<Longrightarrow> set (alerts s) \<subseteq> set (alerts s') \<Longrightarrow> has_alert d s'"
  by (auto simp: has_alert_def)

lemma draft_current_cong: "policies s = policies s' \<Longrightarrow> draft_current d s = draft_current d s'"
  by (simp add: draft_current_def)

lemma has_alert_insert:
  assumes "draft_current d s" and "ad_kind d \<noteq> KindPostureRegression"
  shows "has_alert d (insert_alert d s)"
proof (cases "alert_conflict (alert_of d (next_row_id s)) s")
  case True
  with assms(2) show ?thesis
    by (auto simp: has_alert_def insert_alert_def alert_conflict_def list_ex_iff alert_key_of)
next
  case False
  with assms(1) show ?thesis by (simp add: has_alert_def insert_alert_def alert_key_of)
qed

lemma has_alert_fold:
  assumes "d \<in> set ds" and "draft_current d s" and "ad_kind d \<noteq> KindPostureRegression"
  shows "has_alert d (fold insert_alert ds s)"
  using assms(1,2)
proof (induction ds arbitrary: s)
  case (Cons x ds)
  have "draft_current d (insert_alert x s)"
    using Cons.prems(2) draft_current_cong [of s "insert_alert x s" d] insert_alert_frame(1) [of s x] by (simp add: same_inputs_def)
  moreover have "has_alert d (fold insert_alert ds (insert_alert d s))"
    using has_alert_insert [OF Cons.prems(2) assms(3)] has_alert_mono alerts_grow_fold by blast
  ultimately show ?case using Cons by auto
qed simp

lemma match_kind_not_regression: "match_kind p ev \<noteq> KindPostureRegression"
  by (simp add: match_kind_def)

lemma Match_Cons:
  assumes "Match p ev = Inr (d # ds)"
  shows "ds = [] \<and> d = draft_of p ev \<and> raises p ev"
proof (cases "validateEvent ev")
  case None
  with assms show ?thesis by (simp add: Match_Inr split: if_splits)
next
  case (Some err)
  with assms show ?thesis by (simp add: Match_Inl)
qed

lemma set_map_filter_iff: "y \<in> set (List.map_filter f xs) \<longleftrightarrow> (\<exists>x \<in> set xs. f x = Some y)"
  by (force simp: List.map_filter_def)

lemma pending_iff:
  "c \<in> set (pending_candidates consumer s) \<longleftrightarrow>
     (\<exists>v \<in> set (events s). \<exists>sb. queue_event consumer v s \<and> (ev_cause v = CauseImage \<or> ev_cause v = CauseDB) \<and>
        lookup_key ID (sboms s) (ev_sbom v) = Some sb \<and> c = (candidate_policy (ev_tenant v) s, alert_event v sb s))"
  unfolding pending_candidates_def set_sort set_map_filter_iff by (auto split: if_splits)

lemma pending_draft_current:
  assumes "c \<in> set (pending_candidates consumer s)" and "Match (fst c) (snd c) = Inr (d # ds)"
  shows "draft_current d s"
proof -
  obtain v sb where c: "c = (candidate_policy (ev_tenant v) s, alert_event v sb s)"
    using assms(1) unfolding pending_iff by blast
  with Match_Cons [OF assms(2)] have d: "d = draft_of (candidate_policy (ev_tenant v) s) (alert_event v sb s)"
      "ap_enabled (candidate_policy (ev_tenant v) s)" by (simp_all add: raises_def)
  then obtain p where p: "policy_of (ev_tenant v) s = Some p"
    by (cases "policy_of (ev_tenant v) s") (simp_all add: candidate_policy_def)
  note m = lookup_key_Some [OF p [unfolded policy_of_def]]
  have "ad_policy_id d = ap_id p" "ae_tenant (ad_event d) = ap_tenant p" "ad_policy_updated_at d = ap_updated_at p" "ap_enabled p"
    using d p m by (simp_all add: draft_of_def candidate_policy_def alert_event_def)
  with m show ?thesis unfolding draft_current_def list_ex_iff by metis
qed

lemma pending_position_inj:
  assumes "distinct_key ev_id (events s)" and "c \<in> set (pending_candidates consumer s)" and "c' \<in> set (pending_candidates consumer s)"
    and "candidate_position c = candidate_position c'"
  shows "c = c'"
proof -
  from assms(2) obtain v sb where c: "v \<in> set (events s)" "lookup_key ID (sboms s) (ev_sbom v) = Some sb"
      "c = (candidate_policy (ev_tenant v) s, alert_event v sb s)"
    unfolding pending_iff by (elim bexE exE conjE) (rule that)
  from assms(3) obtain v' sb' where c': "v' \<in> set (events s)" "lookup_key ID (sboms s) (ev_sbom v') = Some sb'"
      "c' = (candidate_policy (ev_tenant v') s, alert_event v' sb' s)"
    unfolding pending_iff by (elim bexE exE conjE) (rule that)
  have "ev_id v = ev_id v'" using assms(4) by (simp add: c(3) c'(3) candidate_position_def alert_event_def)
  then have "v = v'" using lookup_key_in [OF assms(1) c(1)] lookup_key_in [OF assms(1) c'(1)] by (metis option.inject)
  then show ?thesis using c(2,3) c'(2,3) by simp
qed
text \<open>What evaluation has to achieve for the events that wait at \<open>s\<close>: the draft of every one that
  matches has its alert, and every one that cannot be matched has its failure.\<close>

definition settled :: "string \<Rightarrow> AlertCandidate \<Rightarrow> store \<Rightarrow> bool" where
  "settled consumer c s \<longleftrightarrow>
     (case Match (fst c) (snd c) of
        Inr ds \<Rightarrow> list_all (\<lambda>d. has_alert d s) ds
      | Inl err \<Rightarrow> (consumer, candidate_position c) \<in> failure_key ` set (alert_failures s))"

definition grows :: "store \<Rightarrow> store \<Rightarrow> bool" where
  "grows s s' \<longleftrightarrow> same_inputs s s' \<and> set (alerts s) \<subseteq> set (alerts s') \<and>
     failure_key ` set (alert_failures s) \<subseteq> failure_key ` set (alert_failures s')"

lemma settled_mono: "settled consumer c s \<Longrightarrow> grows s s' \<Longrightarrow> settled consumer c s'"
  by (auto simp: settled_def grows_def list_all_iff intro: has_alert_mono split: sum.splits)

lemma grows_trans: "grows s s' \<Longrightarrow> grows s' s'' \<Longrightarrow> grows s s''"
  unfolding grows_def by (meson same_inputs_trans subset_trans)

lemma failure_keys_insert:
  "failure_key ` set (alert_failures (insert_failure consumer f s)) =
     insert (consumer, fail_position f) (failure_key ` set (alert_failures s))"
proof -
  let ?r = "\<lparr>af_consumer = consumer, af_position = fail_position f, af_error = fail_error f\<rparr>"
  have "set (map failure_key (upsert failure_key (\<lambda>x. x) ?r (alert_failures s))) = insert (failure_key ?r) (failure_key ` set (alert_failures s))"
    by (subst keys_upsert) auto
  then show ?thesis by (simp add: insert_failure_def failure_key_def)
qed

lemma failure_keys_fold:
  "failure_key ` set (alert_failures (fold (insert_failure consumer) fs s)) =
     (\<lambda>f. (consumer, fail_position f)) ` set fs \<union> failure_key ` set (alert_failures s)"
  by (induction fs arbitrary: s) (auto simp: failure_keys_insert)

lemma commit_failures:
  "alert_failures (commit_effect consumer drafts fails processed endpos now s) = alert_failures (fold (insert_failure consumer) fails (fold insert_alert drafts s))"
  unfolding commit_effect_def by (simp, rule fold_same) simp

lemma alert_failures_fold: "alert_failures (fold insert_alert ds s) = alert_failures s"
  by (rule fold_same) simp

lemma commit_grows: "grows s (commit_effect consumer drafts fails processed endpos now s)"
  using alerts_grow_fold
  by (auto simp: grows_def commit_same_inputs commit_alerts commit_failures failure_keys_fold alert_failures_fold)

lemma batch_settles:
  assumes "read_only compare" and "set cs \<subseteq> set (pending_candidates consumer s)"
    and "examine_all compare cs (empty_batch res seen) e n s = (Inr b, n', s1)" and "c \<in> set cs"
  shows "settled consumer c (commit_effect consumer (b_drafts b) (b_failures b) processed endpos now s)"
proof -
  obtain b' where b': "b' = b" "\<forall>c \<in> set cs. \<forall>ds. Match (fst c) (snd c) = Inr ds \<longrightarrow> set ds \<subseteq> set (b_drafts b')"
      "\<forall>c \<in> set cs. \<forall>err. Match (fst c) (snd c) = Inl err \<longrightarrow>
         \<lparr>fail_position = candidate_position c, fail_error = Error err\<rparr> \<in> set (b_failures b')"
    using examine_all_run [OF assms(1), of cs "empty_batch res seen" e n s] assms(3) by auto
  show ?thesis
  proof (cases "Match (fst c) (snd c)")
    case (Inl err)
    with b' assms(4) have "\<lparr>fail_position = candidate_position c, fail_error = Error err\<rparr> \<in> set (b_failures b)" by blast
    with Inl show ?thesis by (force simp: settled_def commit_failures failure_keys_fold)
  next
    case (Inr ds)
    have "has_alert d (fold insert_alert (b_drafts b) s)" if d: "d \<in> set ds" for d
    proof -
      obtain ds' where ds: "ds = d # ds'" using Inr d Match_Cons [of "fst c" "snd c"] by (cases ds) auto
      have "d \<in> set (b_drafts b)" using b' Inr assms(4) d by blast
      moreover have "draft_current d s" using pending_draft_current [of c consumer s d ds'] assms(2,4) Inr ds by blast
      moreover have "ad_kind d \<noteq> KindPostureRegression"
        using Match_Cons [of "fst c" "snd c" d ds'] Inr ds match_kind_not_regression by (simp add: draft_of_def)
      ultimately show ?thesis by (rule has_alert_fold)
    qed
    with Inr show ?thesis by (simp add: settled_def list_all_iff has_alert_def commit_alerts)
  qed
qed
text \<open>One round of the loop on a non-empty queue, when nothing fails.\<close>

lemma evaluate_round:
  assumes "read_only compare" and "no_faults e" and "done_at = (\<lambda>_. None)" and "0 < batchSize" and "batchSize \<le> maxPageLimit"
    and "pending_candidates consumer s \<noteq> []"
  shows "\<exists>(b :: batch) n3 s3.
    (\<forall>fuel. evaluate_loop (Suc fuel) compare done_at consumer batchSize res seen e n s =
      (if int (length (take (nat batchSize) (pending_candidates consumer s))) < batchSize then (Inr (Some (b_result b, None)), n3, s3)
       else evaluate_loop fuel compare done_at consumer batchSize (b_result b) (b_seen b) e n3 s3)) \<and>
    pending_candidates consumer s3 =
      filter (\<lambda>c. candidate_position c \<notin> candidate_position ` set (take (nat batchSize) (pending_candidates consumer s)))
        (pending_candidates consumer s) \<and>
    grows s s3 \<and> (\<forall>c \<in> set (take (nat batchSize) (pending_candidates consumer s)). settled consumer c s3)"
proof -
  let ?P = "pending_candidates consumer s" and ?s1 = "init_cursor consumer s"
  have p1: "pending_candidates consumer ?s1 = ?P" by (rule pending_cong) simp_all
  obtain n1 endpos init where nx: "NextAlertEvents consumer batchSize e n s = (Inr (take (nat batchSize) ?P, endpos, init), n1, ?s1)"
      "init \<longrightarrow> ?P = []"
    using NextAlertEvents_run [OF assms(2,4,5), of consumer n s] by blast
  define cs where "cs = take (nat batchSize) ?P"
  have cs: "\<not> (init \<or> cs = [])" using nx(2) assms(4,6) by (simp add: cs_def)
  obtain n2 b where b: "examine_all compare cs (empty_batch res seen) e n1 ?s1 = (Inr b, n2, ?s1)"
      "b_processed b = map candidate_position cs"
    using examine_all_run [OF assms(1), of cs "empty_batch res seen" e n1 ?s1] by (auto simp: empty_batch_def)
  let ?s3 = "commit_effect consumer (b_drafts b) (b_failures b) (b_processed b) endpos (clock e n2) ?s1"
  obtain n3 where c: "CommitAlertBatch consumer (b_drafts b) (b_failures b) (b_processed b) endpos e n2 ?s1 = (Inr (), n3, ?s3)"
    using Commit_run [OF assms(2)] by blast
  have 1: "evaluate_loop (Suc fuel) compare done_at consumer batchSize res seen e n s =
      (if int (length cs) < batchSize then (Inr (Some (b_result b, None)), n3, ?s3)
       else evaluate_loop fuel compare done_at consumer batchSize (b_result b) (b_seen b) e n3 ?s3)" for fuel
    using nx(1) cs b(1) c assms(3) unfolding cs_def [symmetric] by (simp add: db_bind_def db_try_def db_ctx_def)
  have 2: "pending_candidates consumer ?s3 = filter (\<lambda>c. candidate_position c \<notin> candidate_position ` set cs) ?P"
    by (simp add: pending_after_commit b(2) p1)
  have "grows s ?s1" by (simp add: grows_def)
  then have 3: "grows s ?s3" using commit_grows grows_trans by blast
  have sub: "set cs \<subseteq> set (pending_candidates consumer ?s1)" unfolding p1 cs_def by (rule set_take_subset)
  have 4: "\<forall>c \<in> set cs. settled consumer c ?s3" using batch_settles [OF assms(1) sub b(1)] by blast
  show ?thesis
    unfolding cs_def [symmetric] by (rule exI [of _ b], rule exI [of _ n3], rule exI [of _ ?s3]) (use 1 2 3 4 in simp)
qed

lemma evaluate_loop_settles:
  assumes "read_only compare" and "no_faults e" and "done_at = (\<lambda>_. None)" and "0 < batchSize" and "batchSize \<le> maxPageLimit"
  shows "length (pending_candidates consumer s) < fuel \<Longrightarrow> distinct_key ev_id (events s) \<Longrightarrow>
    \<exists>res' n' s'. evaluate_loop fuel compare done_at consumer batchSize res seen e n s = (Inr (Some (res', None)), n', s') \<and>
      pending_candidates consumer s' = [] \<and> grows s s' \<and> (\<forall>c \<in> set (pending_candidates consumer s). settled consumer c s')"
proof (induction fuel arbitrary: res seen n s)
  case 0
  then show ?case by simp
next
  case (Suc fuel)
  let ?P = "pending_candidates consumer s"
  define cs where "cs = take (nat batchSize) ?P"
  show ?case
  proof (cases "?P = []")
    case True
    obtain n1 endpos init where "NextAlertEvents consumer batchSize e n s = (Inr (take (nat batchSize) ?P, endpos, init), n1, init_cursor consumer s)"
      using NextAlertEvents_run [OF assms(2,4,5), of consumer n s] by blast
    moreover have "pending_candidates consumer (init_cursor consumer s) = ?P" by (rule pending_cong) simp_all
    ultimately show ?thesis using True assms(3) by (simp add: db_bind_def db_try_def db_ctx_def grows_def)
  next
    case ne: False
    obtain b :: batch and n3 s3 where step: "evaluate_loop (Suc fuel) compare done_at consumer batchSize res seen e n s =
          (if int (length cs) < batchSize then (Inr (Some (b_result b, None)), n3, s3)
           else evaluate_loop fuel compare done_at consumer batchSize (b_result b) (b_seen b) e n3 s3)"
        and p3: "pending_candidates consumer s3 = filter (\<lambda>c. candidate_position c \<notin> candidate_position ` set cs) ?P"
        and g3: "grows s s3" and settled: "\<forall>c \<in> set cs. settled consumer c s3"
      using evaluate_round [OF assms ne, where res = res and seen = seen and n = n] unfolding cs_def by blast
    show ?thesis
    proof (cases "int (length cs) < batchSize")
      case True
      then have "cs = ?P" by (simp add: cs_def min_def split: if_splits)
      moreover from this have "pending_candidates consumer s3 = []" unfolding p3 by (simp add: filter_empty_conv)
      ultimately show ?thesis unfolding step using True g3 settled by auto
    next
      case False
      have "length (pending_candidates consumer s3) < fuel"
        using Suc.prems(1) filter_take_shorter [OF cs_def, of candidate_position] assms(4) ne unfolding p3 by simp
      moreover have "distinct_key ev_id (events s3)" using Suc.prems(2) g3 by (simp add: grows_def same_inputs_def)
      ultimately obtain res' n' s' where ih:
          "evaluate_loop fuel compare done_at consumer batchSize (b_result b) (b_seen b) e n3 s3 = (Inr (Some (res', None)), n', s')"
          "pending_candidates consumer s' = []" "grows s3 s'" "\<forall>c \<in> set (pending_candidates consumer s3). settled consumer c s'"
        using Suc.IH [of s3 "b_result b" "b_seen b" n3] by blast
      have "settled consumer c s'" if "c \<in> set ?P" for c
      proof (cases "candidate_position c \<in> candidate_position ` set cs")
        case True
        then obtain c' where "c' \<in> set cs" "candidate_position c = candidate_position c'" by auto
        moreover from this(1) have "c' \<in> set ?P" unfolding cs_def by (rule in_set_takeD)
        ultimately have "c \<in> set cs" using pending_position_inj [OF Suc.prems(2) that] by metis
        then show ?thesis using settled settled_mono ih(3) by blast
      next
        case False
        with that have "c \<in> set (pending_candidates consumer s3)" by (simp add: p3)
        then show ?thesis using ih(4) by blast
      qed
      with ih grows_trans [OF g3] show ?thesis unfolding step using False by auto
    qed
  qed
qed
section \<open>Committing twice, and the alert table's invariant\<close>

lemma alert_conflict_id: "alert_conflict (alert_of d i) s = alert_conflict (alert_of d 0) s"
  by (simp add: alert_conflict_def alert_of_def alert_key_def regression_key_def Let_def)

lemma alert_conflict_mono: "alert_conflict a s \<Longrightarrow> set (alerts s) \<subseteq> set (alerts s') \<Longrightarrow> alert_conflict a s'"
  unfolding alert_conflict_def list_ex_iff by blast

text \<open>A draft that an insert has seen cannot be inserted again.\<close>

definition spent :: "AlertDraft \<Rightarrow> store \<Rightarrow> bool" where
  "spent d s \<longleftrightarrow> \<not> draft_current d s \<or> alert_conflict (alert_of d 0) s"

lemma insert_spent: "spent d s \<Longrightarrow> insert_alert d s = s"
  by (auto simp: insert_alert_def spent_def alert_conflict_id [of d "next_row_id s"])

lemma spent_insert: "spent d (insert_alert d s)"
proof (cases "spent d s")
  case True
  then show ?thesis by (simp add: insert_spent)
next
  case False
  then have "insert_alert d s = s\<lparr>alerts := alerts s @ [alert_of d (next_row_id s)], next_row_id := Suc (next_row_id s)\<rparr>"
    by (simp add: insert_alert_def spent_def alert_conflict_id [of d "next_row_id s"])
  moreover have "alert_key (alert_of d (next_row_id s)) = alert_key (alert_of d 0)" by (simp add: alert_key_of)
  ultimately show ?thesis by (simp add: spent_def alert_conflict_def)
qed

lemma spent_mono: "spent d s \<Longrightarrow> policies s' = policies s \<Longrightarrow> set (alerts s) \<subseteq> set (alerts s') \<Longrightarrow> spent d s'"
  using alert_conflict_mono by (auto simp: spent_def draft_current_def)

lemma spent_fold: "d \<in> set ds \<Longrightarrow> spent d (fold insert_alert ds s)"
proof (induction ds arbitrary: s)
  case (Cons x ds)
  show ?case
  proof (cases "d \<in> set ds")
    case True
    with Cons show ?thesis by simp
  next
    case False
    with Cons.prems have "spent d (insert_alert x s)" by (simp add: spent_insert)
    moreover have "policies (fold insert_alert ds (insert_alert x s)) = policies (insert_alert x s)"
      using fold_frames(1) [of "insert_alert x s" ds] by (simp add: same_inputs_def)
    ultimately show ?thesis using spent_mono alerts_grow_fold by simp
  qed
qed simp

lemma fold_spent: "(\<And>d. d \<in> set ds \<Longrightarrow> spent d s) \<Longrightarrow> fold insert_alert ds s = s"
  by (induction ds) (auto simp: insert_spent)

lemma upsert_id: "key r \<in> key ` set rs \<Longrightarrow> upsert key (\<lambda>x. x) r rs = rs"
  by (induction rs) auto

lemma insert_failure_again: "(consumer, fail_position f) \<in> failure_key ` set (alert_failures s) \<Longrightarrow> insert_failure consumer f s = s"
  by (simp add: insert_failure_def upsert_id failure_key_def)

lemma fold_failures_again:
  "(\<And>f. f \<in> set fs \<Longrightarrow> (consumer, fail_position f) \<in> failure_key ` set (alert_failures s)) \<Longrightarrow> fold (insert_failure consumer) fs s = s"
  by (induction fs) (auto simp: insert_failure_again)

definition row_done :: "string \<Rightarrow> AlertPosition \<Rightarrow> queue_row \<Rightarrow> bool" where
  "row_done consumer p q \<longleftrightarrow>
     (q_consumer q = consumer \<and> q_occurred_at q = pos_occurred_at p \<and> q_event_id q = pos_event_id p \<longrightarrow> q_processed_at q \<noteq> None)"

lemma mark_row_done: "row_done consumer p q \<Longrightarrow> mark_row consumer now p q = q"
  by (auto simp: row_done_def mark_row_def)

lemma row_done_mark: "row_done consumer p (mark_row consumer now p q)" "row_done consumer p q \<Longrightarrow> row_done consumer p (mark_row consumer now p' q)"
  by (auto simp: row_done_def mark_row_def)

lemma rows_done:
  "p \<in> set ps \<or> list_all (row_done consumer p) qs \<Longrightarrow> list_all (row_done consumer p) (fold (\<lambda>p. map (mark_row consumer now p)) ps qs)"
proof (induction ps arbitrary: qs)
  case (Cons p' ps)
  have "p \<in> set ps \<or> list_all (row_done consumer p) (map (mark_row consumer now p') qs)"
    using Cons.prems row_done_mark by (auto simp: list_all_iff)
  from Cons.IH [OF this] show ?case by simp
qed simp

lemma marks_again:
  "(\<And>p. p \<in> set ps \<Longrightarrow> list_all (row_done consumer p) qs) \<Longrightarrow> fold (\<lambda>p. map (mark_row consumer now p)) ps qs = qs"
proof (induction ps)
  case (Cons p ps)
  then have "map (mark_row consumer now p) qs = qs" by (simp add: list_all_iff map_idI mark_row_done)
  with Cons show ?case by simp
qed simp

lemma mark_fold_again:
  assumes "\<And>p. p \<in> set ps \<Longrightarrow> list_all (row_done consumer p) (alert_queue s)"
  shows "fold (mark_processed consumer now) ps s = s"
  using assms
proof (induction ps)
  case (Cons p ps)
  then have "map (mark_row consumer now p) (alert_queue s) = alert_queue s" by (simp add: list_all_iff map_idI mark_row_done)
  then have "mark_processed consumer now p s = s" by (simp add: mark_processed_def mark_row_def [abs_def])
  with Cons show ?case by simp
qed simp

lemma advance_again: "advance_cursor consumer p (advance_cursor consumer p s) = advance_cursor consumer p s"
proof -
  define f where "f = (\<lambda>c. if cu_consumer c = consumer \<and>
      (pos_occurred_at (cu_position c), pos_event_id (cu_position c)) < (pos_occurred_at p, pos_event_id p)
    then c\<lparr>cu_position := p\<rparr> else c :: cursor_row)"
  have "f (f c) = f c" for c by (auto simp: f_def)
  then have "map f (map f cs) = map f cs" for cs by simp
  moreover have "advance_cursor consumer p s' = s'\<lparr>cursors := map f (cursors s')\<rparr>" for s'
    unfolding advance_cursor_def f_def ..
  ultimately show ?thesis by simp
qed

lemma commit_again:
  "commit_effect consumer drafts fails processed endpos now' (commit_effect consumer drafts fails processed endpos now s) =
     commit_effect consumer drafts fails processed endpos now s" (is "_ = ?s")
proof -
  have "spent d ?s" if "d \<in> set drafts" for d
    using spent_mono [OF spent_fold [OF that, of s], of ?s] commit_same_inputs [of s] fold_frames(1) [of s drafts]
    by (simp add: commit_alerts same_inputs_def)
  then have 1: "fold insert_alert drafts ?s = ?s" by (rule fold_spent)
  have 2: "fold (insert_failure consumer) fails ?s = ?s"
    by (rule fold_failures_again) (auto simp: commit_failures failure_keys_fold)
  have 3: "fold (mark_processed consumer now') processed ?s = ?s"
    by (rule mark_fold_again) (simp add: commit_queue rows_done)
  show ?thesis
    unfolding commit_effect_def [of consumer drafts fails processed endpos now' ?s] 1 2 3
    unfolding commit_effect_def by (rule advance_again)
qed

text \<open>At most one alert per policy, event and kind; at most one regression per policy and SBOM; and
  every alert belongs to a policy of its tenant.\<close>

definition alerts_inv :: "store \<Rightarrow> bool" where
  "alerts_inv s \<longleftrightarrow> distinct_key alert_key (alerts s) \<and>
     distinct_key regression_key (filter (\<lambda>a. al_kind a = KindPostureRegression) (alerts s)) \<and>
     list_all (\<lambda>a. list_ex (\<lambda>p. ap_id p = al_policy_id a \<and> ap_tenant p = al_tenant a) (policies s)) (alerts s)"

lemma alerts_inv_insert:
  assumes "alerts_inv s"
  shows "alerts_inv (insert_alert d s)"
proof (cases "spent d s")
  case True
  with assms show ?thesis by (simp add: insert_spent)
next
  case False
  let ?a = "alert_of d (next_row_id s)"
  have s': "insert_alert d s = s\<lparr>alerts := alerts s @ [?a], next_row_id := Suc (next_row_id s)\<rparr>"
    using False by (simp add: insert_alert_def spent_def alert_conflict_id [of d "next_row_id s"])
  have c: "\<not> alert_conflict ?a s" and p: "draft_current d s"
    using False by (simp_all add: spent_def alert_conflict_id [of d "next_row_id s"])
  have k: "alert_key ?a \<notin> alert_key ` set (alerts s)"
    and r: "al_kind ?a = KindPostureRegression \<Longrightarrow>
      regression_key ?a \<notin> regression_key ` set (filter (\<lambda>a. al_kind a = KindPostureRegression) (alerts s))"
    using c by (auto simp: alert_conflict_def list_ex_iff image_iff)
  have "list_ex (\<lambda>p. ap_id p = al_policy_id ?a \<and> ap_tenant p = al_tenant ?a) (policies s)"
    using p by (auto simp: draft_current_def list_ex_iff alert_of_def Let_def)
  with assms k r show ?thesis by (auto simp: alerts_inv_def s')
qed

section \<open>Properties\<close>

subsection \<open>A store to try them on\<close>

definition demo_policy :: AlertPolicy where
  "demo_policy = \<lparr>ap_id = ''p1'', ap_tenant = ''t1'', ap_enabled = True, ap_min_severity = SeverityMedium, ap_kev = True,
     ap_fix_available = True, ap_include_image = True, ap_include_db = True, ap_labels = [], ap_created_at = 0, ap_updated_at = 0\<rparr>"

definition demo_event :: finding_event where
  "demo_event = \<lparr>ev_id = 1, ev_tenant = ''t1'', ev_sbom = ''s1'', ev_scanner = ''grype'', ev_finding_id = ''f1'', ev_type = EventAdded,
     ev_exposure = ''CVE-1'', ev_package = ''openssl'', ev_version = ''3.0'', ev_severity = SeverityHigh, ev_score = 7,
     ev_prev_severity = None, ev_prev_score = None, ev_cause = CauseImage, ev_db_version = ''db1'', ev_scanner_version = ''0.9'',
     ev_run_id = 0, ev_occurred_at = 5\<rparr>"

definition demo_waiting :: store where
  "demo_waiting = empty_store\<lparr>sboms := [SBOM.extend demo_sbom \<lparr>rescan_requested_at = None\<rparr>], policies := [demo_policy],
     events := [demo_event], next_event_id := 2, next_row_id := 1,
     alert_queue := [\<lparr>q_consumer = DefaultConsumer, q_tenant = ''t1'', q_occurred_at = 5, q_event_id = 1, q_processed_at = None\<rparr>]\<rparr>"

definition demo_candidate :: AlertCandidate where
  "demo_candidate = (demo_policy, alert_event demo_event (SBOM.extend demo_sbom \<lparr>rescan_requested_at = None\<rparr>) demo_waiting)"

lemma demo_pending: "pending_candidates DefaultConsumer demo_waiting = [demo_candidate]"
proof -
  have "queue_event DefaultConsumer demo_event demo_waiting" "events demo_waiting = [demo_event]"
    "lookup_key ID (sboms demo_waiting) (ev_sbom demo_event) = Some (SBOM.extend demo_sbom \<lparr>rescan_requested_at = None\<rparr>)"
    "candidate_policy (ev_tenant demo_event) demo_waiting = demo_policy" "ev_cause demo_event = CauseImage"
    by (simp_all add: queue_event_def demo_waiting_def demo_event_def empty_store_def demo_sbom_def SBOM.defs sbom_row.defs
        candidate_policy_def policy_of_def demo_policy_def)
  then show ?thesis by (simp add: pending_candidates_def demo_candidate_def List.map_filter_simps)
qed

lemma demo_raises: "Match demo_policy (snd demo_candidate) = Inr [draft_of demo_policy (snd demo_candidate)]"
proof -
  have "MeetsThreshold SeverityHigh SeverityMedium" by code_simp
  then have "validateEvent (snd demo_candidate) = None" "raises demo_policy (snd demo_candidate)"
    by (simp_all add: demo_candidate_def alert_event_def demo_event_def validateEvent_def IsZero_def zero_time_def raises_def
        demo_policy_def causeEnabled_def labelsMatch_def match_kind_def)
  then show ?thesis by (simp add: Match_Inr)
qed

lemma read_only_None: "read_only None"
  by (simp add: read_only_def)

subsection \<open>Matching\<close>

text \<open>
  When an event raises an alert. \<open>Match\<close> drafts one alert exactly for a valid event that was
  not recorded before the policy's last change, under an enabled policy that includes the event's
  cause (the image or the vulnerability database, never tooling) and whose labels, if any, meet
  the SBOM's, and that is either a fix that became available, where the policy asks for it, or an
  added finding that is known to be exploited, where the policy asks for it, or reaches the
  policy's severity. There is never more than one draft, and resolved or re-rated findings never
  raise one.
\<close>

theorem Match_iff:
  "(\<exists>d ds. Match policy event = Inr (d # ds)) \<longleftrightarrow>
     validateEvent event = None \<and> ap_enabled policy \<and>
     (ae_cause event = CauseImage \<and> ap_include_image policy \<or> ae_cause event = CauseDB \<and> ap_include_db policy) \<and>
     (ap_labels policy = [] \<or> set (ap_labels policy) \<inter> set (ae_labels event) \<noteq> {}) \<and>
     (IsZero (ap_updated_at policy) \<or> ap_updated_at policy \<le> ae_occurred_at event) \<and>
     (ae_type event = EventFixed \<and> ap_fix_available policy \<or>
      ae_type event = EventAdded \<and> (ae_kev event \<and> ap_kev policy \<or> MeetsThreshold (ae_severity event) (ap_min_severity policy)))"
proof (cases "validateEvent event")
  case None
  have "labelsMatch ls ls' \<longleftrightarrow> ls = [] \<or> set ls \<inter> set ls' \<noteq> {}" for ls ls'
    by (auto simp: labelsMatch_def list_ex_iff)
  then show ?thesis by (simp add: Match_Inr [OF None] None raises_def causeEnabled_def match_kind_def)
next
  case (Some err)
  then show ?thesis by (simp add: Match_Inl)
qed

subsection \<open>Committing\<close>

text \<open>
  A batch can be committed again: a worker that lost the answer to its commit, or two workers
  with the same batch, leave the store as the first commit left it. Alerts are not duplicated, the
  processing times stay those of the first commit, and the cursor does not move back.
\<close>

theorem CommitAlertBatch_retry:
  assumes "CommitAlertBatch consumer drafts fails processed endpos e1 n1 s = (Inr (), m1, s1)"
    and "CommitAlertBatch consumer drafts fails processed endpos e2 n2 s1 = (r, m2, s2)"
  shows "s2 = s1"
proof (cases r)
  case (Inl err)
  with assms(2) show ?thesis using Commit_Inl by blast
next
  case (Inr u)
  with assms show ?thesis using Commit_Inr commit_again by metis
qed

theorem CommitAlertBatch_retry_witness:
  "\<exists>m1 s1 m2. CommitAlertBatch DefaultConsumer [draft_of demo_policy (snd demo_candidate)] [] [candidate_position demo_candidate]
       (candidate_position demo_candidate) (calm_env 9) 0 demo_waiting = (Inr (), m1, s1) \<and>
     CommitAlertBatch DefaultConsumer [draft_of demo_policy (snd demo_candidate)] [] [candidate_position demo_candidate]
       (candidate_position demo_candidate) (calm_env 20) 0 s1 = (Inr (), m2, s1)"
proof -
  let ?c = "CommitAlertBatch DefaultConsumer [draft_of demo_policy (snd demo_candidate)] [] [candidate_position demo_candidate]
       (candidate_position demo_candidate)"
  obtain m1 s1 where 1: "?c (calm_env 9) 0 demo_waiting = (Inr (), m1, s1)" using Commit_run [OF no_faults_calm] by blast
  obtain m2 s2 where 2: "?c (calm_env 20) 0 s1 = (Inr (), m2, s2)" using Commit_run [OF no_faults_calm] by blast
  with 1 2 CommitAlertBatch_retry [OF 1 2] show ?thesis by blast
qed

subsection \<open>Evaluation\<close>

lemma alerts_inv_same: "alerts s' = alerts s \<Longrightarrow> policies s' = policies s \<Longrightarrow> alerts_inv s' = alerts_inv s"
  by (simp add: alerts_inv_def)

lemma alerts_inv_fold: "alerts_inv s \<Longrightarrow> alerts_inv (fold insert_alert ds s)"
  by (induction ds arbitrary: s) (simp_all add: alerts_inv_insert)

lemma alerts_inv_commit:
  assumes "alerts_inv s"
  shows "alerts_inv (commit_effect consumer drafts fails processed endpos now s)"
proof -
  have "policies (commit_effect consumer drafts fails processed endpos now s) = policies (fold insert_alert drafts s)"
    using commit_same_inputs fold_frames(1) by (simp add: same_inputs_def)
  from alerts_inv_same [OF commit_alerts this] alerts_inv_fold [OF assms] show ?thesis by simp
qed

abbreviation keeps_alerts :: "store \<Rightarrow> store \<Rightarrow> bool" where
  "keeps_alerts s s' \<equiv> alerts_inv s \<longrightarrow> alerts_inv s'"

lemma keeps_alerts_commit: "db_keeps keeps_alerts (CommitAlertBatch consumer drafts fails processed endpos)"
  unfolding db_keeps_def
proof (intro allI impI)
  fix e n s r n' s' assume run: "CommitAlertBatch consumer drafts fails processed endpos e n s = (r, n', s')" and s: "alerts_inv s"
  show "alerts_inv s'"
  proof (cases r)
    case (Inl err)
    with run s show ?thesis using Commit_Inl by blast
  next
    case (Inr u)
    with run s alerts_inv_commit show ?thesis using Commit_Inr by blast
  qed
qed

lemma keeps_alerts_next: "db_keeps keeps_alerts (NextAlertEvents consumer limit)"
  unfolding NextAlertEvents_def Let_def
  by (intro db_keeps_rules) (auto simp: alerts_inv_def split: option.splits)

lemma keeps_alerts_examine_all: "read_only compare \<Longrightarrow> db_keeps keeps_alerts (examine_all compare cs b)"
  unfolding db_keeps_def using examine_all_run by (metis prod.inject)

lemma keeps_alerts_loop:
  assumes "read_only compare"
  shows "db_keeps keeps_alerts (evaluate_loop fuel compare done_at consumer batchSize res seen)"
proof (induction fuel arbitrary: res seen)
  case 0
  show ?case unfolding evaluate_loop.simps by (rule db_keeps_return) simp
next
  case (Suc fuel)
  show ?case
    unfolding evaluate_loop.simps
    by (intro db_keeps_rules keeps_alerts_next)
      (auto split: sum.split prod.split
        intro!: db_keeps_rules keeps_alerts_next keeps_alerts_commit keeps_alerts_examine_all [OF assms] Suc.IH)
qed

text \<open>
  Whatever fails during an evaluation, and however often it is run, the alert table keeps its
  shape: at most one alert per policy, event and kind, at most one regression alert per policy and
  SBOM, and every alert belongs to a policy of its own tenant.
\<close>

theorem EvaluateAlerts_inv:
  assumes "read_only compare" and "alerts_inv s"
    and "EvaluateAlerts compare done_at consumer batchSize e n s = (r, n', s')"
  shows "alerts_inv s'"
  using db_keepsD [OF keeps_alerts_loop [OF assms(1)] assms(3) [unfolded EvaluateAlerts_def Let_def]] assms(2) by blast

text \<open>
  Evaluation ends. With any failing statement, cancelled context or failing comparison, the loop
  over the batches returns: each committed batch leaves fewer waiting events, so one round per event
  and one more are enough.
\<close>

theorem EvaluateAlerts_returns:
  assumes "read_only compare"
  shows "\<exists>res err n' s'. EvaluateAlerts compare done_at consumer batchSize e n s = (Inr (Some (res, err)), n', s')"
  unfolding EvaluateAlerts_def Let_def by (rule evaluate_loop_returns [OF assms pending_fuel])

text \<open>
  C10. No alert is lost. An evaluation in which nothing fails reports no error and leaves no event
  waiting, and every event that waited is settled: if it raises an alert under the policy of its
  tenant, the alert is there, and if it is malformed, its failure is recorded.
\<close>

theorem EvaluateAlerts_drains:
  assumes "read_only compare" and "no_faults e" and "batchSize \<le> maxPageLimit" and "distinct_key ev_id (events s)"
    and "consumer \<noteq> []"
  shows "\<exists>res n' s'. EvaluateAlerts compare (\<lambda>_. None) consumer batchSize e n s = (Inr (Some (res, None)), n', s') \<and>
    pending_candidates consumer s' = [] \<and> (\<forall>c \<in> set (pending_candidates consumer s). settled consumer c s')"
proof -
  let ?b = "if batchSize \<le> 0 then DefaultBatchSize else batchSize"
  have "0 < ?b" "?b \<le> maxPageLimit" using assms(3) by simp_all
  from evaluate_loop_settles [OF assms(1,2) refl this pending_fuel [of consumer] assms(4)]
  have "\<exists>res n' s'. evaluate_loop (evaluate_fuel s) compare (\<lambda>_. None) consumer ?b \<lparr>Examined = 0, Matched = 0, Failures = 0\<rparr> [] e n s =
      (Inr (Some (res, None)), n', s') \<and> pending_candidates consumer s' = [] \<and>
      (\<forall>c \<in> set (pending_candidates consumer s). settled consumer c s')" by blast
  moreover have "(if consumer = [] then DefaultConsumer else consumer) = consumer" using assms(5) by simp
  ultimately show ?thesis unfolding EvaluateAlerts_def Let_def by (simp only:)
qed

theorem EvaluateAlerts_inv_witness:
  "\<exists>r n' s'. EvaluateAlerts None (\<lambda>_. None) DefaultConsumer 100 (calm_env 9) 0 demo_waiting = (r, n', s') \<and> alerts_inv s'"
proof -
  obtain r n' s' where 1: "EvaluateAlerts None (\<lambda>_. None) DefaultConsumer 100 (calm_env 9) 0 demo_waiting = (r, n', s')"
    by (metis prod_cases3)
  have "alerts_inv demo_waiting" by (simp add: alerts_inv_def demo_waiting_def empty_store_def)
  from EvaluateAlerts_inv [OF read_only_None this 1] 1 show ?thesis by blast
qed

theorem EvaluateAlerts_returns_witness:
  "\<exists>res err n' s'. EvaluateAlerts None (\<lambda>_. None) DefaultConsumer 100 (calm_env 9) 0 demo_waiting = (Inr (Some (res, err)), n', s')"
  by (rule EvaluateAlerts_returns [OF read_only_None])

theorem EvaluateAlerts_drains_witness:
  "\<exists>res n' s'. EvaluateAlerts None (\<lambda>_. None) DefaultConsumer 100 (calm_env 9) 0 demo_waiting = (Inr (Some (res, None)), n', s') \<and>
     pending_candidates DefaultConsumer s' = [] \<and> has_alert (draft_of demo_policy (snd demo_candidate)) s'"
proof -
  have d: "distinct_key ev_id (events demo_waiting)" by (simp add: demo_waiting_def)
  have "settled DefaultConsumer demo_candidate s' \<Longrightarrow> has_alert (draft_of demo_policy (snd demo_candidate)) s'" for s'
    using demo_raises by (simp add: settled_def demo_candidate_def)
  with EvaluateAlerts_drains [OF read_only_None no_faults_calm _ d, of 100 DefaultConsumer 9 0] show ?thesis
    by (fastforce simp: demo_pending)
qed

end
