(* ===== verification/Scan_Backoff.thy ===== *)
theory Scan_Backoff
  imports Store
begin

text \<open>
  Retry control of a pair of SBOM and scanner: \<open>pkg/data/postgres/scan_backoff.go\<close>. A failed scan
  delays the next one by a delay that doubles with every failure; after eight failures the pair
  is quarantined. The delay of the first failure is computed in Go, the others in the statement.
\<close>

section \<open>Durations\<close>

text \<open>A Go duration is a number of nanoseconds in 64 bits. The conversion of a float outside their
  range is left to the implementation by the language: \<open>oor\<close> is what the platform returns.\<close>

abbreviation int64_min :: int where "int64_min \<equiv> - (2 ^ 63)"
abbreviation int64_max :: int where "int64_max \<equiv> 2 ^ 63 - 1"

definition to_int64 :: "(int \<Rightarrow> int) \<Rightarrow> int \<Rightarrow> int" where
  "to_int64 oor x = (if int64_min \<le> x \<and> x \<le> int64_max then x else oor x)"

definition backoffBase :: int where
  "backoffBase = 30 * 60 * 1000000000"

definition backoffMax :: int where
  "backoffMax = 24 * 60 * 60 * 1000000000"

abbreviation backoffQuarantineAt :: nat where "backoffQuarantineAt \<equiv> 8"

definition backoffDelay :: "(int \<Rightarrow> int) \<Rightarrow> int \<Rightarrow> int" where
  "backoffDelay oor n =
     (if n \<le> 1 then backoffBase
      else
        (let shift = min (n - 1) 40;
             d = to_int64 oor (backoffBase * 2 ^ nat shift)
         in if d \<le> 0 \<or> d > backoffMax then backoffMax else d))"

text \<open>\<open>intervalSeconds\<close>: the text the database reads as an interval; here the interval itself, in
  microseconds.\<close>

definition intervalSeconds :: "int \<Rightarrow> int" where
  "intervalSeconds d = seconds (d div 1000000000)"

text \<open>The database's product of an interval of seconds and a number: an interval is 64 bits of
  microseconds, beyond which the statement fails with \<open>interval out of range\<close>.\<close>

definition interval_mul :: "int \<Rightarrow> int \<Rightarrow> int option" where
  "interval_mul i k = (let r = i * k in if int64_min \<le> r \<and> r \<le> int64_max then Some r else None)"

definition truncateErr :: "string \<Rightarrow> string" where
  "truncateErr s = (if length s > 1000 then take 1000 s else s)"

section \<open>Retry control of a pair\<close>

definition attempt_due :: "string \<Rightarrow> string \<Rightarrow> time \<Rightarrow> store \<Rightarrow> bool" where
  "attempt_due sbomID scanner now s =
     (case lookup_key attempt_key (attempts s) (sbomID, scanner) of
        None \<Rightarrow> True
      | Some a \<Rightarrow> \<not> at_quarantined a \<and> at_next_attempt_at a \<le> now)"

definition ScannerAttemptDue :: "string \<Rightarrow> string \<Rightarrow> (store, bool) db" where
  "ScannerAttemptDue sbomID scanner =
     db_stmt (Wrapf ''scanner attempt due: '') (\<lambda>now s. (Inr (attempt_due sbomID scanner now s), s))"

definition next_attempt :: "string \<Rightarrow> time \<Rightarrow> int \<Rightarrow> attempt_row \<Rightarrow> attempt_row" where
  "next_attempt msg now d a =
     a\<lparr>at_fail_count := at_fail_count a + 1,
       at_quarantined := at_fail_count a + 1 \<ge> backoffQuarantineAt,
       at_last_error := truncateErr msg,
       at_next_attempt_at := now + min d (intervalSeconds backoffMax),
       at_updated_at := now\<rparr>"

definition first_attempt :: "(int \<Rightarrow> int) \<Rightarrow> string \<Rightarrow> string \<Rightarrow> string \<Rightarrow> time \<Rightarrow> attempt_row" where
  "first_attempt oor sbomID scanner msg now =
     \<lparr>at_sbom = sbomID, at_scanner = scanner, at_fail_count = 1, at_quarantined = 1 \<ge> backoffQuarantineAt,
      at_last_error = truncateErr msg, at_next_attempt_at = now + intervalSeconds (backoffDelay oor 1),
      at_updated_at = now\<rparr>"

text \<open>\<open>None\<close>: the statement fails because the product is out of range.\<close>

definition attempt_failed :: "(int \<Rightarrow> int) \<Rightarrow> string \<Rightarrow> string \<Rightarrow> string \<Rightarrow> time \<Rightarrow> store \<Rightarrow> store option" where
  "attempt_failed oor sbomID scanner msg now s =
     (case lookup_key attempt_key (attempts s) (sbomID, scanner) of
        None \<Rightarrow> Some (s\<lparr>attempts := attempts s @ [first_attempt oor sbomID scanner msg now]\<rparr>)
      | Some a \<Rightarrow>
          (case interval_mul (intervalSeconds backoffBase) (2 ^ min (at_fail_count a) 40) of
             None \<Rightarrow> None
           | Some d \<Rightarrow> Some (s\<lparr>attempts := upsert attempt_key (next_attempt msg now d) a (attempts s)\<rparr>)))"

definition RecordScannerAttemptFailure :: "(int \<Rightarrow> int) \<Rightarrow> string \<Rightarrow> string \<Rightarrow> string \<Rightarrow> (store, unit) db" where
  "RecordScannerAttemptFailure oor sbomID scanner errMsg =
     db_stmt (Wrapf ''record scanner attempt failure: '') (\<lambda>now s.
       case attempt_failed oor sbomID scanner errMsg now s of
         None \<Rightarrow> (Inl (Wrapf ''record scanner attempt failure: '' (Driver ''interval out of range'')), s)
       | Some s' \<Rightarrow> (Inr (), s'))"

definition clear_attempt :: "string \<Rightarrow> string \<Rightarrow> store \<Rightarrow> store" where
  "clear_attempt sbomID scanner s =
     s\<lparr>attempts := filter (\<lambda>a. \<not> (at_sbom a = sbomID \<and> at_scanner a = scanner)) (attempts s)\<rparr>"

definition ClearScannerAttempt :: "string \<Rightarrow> string \<Rightarrow> (store, unit) db" where
  "ClearScannerAttempt sbomID scanner =
     db_stmt (Wrapf ''clear scanner attempt: '') (\<lambda>now s. (Inr (), clear_attempt sbomID scanner s))"

section \<open>The schedule\<close>

lemmas interval_defs = intervalSeconds_def backoffBase_def backoffMax_def

abbreviation attempt_at :: "string \<Rightarrow> string \<Rightarrow> store \<Rightarrow> attempt_row option" where
  "attempt_at sbomID scanner s \<equiv> lookup_key attempt_key (attempts s) (sbomID, scanner)"

text \<open>The delay the comments promise after the \<open>n\<close>-th failure: the base doubled with every failure
  and capped.\<close>

definition ideal_delay :: "nat \<Rightarrow> int" where
  "ideal_delay n = min (minutes 30 * 2 ^ (n - 1)) (hours 24)"

lemma two_power_mono: "m \<le> n \<Longrightarrow> (2 :: int) ^ m \<le> 2 ^ n"
  by (rule power_increasing) auto

lemma interval_mul_iff:
  "interval_mul (intervalSeconds backoffBase) (2 ^ k) = (if k \<le> 32 then Some (minutes 30 * 2 ^ k) else None)"
proof (cases "k \<le> 32")
  case True
  then have "(2 :: int) ^ k \<le> 2 ^ 32" by (rule two_power_mono)
  moreover have "0 < (2 :: int) ^ k" by simp
  ultimately have "- 18014398509481984 \<le> 3515625 * (2 :: int) ^ k" "3515625 * (2 :: int) ^ k \<le> 3515625 * 2 ^ 32"
    by linarith+
  with True show ?thesis by (simp add: interval_mul_def interval_defs Let_def)
next
  case False
  then have "(2 :: int) ^ 33 \<le> 2 ^ k" by (intro two_power_mono) auto
  with False show ?thesis by (simp add: interval_mul_def interval_defs Let_def)
qed

lemma attempt_at_failed:
  assumes "attempt_failed oor sbomID scanner msg now s = Some s'"
  shows "attempt_at sbomID' scanner' s' =
    (if (sbomID', scanner') = (sbomID, scanner) then
       Some (case attempt_at sbomID scanner s of
           None \<Rightarrow> first_attempt oor sbomID scanner msg now
         | Some a \<Rightarrow> next_attempt msg now (minutes 30 * 2 ^ min (at_fail_count a) 40) a)
     else attempt_at sbomID' scanner' s)"
proof (cases "attempt_at sbomID scanner s")
  case None
  with assms have s': "s' = s\<lparr>attempts := attempts s @ [first_attempt oor sbomID scanner msg now]\<rparr>"
    by (simp add: attempt_failed_def)
  then have at: "attempts s' = attempts s @ [first_attempt oor sbomID scanner msg now]" by simp
  have k: "attempt_key (first_attempt oor sbomID scanner msg now) = (sbomID, scanner)"
    by (simp add: attempt_key_def first_attempt_def)
  with None at show ?thesis by (auto simp: lookup_key_append split: option.splits)
next
  case (Some a)
  then have k: "attempt_key a = (sbomID, scanner)" by (blast dest: lookup_key_Some)
  let ?d = "minutes 30 * 2 ^ min (at_fail_count a) 40"
  have s': "s' = s\<lparr>attempts := upsert attempt_key (next_attempt msg now ?d) a (attempts s)\<rparr>"
    using assms Some by (simp add: attempt_failed_def interval_mul_iff split: if_splits)
  have "lookup_key attempt_key (upsert attempt_key (next_attempt msg now ?d) a (attempts s)) (sbomID', scanner') =
      (if (sbomID', scanner') = attempt_key a
       then Some (case lookup_key attempt_key (attempts s) (attempt_key a) of None \<Rightarrow> a | Some x \<Rightarrow> next_attempt msg now ?d x)
       else lookup_key attempt_key (attempts s) (sbomID', scanner'))"
    by (rule lookup_key_upsert_keep) (simp add: attempt_key_def next_attempt_def)
  then show ?thesis unfolding s' k Some by simp
qed

lemma backoffDelay_ideal:
  assumes "\<And>x. oor x \<le> 0 \<or> oor x > backoffMax"
  shows "intervalSeconds (backoffDelay oor (int n)) = ideal_delay n"
proof (cases "n \<le> 1")
  case True
  then show ?thesis by (cases n) (auto simp: backoffDelay_def ideal_delay_def interval_defs)
next
  case n: False
  then have s: "nat (min (int n - 1) 40) = min (n - 1) 40" by auto
  show ?thesis
  proof (cases "n - 1 \<le> 5")
    case True
    then have "(2 :: int) ^ (n - 1) \<le> 2 ^ 5" by (rule two_power_mono)
    then have "(2 :: int) ^ (n - Suc 0) \<le> 32" by simp
    moreover have "0 \<le> 439453125 * (2 :: int) ^ (n - Suc 0)" by simp
    then have "- 2251799813685248 \<le> 439453125 * (2 :: int) ^ (n - Suc 0)" by linarith
    ultimately show ?thesis
      using True n s by (simp add: backoffDelay_def ideal_delay_def interval_defs Let_def to_int64_def min_def)
  next
    case False
    then have "(2 :: int) ^ 6 \<le> 2 ^ min (n - 1) 40" "(2 :: int) ^ 6 \<le> 2 ^ (n - 1)" by (intro two_power_mono; simp)+
    with n s assms show ?thesis
      by (auto simp: backoffDelay_def ideal_delay_def interval_defs Let_def to_int64_def min_def)
  qed
qed
text \<open>Consecutive failures of one pair: the messages and the times at which they are recorded.\<close>

fun failures_in_a_row :: "(int \<Rightarrow> int) \<Rightarrow> string \<Rightarrow> string \<Rightarrow> (string \<times> time) list \<Rightarrow> store \<Rightarrow> store option" where
  "failures_in_a_row oor sbomID scanner [] s = Some s"
| "failures_in_a_row oor sbomID scanner ((msg, now) # fs) s =
     (case attempt_failed oor sbomID scanner msg now s of
        None \<Rightarrow> None
      | Some s' \<Rightarrow> failures_in_a_row oor sbomID scanner fs s')"

lemma failures_snoc:
  "failures_in_a_row oor sbomID scanner (fs @ [(msg, now)]) s =
     (case failures_in_a_row oor sbomID scanner fs s of None \<Rightarrow> None | Some s' \<Rightarrow> attempt_failed oor sbomID scanner msg now s')"
  by (induction fs arbitrary: s) (auto split: option.splits)

lemma min_delay: "min (1800000000 * 2 ^ min n 40) (intervalSeconds backoffMax) = ideal_delay (Suc n)"
proof (cases "n \<le> 40")
  case True
  then show ?thesis by (simp add: ideal_delay_def interval_defs)
next
  case False
  then have "(2 :: int) ^ 40 \<le> 2 ^ n" by (intro two_power_mono) simp
  with False show ?thesis by (simp add: ideal_delay_def interval_defs)
qed

lemma failures_schedule:
  assumes "attempt_at sbomID scanner s = None" and "fs \<noteq> []" and "length fs \<le> 33"
  shows "\<exists>s' a. failures_in_a_row oor sbomID scanner fs s = Some s' \<and> attempt_at sbomID scanner s' = Some a \<and>
    at_fail_count a = length fs \<and> (at_quarantined a \<longleftrightarrow> length fs \<ge> backoffQuarantineAt) \<and>
    at_next_attempt_at a = snd (last fs) + ideal_delay (length fs)"
  using assms(2,3)
proof (induction fs rule: rev_induct)
  case Nil
  then show ?case by simp
next
  case (snoc f fs)
  obtain msg now where f: "f = (msg, now)" by fastforce
  show ?case
  proof (cases "fs = []")
    case True
    obtain s1 where s1: "attempt_failed oor sbomID scanner msg now s = Some s1"
      using assms(1) by (simp add: attempt_failed_def)
    have "attempt_at sbomID scanner s1 = Some (first_attempt oor sbomID scanner msg now)"
      using attempt_at_failed [OF s1, of sbomID scanner] assms(1) by simp
    with s1 True show ?thesis by (simp add: f first_attempt_def ideal_delay_def interval_defs backoffDelay_def)
  next
    case False
    with snoc obtain s1 a where 1: "failures_in_a_row oor sbomID scanner fs s = Some s1" "attempt_at sbomID scanner s1 = Some a"
      "at_fail_count a = length fs" by auto
    then obtain s2 where 2: "attempt_failed oor sbomID scanner msg now s1 = Some s2"
      using snoc.prems by (simp add: attempt_failed_def interval_mul_iff)
    have "attempt_at sbomID scanner s2 = Some (next_attempt msg now (minutes 30 * 2 ^ min (length fs) 40) a)"
      using attempt_at_failed [OF 2, of sbomID scanner] 1 by simp
    then show ?thesis
      using 1 2 by (simp add: f failures_snoc next_attempt_def min_delay)
  qed
qed

section \<open>Properties of the retry control\<close>

text \<open>
  After \<open>k\<close> consecutive failures of a pair that had no retry state, the pair is next attempted
  \<open>30 min * 2^(k-1)\<close> after the last one, at most 24 hours, and is quarantined from the eighth
  failure on.
\<close>

theorem backoff_schedule:
  assumes "attempt_at sbomID scanner s = None" and "fs \<noteq> []" and "length fs \<le> 33"
  shows "\<exists>s'. failures_in_a_row oor sbomID scanner fs s = Some s' \<and>
    (\<forall>t. attempt_due sbomID scanner t s' \<longleftrightarrow>
       length fs < 8 \<and> snd (last fs) + min (minutes 30 * 2 ^ (length fs - 1)) (hours 24) \<le> t)"
  using failures_schedule [OF assms, of oor] by (auto simp: attempt_due_def ideal_delay_def)

theorem backoff_schedule_witness:
  "\<exists>s'. failures_in_a_row (\<lambda>_. 0) ''s1'' ''grype'' [(''boom'', 0), (''boom'', minutes 40)] empty_store = Some s' \<and>
     attempt_due ''s1'' ''grype'' (minutes 100) s' \<and> \<not> attempt_due ''s1'' ''grype'' (minutes 99) s'"
  using backoff_schedule [where sbomID = "''s1''" and scanner = "''grype''" and s = empty_store and oor = "\<lambda>_. 0"
    and fs = "[(''boom'', 0), (''boom'', minutes 40)]"]
  by (auto simp: empty_store_def)

text \<open>
  The delay computed in Go and the one computed in the statement agree: on a platform whose
  conversion of an out-of-range float is not a positive duration of at most a day,
  \<open>backoffDelay(n)\<close> is, for every \<open>n\<close>, the base doubled \<open>n - 1\<close> times and capped, which is the delay
  the statement adds for the \<open>n\<close>-th failure as long as its product is in range.
\<close>

theorem backoffDelay_matches_statement:
  assumes "\<And>x. oor x \<le> 0 \<or> oor x > backoffMax" and "interval_mul (intervalSeconds backoffBase) (2 ^ min n 40) = Some d"
  shows "intervalSeconds (backoffDelay oor (int (Suc n))) = min d (intervalSeconds backoffMax)"
proof -
  from assms(2) have "d = minutes 30 * 2 ^ min n 40" by (simp add: interval_mul_iff split: if_splits)
  then show ?thesis using backoffDelay_ideal [OF assms(1), where n = "Suc n"] min_delay [of n] by simp
qed

theorem backoffDelay_matches_statement_witness:
  "intervalSeconds (backoffDelay (\<lambda>_. int64_min) 6) = min (minutes 960) (intervalSeconds backoffMax) \<and>
   intervalSeconds (backoffDelay (\<lambda>_. int64_min) 30) = hours 24"
  using backoffDelay_matches_statement [of "\<lambda>_. int64_min" 5 "minutes 960"]
    backoffDelay_matches_statement [of "\<lambda>_. int64_min" 29 "minutes (30 * 2 ^ 29)"]
  by (simp add: interval_mul_def interval_defs)

text \<open>
  From the thirty-fourth consecutive failure on, recording a failure is itself an error: the
  statement multiplies the base by \<open>2^33\<close> or more, which is out of the range of an interval, so the
  row keeps its count and its times. The pair is quarantined long before.
\<close>

theorem attempt_overflow:
  assumes "attempt_at sbomID scanner s = Some a" and "at_fail_count a \<ge> 33" and "fault e n = None"
  shows "RecordScannerAttemptFailure oor sbomID scanner msg e n s =
    (Inl (Wrapf ''record scanner attempt failure: '' (Driver ''interval out of range'')), Suc n, s)"
proof -
  have "attempt_failed oor sbomID scanner msg now s = None" for now
    using assms(1,2) by (simp add: attempt_failed_def interval_mul_iff)
  then show ?thesis using assms(3) by (simp add: RecordScannerAttemptFailure_def db_stmt_def)
qed

definition demo_attempt :: "nat \<Rightarrow> attempt_row" where
  "demo_attempt k = \<lparr>at_sbom = ''s1'', at_scanner = ''grype'', at_fail_count = k, at_quarantined = k \<ge> 8,
     at_last_error = ''boom'', at_next_attempt_at = 0, at_updated_at = 0\<rparr>"

theorem attempt_overflow_witness:
  "RecordScannerAttemptFailure (\<lambda>_. 0) ''s1'' ''grype'' ''boom'' (calm_env 0) 0 (empty_store\<lparr>attempts := [demo_attempt 33]\<rparr>) =
    (Inl (Wrapf ''record scanner attempt failure: '' (Driver ''interval out of range'')), 1, empty_store\<lparr>attempts := [demo_attempt 33]\<rparr>)"
  using attempt_overflow [where sbomID = "''s1''" and scanner = "''grype''" and e = "calm_env 0" and n = 0 and a = "demo_attempt 33"
    and s = "empty_store\<lparr>attempts := [demo_attempt 33]\<rparr>"]
  by (simp add: demo_attempt_def attempt_key_def)

end
