(* ===== verification/Sbom_Store.thy ===== *)
theory Sbom_Store
  imports Scan_Backoff
begin

text \<open>
  The life of an SBOM row: \<open>pkg/data/postgres/sbom.go\<close>, with the archive operations of \<open>read.go\<close>,
  \<open>AdminRequestRescan\<close> of \<open>admin.go\<close> and the package inventory of \<open>postgres/license.go\<close>. An SBOM is
  inserted pending under two quotas, activated once its bytes are stored, selected for scanning
  while it is active and due, and archived in the end.

  Accounts are the rows of \<open>tenants\<close>; locking the account row serialises the operations of one
  account, which here run one after the other.
\<close>

section \<open>Accounts\<close>

definition account_gate :: "string \<Rightarrow> store \<Rightarrow> unit result" where
  "account_gate accountID s =
     (case lookup_key tn_id (tenants s) accountID of
        None \<Rightarrow> Inl ErrNotFound
      | Some t \<Rightarrow> if tn_status t \<noteq> ''active'' then Inl ErrAccountInactive else Inr ())"

definition lockAccountForSBOMMutation :: "string \<Rightarrow> (store, unit) db" where
  "lockAccountForSBOMMutation accountID =
     db_stmt (Wrapf ''lock account for SBOM mutation: '') (\<lambda>t s. (account_gate accountID s, s))"

section \<open>Submission\<close>

definition defaultStr :: "string \<Rightarrow> string \<Rightarrow> string" where
  "defaultStr s def_val = (if s = [] then def_val else s)"

definition natural_key :: "sbom_row \<Rightarrow> string \<times> string \<times> string" where
  "natural_key r = (TenantID r, Digest r, Format r)"

definition live :: "string \<Rightarrow> sbom_row \<Rightarrow> bool" where
  "live tenant r = (TenantID r = tenant \<and> (Status r = ''active'' \<or> Status r = ''pending''))"

definition active_in :: "string \<Rightarrow> sbom_row \<Rightarrow> bool" where
  "active_in tenant r = (TenantID r = tenant \<and> Status r = ''active'')"

definition count_live :: "string \<Rightarrow> store \<Rightarrow> nat" where
  "count_live tenant s = length (filter (live tenant) (sboms s))"

definition count_repos :: "string \<Rightarrow> store \<Rightarrow> nat" where
  "count_repos tenant s = count_distinct (map Repository (filter (active_in tenant) (sboms s)))"

definition repo_tracked :: "string \<Rightarrow> string \<Rightarrow> store \<Rightarrow> bool" where
  "repo_tracked tenant repo s = list_ex (\<lambda>r. active_in tenant r \<and> Repository r = repo) (sboms s)"

definition stored :: "SBOM \<Rightarrow> store \<Rightarrow> bool" where
  "stored sb s = list_ex (\<lambda>r. natural_key r = (TenantID sb, Digest sb, Format sb)) (sboms s)"

text \<open>The \<open>WHERE\<close> of the insert.\<close>

definition admits :: "SBOM \<Rightarrow> int \<Rightarrow> int \<Rightarrow> store \<Rightarrow> bool" where
  "admits sb maxSBOMs maxRepos s =
     (stored sb s \<or>
      (maxSBOMs \<le> 0 \<or> int (count_live (TenantID sb) s) < maxSBOMs) \<and>
      (maxRepos \<le> 0 \<or> repo_tracked (TenantID sb) (Repository sb) s \<or> int (count_repos (TenantID sb) s) < maxRepos))"

definition new_row :: "SBOM \<Rightarrow> time \<Rightarrow> sbom_row" where
  "new_row sb now =
     \<lparr>ID = ID sb, TenantID = TenantID sb, ImageRef = ImageRef sb, Repository = Repository sb,
      SBOMVersion = SBOMVersion sb, Digest = Digest sb, Format = Format sb, SpecVersion = SpecVersion sb,
      Tool = Tool sb, ToolVersion = ToolVersion sb, PackageCount = PackageCount sb, ObjectPath = ObjectPath sb,
      VerificationStatus = defaultStr (VerificationStatus sb) ''unverified'',
      Status = defaultStr (Status sb) ''pending'', Labels = Labels sb, GeneratedAt = GeneratedAt sb,
      SubmittedAt = now, rescan_requested_at = None\<rparr>"

text \<open>\<open>DO UPDATE\<close>: an absent version keeps the stored one, and the labels are united (a distinct
  aggregate, in sorted order).\<close>

definition resubmit :: "SBOM \<Rightarrow> sbom_row \<Rightarrow> sbom_row" where
  "resubmit sb r =
     r\<lparr>SBOMVersion := (if SBOMVersion sb = [] then SBOMVersion r else SBOMVersion sb),
       Labels := sort (remdups (Labels r @ Labels sb))\<rparr>"

type_synonym upsert_result = "string \<times> bool \<times> string"

text \<open>\<open>None\<close>: no row is admitted. The primary key can only be violated by a row under another
  natural key.\<close>

definition insert_sbom :: "SBOM \<Rightarrow> int \<Rightarrow> int \<Rightarrow> time \<Rightarrow> store \<Rightarrow> (go_error + upsert_result option) \<times> store" where
  "insert_sbom sb maxSBOMs maxRepos now s =
     (if \<not> admits sb maxSBOMs maxRepos s then (Inr None, s)
      else
        (case lookup_key natural_key (sboms s) (TenantID sb, Digest sb, Format sb) of
           Some r \<Rightarrow>
             (Inr (Some (ID r, False, Status r)), s\<lparr>sboms := upsert natural_key (resubmit sb) r (sboms s)\<rparr>)
         | None \<Rightarrow>
             if list_ex (\<lambda>r. ID r = ID sb) (sboms s)
             then (Inl (Wrapf ''upsert sbom: '' (Driver ''duplicate key value violates unique constraint'')), s)
             else (Inr (Some (ID sb, True, Status (new_row sb now))), s\<lparr>sboms := sboms s @ [new_row sb now]\<rparr>)))"

text \<open>The rejection path: a failed probe is not reported but counts as the SBOM limit.\<close>

definition reject_upsert :: "SBOM \<Rightarrow> int \<Rightarrow> (store, upsert_result) db" where
  "reject_upsert sb maxRepos =
     (if maxRepos > 0 then
        db_bind (db_try (db_stmt (\<lambda>err. err) (\<lambda>t s. (Inr (repo_tracked (TenantID sb) (Repository sb) s), s)))) (\<lambda>r.
        case r of
          Inr repoExists \<Rightarrow> if \<not> repoExists then db_fail ErrImageLimit else db_fail ErrSBOMLimit
        | Inl perr \<Rightarrow> db_fail ErrSBOMLimit)
      else db_fail ErrSBOMLimit)"

definition UpsertSBOMWithLimit :: "SBOM \<Rightarrow> int \<Rightarrow> int \<Rightarrow> (store, upsert_result) db" where
  "UpsertSBOMWithLimit sb maxSBOMs maxRepos =
     db_tx ''begin SBOM upsert: '' (\<lambda>tx_now.
       db_bind (lockAccountForSBOMMutation (TenantID sb)) (\<lambda>_.
       db_bind (db_stmt (Wrapf ''upsert sbom: '') (\<lambda>t. insert_sbom sb maxSBOMs maxRepos tx_now)) (\<lambda>r.
       case r of Some x \<Rightarrow> db_return x | None \<Rightarrow> reject_upsert sb maxRepos)))
     ''commit SBOM upsert: ''"

definition UpsertSBOM :: "SBOM \<Rightarrow> (store, upsert_result) db" where
  "UpsertSBOM sb = UpsertSBOMWithLimit sb 0 0"

section \<open>Activation, archiving and cleanup\<close>

definition set_status :: "string \<Rightarrow> (sbom_row \<Rightarrow> bool) \<Rightarrow> store \<Rightarrow> store" where
  "set_status st p s = s\<lparr>sboms := map (\<lambda>r. if p r then r\<lparr>Status := st\<rparr> else r) (sboms s)\<rparr>"

definition activatable :: "string \<Rightarrow> string \<Rightarrow> sbom_row \<Rightarrow> bool" where
  "activatable tenantID sid r = (ID r = sid \<and> Status r = ''pending'' \<and> (tenantID = [] \<or> TenantID r = tenantID))"

definition owned :: "string \<Rightarrow> string \<Rightarrow> store \<Rightarrow> bool" where
  "owned tenantID sid s = list_ex (\<lambda>r. ID r = sid \<and> TenantID r = tenantID) (sboms s)"

definition activateSBOM :: "string \<Rightarrow> string \<Rightarrow> (store, bool) db" where
  "activateSBOM tenantID sid =
     db_bind (db_stmt (Wrapf ''activate sbom: '') (\<lambda>t s.
       (Inr (length (filter (activatable tenantID sid) (sboms s))), set_status ''active'' (activatable tenantID sid) s))) (\<lambda>n.
     if n > 0 then db_return True
     else
       db_bind (db_stmt (Wrapf ''check SBOM activation target: '') (\<lambda>t s. (Inr (owned tenantID sid s), s))) (\<lambda>ex.
       if \<not> ex then db_fail ErrNotFound else db_return False))"

definition ActivateSBOM :: "string \<Rightarrow> string \<Rightarrow> (store, unit) db" where
  "ActivateSBOM accountID sid =
     db_tx ''begin SBOM activation: '' (\<lambda>tx_now.
       db_bind (lockAccountForSBOMMutation accountID) (\<lambda>_.
       db_bind (activateSBOM accountID sid) (\<lambda>_. db_return ())))
     ''commit SBOM activation: ''"

definition archivable :: "string \<Rightarrow> string \<Rightarrow> sbom_row \<Rightarrow> bool" where
  "archivable tenantID sid r = (ID r = sid \<and> TenantID r = tenantID \<and> Status r \<noteq> ''archived'')"

definition archiveSBOM :: "string \<Rightarrow> string \<Rightarrow> (store, bool) db" where
  "archiveSBOM tenantID sid =
     db_bind (db_stmt (Wrapf ''archive sbom: '') (\<lambda>t s.
       (Inr (length (filter (archivable tenantID sid) (sboms s))), set_status ''archived'' (archivable tenantID sid) s))) (\<lambda>n.
     if n = 0 then
       db_bind (db_stmt (Wrapf ''check sbom owner: '') (\<lambda>t s. (Inr (owned tenantID sid s), s))) (\<lambda>ex.
       if \<not> ex then db_fail ErrNotFound else db_return False)
     else db_return True)"

definition archiveRepo :: "string \<Rightarrow> string \<Rightarrow> (store, nat) db" where
  "archiveRepo tenantID repo =
     db_stmt (Wrapf ''archive repo: '') (\<lambda>t s.
       let p = (\<lambda>r. active_in tenantID r \<and> Repository r = repo) in
       (Inr (length (filter p (sboms s))), set_status ''archived'' p s))"

text \<open>Deleting SBOM rows deletes what references them (\<open>ON DELETE CASCADE\<close>); the event log has no
  reference and keeps its rows.\<close>

definition delete_sboms :: "(sbom_row \<Rightarrow> bool) \<Rightarrow> store \<Rightarrow> store" where
  "delete_sboms p s =
     (let gone = map ID (filter p (sboms s))  in
      s\<lparr>sboms := filter (\<lambda>r. \<not> p r) (sboms s), scan_runs := filter (\<lambda>r. run_sbom r \<notin> set gone) (scan_runs s),
        findings := filter (\<lambda>r. f_sbom r \<notin> set gone) (findings s), rollups := filter (\<lambda>r. ro_sbom r \<notin> set gone) (rollups s),
        attempts := filter (\<lambda>r. at_sbom r \<notin> set gone) (attempts s), packages := filter (\<lambda>r. pk_sbom r \<notin> set gone) (packages s),
        alerts := filter (\<lambda>r. al_sbom r \<notin> set gone) (alerts s)\<rparr>)"

definition DeletePendingSBOM :: "string \<Rightarrow> string \<Rightarrow> (store, unit) db" where
  "DeletePendingSBOM accountID sid =
     db_stmt (Wrapf ''delete pending sbom: '') (\<lambda>t s.
       (Inr (), delete_sboms (\<lambda>r. TenantID r = accountID \<and> ID r = sid \<and> Status r = ''pending'') s))"

section \<open>Rescan requests\<close>

definition set_rescan :: "string \<Rightarrow> time option \<Rightarrow> store \<Rightarrow> store" where
  "set_rescan sid requested s = s\<lparr>sboms := map (\<lambda>r. if ID r = sid then r\<lparr>rescan_requested_at := requested\<rparr> else r) (sboms s)\<rparr>"

definition ClearRescanRequested :: "string \<Rightarrow> (store, unit) db" where
  "ClearRescanRequested sid =
     db_stmt (Wrapf ''clear rescan marker: '') (\<lambda>t s. (Inr (), set_rescan sid None s))"

text \<open>\<open>sql.ErrNoRows\<close> of the driver is an error like any other here.\<close>

abbreviation ErrNoRows :: go_error where "ErrNoRows \<equiv> Driver ''sql: no rows in result set''"

definition AdminRequestRescan :: "string \<Rightarrow> (store, unit) db" where
  "AdminRequestRescan sid =
     db_tx ''begin rescan tx: '' (\<lambda>tx_now.
       db_bind (db_stmt (Wrapf ''request rescan: '') (\<lambda>t s.
         (Inr (length (filter (\<lambda>r. ID r = sid) (sboms s))), set_rescan sid (Some tx_now) s))) (\<lambda>n.
       if n = 0 then db_fail ErrNoRows
       else db_stmt (Wrapf ''clear scan backoff on rescan: '') (\<lambda>t s.
         (Inr (), s\<lparr>attempts := filter (\<lambda>a. at_sbom a \<noteq> sid) (attempts s)\<rparr>))))
     []"

section \<open>Work selection\<close>

definition has_recent_run :: "interval \<Rightarrow> time \<Rightarrow> string \<Rightarrow> string \<Rightarrow> store \<Rightarrow> bool" where
  "has_recent_run window now sid sc s =
     list_ex (\<lambda>r. run_sbom r = sid \<and> run_scanner r = sc \<and> scanned_at r > now - window) (scan_runs s)"

definition backing_off :: "time \<Rightarrow> string \<Rightarrow> string \<Rightarrow> store \<Rightarrow> bool" where
  "backing_off now sid sc s =
     list_ex (\<lambda>a. at_sbom a = sid \<and> at_scanner a = sc \<and> (at_quarantined a \<or> at_next_attempt_at a > now)) (attempts s)"

definition outstanding :: "interval \<Rightarrow> time \<Rightarrow> string \<Rightarrow> store \<Rightarrow> string \<Rightarrow> bool" where
  "outstanding window now sid s sc = (\<not> has_recent_run window now sid sc s \<and> \<not> backing_off now sid sc s)"

definition scannable :: "duration \<Rightarrow> string list \<Rightarrow> time \<Rightarrow> store \<Rightarrow> sbom_row \<Rightarrow> bool" where
  "scannable maxAge expected now s r =
     (Status r = ''active'' \<and>
      (maxAge > 0 \<and> expected \<noteq> [] \<longrightarrow>
         rescan_requested_at r \<noteq> None \<or> list_ex (outstanding (intervalSeconds maxAge) now (ID r) s) expected))"

text \<open>The columns the query selects; the other fields of the struct keep their zero values.\<close>

definition listed :: "sbom_row \<Rightarrow> SBOM" where
  "listed r =
     \<lparr>ID = ID r, TenantID = TenantID r, ImageRef = ImageRef r, Repository = [], SBOMVersion = [], Digest = Digest r,
      Format = Format r, SpecVersion = SpecVersion r, Tool = Tool r, ToolVersion = ToolVersion r,
      PackageCount = PackageCount r, ObjectPath = ObjectPath r, VerificationStatus = VerificationStatus r,
      Status = Status r, Labels = [], GeneratedAt = zero_time, SubmittedAt = SubmittedAt r\<rparr>"

definition list_scannable :: "duration \<Rightarrow> string list \<Rightarrow> time \<Rightarrow> store \<Rightarrow> SBOM list" where
  "list_scannable maxAge expected now s =
     map listed (sort_key SubmittedAt (filter (scannable maxAge expected now s) (sboms s)))"

definition ListScannableSBOMs :: "duration \<Rightarrow> string list \<Rightarrow> (store, SBOM list) db" where
  "ListScannableSBOMs maxAge expected =
     db_stmt (Wrapf ''list scannable sboms: '') (\<lambda>now s. (Inr (list_scannable maxAge expected now s), s))"

definition ListActiveSBOMs :: "(store, SBOM list) db" where
  "ListActiveSBOMs = ListScannableSBOMs 0 []"

section \<open>Failures and packages\<close>

text \<open>The error of the insert is dropped; \<open>occurred_at\<close> defaults to the clock.\<close>

definition RecordScanFailure :: "string \<Rightarrow> string \<Rightarrow> string \<Rightarrow> go_error option \<Rightarrow> (store, unit) db" where
  "RecordScanFailure sid sc stage cause =
     db_ignore (db_stmt (\<lambda>err. err) (\<lambda>t s.
       (Inr (), s\<lparr>failures := failures s @ [\<lparr>sf_sbom = sid, sf_scanner = sc, sf_stage = stage,
          sf_error = (case cause of None \<Rightarrow> [] | Some c \<Rightarrow> Error c), sf_occurred_at = t\<rparr>]\<rparr>)))"

definition HasSBOMPackages :: "string \<Rightarrow> (store, bool) db" where
  "HasSBOMPackages sid =
     db_stmt (Wrapf ''check sbom packages: '') (\<lambda>t s. (Inr (list_ex (\<lambda>p. pk_sbom p = sid) (packages s)), s))"

definition package_key :: "package_row \<Rightarrow> string \<times> string \<times> string" where
  "package_key p = (pk_sbom p, pl_package (pk_license p), pl_version (pk_license p))"

definition insertPackageChunk :: "string \<Rightarrow> PackageLicense list \<Rightarrow> (store, unit) db" where
  "insertPackageChunk sid pkgs =
     db_stmt (Wrapf ''insert package chunk: '') (\<lambda>t s.
       (Inr (), s\<lparr>packages := foldl (\<lambda>rows p. upsert package_key (\<lambda>x. x) \<lparr>pk_sbom = sid, pk_license = p\<rparr> rows) (packages s) pkgs\<rparr>))"

function chunks :: "nat \<Rightarrow> 'a list \<Rightarrow> 'a list list" where
  "chunks k xs = (if xs = [] \<or> k = 0 then [] else take k xs # chunks k (drop k xs))"
  by pat_completeness auto

termination by (relation "measure (\<lambda>(k, xs). length xs)") auto

declare chunks.simps [simp del]

abbreviation licenseInsertChunk :: nat where "licenseInsertChunk \<equiv> 1000"

definition UpsertSBOMPackages :: "string \<Rightarrow> PackageLicense list \<Rightarrow> (store, unit) db" where
  "UpsertSBOMPackages sid pkgs =
     (if pkgs = [] then db_return ()
      else db_tx ''begin packages tx: '' (\<lambda>_. db_foreach (chunks licenseInsertChunk pkgs) (insertPackageChunk sid)) [])"

section \<open>The life cycle\<close>

text \<open>The columns that never change once a row is inserted.\<close>

definition content :: "sbom_row \<Rightarrow> string list \<times> int \<times> time \<times> time" where
  "content r = ([ID r, TenantID r, ImageRef r, Repository r, Digest r, Format r, SpecVersion r, Tool r, ToolVersion r,
     ObjectPath r, VerificationStatus r], PackageCount r, GeneratedAt r, SubmittedAt r)"

text \<open>What may happen to a row that is no longer pending: it stays or is archived.\<close>

definition evolves :: "sbom_row \<Rightarrow> sbom_row \<Rightarrow> bool" where
  "evolves r r' = (content r' = content r \<and> (Status r' = Status r \<or> Status r' = ''archived''))"

definition evolved :: "store \<Rightarrow> store \<Rightarrow> bool" where
  "evolved s s' = (\<forall>r \<in> set (sboms s). Status r \<noteq> ''pending'' \<longrightarrow> (\<exists>r' \<in> set (sboms s'). evolves r r'))"

lemma evolves_refl [simp]: "evolves r r"
  by (simp add: evolves_def)

lemma evolvedI:
  "(\<And>r. r \<in> set (sboms s) \<Longrightarrow> Status r \<noteq> ''pending'' \<Longrightarrow> \<exists>r' \<in> set (sboms s'). evolves r r') \<Longrightarrow> evolved s s'"
  by (simp add: evolved_def)

lemma evolved_same: "sboms s' = sboms s \<Longrightarrow> evolved s s'"
  by (intro evolvedI) (metis evolves_refl)

lemma evolved_refl [simp]: "evolved s s"
  by (rule evolved_same) simp

lemma evolved_map:
  assumes "sboms s' = map f (sboms s)" and "\<And>r. Status r \<noteq> ''pending'' \<Longrightarrow> evolves r (f r)"
  shows "evolved s s'"
  using assms by (intro evolvedI) auto

lemma evolved_trans:
  assumes "evolved s s'" and "evolved s' s''"
  shows "evolved s s''"
  unfolding evolved_def
proof (intro ballI impI)
  fix r assume "r \<in> set (sboms s)" and p: "Status r \<noteq> ''pending''"
  with assms(1) obtain r' where 1: "r' \<in> set (sboms s')" "evolves r r'" by (auto simp: evolved_def)
  with p have "Status r' \<noteq> ''pending''" by (auto simp: evolves_def)
  with 1(1) assms(2) obtain r'' where "r'' \<in> set (sboms s'')" "evolves r' r''" by (auto simp: evolved_def)
  with 1(2) show "\<exists>r'' \<in> set (sboms s''). evolves r r''" by (auto simp: evolves_def)
qed

text \<open>One call of an operation on SBOM rows, by anyone, whatever its result.\<close>

inductive sbom_step :: "store \<Rightarrow> store \<Rightarrow> bool" where
  upsert: "UpsertSBOMWithLimit sb a b e n s = (r, n', s') \<Longrightarrow> sbom_step s s'"
| activate: "ActivateSBOM acc sid e n s = (u, n', s') \<Longrightarrow> sbom_step s s'"
| archive: "archiveSBOM acc sid e n s = (c, n', s') \<Longrightarrow> sbom_step s s'"
| archive_repo: "archiveRepo acc repo e n s = (k, n', s') \<Longrightarrow> sbom_step s s'"
| delete_pending: "DeletePendingSBOM acc sid e n s = (u, n', s') \<Longrightarrow> sbom_step s s'"
| request_rescan: "AdminRequestRescan sid e n s = (u, n', s') \<Longrightarrow> sbom_step s s'"
| clear_rescan: "ClearRescanRequested sid e n s = (u, n', s') \<Longrightarrow> sbom_step s s'"

lemma evolved_set_status:
  "st = ''archived'' \<or> (\<forall>r. p r \<longrightarrow> Status r = ''pending'') \<Longrightarrow> evolved s (set_status st p s)"
  by (rule evolved_map [where f = "\<lambda>r. if p r then r\<lparr>Status := st\<rparr> else r"]) (auto simp: set_status_def evolves_def content_def)

lemma evolved_set_rescan: "evolved s (set_rescan sid m s)"
  by (rule evolved_map [where f = "\<lambda>r. if ID r = sid then r\<lparr>rescan_requested_at := m\<rparr> else r"])
     (auto simp: set_rescan_def evolves_def content_def)

lemma evolved_delete: "(\<And>r. p r \<Longrightarrow> Status r = ''pending'') \<Longrightarrow> evolved s (delete_sboms p s)"
  using evolves_refl by (intro evolvedI) (fastforce simp: delete_sboms_def Let_def)

lemma evolved_insert: "evolved s (snd (insert_sbom sb a b t s))"
proof -
  have e: "evolves r (resubmit sb r)" for r by (simp add: evolves_def content_def resubmit_def)
  have c: "\<exists>r' \<in> set (upsert natural_key (resubmit sb) x rs). evolves r r'" if "r \<in> set rs" for r x rs
    using upsert_covers [OF that, where key = natural_key and upd = "resubmit sb" and r = x] e [of r] evolves_refl [of r]
    by (elim disjE conjE) (erule bexI [rotated], assumption)+
  have "evolved s (s\<lparr>sboms := upsert natural_key (resubmit sb) x (sboms s)\<rparr>)" for x
    by (rule evolvedI) (simp add: c)
  moreover have "evolved s (s\<lparr>sboms := sboms s @ [x]\<rparr>)" for x
    by (rule evolvedI) (simp, metis evolves_refl)
  ultimately show ?thesis by (auto simp: insert_sbom_def split: option.splits)
qed

lemmas evolved_rules = db_keeps_return db_keeps_fail db_keeps_stmt db_keeps_bind [OF evolved_trans] db_keeps_tx
  db_keeps_try evolved_insert evolved_set_rescan evolved_refl

lemma sbom_step_evolved: "sbom_step s s' \<Longrightarrow> evolved s s'"
proof (induction rule: sbom_step.induct)
  case (upsert sb a b e n s r n' s')
  have "db_keeps evolved (UpsertSBOMWithLimit sb a b)"
    unfolding UpsertSBOMWithLimit_def lockAccountForSBOMMutation_def reject_upsert_def
    by (auto intro!: evolved_rules split: option.splits sum.splits)
  then show ?case using upsert by (rule db_keepsD)
next
  case (activate acc sid e n s u n' s')
  have "db_keeps evolved (ActivateSBOM acc sid)"
    unfolding ActivateSBOM_def activateSBOM_def lockAccountForSBOMMutation_def
    by (auto intro!: evolved_rules evolved_set_status simp: activatable_def)
  then show ?case using activate by (rule db_keepsD)
next
  case (archive acc sid e n s c n' s')
  have "db_keeps evolved (archiveSBOM acc sid)"
    unfolding archiveSBOM_def by (auto intro!: evolved_rules evolved_set_status)
  then show ?case using archive by (rule db_keepsD)
next
  case (archive_repo acc repo e n s k n' s')
  have "db_keeps evolved (archiveRepo acc repo)"
    unfolding archiveRepo_def by (auto intro!: evolved_rules evolved_set_status simp: Let_def)
  then show ?case using archive_repo by (rule db_keepsD)
next
  case (delete_pending acc sid e n s u n' s')
  have "db_keeps evolved (DeletePendingSBOM acc sid)"
    unfolding DeletePendingSBOM_def by (auto intro!: evolved_rules evolved_delete)
  then show ?case using delete_pending by (rule db_keepsD)
next
  case (request_rescan sid e n s u n' s')
  have "evolved s (s\<lparr>attempts := as\<rparr>)" for s as by (rule evolved_same) simp
  then have "db_keeps evolved (AdminRequestRescan sid)"
    unfolding AdminRequestRescan_def by (auto intro!: evolved_rules)
  then show ?case using request_rescan by (rule db_keepsD)
next
  case (clear_rescan sid e n s u n' s')
  have "db_keeps evolved (ClearRescanRequested sid)"
    unfolding ClearRescanRequested_def by (auto intro!: evolved_rules)
  then show ?case using clear_rescan by (rule db_keepsD)
qed

section \<open>Submission\<close>

lemma reject_not_Inr: "reject_upsert sb maxRepos e n s \<noteq> (Inr x, n', s')"
  by (auto simp: reject_upsert_def db_bind_Inr split: sum.splits if_splits)

lemma Upsert_Inr:
  assumes "UpsertSBOMWithLimit sb maxSBOMs maxRepos e n s = (Inr x, n', s')"
  shows "insert_sbom sb maxSBOMs maxRepos (clock e n) s = (Inr (Some x), s') \<and> account_gate (TenantID sb) s = Inr ()"
proof -
  from assms obtain r s1 n1 n2 where 1: "account_gate (TenantID sb) s = Inr ()"
      "insert_sbom sb maxSBOMs maxRepos (clock e n) s = (Inr r, s1)"
      "(case r of Some x \<Rightarrow> db_return x | None \<Rightarrow> reject_upsert sb maxRepos) e n1 s1 = (Inr x, n2, s')"
    unfolding UpsertSBOMWithLimit_def lockAccountForSBOMMutation_def
    by (simp only: db_tx_Inr db_bind_Inr db_stmt_Inr prod.inject) auto
  then show ?thesis by (cases r) (simp_all add: reject_not_Inr)
qed

lemma insert_sbom_Some:
  assumes "insert_sbom sb maxSBOMs maxRepos now s = (Inr (Some (sid, inserted, st)), s')"
  shows "(inserted \<and> \<not> stored sb s \<and> admits sb maxSBOMs maxRepos s \<and> sboms s' = sboms s @ [new_row sb now]) \<or>
    (\<exists>r. \<not> inserted \<and> lookup_key natural_key (sboms s) (TenantID sb, Digest sb, Format sb) = Some r \<and>
       sid = ID r \<and> st = Status r \<and> sboms s' = upsert natural_key (resubmit sb) r (sboms s))"
  using assms
  by (auto simp: insert_sbom_def stored_def list_ex_iff lookup_key_None split: if_splits option.splits)
     (metis image_eqI)

lemma count_live_resubmit:
  assumes "lookup_key natural_key (sboms s) k = Some r" and "sboms s' = upsert natural_key (resubmit sb) r (sboms s)"
  shows "count_live tenant s' = count_live tenant s"
proof -
  have "natural_key r \<in> natural_key ` set (sboms s)" using lookup_key_Some [OF assms(1)] by auto
  then show ?thesis unfolding count_live_def assms(2)
    by (intro filter_upsert_length) (auto simp: live_def resubmit_def)
qed

lemma lookup_stored: "lookup_key natural_key (sboms s) (TenantID sb, Digest sb, Format sb) = Some r \<Longrightarrow> stored sb s"
  by (auto simp: stored_def list_ex_iff dest: lookup_key_Some)

section \<open>Work selection\<close>

lemma backing_off_iff:
  assumes "distinct_key attempt_key (attempts s)"
  shows "backing_off now sid sc s \<longleftrightarrow> \<not> attempt_due sid sc now s"
proof (cases "attempt_at sid sc s")
  case None
  then have "\<forall>a \<in> set (attempts s). attempt_key a \<noteq> (sid, sc)" unfolding lookup_key_None by (metis image_eqI)
  then have "\<not> backing_off now sid sc s" by (auto simp: backing_off_def list_ex_iff attempt_key_def)
  moreover have "attempt_due sid sc now s" using None by (simp add: attempt_due_def)
  ultimately show ?thesis by simp
next
  case (Some a)
  note a = lookup_key_Some [OF this]
  have "b = a" if "b \<in> set (attempts s)" "attempt_key b = (sid, sc)" for b
    using lookup_key_in [OF assms that(1)] that(2) Some by simp
  then have "backing_off now sid sc s \<longleftrightarrow> (\<exists>b \<in> {a}. at_quarantined b \<or> at_next_attempt_at b > now)"
    using a unfolding backing_off_def list_ex_iff attempt_key_def by blast
  moreover have "attempt_due sid sc now s \<longleftrightarrow> \<not> at_quarantined a \<and> at_next_attempt_at a \<le> now"
    using Some by (simp add: attempt_due_def)
  ultimately show ?thesis by auto
qed

section \<open>Packages\<close>

lemma concat_chunks: "k > 0 \<Longrightarrow> concat (chunks k xs) = xs"
  by (induction k xs rule: chunks.induct) (subst chunks.simps, simp)

definition add_package :: "string \<Rightarrow> package_row list \<Rightarrow> PackageLicense \<Rightarrow> package_row list" where
  "add_package sid rows p = upsert package_key (\<lambda>x. x) \<lparr>pk_sbom = sid, pk_license = p\<rparr> rows"

lemma fold_chunks:
  "fold (\<lambda>ps s. s\<lparr>packages := foldl (add_package sid) (packages s) ps\<rparr>) pss s =
     s\<lparr>packages := foldl (add_package sid) (packages s) (concat pss)\<rparr>"
  by (induction pss arbitrary: s) auto

section \<open>Concrete accounts\<close>

definition demo_row :: "string \<Rightarrow> string \<Rightarrow> SBOM" where
  "demo_row sid repo =
     \<lparr>ID = sid, TenantID = ''t1'', ImageRef = repo, Repository = repo, SBOMVersion = ''1'', Digest = sid, Format = ''spdx'',
      SpecVersion = ''2.3'', Tool = ''syft'', ToolVersion = ''1'', PackageCount = 3, ObjectPath = ''o'',
      VerificationStatus = [], Status = [], Labels = [''a''], GeneratedAt = 0, SubmittedAt = 0\<rparr>"

definition demo_account :: store where
  "demo_account = empty_store\<lparr>tenants := [\<lparr>tn_id = ''t1'', tn_status = ''active''\<rparr>]\<rparr>"

definition submit_two :: "int \<Rightarrow> int \<Rightarrow> (store, unit) db" where
  "submit_two maxSBOMs maxRepos =
     db_bind (UpsertSBOMWithLimit (demo_row ''s1'' ''reg/one'') maxSBOMs maxRepos) (\<lambda>_.
     db_bind (UpsertSBOMWithLimit (demo_row ''s2'' ''reg/two'') maxSBOMs maxRepos) (\<lambda>_.
     db_bind (ActivateSBOM ''t1'' ''s1'') (\<lambda>_. ActivateSBOM ''t1'' ''s2'')))"

definition demo_fleet :: store where
  "demo_fleet = demo_account\<lparr>sboms := [(new_row (demo_row ''s1'' ''reg/one'') 7)\<lparr>Status := ''active''\<rparr>]\<rparr>"

lemma demo_fleet_inv: "store_inv demo_fleet"
  by (simp add: store_inv_def demo_fleet_def demo_account_def empty_store_def)

section \<open>Properties of the SBOM store\<close>



text \<open>
  C6. The SBOM quota holds: no submission raises the number of active and pending SBOMs of any
  account above the larger of its current value and the cap in force.
\<close>

theorem UpsertSBOM_quota:
  assumes "UpsertSBOMWithLimit sb maxSBOMs maxRepos e n s = (Inr (sid, inserted, st), n', s')" and "maxSBOMs > 0"
  shows "int (count_live tenant s') \<le> max (int (count_live tenant s)) maxSBOMs"
proof -
  have i: "insert_sbom sb maxSBOMs maxRepos (clock e n) s = (Inr (Some (sid, inserted, st)), s')"
    using Upsert_Inr [OF assms(1)] by simp
  from insert_sbom_Some [OF i] show ?thesis
  proof (elim disjE exE conjE)
    assume "\<not> stored sb s" "admits sb maxSBOMs maxRepos s" and s': "sboms s' = sboms s @ [new_row sb (clock e n)]"
    then have "int (count_live (TenantID sb) s) < maxSBOMs" using assms(2) by (auto simp: admits_def)
    moreover have "live tenant (new_row sb (clock e n)) \<Longrightarrow> tenant = TenantID sb" by (simp add: live_def new_row_def)
    ultimately show ?thesis by (auto simp: count_live_def s')
  next
    fix r assume "lookup_key natural_key (sboms s) (TenantID sb, Digest sb, Format sb) = Some r"
      "sboms s' = upsert natural_key (resubmit sb) r (sboms s)"
    then show ?thesis by (simp add: count_live_resubmit)
  qed
qed

theorem UpsertSBOM_quota_witness:
  "case UpsertSBOMWithLimit (demo_row ''s1'' ''reg/one'') 1 0 (calm_env 0) 0 demo_account of (r, n, s') \<Rightarrow>
     r = Inr (''s1'', True, ''pending'') \<and> int (count_live ''t1'' s') \<le> 1"
proof -
  have run: "fst (UpsertSBOMWithLimit (demo_row ''s1'' ''reg/one'') 1 0 (calm_env 0) 0 demo_account) =
      Inr (''s1'', True, ''pending'')" by code_simp
  obtain n s' where 1: "UpsertSBOMWithLimit (demo_row ''s1'' ''reg/one'') 1 0 (calm_env 0) 0 demo_account =
      (Inr (''s1'', True, ''pending''), n, s')"
    using run by (metis prod.collapse)
  show ?thesis using UpsertSBOM_quota [OF 1, of "''t1''"] 1
    by (simp add: count_live_def demo_account_def empty_store_def)
qed

text \<open>
  Resubmitting a stored image (same account, digest and format) is never rejected by a cap: it
  returns the existing row's id and status, leaves every content column and the status alone and
  unites the labels.
\<close>

theorem UpsertSBOM_resubmission:
  assumes "no_faults e" and "account_gate (TenantID sb) s = Inr ()"
    and "lookup_key natural_key (sboms s) (TenantID sb, Digest sb, Format sb) = Some r"
  shows "\<exists>n' s'. UpsertSBOMWithLimit sb maxSBOMs maxRepos e n s = (Inr (ID r, False, Status r), n', s') \<and>
    lookup_key natural_key (sboms s') (TenantID sb, Digest sb, Format sb) = Some (resubmit sb r) \<and>
    content (resubmit sb r) = content r \<and> Status (resubmit sb r) = Status r \<and>
    set (Labels (resubmit sb r)) = set (Labels r) \<union> set (Labels sb)"
proof -
  have f: "fault e k = None" for k using assms(1) by (simp add: no_faults_def)
  have k: "natural_key r = (TenantID sb, Digest sb, Format sb)" using lookup_key_Some [OF assms(3)] by simp
  let ?s' = "s\<lparr>sboms := upsert natural_key (resubmit sb) r (sboms s)\<rparr>"
  have "insert_sbom sb maxSBOMs maxRepos t s = (Inr (Some (ID r, False, Status r)), ?s')" for t
    using assms(3) lookup_stored [OF assms(3)] by (simp add: insert_sbom_def admits_def)
  then have "\<exists>n'. UpsertSBOMWithLimit sb maxSBOMs maxRepos e n s = (Inr (ID r, False, Status r), n', ?s')"
    using assms(2) by (simp add: UpsertSBOMWithLimit_def db_tx_Inr db_bind_Inr db_stmt_Inr lockAccountForSBOMMutation_def f)
  moreover have "lookup_key natural_key (upsert natural_key (resubmit sb) r (sboms s)) (natural_key r) = Some (resubmit sb r)"
    using assms(3) k by (subst lookup_key_upsert_keep) (auto simp: natural_key_def resubmit_def)
  ultimately show ?thesis using k by (auto simp: content_def resubmit_def)
qed

theorem UpsertSBOM_resubmission_witness:
  "\<exists>n' s'. UpsertSBOMWithLimit ((demo_row ''s1'' ''reg/one'')\<lparr>ID := ''s9'', Labels := [''b'']\<rparr>) 1 1 (calm_env 0) 0 demo_fleet =
     (Inr (''s1'', False, ''active''), n', s')"
  using UpsertSBOM_resubmission [of "calm_env 0" "(demo_row ''s1'' ''reg/one'')\<lparr>ID := ''s9'', Labels := [''b'']\<rparr>" demo_fleet
      "(new_row (demo_row ''s1'' ''reg/one'') 7)\<lparr>Status := ''active''\<rparr>" 1 1 0]
  by (auto simp: account_gate_def demo_fleet_def demo_account_def natural_key_def demo_row_def new_row_def)

text \<open>
  The limit that is reported can be the wrong one: with both caps set, a submission of a new
  repository that the SBOM cap rejects is reported as \<open>ErrImageLimit\<close>, however far the repository
  cap is.
\<close>

theorem ErrImageLimit_at_SBOM_limit:
  assumes "no_faults e" and "account_gate (TenantID sb) s = Inr ()" and "\<not> stored sb s"
    and "maxSBOMs > 0" and "int (count_live (TenantID sb) s) \<ge> maxSBOMs"
    and "maxRepos > 0" and "\<not> repo_tracked (TenantID sb) (Repository sb) s"
  shows "fst (UpsertSBOMWithLimit sb maxSBOMs maxRepos e n s) = Inl ErrImageLimit"
proof -
  have f: "fault e k = None" for k using assms(1) by (simp add: no_faults_def)
  have "insert_sbom sb maxSBOMs maxRepos t s = (Inr None, s)" for t
    using assms by (simp add: insert_sbom_def admits_def)
  with assms f show ?thesis
    by (simp add: UpsertSBOMWithLimit_def db_tx_def db_bind_def db_stmt_def lockAccountForSBOMMutation_def reject_upsert_def
        db_try_def)
qed

theorem ErrImageLimit_at_SBOM_limit_witness:
  "fst (UpsertSBOMWithLimit (demo_row ''s2'' ''reg/two'') 1 100 (calm_env 0) 0 demo_fleet) = Inl ErrImageLimit"
  using ErrImageLimit_at_SBOM_limit [of "calm_env 0" "demo_row ''s2'' ''reg/two''" demo_fleet 1 100 0]
  by (simp add: account_gate_def demo_fleet_def demo_account_def demo_row_def new_row_def stored_def natural_key_def
      count_live_def live_def repo_tracked_def)

text \<open>
  The repository cap is not a bound: it counts active repositories only, so two new repositories
  submitted before either is activated both pass a cap of one, and activating them leaves the
  account with two.
\<close>

theorem repository_cap_exceeded:
  "case submit_two 10 1 (calm_env 0) 0 demo_account of (r, n, s') \<Rightarrow> r = Inr () \<and> count_repos ''t1'' s' = 2"
  by code_simp

text \<open>
  C5. Work selection is exact: with a staleness window and a set of expected scanners, an SBOM is
  listed if and only if it is active and either a rescan was requested or some expected scanner has
  no run within the window and may be attempted now, in the sense of \<open>ScannerAttemptDue\<close>.
\<close>

theorem list_scannable_iff:
  assumes "store_inv s" and "maxAge > 0" and "expected \<noteq> []"
  shows "sb \<in> set (list_scannable maxAge expected now s) \<longleftrightarrow>
    (\<exists>r \<in> set (sboms s). sb = listed r \<and> Status r = ''active'' \<and>
       (rescan_requested_at r \<noteq> None \<or>
        (\<exists>sc \<in> set expected. attempt_due (ID r) sc now s \<and>
          (\<forall>q \<in> set (scan_runs s). run_sbom q = ID r \<and> run_scanner q = sc \<longrightarrow> scanned_at q \<le> now - intervalSeconds maxAge))))"
proof -
  have d: "distinct_key attempt_key (attempts s)" using assms(1) by (simp add: store_inv_def)
  have o: "outstanding w now sid s sc \<longleftrightarrow> attempt_due sid sc now s \<and>
      (\<forall>q \<in> set (scan_runs s). run_sbom q = sid \<and> run_scanner q = sc \<longrightarrow> scanned_at q \<le> now - w)" for w sid sc
    by (auto simp: outstanding_def has_recent_run_def list_ex_iff not_less backing_off_iff [OF d])
  show ?thesis
    using assms(2,3) by (auto simp: list_scannable_def scannable_def list_ex_iff o)
qed

theorem list_scannable_iff_witness:
  "listed (hd (sboms demo_fleet)) \<in> set (list_scannable (3600 * 1000000000) [''grype''] 100 demo_fleet)"
  using list_scannable_iff [OF demo_fleet_inv, of "3600 * 1000000000" "[''grype'']" "listed (hd (sboms demo_fleet))" 100]
  by (auto simp: demo_fleet_def demo_account_def empty_store_def attempt_due_def)

text \<open>
  Work selection is monotone in the expected scanners: what is due for a non-empty set of them
  is due for every larger set (so an empty pre-check means there is no work), and the list is in
  the order of submission.
\<close>

theorem list_scannable_mono:
  assumes "set expected \<subseteq> set expected'" and "expected \<noteq> []"
  shows "set (list_scannable maxAge expected now s) \<subseteq> set (list_scannable maxAge expected' now s) \<and>
    sorted (map SubmittedAt (list_scannable maxAge expected now s))"
proof -
  have "scannable maxAge expected now s r \<Longrightarrow> scannable maxAge expected' now s r" for r
    using assms by (auto simp: scannable_def list_ex_iff)
  moreover have "map SubmittedAt (map listed rs) = map SubmittedAt rs" for rs
    by (simp add: listed_def)
  ultimately show ?thesis by (auto simp: list_scannable_def sorted_sort_key simp del: map_map)
qed

theorem list_scannable_mono_witness:
  "set (list_scannable (3600 * 1000000000) [''grype''] 100 demo_fleet) \<subseteq>
     set (list_scannable (3600 * 1000000000) [''trivy'', ''grype''] 100 demo_fleet)"
  using list_scannable_mono [of "[''grype'']" "[''trivy'', ''grype'']" "3600 * 1000000000" 100 demo_fleet] by simp

text \<open>
  Writing the package inventory in chunks is invisible: a successful \<open>UpsertSBOMPackages\<close> has the
  effect of inserting the packages one by one, the first row of a package and version winning.
\<close>

theorem UpsertSBOMPackages_chunking:
  assumes "UpsertSBOMPackages sid pkgs e n s = (Inr u, n', s')"
  shows "s' = s\<lparr>packages := foldl (add_package sid) (packages s) pkgs\<rparr>"
proof (cases "pkgs = []")
  case True
  with assms show ?thesis by (simp add: UpsertSBOMPackages_def)
next
  case False
  have "db_does (insertPackageChunk sid ps) (\<lambda>_. ()) (\<lambda>s. s\<lparr>packages := foldl (add_package sid) (packages s) ps\<rparr>)" for ps
    unfolding insertPackageChunk_def add_package_def by (rule db_does_stmt)
  then have d: "db_does (db_foreach (chunks licenseInsertChunk pkgs) (insertPackageChunk sid)) (\<lambda>_. ())
      (fold (\<lambda>ps s. s\<lparr>packages := foldl (add_package sid) (packages s) ps\<rparr>) (chunks licenseInsertChunk pkgs))"
    by (intro db_does_foreach)
  from assms False have "s' = fold (\<lambda>ps s. s\<lparr>packages := foldl (add_package sid) (packages s) ps\<rparr>) (chunks licenseInsertChunk pkgs) s"
    by (auto simp: UpsertSBOMPackages_def db_tx_Inr dest!: db_doesD [OF d])
  then show ?thesis by (simp add: fold_chunks concat_chunks)
qed

theorem UpsertSBOMPackages_chunking_witness:
  "packages (snd (snd (UpsertSBOMPackages ''s1'' [\<lparr>pl_package = ''zlib'', pl_version = ''1'', pl_purl = [], pl_licenses = [''MIT'']\<rparr>]
     (calm_env 0) 0 demo_fleet))) =
   [\<lparr>pk_sbom = ''s1'', pk_license = \<lparr>pl_package = ''zlib'', pl_version = ''1'', pl_purl = [], pl_licenses = [''MIT'']\<rparr>\<rparr>]"
proof -
  let ?p = "[\<lparr>pl_package = ''zlib'', pl_version = ''1'', pl_purl = [], pl_licenses = [''MIT'']\<rparr>]"
  have "fst (UpsertSBOMPackages ''s1'' ?p (calm_env 0) 0 demo_fleet) = Inr ()" by code_simp
  then obtain n' s' where 1: "UpsertSBOMPackages ''s1'' ?p (calm_env 0) 0 demo_fleet = (Inr (), n', s')" by (metis prod.collapse)
  from UpsertSBOMPackages_chunking [OF 1] 1 show ?thesis
    by (simp add: add_package_def demo_fleet_def demo_account_def empty_store_def)
qed

end
