(* ===== verification/Converter.thy ===== *)
theory Converter
  imports Severity "HOL-Library.Log_Nat"
begin

text \<open>
  From a scanner's report to findings: \<open>pkg/converter\<close> and \<open>pkg/parser\<close>, over the JSON containers of
  the vendored package \<open>gabs\<close>, whose \<open>Search\<close>, \<open>Exists\<close>, \<open>Index\<close> and \<open>Children\<close> are modelled from
  its source (\<open>vendor/github.com/Jeffail/gabs/v2/gabs.go\<close>).

  A container pointer is \<open>None\<close> when it is nil. The children of an object come in the order of
  the list (Go's order is random). The text \<open>fmt\<close> prints for a value that is not a string, with
  the verb \<open>%v\<close>, is the argument \<open>fv\<close>.
\<close>

section \<open>Containers\<close>

datatype json = JNull | JBool bool | JNum rat | JStr string | JArr "json list" | JObj "(string \<times> json) list"

type_synonym container = "json option"

definition Data :: "container \<Rightarrow> json" where
  "Data c = (case c of None \<Rightarrow> JNull | Some j \<Rightarrow> j)"

definition digit :: "char \<Rightarrow> bool" where
  "digit c = (let n = (of_char c :: nat) in 48 \<le> n \<and> n \<le> 57)"

definition decimal :: "string \<Rightarrow> nat" where
  "decimal s = foldl (\<lambda>n c. 10 * n + (of_char c - 48)) 0 s"

text \<open>\<open>strconv.Atoi\<close> where it gives an index: an optional plus sign and digits (a minus sign with
  digits other than zero gives an invalid index).\<close>

definition Atoi :: "string \<Rightarrow> nat option" where
  "Atoi s =
     (let t = (case s of c # cs \<Rightarrow> if c = CHR ''+'' \<or> c = CHR ''-'' then cs else s | [] \<Rightarrow> [])
      in if t = [] \<or> \<not> list_all digit t then None
         else if s \<noteq> [] \<and> hd s = CHR ''-'' \<and> decimal t \<noteq> 0 then None
         else Some (decimal t))"

fun searchStrict :: "json \<Rightarrow> string list \<Rightarrow> container" where
  "searchStrict obj [] = Some obj"
| "searchStrict (JObj kvs) (seg # segs) =
     (case map_of kvs seg of None \<Rightarrow> None | Some v \<Rightarrow> searchStrict v segs)"
| "searchStrict (JArr vs) (seg # segs) =
     (if seg = ''*'' then
        (let tmp = (if segs = [] then vs else List.map_filter (\<lambda>v. searchStrict v segs) vs)
         in if tmp = [] then None else Some (JArr tmp))
      else
        (case Atoi seg of
           None \<Rightarrow> None
         | Some i \<Rightarrow> if length vs \<le> i then None else searchStrict (vs ! i) segs))"
| "searchStrict JNull (seg # segs) = None"
| "searchStrict (JBool b) (seg # segs) = None"
| "searchStrict (JNum x) (seg # segs) = None"
| "searchStrict (JStr s) (seg # segs) = None"

definition Search :: "container \<Rightarrow> string list \<Rightarrow> container" where
  "Search c path = searchStrict (Data c) path"

definition Exists :: "container \<Rightarrow> string list \<Rightarrow> bool" where
  "Exists c path = (Search c path \<noteq> None)"

definition Index :: "container \<Rightarrow> nat \<Rightarrow> container" where
  "Index c i = (case Data c of JArr vs \<Rightarrow> if length vs \<le> i then None else Some (vs ! i) | _ \<Rightarrow> None)"

definition Children :: "container \<Rightarrow> container list" where
  "Children c = (case Data c of JArr vs \<Rightarrow> map Some vs | JObj kvs \<Rightarrow> map (\<lambda>(k, v). Some v) kvs | _ \<Rightarrow> [])"

section \<open>Typed reads\<close>

text \<open>\<open>float32(x)\<close> for a finite \<open>x\<close> in range: rounding to 24 significant bits, ties to even, with the
  exponent of the smallest normal number as the least one.\<close>

definition f32_exponent :: "rat \<Rightarrow> int" where
  "f32_exponent x =
     max (- 126) (if x \<ge> 1 then int (floorlog 2 (nat \<lfloor>x\<rfloor>)) - 1 else - int (floorlog 2 (nat \<lceil>1 / x\<rceil> - 1)))"

definition round_even :: "rat \<Rightarrow> int" where
  "round_even x =
     (let f = \<lfloor>x\<rfloor>; d = x - of_int f
      in if d < 1 / 2 then f else if d > 1 / 2 then f + 1 else if even f then f else f + 1)"

definition float32 :: "rat \<Rightarrow> rat" where
  "float32 x =
     (if x = 0 then 0
      else
        (let e = f32_exponent \<bar>x\<bar> - 23;
             scale = (if e \<ge> 0 then 2 ^ nat e else 1 / 2 ^ nat (- e))
         in of_int (round_even (x / scale)) * scale))"

definition ToString :: "(json \<Rightarrow> string) \<Rightarrow> json \<Rightarrow> string" where
  "ToString fv v = (case v of JNull \<Rightarrow> [] | JStr s \<Rightarrow> s | _ \<Rightarrow> fv v)"

fun FirstNonEmpty :: "(json \<Rightarrow> string) \<Rightarrow> json list \<Rightarrow> string" where
  "FirstNonEmpty fv [] = []"
| "FirstNonEmpty fv (v # vs) = (if ToString fv v \<noteq> [] then ToString fv v else FirstNonEmpty fv vs)"

text \<open>A JSON number is a \<open>float64\<close>; the other numeric cases of the code's switch do not arise from
  parsing.\<close>

definition ToFloat32 :: "json \<Rightarrow> rat" where
  "ToFloat32 v = (case v of JNum x \<Rightarrow> float32 x | _ \<Rightarrow> 0)"

fun string_keys :: "(json \<Rightarrow> string) \<Rightarrow> container \<Rightarrow> string list \<Rightarrow> string" where
  "string_keys fv c [] = []"
| "string_keys fv c (k # ks) =
     (if \<not> Exists c [k] then string_keys fv c ks
      else
        (let s = ToString fv (Data (Search c [k])) in
         if s \<noteq> [] then s else string_keys fv c ks))"

definition String :: "(json \<Rightarrow> string) \<Rightarrow> container \<Rightarrow> string list \<Rightarrow> string" where
  "String fv c keys = (if c = None \<or> \<not> Exists c [] then [] else string_keys fv c keys)"

section \<open>Grype\<close>

abbreviation ErrNoConverter :: go_error where
  "ErrNoConverter \<equiv> Errorf ''converter: no converter for document''"

text \<open>One entry of a CVSS array, on the best scores of versions 2 and 3 so far.\<close>

definition score_step :: "(json \<Rightarrow> string) \<Rightarrow> container \<Rightarrow> rat \<times> rat \<Rightarrow> rat \<times> rat" where
  "score_step fv cvss = (\<lambda>(v2, v3).
     let score = ToFloat32 (Data (Search cvss [''metrics'', ''baseScore'']));
         ver = ToString fv (Data (Search cvss [''version''])) in
     if ver = ''2.0'' then (if score > v2 then score else v2, v3)
     else if ver = ''3.0'' \<or> ver = ''3.1'' then (v2, if score > v3 then score else v3)
     else (v2, v3))"

definition source_scores :: "(json \<Rightarrow> string) \<Rightarrow> container \<Rightarrow> rat \<times> rat \<Rightarrow> rat \<times> rat" where
  "source_scores fv src acc = (if \<not> Exists src [] then acc else fold (score_step fv) (Children src) acc)"

definition grypeScore :: "(json \<Rightarrow> string) \<Rightarrow> container list \<Rightarrow> rat" where
  "grypeScore fv sources =
     (case fold (source_scores fv) sources (0, 0) of (v2, v3) \<Rightarrow> if v3 > 0 then v3 else v2)"

definition grypeMatch :: "(json \<Rightarrow> string) \<Rightarrow> container \<Rightarrow> vulnerability option" where
  "grypeMatch fv m =
     (let vuln = Search m [''vulnerability'']; art = Search m [''artifact''] in
      if \<not> Exists vuln [] \<or> \<not> Exists art [] then None
      else
        (let rel = Index (Search m [''relatedVulnerabilities'']) 0;
             v = \<lparr>Exposure = FirstNonEmpty fv [Data (Search rel [''id'']), Data (Search vuln [''id''])],
                  Package = String fv art [''name''], Version = String fv art [''version''],
                  Severity = NormalizeSeverity (FirstNonEmpty fv
                    [Data (Search rel [''severity'']), Data (Search vuln [''severity''])]),
                  Score = grypeScore fv [Search rel [''cvss''], Search vuln [''cvss'']],
                  IsFixed = ToString fv (Data (Search vuln [''fix'', ''state''])) = ''fixed''\<rparr>
         in if Exposure v = [] then None else Some v))"

text \<open>The loop asks before every match whether the context is done: \<open>done_at k\<close> is its error at the
  \<open>k\<close>-th one.\<close>

fun convert_loop :: "(container \<Rightarrow> vulnerability option) \<Rightarrow> (nat \<Rightarrow> go_error option) \<Rightarrow> nat \<Rightarrow> container list \<Rightarrow>
    vulnerability list \<Rightarrow> vulnerability list result" where
  "convert_loop one done_at k [] out = Inr out"
| "convert_loop one done_at k (m # ms) out =
     (case done_at k of
        Some err \<Rightarrow> Inl err
      | None \<Rightarrow> convert_loop one done_at (Suc k) ms (case one m of None \<Rightarrow> out | Some v \<Rightarrow> out @ [v]))"

definition grype_CanHandle :: "(json \<Rightarrow> string) \<Rightarrow> container \<Rightarrow> bool" where
  "grype_CanHandle fv c = (c \<noteq> None \<and> ToString fv (Data (Search c [''descriptor'', ''name''])) = ''grype'')"

definition grype_Convert :: "(json \<Rightarrow> string) \<Rightarrow> (nat \<Rightarrow> go_error option) \<Rightarrow> container \<Rightarrow> vulnerability list result" where
  "grype_Convert fv done_at c =
     (if c = None then Inl ErrNoConverter
      else
        (let matches = Search c [''matches''] in
         if \<not> Exists matches [] then Inl ErrNoConverter
         else convert_loop (grypeMatch fv) done_at 0 (Children matches) []))"

section \<open>Trivy\<close>

definition cvssSourcePrecedence :: "string list" where
  "cvssSourcePrecedence =
     [''nvd'', ''redhat'', ''ghsa'', ''bitnami'', ''amazon'', ''oracle'', ''photon'', ''cbl-mariner'', ''ubuntu'']"

fun trivy_sources :: "container \<Rightarrow> string list \<Rightarrow> rat" where
  "trivy_sources cvss [] = 0"
| "trivy_sources cvss (src # srcs) =
     (let s = Search cvss [src] in
      if \<not> Exists s [] then trivy_sources cvss srcs
      else
        (let v3 = Search s [''V3Score'']; v2 = Search s [''V2Score''] in
         if Exists v3 [] then ToFloat32 (Data v3)
         else if Exists v2 [] then ToFloat32 (Data v2)
         else trivy_sources cvss srcs))"

definition trivyScore :: "container \<Rightarrow> rat" where
  "trivyScore cvss = (if \<not> Exists cvss [] then 0 else trivy_sources cvss cvssSourcePrecedence)"

definition trivyVuln :: "(json \<Rightarrow> string) \<Rightarrow> container \<Rightarrow> vulnerability option" where
  "trivyVuln fv vuln =
     (let vid = String fv vuln [''VulnerabilityID''] in
      if vid = [] then None
      else Some \<lparr>Exposure = vid, Package = String fv vuln [''PkgName''], Version = String fv vuln [''InstalledVersion''],
        Severity = NormalizeSeverity (String fv vuln [''Severity'']), Score = trivyScore (Search vuln [''CVSS'']),
        IsFixed = String fv vuln [''FixedVersion''] \<noteq> []\<rparr>)"

definition trivy_CanHandle :: "(json \<Rightarrow> string) \<Rightarrow> container \<Rightarrow> bool" where
  "trivy_CanHandle fv c = (c \<noteq> None \<and> Exists c [''SchemaVersion''] \<and> Exists c [''Results''])"

definition trivy_Convert :: "(json \<Rightarrow> string) \<Rightarrow> (nat \<Rightarrow> go_error option) \<Rightarrow> container \<Rightarrow> vulnerability list result" where
  "trivy_Convert fv done_at c =
     (if c = None then Inl ErrNoConverter
      else convert_loop (trivyVuln fv) done_at 0
        (concat (map (\<lambda>r. Children (Search r [''Vulnerabilities''])) (Children (Search c [''Results''])))) [])"

section \<open>The registry\<close>

record converter =
  conv_name :: string
  CanHandle :: "container \<Rightarrow> bool"
  Convert :: "(nat \<Rightarrow> go_error option) \<Rightarrow> container \<Rightarrow> vulnerability list result"

definition DefaultRegistry :: "(json \<Rightarrow> string) \<Rightarrow> converter list" where
  "DefaultRegistry fv =
     [\<lparr>conv_name = ''grype'', CanHandle = grype_CanHandle fv, Convert = grype_Convert fv\<rparr>,
      \<lparr>conv_name = ''trivy'', CanHandle = trivy_CanHandle fv, Convert = trivy_Convert fv\<rparr>]"

definition Detect :: "converter list \<Rightarrow> container \<Rightarrow> converter result" where
  "Detect r c =
     (if c = None then Inl ErrNoConverter
      else (case List.find (\<lambda>conv. CanHandle conv c) r of None \<Rightarrow> Inl ErrNoConverter | Some conv \<Rightarrow> Inr conv))"

definition Get :: "converter list \<Rightarrow> string \<Rightarrow> converter option" where
  "Get r name = List.find (\<lambda>conv. conv_name conv = name) r"

section \<open>What the reads and conversions do\<close>

lemma Exists_Nil [simp]: "Exists c []"
  by (simp add: Exists_def Search_def)

lemma Search_missing: "map_of kvs k = None \<Longrightarrow> Search (Some (JObj kvs)) (k # ks) = None"
  by (simp add: Search_def Data_def)

definition severity_scale :: "string list" where
  "severity_scale = [SeverityCritical, SeverityHigh, SeverityMedium, SeverityLow, SeverityNegligible, SeverityUnknown]"

lemma NormalizeSeverity_scale [simp]: "NormalizeSeverity s \<in> set severity_scale"
  by (simp add: NormalizeSeverity_def severity_scale_def Let_def)

text \<open>A finding a converter may emit.\<close>

definition normalized :: "vulnerability \<Rightarrow> bool" where
  "normalized v = (Exposure v \<noteq> [] \<and> Severity v \<in> set severity_scale)"

lemma normalized_grypeMatch: "grypeMatch fv m = Some v \<Longrightarrow> normalized v"
  by (auto simp: grypeMatch_def Let_def normalized_def split: if_splits)

lemma normalized_trivyVuln: "trivyVuln fv m = Some v \<Longrightarrow> normalized v"
  by (auto simp: trivyVuln_def Let_def normalized_def split: if_splits)

lemma convert_loop_Inr:
  "convert_loop one done_at k ms out = Inr vs \<Longrightarrow> vs = out @ List.map_filter one ms"
  by (induction one done_at k ms out rule: convert_loop.induct) (auto split: option.splits simp: List.map_filter_simps)

lemma convert_loop_calm:
  "(\<And>k. done_at k = None) \<Longrightarrow> convert_loop one done_at k ms out = Inr (out @ List.map_filter one ms)"
  by (induction one done_at k ms out rule: convert_loop.induct) (auto split: option.splits simp: List.map_filter_simps)

lemma set_map_filter: "set (List.map_filter f xs) = {y. \<exists>x \<in> set xs. f x = Some y}"
  by (force simp: List.map_filter_def)

lemma Detect_default:
  "Detect (DefaultRegistry fv) c = Inr conv \<Longrightarrow>
     conv = \<lparr>conv_name = ''grype'', CanHandle = grype_CanHandle fv, Convert = grype_Convert fv\<rparr> \<or>
     conv = \<lparr>conv_name = ''trivy'', CanHandle = trivy_CanHandle fv, Convert = trivy_Convert fv\<rparr>"
  by (auto simp: Detect_def DefaultRegistry_def split: if_splits)

lemma grype_Convert_Inr: "grype_Convert fv d c = Inr vs \<Longrightarrow> vs = List.map_filter (grypeMatch fv) (Children (Search c [''matches'']))"
  by (auto simp: grype_Convert_def Let_def split: if_splits dest!: convert_loop_Inr)

lemma trivy_Convert_Inr:
  "trivy_Convert fv d c = Inr vs \<Longrightarrow>
     vs = List.map_filter (trivyVuln fv) (concat (map (\<lambda>r. Children (Search r [''Vulnerabilities''])) (Children (Search c [''Results'']))))"
  by (auto simp: trivy_Convert_def split: if_splits dest!: convert_loop_Inr)

text \<open>The scores of one version in a list of CVSS sources.\<close>

definition version_scores :: "(json \<Rightarrow> string) \<Rightarrow> string list \<Rightarrow> container list \<Rightarrow> rat list" where
  "version_scores fv vers sources =
     map (\<lambda>c. ToFloat32 (Data (Search c [''metrics'', ''baseScore''])))
       (filter (\<lambda>c. ToString fv (Data (Search c [''version''])) \<in> set vers) (concat (map Children sources)))"

lemma fold_source_scores:
  "fold (source_scores fv) srcs acc = fold (score_step fv) (concat (map Children srcs)) acc"
  by (induction srcs arbitrary: acc) (simp_all add: source_scores_def)

lemma fold_score_step:
  "fold (score_step fv) cs (a, b) =
     (fold max (map (\<lambda>c. ToFloat32 (Data (Search c [''metrics'', ''baseScore''])))
         (filter (\<lambda>c. ToString fv (Data (Search c [''version''])) = ''2.0'') cs)) a,
      fold max (map (\<lambda>c. ToFloat32 (Data (Search c [''metrics'', ''baseScore''])))
         (filter (\<lambda>c. ToString fv (Data (Search c [''version''])) \<in> {''3.0'', ''3.1''}) cs)) b)"
proof (induction cs arbitrary: a b)
  case (Cons c cs)
  have "score_step fv c (a, b) =
      (if ToString fv (Data (Search c [''version''])) = ''2.0''
       then (max (ToFloat32 (Data (Search c [''metrics'', ''baseScore'']))) a, b)
       else if ToString fv (Data (Search c [''version''])) \<in> {''3.0'', ''3.1''}
       then (a, max (ToFloat32 (Data (Search c [''metrics'', ''baseScore'']))) b) else (a, b))"
    by (auto simp: score_step_def Let_def max_def)
  with Cons show ?case by auto
qed simp

lemma fold_max: "fold max xs (a :: rat) = Max (insert a (set xs))"
  using Max.set_eq_fold [of a xs] by simp

lemma grypeScore_spec:
  "grypeScore fv sources =
     (let m3 = Max (insert 0 (set (version_scores fv [''3.0'', ''3.1''] sources)));
          m2 = Max (insert 0 (set (version_scores fv [''2.0''] sources)))
      in if m3 > 0 then m3 else m2)"
  by (simp add: grypeScore_def fold_source_scores fold_score_step fold_max version_scores_def Let_def)

lemma trivy_nvd: "trivyScore cvss = ToFloat32 (Data (Search (Search cvss [''nvd'']) [''V3Score'']))"
  by (simp add: trivyScore_def cvssSourcePrecedence_def Let_def)

section \<open>Properties of the converters\<close>

text \<open>
  Whatever the report, a finding that comes out of the registry's converters has an
  identifier and a severity of the common scale, and comes from an entry of the report; nothing is
  emitted when the context is done before the end.
\<close>

theorem converters_normalize:
  assumes "Detect (DefaultRegistry fv) c = Inr conv" and "Convert conv done_at c = Inr vs" and "v \<in> set vs"
  shows "Exposure v \<noteq> [] \<and> Severity v \<in> set severity_scale \<and>
    ((\<exists>m \<in> set (Children (Search c [''matches''])). grypeMatch fv m = Some v) \<or>
     (\<exists>r \<in> set (Children (Search c [''Results''])). \<exists>m \<in> set (Children (Search r [''Vulnerabilities''])). trivyVuln fv m = Some v))"
proof -
  from Detect_default [OF assms(1)] show ?thesis
  proof
    assume "conv = \<lparr>conv_name = ''grype'', CanHandle = grype_CanHandle fv, Convert = grype_Convert fv\<rparr>"
    with assms(2,3) obtain m where "m \<in> set (Children (Search c [''matches'']))" "grypeMatch fv m = Some v"
      by (auto dest!: grype_Convert_Inr simp: set_map_filter)
    with normalized_grypeMatch [of fv m v] show ?thesis by (auto simp: normalized_def)
  next
    assume "conv = \<lparr>conv_name = ''trivy'', CanHandle = trivy_CanHandle fv, Convert = trivy_Convert fv\<rparr>"
    with assms(2,3) obtain r m where "r \<in> set (Children (Search c [''Results'']))"
        "m \<in> set (Children (Search r [''Vulnerabilities'']))" "trivyVuln fv m = Some v"
      by (auto dest!: trivy_Convert_Inr simp: set_map_filter)
    with normalized_trivyVuln [of fv m v] show ?thesis by (auto simp: normalized_def)
  qed
qed

definition demo_report :: container where
  "demo_report = Some (JObj [(''descriptor'', JObj [(''name'', JStr ''grype'')]),
     (''matches'', JArr [JObj [
        (''vulnerability'', JObj [(''id'', JStr ''CVE-1''), (''severity'', JStr ''High''), (''fix'', JObj [(''state'', JStr ''fixed'')]),
           (''cvss'', JArr [JObj [(''version'', JStr ''3.1''), (''metrics'', JObj [(''baseScore'', JNum 8)])]])]),
        (''artifact'', JObj [(''name'', JStr ''openssl''), (''version'', JStr ''3.0'')])]])])"

lemma demo_report_vulns:
  "grype_Convert (\<lambda>_. []) (\<lambda>_. None) demo_report =
     Inr [\<lparr>Exposure = ''CVE-1'', Package = ''openssl'', Version = ''3.0'', Severity = ''high'', Score = 8, IsFixed = True\<rparr>]"
  by code_simp

theorem converters_normalize_witness:
  "\<exists>conv vs. Detect (DefaultRegistry (\<lambda>_. [])) demo_report = Inr conv \<and> Convert conv (\<lambda>_. None) demo_report = Inr vs \<and>
     (\<exists>v. v \<in> set vs \<and> Severity v \<in> set severity_scale)"
proof -
  have c: "grype_CanHandle (\<lambda>_. []) demo_report" by code_simp
  let ?conv = "\<lparr>conv_name = ''grype'', CanHandle = grype_CanHandle (\<lambda>_. []), Convert = grype_Convert (\<lambda>_. [])\<rparr>"
  have 1: "Detect (DefaultRegistry (\<lambda>_. [])) demo_report = Inr ?conv"
    using c by (simp add: Detect_def DefaultRegistry_def demo_report_def)
  obtain vs v where 2: "Convert ?conv (\<lambda>_. None) demo_report = Inr vs" "v \<in> set vs"
    using demo_report_vulns by fastforce
  from converters_normalize [OF 1 2] 1 2 show ?thesis by blast
qed

text \<open>
  \<open>grypeScore\<close> is the highest CVSS 3 base score of all sources, or the highest CVSS 2 score when
  there is no positive CVSS 3 one, whatever the order of the entries.
\<close>

theorem grypeScore_highest:
  "grypeScore fv sources =
     (let m3 = Max (insert 0 (set (version_scores fv [''3.0'', ''3.1''] sources)));
          m2 = Max (insert 0 (set (version_scores fv [''2.0''] sources)))
      in if m3 > 0 then m3 else m2)"
  by (rule grypeScore_spec)

text \<open>
  A Grype report without a \<open>matches\<close> array is not rejected: \<open>Exists\<close> without a path holds of
  every container, even a nil one, so the guard never fires and the report converts to no finding
  at all.
\<close>

theorem grype_missing_matches:
  assumes "map_of kvs ''matches'' = None"
  shows "grype_Convert fv done_at (Some (JObj kvs)) = Inr []"
  using assms by (simp add: grype_Convert_def Search_missing Let_def Children_def Data_def)

theorem grype_missing_matches_witness:
  "Detect (DefaultRegistry (\<lambda>_. [])) (Some (JObj [(''descriptor'', JObj [(''name'', JStr ''grype'')])])) =
     Inr (hd (DefaultRegistry (\<lambda>_. []))) \<and>
   grype_Convert (\<lambda>_. []) (\<lambda>_. None) (Some (JObj [(''descriptor'', JObj [(''name'', JStr ''grype'')])])) = Inr []"
  using grype_missing_matches [of "[(''descriptor'', JObj [(''name'', JStr ''grype'')])]"]
  by (simp add: Detect_def DefaultRegistry_def grype_CanHandle_def Search_def Data_def ToString_def)

text \<open>The precedence the comment of \<open>trivyScore\<close> describes: the first source that has a score, version
  3 before version 2.\<close>

fun documented_sources :: "container \<Rightarrow> string list \<Rightarrow> rat" where
  "documented_sources cvss [] = 0"
| "documented_sources cvss (src # srcs) =
     (case Search cvss [src, ''V3Score''] of
        Some x \<Rightarrow> ToFloat32 x
      | None \<Rightarrow> (case Search cvss [src, ''V2Score''] of Some x \<Rightarrow> ToFloat32 x | None \<Rightarrow> documented_sources cvss srcs))"

text \<open>
  \<open>trivyScore\<close> looks at one source only: for the same reason as above it returns the NVD version
  3 score, or zero when there is none, and no other source and no version 2 score is ever read. A
  finding that only a vendor scored gets zero, where the documented precedence gives the vendor's
  score.
\<close>

theorem trivyScore_nvd_only:
  "(\<forall>cvss. trivyScore cvss = ToFloat32 (Data (Search (Search cvss [''nvd'']) [''V3Score'']))) \<and>
   trivyScore (Some (JObj [(''redhat'', JObj [(''V3Score'', JNum 7)])])) = 0 \<and>
   documented_sources (Some (JObj [(''redhat'', JObj [(''V3Score'', JNum 7)])])) cvssSourcePrecedence = 7"
proof (intro conjI)
  show "\<forall>cvss. trivyScore cvss = ToFloat32 (Data (Search (Search cvss [''nvd'']) [''V3Score'']))" using trivy_nvd by blast
  show "trivyScore (Some (JObj [(''redhat'', JObj [(''V3Score'', JNum 7)])])) = 0" by code_simp
  show "documented_sources (Some (JObj [(''redhat'', JObj [(''V3Score'', JNum 7)])])) cvssSourcePrecedence = 7" by code_simp
qed

end
