(* ===== verification/Enrichment.thy ===== *)
theory Enrichment
  imports Sbom_Store Converter
begin

text \<open>
  CVE risk context: \<open>pkg/enrich/enrich.go\<close> fetches the catalog of known exploited vulnerabilities (KEV)
  and the exploit probabilities (EPSS) and merges them into one record per CVE;
  \<open>pkg/data/postgres/enrich.go\<close> stores the records.

  The feeds and the libraries that read them are the record \<open>feeds\<close>: the HTTP client, the parser of
  JSON texts and the scanner of decimal numbers. A response is its status, the bytes delivered and
  the error that ended them early, if any. The members of a JSON object are taken to differ in more
  than case.
\<close>

section \<open>Feeds\<close>

record feeds =
  new_request :: "string \<Rightarrow> go_error option"
  do_request :: "string \<Rightarrow> (int \<times> string \<times> go_error option) result"
  json_parse :: "string \<Rightarrow> json result"
  scan_float :: "string \<Rightarrow> rat option"

definition maxFeedResponseBytes :: nat where
  "maxFeedResponseBytes = 67108864"

definition get :: "feeds \<Rightarrow> string \<Rightarrow> string result" where
  "get fd url =
     (case new_request fd url of
        Some err \<Rightarrow> Inl err
      | None \<Rightarrow>
          (case do_request fd url of
             Inl err \<Rightarrow> Inl err
           | Inr (status, body, readErr) \<Rightarrow>
               if status \<noteq> 200 then Inl (Errorf (''GET '' @ url @ '': status '' @ itoa status))
               else if length body > maxFeedResponseBytes
               then Inl (Errorf (''GET '' @ url @ '': response exceeds '' @ nat_text maxFeedResponseBytes @ '' bytes''))
               else (case readErr of Some err \<Rightarrow> Inl err | None \<Rightarrow> Inr body)))"

definition parseFloat :: "feeds \<Rightarrow> string \<Rightarrow> rat" where
  "parseFloat fd s = (case scan_float fd s of None \<Rightarrow> 0 | Some f \<Rightarrow> float32 f)"

subsection \<open>Decoding into structs\<close>

text \<open>\<open>json.Unmarshal\<close> into a struct of strings and arrays: \<open>null\<close> leaves a field at its zero value, names
  are compared without regard to case, a value of another type is an error.\<close>

definition members :: "json \<Rightarrow> (string \<times> json) list option" where
  "members j = (case j of JObj kvs \<Rightarrow> Some kvs | JNull \<Rightarrow> Some [] | _ \<Rightarrow> None)"

definition field :: "string \<Rightarrow> (string \<times> json) list \<Rightarrow> json" where
  "field k kvs = (case filter (\<lambda>(k', v). EqualFold k' k) kvs of [] \<Rightarrow> JNull | x # xs \<Rightarrow> snd (last (x # xs)))"

definition string_field :: "string \<Rightarrow> (string \<times> json) list \<Rightarrow> string option" where
  "string_field k kvs = (case field k kvs of JNull \<Rightarrow> Some [] | JStr s \<Rightarrow> Some s | _ \<Rightarrow> None)"

definition array_field :: "string \<Rightarrow> (string \<times> json) list \<Rightarrow> json list option" where
  "array_field k kvs = (case field k kvs of JNull \<Rightarrow> Some [] | JArr vs \<Rightarrow> Some vs | _ \<Rightarrow> None)"

definition struct_list :: "string \<Rightarrow> ((string \<times> json) list \<Rightarrow> 'a option) \<Rightarrow> json \<Rightarrow> 'a list option" where
  "struct_list k entry j =
     Option.bind (members j) (\<lambda>kvs.
     Option.bind (array_field k kvs) (\<lambda>vs.
     those (map (\<lambda>v. Option.bind (members v) entry) vs)))"

definition unmarshal :: "feeds \<Rightarrow> (json \<Rightarrow> 'a option) \<Rightarrow> string \<Rightarrow> 'a result" where
  "unmarshal fd dec body =
     (case json_parse fd body of
        Inl err \<Rightarrow> Inl err
      | Inr j \<Rightarrow> (case dec j of None \<Rightarrow> Inl (Driver ''json: cannot unmarshal'') | Some x \<Rightarrow> Inr x))"

definition kevCatalog :: "json \<Rightarrow> (string \<times> string) list option" where
  "kevCatalog = struct_list ''vulnerabilities'' (\<lambda>kvs.
     Option.bind (string_field ''cveID'' kvs) (\<lambda>cve. map_option (Pair cve) (string_field ''dateAdded'' kvs)))"

definition epssResponse :: "json \<Rightarrow> (string \<times> string \<times> string) list option" where
  "epssResponse = struct_list ''data'' (\<lambda>kvs.
     Option.bind (string_field ''cve'' kvs) (\<lambda>cve.
     Option.bind (string_field ''epss'' kvs) (\<lambda>score.
     map_option (\<lambda>pct. (cve, score, pct)) (string_field ''percentile'' kvs))))"

subsection \<open>The catalog of known exploited vulnerabilities\<close>

definition KEVURL :: string where
  "KEVURL = ''https://www.cisa.gov/sites/default/files/feeds/known_exploited_vulnerabilities.json''"

definition fetchKEV :: "feeds \<Rightarrow> (string, string) gomap result" where
  "fetchKEV fd =
     (case get fd KEVURL of
        Inl err \<Rightarrow> Inl (Wrapf ''kev: '' err)
      | Inr body \<Rightarrow>
          (case unmarshal fd kevCatalog body of
             Inl err \<Rightarrow> Inl (Wrapf ''kev parse: '' err)
           | Inr vs \<Rightarrow> Inr (map_from fst snd (filter (\<lambda>v. fst v \<noteq> []) vs))))"

subsection \<open>Exploit probabilities\<close>

definition EPSSAPIURL :: string where
  "EPSSAPIURL = ''https://api.first.org/data/v1/epss''"

definition epssBatch :: nat where
  "epssBatch = 100"

text \<open>The pattern \<open>^CVE-[0-9]{4}-[0-9]{4,}$\<close>.\<close>

definition cveIDPattern :: "string \<Rightarrow> bool" where
  "cveIDPattern c =
     (prefix ''CVE-'' c \<and>
      (let year = take 4 (drop 4 c); rest = drop 8 c in
       length year = 4 \<and> list_all digit year \<and> prefix ''-'' rest \<and> 4 \<le> length (tl rest) \<and> list_all digit (tl rest)))"

text \<open>\<open>url.Values.Encode\<close> of one value: \<open>url.QueryEscape\<close>.\<close>

definition unreserved :: "char \<Rightarrow> bool" where
  "unreserved c =
     (let n = (of_char c :: nat) in (48 \<le> n \<and> n \<le> 57) \<or> (65 \<le> n \<and> n \<le> 90) \<or> (97 \<le> n \<and> n \<le> 122) \<or>
        c \<in> set ''-_.~'')"

definition QueryEscape :: "string \<Rightarrow> string" where
  "QueryEscape s = concat (map (\<lambda>c.
     if unreserved c then [c] else if c = CHR '' '' then ''+''
     else [CHR ''%'', ''0123456789ABCDEF'' ! (of_char c div 16), ''0123456789ABCDEF'' ! (of_char c mod 16)]) s)"

definition epss_url :: "string list \<Rightarrow> string" where
  "epss_url cves = EPSSAPIURL @ ''?cve='' @ QueryEscape (Join cves '','')"

definition epss_batch :: "feeds \<Rightarrow> string list \<Rightarrow> (string \<times> string \<times> string) list result" where
  "epss_batch fd cves =
     (case get fd (epss_url cves) of
        Inl err \<Rightarrow> Inl err
      | Inr body \<Rightarrow> (case unmarshal fd epssResponse body of Inl err \<Rightarrow> Inl (Wrapf ''epss parse: '' err) | Inr vs \<Rightarrow> Inr vs))"

fun epss_loop ::
    "feeds \<Rightarrow> string list list \<Rightarrow> (string, rat \<times> rat) gomap \<Rightarrow> go_error option \<Rightarrow> (string, rat \<times> rat) gomap \<times> go_error option" where
  "epss_loop fd [] out firstErr = (out, firstErr)"
| "epss_loop fd (b # bs) out firstErr =
     (case epss_batch fd b of
        Inl err \<Rightarrow> epss_loop fd bs out (if firstErr = None then Some err else firstErr)
      | Inr ds \<Rightarrow>
          epss_loop fd bs (foldl (\<lambda>m (cve, score, pct). map_put cve (parseFloat fd score, parseFloat fd pct) m) out ds) firstErr)"

definition fetchEPSS :: "feeds \<Rightarrow> string list \<Rightarrow> (string, rat \<times> rat) gomap result" where
  "fetchEPSS fd cves =
     (case epss_loop fd (chunks epssBatch (filter cveIDPattern cves)) [] None of
        (out, firstErr) \<Rightarrow> (case firstErr of Some err \<Rightarrow> if out = [] then Inl err else Inr out | None \<Rightarrow> Inr out))"

subsection \<open>The merge\<close>

record Record =
  CVE :: string
  EPSSScore :: "rat option"
  EPSSPercentile :: "rat option"
  KEV :: bool
  KEVAdded :: string

definition new_record :: "string \<Rightarrow> Record" where
  "new_record cve = \<lparr>CVE = cve, EPSSScore = None, EPSSPercentile = None, KEV = False, KEVAdded = []\<rparr>"

text \<open>The closure \<open>rec\<close> and the assignments to the record it returns.\<close>

definition on_record :: "string \<Rightarrow> (Record \<Rightarrow> Record) \<Rightarrow> (string, Record) gomap \<Rightarrow> (string, Record) gomap" where
  "on_record cve f m = map_put cve (f (case map_of m cve of None \<Rightarrow> new_record cve | Some r \<Rightarrow> r)) m"

definition put_kev :: "string \<times> string \<Rightarrow> (string, Record) gomap \<Rightarrow> (string, Record) gomap" where
  "put_kev v = on_record (fst v) (\<lambda>r. r\<lparr>KEV := True, KEVAdded := snd v\<rparr>)"

definition put_epss :: "string \<times> rat \<times> rat \<Rightarrow> (string, Record) gomap \<Rightarrow> (string, Record) gomap" where
  "put_epss v = on_record (fst v) (\<lambda>r. r\<lparr>EPSSScore := Some (fst (snd v)), EPSSPercentile := Some (snd (snd v))\<rparr>)"

definition merge_records ::
    "string list \<Rightarrow> (string, string) gomap option \<Rightarrow> (string, rat \<times> rat) gomap \<Rightarrow> (string, Record) gomap" where
  "merge_records cves kev epss =
     fold put_epss (filter (\<lambda>v. fst v \<in> set cves) epss)
       (case kev of None \<Rightarrow> [] | Some ks \<Rightarrow> fold put_kev ks (fold (\<lambda>c. on_record c (\<lambda>r. r)) (remdups cves) []))"

definition Fetch :: "feeds \<Rightarrow> string list \<Rightarrow> (Record list \<times> bool) result" where
  "Fetch fd cves =
     (case (fetchKEV fd, fetchEPSS fd cves) of
        (Inl kevErr, Inl epssErr) \<Rightarrow>
          Inl (Wrapf ''enrichment fetch failed: '' (Errorf (Error kevErr @ [CHR 0x0A] @ Error epssErr)))
      | (Inl _, Inr epss) \<Rightarrow> Inr (map snd (merge_records cves None epss), False)
      | (Inr kev, Inl _) \<Rightarrow> Inr (map snd (merge_records cves (Some kev) []), True)
      | (Inr kev, Inr epss) \<Rightarrow> Inr (map snd (merge_records cves (Some kev) epss), True))"

section \<open>The store\<close>

definition active_sbom :: "string \<Rightarrow> store \<Rightarrow> bool" where
  "active_sbom sid s = list_ex (\<lambda>r. ID r = sid \<and> Status r = ''active'') (sboms s)"

definition DistinctActiveCVEs :: "(store, string list) db" where
  "DistinctActiveCVEs =
     db_stmt (Wrapf ''distinct cves: '') (\<lambda>now s.
       (Inr (sort (remdups (map (\<lambda>f. Exposure (f_vuln f))
          (filter (\<lambda>f. active_sbom (f_sbom f) s \<and> prefix ''CVE-'' (Exposure (f_vuln f))) (findings s))))), s))"

definition EnrichmentFreshWithin :: "duration \<Rightarrow> (store, bool) db" where
  "EnrichmentFreshWithin window =
     db_stmt (Wrapf ''enrichment freshness: '') (\<lambda>now s.
       (Inr (list_ex (\<lambda>r. en_updated_at r > now - intervalSeconds window) (enrichments s)), s))"

definition coalesce :: "'a option \<Rightarrow> 'a option \<Rightarrow> 'a option" where
  "coalesce new old = (if new = None then old else new)"

definition refresh_enrichment :: "bool \<Rightarrow> Record \<Rightarrow> time \<Rightarrow> enrichment_row \<Rightarrow> enrichment_row" where
  "refresh_enrichment kevAuthoritative r now x =
     x\<lparr>en_epss_score := coalesce (EPSSScore r) (en_epss_score x),
       en_epss_percentile := coalesce (EPSSPercentile r) (en_epss_percentile x),
       en_kev := (if kevAuthoritative then KEV r else en_kev x \<or> KEV r),
       en_kev_added := (if kevAuthoritative \<or> KEVAdded r \<noteq> [] then KEVAdded r else en_kev_added x),
       en_updated_at := now\<rparr>"

definition put_enrichment :: "bool \<Rightarrow> time \<Rightarrow> Record \<Rightarrow> store \<Rightarrow> store" where
  "put_enrichment kevAuthoritative now r s =
     s\<lparr>enrichments := upsert en_cve (refresh_enrichment kevAuthoritative r now)
        \<lparr>en_cve = CVE r, en_epss_score = EPSSScore r, en_epss_percentile = EPSSPercentile r, en_kev = KEV r,
         en_kev_added = KEVAdded r, en_updated_at = now\<rparr> (enrichments s)\<rparr>"

definition UpsertCVEEnrichment :: "Record list \<Rightarrow> bool \<Rightarrow> (store, unit) db" where
  "UpsertCVEEnrichment recs kevAuthoritative =
     (if recs = [] then db_return ()
      else
        db_tx ''begin enrichment tx: '' (\<lambda>tx_now.
          db_bind (db_stmt (Wrapf ''prepare enrichment upsert: '') (\<lambda>t s. (Inr (), s))) (\<lambda>_.
          db_foreach recs (\<lambda>r.
            db_stmt (Wrapf (''upsert enrichment '' @ CVE r @ '': '')) (\<lambda>t s. (Inr (), put_enrichment kevAuthoritative tx_now r s))))) [])"

section \<open>What the merge holds\<close>

lemma map_of_on_record:
  "map_of (on_record c f m) c' = (if c' = c then Some (f (case map_of m c of None \<Rightarrow> new_record c | Some r \<Rightarrow> r)) else map_of m c')"
  by (simp add: on_record_def map_of_map_put)

lemma distinct_on_record: "distinct (map fst m) \<Longrightarrow> distinct (map fst (on_record c f m))"
  by (simp add: on_record_def distinct_map_put)

text \<open>A pass over entries with distinct keys touches each record once.\<close>

lemma map_of_records:
  assumes "distinct (map fst vs)"
  shows "map_of (fold (\<lambda>v. on_record (fst v) (f v)) vs m) c =
    (case map_of vs c of None \<Rightarrow> map_of m c | Some y \<Rightarrow> Some (f (c, y) (case map_of m c of None \<Rightarrow> new_record c | Some r \<Rightarrow> r)))"
  using assms
proof (induction vs arbitrary: m)
  case (Cons v vs)
  obtain k y where v: "v = (k, y)" by (cases v)
  have "map_of vs k = None" using Cons.prems by (simp add: v map_of_eq_None_iff)
  with Cons show ?case by (simp add: v map_of_on_record split: option.split)
qed simp

lemma distinct_records: "distinct (map fst m) \<Longrightarrow> distinct (map fst (fold (\<lambda>v. on_record (k v) (f v)) vs m))"
  by (induction vs arbitrary: m) (simp_all add: distinct_on_record)

lemma map_of_requested:
  "map_of (fold (\<lambda>c. on_record c (\<lambda>r. r)) cs m) c =
     (if c \<in> set cs \<and> map_of m c = None then Some (new_record c) else map_of m c)"
  by (induction cs arbitrary: m) (auto simp: map_of_on_record split: option.split)

definition record_of :: "string list \<Rightarrow> (string, string) gomap option \<Rightarrow> (string, rat \<times> rat) gomap \<Rightarrow> string \<Rightarrow> Record option" where
  "record_of cves kev epss c =
     (let ks = (case kev of None \<Rightarrow> None | Some ks \<Rightarrow> map_of ks c);
          es = (if c \<in> set cves then map_of epss c else None) in
      if ks = None \<and> es = None \<and> \<not> (kev \<noteq> None \<and> c \<in> set cves) then None
      else Some \<lparr>CVE = c, EPSSScore = map_option fst es, EPSSPercentile = map_option snd es,
        KEV = (ks \<noteq> None), KEVAdded = (case ks of None \<Rightarrow> [] | Some d \<Rightarrow> d)\<rparr>)"

lemma map_of_filter_fst: "map_of (filter (\<lambda>v. P (fst v)) m) c = (if P c then map_of m c else None)"
  by (induction m) auto

lemma map_of_merge:
  assumes "distinct (map fst epss)" and "\<forall>ks. kev = Some ks \<longrightarrow> distinct (map fst ks)"
  shows "map_of (merge_records cves kev epss) c = record_of cves kev epss c"
proof -
  have e: "distinct (map fst (filter (\<lambda>v. fst v \<in> set cves) epss))" using assms(1) by (simp add: distinct_map_filter)
  show ?thesis
  proof (cases kev)
    case None
    then show ?thesis
      unfolding merge_records_def put_epss_def map_of_records [OF e, where f = "\<lambda>v r. r\<lparr>EPSSScore := Some (fst (snd v)), EPSSPercentile := Some (snd (snd v))\<rparr>"]
        map_of_filter_fst [where P = "\<lambda>c. c \<in> set cves"]
      by (auto simp: record_of_def new_record_def Let_def split: option.split)
  next
    case (Some ks')
    then have k: "distinct (map fst ks')" using assms(2) by simp
    show ?thesis
      unfolding merge_records_def put_epss_def put_kev_def Some option.case
        map_of_records [OF e, where f = "\<lambda>v r. r\<lparr>EPSSScore := Some (fst (snd v)), EPSSPercentile := Some (snd (snd v))\<rparr>"]
        map_of_records [OF k, where f = "\<lambda>v r. r\<lparr>KEV := True, KEVAdded := snd v\<rparr>"] map_of_filter_fst [where P = "\<lambda>c. c \<in> set cves"] map_of_requested
      by (auto simp: record_of_def new_record_def Let_def split: option.split)
  qed
qed
lemma distinct_merge: "distinct (map fst (merge_records cves kev epss))"
  unfolding merge_records_def put_epss_def put_kev_def
  by (rule distinct_records) (auto split: option.split intro!: distinct_records [where k = "\<lambda>c. c" and f = "\<lambda>_ r. r"] distinct_records)

section \<open>Storing the records\<close>

definition new_enrichment :: "Record \<Rightarrow> time \<Rightarrow> enrichment_row" where
  "new_enrichment r now = \<lparr>en_cve = CVE r, en_epss_score = EPSSScore r, en_epss_percentile = EPSSPercentile r, en_kev = KEV r,
     en_kev_added = KEVAdded r, en_updated_at = now\<rparr>"

lemma lookup_put_enrichment:
  "lookup_key en_cve (enrichments (put_enrichment auth now r s)) c =
     (if c = CVE r then Some (case lookup_key en_cve (enrichments s) c of
        None \<Rightarrow> new_enrichment r now | Some x \<Rightarrow> refresh_enrichment auth r now x)
      else lookup_key en_cve (enrichments s) c)"
proof -
  have "put_enrichment auth now r s = s\<lparr>enrichments := upsert en_cve (refresh_enrichment auth r now) (new_enrichment r now) (enrichments s)\<rparr>"
    by (simp add: put_enrichment_def new_enrichment_def)
  moreover have "en_cve (refresh_enrichment auth r now x) = en_cve x" for x by (simp add: refresh_enrichment_def)
  moreover have "en_cve (new_enrichment r now) = CVE r" by (simp add: new_enrichment_def)
  ultimately show ?thesis by (simp add: lookup_key_upsert_keep)
qed

lemma lookup_put_enrichments:
  assumes "distinct (map CVE recs)"
  shows "lookup_key en_cve (enrichments (fold (put_enrichment auth now) recs s)) c =
    (case lookup_key CVE recs c of
       None \<Rightarrow> lookup_key en_cve (enrichments s) c
     | Some r \<Rightarrow> Some (case lookup_key en_cve (enrichments s) c of
         None \<Rightarrow> new_enrichment r now | Some x \<Rightarrow> refresh_enrichment auth r now x))"
  using assms
proof (induction recs arbitrary: s)
  case (Cons r recs)
  have "lookup_key CVE recs (CVE r) = None" using Cons.prems by (simp add: lookup_key_None)
  with Cons show ?case by (cases "CVE r = c") (auto simp: lookup_put_enrichment split: option.split)
qed simp

lemma UpsertCVEEnrichment_Inr:
  assumes "UpsertCVEEnrichment recs auth e n s = (Inr (), n', s')"
  shows "s' = fold (put_enrichment auth (clock e n)) recs s"
proof (cases "recs = []")
  case True
  with assms show ?thesis by (simp add: UpsertCVEEnrichment_def)
next
  case False
  have "db_does (db_bind (db_stmt (Wrapf ''prepare enrichment upsert: '') (\<lambda>t s. (Inr (), s))) (\<lambda>_.
      db_foreach recs (\<lambda>r. db_stmt (Wrapf (''upsert enrichment '' @ CVE r @ '': '')) (\<lambda>t s. (Inr (), put_enrichment auth now r s)))))
    (\<lambda>_. ()) (fold (put_enrichment auth now) recs)" for now
    by (rule db_does_bind [OF db_does_stmt db_does_foreach [OF db_does_stmt]])
  from db_doesD [OF this] assms False show ?thesis
    unfolding UpsertCVEEnrichment_def by (auto simp: db_tx_Inr)
qed

lemma lookup_records: "\<forall>(k, r) \<in> set m. CVE r = k \<Longrightarrow> lookup_key CVE (map snd m) c = map_of m c"
  by (induction m) auto

text \<open>The answers of the two feeds to one \<open>Fetch\<close>.\<close>

definition kev_answer :: "feeds \<Rightarrow> (string, string) gomap option" where
  "kev_answer fd = (case fetchKEV fd of Inl _ \<Rightarrow> None | Inr ks \<Rightarrow> Some ks)"

definition epss_answer :: "feeds \<Rightarrow> string list \<Rightarrow> (string, rat \<times> rat) gomap" where
  "epss_answer fd cves = (case fetchEPSS fd cves of Inl _ \<Rightarrow> [] | Inr es \<Rightarrow> es)"

lemma Fetch_Inr:
  "Fetch fd cves = Inr (recs, auth) \<Longrightarrow>
     recs = map snd (merge_records cves (kev_answer fd) (epss_answer fd cves)) \<and> auth = (kev_answer fd \<noteq> None)"
  by (auto simp: Fetch_def kev_answer_def epss_answer_def split: sum.splits)

lemma distinct_kev_answer: "\<forall>ks. kev_answer fd = Some ks \<longrightarrow> distinct (map fst ks)"
  by (auto simp: kev_answer_def fetchKEV_def split: sum.splits)

lemma distinct_epss_foldl: "distinct (map fst m) \<Longrightarrow> distinct (map fst (foldl (\<lambda>m (cve, score, pct). map_put cve (parseFloat fd score, parseFloat fd pct) m) m ds))"
  by (induction ds arbitrary: m) (auto simp: distinct_map_put)

lemma distinct_epss_loop: "distinct (map fst out) \<Longrightarrow> epss_loop fd bs out err = (out', err') \<Longrightarrow> distinct (map fst out')"
  by (induction fd bs out err rule: epss_loop.induct) (auto split: sum.splits intro: distinct_epss_foldl)

lemma distinct_epss_answer: "distinct (map fst (epss_answer fd cves))"
  using distinct_epss_loop [of "[]" fd "chunks epssBatch (filter cveIDPattern cves)" None]
  by (auto simp: epss_answer_def fetchEPSS_def split: sum.splits prod.splits option.splits if_splits)

lemma Fetch_lookup:
  assumes "Fetch fd cves = Inr (recs, auth)"
  shows "lookup_key CVE recs c = record_of cves (kev_answer fd) (epss_answer fd cves) c" and "distinct (map CVE recs)"
proof -
  let ?m = "merge_records cves (kev_answer fd) (epss_answer fd cves)"
  have m: "map_of ?m k = record_of cves (kev_answer fd) (epss_answer fd cves) k" for k
    by (rule map_of_merge [OF distinct_epss_answer distinct_kev_answer])
  have key: "\<forall>(k, r) \<in> set ?m. CVE r = k"
  proof safe
    fix k r assume "(k, r) \<in> set ?m"
    then have "map_of ?m k = Some r" using distinct_merge by (simp add: map_of_is_SomeI)
    then show "CVE r = k" unfolding m by (auto simp: record_of_def Let_def split: if_splits)
  qed
  note recs = conjunct1 [OF Fetch_Inr [OF assms]]
  show "lookup_key CVE recs c = record_of cves (kev_answer fd) (epss_answer fd cves) c"
    unfolding recs m [symmetric] by (rule lookup_records [OF key])
  have "map CVE (map snd ?m) = map fst ?m" using key by (auto simp: map_eq_conv)
  then show "distinct (map CVE recs)" unfolding recs by (simp only: distinct_merge)
qed

section \<open>Properties\<close>

definition kev_flag :: "string \<Rightarrow> store \<Rightarrow> bool" where
  "kev_flag c s = (case lookup_key en_cve (enrichments s) c of None \<Rightarrow> False | Some x \<Rightarrow> en_kev x)"

definition epss_of :: "string \<Rightarrow> store \<Rightarrow> rat option" where
  "epss_of c s = (case lookup_key en_cve (enrichments s) c of None \<Rightarrow> None | Some x \<Rightarrow> en_epss_score x)"

lemma refreshed_flag:
  assumes "Fetch fd cves = Inr (recs, auth)" and "UpsertCVEEnrichment recs auth e n s = (Inr (), n', s')"
  shows "kev_flag c s' =
    (case record_of cves (kev_answer fd) (epss_answer fd cves) c of
       None \<Rightarrow> kev_flag c s
     | Some r \<Rightarrow> if kev_answer fd \<noteq> None then KEV r else kev_flag c s \<or> KEV r)"
  using conjunct2 [OF Fetch_Inr [OF assms(1)]]
  by (auto simp: kev_flag_def UpsertCVEEnrichment_Inr [OF assms(2)] lookup_put_enrichments [OF Fetch_lookup(2) [OF assms(1)]] Fetch_lookup(1) [OF assms(1)]
      new_enrichment_def refresh_enrichment_def split: option.split)

lemma refreshed_score:
  assumes "Fetch fd cves = Inr (recs, auth)" and "UpsertCVEEnrichment recs auth e n s = (Inr (), n', s')"
  shows "epss_of c s' =
    (case record_of cves (kev_answer fd) (epss_answer fd cves) c of None \<Rightarrow> epss_of c s | Some r \<Rightarrow> coalesce (EPSSScore r) (epss_of c s))"
  by (simp add: epss_of_def UpsertCVEEnrichment_Inr [OF assms(2)] lookup_put_enrichments [OF Fetch_lookup(2) [OF assms(1)]] Fetch_lookup(1) [OF assms(1)]
      new_enrichment_def refresh_enrichment_def coalesce_def split: option.split)

lemma Upsert_total: "no_faults e \<Longrightarrow> \<exists>n' s'. UpsertCVEEnrichment recs auth e n s = (Inr (), n', s')"
proof -
  assume e: "no_faults e"
  have "db_total (db_bind (db_stmt (Wrapf ''prepare enrichment upsert: '') (\<lambda>t s. (Inr (), s))) (\<lambda>_.
      db_foreach recs (\<lambda>r. db_stmt (Wrapf (''upsert enrichment '' @ CVE r @ '': '')) (\<lambda>t s. (Inr (), put_enrichment auth now r s)))))" for now
    by (intro db_rules)
  from db_totalD [OF this e, of "clock e n" "Suc n" s] e show ?thesis
    by (auto simp: UpsertCVEEnrichment_def db_tx_Inr no_faults_def)
qed

lemma stored_enrichment:
  assumes "Fetch fd cves = Inr (recs, kevAuthoritative)"
    and "UpsertCVEEnrichment recs kevAuthoritative e n s = (Inr (), n', s')"
  shows "kev_flag c s' =
      (case fetchKEV fd of
         Inl _ \<Rightarrow> kev_flag c s
       | Inr catalog \<Rightarrow> if c \<in> fst ` set catalog then True else if c \<in> set cves then False else kev_flag c s)"
    and "epss_of c s' =
      (case fetchEPSS fd cves of
         Inl _ \<Rightarrow> epss_of c s
       | Inr epss \<Rightarrow> if c \<in> set cves \<and> c \<in> fst ` set epss then map_option fst (map_of epss c) else epss_of c s)"
proof -
  note l = refreshed_flag [OF assms, of c] refreshed_score [OF assms, of c]
  have m: "c \<in> fst ` set kvs \<longleftrightarrow> map_of kvs c \<noteq> None" for kvs :: "(string \<times> 'a) list" by (simp add: map_of_eq_None_iff)
  show "kev_flag c s' =
      (case fetchKEV fd of
         Inl _ \<Rightarrow> kev_flag c s
       | Inr catalog \<Rightarrow> if c \<in> fst ` set catalog then True else if c \<in> set cves then False else kev_flag c s)"
    unfolding l m by (auto simp: record_of_def Let_def kev_answer_def split: sum.split)
  show "epss_of c s' =
      (case fetchEPSS fd cves of
         Inl _ \<Rightarrow> epss_of c s
       | Inr epss \<Rightarrow> if c \<in> set cves \<and> c \<in> fst ` set epss then map_option fst (map_of epss c) else epss_of c s)"
    unfolding l m by (auto simp: record_of_def Let_def epss_answer_def coalesce_def split: sum.split)
qed

text \<open>
  The stored KEV flags follow the catalog and survive its outages. When the catalog could be
  fetched, a refresh that is stored leaves the flag set for exactly the catalog's CVEs among the
  catalog and the requested ones, so a CVE that left the catalog loses its flag; when it could not,
  no flag changes, whatever the other feed delivered. A stored probability is replaced only by a
  new one for a requested CVE.
\<close>

theorem enrichment_converges:
  assumes "Fetch fd cves = Inr (recs, kevAuthoritative)"
    and "UpsertCVEEnrichment recs kevAuthoritative e n s = (Inr (), n', s')"
  shows "kev_flag c s' =
      (case fetchKEV fd of
         Inl _ \<Rightarrow> kev_flag c s
       | Inr catalog \<Rightarrow> if c \<in> fst ` set catalog then True else if c \<in> set cves then False else kev_flag c s) \<and>
    epss_of c s' =
      (case fetchEPSS fd cves of
         Inl _ \<Rightarrow> epss_of c s
       | Inr epss \<Rightarrow> if c \<in> set cves \<and> c \<in> fst ` set epss then map_option fst (map_of epss c) else epss_of c s)"
  using stored_enrichment [OF assms] by blast

definition demo_feeds :: feeds where
  "demo_feeds = \<lparr>new_request = (\<lambda>_. None),
     do_request = (\<lambda>url. if url = KEVURL then Inr (200, ''k'', None) else Inl (Driver ''timeout'')),
     json_parse = (\<lambda>_. Inr (JObj [(''vulnerabilities'', JArr [JObj [(''cveID'', JStr ''CVE-2024-0001''), (''dateAdded'', JStr ''2024-01-01'')]])])),
     scan_float = (\<lambda>_. None)\<rparr>"

definition demo_enriched :: store where
  "demo_enriched = empty_store\<lparr>enrichments := [\<lparr>en_cve = ''CVE-2023-0009'', en_epss_score = Some (1 / 2), en_epss_percentile = None,
     en_kev = True, en_kev_added = ''2023-01-01'', en_updated_at = 0\<rparr>]\<rparr>"

lemma demo_catalog: "fetchKEV demo_feeds = Inr [(''CVE-2024-0001'', ''2024-01-01'')]"
proof -
  have "get demo_feeds KEVURL = Inr ''k''" by (simp add: get_def demo_feeds_def maxFeedResponseBytes_def)
  moreover have "unmarshal demo_feeds kevCatalog ''k'' = Inr [(''CVE-2024-0001'', ''2024-01-01'')]" by code_simp
  ultimately show ?thesis by (simp add: fetchKEV_def map_from_def map_put_def)
qed

lemma demo_EPSS: "fetchEPSS demo_feeds [''CVE-2023-0009''] = Inl (Driver ''timeout'')"
proof -
  have "chunks epssBatch (filter cveIDPattern [''CVE-2023-0009'']) = [[''CVE-2023-0009'']]" by code_simp
  moreover have "epss_url [''CVE-2023-0009''] \<noteq> KEVURL" by (simp add: epss_url_def EPSSAPIURL_def KEVURL_def)
  then have "epss_batch demo_feeds [''CVE-2023-0009''] = Inl (Driver ''timeout'')"
    by (simp add: epss_batch_def get_def demo_feeds_def)
  ultimately show ?thesis by (simp add: fetchEPSS_def)
qed

theorem enrichment_converges_witness:
  "\<exists>recs n' s'. Fetch demo_feeds [''CVE-2023-0009''] = Inr (recs, True) \<and>
     UpsertCVEEnrichment recs True (calm_env 7) 0 demo_enriched = (Inr (), n', s') \<and>
     kev_flag ''CVE-2023-0009'' demo_enriched \<and> \<not> kev_flag ''CVE-2023-0009'' s' \<and> kev_flag ''CVE-2024-0001'' s' \<and>
     epss_of ''CVE-2023-0009'' s' = Some (1 / 2)"
proof -
  obtain recs where 1: "Fetch demo_feeds [''CVE-2023-0009''] = Inr (recs, True)" by (simp add: Fetch_def demo_catalog demo_EPSS)
  obtain n' s' where 2: "UpsertCVEEnrichment recs True (calm_env 7) 0 demo_enriched = (Inr (), n', s')"
    using Upsert_total [of "calm_env 7"] by force
  have "epss_of ''CVE-2023-0009'' s' = Some (1 / 2)"
    using enrichment_converges [OF 1 2, of "''CVE-2023-0009''"] by (simp add: epss_of_def demo_enriched_def demo_EPSS)
  moreover have "\<not> kev_flag ''CVE-2023-0009'' s'" "kev_flag ''CVE-2024-0001'' s'"
    using enrichment_converges [OF 1 2] by (simp_all add: demo_catalog)
  ultimately show ?thesis using 1 2 by (auto simp: kev_flag_def demo_enriched_def)
qed

end
