(* ===== verification/Scan_Runner.thy ===== *)
theory Scan_Runner
  imports Alert Enrichment
begin

text \<open>
  The scan job: \<open>pkg/scan/scan.go\<close>. For every SBOM that is due, the job fetches the document,
  backfills its package inventory, canonicalizes it, runs every scanner on it, converts the report
  and applies it; then it refreshes the risk context, evaluates alerts and takes snapshots.

  The state of the job is the store and its temporary files. What happens outside of both is the
  record \<open>tools\<close>: the blob store, the canonicalizer, the scanners, the file system's answers and the
  JSON parser. Each answer may depend on the moment of the call, told by the number of database
  statements before it, and is a value, an error or a panic. Inside the code of one SBOM an \<open>Inl\<close> is a
  panic on its way up; the errors of the store's operations are values there.
\<close>

section \<open>The world of the job\<close>

datatype 'a outcome = Ok 'a | Err go_error | Panic string

record world =
  w_store :: store
  w_files :: "(string \<times> string) list"

record tools =
  FetchBlob :: "nat \<Rightarrow> string \<Rightarrow> string outcome"
  Canonicalize :: "nat \<Rightarrow> string \<Rightarrow> string \<Rightarrow> string outcome"
  CanonVersion :: string
  ExtractPackages :: "string \<Rightarrow> PackageLicense list outcome"
  CreateTemp :: "nat \<Rightarrow> string \<Rightarrow> string list \<Rightarrow> string result"
  WriteFile :: "nat \<Rightarrow> string \<Rightarrow> go_error option"
  ReadFile :: "nat \<Rightarrow> string \<Rightarrow> go_error option"
  EnsureDB :: "nat \<Rightarrow> string \<Rightarrow> go_error option"
  tool_DBVersion :: "string \<Rightarrow> string"
  tool_Version :: "string \<Rightarrow> string"
  ScanSBOM :: "nat \<Rightarrow> string \<Rightarrow> string option \<Rightarrow> string \<times> unit outcome"
  ParseJSON :: "string \<Rightarrow> json outcome"
  fmt_v :: "json \<Rightarrow> string"
  Deadline :: "nat \<Rightarrow> nat \<Rightarrow> go_error option"

definition on_store :: "(store, 'a) db \<Rightarrow> (world, 'a) db" where
  "on_store m e n w = (case m e n (w_store w) of (r, n', s') \<Rightarrow> (r, n', w\<lparr>w_store := s'\<rparr>))"

definition panicked :: "string \<Rightarrow> go_error" where
  "panicked m = Errorf (''panic: '' @ m)"

text \<open>A call of a tool: its error is a value, its panic goes up.\<close>

definition call_tool :: "(nat \<Rightarrow> 'a outcome) \<Rightarrow> (world, 'a result) db" where
  "call_tool f e n w =
     (case f n of Ok x \<Rightarrow> (Inr (Inr x), n, w) | Err err \<Rightarrow> (Inr (Inl err), n, w) | Panic m \<Rightarrow> (Inl (panicked m), n, w))"

text \<open>\<open>defer\<close> with \<open>recover\<close>, and \<open>defer\<close> of a clean-up.\<close>

definition db_recover :: "(world, unit) db \<Rightarrow> (go_error \<Rightarrow> (world, unit) db) \<Rightarrow> (world, unit) db" where
  "db_recover m h e n w = (case m e n w of (Inl p, n', w') \<Rightarrow> h p e n' w' | (Inr x, n', w') \<Rightarrow> (Inr x, n', w'))"

definition db_finally :: "(world, 'a) db \<Rightarrow> (world \<Rightarrow> world) \<Rightarrow> (world, 'a) db" where
  "db_finally m f e n w = (case m e n w of (r, n', w') \<Rightarrow> (r, n', f w'))"

section \<open>Temporary files\<close>

definition remove_file :: "string \<Rightarrow> world \<Rightarrow> world" where
  "remove_file path w = w\<lparr>w_files := filter (\<lambda>f. fst f \<noteq> path) (w_files w)\<rparr>"

definition put_file :: "string \<Rightarrow> string \<Rightarrow> world \<Rightarrow> world" where
  "put_file path b w = w\<lparr>w_files := (path, b) # filter (\<lambda>f. fst f \<noteq> path) (w_files w)\<rparr>"

text \<open>\<open>filepath.Base\<close>.\<close>

definition safe :: "string \<Rightarrow> string" where
  "safe s =
     (if s = [] then ''.''
      else
        (let t = rev (dropWhile (\<lambda>c. c = CHR ''/'') (rev s));
             u = rev (takeWhile (\<lambda>c. c \<noteq> CHR ''/'') (rev t))
         in if u = [] then ''/'' else u))"

definition create_temp :: "tools \<Rightarrow> string \<Rightarrow> (world, string result) db" where
  "create_temp tk pattern e n w =
     (case CreateTemp tk n pattern (map fst (w_files w)) of
        Inl err \<Rightarrow> (Inr (Inl err), n, w)
      | Inr path \<Rightarrow> (Inr (Inr path), n, put_file path [] w))"

definition writeTemp :: "tools \<Rightarrow> string \<Rightarrow> string \<Rightarrow> (world, string result) db" where
  "writeTemp tk sid b =
     db_bind (create_temp tk (''devradar-sbom-'' @ safe sid @ ''-*.json'')) (\<lambda>r.
     case r of
       Inl err \<Rightarrow> db_return (Inl err)
     | Inr path \<Rightarrow> (\<lambda>e n w.
         case WriteFile tk n path of
           Some err \<Rightarrow> (Inr (Inl err), n, remove_file path w)
         | None \<Rightarrow> (Inr (Inr path), n, put_file path b w)))"

definition tempOut :: "tools \<Rightarrow> string \<Rightarrow> string \<Rightarrow> (world, string result) db" where
  "tempOut tk sid scanner = create_temp tk (''devradar-out-'' @ safe sid @ ''-'' @ scanner @ ''-*.json'')"

definition maxScannerOutputBytes :: nat where
  "maxScannerOutputBytes = 268435456"

definition parseJSONBounded :: "tools \<Rightarrow> string \<Rightarrow> nat \<Rightarrow> (world, json result) db" where
  "parseJSONBounded tk path limit e n w =
     (case map_of (w_files w) path of
        None \<Rightarrow> (Inr (Inl (Driver (''open '' @ path @ '': no such file or directory''))), n, w)
      | Some b \<Rightarrow>
          (case ReadFile tk n path of
             Some err \<Rightarrow> (Inr (Inl err), n, w)
           | None \<Rightarrow>
               if length b > limit then (Inr (Inl (Errorf (''scanner output exceeds '' @ nat_text limit @ '' bytes''))), n, w)
               else call_tool (\<lambda>_. ParseJSON tk b) e n w))"

text \<open>A scanner reads the SBOM's file and writes its report, or a part of it, to the output's.\<close>

definition exec_scanner :: "tools \<Rightarrow> string \<Rightarrow> string \<Rightarrow> string \<Rightarrow> (world, unit result) db" where
  "exec_scanner tk scanner sbomPath out e n w =
     (case ScanSBOM tk n scanner (map_of (w_files w) sbomPath) of
        (report, r) \<Rightarrow> call_tool (\<lambda>_. r) e n (put_file out report w))"

section \<open>Recording failures\<close>

definition recordFailure :: "string \<Rightarrow> string \<Rightarrow> string \<Rightarrow> go_error \<Rightarrow> (world, unit) db" where
  "recordFailure sid scanner stage cause = on_store (RecordScanFailure sid scanner stage (Some cause))"

definition record_attempt :: "(int \<Rightarrow> int) \<Rightarrow> string \<Rightarrow> string \<Rightarrow> go_error \<Rightarrow> string \<Rightarrow> (world, unit) db" where
  "record_attempt oor sid stage cause scanner =
     db_ignore (on_store (RecordScannerAttemptFailure oor sid scanner (stage @ '': '' @ Error cause)))"

definition recordScannerFailure :: "(int \<Rightarrow> int) \<Rightarrow> string \<Rightarrow> string \<Rightarrow> string \<Rightarrow> go_error \<Rightarrow> (world, unit) db" where
  "recordScannerFailure oor sid scanner stage cause =
     db_bind (recordFailure sid scanner stage cause) (\<lambda>_. record_attempt oor sid stage cause scanner)"

record readyScanner =
  rs_name :: string
  rs_ver :: Versions

definition recordSharedFailure :: "(int \<Rightarrow> int) \<Rightarrow> SBOM \<Rightarrow> readyScanner list \<Rightarrow> string \<Rightarrow> go_error \<Rightarrow> (world, unit) db" where
  "recordSharedFailure oor sb ready stage cause =
     db_bind (recordFailure (ID sb) [] stage cause) (\<lambda>_. db_foreach (map rs_name ready) (record_attempt oor (ID sb) stage cause))"

section \<open>One SBOM\<close>

definition zeroFindingFloor :: int where
  "zeroFindingFloor = 5"

definition zero_findings :: "SBOM \<Rightarrow> go_error" where
  "zero_findings sb = Errorf (''0 findings on sbom with '' @ itoa (PackageCount sb) @ '' packages (recorded; may be a clean image)'')"

definition persist_scan :: "(int \<Rightarrow> int) \<Rightarrow> SBOM \<Rightarrow> readyScanner \<Rightarrow> vulnerability list \<Rightarrow> (world, unit) db" where
  "persist_scan oor sb sc vulns =
     db_bind (if vulns = [] \<and> PackageCount sb > zeroFindingFloor
              then recordFailure (ID sb) (rs_name sc) ''zero-findings'' (zero_findings sb) else db_return ()) (\<lambda>_.
     db_bind (db_try (on_store (ApplyScan sb (rs_name sc) (rs_ver sc) vulns))) (\<lambda>r.
     case r of
       Inl err \<Rightarrow> recordScannerFailure oor (ID sb) (rs_name sc) ''persist'' err
     | Inr _ \<Rightarrow> db_ignore (on_store (ClearScannerAttempt (ID sb) (rs_name sc)))))"

definition scan_report :: "(int \<Rightarrow> int) \<Rightarrow> tools \<Rightarrow> SBOM \<Rightarrow> readyScanner \<Rightarrow> string \<Rightarrow> string \<Rightarrow> (world, unit) db" where
  "scan_report oor tk sb sc sbomPath out =
     (let failed = recordScannerFailure oor (ID sb) (rs_name sc) in
      db_bind (exec_scanner tk (rs_name sc) sbomPath out) (\<lambda>r.
      case r of
        Inl err \<Rightarrow> failed ''scan'' err
      | Inr _ \<Rightarrow>
          db_bind (parseJSONBounded tk out maxScannerOutputBytes) (\<lambda>r.
          case r of
            Inl err \<Rightarrow> failed ''parse'' err
          | Inr doc \<Rightarrow>
              (case Detect (DefaultRegistry (fmt_v tk)) (Some doc) of
                 Inl err \<Rightarrow> failed ''detect'' err
               | Inr conv \<Rightarrow> (\<lambda>e n.
                   (case Convert conv (Deadline tk n) (Some doc) of
                      Inl err \<Rightarrow> failed ''convert'' err
                    | Inr vulns \<Rightarrow> persist_scan oor sb sc vulns) e n)))))"

definition scanWith :: "(int \<Rightarrow> int) \<Rightarrow> tools \<Rightarrow> SBOM \<Rightarrow> string \<Rightarrow> readyScanner \<Rightarrow> (world, unit) db" where
  "scanWith oor tk sb sbomPath sc =
     db_bind (db_try (on_store (ScannerAttemptDue (ID sb) (rs_name sc)))) (\<lambda>d.
     if d = Inr False then db_return ()
     else
       db_recover
         (db_bind (tempOut tk (ID sb) (rs_name sc)) (\<lambda>r.
          case r of
            Inl err \<Rightarrow> recordScannerFailure oor (ID sb) (rs_name sc) ''scan'' err
          | Inr out \<Rightarrow> db_finally (scan_report oor tk sb sc sbomPath out) (remove_file out)))
         (recordScannerFailure oor (ID sb) (rs_name sc) ''panic''))"

definition backfillLicenses :: "tools \<Rightarrow> SBOM \<Rightarrow> string \<Rightarrow> (world, unit) db" where
  "backfillLicenses tk sb raw =
     db_bind (db_try (on_store (HasSBOMPackages (ID sb)))) (\<lambda>r.
     case r of
       Inl err \<Rightarrow> recordFailure (ID sb) [] ''license-extract'' err
     | Inr has \<Rightarrow>
         if has then db_return ()
         else
           db_bind (call_tool (\<lambda>_. ExtractPackages tk raw)) (\<lambda>r.
           case r of
             Inl _ \<Rightarrow> db_return ()
           | Inr pkgs \<Rightarrow>
               if pkgs = [] then db_return ()
               else
                 db_bind (db_try (on_store (UpsertSBOMPackages (ID sb) pkgs))) (\<lambda>r.
                 case r of Inl err \<Rightarrow> recordFailure (ID sb) [] ''license-extract'' err | Inr _ \<Rightarrow> db_return ())))"

definition scan_local :: "(int \<Rightarrow> int) \<Rightarrow> tools \<Rightarrow> SBOM \<Rightarrow> readyScanner list \<Rightarrow> string \<Rightarrow> (world, unit) db" where
  "scan_local oor tk sb ready path =
     db_bind (db_foreach ready (scanWith oor tk sb path)) (\<lambda>_.
     db_ignore (on_store (ClearRescanRequested (ID sb))))"

definition scanOne :: "(int \<Rightarrow> int) \<Rightarrow> tools \<Rightarrow> readyScanner list \<Rightarrow> SBOM \<Rightarrow> (world, unit) db" where
  "scanOne oor tk ready sb =
     db_recover
       (db_bind (call_tool (\<lambda>n. FetchBlob tk n (ObjectPath sb))) (\<lambda>r.
        case r of
          Inl err \<Rightarrow> recordSharedFailure oor sb ready ''download'' err
        | Inr raw \<Rightarrow>
            db_bind (backfillLicenses tk sb raw) (\<lambda>_.
            db_bind (call_tool (\<lambda>n. Canonicalize tk n raw (Format sb))) (\<lambda>r.
            case r of
              Inl err \<Rightarrow> recordSharedFailure oor sb ready ''canonicalize'' err
            | Inr cdx \<Rightarrow>
                db_bind (writeTemp tk (ID sb) cdx) (\<lambda>r.
                case r of
                  Inl err \<Rightarrow> recordSharedFailure oor sb ready ''canonicalize'' err
                | Inr path \<Rightarrow> db_finally (scan_local oor tk sb ready path) (remove_file path))))))
       (recordFailure (ID sb) [] ''panic'')"

section \<open>The run\<close>

record Runner =
  r_tools :: tools
  r_scanners :: "string list"
  r_enricher :: "feeds option"
  r_compare :: "compare_db option"
  r_maintenance :: "(store, unit) db list"
  r_ScanMaxAge :: duration
  r_EnrichMinInterval :: duration
  r_done :: "nat \<Rightarrow> go_error option"
  r_oor :: "int \<Rightarrow> int"

definition runFailureSentinel :: string where
  "runFailureSentinel = ''-''"

text \<open>The scanners whose database could be refreshed, with the versions of the run.\<close>

fun ready_scanners :: "tools \<Rightarrow> string list \<Rightarrow> (world, readyScanner list) db" where
  "ready_scanners tk [] = db_return []"
| "ready_scanners tk (sc # scs) = (\<lambda>e n.
     (case EnsureDB tk n sc of
        Some err \<Rightarrow> db_bind (recordFailure runFailureSentinel sc ''ensure-db'' err) (\<lambda>_. ready_scanners tk scs)
      | None \<Rightarrow>
          db_bind (ready_scanners tk scs) (\<lambda>ready.
          db_return (\<lparr>rs_name = sc, rs_ver = \<lparr>DBVersion = tool_DBVersion tk sc, ScannerVersion = tool_Version tk sc,
            CanonicalizerVersion = CanonVersion tk\<rparr>\<rparr> # ready))) e n)"

definition scan_all :: "Runner \<Rightarrow> readyScanner list \<Rightarrow> SBOM list \<Rightarrow> (world, unit) db" where
  "scan_all r ready sbs = db_foreach sbs (\<lambda>sb. db_bind (db_ctx (r_done r)) (\<lambda>_. scanOne (r_oor r) (r_tools r) ready sb))"

definition scanDue :: "Runner \<Rightarrow> SBOM list \<Rightarrow> string list \<Rightarrow> (world, unit) db" where
  "scanDue r pending allNames =
     db_bind (ready_scanners (r_tools r) (r_scanners r)) (\<lambda>ready.
     if ready = [] then
       db_fail (Errorf (''no scanners available after db refresh ('' @ nat_text (length (r_scanners r)) @ '' attempted)''))
     else if length ready < length allNames then
       db_bind (db_try (on_store (ListScannableSBOMs (r_ScanMaxAge r) (map rs_name ready)))) (\<lambda>l.
       case l of
         Inl err \<Rightarrow> db_fail (Wrapf ''list scannable sboms: '' err)
       | Inr sbs \<Rightarrow> scan_all r ready sbs)
     else scan_all r ready pending)"

definition refreshEnrichment :: "Runner \<Rightarrow> (world, unit) db" where
  "refreshEnrichment r =
     (case r_enricher r of
        None \<Rightarrow> db_return ()
      | Some fd \<Rightarrow>
          db_bind (if r_EnrichMinInterval r > 0 then db_try (on_store (EnrichmentFreshWithin (r_EnrichMinInterval r)))
                   else db_return (Inr False)) (\<lambda>fresh.
          if fresh = Inr True then db_return ()
          else
            db_bind (db_try (on_store DistinctActiveCVEs)) (\<lambda>l.
            case l of
              Inl _ \<Rightarrow> db_return ()
            | Inr cves \<Rightarrow>
                if cves = [] then db_return ()
                else
                  (case Fetch fd cves of
                     Inl _ \<Rightarrow> db_return ()
                   | Inr (recs, kevAuthoritative) \<Rightarrow> db_ignore (on_store (UpsertCVEEnrichment recs kevAuthoritative))))))"

definition Execute :: "Runner \<Rightarrow> (world, unit) db" where
  "Execute r =
     (let allNames = r_scanners r in
      db_bind (db_try (on_store (ListScannableSBOMs (r_ScanMaxAge r) allNames))) (\<lambda>l.
      case l of
        Inl err \<Rightarrow> db_fail (Wrapf ''list scannable sboms: '' err)
      | Inr pending \<Rightarrow>
          db_bind (if pending \<noteq> [] then scanDue r pending allNames else db_return ()) (\<lambda>_.
          db_bind (refreshEnrichment r) (\<lambda>_.
          db_bind (db_ignore (on_store (EvaluateAlerts (r_compare r) (r_done r) [] 0))) (\<lambda>_.
          db_foreach (r_maintenance r) (\<lambda>m. db_ignore (on_store m)))))))"

section \<open>The toolchain gate\<close>

definition requireCompleteToolchain :: "string list \<Rightarrow> bool \<Rightarrow> go_error option" where
  "requireCompleteToolchain available syftOK =
     (let missing = filter (\<lambda>want. want \<notin> set available) [''grype'', ''trivy''] @ (if syftOK then [] else [''syft''])
      in if missing = [] then None
         else Some (Errorf (''incomplete scanner toolchain: missing ['' @ Join missing '' '' @
           ''] (DEVRADAR_REQUIRE_COMPLETE_TOOLCHAIN is set); check the scan-job image'')))"

section \<open>What a scan leaves alone\<close>

text \<open>The tables \<open>ApplyScan\<close> does not write.\<close>

definition other_tables where
  "other_tables s = (tenants s, sboms s, enrichments s, attempts s, failures s, packages s, policies s, alerts s, alert_failures s, cursors s)"

lemma other_tables_sync [simp]:
  "other_tables (emit_change sb scanner ver cause rid now fid c s) = other_tables s"
  "other_tables (put_finding sid sc fid v t s) = other_tables s"
  "other_tables (del_finding sid sc fid s) = other_tables s"
  "other_tables (add_run sid sc ver now vulns s) = other_tables s"
  "other_tables (put_rollup sid t s) = other_tables s"
  by (auto simp: other_tables_def emit_change_def emit_event_def insert_event_def enqueue_alert_def put_finding_def del_finding_def
      add_run_def put_rollup_def Let_def)

lemma apply_core_rest:
  "other_tables (apply_core sb scanner ver vulns now tx_now s) = other_tables s"
  "scan_runs (apply_core sb scanner ver vulns now tx_now s) = scan_runs s @ [new_run (ID sb) scanner ver now vulns (next_row_id s)]"
proof -
  have "other_tables (sync_findings sb scanner ver cause rid now prev inc (add_run (ID sb) scanner ver now vulns s)) = other_tables s" for cause rid prev inc
    unfolding sync_findings_def by (rule sync_invariant [where P = "\<lambda>s'. other_tables s' = other_tables s"]) simp_all
  then show "other_tables (apply_core sb scanner ver vulns now tx_now s) = other_tables s" by (simp add: apply_core_def)
  have "scan_runs (sync_findings sb scanner ver cause rid now prev inc (add_run (ID sb) scanner ver now vulns s)) =
      scan_runs (add_run (ID sb) scanner ver now vulns s)" for cause rid prev inc
    unfolding sync_findings_def
    by (rule sync_invariant [where P = "\<lambda>s'. scan_runs s' = scan_runs (add_run (ID sb) scanner ver now vulns s)"])
       (simp_all add: sync_frames, simp_all add: put_finding_def del_finding_def)
  then show "scan_runs (apply_core sb scanner ver vulns now tx_now s) = scan_runs s @ [new_run (ID sb) scanner ver now vulns (next_row_id s)]"
    by (simp add: apply_core_def add_run_def)
qed

section \<open>Nothing stops the batch\<close>

text \<open>\<open>db_ok m\<close>: whatever fails, \<open>m\<close> returns.\<close>

definition db_ok :: "('s, 'a) db \<Rightarrow> bool" where
  "db_ok m \<longleftrightarrow> (\<forall>e n s. \<exists>x n' s'. m e n s = (Inr x, n', s'))"

named_theorems ok_rules "rules for programs that always return"

lemma db_okD: "db_ok m \<Longrightarrow> \<exists>x n' s'. m e n s = (Inr x, n', s')"
  by (simp add: db_ok_def)

lemma ok_return [ok_rules]: "db_ok (db_return x)"
  by (simp add: db_ok_def)

lemma ok_ignore [ok_rules]: "db_ok (db_ignore m)"
  by (simp add: db_ok_def db_ignore_def split: prod.split)

lemma ok_try [ok_rules]: "db_ok (db_try m)"
  by (simp add: db_ok_def db_try_def split: prod.split)

lemma ok_bind [ok_rules]: "db_ok m \<Longrightarrow> (\<And>x. db_ok (f x)) \<Longrightarrow> db_ok (db_bind m f)"
  unfolding db_ok_def by (metis db_bind_Inr)

lemma ok_foreach [ok_rules]: "(\<And>x. db_ok (f x)) \<Longrightarrow> db_ok (db_foreach xs f)"
  by (induction xs) (auto intro: ok_rules)

lemma ok_on_store [ok_rules]: "db_ok m \<Longrightarrow> db_ok (on_store m)"
  unfolding db_ok_def on_store_def by (auto split: prod.split) (metis prod.inject)

lemma ok_recover [ok_rules]: "(\<And>p. db_ok (h p)) \<Longrightarrow> db_ok (db_recover m h)"
  unfolding db_ok_def db_recover_def by (auto split: prod.split sum.split)

lemma ok_recordFailure [ok_rules]: "db_ok (recordFailure sid scanner stage cause)"
  unfolding recordFailure_def RecordScanFailure_def by (intro ok_rules)

lemma ok_record_attempt [ok_rules]: "db_ok (record_attempt oor sid stage cause scanner)"
  unfolding record_attempt_def by (intro ok_rules)

lemma ok_recordScannerFailure [ok_rules]: "db_ok (recordScannerFailure oor sid scanner stage cause)"
  unfolding recordScannerFailure_def by (intro ok_rules)

lemma ok_scanOne [ok_rules]: "db_ok (scanOne oor tk ready sb)"
  unfolding scanOne_def by (intro ok_rules)

lemma ok_ready: "db_ok (ready_scanners tk scs)"
proof (induction scs)
  case Nil
  show ?case unfolding ready_scanners.simps by (rule ok_return)
next
  case (Cons sc scs)
  show ?case
    unfolding db_ok_def ready_scanners.simps
    using db_okD [OF ok_bind [OF ok_recordFailure Cons.IH]] db_okD [OF ok_bind [OF Cons.IH ok_return]] by (auto split: option.split)
qed

lemma ok_refreshEnrichment: "db_ok (refreshEnrichment r)"
  unfolding refreshEnrichment_def
  by (auto split: option.split sum.split intro!: ok_rules)

lemma scan_all_Inl:
  "scan_all r ready sbs e n w = (Inl err, n', w') \<Longrightarrow> \<exists>k. r_done r k = Some err"
proof (induction sbs arbitrary: n w)
  case (Cons sb sbs)
  obtain x n1 w1 where "scanOne (r_oor r) (r_tools r) ready sb e n w = (Inr x, n1, w1)" using db_okD [OF ok_scanOne] by blast
  with Cons show ?case by (auto simp: scan_all_def db_bind_def db_ctx_def split: option.splits)
qed (simp add: scan_all_def)

text \<open>The failures of a whole run.\<close>

definition whole_run_failure :: "Runner \<Rightarrow> go_error \<Rightarrow> bool" where
  "whole_run_failure r err \<longleftrightarrow>
     (\<exists>cause. err = Wrapf ''list scannable sboms: '' cause) \<or>
     err = Errorf (''no scanners available after db refresh ('' @ nat_text (length (r_scanners r)) @ '' attempted)'') \<or>
     (\<exists>k. r_done r k = Some err)"

lemma scanDue_Inl:
  assumes "scanDue r pending allNames e n w = (Inl err, n', w')"
  shows "whole_run_failure r err"
proof -
  obtain ready n1 w1 where 1: "ready_scanners (r_tools r) (r_scanners r) e n w = (Inr ready, n1, w1)"
    using db_okD [OF ok_ready] by blast
  with assms show ?thesis
    by (auto simp: scanDue_def db_bind_def db_try_def whole_run_failure_def split: if_splits prod.splits sum.splits dest: scan_all_Inl)
qed

text \<open>
  One bad SBOM, one bad scanner or one bad statement never ends a run. Whatever the tools answer,
  whichever of their calls panic and whichever database statements fail, \<open>Execute\<close> reports an error
  only for a failure of the whole run: the due SBOMs cannot be listed, no scanner's database could
  be refreshed, or the job's context is done.
\<close>

theorem Execute_whole_run_failures:
  assumes "Execute r e n w = (Inl err, n', w')"
  shows "whole_run_failure r err"
proof -
  have m: "db_ok (db_foreach (r_maintenance r) (\<lambda>m. db_ignore (on_store m)))" by (intro ok_rules)
  have a: "db_ok (db_ignore (on_store (EvaluateAlerts (r_compare r) (r_done r) [] 0)))" by (intro ok_rules)
  have tail: "db_ok (db_bind (refreshEnrichment r) (\<lambda>_.
      db_bind (db_ignore (on_store (EvaluateAlerts (r_compare r) (r_done r) [] 0))) (\<lambda>_.
      db_foreach (r_maintenance r) (\<lambda>m. db_ignore (on_store m)))))" (is "db_ok ?t")
    using ok_bind [OF ok_refreshEnrichment ok_bind [OF a m]] .
  have t: "?t e k v \<noteq> (Inl err, n', w')" for k v using db_okD [OF tail, of e k v] by auto
  show ?thesis
    using assms t unfolding Execute_def Let_def
    by (auto simp: db_bind_def [of "db_try m" for m] db_bind_def [of "if b then x else y" for b x y] db_try_def
        split: prod.splits sum.splits if_splits dest: scanDue_Inl)
       (auto simp: whole_run_failure_def)
qed

section \<open>Temporary files\<close>

text \<open>\<open>os.CreateTemp\<close> makes a new file.\<close>

definition fresh_temp :: "tools \<Rightarrow> bool" where
  "fresh_temp tk \<longleftrightarrow> (\<forall>n pattern names path. CreateTemp tk n pattern names = Inr path \<longrightarrow> path \<notin> set names)"

abbreviation same_files :: "world \<Rightarrow> world \<Rightarrow> bool" where
  "same_files w w' \<equiv> w_files w' = w_files w"

definition same_but :: "string \<Rightarrow> world \<Rightarrow> world \<Rightarrow> bool" where
  "same_but path w w' \<longleftrightarrow> filter (\<lambda>f. fst f \<noteq> path) (w_files w') = filter (\<lambda>f. fst f \<noteq> path) (w_files w)"

named_theorems file_rules "what the job's programs do to the temporary files"

lemma files_on_store [file_rules]: "db_keeps same_files (on_store m)"
  by (auto simp: db_keeps_def on_store_def split: prod.splits)

lemma files_call_tool [file_rules]: "db_keeps same_files (call_tool f)"
  by (auto simp: db_keeps_def call_tool_def split: outcome.splits)

lemma files_recover: "db_keeps R m \<Longrightarrow> (\<And>p. db_keeps R (h p)) \<Longrightarrow> (\<And>a b c. R a b \<Longrightarrow> R b c \<Longrightarrow> R a c) \<Longrightarrow> db_keeps R (db_recover m h)"
  unfolding db_keeps_def db_recover_def by (auto split: prod.splits sum.splits) blast+

lemma files_recordFailure [file_rules]: "db_keeps same_files (recordFailure sid scanner stage cause)"
  unfolding recordFailure_def by (rule files_on_store)

lemma files_record_attempt [file_rules]: "db_keeps same_files (record_attempt oor sid stage cause scanner)"
  unfolding record_attempt_def by (intro db_keeps_ignore files_on_store)

lemma files_recordScannerFailure [file_rules]: "db_keeps same_files (recordScannerFailure oor sid scanner stage cause)"
  unfolding recordScannerFailure_def by (intro db_keeps_rules file_rules) simp

lemma files_recordSharedFailure [file_rules]: "db_keeps same_files (recordSharedFailure oor sb ready stage cause)"
  unfolding recordSharedFailure_def by (intro db_keeps_rules file_rules) simp_all

lemma files_persist [file_rules]: "db_keeps same_files (persist_scan oor sb sc vulns)"
  unfolding persist_scan_def by (auto split: sum.split intro!: db_keeps_rules file_rules)

lemma files_parse [file_rules]: "db_keeps same_files (parseJSONBounded tk path limit)"
  by (auto simp: db_keeps_def parseJSONBounded_def call_tool_def split: option.splits if_splits outcome.splits)

lemma same_but_refl: "same_but path w w"
  by (simp add: same_but_def)

lemma same_but_trans: "same_but path a b \<Longrightarrow> same_but path b c \<Longrightarrow> same_but path a c"
  by (simp add: same_but_def)

lemma same_but_same: "same_files w w' \<Longrightarrow> same_but path w w'"
  by (simp add: same_but_def)

lemma files_exec_scanner: "db_keeps (same_but out) (exec_scanner tk scanner path out)"
  by (auto simp: db_keeps_def exec_scanner_def call_tool_def same_but_def put_file_def split: prod.splits outcome.splits)

lemma files_scan_report: "db_keeps (same_but out) (scan_report oor tk sb sc path out)"
proof -
  have k: "db_keeps (same_but out) m" if "db_keeps same_files m" for m :: "(world, 'a) db"
    using that by (rule db_keeps_mono) (rule same_but_same)
  have conv: "db_keeps same_files (\<lambda>e n. (case Convert conv (Deadline tk n) (Some doc) of
      Inl err \<Rightarrow> recordScannerFailure oor (ID sb) (rs_name sc) ''convert'' err | Inr vulns \<Rightarrow> persist_scan oor sb sc vulns) e n)" for conv doc
    using files_recordScannerFailure files_persist by (auto simp: db_keeps_def split: sum.splits)
  show ?thesis
    unfolding scan_report_def Let_def
    by (rule db_keeps_bind [OF same_but_trans files_exec_scanner], assumption+)
       (auto split: sum.split intro!: k db_keeps_rules file_rules conv)
qed

lemma temp_cleaned:
  assumes "path \<notin> fst ` set (w_files w)" and "same_but path w w'"
  shows "w_files (remove_file path w') = w_files w"
  using assms by (auto simp: same_but_def remove_file_def filter_id_conv)

text \<open>A program that makes a new file or fails without one.\<close>

definition makes_temp :: "(world, string result) db \<Rightarrow> bool" where
  "makes_temp mk \<longleftrightarrow> (\<forall>e n w r n' w'. mk e n w = (r, n', w') \<longrightarrow> w_store w' = w_store w \<and> n' = n \<and>
     ((\<exists>err. r = Inr (Inl err) \<and> same_files w w') \<or>
      (\<exists>path. r = Inr (Inr path) \<and> path \<notin> fst ` set (w_files w) \<and> same_but path w w')))"

lemma create_temp_makes:
  assumes "fresh_temp tk"
  shows "makes_temp (create_temp tk pattern)"
  unfolding makes_temp_def
proof (intro allI impI)
  fix e n w r n' w' assume run: "create_temp tk pattern e n w = (r, n', w')"
  show "w_store w' = w_store w \<and> n' = n \<and> ((\<exists>err. r = Inr (Inl err) \<and> same_files w w') \<or>
      (\<exists>path. r = Inr (Inr path) \<and> path \<notin> fst ` set (w_files w) \<and> same_but path w w'))"
  proof (cases "CreateTemp tk n pattern (map fst (w_files w))")
    case (Inl err)
    with run show ?thesis by (auto simp: create_temp_def)
  next
    case (Inr path)
    with assms have "path \<notin> set (map fst (w_files w))" unfolding fresh_temp_def by blast
    with run Inr show ?thesis by (auto simp: create_temp_def same_but_def put_file_def)
  qed
qed

lemma writeTemp_makes:
  assumes "fresh_temp tk"
  shows "makes_temp (writeTemp tk sid b)"
  unfolding makes_temp_def
proof (intro allI impI)
  fix e n w r n' w' assume run: "writeTemp tk sid b e n w = (r, n', w')"
  let ?pattern = "''devradar-sbom-'' @ safe sid @ ''-*.json''"
  obtain r1 n1 w1 where c: "create_temp tk ?pattern e n w = (r1, n1, w1)" by (metis prod_cases3)
  from create_temp_makes [OF assms] c
  have m: "w_store w1 = w_store w" "n1 = n" "(\<exists>err. r1 = Inr (Inl err) \<and> same_files w w1) \<or>
      (\<exists>path. r1 = Inr (Inr path) \<and> path \<notin> fst ` set (w_files w) \<and> same_but path w w1)"
    unfolding makes_temp_def by blast+
  from m(3) show "w_store w' = w_store w \<and> n' = n \<and> ((\<exists>err. r = Inr (Inl err) \<and> same_files w w') \<or>
      (\<exists>path. r = Inr (Inr path) \<and> path \<notin> fst ` set (w_files w) \<and> same_but path w w'))"
  proof (elim disjE exE conjE)
    fix err assume "r1 = Inr (Inl err)" "same_files w w1"
    with run c m show ?thesis by (auto simp: writeTemp_def db_bind_def)
  next
    fix path assume p: "r1 = Inr (Inr path)" "path \<notin> fst ` set (w_files w)" "same_but path w w1"
    show ?thesis
    proof (cases "WriteFile tk n path")
      case None
      with run c m p show ?thesis by (auto simp: writeTemp_def db_bind_def same_but_def put_file_def)
    next
      case (Some err)
      with run c m p have "r = Inr (Inl err)" "n' = n" "w' = remove_file path w1" by (auto simp: writeTemp_def db_bind_def)
      with p m temp_cleaned [OF p(2,3)] show ?thesis by (simp add: remove_file_def)
    qed
  qed
qed

lemma files_with_temp:
  assumes "makes_temp mk" and "\<And>err. db_keeps same_files (failed err)" and "\<And>path. db_keeps (same_but path) (body path)"
  shows "db_keeps same_files (db_bind mk (\<lambda>r. case r of Inl err \<Rightarrow> failed err | Inr path \<Rightarrow> db_finally (body path) (remove_file path)))"
  unfolding db_keeps_def
proof (intro allI impI)
  fix e n w r n' w'
  assume run: "db_bind mk (\<lambda>r. case r of Inl err \<Rightarrow> failed err | Inr path \<Rightarrow> db_finally (body path) (remove_file path)) e n w = (r, n', w')"
  obtain r1 n1 w1 where c: "mk e n w = (r1, n1, w1)" by (metis prod_cases3)
  with assms(1) have "(\<exists>err. r1 = Inr (Inl err) \<and> same_files w w1) \<or>
      (\<exists>path. r1 = Inr (Inr path) \<and> path \<notin> fst ` set (w_files w) \<and> same_but path w w1)"
    unfolding makes_temp_def by blast
  then show "same_files w w'"
  proof (elim disjE exE conjE)
    fix err assume "r1 = Inr (Inl err)" "same_files w w1"
    with run c show ?thesis using db_keepsD [OF assms(2)] by (auto simp: db_bind_def)
  next
    fix path assume p: "r1 = Inr (Inr path)" "path \<notin> fst ` set (w_files w)" "same_but path w w1"
    with run c obtain w2 where "body path e n1 w1 = (r, n', w2)" "w' = remove_file path w2"
      by (auto simp: db_bind_def db_finally_def split: prod.splits)
    with p show ?thesis using db_keepsD [OF assms(3)] same_but_trans temp_cleaned by blast
  qed
qed

lemma files_scanWith [file_rules]: "fresh_temp tk \<Longrightarrow> db_keeps same_files (scanWith oor tk sb path sc)"
  unfolding scanWith_def tempOut_def
  by (intro db_keeps_bind db_keeps_try files_on_store)
     (auto intro!: db_keeps_return files_recover files_with_temp create_temp_makes file_rules files_scan_report)

lemma files_backfill [file_rules]: "db_keeps same_files (backfillLicenses tk sb raw)"
  unfolding backfillLicenses_def by (auto split: sum.split intro!: db_keeps_rules file_rules)

lemma files_scan_local: "fresh_temp tk \<Longrightarrow> db_keeps (same_but p) (scan_local oor tk sb ready path)"
proof -
  assume "fresh_temp tk"
  then have "db_keeps same_files (scan_local oor tk sb ready path)"
    unfolding scan_local_def by (intro db_keeps_rules file_rules) simp_all
  then show ?thesis by (rule db_keeps_mono) (rule same_but_same)
qed

lemma files_scanOne:
  assumes "fresh_temp tk"
  shows "db_keeps same_files (scanOne oor tk ready sb)"
  unfolding scanOne_def
  by (auto split: sum.split intro!: files_recover files_with_temp writeTemp_makes files_scan_local assms file_rules)
     (auto split: sum.split intro!: db_keeps_rules files_with_temp writeTemp_makes files_scan_local assms file_rules)

text \<open>
  No temporary file is left behind. Whatever happens to an SBOM (errors, panics, a report that is
  too long, failing statements), the job removes the files it made for it and touches no other,
  provided that the file system's new names are new.
\<close>

theorem scanOne_files:
  assumes "fresh_temp tk" and "scanOne oor tk ready sb e n w = (r, n', w')"
  shows "w_files w' = w_files w"
  using db_keepsD [OF files_scanOne [OF assms(1)] assms(2)] .

section \<open>A job to try the properties on\<close>

definition demo_tools :: tools where
  "demo_tools = \<lparr>FetchBlob = (\<lambda>_ _. Ok ''{}''), Canonicalize = (\<lambda>_ raw _. Ok raw), CanonVersion = ''syft-1'', ExtractPackages = (\<lambda>_. Ok []),
     CreateTemp = (\<lambda>_ pattern names. Inr (concat names @ pattern @ ''x'')), WriteFile = (\<lambda>_ _. None), ReadFile = (\<lambda>_ _. None),
     EnsureDB = (\<lambda>_ _. None), tool_DBVersion = (\<lambda>_. ''db1''), tool_Version = (\<lambda>_. ''0.9''), ScanSBOM = (\<lambda>_ _ _. (''{}'', Ok ())),
     ParseJSON = (\<lambda>_. Ok (the demo_report)), fmt_v = (\<lambda>_. []), Deadline = (\<lambda>_ _. None)\<rparr>"

lemma longer_than_names: "p \<in> set names \<Longrightarrow> length p \<le> length (concat names)"
  by (induction names) auto

lemma fresh_demo_tools: "fresh_temp demo_tools"
proof -
  have "concat names @ pattern @ ''x'' \<notin> set names" for pattern and names :: "string list"
    using longer_than_names [of "concat names @ pattern @ ''x''" names] by auto
  then show ?thesis by (auto simp: fresh_temp_def demo_tools_def)
qed

definition demo_ready :: readyScanner where
  "demo_ready = \<lparr>rs_name = ''grype'', rs_ver = demo_versions\<rparr>"

definition demo_world :: world where
  "demo_world = \<lparr>w_store = empty_store, w_files = []\<rparr>"

definition demo_runner :: Runner where
  "demo_runner = \<lparr>r_tools = demo_tools, r_scanners = [''grype''], r_enricher = None, r_compare = None, r_maintenance = [],
     r_ScanMaxAge = 43200000000000, r_EnrichMinInterval = 0, r_done = (\<lambda>_. None), r_oor = (\<lambda>_. 0)\<rparr>"

lemma demo_no_attempts: "attempt_at sid sc (w_store demo_world) = None"
  by (simp add: demo_world_def empty_store_def)

theorem Execute_whole_run_failures_witness:
  "\<exists>err n' w'. Execute demo_runner \<lparr>fault = (\<lambda>n. if n = 0 then Some ''down'' else None), clock = int\<rparr> 0 demo_world = (Inl err, n', w') \<and>
     whole_run_failure demo_runner err"
proof -
  let ?e = "\<lparr>fault = (\<lambda>n. if n = 0 then Some ''down'' else None), clock = int\<rparr>"
  have "\<exists>err n' w'. Execute demo_runner ?e 0 demo_world = (Inl err, n', w')"
    by (simp add: Execute_def Let_def db_bind_def db_try_def on_store_def ListScannableSBOMs_def db_stmt_def)
  with Execute_whole_run_failures [of demo_runner ?e 0 demo_world] show ?thesis by blast
qed

theorem scanOne_files_witness:
  "\<exists>r n' w'. scanOne (\<lambda>_. 0) demo_tools [demo_ready] demo_sbom (calm_env 0) 0 demo_world = (r, n', w') \<and> w_files w' = []"
proof -
  obtain r n' w' where 1: "scanOne (\<lambda>_. 0) demo_tools [demo_ready] demo_sbom (calm_env 0) 0 demo_world = (r, n', w')" by (metis prod_cases3)
  with scanOne_files [OF fresh_demo_tools 1] show ?thesis by (simp add: demo_world_def)
qed

end
