(* ===== verification/Scan_Outcome.thy ===== *)
theory Scan_Outcome
  imports Scan_Runner
begin

text \<open>
  What a batch of the scan job achieves: every pair of a due SBOM and a ready scanner ends with a stored
  scan or a recorded failure, what each end means for the store, and the two ways an SBOM stays due
  although its scans fail.
\<close>

section \<open>The outcome of one scan\<close>

definition logged :: "string \<Rightarrow> string \<Rightarrow> string \<Rightarrow> go_error \<Rightarrow> time \<Rightarrow> store \<Rightarrow> store" where
  "logged sid sc stage cause t s =
     s\<lparr>failures := failures s @ [\<lparr>sf_sbom = sid, sf_scanner = sc, sf_stage = stage, sf_error = Error cause, sf_occurred_at = t\<rparr>]\<rparr>"

definition backed_off :: "(int \<Rightarrow> int) \<Rightarrow> string \<Rightarrow> string \<Rightarrow> string \<Rightarrow> time \<Rightarrow> store \<Rightarrow> store" where
  "backed_off oor sid sc msg t s = (case attempt_failed oor sid sc msg t s of None \<Rightarrow> s | Some s' \<Rightarrow> s')"

definition failed_at :: "(int \<Rightarrow> int) \<Rightarrow> string \<Rightarrow> string \<Rightarrow> string \<Rightarrow> go_error \<Rightarrow> time \<Rightarrow> time \<Rightarrow> store \<Rightarrow> store" where
  "failed_at oor sid sc stage cause t t' s = backed_off oor sid sc (stage @ '': '' @ Error cause) t' (logged sid sc stage cause t s)"

lemma no_faultsD: "no_faults e \<Longrightarrow> fault e n = None"
  by (simp add: no_faults_def)

lemma recordFailure_run:
  "no_faults e \<Longrightarrow> recordFailure sid sc stage cause e n w = (Inr (), Suc n, w\<lparr>w_store := logged sid sc stage cause (clock e n) (w_store w)\<rparr>)"
  by (simp add: recordFailure_def on_store_def RecordScanFailure_def db_ignore_def db_stmt_def no_faultsD logged_def)

lemma record_attempt_run:
  "no_faults e \<Longrightarrow> record_attempt oor sid stage cause sc e n w =
     (Inr (), Suc n, w\<lparr>w_store := backed_off oor sid sc (stage @ '': '' @ Error cause) (clock e n) (w_store w)\<rparr>)"
  by (simp add: record_attempt_def on_store_def RecordScannerAttemptFailure_def db_ignore_def db_stmt_def no_faultsD backed_off_def
      split: option.split)

lemma recordScannerFailure_run:
  "no_faults e \<Longrightarrow> recordScannerFailure oor sid sc stage cause e n w =
     (Inr (), Suc (Suc n), w\<lparr>w_store := failed_at oor sid sc stage cause (clock e n) (clock e (Suc n)) (w_store w)\<rparr>)"
  by (simp add: recordScannerFailure_def db_bind_def recordFailure_run record_attempt_run failed_at_def)

text \<open>The two ends of a scan: its findings are stored, or its failure is recorded.\<close>

definition stored_as :: "SBOM \<Rightarrow> readyScanner \<Rightarrow> vulnerability list \<Rightarrow> store \<Rightarrow> store \<Rightarrow> bool" where
  "stored_as sb sc vulns s s' \<longleftrightarrow>
     (\<exists>now tx_now s1. (s1 = s \<or> (\<exists>t. s1 = logged (ID sb) (rs_name sc) ''zero-findings'' (zero_findings sb) t s)) \<and>
        s' = clear_attempt (ID sb) (rs_name sc) (apply_core sb (rs_name sc) (rs_ver sc) vulns now tx_now s1))"

definition failed_as :: "(int \<Rightarrow> int) \<Rightarrow> SBOM \<Rightarrow> readyScanner \<Rightarrow> store \<Rightarrow> store \<Rightarrow> bool" where
  "failed_as oor sb sc s s' \<longleftrightarrow>
     (\<exists>stage cause t t' s1. (s1 = s \<or> (\<exists>t. s1 = logged (ID sb) (rs_name sc) ''zero-findings'' (zero_findings sb) t s)) \<and>
        s' = failed_at oor (ID sb) (rs_name sc) stage cause t t' s1)"

lemma failed_asI: "failed_as oor sb sc s (failed_at oor (ID sb) (rs_name sc) stage cause t t' s)"
  unfolding failed_as_def by blast

lemma persist_run:
  assumes "no_faults e" and "persist_scan oor sb sc vulns e n w = (r, n', w')"
  shows "r = Inr () \<and> (stored_as sb sc vulns (w_store w) (w_store w') \<or> failed_as oor sb sc (w_store w) (w_store w'))"
proof -
  let ?zero = "vulns = [] \<and> PackageCount sb > zeroFindingFloor"
  define s1 where "s1 = (if ?zero then logged (ID sb) (rs_name sc) ''zero-findings'' (zero_findings sb) (clock e n) (w_store w) else w_store w)"
  define n1 where "n1 = (if ?zero then Suc n else n)"
  have s1: "s1 = w_store w \<or> (\<exists>t. s1 = logged (ID sb) (rs_name sc) ''zero-findings'' (zero_findings sb) t (w_store w))"
    by (auto simp: s1_def)
  obtain r2 n2 s2 where a: "ApplyScan sb (rs_name sc) (rs_ver sc) vulns e n1 s1 = (r2, n2, s2)" by (metis prod_cases3)
  have step: "(if ?zero then recordFailure (ID sb) (rs_name sc) ''zero-findings'' (zero_findings sb) else db_return ()) e n w =
      (Inr (), n1, w\<lparr>w_store := s1\<rparr>)"
    by (auto simp: recordFailure_run [OF assms(1)] s1_def n1_def)
  show ?thesis
  proof (cases r2)
    case (Inl err)
    then have "s2 = s1" using a by (auto simp: ApplyScan_def dest: db_tx_Inl)
    then have "r = Inr ()" "w_store w' = failed_at oor (ID sb) (rs_name sc) ''persist'' err (clock e n2) (clock e (Suc n2)) s1"
      using assms(2) step a Inl unfolding persist_scan_def db_bind_def [of "if b then x else y" for b x y]
      by (auto simp: db_bind_def db_try_def on_store_def recordScannerFailure_run [OF assms(1)])
    with s1 show ?thesis unfolding failed_as_def by blast
  next
    case (Inr u)
    then have "s2 = apply_core sb (rs_name sc) (rs_ver sc) vulns (clock e (n1 + 4)) (clock e n1) s1"
      using a ApplyScan_success by blast
    then have "r = Inr ()" "w_store w' = clear_attempt (ID sb) (rs_name sc)
        (apply_core sb (rs_name sc) (rs_ver sc) vulns (clock e (n1 + 4)) (clock e n1) s1)"
      using assms(2) step a Inr unfolding persist_scan_def db_bind_def [of "if b then x else y" for b x y]
      by (auto simp: db_bind_def db_try_def on_store_def db_ignore_def ClearScannerAttempt_def db_stmt_def no_faultsD [OF assms(1)])
    with s1 show ?thesis unfolding stored_as_def by blast
  qed
qed

lemma call_tool_cases:
  assumes "call_tool f e n w = (r, n', w')"
  shows "n' = n \<and> w' = w \<and> ((\<exists>x. r = Inr x) \<or> (\<exists>m. r = Inl (panicked m)))"
  using assms by (auto simp: call_tool_def split: outcome.splits)

lemma parse_cases:
  assumes "parseJSONBounded tk path limit e n w = (r, n', w')"
  shows "n' = n \<and> w' = w \<and> ((\<exists>x. r = Inr x) \<or> (\<exists>m. r = Inl (panicked m)))"
  using assms by (auto simp: parseJSONBounded_def call_tool_def split: option.splits if_splits outcome.splits)

lemma exec_scanner_cases:
  assumes "exec_scanner tk scanner path out e n w = (r, n', w')"
  shows "n' = n \<and> w_store w' = w_store w \<and> ((\<exists>x. r = Inr x) \<or> (\<exists>m. r = Inl (panicked m)))"
  using assms by (auto simp: exec_scanner_def put_file_def call_tool_def split: prod.splits outcome.splits)

lemma scan_report_run:
  assumes "no_faults e" and "scan_report oor tk sb sc path out e n w = (r, n', w')"
  shows "(\<exists>m. r = Inl (panicked m) \<and> w_store w' = w_store w) \<or>
    r = Inr () \<and> ((\<exists>vulns. stored_as sb sc vulns (w_store w) (w_store w')) \<or> failed_as oor sb sc (w_store w) (w_store w'))"
proof -
  have f: ?thesis if "recordScannerFailure oor (ID sb) (rs_name sc) stage cause e k v = (r, n', w')" "w_store v = w_store w" for stage cause k v
    using that failed_asI by (auto simp: recordScannerFailure_run [OF assms(1)])
  obtain r1 n1 w1 where 1: "exec_scanner tk (rs_name sc) path out e n w = (r1, n1, w1)" by (metis prod_cases3)
  note c1 = exec_scanner_cases [OF 1]
  show ?thesis
  proof (cases r1)
    case (Inl p)
    with assms(2) 1 c1 show ?thesis by (auto simp: scan_report_def Let_def db_bind_def)
  next
    case r1: (Inr x1)
    show ?thesis
    proof (cases x1)
      case (Inl err)
      with assms(2) 1 r1 have "recordScannerFailure oor (ID sb) (rs_name sc) ''scan'' err e n1 w1 = (r, n', w')"
        by (simp add: scan_report_def Let_def db_bind_def)
      then show ?thesis by (rule f) (simp add: c1)
    next
      case x1: (Inr u)
      obtain r2 n2 w2 where 2: "parseJSONBounded tk out maxScannerOutputBytes e n1 w1 = (r2, n2, w2)" by (metis prod_cases3)
      note c2 = parse_cases [OF 2]
      show ?thesis
      proof (cases "\<exists>doc conv vulns. r2 = Inr (Inr doc) \<and> Detect (DefaultRegistry (fmt_v tk)) (Some doc) = Inr conv \<and>
          Convert conv (Deadline tk n2) (Some doc) = Inr vulns")
        case True
        then obtain doc conv vulns where d: "r2 = Inr (Inr doc)" "Detect (DefaultRegistry (fmt_v tk)) (Some doc) = Inr conv"
            "Convert conv (Deadline tk n2) (Some doc) = Inr vulns" by blast
        have "persist_scan oor sb sc vulns e n2 w2 = (r, n', w')"
          using assms(2) 1 2 r1 x1 d by (simp add: scan_report_def Let_def db_bind_def)
        from persist_run [OF assms(1) this] c1 c2 show ?thesis by auto
      next
        case False
        have "(\<exists>m. r2 = Inl (panicked m) \<and> r = Inl (panicked m) \<and> w' = w2) \<or>
            (\<exists>stage cause. recordScannerFailure oor (ID sb) (rs_name sc) stage cause e n2 w2 = (r, n', w'))"
          using False assms(2) 1 2 r1 x1 c2 by (auto simp: scan_report_def Let_def db_bind_def split: sum.splits)
        then show ?thesis using c1 c2 f [of _ _ n2 w2] by auto
      qed
    qed
  qed
qed

lemma scanWith_run:
  assumes "no_faults e" and "fresh_temp tk" and "attempt_due (ID sb) (rs_name sc) (clock e n) (w_store w)"
    and "scanWith oor tk sb path sc e n w = (r, n', w')"
  shows "r = Inr () \<and> ((\<exists>vulns. stored_as sb sc vulns (w_store w) (w_store w')) \<or> failed_as oor sb sc (w_store w) (w_store w'))"
proof -
  let ?fail = "\<lambda>stage. recordScannerFailure oor (ID sb) (rs_name sc) stage"
  have due: "on_store (ScannerAttemptDue (ID sb) (rs_name sc)) e n w = (Inr True, Suc n, w)"
    using assms(3) by (simp add: on_store_def ScannerAttemptDue_def db_stmt_def no_faultsD [OF assms(1)])
  let ?body = "db_bind (tempOut tk (ID sb) (rs_name sc)) (\<lambda>r. case r of Inl err \<Rightarrow> ?fail ''scan'' err
      | Inr out \<Rightarrow> db_finally (scan_report oor tk sb sc path out) (remove_file out))"
  have run: "db_recover ?body (?fail ''panic'') e (Suc n) w = (r, n', w')"
    using assms(4) due by (simp add: scanWith_def db_bind_def db_try_def)
  obtain r1 n1 w1 where 1: "tempOut tk (ID sb) (rs_name sc) e (Suc n) w = (r1, n1, w1)" by (metis prod_cases3)
  have c1: "w_store w1 = w_store w" "\<exists>x. r1 = Inr x"
    using create_temp_makes [OF assms(2)] 1 unfolding makes_temp_def tempOut_def by blast+
  then obtain x1 where x1: "r1 = Inr x1" by blast
  show ?thesis
  proof (cases x1)
    case (Inl err)
    then have "?body e (Suc n) w = (Inr (), Suc (Suc n1), w1\<lparr>w_store := failed_at oor (ID sb) (rs_name sc) ''scan'' err (clock e n1) (clock e (Suc n1)) (w_store w1)\<rparr>)"
      using 1 x1 by (simp add: db_bind_def recordScannerFailure_run [OF assms(1)])
    with run c1 failed_asI show ?thesis by (auto simp: db_recover_def)
  next
    case (Inr out)
    obtain r2 n2 w2 where 2: "scan_report oor tk sb sc path out e n1 w1 = (r2, n2, w2)" by (metis prod_cases3)
    have body: "?body e (Suc n) w = (r2, n2, remove_file out w2)" using 1 x1 Inr 2 by (simp add: db_bind_def db_finally_def)
    have st: "w_store (remove_file out v) = w_store v" for v by (simp add: remove_file_def)
    from scan_report_run [OF assms(1) 2] show ?thesis
    proof (elim disjE exE conjE)
      fix m assume "r2 = Inl (panicked m)" "w_store w2 = w_store w1"
      with run body c1 st failed_asI show ?thesis by (auto simp: db_recover_def recordScannerFailure_run [OF assms(1)])
    qed (use run body c1 st in \<open>auto simp: db_recover_def\<close>)
  qed
qed

section \<open>Every due pair is handled\<close>

text \<open>Programs never go back in the numbering of statements.\<close>

definition db_mono :: "('s, 'a) db \<Rightarrow> bool" where
  "db_mono m \<longleftrightarrow> (\<forall>e n s r n' s'. m e n s = (r, n', s') \<longrightarrow> n \<le> n')"

named_theorems mono_rules "rules for the numbering of statements"

lemma mono_return [mono_rules]: "db_mono (db_return x)" "db_mono (db_fail err)" "db_mono (db_stmt wrap g)" "db_mono (db_ctx d)"
  by (auto simp: db_mono_def db_stmt_def db_ctx_def split: option.splits prod.splits)

lemma mono_bind [mono_rules]: "db_mono m \<Longrightarrow> (\<And>x. db_mono (f x)) \<Longrightarrow> db_mono (db_bind m f)"
  unfolding db_mono_def db_bind_def by (fastforce split: prod.splits sum.splits intro: le_trans)

lemma mono_foreach [mono_rules]: "(\<And>x. db_mono (f x)) \<Longrightarrow> db_mono (db_foreach xs f)"
  by (induction xs) (auto intro: mono_rules)

lemma mono_tx [mono_rules]: "(\<And>t. db_mono (body t)) \<Longrightarrow> db_mono (db_tx b body c)"
  unfolding db_mono_def db_tx_def by (fastforce split: option.splits prod.splits sum.splits dest: Suc_leD)

lemma mono_ignore [mono_rules]: "db_mono m \<Longrightarrow> db_mono (db_ignore m)" "db_mono m \<Longrightarrow> db_mono (db_try m)"
  by (auto simp: db_mono_def db_ignore_def db_try_def split: prod.splits)

lemma mono_ApplyScan: "db_mono (ApplyScan sb scanner ver vulns)"
  unfolding ApplyScan_def loadCurrentFindings_def loadPrevVersions_def insertScanRun_def apply_incoming_def apply_resolved_def
    insertEvent_def enqueueAlertEvent_def upsertFinding_def deleteFinding_def recomputeSBOMRollup_def Let_def
  by (intro mono_rules) (auto split: option.split intro!: mono_rules)

lemma mono_Upsert: "db_mono (UpsertSBOMPackages sid pkgs)"
  unfolding UpsertSBOMPackages_def insertPackageChunk_def by (auto intro!: mono_rules)

text \<open>The logs only grow, and the retry state changes for the pairs in \<open>P\<close> only.\<close>

definition touches :: "(string \<Rightarrow> string \<Rightarrow> bool) \<Rightarrow> store \<Rightarrow> store \<Rightarrow> bool" where
  "touches P s s' \<longleftrightarrow> prefix (scan_runs s) (scan_runs s') \<and> prefix (failures s) (failures s') \<and>
     (\<forall>sid sc. \<not> P sid sc \<longrightarrow> attempt_at sid sc s' = attempt_at sid sc s)"

lemma touches_refl: "touches P s s"
  by (simp add: touches_def)

lemma touches_trans: "touches P a b \<Longrightarrow> touches P b c \<Longrightarrow> touches P a c"
  by (auto simp: touches_def)

lemma touches_mono: "touches P a b \<Longrightarrow> (\<And>sid sc. P sid sc \<Longrightarrow> Q sid sc) \<Longrightarrow> touches Q a b"
  by (auto simp: touches_def)

definition forward :: "(string \<Rightarrow> string \<Rightarrow> bool) \<Rightarrow> (world, 'a) db \<Rightarrow> bool" where
  "forward P m \<longleftrightarrow> (\<forall>e n w r n' w'. m e n w = (r, n', w') \<longrightarrow> n \<le> n' \<and> touches P (w_store w) (w_store w'))"

named_theorems forward_rules "rules for what the job's programs touch"

lemma forwardD: "forward P m \<Longrightarrow> m e n w = (r, n', w') \<Longrightarrow> n \<le> n' \<and> touches P (w_store w) (w_store w')"
  by (simp add: forward_def)

lemma forward_return [forward_rules]: "forward P (db_return x)"
  by (simp add: forward_def touches_refl)

lemma forward_bind [forward_rules]: "forward P m \<Longrightarrow> (\<And>x. forward P (f x)) \<Longrightarrow> forward P (db_bind m f)"
  unfolding forward_def db_bind_def
  by (fastforce split: prod.splits sum.splits intro: le_trans touches_trans)

lemma forward_foreach [forward_rules]: "(\<And>x. forward P (f x)) \<Longrightarrow> forward P (db_foreach xs f)"
  by (induction xs) (auto intro: forward_rules)

lemma forward_ignore [forward_rules]: "forward P m \<Longrightarrow> forward P (db_ignore m)" "forward P m \<Longrightarrow> forward P (db_try m)"
  by (auto simp: forward_def db_ignore_def db_try_def split: prod.splits)

lemma forward_recover [forward_rules]: "forward P m \<Longrightarrow> (\<And>p. forward P (h p)) \<Longrightarrow> forward P (db_recover m h)"
  unfolding forward_def db_recover_def by (fastforce split: prod.splits sum.splits intro: le_trans touches_trans)

lemma forward_finally [forward_rules]: "forward P m \<Longrightarrow> forward P (db_finally m (remove_file p))"
  by (auto simp: forward_def db_finally_def remove_file_def split: prod.splits)

lemma forward_tool [forward_rules]: "forward P (call_tool f)" "forward P (exec_scanner tk sc path out)" "forward P (parseJSONBounded tk path limit)"
  using call_tool_cases exec_scanner_cases parse_cases touches_refl by (fastforce simp: forward_def)+

lemma forward_temp [forward_rules]: "forward P (create_temp tk pattern)" "forward P (writeTemp tk sid b)"
  by (auto simp: forward_def create_temp_def writeTemp_def db_bind_def put_file_def remove_file_def touches_refl split: sum.splits option.splits)

lemma forward_on_store:
  assumes "db_mono m" and "db_keeps (touches P) m"
  shows "forward P (on_store m)"
  using assms by (auto simp: forward_def on_store_def db_mono_def db_keeps_def split: prod.splits)

lemma forward_reads [forward_rules]:
  "forward P (on_store (ScannerAttemptDue sid sc))" "forward P (on_store (HasSBOMPackages sid))"
  by (rule forward_on_store; simp add: ScannerAttemptDue_def HasSBOMPackages_def mono_rules db_keeps_stmt touches_refl)+

lemma attempt_at_cong: "attempts s = attempts s' \<Longrightarrow> attempt_at sid sc s = attempt_at sid sc s'"
  by simp

lemma forward_recordFailure [forward_rules]: "forward P (recordFailure sid sc stage cause)"
  unfolding recordFailure_def RecordScanFailure_def
  by (intro forward_on_store mono_rules db_keeps_rules) (simp_all add: touches_def)

lemma forward_packages [forward_rules]: "forward P (on_store (UpsertSBOMPackages sid pkgs))"
  by (rule forward_on_store [OF mono_Upsert])
     (auto simp: UpsertSBOMPackages_def insertPackageChunk_def touches_def intro!: db_keeps_rules)

lemma forward_rescan [forward_rules]: "forward P (on_store (ClearRescanRequested sid))"
  by (rule forward_on_store) (auto simp: ClearRescanRequested_def set_rescan_def touches_def intro!: db_keeps_rules mono_rules)

lemma forward_record_attempt [forward_rules]:
  assumes "P sid sc"
  shows "forward P (record_attempt oor sid stage cause sc)"
proof -
  have "touches P s s'" if "attempt_failed oor sid sc msg t s = Some s'" for msg t s s'
  proof -
    have "scan_runs s' = scan_runs s" "failures s' = failures s"
      using that by (auto simp: attempt_failed_def split: option.splits)
    with attempt_at_failed [OF that] assms show ?thesis by (auto simp: touches_def)
  qed
  then show ?thesis
    unfolding record_attempt_def RecordScannerAttemptFailure_def
    by (intro forward_ignore forward_on_store mono_rules db_keeps_rules) (auto simp: touches_refl split: option.split)
qed

lemma attempt_at_clear:
  "attempt_at sid' sc' (clear_attempt sid sc s) = (if sid' = sid \<and> sc' = sc then None else attempt_at sid' sc' s)"
  using lookup_key_filter [where key = attempt_key and k = "(sid', sc')" and P = "\<lambda>a. \<not> (at_sbom a = sid \<and> at_scanner a = sc)"
    and Q = "\<not> (sid' = sid \<and> sc' = sc)" and rs = "attempts s"]
  by (auto simp: clear_attempt_def attempt_key_def)

lemma forward_clear [forward_rules]: "P sid sc \<Longrightarrow> forward P (on_store (ClearScannerAttempt sid sc))"
  by (rule forward_on_store)
     (auto simp: ClearScannerAttempt_def touches_def attempt_at_clear intro!: db_keeps_rules mono_rules, auto simp: clear_attempt_def)

lemma touches_apply_core: "touches P s (apply_core sb scanner ver vulns now tx_now s)"
  using apply_core_rest [of sb scanner ver vulns now tx_now s] by (simp add: touches_def other_tables_def)

lemma forward_apply [forward_rules]: "forward P (on_store (ApplyScan sb scanner ver vulns))"
proof (rule forward_on_store [OF mono_ApplyScan])
  show "db_keeps (touches P) (ApplyScan sb scanner ver vulns)"
    unfolding db_keeps_def
  proof (intro allI impI)
    fix e n s r n' s' assume run: "ApplyScan sb scanner ver vulns e n s = (r, n', s')"
    show "touches P s s'"
    proof (cases r)
      case (Inl err)
      with run show ?thesis by (auto simp: ApplyScan_def touches_refl dest: db_tx_Inl)
    next
      case (Inr u)
      with run show ?thesis using ApplyScan_success touches_apply_core by metis
    qed
  qed
qed

lemma forward_scan_failure [forward_rules]: "P sid sc \<Longrightarrow> forward P (recordScannerFailure oor sid sc stage cause)"
  unfolding recordScannerFailure_def by (intro forward_rules)

lemma forward_persist [forward_rules]: "P (ID sb) (rs_name sc) \<Longrightarrow> forward P (persist_scan oor sb sc vulns)"
  unfolding persist_scan_def by (auto split: sum.split intro!: forward_rules)

lemma forward_scan_report [forward_rules]:
  assumes "P (ID sb) (rs_name sc)"
  shows "forward P (scan_report oor tk sb sc path out)"
proof -
  have "forward P (\<lambda>e n. (case Convert conv (Deadline tk n) (Some doc) of
      Inl err \<Rightarrow> recordScannerFailure oor (ID sb) (rs_name sc) ''convert'' err | Inr vulns \<Rightarrow> persist_scan oor sb sc vulns) e n)" for conv doc
    using forward_scan_failure [of P, OF assms] forward_persist [of P, OF assms] by (auto simp: forward_def split: sum.splits)
  then show ?thesis
    unfolding scan_report_def Let_def using assms by (auto split: sum.split intro!: forward_rules)
qed

lemma forward_scanWith [forward_rules]: "P (ID sb) (rs_name sc) \<Longrightarrow> forward P (scanWith oor tk sb path sc)"
  unfolding scanWith_def tempOut_def by (auto split: sum.split intro!: forward_rules)

lemma forward_shared [forward_rules]: "(\<And>sc. P (ID sb) sc) \<Longrightarrow> forward P (recordSharedFailure oor sb ready stage cause)"
  unfolding recordSharedFailure_def by (intro forward_rules)

lemma forward_backfill [forward_rules]: "forward P (backfillLicenses tk sb raw)"
  unfolding backfillLicenses_def by (auto split: sum.split intro!: forward_rules)

lemma forward_scanOne: "(\<And>sc. P (ID sb) sc) \<Longrightarrow> forward P (scanOne oor tk ready sb)"
  unfolding scanOne_def scan_local_def by (auto split: sum.split intro!: forward_rules)


text \<open>A run of the pair, or a failure of it or of its SBOM, was added.\<close>

definition handled :: "string \<Rightarrow> string \<Rightarrow> store \<Rightarrow> store \<Rightarrow> bool" where
  "handled sid sc s s' \<longleftrightarrow>
     (\<exists>r \<in> set (drop (length (scan_runs s)) (scan_runs s')). run_sbom r = sid \<and> run_scanner r = sc) \<or>
     (\<exists>f \<in> set (drop (length (failures s)) (failures s')). sf_sbom f = sid \<and> (sf_scanner f = sc \<or> sf_scanner f = []))"

lemma drop_mono_prefix: "prefix ys zs \<Longrightarrow> set (drop k ys) \<subseteq> set (drop k zs)"
  by (auto elim!: prefixE)

lemma drop_less_prefix: "prefix xs ys \<Longrightarrow> set (drop (length ys) zs) \<subseteq> set (drop (length xs) zs)"
  by (simp add: prefix_length_le set_drop_subset_set_drop)

lemma handled_later: "handled sid sc s s' \<Longrightarrow> touches P s' s'' \<Longrightarrow> handled sid sc s s''"
  unfolding handled_def touches_def
  using drop_mono_prefix [of "scan_runs s'" "scan_runs s''" "length (scan_runs s)"]
    drop_mono_prefix [of "failures s'" "failures s''" "length (failures s)"] by blast

lemma handled_earlier: "handled sid sc s s' \<Longrightarrow> touches P s0 s \<Longrightarrow> handled sid sc s0 s'"
  unfolding handled_def touches_def
  using drop_less_prefix [of "scan_runs s0" "scan_runs s" "scan_runs s'"]
    drop_less_prefix [of "failures s0" "failures s" "failures s'"] by blast

lemma handled_logged: "sc' = sc \<or> sc' = [] \<Longrightarrow> handled sid sc s (logged sid sc' stage cause t s)"
  by (auto simp: handled_def logged_def)

lemma handled_failed_at: "handled sid sc s (failed_at oor sid sc stage cause t t' s)"
proof -
  have "failures (backed_off oor sid sc msg t s) = failures s" for msg t s
    by (auto simp: backed_off_def attempt_failed_def split: option.split)
  then show ?thesis by (simp add: handled_def failed_at_def logged_def)
qed

lemma touches_logged: "touches P s (logged sid sc stage cause t s)"
  by (simp add: touches_def logged_def)

lemma handled_stored: "stored_as sb sc vulns s s' \<Longrightarrow> handled (ID sb) (rs_name sc) s s'"
proof -
  assume "stored_as sb sc vulns s s'"
  then obtain now tx_now s1 where s1: "touches (\<lambda>_ _. True) s s1"
      "s' = clear_attempt (ID sb) (rs_name sc) (apply_core sb (rs_name sc) (rs_ver sc) vulns now tx_now s1)"
    unfolding stored_as_def using touches_refl touches_logged by metis
  have "handled (ID sb) (rs_name sc) s1 s'"
    by (simp add: s1(2) handled_def clear_attempt_def apply_core_rest new_run_def)
  with s1(1) show ?thesis by (rule handled_earlier [rotated])
qed

lemma handled_failed: "failed_as oor sb sc s s' \<Longrightarrow> handled (ID sb) (rs_name sc) s s'"
proof -
  assume "failed_as oor sb sc s s'"
  then obtain stage cause t t' s1 where s1: "touches (\<lambda>_ _. True) s s1" "s' = failed_at oor (ID sb) (rs_name sc) stage cause t t' s1"
    unfolding failed_as_def using touches_refl touches_logged by metis
  with handled_earlier [OF handled_failed_at] show ?thesis by simp
qed

text \<open>\<open>resting e n sid sc s\<close>: at some statement from the \<open>n\<close>-th on, the retry state of \<open>s\<close> keeps the pair
  from being tried.\<close>

definition resting :: "env \<Rightarrow> nat \<Rightarrow> string \<Rightarrow> string \<Rightarrow> store \<Rightarrow> bool" where
  "resting e n sid sc s \<longleftrightarrow> (\<exists>k \<ge> n. \<not> attempt_due sid sc (clock e k) s)"

lemma resting_earlier:
  "resting e n' sid sc s' \<Longrightarrow> n \<le> n' \<Longrightarrow> attempt_at sid sc s' = attempt_at sid sc s \<Longrightarrow> resting e n sid sc s"
  unfolding resting_def attempt_due_def by (metis le_trans)

lemma scanWith_handles:
  assumes "no_faults e" and "fresh_temp tk" and "scanWith oor tk sb path sc e n w = (r, n', w')"
  shows "handled (ID sb) (rs_name sc) (w_store w) (w_store w') \<or> resting e n (ID sb) (rs_name sc) (w_store w)"
proof (cases "attempt_due (ID sb) (rs_name sc) (clock e n) (w_store w)")
  case True
  from scanWith_run [OF assms(1,2) True assms(3)] show ?thesis using handled_stored handled_failed by blast
next
  case False
  then show ?thesis by (auto simp: resting_def)
qed

lemma scanners_handle:
  assumes "no_faults e" and "fresh_temp tk"
  shows "distinct (map rs_name ready) \<Longrightarrow> db_foreach ready (scanWith oor tk sb path) e n w = (Inr (), n', w') \<Longrightarrow> sc \<in> set ready \<Longrightarrow>
    handled (ID sb) (rs_name sc) (w_store w) (w_store w') \<or> resting e n (ID sb) (rs_name sc) (w_store w)"
proof (induction ready arbitrary: n w)
  case (Cons sc' ready)
  obtain u n1 w1 where 1: "scanWith oor tk sb path sc' e n w = (Inr u, n1, w1)"
      and 2: "db_foreach ready (scanWith oor tk sb path) e n1 w1 = (Inr (), n', w')"
    using Cons.prems(2) by (auto simp: db_bind_Inr)
  let ?P = "\<lambda>sid s. sid = ID sb \<and> s = rs_name sc'"
  have t1: "n \<le> n1" "touches ?P (w_store w) (w_store w1)" using forwardD [OF forward_scanWith 1, of ?P] by auto
  have "forward (\<lambda>sid _. sid = ID sb) (db_foreach ready (scanWith oor tk sb path))" by (intro forward_rules) simp
  from forwardD [OF this 2] have t2: "touches (\<lambda>sid _. sid = ID sb) (w_store w1) (w_store w')" by simp
  show ?case
  proof (cases "sc = sc'")
    case True
    then show ?thesis using scanWith_handles [OF assms 1] handled_later [OF _ t2] by blast
  next
    case False
    with Cons.prems(3) have sc: "sc \<in> set ready" by simp
    with Cons.prems(1) have "rs_name sc \<noteq> rs_name sc'" by (metis distinct.simps(2) image_eqI list.set_map list.simps(9))
    with Cons.IH [OF _ 2 sc] Cons.prems(1) have
      "handled (ID sb) (rs_name sc) (w_store w1) (w_store w') \<or> resting e n1 (ID sb) (rs_name sc) (w_store w1)" by simp
    moreover have "attempt_at (ID sb) (rs_name sc) (w_store w1) = attempt_at (ID sb) (rs_name sc) (w_store w)"
      using t1(2) \<open>rs_name sc \<noteq> rs_name sc'\<close> unfolding touches_def by blast
    ultimately show ?thesis using handled_earlier [OF _ t1(2)] resting_earlier [OF _ t1(1)] by blast
  qed
qed simp


lemma forward_step:
  assumes "forward P m" and "db_bind m f e n2 w2 = (Inr u, n1, w1)" and "n \<le> n2" and "touches P s0 (w_store w2)"
  shows "\<exists>x n3 w3. f x e n3 w3 = (Inr u, n1, w1) \<and> n \<le> n3 \<and> touches P s0 (w_store w3)"
proof -
  from assms(2) obtain x n3 w3 where 1: "m e n2 w2 = (Inr x, n3, w3)" "f x e n3 w3 = (Inr u, n1, w1)" by (auto simp: db_bind_Inr)
  with forwardD [OF assms(1) 1(1)] assms(3,4) touches_trans show ?thesis by (meson le_trans)
qed

text \<open>The ways through the code of one SBOM: a panic, a failure before the scanners, or all scanners.\<close>

lemma scanOne_cases:
  assumes "scanOne oor tk ready sb e n w = (r, n', w')"
  shows "(\<exists>p k v. n \<le> k \<and> touches (\<lambda>sid _. sid = ID sb) (w_store w) (w_store v) \<and>
        recordFailure (ID sb) [] ''panic'' p e k v = (r, n', w')) \<or>
    (\<exists>stage cause k v. n \<le> k \<and> touches (\<lambda>_ _. False) (w_store w) (w_store v) \<and>
        recordSharedFailure oor sb ready stage cause e k v = (r, n', w')) \<or>
    (\<exists>path k v k' v'. n \<le> k \<and> touches (\<lambda>_ _. False) (w_store w) (w_store v) \<and>
        db_foreach ready (scanWith oor tk sb path) e k v = (Inr (), k', v') \<and> touches (\<lambda>_ _. False) (w_store v') (w_store w'))"
proof -
  let ?None = "\<lambda>_ _. False"
  define scan where "scan = (\<lambda>path. db_finally (scan_local oor tk sb ready path) (remove_file path))"
  define wr where "wr = (\<lambda>cdx. db_bind (writeTemp tk (ID sb) cdx) (\<lambda>r. case r of
      Inl err \<Rightarrow> recordSharedFailure oor sb ready ''canonicalize'' err | Inr path \<Rightarrow> scan path))"
  define canon where "canon = (\<lambda>raw. db_bind (call_tool (\<lambda>n. Canonicalize tk n raw (Format sb))) (\<lambda>r. case r of
      Inl err \<Rightarrow> recordSharedFailure oor sb ready ''canonicalize'' err | Inr cdx \<Rightarrow> wr cdx))"
  define body where "body = db_bind (call_tool (\<lambda>n. FetchBlob tk n (ObjectPath sb))) (\<lambda>r. case r of
      Inl err \<Rightarrow> recordSharedFailure oor sb ready ''download'' err
    | Inr raw \<Rightarrow> db_bind (backfillLicenses tk sb raw) (\<lambda>_. canon raw))"
  have one: "scanOne oor tk ready sb = db_recover body (recordFailure (ID sb) [] ''panic'')"
    unfolding scanOne_def body_def canon_def wr_def scan_def ..
  have fwd: "forward (\<lambda>sid _. sid = ID sb) body"
    unfolding body_def canon_def wr_def scan_def scan_local_def by (auto split: sum.split intro!: forward_rules)
  obtain r1 n1 w1 where 1: "body e n w = (r1, n1, w1)" by (metis prod_cases3)
  show ?thesis
  proof (cases r1)
    case (Inl p)
    with 1 assms have "recordFailure (ID sb) [] ''panic'' p e n1 w1 = (r, n', w')" by (simp add: one db_recover_def)
    with forwardD [OF fwd 1] show ?thesis by blast
  next
    case (Inr u)
    with 1 assms have fin: "r = Inr u" "n' = n1" "w' = w1" by (simp_all add: one db_recover_def)
    have s: "(\<exists>path k v k' v'. n2 \<le> k \<and> touches ?None (w_store w2) (w_store v) \<and>
        db_foreach ready (scanWith oor tk sb path) e k v = (Inr (), k', v') \<and> touches ?None (w_store v') (w_store w1))"
      if "scan path e n2 w2 = (Inr u, n1, w1)" for path n2 w2
    proof -
      from that obtain k' v' w3 where 3: "db_foreach ready (scanWith oor tk sb path) e n2 w2 = (Inr (), k', v')"
          "db_ignore (on_store (ClearRescanRequested (ID sb))) e k' v' = (Inr u, n1, w3)" "w1 = remove_file path w3"
        by (auto simp: scan_def scan_local_def db_finally_def db_bind_Inr split: prod.splits)
      have "forward ?None (db_ignore (on_store (ClearRescanRequested (ID sb))))" by (intro forward_rules)
      from forwardD [OF this 3(2)] have "touches ?None (w_store v') (w_store w1)" by (simp add: 3(3) remove_file_def)
      then show ?thesis
        by (intro exI [of _ path] exI [of _ n2] exI [of _ w2] exI [of _ k'] exI [of _ v']) (simp add: 3(1) touches_refl)
    qed
    have Q: "n \<le> n" "touches ?None (w_store w) (w_store w)" by (simp_all add: touches_refl)
    note step = forward_step [where u = u and ?n1.0 = n1 and ?w1.0 = w1 and n = n and ?s0.0 = "w_store w" and P = ?None]
    from step [OF _ 1 [unfolded Inr body_def] Q] obtain x2 n2 w2 where 2:
        "(case x2 of Inl err \<Rightarrow> recordSharedFailure oor sb ready ''download'' err
          | Inr raw \<Rightarrow> db_bind (backfillLicenses tk sb raw) (\<lambda>_. canon raw)) e n2 w2 = (Inr u, n1, w1)"
        "n \<le> n2" "touches ?None (w_store w) (w_store w2)" using forward_tool(1) by blast
    show ?thesis
    proof (cases x2)
      case (Inl err)
      with 2 fin show ?thesis by auto
    next
      case (Inr raw)
      with 2(1) have "db_bind (backfillLicenses tk sb raw) (\<lambda>_. canon raw) e n2 w2 = (Inr u, n1, w1)" by simp
      from step [OF forward_backfill this 2(2,3)] obtain n3 w3 where 3:
          "canon raw e n3 w3 = (Inr u, n1, w1)" "n \<le> n3" "touches ?None (w_store w) (w_store w3)" by blast
      from step [OF forward_tool(1) 3(1) [unfolded canon_def] 3(2,3)] obtain x4 n4 w4 where 4:
          "(case x4 of Inl err \<Rightarrow> recordSharedFailure oor sb ready ''canonicalize'' err | Inr cdx \<Rightarrow> wr cdx) e n4 w4 = (Inr u, n1, w1)"
          "n \<le> n4" "touches ?None (w_store w) (w_store w4)" by blast
      show ?thesis
      proof (cases x4)
        case (Inl err)
        with 4 fin show ?thesis by auto
      next
        case (Inr cdx)
        with 4(1) have "wr cdx e n4 w4 = (Inr u, n1, w1)" by simp
        from step [OF forward_temp(2) this [unfolded wr_def] 4(2,3)] obtain x5 n5 w5 where 5:
            "(case x5 of Inl err \<Rightarrow> recordSharedFailure oor sb ready ''canonicalize'' err | Inr path \<Rightarrow> scan path) e n5 w5 = (Inr u, n1, w1)"
            "n \<le> n5" "touches ?None (w_store w) (w_store w5)" by blast
        show ?thesis
        proof (cases x5)
          case (Inl err)
          with 5 fin show ?thesis by auto
        next
          case (Inr path)
          with 5(1) have "scan path e n5 w5 = (Inr u, n1, w1)" by simp
          from s [OF this] 5(2,3) fin show ?thesis using touches_trans le_trans by (metis (no_types, lifting))
        qed
      qed
    qed
  qed
qed

lemma scanOne_handles:
  assumes "no_faults e" and "fresh_temp tk" and "distinct (map rs_name ready)" and "sc \<in> set ready"
    and "scanOne oor tk ready sb e n w = (r, n', w')"
  shows "handled (ID sb) (rs_name sc) (w_store w) (w_store w') \<or> resting e n (ID sb) (rs_name sc) (w_store w)"
  using scanOne_cases [OF assms(5)]
proof (elim disjE exE conjE)
  fix p k v assume "touches (\<lambda>sid _. sid = ID sb) (w_store w) (w_store v)" "recordFailure (ID sb) [] ''panic'' p e k v = (r, n', w')"
  then show ?thesis
    using handled_earlier [OF handled_logged] by (auto simp: recordFailure_run [OF assms(1)])
next
  fix stage cause k v
  assume v: "touches (\<lambda>_ _. False) (w_store w) (w_store v)" and run: "recordSharedFailure oor sb ready stage cause e k v = (r, n', w')"
  let ?l = "logged (ID sb) [] stage cause (clock e k) (w_store v)"
  have "forward (\<lambda>_ _. True) (db_foreach (map rs_name ready) (record_attempt oor (ID sb) stage cause))" by (intro forward_rules) simp
  moreover have "db_foreach (map rs_name ready) (record_attempt oor (ID sb) stage cause) e (Suc k) (v\<lparr>w_store := ?l\<rparr>) = (r, n', w')"
    using run by (simp add: recordSharedFailure_def db_bind_def recordFailure_run [OF assms(1)])
  ultimately have "touches (\<lambda>_ _. True) ?l (w_store w')" using forwardD by fastforce
  moreover have "handled (ID sb) (rs_name sc) (w_store w) ?l" by (rule handled_earlier [OF handled_logged v]) simp
  ultimately show ?thesis using handled_later by blast
next
  fix path k v k' v'
  assume v: "n \<le> k" "touches (\<lambda>_ _. False) (w_store w) (w_store v)" and run: "db_foreach ready (scanWith oor tk sb path) e k v = (Inr (), k', v')"
    and v': "touches (\<lambda>_ _. False) (w_store v') (w_store w')"
  have a: "attempt_at (ID sb) (rs_name sc) (w_store v) = attempt_at (ID sb) (rs_name sc) (w_store w)"
    using v(2) unfolding touches_def by blast
  from scanners_handle [OF assms(1-3) run assms(4)] show ?thesis
    using handled_later [OF handled_earlier [OF _ v(2)] v'] resting_earlier [OF _ v(1) a] by blast
qed

lemma forward_scan_all: "forward (\<lambda>_ _. True) (scan_all r ready sbs)"
proof -
  have "forward (\<lambda>_ _. True) (db_ctx d)" for d by (auto simp: forward_def db_ctx_def touches_refl split: option.splits)
  then show ?thesis unfolding scan_all_def by (intro forward_rules forward_scanOne) simp_all
qed

lemma scan_all_total: "r_done r = (\<lambda>_. None) \<Longrightarrow> \<exists>n' w'. scan_all r ready sbs e n w = (Inr (), n', w')"
proof -
  assume d: "r_done r = (\<lambda>_. None)"
  obtain x n' w' where run: "scan_all r ready sbs e n w = (x, n', w')" by (metis prod_cases3)
  with d scan_all_Inl [of r ready sbs e n w] show ?thesis by (cases x) auto
qed

text \<open>
  C11. No due work is skipped. When the database answers, a batch scans every SBOM of its list with
  every ready scanner: whatever the tools do, each pair ends with a new recorded run or a new
  recorded failure, of the pair or of the whole SBOM, unless the pair is backing off or quarantined
  at some moment of the batch by the retry state it had at the start.
\<close>

theorem scan_all_handles:
  assumes "no_faults e" and "fresh_temp (r_tools r)" and "r_done r = (\<lambda>_. None)"
    and "distinct (map rs_name ready)" and "distinct (map ID sbs)" and "sb \<in> set sbs" and "sc \<in> set ready"
  shows "\<exists>n' w'. scan_all r ready sbs e n w = (Inr (), n', w') \<and>
    (handled (ID sb) (rs_name sc) (w_store w) (w_store w') \<or> resting e n (ID sb) (rs_name sc) (w_store w))"
  using assms(5,6)
proof (induction sbs arbitrary: n w)
  case (Cons sb' sbs)
  obtain n1 w1 where 1: "scanOne (r_oor r) (r_tools r) ready sb' e n w = (Inr (), n1, w1)"
    using db_okD [OF ok_scanOne, of "r_oor r" "r_tools r" ready sb' e n w] by auto
  have t1: "n \<le> n1" "touches (\<lambda>sid _. sid = ID sb') (w_store w) (w_store w1)"
    using forwardD [OF forward_scanOne 1, of "\<lambda>sid _. sid = ID sb'"] by auto
  have step: "scan_all r ready (sb' # sbs) e n w = scan_all r ready sbs e n1 w1"
    using 1 assms(3) by (simp add: scan_all_def db_bind_def db_ctx_def)
  show ?case
  proof (cases "sb = sb'")
    case True
    obtain n' w' where run: "scan_all r ready sbs e n1 w1 = (Inr (), n', w')" using scan_all_total [OF assms(3)] by blast
    then have "touches (\<lambda>_ _. True) (w_store w1) (w_store w')" using forward_scan_all [of r] forwardD by blast
    with scanOne_handles [OF assms(1,2,4,7) 1] True run step show ?thesis using handled_later by (metis (no_types, lifting))
  next
    case False
    with Cons.prems have sb: "sb \<in> set sbs" "ID sb \<noteq> ID sb'" by (auto simp: image_iff)
    from Cons.IH [of n1 w1] Cons.prems(1) sb(1) obtain n' w' where ih: "scan_all r ready sbs e n1 w1 = (Inr (), n', w')"
        "handled (ID sb) (rs_name sc) (w_store w1) (w_store w') \<or> resting e n1 (ID sb) (rs_name sc) (w_store w1)" by auto
    have "attempt_at (ID sb) (rs_name sc) (w_store w1) = attempt_at (ID sb) (rs_name sc) (w_store w)"
      using t1(2) sb(2) unfolding touches_def by blast
    with ih t1 handled_earlier [OF _ t1(2)] resting_earlier [OF _ t1(1)] show ?thesis unfolding step by blast
  qed
qed simp

section \<open>What a scan achieves\<close>

definition fail_count :: "string \<Rightarrow> string \<Rightarrow> store \<Rightarrow> nat" where
  "fail_count sid sc s = (case attempt_at sid sc s of None \<Rightarrow> 0 | Some a \<Rightarrow> at_fail_count a)"

lemma logged_frame [simp]:
  "findings (logged sid sc stage cause t s) = findings s" "scan_runs (logged sid sc stage cause t s) = scan_runs s"
  "attempts (logged sid sc stage cause t s) = attempts s"
  by (simp_all add: logged_def)

lemma stored_facts:
  assumes "stored_as sb sc vulns s s'" and "store_inv s"
  shows "finding_view (ID sb) (rs_name sc) s' = (\<lambda>fid. map_option attributes (map_of (incoming_findings vulns) fid)) \<and>
    (\<exists>run. scan_runs s' = scan_runs s @ [run] \<and> run_sbom run = ID sb \<and> run_scanner run = rs_name sc) \<and>
    attempt_at (ID sb) (rs_name sc) s' = None"
proof -
  obtain now tx_now s1 where c: "s1 = s \<or> (\<exists>t. s1 = logged (ID sb) (rs_name sc) ''zero-findings'' (zero_findings sb) t s)"
      and e: "s' = clear_attempt (ID sb) (rs_name sc) (apply_core sb (rs_name sc) (rs_ver sc) vulns now tx_now s1)"
    using assms(1) unfolding stored_as_def by blast
  have "findings s1 = findings s" "scan_runs s1 = scan_runs s" using c by auto
  note s1 = this
  let ?c = "apply_core sb (rs_name sc) (rs_ver sc) vulns now tx_now s1"
  have f: "findings s' = findings ?c" and r: "scan_runs s' = scan_runs ?c" by (simp_all add: e clear_attempt_def)
  have "distinct_key finding_key (findings s1)" using assms(2) s1(1) by (simp add: store_inv_def)
  from apply_core_view [OF this] have "finding_view (ID sb) (rs_name sc) s' =
      (\<lambda>fid. map_option attributes (map_of (incoming_findings vulns) fid))" unfolding view_cong [OF f] .
  moreover have "\<exists>run. scan_runs s' = scan_runs s @ [run] \<and> run_sbom run = ID sb \<and> run_scanner run = rs_name sc"
    by (simp add: r apply_core_rest s1(2) new_run_def)
  moreover have "attempt_at (ID sb) (rs_name sc) s' = None" unfolding e attempt_at_clear by simp
  ultimately show ?thesis by blast
qed

lemma failed_facts:
  assumes "failed_as oor sb sc s s'" and "fail_count (ID sb) (rs_name sc) s \<le> 32"
  shows "findings s' = findings s \<and> scan_runs s' = scan_runs s \<and>
    fail_count (ID sb) (rs_name sc) s' = Suc (fail_count (ID sb) (rs_name sc) s)"
proof -
  obtain stage cause t t' s1 where c: "s1 = s \<or> (\<exists>t. s1 = logged (ID sb) (rs_name sc) ''zero-findings'' (zero_findings sb) t s)"
      and e: "s' = failed_at oor (ID sb) (rs_name sc) stage cause t t' s1"
    using assms(1) unfolding failed_as_def by blast
  have "findings s1 = findings s" "scan_runs s1 = scan_runs s" "attempts s1 = attempts s" using c by auto
  note s1 = this e
  let ?l = "logged (ID sb) (rs_name sc) stage cause t s1" and ?msg = "stage @ '': '' @ Error cause"
  have l: "attempts ?l = attempts s" "findings ?l = findings s" "scan_runs ?l = scan_runs s" by (simp_all add: s1)
  have "attempt_failed oor (ID sb) (rs_name sc) ?msg t' ?l \<noteq> None"
    using assms(2) by (auto simp: attempt_failed_def interval_mul_iff s1(3) fail_count_def split: option.split)
  then obtain s2 where s2: "attempt_failed oor (ID sb) (rs_name sc) ?msg t' ?l = Some s2" by blast
  then have s': "s' = s2" by (simp add: s1(4) failed_at_def backed_off_def)
  have "findings s2 = findings ?l" "scan_runs s2 = scan_runs ?l"
    using s2 by (auto simp: attempt_failed_def split: option.splits)
  then show ?thesis
    using attempt_at_failed [OF s2, of "ID sb" "rs_name sc"]
    by (auto simp: s' s1(1-3) fail_count_def first_attempt_def next_attempt_def split: option.split)
qed


section \<open>Forced rescans and panics\<close>

lemma ok_recordSharedFailure: "db_ok (recordSharedFailure oor sb ready stage cause)"
  unfolding recordSharedFailure_def by (intro ok_rules)

lemma rescan_kept:
  assumes "recordSharedFailure oor sb ready stage cause e n w = (r, n', w')"
  shows "sboms (w_store w') = sboms (w_store w)"
proof -
  let ?R = "\<lambda>w w'. sboms (w_store w') = sboms (w_store w)"
  have f: "db_keeps ?R (recordFailure sid sc stage cause)" for sid sc
    by (auto simp: db_keeps_def recordFailure_def on_store_def RecordScanFailure_def db_ignore_def db_stmt_def split: prod.splits option.splits)
  have a: "db_keeps ?R (record_attempt oor sid stage cause sc)" for sid sc
    by (auto simp: db_keeps_def record_attempt_def on_store_def RecordScannerAttemptFailure_def db_ignore_def db_stmt_def attempt_failed_def
        split: prod.splits option.splits)
  have "db_keeps ?R (recordSharedFailure oor sb ready stage cause)"
    unfolding recordSharedFailure_def by (intro db_keeps_bind db_keeps_foreach f a) simp_all
  from db_keepsD [OF this assms] show ?thesis .
qed

text \<open>
  A forced rescan of an SBOM that cannot be downloaded never ends. The failure is recorded and every
  scanner backs off, but the marker stays, and a marked SBOM is due at any time, whatever its retry
  state: the job picks it up again in every run, and refreshes the scanner databases for it.
\<close>

theorem forced_poison_stays_due:
  assumes "FetchBlob tk n (ObjectPath sb) = Err err" and "row \<in> set (sboms (w_store w))" and "ID row = ID sb" and "Status row = ''active''"
    and "rescan_requested_at row \<noteq> None"
    and "scanOne oor tk ready sb e n w = (r, n', w')"
  shows "\<exists>sb' \<in> set (list_scannable maxAge expected now (w_store w')). ID sb' = ID sb"
proof -
  have "recordSharedFailure oor sb ready ''download'' err e n w = (r, n', w')"
    using assms(1,6) db_okD [OF ok_recordSharedFailure, of oor sb ready "''download''" err e n w]
    by (auto simp: scanOne_def db_recover_def db_bind_def call_tool_def)
  then have "row \<in> set (sboms (w_store w'))" using assms(2) rescan_kept by metis
  moreover have "scannable maxAge expected now (w_store w') row" using assms(4,5) by (simp add: scannable_def)
  ultimately have "listed row \<in> set (list_scannable maxAge expected now (w_store w'))" by (auto simp: list_scannable_def)
  moreover have "ID (listed row) = ID sb" using assms(3) by (simp add: listed_def)
  ultimately show ?thesis by blast
qed

text \<open>
  A panic before the scanners does not back off. When the blob store's client panics, the failure is
  recorded, but no retry state changes: the SBOM is as due as before, and the next run meets the
  same panic.
\<close>

theorem shared_panic_no_backoff:
  assumes "FetchBlob tk n (ObjectPath sb) = Panic m" and "scanOne oor tk ready sb e n w = (r, n', w')"
  shows "attempts (w_store w') = attempts (w_store w) \<and>
    list_scannable maxAge expected now (w_store w') = list_scannable maxAge expected now (w_store w)"
proof -
  have "recordFailure (ID sb) [] ''panic'' (panicked m) e n w = (r, n', w')"
    using assms by (simp add: scanOne_def db_recover_def db_bind_def call_tool_def)
  then have "attempts (w_store w') = attempts (w_store w)" "sboms (w_store w') = sboms (w_store w)" "scan_runs (w_store w') = scan_runs (w_store w)"
    by (auto simp: recordFailure_def on_store_def RecordScanFailure_def db_ignore_def db_stmt_def split: prod.splits option.splits)
  moreover from this have "outstanding (intervalSeconds maxAge) now sid (w_store w') = outstanding (intervalSeconds maxAge) now sid (w_store w)" for sid
    by (simp add: fun_eq_iff outstanding_def has_recent_run_def backing_off_def)
  then have "scannable maxAge expected now (w_store w') = scannable maxAge expected now (w_store w)"
    by (intro ext) (simp add: scannable_def)
  ultimately show ?thesis by (simp add: list_scannable_def)
qed

section \<open>Idle runs\<close>

text \<open>
  A run with nothing due does not touch the tools: its outcome is the same whatever the scanners,
  the blob store, the canonicalizer and the file system would answer, so no vulnerability database is
  refreshed.
\<close>

theorem Execute_idle:
  assumes "list_scannable (r_ScanMaxAge r) (r_scanners r) (clock e n) (w_store w) = []"
  shows "Execute r e n w = Execute (r\<lparr>r_tools := tk\<rparr>) e n w"
proof -
  have "refreshEnrichment (r\<lparr>r_tools := tk\<rparr>) = refreshEnrichment r" by (simp add: refreshEnrichment_def cong: option.case_cong)
  then show ?thesis
    using assms by (simp add: Execute_def Let_def db_bind_def [of "db_try m" for m] db_try_def on_store_def ListScannableSBOMs_def db_stmt_def
      split: option.split)
qed


theorem scan_all_handles_witness:
  "\<exists>n' w'. scan_all demo_runner [demo_ready] [demo_sbom] (calm_env 0) 0 demo_world = (Inr (), n', w') \<and>
     handled ''s1'' ''grype'' empty_store (w_store w')"
proof -
  have "\<not> resting (calm_env 0) 0 (ID demo_sbom) (rs_name demo_ready) (w_store demo_world)"
    by (simp add: resting_def attempt_due_def demo_no_attempts)
  then show ?thesis
    using scan_all_handles [of "calm_env 0" demo_runner "[demo_ready]" "[demo_sbom]" demo_sbom demo_ready 0 demo_world]
    by (auto simp: demo_runner_def fresh_demo_tools demo_ready_def demo_sbom_def demo_world_def)
qed


definition demo_forced :: world where
  "demo_forced = demo_world\<lparr>w_store := empty_store\<lparr>sboms := [SBOM.extend demo_sbom \<lparr>rescan_requested_at = Some 0\<rparr>]\<rparr>\<rparr>"

theorem forced_poison_stays_due_witness:
  "\<exists>r n' w'. scanOne (\<lambda>_. 0) (demo_tools\<lparr>FetchBlob := \<lambda>_ _. Err ErrNotFound\<rparr>) [demo_ready] demo_sbom (calm_env 0) 0 demo_forced = (r, n', w') \<and>
     (\<exists>sb' \<in> set (list_scannable 43200000000000 [''grype''] 10 (w_store w')). ID sb' = ID demo_sbom)"
proof -
  let ?tk = "demo_tools\<lparr>FetchBlob := \<lambda>_ _. Err ErrNotFound\<rparr>" and ?row = "SBOM.extend demo_sbom \<lparr>rescan_requested_at = Some 0\<rparr>"
  obtain r n' w' where 1: "scanOne (\<lambda>_. 0) ?tk [demo_ready] demo_sbom (calm_env 0) 0 demo_forced = (r, n', w')" by (metis prod_cases3)
  from forced_poison_stays_due [OF _ _ _ _ _ 1, of ErrNotFound ?row] 1 show ?thesis
    by (auto simp: demo_forced_def SBOM.defs demo_sbom_def)
qed

theorem shared_panic_no_backoff_witness:
  "\<exists>r n' w'. scanOne (\<lambda>_. 0) (demo_tools\<lparr>FetchBlob := \<lambda>_ _. Panic ''nil''\<rparr>) [demo_ready] demo_sbom (calm_env 0) 0 demo_world = (r, n', w') \<and>
     attempts (w_store w') = []"
proof -
  let ?tk = "demo_tools\<lparr>FetchBlob := \<lambda>_ _. Panic ''nil''\<rparr>"
  obtain r n' w' where 1: "scanOne (\<lambda>_. 0) ?tk [demo_ready] demo_sbom (calm_env 0) 0 demo_world = (r, n', w')" by (metis prod_cases3)
  from shared_panic_no_backoff [OF _ 1, of "''nil''"] 1 show ?thesis by (simp add: demo_world_def empty_store_def)
qed

theorem Execute_idle_witness:
  "Execute demo_runner (calm_env 0) 0 demo_world = Execute (demo_runner\<lparr>r_tools := demo_tools\<lparr>EnsureDB := \<lambda>_ _. Some ErrNotFound\<rparr>\<rparr>) (calm_env 0) 0 demo_world"
  by (rule Execute_idle) (simp add: demo_world_def empty_store_def list_scannable_def)

end
