(* ===== verification/Email.thy ===== *)
theory Email
  imports Converter
begin

text \<open>
  Transactional email: \<open>pkg/net/email.go\<close>. Two senders implement the interface \<open>Sender\<close>: Resend's
  HTTP API and, for development, a terminal. The HTTP client, the JSON decoder and the terminal are
  arguments; what the provider answers may depend on the moment of the call.

  \<open>mail_sender\<close> is the contract of the interface that the delivery worker and its store rely on: a
  receipt the store accepts as a provider's identifier. Both senders satisfy it.
\<close>

section \<open>Messages\<close>

record Message =
  To :: string
  Subject :: string
  HTML :: string
  Text :: string
  IdempotencyKey :: string

record Receipt =
  Receipt_ID :: string

text \<open>A call of a sender at a moment.\<close>

type_synonym sender = "nat \<Rightarrow> Message \<Rightarrow> Receipt result"

definition validateMessage :: "Message \<Rightarrow> go_error option" where
  "validateMessage m =
     map_option invalidMessageError
       (if TrimSpace (To m) = [] then Some ''email recipient is required''
        else if length (To m) > 320 then Some ''email recipient exceeds 320 bytes''
        else if TrimSpace (Subject m) = [] then Some ''email subject is required''
        else if length (Subject m) > 998 then Some ''email subject exceeds 998 bytes''
        else if HTML m = [] \<and> Text m = [] then Some ''email body is required''
        else if TrimSpace (IdempotencyKey m) = [] then Some ''email idempotency key is required''
        else if length (IdempotencyKey m) > 256 then Some ''email idempotency key exceeds 256 bytes''
        else None)"

section \<open>The classification of failures\<close>

text \<open>\<open>errors.As\<close> with a \<open>*ProviderError\<close> and with an \<open>*invalidMessageError\<close>.\<close>

fun as_provider :: "go_error \<Rightarrow> (int \<times> string) option" where
  "as_provider (ProviderError status name msg) = Some (status, name)"
| "as_provider (Wrapf p e) = as_provider e"
| "as_provider (Joined e1 e2) = (case as_provider e1 of Some x \<Rightarrow> Some x | None \<Rightarrow> as_provider e2)"
| "as_provider e = None"

fun is_invalid_message :: "go_error \<Rightarrow> bool" where
  "is_invalid_message (invalidMessageError m) = True"
| "is_invalid_message (Wrapf p e) = is_invalid_message e"
| "is_invalid_message (Joined e1 e2) = (is_invalid_message e1 \<or> is_invalid_message e2)"
| "is_invalid_message e = False"

definition IsTransientProviderError :: "go_error \<Rightarrow> bool" where
  "IsTransientProviderError err =
     (case as_provider err of
        None \<Rightarrow> False
      | Some (status, name) \<Rightarrow>
          status = 429 \<or> status = 408 \<or> status = 425 \<or> (500 \<le> status \<and> status \<le> 599) \<or>
          (status = 409 \<and> name = ''concurrent_idempotent_requests''))"

definition IsPermanentProviderError :: "go_error \<Rightarrow> bool" where
  "IsPermanentProviderError err =
     (case as_provider err of
        None \<Rightarrow> False
      | Some (status, name) \<Rightarrow>
          if IsTransientProviderError err then False else 400 \<le> status \<and> status < 500)"

definition IsPermanentSenderError :: "go_error \<Rightarrow> bool" where
  "IsPermanentSenderError err = (IsPermanentProviderError err \<or> is_invalid_message err)"

section \<open>Resend\<close>

abbreviation resendAPIURL :: string where "resendAPIURL \<equiv> ''https://api.resend.com/emails''"

definition maxEmailPayload :: nat where
  "maxEmailPayload = 524288"

definition maxResponseBody :: nat where
  "maxResponseBody = 16384"

definition providerErrorNames :: "string list" where
  "providerErrorNames =
     [''application_error'', ''authentication_error'', ''concurrent_idempotent_requests'',
      ''idempotency_key_already_exists'', ''internal_server_error'', ''invalid_access'', ''invalid_api_key'',
      ''invalid_idempotency_key'', ''invalid_parameter'', ''invalid_recipient'', ''invalid_region'',
      ''method_not_allowed'', ''missing_api_key'', ''missing_required_field'', ''not_found'',
      ''payload_mismatch'', ''rate_limit_exceeded'', ''restricted_api_key'', ''validation_error'']"

definition alnum :: "char \<Rightarrow> bool" where
  "alnum c = (let n = (of_char c :: nat) in (48 \<le> n \<and> n \<le> 57) \<or> (65 \<le> n \<and> n \<le> 90) \<or> (97 \<le> n \<and> n \<le> 122))"

text \<open>\<open>^[A-Za-z0-9][A-Za-z0-9._:-]{0,255}$\<close>, and its like with other characters.\<close>

definition token_text :: "string \<Rightarrow> string \<Rightarrow> bool" where
  "token_text extra s =
     (case s of
        [] \<Rightarrow> False
      | c # cs \<Rightarrow> alnum c \<and> length cs \<le> 255 \<and> list_all (\<lambda>d. alnum d \<or> d \<in> set extra) cs)"

definition providerReceiptIDRE :: "string \<Rightarrow> bool" where
  "providerReceiptIDRE = token_text ''._:-''"

text \<open>\<open>json.Marshal\<close> of the payload: the keys of a map in order; quotes, backslashes, control
  characters and the characters of HTML markup are escaped.\<close>

definition json_char :: "char \<Rightarrow> string" where
  "json_char c =
     (let n = (of_char c :: nat); hex = (\<lambda>d. ''0123456789abcdef'' ! (d mod 16)) in
      if n = 34 \<or> n = 92 then [CHR 0x5C, c]
      else if n = 8 then [CHR 0x5C, CHR ''b''] else if n = 12 then [CHR 0x5C, CHR ''f'']
      else if n = 10 then [CHR 0x5C, CHR ''n''] else if n = 13 then [CHR 0x5C, CHR ''r'']
      else if n = 9 then [CHR 0x5C, CHR ''t'']
      else if n < 32 \<or> n = 60 \<or> n = 62 \<or> n = 38 then [CHR 0x5C] @ ''u00'' @ [hex (n div 16), hex n]
      else [c])"

definition json_text :: "string \<Rightarrow> string" where
  "json_text s = [CHR 0x22] @ concat (map json_char s) @ [CHR 0x22]"

definition email_body :: "string \<Rightarrow> Message \<Rightarrow> string" where
  "email_body from m =
     ''{'' @ Join [json_text ''from'' @ '':'' @ json_text from, json_text ''html'' @ '':'' @ json_text (HTML m),
       json_text ''subject'' @ '':'' @ json_text (Subject m), json_text ''text'' @ '':'' @ json_text (Text m),
       json_text ''to'' @ '':['' @ json_text (To m) @ '']''] '','' @ ''}''"

text \<open>A request, what the client answers (the body or the error of reading it), and what the
  decoder finds under a key: \<open>None\<close> when the body is not JSON of the expected shape, the empty text
  when the key is absent.\<close>

record http_request =
  req_url :: string
  req_headers :: "(string \<times> string) list"
  req_body :: string

record http_response =
  StatusCode :: int
  resp_body :: "string result"

record provider =
  Do :: "nat \<Rightarrow> http_request \<Rightarrow> http_response result"
  json_field :: "string \<Rightarrow> string \<Rightarrow> string option"

definition email_request :: "string \<Rightarrow> string \<Rightarrow> Message \<Rightarrow> string \<Rightarrow> http_request" where
  "email_request apiURL apiKey m b =
     \<lparr>req_url = apiURL,
      req_headers = [(''Authorization'', ''Bearer '' @ apiKey), (''Content-Type'', ''application/json''),
        (''Idempotency-Key'', IdempotencyKey m)],
      req_body = b\<rparr>"

definition read_receipt :: "provider \<Rightarrow> string \<Rightarrow> Receipt result" where
  "read_receipt p rb =
     (if length rb > maxResponseBody then Inl (Errorf ''email provider returned success without a message ID'')
      else
        (case json_field p rb ''id'' of
           None \<Rightarrow> Inl (Errorf ''email provider returned success without a message ID'')
         | Some i \<Rightarrow>
             if \<not> providerReceiptIDRE (TrimSpace i) then Inl (Errorf ''email provider returned an invalid message ID'')
             else Inr \<lparr>Receipt_ID = TrimSpace i\<rparr>))"

definition provider_failure :: "provider \<Rightarrow> int \<Rightarrow> string \<Rightarrow> go_error" where
  "provider_failure p status rb =
     (let name = TrimSpace (case json_field p rb ''name'' of None \<Rightarrow> [] | Some v \<Rightarrow> v) in
      ProviderError status (if name \<in> set providerErrorNames then name else ''provider_error'') ''provider request failed'')"

text \<open>The reader stops one byte after the limit.\<close>

definition sendEmailTo :: "provider \<Rightarrow> string \<Rightarrow> string \<Rightarrow> string \<Rightarrow> sender" where
  "sendEmailTo p apiURL apiKey from n m =
     (case validateMessage m of
        Some err \<Rightarrow> Inl err
      | None \<Rightarrow>
          (let b = email_body from m in
           if length b > maxEmailPayload then Inl (Errorf (''email payload exceeds '' @ nat_text maxEmailPayload @ '' bytes''))
           else
             (case Do p n (email_request apiURL apiKey m b) of
                Inl err \<Rightarrow> Inl (Wrapf ''send email request: '' err)
              | Inr resp \<Rightarrow>
                  (case resp_body resp of
                     Inl err \<Rightarrow> Inl (Wrapf ''read email provider response: '' err)
                   | Inr full \<Rightarrow>
                       (let rb = take (Suc maxResponseBody) full in
                        if 200 \<le> StatusCode resp \<and> StatusCode resp < 300 then read_receipt p rb
                        else Inl (provider_failure p (StatusCode resp) rb))))))"

definition ResendSender :: "provider \<Rightarrow> string \<Rightarrow> string \<Rightarrow> sender" where
  "ResendSender p apiKey from = sendEmailTo p resendAPIURL apiKey from"

section \<open>The terminal\<close>

fun fields_from :: "string \<Rightarrow> string \<Rightarrow> string list" where
  "fields_from cur [] = (if cur = [] then [] else [cur])"
| "fields_from cur (c # s) =
     (if is_space c then (if cur = [] then [] else [cur]) @ fields_from [] s else fields_from (cur @ [c]) s)"

definition Fields :: "string \<Rightarrow> string list" where
  "Fields s = fields_from [] s"

definition Trim :: "string \<Rightarrow> string \<Rightarrow> string" where
  "Trim s cutset = rev (dropWhile (\<lambda>c. c \<in> set cutset) (rev (dropWhile (\<lambda>c. c \<in> set cutset) s)))"

fun first_url :: "string list \<Rightarrow> string" where
  "first_url [] = []"
| "first_url (f # fs) =
     (let g = Trim f ([CHR 0x22, CHR 0x27] @ ''<>(),'') in
      if HasPrefix g ''https://'' \<or> HasPrefix g ''http://'' then TrimSuffix g ''</a></p>'' else first_url fs)"

definition firstMessageURL :: "Message \<Rightarrow> string" where
  "firstMessageURL m = first_url (Fields (Text m @ '' '' @ HTML m))"

text \<open>The terminal, if it is open: how many bytes of a text it writes at a moment and its error.\<close>

type_synonym terminal = "nat \<Rightarrow> string \<Rightarrow> nat \<times> go_error option"

definition terminal_text :: "Message \<Rightarrow> string \<Rightarrow> string" where
  "terminal_text m link = ''DevRadar invitation for '' @ To m @ '':'' @ [CHR 0x0A] @ link @ [CHR 0x0A]"

definition TerminalSender :: "terminal option \<Rightarrow> (nat \<Rightarrow> go_error option) \<Rightarrow> sender" where
  "TerminalSender writer ctx n m =
     (case ctx n of
        Some err \<Rightarrow> Inl err
      | None \<Rightarrow>
          (case validateMessage m of
             Some err \<Rightarrow> Inl err
           | None \<Rightarrow>
               (case writer of
                  None \<Rightarrow> Inl ErrTerminalDelivery
                | Some put \<Rightarrow>
                    (let link = firstMessageURL m; out = terminal_text m link in
                     if link = [] then Inl ErrTerminalDelivery
                     else
                       (case put n out of (written, err) \<Rightarrow>
                          if err \<noteq> None \<or> written \<noteq> length out then Inl ErrTerminalDelivery
                          else Inr \<lparr>Receipt_ID = ''local-'' @ take 24 (sha256_hex (IdempotencyKey m))\<rparr>)))))"

section \<open>The contract of a sender\<close>

text \<open>What the store asks of a provider's identifier.\<close>

definition maxProviderID :: nat where
  "maxProviderID = 256"

definition provider_id_ok :: "string \<Rightarrow> bool" where
  "provider_id_ok i = (TrimSpace i = i \<and> i \<noteq> [] \<and> length i \<le> maxProviderID)"

locale mail_sender =
  fixes Send :: sender
  assumes receipt_ok: "Send n m = Inr r \<Longrightarrow> provider_id_ok (Receipt_ID r)"
    and only_valid: "Send n m = Inr r \<Longrightarrow> validateMessage m = None"

lemma dropWhile_none: "list_all (\<lambda>c. \<not> P c) s \<Longrightarrow> dropWhile P s = s"
  by (cases s) auto

lemma TrimSpace_id: "list_all (\<lambda>c. \<not> is_space c) s \<Longrightarrow> TrimSpace s = s"
  by (simp add: TrimSpace_def dropWhile_none list_all_iff)

lemma alnum_not_space: "alnum c \<Longrightarrow> \<not> is_space c"
  by (auto simp: alnum_def is_space_def Let_def)

lemma punct_not_space: "d \<in> set ''._:-'' \<Longrightarrow> \<not> is_space d"
  by (auto simp: is_space_def)

lemma providerReceiptIDRE_ok: "providerReceiptIDRE i \<Longrightarrow> provider_id_ok i"
proof -
  assume i: "providerReceiptIDRE i"
  then obtain c cs where i_eq: "i = c # cs" and "alnum c" and cs: "list_all (\<lambda>d. alnum d \<or> d \<in> set ''._:-'') cs"
    by (auto simp only: providerReceiptIDRE_def token_text_def split: list.splits)
  moreover have "list_all (\<lambda>c. \<not> is_space c) cs"
    using cs by (rule list.pred_mono_strong) (use alnum_not_space punct_not_space in blast)
  ultimately have "list_all (\<lambda>c. \<not> is_space c) i" by (simp add: alnum_not_space)
  with i show ?thesis
    by (auto simp: provider_id_ok_def TrimSpace_id maxProviderID_def providerReceiptIDRE_def token_text_def split: list.splits)
qed

interpretation resend: mail_sender "ResendSender p apiKey from" for p apiKey "from"
  by unfold_locales
    (auto simp: ResendSender_def sendEmailTo_def read_receipt_def Let_def providerReceiptIDRE_ok
      split: option.splits if_splits sum.splits)

lemma hex_not_space: "c \<in> set ''0123456789abcdef'' \<Longrightarrow> \<not> is_space c"
  by (auto simp: is_space_def)

lemma local_receipt_ok: "provider_id_ok (''local-'' @ take 24 (sha256_hex k))"
proof -
  have "list_all (\<lambda>c. \<not> is_space c) (take 24 (sha256_hex k))"
    unfolding list_all_iff using set_sha256_hex [of k] hex_not_space by (blast dest: in_set_takeD)
  then have "list_all (\<lambda>c. \<not> is_space c) (''local-'' @ take 24 (sha256_hex k))"
    by (simp add: is_space_def)
  then show ?thesis
    unfolding provider_id_ok_def using TrimSpace_id by (simp add: maxProviderID_def length_sha256_hex)
qed

interpretation terminal: mail_sender "TerminalSender writer ctx" for writer ctx
  by unfold_locales
    (auto simp: TerminalSender_def Let_def local_receipt_ok [simplified] split: option.splits if_splits prod.splits)

end
