(* ===== verification/Redaction.thy ===== *)
theory Redaction
  imports Email
begin

text \<open>
  The text of a delivery error: \<open>sanitizeDeliveryError\<close> of \<open>pkg/data/postgres/delivery.go\<close>. Control
  characters are dropped, whatever looks like a credential is replaced, and the text is trimmed and
  cut. The pattern \<open>(?i)(authorization\s*:\s*bearer|bearer)\s+\S+|\bre_[A-Za-z0-9_-]+\<close> is matched the
  way the regular expression package does, leftmost first; no step of it needs to backtrack.
\<close>

section \<open>The pattern\<close>

definition re_space :: "char \<Rightarrow> bool" where
  "re_space c = (let n = (of_char c :: nat) in n = 9 \<or> n = 10 \<or> n = 12 \<or> n = 13 \<or> n = 32)"

definition word_char :: "char \<Rightarrow> bool" where
  "word_char c = (alnum c \<or> c = CHR ''_'')"

definition key_char :: "char \<Rightarrow> bool" where
  "key_char c = (word_char c \<or> c = CHR ''-'')"

text \<open>What follows a literal, read without regard to case.\<close>

definition strip_ci :: "string \<Rightarrow> string \<Rightarrow> string option" where
  "strip_ci lit s = (if ToLower (take (length lit) s) = lit then Some (drop (length lit) s) else None)"

definition bearer_tail :: "string \<Rightarrow> string option" where
  "bearer_tail s =
     (case s of
        [] \<Rightarrow> None
      | c # _ \<Rightarrow>
          if \<not> re_space c then None
          else
            (case dropWhile re_space s of
               [] \<Rightarrow> None
             | d # t \<Rightarrow> Some (dropWhile (\<lambda>x. \<not> re_space x) t)))"

definition match_authorization :: "string \<Rightarrow> string option" where
  "match_authorization s =
     Option.bind (strip_ci ''authorization'' s) (\<lambda>t.
     Option.bind (strip_ci '':'' (dropWhile re_space t)) (\<lambda>u.
     Option.bind (strip_ci ''bearer'' (dropWhile re_space u)) bearer_tail))"

definition match_bearer :: "string \<Rightarrow> string option" where
  "match_bearer s = Option.bind (strip_ci ''bearer'' s) bearer_tail"

definition key_tail :: "string \<Rightarrow> string option" where
  "key_tail s = (case s of [] \<Rightarrow> None | c # u \<Rightarrow> if key_char c then Some (dropWhile key_char u) else None)"

definition match_key :: "char option \<Rightarrow> string \<Rightarrow> string option" where
  "match_key prev s =
     (if (case prev of None \<Rightarrow> False | Some c \<Rightarrow> word_char c) then None
      else
        Option.bind (strip_ci ''re_'' s) key_tail)"

text \<open>A match at the head of a text, with the character before it: what follows the match.\<close>

definition credential_at :: "char option \<Rightarrow> string \<Rightarrow> string option" where
  "credential_at prev s =
     (case match_authorization s of
        Some t \<Rightarrow> Some t
      | None \<Rightarrow> (case match_bearer s of Some t \<Rightarrow> Some t | None \<Rightarrow> match_key prev s))"

lemma strip_ci_Some: "strip_ci lit s = Some t \<Longrightarrow> s = take (length lit) s @ t"
  by (auto simp: strip_ci_def split: if_splits)

lemma strip_ci_length: "strip_ci lit s = Some t \<Longrightarrow> length s = length lit + length t"
proof -
  assume a: "strip_ci lit s = Some t"
  then have l: "ToLower (take (length lit) s) = lit" and t: "t = drop (length lit) s"
    by (auto simp: strip_ci_def split: if_splits)
  from l have "length (ToLower (take (length lit) s)) = length lit" by (rule arg_cong)
  with t show ?thesis by simp
qed

lemma bearer_tail_length: "bearer_tail s = Some t \<Longrightarrow> length t < length s"
proof -
  assume "bearer_tail s = Some t"
  then obtain d u where 1: "dropWhile re_space s = d # u" and 2: "t = dropWhile (\<lambda>x. \<not> re_space x) u"
    by (auto simp: bearer_tail_def split: list.splits if_splits)
  from 1 have "length u < length s" using length_dropWhile_le [of re_space s] by simp
  with 2 show ?thesis using length_dropWhile_le [of "\<lambda>x. \<not> re_space x" u] by simp
qed

lemma match_authorization_length: "match_authorization s = Some t \<Longrightarrow> length t < length s"
proof -
  assume "match_authorization s = Some t"
  then obtain u v w where "strip_ci ''authorization'' s = Some u" and "strip_ci '':'' (dropWhile re_space u) = Some v"
    and "strip_ci ''bearer'' (dropWhile re_space v) = Some w" and "bearer_tail w = Some t"
    by (auto simp: match_authorization_def bind_eq_Some_conv)
  show ?thesis
    using strip_ci_length [OF \<open>strip_ci ''authorization'' s = Some u\<close>]
      strip_ci_length [OF \<open>strip_ci '':'' (dropWhile re_space u) = Some v\<close>]
      strip_ci_length [OF \<open>strip_ci ''bearer'' (dropWhile re_space v) = Some w\<close>]
      bearer_tail_length [OF \<open>bearer_tail w = Some t\<close>]
      length_dropWhile_le [of re_space u] length_dropWhile_le [of re_space v] by linarith
qed

lemma key_tail_length: "key_tail s = Some t \<Longrightarrow> length t < length s"
  using length_dropWhile_le by (auto simp: key_tail_def less_Suc_eq_le split: list.splits if_splits)

lemma match_key_length: "match_key prev s = Some t \<Longrightarrow> length t < length s"
  using strip_ci_length key_tail_length by (fastforce simp: match_key_def bind_eq_Some_conv split: if_splits)

lemma match_bearer_length: "match_bearer s = Some t \<Longrightarrow> length t < length s"
  using strip_ci_length bearer_tail_length by (fastforce simp: match_bearer_def bind_eq_Some_conv)

lemma credential_at_length: "credential_at prev s = Some t \<Longrightarrow> length t < length s"
  by (auto simp: credential_at_def match_authorization_length match_bearer_length match_key_length split: option.splits)

text \<open>\<open>ReplaceAllString\<close> of the pattern.\<close>

function redact :: "char option \<Rightarrow> string \<Rightarrow> string" where
  "redact prev [] = []"
| "redact prev (c # s) =
     (case credential_at prev (c # s) of
        None \<Rightarrow> c # redact (Some c) s
      | Some t \<Rightarrow> ''[redacted]'' @ redact (Some ((c # s) ! (length s - length t))) t)"
  by pat_completeness auto

termination
  by (relation "measure (\<lambda>(p, s). length s)") (auto dest: credential_at_length)

definition maxDeliveryError :: nat where
  "maxDeliveryError = 512"

definition printable :: "char \<Rightarrow> bool" where
  "printable r = (let n = (of_char r :: nat) in n = 10 \<or> n = 13 \<or> n = 9 \<or> n \<ge> 32)"

definition sanitizeDeliveryError :: "string \<Rightarrow> string" where
  "sanitizeDeliveryError message0 =
     (let message = TrimSpace (redact None (filter printable message0));
          message' = (if length message > maxDeliveryError then take maxDeliveryError message else message)
      in if message' = [] then ''delivery failed'' else message')"

section \<open>No credential is left\<close>

text \<open>The pattern matches nowhere in the text.\<close>

fun clean :: "char option \<Rightarrow> string \<Rightarrow> bool" where
  "clean prev [] = True"
| "clean prev (c # s) = (credential_at prev (c # s) = None \<and> clean (Some c) s)"

lemma strip_ci_simps [simp]:
  "strip_ci [] s = Some s"
  "strip_ci (l # lit) [] = None"
  "strip_ci (l # lit) (c # s) = (if lower_char c = l then strip_ci lit s else None)"
  by (auto simp: strip_ci_def)

text \<open>A match begins with one of three letters and ends before a character that begins none.\<close>

definition starts :: "char \<Rightarrow> bool" where
  "starts c = (lower_char c = CHR ''a'' \<or> lower_char c = CHR ''b'' \<or> lower_char c = CHR ''r'')"

lemma lower_char_letter: "lower_char c = d \<Longrightarrow> 97 \<le> (of_char d :: nat) \<Longrightarrow> (of_char d :: nat) \<le> 122 \<Longrightarrow> alnum c"
  by (auto simp: lower_char_def alnum_def Let_def split: if_splits)

lemma starts_alnum: "starts c \<Longrightarrow> alnum c"
  unfolding starts_def using lower_char_letter by fastforce

lemma alnum_not_re_space: "alnum c \<Longrightarrow> \<not> re_space c"
  by (auto simp: alnum_def re_space_def Let_def)

lemma match_starts:
  "match_authorization (c # s) = Some t \<Longrightarrow> lower_char c = CHR ''a''"
  "match_bearer (c # s) = Some t \<Longrightarrow> lower_char c = CHR ''b''"
  "match_key prev (c # s) = Some t \<Longrightarrow> lower_char c = CHR ''r''"
  by (auto simp: match_authorization_def match_bearer_def match_key_def split: if_splits)

lemma credential_starts: "credential_at prev (c # s) = Some t \<Longrightarrow> starts c"
  unfolding credential_at_def starts_def using match_starts by (auto split: option.splits)

lemma credential_Nil [simp]: "credential_at prev [] = None"
  by (simp add: credential_at_def match_authorization_def match_bearer_def match_key_def)

lemma bearer_tail_stop: "bearer_tail s = Some (c # t) \<Longrightarrow> re_space c"
  by (auto simp: bearer_tail_def dropWhile_eq_Cons_conv split: list.splits if_splits)

lemma key_tail_stop: "key_tail s = Some (c # t) \<Longrightarrow> \<not> key_char c"
  by (auto simp: key_tail_def dropWhile_eq_Cons_conv split: list.splits if_splits)

lemma credential_stops: "credential_at prev s = Some (c # t) \<Longrightarrow> \<not> starts c"
proof -
  assume "credential_at prev s = Some (c # t)"
  then have "re_space c \<or> \<not> key_char c"
    by (auto simp: credential_at_def match_authorization_def match_bearer_def match_key_def bind_eq_Some_conv
      dest: bearer_tail_stop key_tail_stop split: option.splits if_splits)
  then show ?thesis
    using starts_alnum alnum_not_re_space by (auto simp: key_char_def word_char_def)
qed

subsection \<open>Changing what follows\<close>

text \<open>The text \<open>y'\<close> is empty or begins with a bracket, where \<open>y\<close> begins with a character that is not
  white space: a match in \<open>u @ y'\<close> then also is one in \<open>u @ y\<close>.\<close>

definition stops :: "string \<Rightarrow> string \<Rightarrow> bool" where
  "stops y' y = (y' = [] \<or> (hd y' = CHR ''['' \<and> y \<noteq> [] \<and> \<not> re_space (hd y)))"

lemma strip_ci_stops:
  assumes "strip_ci lit (u @ y') = Some r" and "stops y' y" and "CHR ''['' \<notin> set lit"
  shows "\<exists>u2. r = u2 @ y' \<and> strip_ci lit (u @ y) = Some (u2 @ y)"
  using assms
proof (induction lit arbitrary: u)
  case Nil
  then show ?case by simp
next
  case (Cons l lit)
  show ?case
  proof (cases u)
    case Nil
    with Cons.prems show ?thesis
      by (cases y') (auto simp: stops_def lower_char_def split: if_splits)
  next
    case (Cons c u')
    with Cons.prems Cons.IH [of u'] show ?thesis by (auto split: if_splits)
  qed
qed

lemma dropWhile_stops:
  assumes "stops y' y"
  shows "\<exists>u2. dropWhile re_space (u @ y') = u2 @ y' \<and> (u2 @ y' \<noteq> [] \<longrightarrow> dropWhile re_space (u @ y) = u2 @ y)"
proof (induction u)
  case Nil
  have "\<not> re_space (CHR ''['')" by (simp add: re_space_def)
  with assms show ?case by (cases y'; cases y) (auto simp: stops_def)
next
  case (Cons c u)
  then show ?case by (cases "re_space c") auto
qed

lemma bearer_tail_stops:
  assumes "bearer_tail (u @ y') \<noteq> None" and "stops y' y"
  shows "bearer_tail (u @ y) \<noteq> None"
proof -
  have "\<not> re_space (CHR ''['')" by (simp add: re_space_def)
  with assms obtain c u' where u: "u = c # u'" and c: "re_space c"
    by (cases u; cases y') (auto simp: bearer_tail_def stops_def split: if_splits)
  from assms u c have "dropWhile re_space (u @ y') \<noteq> []"
    by (simp add: bearer_tail_def split: list.splits del: dropWhile_eq_Nil_conv)
  moreover obtain u2 where "dropWhile re_space (u @ y') = u2 @ y'"
    and "u2 @ y' \<noteq> [] \<longrightarrow> dropWhile re_space (u @ y) = u2 @ y"
    using dropWhile_stops [OF assms(2), of u] by blast
  ultimately have "u2 @ y' \<noteq> []" and "dropWhile re_space (u @ y) = u2 @ y" by simp_all
  with assms(2) have "dropWhile re_space (u @ y) \<noteq> []" by (auto simp: stops_def simp del: dropWhile_eq_Nil_conv)
  with u c show ?thesis by (simp add: bearer_tail_def split: list.splits del: dropWhile_eq_Nil_conv)
qed

lemma key_tail_stops:
  assumes "key_tail (u @ y') \<noteq> None" and "stops y' y"
  shows "key_tail (u @ y) \<noteq> None"
proof -
  have "\<not> key_char (CHR ''['')" by (simp add: key_char_def word_char_def alnum_def)
  with assms show ?thesis by (cases u; cases y') (auto simp: key_tail_def stops_def split: if_splits)
qed

lemma match_bearer_stops:
  assumes "match_bearer (u @ y') \<noteq> None" and "stops y' y"
  shows "match_bearer (u @ y) \<noteq> None"
proof -
  from assms obtain r where r: "strip_ci ''bearer'' (u @ y') = Some r" "bearer_tail r \<noteq> None"
    by (auto simp: match_bearer_def bind_eq_Some_conv)
  from strip_ci_stops [OF r(1) assms(2)] obtain u2 where "r = u2 @ y'" "strip_ci ''bearer'' (u @ y) = Some (u2 @ y)" by auto
  with r bearer_tail_stops [OF _ assms(2), of u2] show ?thesis by (simp add: match_bearer_def del: strip_ci_simps)
qed

lemma match_key_stops:
  assumes "match_key p (u @ y') \<noteq> None" and "stops y' y"
  shows "match_key p (u @ y) \<noteq> None"
proof -
  from assms obtain r where r: "strip_ci ''re_'' (u @ y') = Some r" "key_tail r \<noteq> None"
    and p: "\<not> (case p of None \<Rightarrow> False | Some c \<Rightarrow> word_char c)"
    by (auto simp: match_key_def bind_eq_Some_conv split: if_splits)
  from strip_ci_stops [OF r(1) assms(2)] obtain u2 where "r = u2 @ y'" "strip_ci ''re_'' (u @ y) = Some (u2 @ y)" by auto
  with r p key_tail_stops [OF _ assms(2), of u2] show ?thesis by (simp add: match_key_def del: strip_ci_simps)
qed

lemma spaced_strip_stops:
  assumes "strip_ci lit (dropWhile re_space (u @ y')) = Some r" and "stops y' y" and "lit \<noteq> []" and "CHR ''['' \<notin> set lit"
  shows "\<exists>u2. r = u2 @ y' \<and> strip_ci lit (dropWhile re_space (u @ y)) = Some (u2 @ y)"
proof -
  from dropWhile_stops [OF assms(2), of u] obtain u2 where u2: "dropWhile re_space (u @ y') = u2 @ y'"
    "u2 @ y' \<noteq> [] \<longrightarrow> dropWhile re_space (u @ y) = u2 @ y" by auto
  from assms(1,3) u2(1) have "u2 @ y' \<noteq> []" by (cases lit) auto
  with assms u2 strip_ci_stops [of lit u2 y' r y] show ?thesis by simp
qed

lemma match_authorization_stops:
  assumes "match_authorization (u @ y') \<noteq> None" and "stops y' y"
  shows "match_authorization (u @ y) \<noteq> None"
proof -
  from assms obtain a b c where a: "strip_ci ''authorization'' (u @ y') = Some a"
    and b: "strip_ci '':'' (dropWhile re_space a) = Some b" and c: "strip_ci ''bearer'' (dropWhile re_space b) = Some c"
    and d: "bearer_tail c \<noteq> None"
    by (auto simp: match_authorization_def bind_eq_Some_conv simp del: strip_ci_simps)
  from strip_ci_stops [OF a assms(2)] obtain a2 where a2: "a = a2 @ y'" "strip_ci ''authorization'' (u @ y) = Some (a2 @ y)" by auto
  from spaced_strip_stops [OF b [unfolded a2(1)] assms(2)] obtain b2 where
    b2: "b = b2 @ y'" "strip_ci '':'' (dropWhile re_space (a2 @ y)) = Some (b2 @ y)" by auto
  from spaced_strip_stops [OF c [unfolded b2(1)] assms(2)] obtain c2 where
    c2: "c = c2 @ y'" "strip_ci ''bearer'' (dropWhile re_space (b2 @ y)) = Some (c2 @ y)" by auto
  from d c2(1) bearer_tail_stops [OF _ assms(2), of c2] have "bearer_tail (c2 @ y) \<noteq> None" by simp
  with a2 b2 c2 show ?thesis by (simp add: match_authorization_def del: strip_ci_simps)
qed

lemma credential_at_None:
  "credential_at p s = None \<longleftrightarrow> match_authorization s = None \<and> match_bearer s = None \<and> match_key p s = None"
  by (simp add: credential_at_def split: option.splits)

lemma credential_stops_at:
  assumes "credential_at p (u @ y) = None" and "stops y' y"
  shows "credential_at p (u @ y') = None"
  using assms(1) match_authorization_stops [OF _ assms(2), of u] match_bearer_stops [OF _ assms(2), of u]
    match_key_stops [OF _ assms(2), of p u]
  unfolding credential_at_None by blast

subsection \<open>Redaction leaves no match\<close>

lemma redact_split:
  "redact p s = s \<or> (\<exists>u y y'. s = u @ y \<and> redact p s = u @ y' \<and> hd y' = CHR ''['' \<and> y' \<noteq> [] \<and> y \<noteq> [] \<and> \<not> re_space (hd y))"
proof (induction p s rule: redact.induct)
  case (1 p)
  then show ?case by simp
next
  case (2 p c s)
  show ?case
  proof (cases "credential_at p (c # s)")
    case None
    from 2(1) [OF None] show ?thesis
    proof
      assume "redact (Some c) s = s"
      with None show ?thesis by simp
    next
      assume "\<exists>u y y'. s = u @ y \<and> redact (Some c) s = u @ y' \<and> hd y' = CHR ''['' \<and> y' \<noteq> [] \<and> y \<noteq> [] \<and> \<not> re_space (hd y)"
      then obtain u y y' where "s = u @ y" "redact (Some c) s = u @ y'" "hd y' = CHR ''[''" "y' \<noteq> []" "y \<noteq> []" "\<not> re_space (hd y)"
        by blast
      with None show ?thesis by (intro disjI2 exI [of _ "c # u"] exI [of _ y] exI [of _ y']) simp
    qed
  next
    case (Some t)
    then have "\<not> re_space c" using credential_starts starts_alnum alnum_not_re_space by blast
    with Some show ?thesis by (intro disjI2 exI [of _ "[]"] exI [of _ "c # s"] exI [of _ "redact p (c # s)"]) simp
  qed
qed

text \<open>What comes before a text matters only at its head, and not where no match can begin.\<close>

lemma clean_any: "s = [] \<or> \<not> starts (hd s) \<Longrightarrow> clean p s = clean q s"
  using credential_starts by (cases s) (auto, (metis not_None_eq)+)

lemma clean_marker: "clean (Some CHR '']'') s \<Longrightarrow> clean p (''[redacted]'' @ s)"
  by (simp add: credential_at_None match_authorization_def match_bearer_def match_key_def lower_char_def)

lemma clean_redact: "clean p (redact p s)"
proof (induction p s rule: redact.induct)
  case (1 p)
  then show ?case by simp
next
  case (2 p c s)
  show ?case
  proof (cases "credential_at p (c # s)")
    case None
    from redact_split [of "Some c" s] have "credential_at p (c # redact (Some c) s) = None"
    proof
      assume "\<exists>u y y'. s = u @ y \<and> redact (Some c) s = u @ y' \<and> hd y' = CHR ''['' \<and> y' \<noteq> [] \<and> y \<noteq> [] \<and> \<not> re_space (hd y)"
      then obtain u y y' where *: "s = u @ y" "redact (Some c) s = u @ y'" "stops y' y" by (auto simp: stops_def)
      from credential_stops_at [of p "c # u" y y'] None * show ?thesis by simp
    qed (simp add: None)
    with None 2(1) show ?thesis by simp
  next
    case (Some t)
    have t: "t = [] \<or> \<not> starts (hd t)" using credential_stops Some by (cases t) auto
    let ?q = "Some ((c # s) ! (length s - length t))"
    have "redact ?q t = [] \<or> \<not> starts (hd (redact ?q t))"
      using t credential_starts by (cases t) (auto split: option.splits)
    then have "clean (Some CHR '']'') (redact ?q t)" using 2(2) [OF Some] clean_any by blast
    then show ?thesis using Some clean_marker by simp
  qed
qed

lemma clean_prefix: "clean p (u @ v) \<Longrightarrow> clean p u"
proof (induction u arbitrary: p)
  case (Cons c u)
  then show ?case using credential_stops_at [of p "c # u" v "[]"] by (simp add: stops_def)
qed simp

lemma clean_prev: "\<not> word_char c \<Longrightarrow> clean (Some c) s = clean None s"
  by (cases s) (simp_all add: credential_at_None match_key_def)

lemma space_not_word: "is_space c \<Longrightarrow> \<not> word_char c"
  by (auto simp: word_char_def alnum_def is_space_def Let_def)

lemma clean_dropWhile: "clean None s \<Longrightarrow> clean None (dropWhile is_space s)"
  by (induction s) (auto simp: clean_prev space_not_word)

lemma clean_TrimSpace: "clean None s \<Longrightarrow> clean None (TrimSpace s)"
proof -
  assume "clean None s"
  then have "clean None (dropWhile is_space s)" by (rule clean_dropWhile)
  moreover have "prefix (TrimSpace s) (dropWhile is_space s)"
    unfolding TrimSpace_def using suffix_dropWhile [of is_space "rev (dropWhile is_space s)"]
    by (simp add: suffix_to_prefix)
  ultimately show ?thesis using clean_prefix by (auto elim!: prefixE)
qed

lemma clean_take: "clean p s \<Longrightarrow> clean p (take n s)"
  using clean_prefix [of p "take n s" "drop n s"] by simp

lemma clean_delivery_failed: "clean None ''delivery failed''"
  by (simp add: credential_at_None match_authorization_def match_bearer_def match_key_def lower_char_def)


end
