(* ===== verification/Delivery_Store.thy ===== *)
theory Delivery_Store
  imports Redaction "HOL-Library.Product_Lexorder"
begin

text \<open>
  The store of the delivery worker: \<open>pkg/data/postgres/delivery.go\<close> over the tables of migration
  032. Five worker slots bound the concurrency of all executions together; the outbox holds one row
  per invitation mail. Slots and rows are leased for a time: a slot is fenced by its generation, a
  row by its attempt count.

  \<open>clock_timestamp()\<close> is read once per statement. \<open>SKIP LOCKED\<close> has no rows to skip, since a
  statement or a transaction runs on its own. A \<open>CHECK\<close> constraint that a statement would break makes
  it fail.
\<close>

section \<open>Rows\<close>

record slot_row =
  sl_slot :: int
  sl_owner :: "string option"
  sl_generation :: int
  sl_expires :: "time option"

record DeliverySlot =
  Slot :: int
  SlotOwner :: string
  Generation :: int
  SlotExpiresAt :: time

record invitation_row =
  in_id :: string
  in_account :: string
  in_email :: string
  in_version :: int
  in_expires :: time
  in_accepted :: "time option"
  in_revoked :: "time option"

record outbox_row =
  ob_id :: string
  ob_account :: string
  ob_kind :: string
  ob_invitation :: string
  ob_version :: int
  ob_recipient :: string
  ob_payload :: string
  ob_key :: string
  ob_status :: string
  ob_attempts :: int
  ob_first :: "time option"
  ob_next :: time
  ob_owner :: "string option"
  ob_expires :: "time option"
  ob_provider :: "string option"
  ob_error :: "string option"
  ob_delivered :: "time option"
  ob_failed :: "time option"
  ob_canceled :: "time option"
  ob_created :: time
  ob_updated :: time

record Delivery =
  d_ID :: string
  d_AccountID :: string
  d_Kind :: string
  d_InvitationID :: string
  d_InvitationVersion :: int
  d_InvitationExpiresAt :: time
  d_Recipient :: string
  d_EncryptedPayload :: string
  d_IdempotencyKey :: string
  d_AttemptCount :: int
  d_FirstAttemptAt :: time
  d_NextAttemptAt :: time
  d_LeaseOwner :: string
  d_LeaseExpiresAt :: time
  d_CreatedAt :: time

record InvitationDelivery =
  iv_InvitationID :: string
  iv_InvitationVersion :: int
  iv_Recipient :: string
  iv_EncryptedPayload :: string
  iv_IdempotencyKey :: string

text \<open>The tables, the sequence the outbox draws its identifiers from, and the messages that were
  handed to the sender so far.\<close>

record mail =
  slots :: "slot_row list"
  outbox :: "outbox_row list"
  invitations :: "invitation_row list"
  next_outbox :: nat
  sent :: "Message list"

section \<open>Constraints\<close>

abbreviation Pending :: string where "Pending \<equiv> ''pending''"
abbreviation Leased :: string where "Leased \<equiv> ''leased''"
abbreviation Delivered :: string where "Delivered \<equiv> ''delivered''"
abbreviation PermanentlyFailed :: string where "PermanentlyFailed \<equiv> ''permanently_failed''"
abbreviation CanceledState :: string where "CanceledState \<equiv> ''canceled''"

definition btrim :: "string \<Rightarrow> string" where
  "btrim s = rev (dropWhile (\<lambda>c. c = CHR '' '') (rev (dropWhile (\<lambda>c. c = CHR '' '') s)))"

definition bounded_text :: "nat \<Rightarrow> string option \<Rightarrow> bool" where
  "bounded_text k x = (case x of None \<Rightarrow> True | Some s \<Rightarrow> btrim s = s \<and> 1 \<le> length s \<and> length s \<le> k)"

definition not_before :: "time \<Rightarrow> time option \<Rightarrow> bool" where
  "not_before t x = (case x of None \<Rightarrow> True | Some u \<Rightarrow> t \<le> u)"

definition column_checks :: "outbox_row \<Rightarrow> bool" where
  "column_checks r \<longleftrightarrow>
     ob_kind r = ''account_invitation'' \<and> 1 \<le> ob_version r \<and> ob_version r \<le> 2147483647 \<and>
     ob_recipient r = ToLower (btrim (ob_recipient r)) \<and> 3 \<le> length (ob_recipient r) \<and> length (ob_recipient r) \<le> 320 \<and>
     length (ob_payload r) \<le> 4096 \<and> token_text ''._:/-'' (ob_key r) \<and>
     0 \<le> ob_attempts r \<and> ob_attempts r \<le> 10000 \<and> bounded_text 128 (ob_owner r) \<and> bounded_text 256 (ob_provider r) \<and>
     (case ob_error r of None \<Rightarrow> True | Some m \<Rightarrow> length m \<le> 512)"

definition attempt_shape :: "outbox_row \<Rightarrow> bool" where
  "attempt_shape r = ((ob_attempts r = 0 \<and> ob_first r = None) \<or> (ob_attempts r > 0 \<and> ob_first r \<noteq> None))"

definition state_shape :: "outbox_row \<Rightarrow> bool" where
  "state_shape r \<longleftrightarrow>
     (ob_status r = Pending \<and> ob_owner r = None \<and> ob_expires r = None \<and>
        ob_delivered r = None \<and> ob_failed r = None \<and> ob_canceled r = None \<and> prefix ''enc:'' (ob_payload r)) \<or>
     (ob_status r = Leased \<and> ob_owner r \<noteq> None \<and> ob_expires r \<noteq> None \<and>
        ob_delivered r = None \<and> ob_failed r = None \<and> ob_canceled r = None \<and> prefix ''enc:'' (ob_payload r)) \<or>
     (ob_status r = Delivered \<and> ob_owner r = None \<and> ob_expires r = None \<and>
        ob_delivered r \<noteq> None \<and> ob_failed r = None \<and> ob_canceled r = None \<and> ob_provider r \<noteq> None \<and> ob_payload r = []) \<or>
     (ob_status r = PermanentlyFailed \<and> ob_owner r = None \<and> ob_expires r = None \<and>
        ob_delivered r = None \<and> ob_failed r \<noteq> None \<and> ob_canceled r = None \<and> ob_payload r = []) \<or>
     (ob_status r = CanceledState \<and> ob_owner r = None \<and> ob_expires r = None \<and>
        ob_delivered r = None \<and> ob_failed r = None \<and> ob_canceled r \<noteq> None \<and> ob_payload r = [])"

definition time_order :: "outbox_row \<Rightarrow> bool" where
  "time_order r \<longleftrightarrow>
     ob_created r \<le> ob_updated r \<and> not_before (ob_created r) (ob_first r) \<and> not_before (ob_created r) (ob_delivered r) \<and>
     not_before (ob_created r) (ob_failed r) \<and> not_before (ob_created r) (ob_canceled r)"

definition outbox_checks :: "outbox_row \<Rightarrow> bool" where
  "outbox_checks r = (column_checks r \<and> attempt_shape r \<and> state_shape r \<and> time_order r)"

text \<open>An update of the rows that satisfy \<open>P\<close>: the number of rows, unless one would break a
  constraint. No update writes an identity column, so the trigger on them is silent.\<close>

abbreviation check_violation :: go_error where "check_violation \<equiv> Driver ''violates check constraint''"

definition update_outbox :: "(outbox_row \<Rightarrow> bool) \<Rightarrow> (outbox_row \<Rightarrow> outbox_row) \<Rightarrow> mail \<Rightarrow> nat result \<times> mail" where
  "update_outbox P f s =
     (if list_all (\<lambda>r. P r \<longrightarrow> outbox_checks (f r)) (outbox s)
      then (Inr (length (filter P (outbox s))), s\<lparr>outbox := map (\<lambda>r. if P r then f r else r) (outbox s)\<rparr>)
      else (Inl check_violation, s))"

text \<open>An error of a statement with its text before it.\<close>

definition wrap_result :: "string \<Rightarrow> 'a result \<times> 's \<Rightarrow> 'a result \<times> 's" where
  "wrap_result p x = (case x of (Inl err, s) \<Rightarrow> (Inl (Wrapf p err), s) | (Inr v, s) \<Rightarrow> (Inr v, s))"

lemma wrap_result_Inr: "wrap_result p x = (Inr v, s) \<longleftrightarrow> x = (Inr v, s)"
  by (auto simp: wrap_result_def split: prod.splits sum.splits)

section \<open>Worker slots\<close>

definition maxDeliverySlots :: int where
  "maxDeliverySlots = 5"

definition maxDeliverySlotLease :: duration where
  "maxDeliverySlotLease = 10 * 60 * 1000000000"

text \<open>A duration as the database reads its text: whole microseconds. This holds of durations of a
  second or more, the only ones the worker passes.\<close>

definition interval_of :: "duration \<Rightarrow> interval" where
  "interval_of d = round_even (of_int d / 1000)"

definition owner_ok :: "string \<Rightarrow> bool" where
  "owner_ok owner = (\<not> (owner = [] \<or> length owner > 128))"

definition slot_free :: "time \<Rightarrow> slot_row \<Rightarrow> bool" where
  "slot_free now r = (sl_owner r = None \<or> (case sl_expires r of None \<Rightarrow> False | Some t \<Rightarrow> t \<le> now))"

definition lease_slot :: "string \<Rightarrow> time \<Rightarrow> interval \<Rightarrow> slot_row \<Rightarrow> slot_row" where
  "lease_slot owner now d r = r\<lparr>sl_owner := Some owner, sl_generation := sl_generation r + 1, sl_expires := Some (now + d)\<rparr>"

definition available_slots :: "int \<Rightarrow> time \<Rightarrow> mail \<Rightarrow> slot_row list" where
  "available_slots limit now s = take (nat limit) (sort_key sl_slot (filter (slot_free now) (slots s)))"

definition slot_of :: "string \<Rightarrow> time \<Rightarrow> interval \<Rightarrow> slot_row \<Rightarrow> DeliverySlot" where
  "slot_of owner now d r =
     \<lparr>Slot = sl_slot r, SlotOwner = owner, Generation = sl_generation r + 1, SlotExpiresAt = now + d\<rparr>"

definition lease_slots :: "string \<Rightarrow> int \<Rightarrow> interval \<Rightarrow> time \<Rightarrow> mail \<Rightarrow> DeliverySlot list result \<times> mail" where
  "lease_slots owner limit d now s =
     (let avail = available_slots limit now s in
      if list_ex (\<lambda>r. sl_generation r = 2 ^ 63 - 1) avail then (Inl (Driver ''bigint out of range''), s)
      else (Inr (map (slot_of owner now d) avail),
        s\<lparr>slots := map (\<lambda>r. if sl_slot r \<in> sl_slot ` set avail then lease_slot owner now d r else r) (slots s)\<rparr>))"

definition LeaseDeliverySlots :: "string \<Rightarrow> int \<Rightarrow> duration \<Rightarrow> (mail, DeliverySlot list) db" where
  "LeaseDeliverySlots owner0 limit0 leaseDuration =
     (if limit0 \<le> 0 then db_return []
      else
        (let owner = TrimSpace owner0; limit = (if limit0 > maxDeliverySlots then maxDeliverySlots else limit0) in
         if \<not> owner_ok owner then db_fail (Errorf ''delivery slot owner must be between 1 and 128 bytes'')
         else if leaseDuration \<le> 0 \<or> leaseDuration > maxDeliverySlotLease
         then db_fail (Errorf ''delivery slot lease duration must be positive and at most 10m'')
         else
           db_stmt (Wrapf ''lease delivery slots: '') (\<lambda>now s.
             wrap_result ''lease delivery slots: '' (lease_slots owner limit (interval_of leaseDuration) now s))))"

definition slot_held :: "string \<Rightarrow> DeliverySlot \<Rightarrow> slot_row \<Rightarrow> bool" where
  "slot_held owner sl r = (sl_slot r = Slot sl \<and> sl_owner r = Some owner \<and> sl_generation r = Generation sl)"

definition release_slot :: "string \<Rightarrow> DeliverySlot \<Rightarrow> mail \<Rightarrow> nat \<times> mail" where
  "release_slot owner sl s =
     (length (filter (slot_held owner sl) (slots s)),
      s\<lparr>slots := map (\<lambda>r. if slot_held owner sl r then r\<lparr>sl_owner := None, sl_expires := None\<rparr> else r) (slots s)\<rparr>)"

definition release_one :: "string \<Rightarrow> DeliverySlot \<Rightarrow> (mail, unit) db" where
  "release_one owner sl =
     (if Slot sl < 1 \<or> Slot sl > maxDeliverySlots \<or> Generation sl < 1 then db_fail ErrStaleDeliverySlot
      else
        db_bind (db_stmt (Wrapf (''release delivery slot '' @ itoa (Slot sl) @ '': ''))
          (\<lambda>now s. case release_slot owner sl s of (n, s') \<Rightarrow> (Inr n, s'))) (\<lambda>changed.
        if changed \<noteq> 1 then db_fail ErrStaleDeliverySlot else db_return ()))"

definition ReleaseDeliverySlots :: "string \<Rightarrow> DeliverySlot list \<Rightarrow> (mail, unit) db" where
  "ReleaseDeliverySlots owner0 sls =
     (if sls = [] then db_return ()
      else
        (let owner = TrimSpace owner0 in
         if \<not> owner_ok owner \<or> int (length sls) > maxDeliverySlots then db_fail ErrStaleDeliverySlot
         else
           db_tx ''begin delivery slot release: '' (\<lambda>_. db_foreach sls (release_one owner))
             ''commit delivery slot release: ''))"

section \<open>Enqueueing\<close>

text \<open>The transaction of the caller is given, so the test for a missing one is not modelled; \<open>now\<close> is its
  start, the default of the row's times.\<close>

definition invitation_open :: "time \<Rightarrow> invitation_row \<Rightarrow> bool" where
  "invitation_open now i = (in_accepted i = None \<and> in_revoked i = None \<and> in_expires i > now)"

definition enqueue_target :: "string \<Rightarrow> InvitationDelivery \<Rightarrow> time \<Rightarrow> mail \<Rightarrow> bool" where
  "enqueue_target accountID d now s =
     list_ex (\<lambda>i. in_account i = accountID \<and> in_id i = iv_InvitationID d \<and> in_version i = iv_InvitationVersion d \<and>
       in_email i = iv_Recipient d \<and> invitation_open now i) (invitations s)"

definition new_outbox :: "string \<Rightarrow> InvitationDelivery \<Rightarrow> time \<Rightarrow> nat \<Rightarrow> outbox_row" where
  "new_outbox accountID d now n =
     \<lparr>ob_id = nat_text n, ob_account = accountID, ob_kind = ''account_invitation'', ob_invitation = iv_InvitationID d,
      ob_version = iv_InvitationVersion d, ob_recipient = iv_Recipient d, ob_payload = iv_EncryptedPayload d,
      ob_key = iv_IdempotencyKey d, ob_status = Pending, ob_attempts = 0, ob_first = None, ob_next = now,
      ob_owner = None, ob_expires = None, ob_provider = None, ob_error = None, ob_delivered = None,
      ob_failed = None, ob_canceled = None, ob_created = now, ob_updated = now\<rparr>"

definition insert_outbox :: "string \<Rightarrow> InvitationDelivery \<Rightarrow> time \<Rightarrow> mail \<Rightarrow> string result \<times> mail" where
  "insert_outbox accountID d now s =
     (let r = new_outbox accountID d now (next_outbox s) in
      if \<not> outbox_checks r then (Inl check_violation, s)
      else if list_ex (\<lambda>x. ob_key x = ob_key r) (outbox s) then (Inl (Driver ''duplicate key value violates unique constraint''), s)
      else (Inr (ob_id r), s\<lparr>outbox := outbox s @ [r], next_outbox := Suc (next_outbox s)\<rparr>))"

definition EnqueueInvitationDelivery :: "time \<Rightarrow> string \<Rightarrow> InvitationDelivery \<Rightarrow> (mail, string) db" where
  "EnqueueInvitationDelivery now accountID d =
     (if accountID = [] \<or> iv_InvitationID d = [] \<or> iv_InvitationVersion d < 1 \<or> iv_Recipient d = [] \<or>
         iv_Recipient d \<noteq> ToLower (TrimSpace (iv_Recipient d))
      then db_fail ErrStaleDeliveryInvitation
      else
        db_stmt (Wrapf ''enqueue invitation delivery: '') (\<lambda>clk s.
          if \<not> enqueue_target accountID d clk s then (Inl ErrStaleDeliveryInvitation, s)
          else wrap_result ''enqueue invitation delivery: '' (insert_outbox accountID d now s)))"

section \<open>Leasing\<close>

definition maxDeliveryLeaseLimit :: int where
  "maxDeliveryLeaseLimit = 50"

definition maxDeliveryAttempts :: int where
  "maxDeliveryAttempts = 10000"

definition due :: "time \<Rightarrow> outbox_row \<Rightarrow> bool" where
  "due now r =
     ((ob_status r = Pending \<and> ob_next r \<le> now) \<or>
      (ob_status r = Leased \<and> (case ob_expires r of None \<Rightarrow> False | Some t \<Rightarrow> t \<le> now)))"

definition due_at :: "outbox_row \<Rightarrow> time" where
  "due_at r = (if ob_status r = Pending then ob_next r else case ob_expires r of None \<Rightarrow> 0 | Some t \<Rightarrow> t)"

definition due_order :: "outbox_row \<Rightarrow> time \<times> time \<times> string" where
  "due_order r = (due_at r, ob_created r, ob_id r)"

definition pick :: "(outbox_row \<Rightarrow> bool) \<Rightarrow> int \<Rightarrow> time \<Rightarrow> mail \<Rightarrow> outbox_row list" where
  "pick P limit now s = take (nat limit) (sort_key due_order (filter (\<lambda>r. due now r \<and> P r) (outbox s)))"

definition exhaust :: "time \<Rightarrow> outbox_row \<Rightarrow> outbox_row" where
  "exhaust now r =
     r\<lparr>ob_status := PermanentlyFailed, ob_payload := [], ob_owner := None, ob_expires := None, ob_provider := None,
       ob_error := Some ''maximum delivery attempts exceeded'', ob_failed := Some now, ob_updated := now\<rparr>"

definition terminalize :: "time \<Rightarrow> mail \<Rightarrow> nat result \<times> mail" where
  "terminalize now s =
     (let poison = ob_id ` set (pick (\<lambda>r. ob_attempts r \<ge> maxDeliveryAttempts) maxDeliveryLeaseLimit now s)
      in update_outbox (\<lambda>r. ob_id r \<in> poison) (exhaust now) s)"

definition lease_row :: "string \<Rightarrow> interval \<Rightarrow> time \<Rightarrow> outbox_row \<Rightarrow> outbox_row" where
  "lease_row owner d now r =
     r\<lparr>ob_status := Leased, ob_attempts := ob_attempts r + 1,
       ob_first := Some (case ob_first r of None \<Rightarrow> now | Some t \<Rightarrow> t), ob_owner := Some owner,
       ob_expires := Some (now + d), ob_updated := now\<rparr>"

definition delivery_of :: "outbox_row \<Rightarrow> invitation_row \<Rightarrow> Delivery" where
  "delivery_of r i =
     \<lparr>d_ID = ob_id r, d_AccountID = ob_account r, d_Kind = ob_kind r, d_InvitationID = ob_invitation r,
      d_InvitationVersion = ob_version r, d_InvitationExpiresAt = in_expires i, d_Recipient = ob_recipient r,
      d_EncryptedPayload = ob_payload r, d_IdempotencyKey = ob_key r, d_AttemptCount = ob_attempts r,
      d_FirstAttemptAt = (case ob_first r of None \<Rightarrow> zero_time | Some t \<Rightarrow> t), d_NextAttemptAt = ob_next r,
      d_LeaseOwner = (case ob_owner r of None \<Rightarrow> [] | Some w \<Rightarrow> w),
      d_LeaseExpiresAt = (case ob_expires r of None \<Rightarrow> zero_time | Some t \<Rightarrow> t), d_CreatedAt = ob_created r\<rparr>"

definition lease_due :: "string \<Rightarrow> int \<Rightarrow> interval \<Rightarrow> time \<Rightarrow> mail \<Rightarrow> Delivery list result \<times> mail" where
  "lease_due owner limit d now s =
     (let cands = pick (\<lambda>r. ob_attempts r < maxDeliveryAttempts) limit now s in
      case update_outbox (\<lambda>r. ob_id r \<in> ob_id ` set cands) (lease_row owner d now) s of
        (Inl err, s') \<Rightarrow> (Inl err, s')
      | (Inr _, s') \<Rightarrow>
          (Inr (List.map_filter (\<lambda>r. map_option (delivery_of (lease_row owner d now r))
             (lookup_key in_id (invitations s) (ob_invitation r))) cands), s'))"

definition LeaseDeliveries :: "string \<Rightarrow> int \<Rightarrow> duration \<Rightarrow> (mail, Delivery list) db" where
  "LeaseDeliveries owner0 limit0 leaseDuration =
     (if limit0 \<le> 0 then db_return []
      else
        (let owner = TrimSpace owner0; limit = (if limit0 > maxDeliveryLeaseLimit then maxDeliveryLeaseLimit else limit0) in
         if \<not> owner_ok owner then db_fail (Errorf ''delivery lease owner must be between 1 and 128 bytes'')
         else if leaseDuration \<le> 0 \<or> leaseDuration > 15 * 60 * 1000000000
         then db_fail (Errorf ''delivery lease duration must be positive and at most 15m'')
         else
           db_tx ''begin delivery lease: '' (\<lambda>_.
             db_bind (db_stmt (Wrapf ''terminalize exhausted deliveries: '') (\<lambda>now s.
               wrap_result ''terminalize exhausted deliveries: '' (terminalize now s))) (\<lambda>_.
             db_stmt (Wrapf ''lease deliveries: '') (\<lambda>now s.
               wrap_result ''lease deliveries: '' (lease_due owner limit (interval_of leaseDuration) now s))))
           ''commit delivery lease: ''))"

definition DeliveryInvitationCurrent :: "string \<Rightarrow> string \<Rightarrow> int \<Rightarrow> (mail, bool) db" where
  "DeliveryInvitationCurrent accountID invitationID version =
     db_stmt (Wrapf ''revalidate delivery invitation: '') (\<lambda>now s.
       (Inr (case List.find (\<lambda>i. in_account i = accountID \<and> in_id i = invitationID) (invitations s) of
               None \<Rightarrow> False
             | Some i \<Rightarrow> in_version i = version \<and> invitation_open now i), s))"

section \<open>Ending a lease\<close>

text \<open>\<open>replace(text, from, to)\<close> of the database.\<close>

function sql_replace :: "string \<Rightarrow> string \<Rightarrow> string \<Rightarrow> string" where
  "sql_replace s x y =
     (if x = [] \<or> s = [] then s
      else if prefix x s then y @ sql_replace (drop (length x) s) x y
      else hd s # sql_replace (List.tl s) x y)"
  by pat_completeness auto

termination by (relation "measure (\<lambda>(s, x, y). length s)") auto

declare sql_replace.simps [simp del]

definition recorded_error :: "string \<Rightarrow> outbox_row \<Rightarrow> string" where
  "recorded_error m r = take 512 (sql_replace m (ob_recipient r) ''[redacted]'')"

text \<open>The row a worker still holds: its own lease of its own attempt, not expired.\<close>

definition fence :: "string \<Rightarrow> string \<Rightarrow> string \<Rightarrow> int \<Rightarrow> time \<Rightarrow> outbox_row \<Rightarrow> bool" where
  "fence accountID did owner attempt now r =
     (ob_account r = accountID \<and> ob_id r = did \<and> ob_status r = Leased \<and> ob_owner r = Some owner \<and>
      ob_attempts r = attempt \<and> (case ob_expires r of None \<Rightarrow> False | Some t \<Rightarrow> t > now))"

definition transitionDelivery ::
    "(time \<Rightarrow> outbox_row \<Rightarrow> bool) \<Rightarrow> (time \<Rightarrow> outbox_row \<Rightarrow> outbox_row) \<Rightarrow> (mail, unit) db" where
  "transitionDelivery P f =
     db_bind (db_stmt (Wrapf ''transition delivery: '') (\<lambda>now s.
       wrap_result ''transition delivery: '' (update_outbox (P now) (f now) s))) (\<lambda>changed.
     if changed \<noteq> 1 then db_fail ErrStaleDeliveryLease else db_return ())"

definition complete_row :: "string \<Rightarrow> time \<Rightarrow> outbox_row \<Rightarrow> outbox_row" where
  "complete_row providerID now r =
     r\<lparr>ob_status := Delivered, ob_payload := [], ob_owner := None, ob_expires := None, ob_provider := Some providerID,
       ob_error := None, ob_delivered := Some now, ob_updated := now\<rparr>"

definition CompleteDelivery :: "string \<Rightarrow> string \<Rightarrow> string \<Rightarrow> int \<Rightarrow> string \<Rightarrow> (mail, unit) db" where
  "CompleteDelivery accountID did owner attempt providerID0 =
     (let providerID = TrimSpace providerID0 in
      if providerID = [] \<or> length providerID > maxProviderID
      then db_fail (Errorf (''delivery provider ID must be between 1 and '' @ nat_text maxProviderID @ '' bytes''))
      else transitionDelivery (fence accountID did owner attempt) (complete_row providerID))"

definition maxDeliveryRetryDelay :: duration where
  "maxDeliveryRetryDelay = 23 * 60 * 60 * 1000000000"

definition retry_row :: "string \<Rightarrow> interval \<Rightarrow> time \<Rightarrow> outbox_row \<Rightarrow> outbox_row" where
  "retry_row m d now r =
     r\<lparr>ob_status := Pending, ob_owner := None, ob_expires := None, ob_error := Some (recorded_error m r),
       ob_next := now + d, ob_updated := now\<rparr>"

definition RetryDelivery :: "string \<Rightarrow> string \<Rightarrow> string \<Rightarrow> int \<Rightarrow> string \<Rightarrow> duration \<Rightarrow> (mail, unit) db" where
  "RetryDelivery accountID did owner attempt message delay =
     (if delay \<le> 0 \<or> delay > maxDeliveryRetryDelay
      then db_fail (Errorf ''delivery retry delay must be positive and at most 23h'')
      else transitionDelivery (fence accountID did owner attempt)
        (retry_row (sanitizeDeliveryError message) (interval_of delay)))"

definition fail_row :: "string \<Rightarrow> time \<Rightarrow> outbox_row \<Rightarrow> outbox_row" where
  "fail_row m now r =
     r\<lparr>ob_status := PermanentlyFailed, ob_payload := [], ob_owner := None, ob_expires := None,
       ob_error := Some (recorded_error m r), ob_failed := Some now, ob_updated := now\<rparr>"

definition PermanentlyFailDelivery :: "string \<Rightarrow> string \<Rightarrow> string \<Rightarrow> int \<Rightarrow> string \<Rightarrow> (mail, unit) db" where
  "PermanentlyFailDelivery accountID did owner attempt message =
     transitionDelivery (fence accountID did owner attempt) (fail_row (sanitizeDeliveryError message))"

definition cancel_row :: "string \<Rightarrow> time \<Rightarrow> outbox_row \<Rightarrow> outbox_row" where
  "cancel_row m now r =
     r\<lparr>ob_status := CanceledState, ob_payload := [], ob_owner := None, ob_expires := None,
       ob_error := Some (recorded_error m r), ob_canceled := Some now, ob_updated := now\<rparr>"

definition CancelDelivery :: "string \<Rightarrow> string \<Rightarrow> string \<Rightarrow> int \<Rightarrow> string \<Rightarrow> (mail, unit) db" where
  "CancelDelivery accountID did owner attempt message =
     transitionDelivery (fence accountID did owner attempt) (cancel_row (sanitizeDeliveryError message))"

end
