(* ===== verification/Delivery_Outbox.thy ===== *)
theory Delivery_Outbox
  imports Delivery_Store
begin

text \<open>
  The outbox as a state machine. Whatever the workers, the enqueuing transactions and the
  invitation handlers do, in whatever order and with whatever statements failing, a row keeps its
  identity, its attempts only grow, a terminal row never changes again, and a lease is ended at
  most once.
\<close>

section \<open>The invariant of the tables\<close>

lemma nat_text_value: "foldl (\<lambda>a c. 10 * a + (of_char c - 48)) (0 :: nat) (nat_text n) = n"
proof (induction n rule: nat_text.induct)
  case (1 n)
  have d: "of_char (char_of (48 + k mod 10) :: char) = (48 + k mod 10 :: nat)" for k :: nat
  proof -
    have "48 + k mod 10 < 256" using mod_less_divisor [of 10 k] by linarith
    then show ?thesis by (simp add: of_char_of take_bit_nat_eq_self_iff del: mod_less_divisor)
  qed
  show ?case
  proof (cases "n < 10")
    case True
    with d [of n] show ?thesis by (subst nat_text.simps) simp
  next
    case False
    with 1 d [of n] show ?thesis by (subst nat_text.simps) simp
  qed
qed

lemma nat_text_inj: "nat_text m = nat_text n \<Longrightarrow> m = n"
  using nat_text_value by metis

definition referenced :: "invitation_row list \<Rightarrow> outbox_row \<Rightarrow> bool" where
  "referenced is r = list_ex (\<lambda>i. in_id i = ob_invitation r \<and> in_account i = ob_account r) is"

definition rows_inv :: "outbox_row list \<Rightarrow> invitation_row list \<Rightarrow> nat \<Rightarrow> bool" where
  "rows_inv rs is n \<longleftrightarrow>
     distinct (map ob_id rs) \<and> distinct (map ob_key rs) \<and> list_all outbox_checks rs \<and>
     list_all (\<lambda>r. ob_id r \<in> nat_text ` {..<n}) rs \<and> list_all (referenced is) rs \<and> distinct (map in_id is)"

definition slot_shape :: "slot_row \<Rightarrow> bool" where
  "slot_shape r = (1 \<le> sl_slot r \<and> sl_slot r \<le> 5 \<and> bounded_text 128 (sl_owner r) \<and> 0 \<le> sl_generation r \<and>
     (sl_owner r = None) = (sl_expires r = None))"

definition slots_inv :: "slot_row list \<Rightarrow> bool" where
  "slots_inv sls = (distinct (map sl_slot sls) \<and> list_all slot_shape sls)"

definition mail_inv :: "mail \<Rightarrow> bool" where
  "mail_inv s = (rows_inv (outbox s) (invitations s) (next_outbox s) \<and> slots_inv (slots s))"

definition identity :: "outbox_row \<Rightarrow> string \<times> string \<times> string \<times> string \<times> int \<times> string \<times> string \<times> time" where
  "identity r = (ob_id r, ob_account r, ob_kind r, ob_invitation r, ob_version r, ob_recipient r, ob_key r, ob_created r)"

definition terminal :: "outbox_row \<Rightarrow> bool" where
  "terminal r = (ob_status r = Delivered \<or> ob_status r = PermanentlyFailed \<or> ob_status r = CanceledState)"

text \<open>How a row may go on.\<close>

definition advances :: "outbox_row \<Rightarrow> outbox_row \<Rightarrow> bool" where
  "advances r r' \<longleftrightarrow>
     identity r' = identity r \<and> ob_attempts r \<le> ob_attempts r' \<and> (terminal r \<longrightarrow> r' = r) \<and>
     (ob_first r \<noteq> None \<longrightarrow> ob_first r' = ob_first r) \<and>
     (ob_status r' = Leased \<longrightarrow> ob_status r = Leased \<or> ob_attempts r < ob_attempts r')"

definition outbox_advances :: "mail \<Rightarrow> mail \<Rightarrow> bool" where
  "outbox_advances s s' \<longleftrightarrow> (\<forall>r \<in> set (outbox s). \<exists>r' \<in> set (outbox s'). advances r r')"

text \<open>The generation of a slot only grows.\<close>

definition slots_advance :: "mail \<Rightarrow> mail \<Rightarrow> bool" where
  "slots_advance s s' \<longleftrightarrow>
     (\<forall>r \<in> set (slots s). \<exists>r' \<in> set (slots s'). sl_slot r' = sl_slot r \<and> sl_generation r \<le> sl_generation r')"

definition goes_on :: "mail \<Rightarrow> mail \<Rightarrow> bool" where
  "goes_on s s' \<longleftrightarrow> (mail_inv s \<longrightarrow> mail_inv s' \<and> outbox_advances s s' \<and> slots_advance s s')"

lemma advances_refl [simp]: "advances r r"
  by (simp add: advances_def)

lemma advances_trans: "advances a b \<Longrightarrow> advances b c \<Longrightarrow> advances a c"
  by (auto simp: advances_def)

lemma goes_on_refl [simp]: "goes_on s s"
  by (auto simp: goes_on_def outbox_advances_def slots_advance_def intro: advances_refl)

lemma slots_advance_same: "slots s' = slots s \<Longrightarrow> slots_advance s s'"
  by (auto simp: slots_advance_def)

lemma goes_on_trans: "goes_on a b \<Longrightarrow> goes_on b c \<Longrightarrow> goes_on a c"
proof -
  have "slots_advance a b \<Longrightarrow> slots_advance b c \<Longrightarrow> slots_advance a c"
    unfolding slots_advance_def by (metis order_trans)
  moreover have "outbox_advances a b \<Longrightarrow> outbox_advances b c \<Longrightarrow> outbox_advances a c"
    unfolding outbox_advances_def by (meson advances_trans)
  ultimately show "goes_on a b \<Longrightarrow> goes_on b c \<Longrightarrow> goes_on a c" unfolding goes_on_def by blast
qed

lemmas keeps_goes_on = db_keeps_return [where R = goes_on, OF goes_on_refl] db_keeps_fail [where R = goes_on, OF goes_on_refl]
  db_keeps_tx [where R = goes_on, OF goes_on_refl] db_keeps_bind [where R = goes_on, OF goes_on_trans]
  db_keeps_foreach [where R = goes_on, OF goes_on_trans goes_on_refl]

lemma keeps_stmt: "(\<And>t s. goes_on s (snd (g t s))) \<Longrightarrow> db_keeps goes_on (db_stmt wrap g)"
  by (rule db_keeps_stmt) simp_all

section \<open>Updates of the outbox\<close>

lemma snd_wrap_result [simp]: "snd (wrap_result p x) = snd x"
  by (auto simp: wrap_result_def split: prod.splits sum.splits)

lemma identity_keys: "identity r' = identity r \<Longrightarrow> ob_id r' = ob_id r \<and> ob_key r' = ob_key r \<and> ob_invitation r' = ob_invitation r \<and> ob_account r' = ob_account r"
  by (simp add: identity_def)

lemma goes_on_map:
  assumes adv: "\<And>r. r \<in> set (outbox s) \<Longrightarrow> advances r (g r)" and ok: "list_all outbox_checks (map g (outbox s))"
    and inv: "mail_inv s"
  shows "mail_inv (s\<lparr>outbox := map g (outbox s)\<rparr>)" and "outbox_advances s (s\<lparr>outbox := map g (outbox s)\<rparr>)"
proof -
  have k: "ob_id (g r) = ob_id r \<and> ob_key (g r) = ob_key r \<and> ob_invitation (g r) = ob_invitation r \<and> ob_account (g r) = ob_account r"
    if "r \<in> set (outbox s)" for r
    using adv [OF that] identity_keys [of "g r" r] unfolding advances_def by blast
  show "outbox_advances s (s\<lparr>outbox := map g (outbox s)\<rparr>)"
    using adv by (auto simp: outbox_advances_def)
  have "map ob_id (map g (outbox s)) = map ob_id (outbox s)" "map ob_key (map g (outbox s)) = map ob_key (outbox s)"
    using k by simp_all
  moreover have "list_all (referenced (invitations s)) (map g (outbox s))"
    using k inv by (simp add: mail_inv_def rows_inv_def list_all_iff referenced_def)
  moreover have "list_all (\<lambda>r. ob_id r \<in> nat_text ` {..<next_outbox s}) (map g (outbox s))"
    using k inv by (simp add: mail_inv_def rows_inv_def list_all_iff)
  ultimately have "rows_inv (map g (outbox s)) (invitations s) (next_outbox s)"
    using inv ok unfolding mail_inv_def rows_inv_def by metis
  then show "mail_inv (s\<lparr>outbox := map g (outbox s)\<rparr>)" using inv by (simp add: mail_inv_def)
qed

lemma goes_on_update:
  assumes adv: "\<And>r. mail_inv s \<Longrightarrow> r \<in> set (outbox s) \<Longrightarrow> P r \<Longrightarrow> advances r (f r)"
  shows "goes_on s (snd (update_outbox P f s))"
proof (cases "list_all (\<lambda>r. P r \<longrightarrow> outbox_checks (f r)) (outbox s)")
  case False
  then show ?thesis by (simp add: update_outbox_def)
next
  case True
  define g where "g = (\<lambda>r. if P r then f r else r)"
  have s': "snd (update_outbox P f s) = s\<lparr>outbox := map g (outbox s)\<rparr>"
    using True by (simp add: update_outbox_def g_def)
  have "list_all outbox_checks (map g (outbox s))" if "mail_inv s"
    using True that by (auto simp: mail_inv_def rows_inv_def list_all_iff g_def)
  moreover have "advances r (g r)" if "mail_inv s" "r \<in> set (outbox s)" for r
    using adv that by (simp add: g_def)
  moreover have "slots_advance s (s\<lparr>outbox := map g (outbox s)\<rparr>)" by (simp add: slots_advance_same)
  ultimately show ?thesis unfolding goes_on_def s' using goes_on_map by blast
qed

text \<open>A row is among the picked ones when its identifier is.\<close>

lemma pick_subset: "r \<in> set (pick P limit now s) \<Longrightarrow> r \<in> set (outbox s) \<and> due now r \<and> P r"
  unfolding pick_def by (auto dest!: in_set_takeD)

lemma same_id:
  assumes "distinct_key ob_id (outbox s)" and "r \<in> set (outbox s)" and "r' \<in> set (outbox s)" and "ob_id r = ob_id r'"
  shows "r = r'"
  using assms lookup_key_in by (metis option.inject)

lemma picked_id:
  assumes "mail_inv s" and "r \<in> set (outbox s)" and "ob_id r \<in> ob_id ` set (pick P limit now s)"
  shows "r \<in> set (pick P limit now s) \<and> due now r \<and> P r"
proof -
  from assms(3) obtain r' where r': "r' \<in> set (pick P limit now s)" "ob_id r = ob_id r'" by auto
  moreover have "r = r'" using same_id assms(1,2) pick_subset r' unfolding mail_inv_def rows_inv_def distinct_key_def by metis
  ultimately show ?thesis using pick_subset by blast
qed

lemma due_live: "due now r \<Longrightarrow> \<not> terminal r"
  by (auto simp: due_def terminal_def)

lemma advances_exhaust: "due now r \<Longrightarrow> advances r (exhaust now r)"
  using due_live by (auto simp: advances_def exhaust_def identity_def)

lemma advances_lease: "due now r \<Longrightarrow> advances r (lease_row owner d now r)"
  using due_live by (auto simp: advances_def lease_row_def identity_def)

lemma fence_live: "fence a i owner k now r \<Longrightarrow> \<not> terminal r"
  by (auto simp: fence_def terminal_def)

lemma advances_end:
  assumes "fence a i owner k now r"
  shows "advances r (complete_row p now r)" "advances r (retry_row m d now r)" "advances r (fail_row m now r)"
    "advances r (cancel_row m now r)"
  using fence_live [OF assms]
  by (auto simp: advances_def complete_row_def retry_row_def fail_row_def cancel_row_def identity_def)

section \<open>Every operation\<close>

lemma keeps_transition:
  assumes "\<And>now r. P now r \<Longrightarrow> advances r (f now r)"
  shows "db_keeps goes_on (transitionDelivery P f)"
  unfolding transitionDelivery_def
  by (intro keeps_goes_on keeps_stmt) (auto intro!: goes_on_update keeps_goes_on assms split: if_splits)

lemma keeps_CompleteDelivery: "db_keeps goes_on (CompleteDelivery a i owner k p)"
  unfolding CompleteDelivery_def Let_def
  by (auto intro!: keeps_goes_on keeps_transition intro: advances_end)

lemma keeps_RetryDelivery: "db_keeps goes_on (RetryDelivery a i owner k m d)"
  unfolding RetryDelivery_def by (auto intro!: keeps_goes_on keeps_transition intro: advances_end)

lemma keeps_PermanentlyFailDelivery: "db_keeps goes_on (PermanentlyFailDelivery a i owner k m)"
  unfolding PermanentlyFailDelivery_def by (auto intro!: keeps_transition intro: advances_end)

lemma keeps_CancelDelivery: "db_keeps goes_on (CancelDelivery a i owner k m)"
  unfolding CancelDelivery_def by (auto intro!: keeps_transition intro: advances_end)

lemma goes_on_terminalize: "goes_on s (snd (terminalize now s))"
  unfolding terminalize_def Let_def by (intro goes_on_update) (auto dest: picked_id intro: advances_exhaust)

lemma goes_on_lease_due: "goes_on s (snd (lease_due owner limit d now s))"
proof -
  let ?P = "\<lambda>r. ob_id r \<in> ob_id ` set (pick (\<lambda>r. ob_attempts r < maxDeliveryAttempts) limit now s)"
  have "snd (lease_due owner limit d now s) = snd (update_outbox ?P (lease_row owner d now) s)"
    by (auto simp: lease_due_def Let_def split: prod.splits sum.splits)
  moreover have "goes_on s (snd (update_outbox ?P (lease_row owner d now) s))"
    by (intro goes_on_update) (auto dest: picked_id intro: advances_lease)
  ultimately show ?thesis by simp
qed

lemma keeps_LeaseDeliveries: "db_keeps goes_on (LeaseDeliveries owner limit d)"
  unfolding LeaseDeliveries_def Let_def
  by (auto intro!: keeps_goes_on keeps_stmt goes_on_terminalize goes_on_lease_due)

lemma keeps_DeliveryInvitationCurrent: "db_keeps goes_on (DeliveryInvitationCurrent a i v)"
  unfolding DeliveryInvitationCurrent_def by (auto intro!: keeps_stmt)

text \<open>Slots change without touching the outbox.\<close>

lemma goes_on_slots:
  assumes "\<And>r. slot_shape r \<Longrightarrow> sl_slot (f r) = sl_slot r \<and> slot_shape (f r) \<and> sl_generation r \<le> sl_generation (f r)"
  shows "goes_on s (s\<lparr>slots := map f (slots s)\<rparr>)"
proof -
  have "map sl_slot (map f (slots s)) = map sl_slot (slots s)" "list_all slot_shape (map f (slots s))"
    if "list_all slot_shape (slots s)" using that assms by (auto simp: list_all_iff)
  then have "slots_inv (slots s) \<Longrightarrow> slots_inv (map f (slots s))" unfolding slots_inv_def by metis
  moreover have "slots_inv (slots s) \<Longrightarrow> slots_advance s (s\<lparr>slots := map f (slots s)\<rparr>)"
    using assms by (auto simp: slots_inv_def list_all_iff slots_advance_def)
  ultimately show ?thesis
    by (simp add: goes_on_def mail_inv_def outbox_advances_def) (meson advances_refl)
qed

lemma dropWhile_hd: "xs = [] \<or> \<not> P (hd xs) \<Longrightarrow> dropWhile P xs = xs"
  by (cases xs) auto

lemma hd_trim: "t = [] \<or> \<not> is_space (hd t) \<Longrightarrow> rev (dropWhile is_space (rev t)) = [] \<or> \<not> is_space (hd (rev (dropWhile is_space (rev t))))"
proof -
  assume t: "t = [] \<or> \<not> is_space (hd t)"
  have "prefix (rev (dropWhile is_space (rev t))) t" by (metis suffix_dropWhile suffix_to_prefix rev_rev_ident)
  with t show ?thesis by (metis hd_append2 prefixE append_is_Nil_conv)
qed

lemma btrim_TrimSpace [simp]: "btrim (TrimSpace s) = TrimSpace s"
proof -
  have sp: "is_space (CHR '' '')" by (simp add: is_space_def)
  have "TrimSpace s = [] \<or> \<not> is_space (hd (TrimSpace s))"
    unfolding TrimSpace_def by (rule hd_trim) (metis hd_dropWhile)
  then have 1: "dropWhile (\<lambda>c. c = CHR '' '') (TrimSpace s) = TrimSpace s" using sp by (intro dropWhile_hd) auto
  have "rev (TrimSpace s) = [] \<or> \<not> is_space (hd (rev (TrimSpace s)))"
    unfolding TrimSpace_def rev_rev_ident by (metis hd_dropWhile)
  then have 2: "dropWhile (\<lambda>c. c = CHR '' '') (rev (TrimSpace s)) = rev (TrimSpace s)" using sp by (intro dropWhile_hd) auto
  show ?thesis by (simp add: btrim_def 1 2)
qed

lemma owner_ok_bounded: "owner_ok (TrimSpace w) \<Longrightarrow> bounded_text 128 (Some (TrimSpace w))"
  using length_greater_0_conv [of "TrimSpace w"] by (simp add: owner_ok_def bounded_text_def Suc_le_eq)

lemma keeps_LeaseDeliverySlots: "db_keeps goes_on (LeaseDeliverySlots owner limit d)"
proof -
  have "goes_on s (snd (lease_slots (TrimSpace owner) l i now s))" if "owner_ok (TrimSpace owner)" for l i now s
    using owner_ok_bounded [OF that]
    by (auto simp: lease_slots_def Let_def lease_slot_def slot_shape_def intro!: goes_on_slots)
  then show ?thesis
    unfolding LeaseDeliverySlots_def Let_def by (auto intro!: keeps_goes_on keeps_stmt)
qed

lemma goes_on_release_slot: "release_slot owner sl s = (n, s') \<Longrightarrow> goes_on s s'"
  by (auto simp: release_slot_def slot_shape_def bounded_text_def intro!: goes_on_slots)

lemma keeps_release_one: "db_keeps goes_on (release_one owner sl)"
proof -
  have "goes_on s (snd (case release_slot owner sl s of (n, s') \<Rightarrow> (Inr n, s')))" for s
    using goes_on_release_slot by (auto split: prod.splits)
  then show ?thesis unfolding release_one_def by (auto intro!: keeps_goes_on keeps_stmt)
qed

lemma keeps_ReleaseDeliverySlots: "db_keeps goes_on (ReleaseDeliverySlots owner sls)"
  unfolding ReleaseDeliverySlots_def Let_def by (auto intro!: keeps_goes_on keeps_release_one)

lemma keeps_EnqueueInvitationDelivery: "db_keeps goes_on (EnqueueInvitationDelivery now a d)"
proof -
  have "goes_on s (snd (insert_outbox a d now s))" if t: "enqueue_target a d clk s" for clk s
  proof -
    define r where "r = new_outbox a d now (next_outbox s)"
    have fresh: "ob_id r = nat_text (next_outbox s)" by (simp add: r_def new_outbox_def)
    have ref: "referenced (invitations s) r"
      using t by (auto simp: enqueue_target_def referenced_def r_def new_outbox_def list_ex_iff)
    have "rows_inv (outbox s @ [r]) (invitations s) (Suc (next_outbox s))"
      if "rows_inv (outbox s) (invitations s) (next_outbox s)" "outbox_checks r" "\<not> list_ex (\<lambda>x. ob_key x = ob_key r) (outbox s)"
    proof -
      have "ob_id x \<noteq> ob_id r" if "x \<in> set (outbox s)" for x
      proof -
        have "ob_id x \<in> nat_text ` {..<next_outbox s}"
          using that \<open>rows_inv _ _ _\<close> by (simp add: rows_inv_def list_all_iff)
        then show ?thesis using nat_text_inj unfolding fresh by (metis image_iff lessThan_iff less_irrefl)
      qed
      then have "distinct (map ob_id (outbox s @ [r]))"
        using \<open>rows_inv _ _ _\<close> by (auto simp: rows_inv_def) metis
      moreover have "list_all (\<lambda>x. ob_id x \<in> nat_text ` {..<Suc (next_outbox s)}) (outbox s @ [r])"
        using \<open>rows_inv _ _ _\<close> by (auto simp: rows_inv_def list_all_iff lessThan_Suc fresh)
      moreover have "distinct (map ob_key (outbox s @ [r]))"
        using that by (auto simp: rows_inv_def list_ex_iff)
      ultimately show ?thesis using that ref by (simp add: rows_inv_def)
    qed
    then show ?thesis
      by (auto simp: goes_on_def mail_inv_def insert_outbox_def Let_def outbox_advances_def slots_advance_same simp flip: r_def intro: advances_refl)
  qed
  then show ?thesis
    unfolding EnqueueInvitationDelivery_def by (auto intro!: keeps_goes_on keeps_stmt)
qed

section \<open>Steps\<close>

text \<open>One step of anything that uses the tables: an operation of the store with any arguments, any
  failing statement and any result; a message handed to the sender; a change of the invitations by
  their own handlers, which keep the rows the outbox refers to.\<close>

inductive mail_step :: "mail \<Rightarrow> mail \<Rightarrow> bool" where
  lease_slots: "LeaseDeliverySlots w l d e n s = (r, n', s') \<Longrightarrow> mail_step s s'"
| release_slots: "ReleaseDeliverySlots w sls e n s = (r, n', s') \<Longrightarrow> mail_step s s'"
| enqueue: "EnqueueInvitationDelivery now a iv e n s = (r, n', s') \<Longrightarrow> mail_step s s'"
| lease: "LeaseDeliveries w l d e n s = (r, n', s') \<Longrightarrow> mail_step s s'"
| complete: "CompleteDelivery a i w k p e n s = (r, n', s') \<Longrightarrow> mail_step s s'"
| retry: "RetryDelivery a i w k m d e n s = (r, n', s') \<Longrightarrow> mail_step s s'"
| permanently_fail: "PermanentlyFailDelivery a i w k m e n s = (r, n', s') \<Longrightarrow> mail_step s s'"
| cancel: "CancelDelivery a i w k m e n s = (r, n', s') \<Longrightarrow> mail_step s s'"
| send: "mail_step s (s\<lparr>sent := sent s @ [msg]\<rparr>)"
| invitations: "distinct (map in_id is) \<Longrightarrow>
    (\<forall>i \<in> set (invitations s). \<exists>j \<in> set is. in_id j = in_id i \<and> in_account j = in_account i) \<Longrightarrow>
    mail_step s (s\<lparr>invitations := is\<rparr>)"

abbreviation mail_steps :: "mail \<Rightarrow> mail \<Rightarrow> bool" where
  "mail_steps \<equiv> mail_step\<^sup>*\<^sup>*"

lemma goes_on_invitations:
  assumes "distinct (map in_id is)" and "\<forall>i \<in> set (invitations s). \<exists>j \<in> set is. in_id j = in_id i \<and> in_account j = in_account i"
  shows "goes_on s (s\<lparr>invitations := is\<rparr>)"
proof -
  have "referenced (invitations s) r \<Longrightarrow> referenced is r" for r
    using assms(2) by (fastforce simp: referenced_def list_ex_iff)
  then show ?thesis
    using assms(1) by (auto simp: goes_on_def mail_inv_def rows_inv_def list_all_iff outbox_advances_def slots_advance_same intro: advances_refl)
qed

lemmas keeps_operations = keeps_LeaseDeliverySlots keeps_ReleaseDeliverySlots keeps_EnqueueInvitationDelivery
  keeps_LeaseDeliveries keeps_CompleteDelivery keeps_RetryDelivery keeps_PermanentlyFailDelivery keeps_CancelDelivery

lemma goes_on_sent: "goes_on s (s\<lparr>sent := ms\<rparr>)"
  by (auto simp: goes_on_def mail_inv_def outbox_advances_def slots_advance_same intro: advances_refl)

lemma mail_step_goes_on: "mail_step s s' \<Longrightarrow> goes_on s s'"
  by (induction rule: mail_step.induct)
    (blast dest: keeps_operations [THEN db_keepsD] intro: goes_on_invitations goes_on_sent)+

lemma mail_steps_goes_on: "mail_steps s s' \<Longrightarrow> goes_on s s'"
  by (induction rule: rtranclp_induct) (auto intro: goes_on_trans mail_step_goes_on)

section \<open>Ending a lease\<close>

text \<open>The operations that end the lease of attempt \<open>k\<close> on a row.\<close>

inductive ends_lease :: "string \<Rightarrow> string \<Rightarrow> string \<Rightarrow> int \<Rightarrow> (mail, unit) db \<Rightarrow> bool" where
  "ends_lease a i w k (CompleteDelivery a i w k p)"
| "ends_lease a i w k (RetryDelivery a i w k m d)"
| "ends_lease a i w k (PermanentlyFailDelivery a i w k m)"
| "ends_lease a i w k (CancelDelivery a i w k m)"

text \<open>Each of them refuses its arguments, or is a fenced update that keeps the identity and the
  attempts and leaves a row that is not leased.\<close>

definition unleases :: "(time \<Rightarrow> outbox_row \<Rightarrow> outbox_row) \<Rightarrow> bool" where
  "unleases f = (\<forall>now r. identity (f now r) = identity r \<and> ob_attempts (f now r) = ob_attempts r \<and> ob_status (f now r) \<noteq> Leased)"

lemma ends_lease_cases:
  assumes "ends_lease a i w k op"
  shows "(\<exists>err. op = db_fail err) \<or> (\<exists>f. unleases f \<and> op = transitionDelivery (fence a i w k) f)"
  using assms
proof cases
  case (1 p)
  have "unleases (complete_row q)" for q by (simp add: unleases_def complete_row_def identity_def)
  then show ?thesis using 1 by (auto simp: CompleteDelivery_def Let_def)
next
  case (2 m d)
  have "unleases (retry_row q x)" for q x by (simp add: unleases_def retry_row_def identity_def)
  then show ?thesis using 2 by (auto simp: RetryDelivery_def)
next
  case (3 m)
  have "unleases (fail_row q)" for q by (simp add: unleases_def fail_row_def identity_def)
  then show ?thesis using 3 by (auto simp: PermanentlyFailDelivery_def)
next
  case (4 m)
  have "unleases (cancel_row q)" for q by (simp add: unleases_def cancel_row_def identity_def)
  then show ?thesis using 4 by (auto simp: CancelDelivery_def)
qed

lemma transition_Inr:
  assumes "transitionDelivery P f e n s = (Inr (), n', s')"
  shows "\<exists>r \<in> set (outbox s). P (clock e n) r" and "f (clock e n) ` {r \<in> set (outbox s). P (clock e n) r} \<subseteq> set (outbox s')"
proof -
  from assms have l: "length (filter (P (clock e n)) (outbox s)) = 1"
    and s': "s' = s\<lparr>outbox := map (\<lambda>r. if P (clock e n) r then f (clock e n) r else r) (outbox s)\<rparr>"
    by (auto simp: transitionDelivery_def db_bind_Inr db_stmt_Inr wrap_result_Inr update_outbox_def split: if_splits)
  from l have "filter (P (clock e n)) (outbox s) \<noteq> []" by (metis length_0_conv zero_neq_one)
  then show "\<exists>r \<in> set (outbox s). P (clock e n) r" by (simp add: filter_empty_conv)
  show "f (clock e n) ` {r \<in> set (outbox s). P (clock e n) r} \<subseteq> set (outbox s')" by (auto simp: s')
qed

lemma transition_stale:
  assumes "\<And>r. r \<in> set (outbox s) \<Longrightarrow> \<not> P (clock e n) r"
  shows "\<exists>err. transitionDelivery P f e n s = (Inl err, Suc n, s) \<and> (fault e n = None \<longrightarrow> err = ErrStaleDeliveryLease)"
proof -
  have "filter (P (clock e n)) (outbox s) = []" "map (\<lambda>r. if P (clock e n) r then f (clock e n) r else r) (outbox s) = outbox s"
    using assms by (auto simp: filter_empty_conv intro: map_idI)
  then show ?thesis
    using assms by (auto simp: transitionDelivery_def db_bind_def db_stmt_def update_outbox_def wrap_result_def list_all_iff split: option.splits)
qed

lemma ended_row:
  assumes "ends_lease a i w k op" and "op e n s = (Inr (), n', s')"
  shows "\<exists>r \<in> set (outbox s'). ob_id r = i \<and> ob_attempts r = k \<and> ob_status r \<noteq> Leased"
proof -
  from ends_lease_cases [OF assms(1)] assms(2) obtain f where f: "unleases f" "op = transitionDelivery (fence a i w k) f"
    by auto
  from transition_Inr [OF assms(2) [unfolded f(2)]] obtain r where r: "fence a i w k (clock e n) r" "f (clock e n) r \<in> set (outbox s')"
    by auto
  have "ob_id (f (clock e n) r) = i \<and> ob_attempts (f (clock e n) r) = k \<and> ob_status (f (clock e n) r) \<noteq> Leased"
    using f(1) r(1) identity_keys [of "f (clock e n) r" r] unfolding unleases_def fence_def by metis
  with r(2) show ?thesis by blast
qed

lemma ended_stays:
  assumes "mail_inv s" and "mail_steps s s'" and "r \<in> set (outbox s)" and "ob_attempts r = k" and "ob_status r \<noteq> Leased"
    and "r' \<in> set (outbox s')" and "ob_id r' = ob_id r"
  shows "\<not> (ob_status r' = Leased \<and> ob_attempts r' = k)"
proof -
  from mail_steps_goes_on [OF assms(2)] assms(1) have inv: "mail_inv s'" and "outbox_advances s s'" by (auto simp: goes_on_def)
  then obtain q where q: "q \<in> set (outbox s')" "advances r q" using assms(3) by (auto simp: outbox_advances_def)
  then have "ob_id q = ob_id r'" using assms(7) identity_keys by (metis advances_def)
  with inv q(1) assms(6) have "q = r'" using same_id unfolding mail_inv_def rows_inv_def distinct_key_def by metis
  with q(2) assms(4,5) show ?thesis by (auto simp: advances_def)
qed

section \<open>A concrete outbox\<close>

definition demo_invitation :: invitation_row where
  "demo_invitation = \<lparr>in_id = ''i1'', in_account = ''a1'', in_email = ''x@y.z'', in_version = 1, in_expires = 900000000,
     in_accepted = None, in_revoked = None\<rparr>"

definition demo_row :: outbox_row where
  "demo_row = \<lparr>ob_id = ''0'', ob_account = ''a1'', ob_kind = ''account_invitation'', ob_invitation = ''i1'', ob_version = 1,
     ob_recipient = ''x@y.z'', ob_payload = ''enc:t'', ob_key = ''k1'', ob_status = Pending, ob_attempts = 0,
     ob_first = None, ob_next = 0, ob_owner = None, ob_expires = None, ob_provider = None, ob_error = None,
     ob_delivered = None, ob_failed = None, ob_canceled = None, ob_created = 0, ob_updated = 0\<rparr>"

definition demo_mail :: mail where
  "demo_mail = \<lparr>slots = [\<lparr>sl_slot = 1, sl_owner = None, sl_generation = 0, sl_expires = None\<rparr>], outbox = [demo_row],
     invitations = [demo_invitation], next_outbox = 1, sent = []\<rparr>"

definition demo_leased :: mail where
  "demo_leased = demo_mail\<lparr>outbox := [lease_row ''w'' 300000000 2 demo_row]\<rparr>"

lemmas demo_mail_defs = demo_mail_def demo_leased_def demo_row_def demo_invitation_def lease_row_def

lemma demo_mail_inv: "mail_inv demo_mail"
proof -
  have "rows_inv [demo_row] [demo_invitation] 1"
    by code_simp
  moreover have "slots_inv [\<lparr>sl_slot = 1, sl_owner = None, sl_generation = 0, sl_expires = None\<rparr>]"
    by (simp add: slots_inv_def slot_shape_def bounded_text_def)
  ultimately show ?thesis by (simp add: mail_inv_def demo_mail_def)
qed

lemma demo_lease: "snd (snd (LeaseDeliveries ''w'' 1 300000000000 (calm_env 0) 0 demo_mail)) = demo_leased"
  by code_simp

section \<open>Properties\<close>

text \<open>
  C13. Whatever the workers, the enqueuing transactions and the invitation handlers do, in any order,
  with any statements failing: the constraints of the tables hold; every outbox row is still there
  with its identity, its attempts have not decreased and its first attempt is not rewritten; a row
  that was delivered, permanently failed or canceled is exactly what it was; a row becomes leased only by
  a new attempt; and no terminal row holds ciphertext or a lease.
\<close>

theorem outbox_state_machine:
  assumes "mail_inv s" and "mail_steps s s'"
  shows "mail_inv s' \<and>
    (\<forall>r \<in> set (outbox s). \<exists>r' \<in> set (outbox s').
       identity r' = identity r \<and> ob_attempts r \<le> ob_attempts r' \<and> (terminal r \<longrightarrow> r' = r) \<and>
       (ob_first r \<noteq> None \<longrightarrow> ob_first r' = ob_first r) \<and>
       (ob_status r' = Leased \<longrightarrow> ob_status r = Leased \<or> ob_attempts r < ob_attempts r')) \<and>
    (\<forall>r' \<in> set (outbox s'). terminal r' \<longrightarrow> ob_payload r' = [] \<and> ob_owner r' = None \<and> ob_expires r' = None)"
proof -
  from mail_steps_goes_on [OF assms(2)] assms(1) have inv: "mail_inv s'" and "outbox_advances s s'"
    by (auto simp: goes_on_def)
  moreover have "ob_payload r' = [] \<and> ob_owner r' = None \<and> ob_expires r' = None" if "r' \<in> set (outbox s')" "terminal r'" for r'
  proof -
    have "state_shape r'" using inv that by (auto simp: mail_inv_def rows_inv_def list_all_iff outbox_checks_def)
    with that show ?thesis by (auto simp: state_shape_def terminal_def)
  qed
  ultimately show ?thesis unfolding outbox_advances_def advances_def by blast
qed

text \<open>
  C14. A lease is ended at most once. When completing, retrying, failing or canceling a delivery for
  an attempt succeeded, every later such call for the same attempt, by the same worker or another and
  whatever happened in between, reports an error and changes nothing; unless the statement itself
  fails it reports \<open>ErrStaleDeliveryLease\<close> or refuses its arguments before it reaches the database.
\<close>

theorem lease_ends_once:
  assumes "mail_inv s" and "ends_lease a i w k op" and "op e n s = (Inr (), n1, s1)"
    and "mail_steps s1 s2" and "ends_lease a' i w' k op'"
  shows "\<exists>err n3. op' e' n2 s2 = (Inl err, n3, s2) \<and>
    (fault e' n2 = None \<longrightarrow> err = ErrStaleDeliveryLease \<or> op' = db_fail err)"
proof -
  have inv1: "mail_inv s1"
  proof -
    have "mail_step s s1" using assms(2,3) by cases (auto intro: mail_step.intros)
    then show ?thesis using mail_step_goes_on assms(1) by (auto simp: goes_on_def)
  qed
  from ended_row [OF assms(2,3)] obtain r where r: "r \<in> set (outbox s1)" "ob_id r = i" "ob_attempts r = k" "ob_status r \<noteq> Leased" by auto
  then have "\<not> fence a' i w' k (clock e' n2) q" if "q \<in> set (outbox s2)" for q
    using ended_stays [OF inv1 assms(4)] that by (auto simp: fence_def)
  then show ?thesis
    using ends_lease_cases [OF assms(5)] transition_stale [of s2 "fence a' i w' k" e' n2] by fastforce
qed

lemma demo_steps: "mail_steps demo_mail demo_leased"
proof -
  obtain r n' s' where "LeaseDeliveries ''w'' 1 300000000000 (calm_env 0) 0 demo_mail = (r, n', s')" by (metis prod_cases3)
  with demo_lease show ?thesis by (metis mail_step.lease r_into_rtranclp snd_conv)
qed

theorem outbox_state_machine_witness:
  "mail_inv demo_leased \<and> (\<exists>r' \<in> set (outbox demo_leased). identity r' = identity demo_row \<and> ob_status r' = Leased)"
proof -
  note m = outbox_state_machine [OF demo_mail_inv demo_steps]
  have "demo_row \<in> set (outbox demo_mail)" by (simp add: demo_mail_def)
  with m obtain r' where "r' \<in> set (outbox demo_leased)" "identity r' = identity demo_row" by blast
  moreover have "\<forall>r' \<in> set (outbox demo_leased). ob_status r' = Leased" by (simp add: demo_leased_def lease_row_def)
  ultimately show ?thesis using m by blast
qed

definition demo_delivered :: mail where
  "demo_delivered = demo_leased\<lparr>outbox := [complete_row ''p'' 3 (lease_row ''w'' 300000000 2 demo_row)]\<rparr>"

lemma demo_complete: "CompleteDelivery ''a1'' ''0'' ''w'' 1 ''p'' (calm_env 0) 3 demo_leased = (Inr (), 4, demo_delivered)"
  by code_simp

theorem lease_ends_once_witness:
  "\<exists>err n3. RetryDelivery ''a1'' ''0'' ''w'' 1 ''late'' 60000000000 (calm_env 0) 4 demo_delivered = (Inl err, n3, demo_delivered) \<and>
     err = ErrStaleDeliveryLease"
proof -
  have "mail_inv demo_leased" using mail_steps_goes_on [OF demo_steps] demo_mail_inv by (simp add: goes_on_def)
  from lease_ends_once [OF this ends_lease.intros(1) demo_complete rtranclp.rtrancl_refl
      ends_lease.intros(2) [of "''a1''" "''0''" "''w''" 1 "''late''" 60000000000], of "calm_env 0" 4]
  obtain err n3 where *: "RetryDelivery ''a1'' ''0'' ''w'' 1 ''late'' 60000000000 (calm_env 0) 4 demo_delivered = (Inl err, n3, demo_delivered)"
    and "err = ErrStaleDeliveryLease \<or> RetryDelivery ''a1'' ''0'' ''w'' 1 ''late'' 60000000000 = db_fail err" by auto
  moreover have "fst (RetryDelivery ''a1'' ''0'' ''w'' 1 ''late'' 60000000000 (calm_env 0) 3 demo_leased) = Inr ()"
    by code_simp
  ultimately show ?thesis by auto
qed

section \<open>What a lease returns\<close>

abbreviation fresh_attempt :: "outbox_row \<Rightarrow> bool" where
  "fresh_attempt r \<equiv> ob_attempts r < maxDeliveryAttempts"

lemma update_outbox_Inr:
  "update_outbox P f s = (Inr k, s') \<Longrightarrow> s' = s\<lparr>outbox := map (\<lambda>r. if P r then f r else r) (outbox s)\<rparr>"
  by (auto simp: update_outbox_def split: if_splits)

lemma filter_map_inert:
  "(\<And>r. r \<in> set xs \<Longrightarrow> P r \<Longrightarrow> \<not> Q r \<and> \<not> Q (f r)) \<Longrightarrow> filter Q (map (\<lambda>r. if P r then f r else r) xs) = filter Q xs"
  by (induction xs) auto

text \<open>Failing the exhausted rows does not change what is picked afterwards.\<close>

lemma terminalize_pick:
  assumes inv: "mail_inv s" and t: "terminalize now s = (Inr k, s')"
  shows "pick fresh_attempt limit now' s' = pick fresh_attempt limit now' s" and "invitations s' = invitations s"
    and "outbox s' = map (\<lambda>r. if ob_id r \<in> ob_id ` set (pick (\<lambda>r. \<not> fresh_attempt r) maxDeliveryLeaseLimit now s)
           then exhaust now r else r) (outbox s)"
proof -
  have neg: "(\<lambda>r. ob_attempts r \<ge> maxDeliveryAttempts) = (\<lambda>r. \<not> fresh_attempt r)" by (auto simp: not_less)
  let ?P = "\<lambda>r. ob_id r \<in> ob_id ` set (pick (\<lambda>r. \<not> fresh_attempt r) maxDeliveryLeaseLimit now s)"
  from t have s': "s' = s\<lparr>outbox := map (\<lambda>r. if ?P r then exhaust now r else r) (outbox s)\<rparr>"
    unfolding terminalize_def Let_def neg by (rule update_outbox_Inr)
  then show "invitations s' = invitations s"
    and "outbox s' = map (\<lambda>r. if ?P r then exhaust now r else r) (outbox s)" by simp_all
  have "\<not> (due now' r \<and> fresh_attempt r) \<and> \<not> (due now' (exhaust now r) \<and> fresh_attempt (exhaust now r))"
    if "r \<in> set (outbox s)" "?P r" for r
    using picked_id [OF inv that] by (simp add: due_def exhaust_def)
  then have "filter (\<lambda>r. due now' r \<and> fresh_attempt r) (map (\<lambda>r. if ?P r then exhaust now r else r) (outbox s)) =
      filter (\<lambda>r. due now' r \<and> fresh_attempt r) (outbox s)"
    by (rule filter_map_inert)
  then have "filter (\<lambda>r. due now' r \<and> fresh_attempt r) (outbox s') = filter (\<lambda>r. due now' r \<and> fresh_attempt r) (outbox s)"
    by (simp add: s')
  then show "pick fresh_attempt limit now' s' = pick fresh_attempt limit now' s" by (simp add: pick_def)
qed

lemma map_filter_Some: "(\<And>x. x \<in> set xs \<Longrightarrow> f x = Some (g x)) \<Longrightarrow> List.map_filter f xs = map g xs"
  by (induction xs) (auto simp: List.map_filter_simps)

definition invitation_of :: "mail \<Rightarrow> outbox_row \<Rightarrow> invitation_row" where
  "invitation_of s r = the (lookup_key in_id (invitations s) (ob_invitation r))"

lemma invitation_found:
  assumes "referenced (invitations s) r"
  shows "lookup_key in_id (invitations s) (ob_invitation r) = Some (invitation_of s r)"
proof -
  have "lookup_key in_id (invitations s) (ob_invitation r) \<noteq> None"
    using assms unfolding lookup_key_None referenced_def list_ex_iff by (metis image_eqI)
  then show ?thesis by (auto simp: invitation_of_def)
qed

lemma LeaseDeliveries_Inr:
  assumes inv: "mail_inv s" and run: "LeaseDeliveries w l d e n s = (Inr ds, n', s')" and "0 < l"
  defines "now \<equiv> clock e (Suc (Suc n))"
  defines "cands \<equiv> pick fresh_attempt (min l maxDeliveryLeaseLimit) now s"
  shows "ds = map (\<lambda>r. delivery_of (lease_row (TrimSpace w) (interval_of d) now r) (invitation_of s r)) cands"
    and "outbox s' = map (\<lambda>r. if r \<in> set cands then lease_row (TrimSpace w) (interval_of d) now r
      else if ob_id r \<in> ob_id ` set (pick (\<lambda>r. \<not> fresh_attempt r) maxDeliveryLeaseLimit (clock e (Suc n)) s)
      then exhaust (clock e (Suc n)) r else r) (outbox s)"
proof -
  let ?lease = "lease_row (TrimSpace w) (interval_of d) now"
  let ?poison = "ob_id ` set (pick (\<lambda>r. \<not> fresh_attempt r) maxDeliveryLeaseLimit (clock e (Suc n)) s)"
  have lim: "(if l > maxDeliveryLeaseLimit then maxDeliveryLeaseLimit else l) = min l maxDeliveryLeaseLimit" by auto
  from run \<open>0 < l\<close> obtain k s1 where t: "terminalize (clock e (Suc n)) s = (Inr k, s1)"
    and ld: "lease_due (TrimSpace w) (min l maxDeliveryLeaseLimit) (interval_of d) now s1 = (Inr ds, s')"
    by (auto simp: LeaseDeliveries_def Let_def lim db_tx_Inr db_bind_Inr db_stmt_Inr wrap_result_Inr now_def split: if_splits)
  note tp = terminalize_pick [OF inv t]
  have cands: "pick fresh_attempt (min l maxDeliveryLeaseLimit) now s1 = cands" by (simp add: tp(1) cands_def)
  have sub: "r \<in> set (outbox s) \<and> due now r \<and> fresh_attempt r" if "r \<in> set cands" for r
    using that unfolding cands_def by (rule pick_subset)
  have "lookup_key in_id (invitations s1) (ob_invitation r) = Some (invitation_of s r)" if "r \<in> set cands" for r
    using invitation_found sub [OF that] inv by (simp add: tp(2) mail_inv_def rows_inv_def list_all_iff)
  with ld show "ds = map (\<lambda>r. delivery_of (?lease r) (invitation_of s r)) cands"
    by (auto simp: lease_due_def Let_def cands intro!: map_filter_Some split: prod.splits sum.splits)
  from ld have s': "outbox s' = map (\<lambda>r. if ob_id r \<in> ob_id ` set cands then ?lease r else r) (outbox s1)"
    by (auto simp: lease_due_def Let_def cands dest!: update_outbox_Inr split: prod.splits sum.splits)
  have id_cands: "ob_id r \<in> ob_id ` set cands \<longleftrightarrow> r \<in> set cands" if "r \<in> set (outbox s)" for r
    using picked_id [OF inv that] by (auto simp: cands_def)
  have poison: "r \<notin> set cands" if "r \<in> set (outbox s)" "ob_id r \<in> ?poison" for r
    using picked_id [OF inv that] sub by blast
  have "ob_id (exhaust t r) = ob_id r" for t r by (simp add: exhaust_def)
  then show "outbox s' = map (\<lambda>r. if r \<in> set cands then ?lease r else if ob_id r \<in> ?poison then exhaust (clock e (Suc n)) r else r) (outbox s)"
    unfolding s' tp(3) map_map using id_cands poison by (intro map_cong) auto
qed

lemma delivery_of_simps [simp]:
  "d_ID (delivery_of r i) = ob_id r" "d_AttemptCount (delivery_of r i) = ob_attempts r"
  "d_AccountID (delivery_of r i) = ob_account r" "d_LeaseOwner (delivery_of r i) = (case ob_owner r of None \<Rightarrow> [] | Some w \<Rightarrow> w)"
  by (simp_all add: delivery_of_def)

lemma pick_length: "length (pick P l now s) \<le> nat l"
  by (simp add: pick_def)

lemma pick_all: "length (pick P l now s) < nat l \<Longrightarrow> set (pick P l now s) = {r \<in> set (outbox s). due now r \<and> P r}"
  by (auto simp: pick_def)

lemma pick_distinct: "distinct (map ob_id (outbox s)) \<Longrightarrow> distinct (map ob_id (pick P l now s))"
proof -
  assume "distinct (map ob_id (outbox s))"
  then have "distinct (outbox s)" "inj_on ob_id (set (outbox s))" by (auto simp: distinct_map)
  then have "distinct (pick P l now s)" by (simp add: pick_def)
  moreover have "inj_on ob_id (set (pick P l now s))"
    using \<open>inj_on ob_id (set (outbox s))\<close> pick_subset by (metis inj_on_subset subsetI)
  ultimately show ?thesis by (simp add: distinct_map)
qed

text \<open>
  A successful lease of deliveries returns at most the limit and never more than fifty, each row
  once. Every returned row was due, so no other worker held an unexpired lease on it; in the table it is now
  leased to the caller with one attempt more, which is the attempt of the returned delivery, and at
  most ten thousand. No other row changes, apart from exhausted ones that were due and are failed;
  and when fewer rows than the limit are returned, no due row was left out.
\<close>

theorem LeaseDeliveries_exclusive:
  assumes "mail_inv s" and "LeaseDeliveries w l d e n s = (Inr ds, n', s')" and "0 < l"
  shows "int (length ds) \<le> min l 50 \<and> distinct (map d_ID ds) \<and>
    (\<forall>x \<in> set ds. \<exists>r \<in> set (outbox s). ob_id r = d_ID x \<and> due (clock e (Suc (Suc n))) r \<and>
       d_AttemptCount x = ob_attempts r + 1 \<and> d_AttemptCount x \<le> 10000 \<and>
       lease_row (TrimSpace w) (interval_of d) (clock e (Suc (Suc n))) r \<in> set (outbox s')) \<and>
    (\<forall>r \<in> set (outbox s). ob_id r \<notin> d_ID ` set ds \<longrightarrow>
       r \<in> set (outbox s') \<or> (ob_attempts r \<ge> 10000 \<and> due (clock e (Suc n)) r \<and> exhaust (clock e (Suc n)) r \<in> set (outbox s'))) \<and>
    (int (length ds) < min l 50 \<longrightarrow>
       (\<forall>r \<in> set (outbox s). due (clock e (Suc (Suc n))) r \<and> ob_attempts r < 10000 \<longrightarrow> ob_id r \<in> d_ID ` set ds))"
proof -
  let ?now = "clock e (Suc (Suc n))" and ?l = "min l maxDeliveryLeaseLimit"
  let ?cands = "pick fresh_attempt ?l ?now s"
  note run = LeaseDeliveries_Inr [OF assms]
  have max: "maxDeliveryLeaseLimit = 50" "maxDeliveryAttempts = 10000" by (simp_all add: maxDeliveryLeaseLimit_def maxDeliveryAttempts_def)
  have ids: "map d_ID ds = map ob_id ?cands" by (simp add: run(1) o_def lease_row_def)
  then have ids_set: "d_ID ` set ds = ob_id ` set ?cands" by (metis list.set_map)
  have len: "length ds = length ?cands" by (simp add: run(1))
  have "int (length ds) \<le> min l 50" using pick_length [of fresh_attempt ?l ?now s] assms(3) len max by linarith
  moreover have "distinct (map d_ID ds)"
    using pick_distinct assms(1) by (simp add: ids mail_inv_def rows_inv_def)
  moreover have "\<exists>r \<in> set (outbox s). ob_id r = d_ID x \<and> due ?now r \<and> d_AttemptCount x = ob_attempts r + 1 \<and>
      d_AttemptCount x \<le> 10000 \<and> lease_row (TrimSpace w) (interval_of d) ?now r \<in> set (outbox s')" if "x \<in> set ds" for x
  proof -
    from that run(1) obtain r where r: "r \<in> set ?cands"
      and x: "x = delivery_of (lease_row (TrimSpace w) (interval_of d) ?now r) (invitation_of s r)" by auto
    from pick_subset [OF r] r have "lease_row (TrimSpace w) (interval_of d) ?now r \<in> set (outbox s')"
      unfolding run(2) by (force intro: rev_image_eqI)
    with pick_subset [OF r] show ?thesis by (intro bexI [of _ r]) (auto simp: x lease_row_def max)
  qed
  moreover have "r \<in> set (outbox s') \<or> (ob_attempts r \<ge> 10000 \<and> due (clock e (Suc n)) r \<and> exhaust (clock e (Suc n)) r \<in> set (outbox s'))"
    if r: "r \<in> set (outbox s)" "ob_id r \<notin> d_ID ` set ds" for r
  proof -
    from r(2) have "r \<notin> set ?cands" by (auto simp: ids_set)
    then show ?thesis
      using picked_id [OF assms(1) r(1), of "\<lambda>r. \<not> fresh_attempt r"] r(1) unfolding run(2) max
      by (auto simp: image_iff not_less)
  qed
  moreover have "ob_id r \<in> d_ID ` set ds"
    if "int (length ds) < min l 50" "r \<in> set (outbox s)" "due ?now r" "ob_attempts r < 10000" for r
    using pick_all [of fresh_attempt ?l ?now s] that len max by (simp add: ids_set zless_nat_eq_int_zless)
  ultimately show ?thesis by blast
qed

theorem LeaseDeliveries_exclusive_witness:
  "\<exists>ds n'. LeaseDeliveries ''w'' 1 300000000000 (calm_env 0) 0 demo_mail = (Inr ds, n', demo_leased) \<and> distinct (map d_ID ds)"
proof -
  have ok: "\<not> isl (fst (LeaseDeliveries ''w'' 1 300000000000 (calm_env 0) 0 demo_mail))" by code_simp
  obtain r n' s' where run: "LeaseDeliveries ''w'' 1 300000000000 (calm_env 0) 0 demo_mail = (r, n', s')" by (metis prod_cases3)
  with ok obtain ds where "r = Inr ds" by (cases r) auto
  moreover have "s' = demo_leased" using demo_lease run by simp
  ultimately show ?thesis using LeaseDeliveries_exclusive [OF demo_mail_inv, of "''w''" 1 300000000000 "calm_env 0" 0 ds n' demo_leased] run by simp
qed

section \<open>Worker slots\<close>

lemma available_subset: "r \<in> set (available_slots l now s) \<Longrightarrow> r \<in> set (slots s) \<and> slot_free now r"
  unfolding available_slots_def by (auto dest!: in_set_takeD)

lemma same_slot: "slots_inv sls \<Longrightarrow> r \<in> set sls \<Longrightarrow> r' \<in> set sls \<Longrightarrow> sl_slot r = sl_slot r' \<Longrightarrow> r = r'"
  unfolding slots_inv_def distinct_map inj_on_def by blast

lemma available_id:
  assumes "slots_inv (slots s)" and "r \<in> set (slots s)"
  shows "sl_slot r \<in> sl_slot ` set (available_slots l now s) \<longleftrightarrow> r \<in> set (available_slots l now s)"
  using assms available_subset same_slot by blast

lemma LeaseDeliverySlots_Inr:
  assumes "mail_inv s" and "LeaseDeliverySlots w l d e n s = (Inr sls, n', s')" and "0 < l"
  defines "now \<equiv> clock e n"
  defines "avail \<equiv> available_slots (min l maxDeliverySlots) now s"
  shows "sls = map (slot_of (TrimSpace w) now (interval_of d)) avail"
    and "s' = s\<lparr>slots := map (\<lambda>r. if r \<in> set avail then lease_slot (TrimSpace w) now (interval_of d) r else r) (slots s)\<rparr>"
    and "owner_ok (TrimSpace w)"
proof -
  have lim: "(if l > maxDeliverySlots then maxDeliverySlots else l) = min l maxDeliverySlots" by auto
  from assms(2,3) have ls: "lease_slots (TrimSpace w) (min l maxDeliverySlots) (interval_of d) now s = (Inr sls, s')"
    and "owner_ok (TrimSpace w)"
    by (auto simp: LeaseDeliverySlots_def Let_def lim db_stmt_Inr wrap_result_Inr now_def split: if_splits)
  then show "owner_ok (TrimSpace w)" "sls = map (slot_of (TrimSpace w) now (interval_of d)) avail"
    by (auto simp: lease_slots_def Let_def avail_def split: if_splits)
  from ls have "s' = s\<lparr>slots := map (\<lambda>r. if sl_slot r \<in> sl_slot ` set avail then lease_slot (TrimSpace w) now (interval_of d) r else r) (slots s)\<rparr>"
    by (auto simp: lease_slots_def Let_def avail_def split: if_splits)
  also have "map (\<lambda>r. if sl_slot r \<in> sl_slot ` set avail then lease_slot (TrimSpace w) now (interval_of d) r else r) (slots s) =
      map (\<lambda>r. if r \<in> set avail then lease_slot (TrimSpace w) now (interval_of d) r else r) (slots s)"
    using assms(1) by (intro map_cong) (auto simp: avail_def mail_inv_def available_id)
  finally show "s' = s\<lparr>slots := map (\<lambda>r. if r \<in> set avail then lease_slot (TrimSpace w) now (interval_of d) r else r) (slots s)\<rparr>" .
qed

lemma available_distinct: "slots_inv (slots s) \<Longrightarrow> distinct (map sl_slot (available_slots l now s))"
proof -
  assume s: "slots_inv (slots s)"
  then have "distinct (available_slots l now s)" by (auto simp: available_slots_def slots_inv_def distinct_map)
  moreover have "inj_on sl_slot (set (available_slots l now s))"
    using s available_subset unfolding slots_inv_def distinct_map by (metis inj_on_subset subsetI)
  ultimately show ?thesis by (simp add: distinct_map)
qed

text \<open>
  Leasing worker slots returns at most the limit and at most five, each slot once. Every returned
  slot was free or its lease had expired, and is now held by the caller under the next generation;
  no other slot and no outbox row changes, so a slot whose lease has not expired stays with its
  worker.
\<close>

theorem LeaseDeliverySlots_exclusive:
  assumes "mail_inv s" and "LeaseDeliverySlots w l d e n s = (Inr sls, n', s')" and "0 < l"
  shows "int (length sls) \<le> min l 5 \<and> distinct (map Slot sls) \<and> outbox s' = outbox s \<and>
    (\<forall>x \<in> set sls. \<exists>r \<in> set (slots s). sl_slot r = Slot x \<and> slot_free (clock e n) r \<and> Generation x = sl_generation r + 1 \<and>
       lease_slot (TrimSpace w) (clock e n) (interval_of d) r \<in> set (slots s')) \<and>
    (\<forall>r \<in> set (slots s). \<not> slot_free (clock e n) r \<or> sl_slot r \<notin> Slot ` set sls \<longrightarrow> r \<in> set (slots s'))"
proof -
  let ?avail = "available_slots (min l maxDeliverySlots) (clock e n) s"
  note run = LeaseDeliverySlots_Inr [OF assms]
  have inv: "slots_inv (slots s)" using assms(1) by (simp add: mail_inv_def)
  have ids: "map Slot sls = map sl_slot ?avail" by (simp add: run(1) slot_of_def o_def)
  have "length ?avail \<le> nat (min l 5)" by (simp add: available_slots_def maxDeliverySlots_def)
  then have "int (length sls) \<le> min l 5" using assms(3) by (simp add: run(1)) linarith
  moreover have "distinct (map Slot sls)" using available_distinct [OF inv] ids by simp
  moreover have "outbox s' = outbox s" by (simp add: run(2))
  moreover have "\<exists>r \<in> set (slots s). sl_slot r = Slot x \<and> slot_free (clock e n) r \<and> Generation x = sl_generation r + 1 \<and>
      lease_slot (TrimSpace w) (clock e n) (interval_of d) r \<in> set (slots s')" if "x \<in> set sls" for x
  proof -
    from that run(1) obtain r where r: "r \<in> set ?avail" and x: "x = slot_of (TrimSpace w) (clock e n) (interval_of d) r" by auto
    with available_subset [OF r] show ?thesis by (intro bexI [of _ r]) (auto simp: run(2) slot_of_def)
  qed
  moreover have "r \<in> set (slots s')" if "r \<in> set (slots s)" "\<not> slot_free (clock e n) r \<or> sl_slot r \<notin> Slot ` set sls" for r
  proof -
    have "Slot ` set sls = sl_slot ` set ?avail" using ids by (metis list.set_map)
    with that available_subset have "r \<notin> set ?avail" by auto
    with that(1) show ?thesis by (force simp: run(2))
  qed
  ultimately show ?thesis by blast
qed

theorem LeaseDeliverySlots_exclusive_witness:
  "\<exists>sls n' s'. LeaseDeliverySlots ''w'' 5 360000000000 (calm_env 0) 0 demo_mail = (Inr sls, n', s') \<and> int (length sls) \<le> 5"
proof -
  have ok: "\<not> isl (fst (LeaseDeliverySlots ''w'' 5 360000000000 (calm_env 0) 0 demo_mail))" by code_simp
  obtain r n' s' where run: "LeaseDeliverySlots ''w'' 5 360000000000 (calm_env 0) 0 demo_mail = (r, n', s')" by (metis prod_cases3)
  with ok obtain sls where "r = Inr sls" by (cases r) auto
  then show ?thesis using LeaseDeliverySlots_exclusive [OF demo_mail_inv, of "''w''" 5 360000000000 "calm_env 0" 0 sls n' s'] run by simp
qed

subsection \<open>Releasing\<close>

lemma foreach_Inr:
  assumes "db_foreach xs f e n s = (Inr (), n', s')" and "x \<in> set xs"
  shows "\<exists>n1 n2 s1 s2. f x e n1 s1 = (Inr (), n2, s2) \<and> (\<exists>ys. set ys \<subseteq> set xs \<and> db_foreach ys f e n s = (Inr (), n1, s1))"
  using assms
proof (induction xs arbitrary: n s)
  case (Cons y ys)
  from Cons.prems(1) obtain n1 s1 where y: "f y e n s = (Inr (), n1, s1)" and rest: "db_foreach ys f e n1 s1 = (Inr (), n', s')"
    by (auto simp: db_bind_Inr)
  show ?case
  proof (cases "x = y")
    case True
    with y show ?thesis by (intro exI [of _ n] exI [of _ n1] exI [of _ s] exI [of _ s1]) (auto intro!: exI [of _ "[]"])
  next
    case False
    with Cons.IH [OF rest] Cons.prems(2) obtain m1 m2 t1 t2 zs where "f x e m1 t1 = (Inr (), m2, t2)" "set zs \<subseteq> set ys"
      "db_foreach zs f e n1 s1 = (Inr (), m1, t1)" by auto
    with y show ?thesis
      by (intro exI [of _ m1] exI [of _ m2] exI [of _ t1] exI [of _ t2]) (auto simp: db_bind_Inr intro!: exI [of _ "y # zs"])
  qed
qed simp

lemma release_generations: "release_slot w x s = (k, s') \<Longrightarrow> map (\<lambda>r. (sl_slot r, sl_generation r)) (slots s') = map (\<lambda>r. (sl_slot r, sl_generation r)) (slots s)"
  by (auto simp: release_slot_def)

lemma release_one_Inr:
  assumes "release_one w x e n s = (Inr (), n', s')"
  shows "(Slot x, Generation x) \<in> set (map (\<lambda>r. (sl_slot r, sl_generation r)) (slots s))"
    and "map (\<lambda>r. (sl_slot r, sl_generation r)) (slots s') = map (\<lambda>r. (sl_slot r, sl_generation r)) (slots s)"
proof -
  from assms have run: "release_slot w x s = (1, s')"
    by (auto simp: release_one_def db_bind_Inr db_stmt_Inr split: if_splits prod.splits)
  then have "length (filter (slot_held w x) (slots s)) = 1" by (simp add: release_slot_def)
  then have "filter (slot_held w x) (slots s) \<noteq> []" by (metis length_0_conv zero_neq_one)
  then obtain r where "r \<in> set (slots s)" "slot_held w x r" by (meson filter_False)
  then show "(Slot x, Generation x) \<in> set (map (\<lambda>r. (sl_slot r, sl_generation r)) (slots s))"
    unfolding slot_held_def set_map by (metis (mono_tags, lifting) image_eqI)
  from run show "map (\<lambda>r. (sl_slot r, sl_generation r)) (slots s') = map (\<lambda>r. (sl_slot r, sl_generation r)) (slots s)"
    by (rule release_generations)
qed

lemma release_all_generations:
  "db_foreach xs (release_one w) e n s = (Inr (), n', s') \<Longrightarrow>
   map (\<lambda>r. (sl_slot r, sl_generation r)) (slots s') = map (\<lambda>r. (sl_slot r, sl_generation r)) (slots s)"
  by (induction xs arbitrary: n s) (auto simp: db_bind_Inr dest: release_one_Inr(2))

lemma ReleaseDeliverySlots_Inr:
  assumes "ReleaseDeliverySlots w xs e n s = (Inr (), n', s')" and "x \<in> set xs"
  shows "\<exists>r \<in> set (slots s). sl_slot r = Slot x \<and> sl_generation r = Generation x"
proof -
  from assms obtain m t where "db_foreach xs (release_one (TrimSpace w)) e m s = (Inr (), t, s')"
    by (auto simp: ReleaseDeliverySlots_def Let_def db_tx_Inr split: if_splits)
  from foreach_Inr [OF this assms(2)] obtain n1 n2 s1 s2 ys where
    x: "release_one (TrimSpace w) x e n1 s1 = (Inr (), n2, s2)" and ys: "db_foreach ys (release_one (TrimSpace w)) e m s = (Inr (), n1, s1)" by blast
  from release_one_Inr(1) [OF x] show ?thesis unfolding release_all_generations [OF ys] by (fastforce simp: image_iff)
qed

lemma ReleaseDeliverySlots_Inl: "ReleaseDeliverySlots w xs e n s = (Inl err, n', s') \<Longrightarrow> s' = s"
  by (auto simp: ReleaseDeliverySlots_def Let_def split: if_splits dest: db_tx_Inl)

lemma leased_generation:
  assumes "mail_inv s" and "LeaseDeliverySlots w l d e n s = (Inr sls, n', s')" and "x \<in> set sls"
  shows "\<exists>r \<in> set (slots s). sl_slot r = Slot x \<and> Generation x = sl_generation r + 1"
    and "\<exists>r \<in> set (slots s'). sl_slot r = Slot x \<and> sl_generation r = Generation x"
proof -
  have "0 < l" using assms(2,3) by (auto simp: LeaseDeliverySlots_def split: if_splits)
  note run = LeaseDeliverySlots_Inr [OF assms(1,2) this]
  from assms(3) run(1) obtain r where r: "r \<in> set (available_slots (min l maxDeliverySlots) (clock e n) s)"
    and x: "x = slot_of (TrimSpace w) (clock e n) (interval_of d) r" by auto
  from available_subset [OF r] x show "\<exists>r \<in> set (slots s). sl_slot r = Slot x \<and> Generation x = sl_generation r + 1"
    by (auto simp: slot_of_def)
  from available_subset [OF r] r x show "\<exists>r \<in> set (slots s'). sl_slot r = Slot x \<and> sl_generation r = Generation x"
    by (intro bexI [of _ "lease_slot (TrimSpace w) (clock e n) (interval_of d) r"])
      (auto simp: slot_of_def lease_slot_def run(2) intro!: rev_image_eqI)
qed

text \<open>
  A worker that lost its slot cannot free it for its successor. When a slot that was leased is
  leased again later, whatever happened in between, the new lease has a larger generation, and from
  then on every release that names the old lease, by any owner and together with any other slots,
  reports an error and changes nothing.
\<close>

theorem slot_release_fenced:
  assumes "mail_inv s" and "LeaseDeliverySlots w l d e n s = (Inr sls, n1, s1)" and "x \<in> set sls"
    and "mail_steps s1 s2" and "LeaseDeliverySlots w' l' d' e' n2 s2 = (Inr sls', n3, s3)" and "y \<in> set sls'"
    and "Slot y = Slot x" and "mail_steps s3 s4" and "x \<in> set xs"
  shows "Generation x < Generation y \<and> (\<exists>err n6. ReleaseDeliverySlots w'' xs e'' n5 s4 = (Inl err, n6, s4))"
proof -
  have step: "mail_inv t' \<and> slots_advance t t'" if "mail_inv t" "mail_steps t t'" for t t'
    using mail_steps_goes_on [OF that(2)] that(1) by (simp add: goes_on_def)
  have "mail_steps s s1" "mail_steps s2 s3" using assms(2,5) by (auto intro: mail_step.lease_slots)
  then have inv: "mail_inv s1" "mail_inv s2" "mail_inv s3" "mail_inv s4" using step assms by blast+
  from leased_generation(2) [OF assms(1-3)] obtain r1 where r1: "r1 \<in> set (slots s1)" "sl_slot r1 = Slot x" "sl_generation r1 = Generation x" by auto
  from step [OF inv(1) assms(4)] r1 obtain r2 where r2: "r2 \<in> set (slots s2)" "sl_slot r2 = Slot x" "Generation x \<le> sl_generation r2"
    unfolding slots_advance_def by metis
  from leased_generation(1) [OF inv(2) assms(5,6)] obtain q2 where q2: "q2 \<in> set (slots s2)" "sl_slot q2 = Slot y" "Generation y = sl_generation q2 + 1" by auto
  have "q2 = r2" using same_slot inv(2) q2 r2 assms(7) by (auto simp: mail_inv_def)
  with r2 q2 have less: "Generation x < Generation y" by simp
  from leased_generation(2) [OF inv(2) assms(5,6)] obtain r3 where r3: "r3 \<in> set (slots s3)" "sl_slot r3 = Slot y" "sl_generation r3 = Generation y" by auto
  from step [OF inv(3) assms(8)] r3 obtain r4 where r4: "r4 \<in> set (slots s4)" "sl_slot r4 = Slot x" "Generation y \<le> sl_generation r4"
    unfolding slots_advance_def using assms(7) by metis
  obtain res n6 s6 where run: "ReleaseDeliverySlots w'' xs e'' n5 s4 = (res, n6, s6)" by (metis prod_cases3)
  have "res \<noteq> Inr ()"
  proof
    assume "res = Inr ()"
    with ReleaseDeliverySlots_Inr run assms(9) obtain r where r: "r \<in> set (slots s4)" "sl_slot r = Slot x" "sl_generation r = Generation x" by metis
    then have "r = r4" using same_slot inv(4) r4 by (auto simp: mail_inv_def)
    with r r4 less show False by simp
  qed
  then obtain err where "res = Inl err" by (cases res) auto
  with run ReleaseDeliverySlots_Inl less show ?thesis by blast
qed

definition demo_slot :: "string \<Rightarrow> int \<Rightarrow> time \<Rightarrow> DeliverySlot" where
  "demo_slot w g t = \<lparr>Slot = 1, SlotOwner = w, Generation = g, SlotExpiresAt = t\<rparr>"

definition demo_slotted :: "string \<Rightarrow> int \<Rightarrow> time \<Rightarrow> mail" where
  "demo_slotted w g t = demo_mail\<lparr>slots := [\<lparr>sl_slot = 1, sl_owner = Some w, sl_generation = g, sl_expires = Some t\<rparr>]\<rparr>"

lemma demo_slot_leases:
  "LeaseDeliverySlots ''w'' 1 60000000000 (calm_env 0) 0 demo_mail = (Inr [demo_slot ''w'' 1 60000000], 1, demo_slotted ''w'' 1 60000000)"
  "LeaseDeliverySlots ''v'' 1 60000000000 (calm_env 60000000) 0 (demo_slotted ''w'' 1 60000000) =
     (Inr [demo_slot ''v'' 2 120000000], 1, demo_slotted ''v'' 2 120000000)"
  by code_simp+

theorem slot_release_fenced_witness:
  "\<exists>err n6. ReleaseDeliverySlots ''w'' [demo_slot ''w'' 1 60000000] (calm_env 60000000) 1 (demo_slotted ''v'' 2 120000000) =
     (Inl err, n6, demo_slotted ''v'' 2 120000000)"
  using slot_release_fenced [OF demo_mail_inv demo_slot_leases(1) _ rtranclp.rtrancl_refl demo_slot_leases(2) _ _ rtranclp.rtrancl_refl,
      of "demo_slot ''w'' 1 60000000" "demo_slot ''v'' 2 120000000" "[demo_slot ''w'' 1 60000000]" "''w''" "calm_env 60000000" 1]
  by (simp add: demo_slot_def)

end
