(* ===== verification/Delivery.thy ===== *)
theory Delivery
  imports Delivery_Outbox
begin

text \<open>
  The delivery worker: \<open>pkg/delivery/delivery.go\<close>. One pass leases worker slots, leases due
  deliveries, sends each invitation and ends its lease by what came of it, then releases the slots.

  The runner is a record with the code's fields. Its clock, its random numbers and its contexts are
  functions of the moment, which counts the statements and sends before it; times of the worker are
  in nanoseconds. Deliveries of a pass run concurrently in the code, each on its own row; the model
  runs them one after the other, with the scheduler's choice of stopping early once the group's
  context is done.
\<close>

section \<open>Escaping\<close>

definition hex_upper :: "nat \<Rightarrow> char" where
  "hex_upper d = ''0123456789ABCDEF'' ! (d mod 16)"

definition percent :: "char \<Rightarrow> string" where
  "percent c = (let n = (of_char c :: nat) in [CHR 0x25, hex_upper (n div 16), hex_upper n])"

definition unreserved :: "char \<Rightarrow> bool" where
  "unreserved c = (alnum c \<or> c \<in> set ''-_.~'')"

definition PathEscape :: "string \<Rightarrow> string" where
  "PathEscape s = concat (map (\<lambda>c. if unreserved c \<or> c \<in> set ''$&+=:@'' then [c] else percent c) s)"

definition QueryEscape :: "string \<Rightarrow> string" where
  "QueryEscape s = concat (map (\<lambda>c. if unreserved c then [c] else if c = CHR '' '' then ''+'' else percent c) s)"

definition html_char :: "char \<Rightarrow> string" where
  "html_char c =
     (let n = (of_char c :: nat) in
      if n = 38 then ''&amp;'' else if n = 39 then ''&#39;'' else if n = 60 then ''&lt;''
      else if n = 62 then ''&gt;'' else if n = 34 then ''&#34;'' else [c])"

definition EscapeString :: "string \<Rightarrow> string" where
  "EscapeString s = concat (map html_char s)"

section \<open>Retry delays\<close>

definition retryBaseDelay :: duration where
  "retryBaseDelay = 60 * 1000000000"

text \<open>A \<open>float64\<close> product, rounded to 53 significant bits, ties to even.\<close>

definition f64_exponent :: "rat \<Rightarrow> int" where
  "f64_exponent x =
     max (- 1022) (if x \<ge> 1 then int (floorlog 2 (nat \<lfloor>x\<rfloor>)) - 1 else - int (floorlog 2 (nat \<lceil>1 / x\<rceil> - 1)))"

definition float64 :: "rat \<Rightarrow> rat" where
  "float64 x =
     (if x = 0 then 0
      else
        (let e = f64_exponent \<bar>x\<bar> - 52;
             scale = (if e \<ge> 0 then 2 ^ nat e else 1 / 2 ^ nat (- e))
         in of_int (round_even (x / scale)) * scale))"

definition retryDelay :: "int \<Rightarrow> rat \<Rightarrow> duration" where
  "retryDelay attempt0 randomFloat0 =
     (let attempt1 = (if attempt0 < 1 then 1 else attempt0);
          attempt = (if attempt1 > 16 then 16 else attempt1);
          base = retryBaseDelay * 2 ^ nat (attempt - 1);
          randomFloat1 = (if randomFloat0 < 0 then 0 else randomFloat0);
          randomFloat = (if randomFloat1 > 1 then 1 else randomFloat1)
      in base div 2 + \<lfloor>float64 (float64 (of_int base) * randomFloat)\<rfloor>)"

text \<open>\<open>secureRandomFloat\<close>: eight random bytes as a number, if they could be read.\<close>

definition secureRandomFloat :: "nat option \<Rightarrow> rat" where
  "secureRandomFloat bytes = (case bytes of None \<Rightarrow> 1 / 2 | Some v \<Rightarrow> of_nat (v mod 2 ^ 64 div 2 ^ 11) / 2 ^ 53)"

definition nano :: "time \<Rightarrow> int" where
  "nano t = t * 1000"

definition retryHorizonElapsed :: "int \<Rightarrow> time \<Rightarrow> duration \<Rightarrow> bool" where
  "retryHorizonElapsed now first horizon = (\<not> IsZero first \<and> \<not> now < nano first + horizon)"

section \<open>One delivery\<close>

record delivery_runner =
  dr_sender :: sender
  dr_key :: string
  dr_baseURL :: string
  dr_owner :: string
  dr_batchSize :: int
  dr_concurrency :: int
  dr_maxAttempts :: int
  dr_retryHorizon :: duration
  dr_now :: "nat \<Rightarrow> int"
  dr_randomFloat :: "nat \<Rightarrow> rat"
  dr_open :: "string \<Rightarrow> string \<Rightarrow> string \<Rightarrow> string result"
  dr_group :: "nat \<Rightarrow> go_error option"
  dr_ctx :: "nat \<Rightarrow> go_error option"
  dr_stop :: "nat \<Rightarrow> bool"

definition providerFailureMessage :: "go_error \<Rightarrow> string" where
  "providerFailureMessage err =
     (case as_provider err of
        Some (status, name) \<Rightarrow> ''email provider returned status '' @ itoa status
      | None \<Rightarrow>
          if errors_Is err DeadlineExceeded then ''email provider request timed out'' else ''email provider request failed'')"

definition on_delivery :: "string \<Rightarrow> Delivery \<Rightarrow> string" where
  "on_delivery what d = what @ '' delivery '' @ d_ID d @ '' for account '' @ d_AccountID d @ '': ''"

definition permanentlyFail :: "delivery_runner \<Rightarrow> Delivery \<Rightarrow> string \<Rightarrow> (mail, unit) db" where
  "permanentlyFail r d message =
     db_wrap (on_delivery ''permanently fail'' d)
       (PermanentlyFailDelivery (d_AccountID d) (d_ID d) (dr_owner r) (d_AttemptCount d) message)"

definition cancel :: "delivery_runner \<Rightarrow> Delivery \<Rightarrow> string \<Rightarrow> (mail, unit) db" where
  "cancel r d message =
     db_wrap (on_delivery ''cancel'' d) (CancelDelivery (d_AccountID d) (d_ID d) (dr_owner r) (d_AttemptCount d) message)"

definition invitation_link :: "delivery_runner \<Rightarrow> Delivery \<Rightarrow> string \<Rightarrow> string" where
  "invitation_link r d plaintext =
     dr_baseURL r @ ''/account-invitations/'' @ PathEscape (d_InvitationID d) @ ''#token='' @ QueryEscape plaintext"

definition invitation_message :: "delivery_runner \<Rightarrow> Delivery \<Rightarrow> string \<Rightarrow> Message" where
  "invitation_message r d plaintext =
     (let link = invitation_link r d plaintext in
      \<lparr>To = d_Recipient d, Subject = ''You have been invited to DevRadar'',
       HTML = ''<p>You have been invited to DevRadar.</p><p><a href='' @ [CHR 0x22] @ EscapeString link @ [CHR 0x22] @
         ''>Accept invitation</a></p>'',
       Text = ''You have been invited to DevRadar.'' @ [CHR 0x0A, CHR 0x0A] @ ''Accept invitation: '' @ link,
       IdempotencyKey = d_IdempotencyKey d\<rparr>)"

definition sendInvitation :: "delivery_runner \<Rightarrow> Delivery \<Rightarrow> string \<Rightarrow> (mail, Receipt result) db" where
  "sendInvitation r d plaintext e n s =
     (let m = invitation_message r d plaintext in (Inr (dr_sender r n m), Suc n, s\<lparr>sent := sent s @ [m]\<rparr>))"

definition retry_or_fail :: "delivery_runner \<Rightarrow> Delivery \<Rightarrow> go_error \<Rightarrow> (mail, unit) db" where
  "retry_or_fail r d err e n =
     (let delay = retryDelay (d_AttemptCount d) (dr_randomFloat r n);
          nextAttempt = dr_now r n + delay;
          firstAttempt = (if IsZero (d_FirstAttemptAt d) then dr_now r n else nano (d_FirstAttemptAt d))
      in if d_AttemptCount d \<ge> dr_maxAttempts r \<or> \<not> nextAttempt < firstAttempt + dr_retryHorizon r \<or>
            \<not> nextAttempt < nano (d_InvitationExpiresAt d)
         then permanentlyFail r d ''delivery retry limit exceeded''
         else db_wrap (on_delivery ''retry'' d)
           (RetryDelivery (d_AccountID d) (d_ID d) (dr_owner r) (d_AttemptCount d) (providerFailureMessage err) delay)) e n"

definition after_send :: "delivery_runner \<Rightarrow> Delivery \<Rightarrow> Receipt result \<Rightarrow> (mail, unit) db" where
  "after_send r d res =
     (case res of
        Inr receipt \<Rightarrow>
          db_wrap (on_delivery ''complete'' d)
            (CompleteDelivery (d_AccountID d) (d_ID d) (dr_owner r) (d_AttemptCount d) (Receipt_ID receipt))
      | Inl err \<Rightarrow> (\<lambda>e n.
          (case dr_group r n of
             Some c \<Rightarrow> db_fail c
           | None \<Rightarrow>
               if errors_Is err ErrTerminalDelivery
               then db_fail (Wrapf ''deliver invitation to interactive terminal: '' ErrTerminalDelivery)
               else if IsPermanentSenderError err then permanentlyFail r d (providerFailureMessage err)
               else retry_or_fail r d err) e n))"

definition deliver :: "delivery_runner \<Rightarrow> Delivery \<Rightarrow> (mail, unit) db" where
  "deliver r d =
     db_bind (db_wrap (on_delivery ''revalidate'' d)
       (DeliveryInvitationCurrent (d_AccountID d) (d_InvitationID d) (d_InvitationVersion d))) (\<lambda>current e n.
     (if \<not> current \<or> \<not> dr_now r n < nano (d_InvitationExpiresAt d) then cancel r d ''invitation is no longer current''
      else if d_Kind d \<noteq> ''account_invitation'' then permanentlyFail r d ''unsupported delivery kind''
      else if d_AttemptCount d > dr_maxAttempts r \<or> retryHorizonElapsed (dr_now r n) (d_FirstAttemptAt d) (dr_retryHorizon r)
      then permanentlyFail r d ''delivery retry limit exceeded''
      else
        (case dr_open r (dr_key r) (d_EncryptedPayload d) (d_IdempotencyKey d) of
           Inl err \<Rightarrow> permanentlyFail r d ''delivery payload could not be decrypted''
         | Inr plaintext \<Rightarrow>
             if plaintext = [] then permanentlyFail r d ''delivery payload was empty''
             else db_bind (sendInvitation r d plaintext) (after_send r d))) e n)"

section \<open>One pass\<close>

definition deliveryLeaseDuration :: duration where
  "deliveryLeaseDuration = 5 * 60 * 1000000000"

definition deliverySlotLeaseDuration :: duration where
  "deliverySlotLeaseDuration = 6 * 60 * 1000000000"

definition maxDeliveriesPerSlot :: int where
  "maxDeliveriesPerSlot = 10"

text \<open>The group of workers: the first error is kept; once the group's context is done, by an error
  or because the caller's is, the scheduler may stop before the next delivery.\<close>

fun deliver_all :: "delivery_runner \<Rightarrow> go_error option \<Rightarrow> Delivery list \<Rightarrow> (mail, go_error option) db" where
  "deliver_all r err [] = db_return err"
| "deliver_all r err (d # ds) = (\<lambda>e n.
     (if dr_stop r n \<and> (err \<noteq> None \<or> dr_ctx r n \<noteq> None) then db_return err
      else
        db_bind (db_try (deliver r d)) (\<lambda>res.
        deliver_all r (case err of Some x \<Rightarrow> Some x | None \<Rightarrow> (case res of Inl x \<Rightarrow> Some x | Inr _ \<Rightarrow> None)) ds)) e n)"

definition runWithCapacity :: "delivery_runner \<Rightarrow> int \<Rightarrow> (mail, unit) db" where
  "runWithCapacity r limit =
     db_bind (db_wrap ''lease deliveries: '' (LeaseDeliveries (dr_owner r) limit deliveryLeaseDuration)) (\<lambda>deliveries.
     if deliveries = [] then db_return ()
     else
       db_bind (deliver_all r None deliveries) (\<lambda>err e n.
       (case err of
          Some x \<Rightarrow> db_fail x
        | None \<Rightarrow> (case dr_ctx r n of Some c \<Rightarrow> db_fail c | None \<Rightarrow> db_return ())) e n))"

text \<open>The deferred release joins its error to the pass's.\<close>

definition release_after :: "delivery_runner \<Rightarrow> DeliverySlot list \<Rightarrow> (mail, unit) db \<Rightarrow> (mail, unit) db" where
  "release_after r sls m e n s =
     (case m e n s of (res, n1, s1) \<Rightarrow>
        (case ReleaseDeliverySlots (dr_owner r) sls e n1 s1 of
           (Inr _, n2, s2) \<Rightarrow> (res, n2, s2)
         | (Inl rerr, n2, s2) \<Rightarrow>
             (Inl (case res of
                     Inl err \<Rightarrow> Joined err (Wrapf ''release delivery worker slots: '' rerr)
                   | Inr _ \<Rightarrow> Wrapf ''release delivery worker slots: '' rerr), n2, s2)))"

definition run :: "delivery_runner \<Rightarrow> (mail, unit) db" where
  "run r =
     db_bind (db_wrap ''lease delivery worker slots: ''
       (LeaseDeliverySlots (dr_owner r) (dr_concurrency r) deliverySlotLeaseDuration)) (\<lambda>sls.
     if sls = [] then db_return ()
     else release_after r sls (runWithCapacity r (min (dr_batchSize r) (int (length sls) * maxDeliveriesPerSlot))))"

section \<open>Bounds of the retry delay\<close>

lemma round_even_int [simp]: "round_even (of_int k) = k"
  by (simp add: round_even_def Let_def)

lemma round_even_le: "x \<le> of_int k \<Longrightarrow> round_even x \<le> k"
proof -
  assume x: "x \<le> of_int k"
  then have "\<lfloor>x\<rfloor> \<le> k" by (simp add: floor_le_iff)
  moreover have "x = of_int k" if "\<lfloor>x\<rfloor> = k" using that x by (simp add: floor_eq_iff)
  ultimately show ?thesis by (cases "\<lfloor>x\<rfloor> = k") (auto simp: round_even_def Let_def)
qed

lemma round_even_nonneg: "0 \<le> x \<Longrightarrow> 0 \<le> round_even x"
proof -
  assume "0 \<le> x"
  then have "0 \<le> \<lfloor>x\<rfloor>" by simp
  then show ?thesis unfolding round_even_def Let_def by (smt (verit))
qed

lemma f64_exponent_le: "0 < x \<Longrightarrow> x < 2 ^ 53 \<Longrightarrow> f64_exponent x \<le> 52"
proof -
  assume x: "0 < x" "x < 2 ^ 53"
  then have "\<lfloor>x\<rfloor> < 2 ^ 53" by (simp add: floor_less_iff)
  then have "nat \<lfloor>x\<rfloor> < 2 ^ 53" by (subst nat_less_iff) (use x(1) in simp_all)
  then have "floorlog 2 (nat \<lfloor>x\<rfloor>) \<le> 53" by (simp add: floorlog_le_iff del: nat_less_numeral_power_cancel_iff)
  then show ?thesis by (auto simp: f64_exponent_def)
qed

text \<open>Below \<open>2 ^ 53\<close> the unit of the last place is one over a power of two, so integers are exact and
  rounding never passes one.\<close>

lemma float64_scale:
  assumes "0 < x" and "x < 2 ^ 53"
  shows "\<exists>k. float64 x = of_int (round_even (x * 2 ^ k)) / 2 ^ k"
proof (intro exI)
  have "f64_exponent \<bar>x\<bar> - 52 \<le> 0" using f64_exponent_le [OF assms] assms(1) by simp
  then show "float64 x = of_int (round_even (x * 2 ^ nat (52 - f64_exponent x))) / 2 ^ nat (52 - f64_exponent x)"
    using assms(1) by (auto simp: float64_def Let_def) 
qed

lemma float64_int: "0 \<le> k \<Longrightarrow> k < 2 ^ 53 \<Longrightarrow> float64 (of_int k) = of_int k"
proof (cases "k = 0")
  case False
  assume "0 \<le> k" "k < 2 ^ 53"
  then have "(0::rat) < of_int k" "(of_int k :: rat) < 2 ^ 53" using False by (simp_all flip: of_int_less_numeral_power_cancel_iff)
  from float64_scale [OF this] obtain j where "float64 (of_int k) = of_int (round_even (of_int k * 2 ^ j)) / 2 ^ j" by blast
  also have "(of_int k * 2 ^ j :: rat) = of_int (k * 2 ^ j)" by simp
  finally show ?thesis by (simp only: round_even_int) simp
qed (simp add: float64_def)

lemma float64_range:
  assumes "0 \<le> x" and "x \<le> of_int k" and "k < 2 ^ 53"
  shows "0 \<le> float64 x" and "float64 x \<le> of_int k"
proof -
  have "0 \<le> float64 x \<and> float64 x \<le> of_int k"
  proof (cases "x = 0")
    case True
    with assms show ?thesis by (simp add: float64_def)
  next
    case False
    have "of_int k < (2 ^ 53 :: rat)" using assms(3) by (simp flip: of_int_less_numeral_power_cancel_iff)
    with assms(1,2) False obtain j where j: "float64 x = of_int (round_even (x * 2 ^ j)) / 2 ^ j"
      using float64_scale [of x] by auto
    have "x * 2 ^ j \<le> of_int (k * 2 ^ j)" using assms(2) by simp
    then have "round_even (x * 2 ^ j) \<le> k * 2 ^ j" by (rule round_even_le)
    then have "(of_int (round_even (x * 2 ^ j)) :: rat) \<le> of_int (k * 2 ^ j)" by (simp only: of_int_le_iff)
    moreover have "0 \<le> round_even (x * 2 ^ j)" using assms(1) by (intro round_even_nonneg) simp
    ultimately show ?thesis by (simp add: j divide_le_eq)
  qed
  then show "0 \<le> float64 x" and "float64 x \<le> of_int k" by simp_all
qed

lemma retryDelay_range:
  fixes k :: nat
  assumes "k < 16"
  defines "base \<equiv> retryBaseDelay * 2 ^ k"
  shows "base div 2 \<le> retryDelay (int k + 1) x" and "retryDelay (int k + 1) x \<le> base div 2 + base"
proof -
  have "(2 :: int) ^ k \<le> 2 ^ 15" using assms(1) by (intro power_increasing) auto
  then have b: "0 \<le> base" "base < 2 ^ 53" by (simp_all add: base_def retryBaseDelay_def)
  define y :: rat where "y = (if (if x < 0 then 0 else x) > 1 then 1 else if x < 0 then 0 else x)"
  have y: "0 \<le> y" "y \<le> 1" by (auto simp: y_def)
  have eq: "retryDelay (int k + 1) x = base div 2 + \<lfloor>float64 (float64 (of_int base) * y)\<rfloor>"
    using assms(1) by (simp add: retryDelay_def Let_def base_def y_def)
  have "0 \<le> of_int base * y" using b y by simp
  moreover have "of_int base * y \<le> of_int base" using b y by (simp add: mult_left_le)
  ultimately have "0 \<le> float64 (of_int base * y)" "float64 (of_int base * y) \<le> of_int base"
    using float64_range b(2) by blast+
  then have "0 \<le> \<lfloor>float64 (of_int base * y)\<rfloor>" "\<lfloor>float64 (of_int base * y)\<rfloor> \<le> base" by (simp_all add: floor_le_iff) 
  then show "base div 2 \<le> retryDelay (int k + 1) x" "retryDelay (int k + 1) x \<le> base div 2 + base"
    using float64_int [OF b] by (simp_all add: eq)
qed

text \<open>
  The delay before the next attempt: after attempt \<open>k\<close> (from 1 to 16) it lies between half and one
  and a half times one minute doubled \<open>k - 1\<close> times, whatever the random number; and with the eight
  attempts the configuration allows at most, it is never longer than the 23 hours the store accepts.
\<close>

theorem retryDelay_bounds:
  assumes "1 \<le> k" and "k \<le> 16"
  shows "30000000000 * 2 ^ nat (k - 1) \<le> retryDelay k x \<and> retryDelay k x \<le> 90000000000 * 2 ^ nat (k - 1) \<and>
    (k \<le> 8 \<longrightarrow> retryDelay k x \<le> maxDeliveryRetryDelay)"
proof -
  define j where "j = nat (k - 1)"
  have k: "k = int j + 1" "j < 16" using assms by (auto simp: j_def)
  have "30000000000 * 2 ^ j \<le> retryDelay k x" and u: "retryDelay k x \<le> 90000000000 * 2 ^ j"
    using retryDelay_range [OF k(2), of x] by (simp_all add: k(1) retryBaseDelay_def)
  moreover have "retryDelay k x \<le> maxDeliveryRetryDelay" if "k \<le> 8"
  proof -
    have "(2 :: int) ^ j \<le> 2 ^ 7" using that k(1) by (intro power_increasing) auto
    then show ?thesis using u by (simp add: maxDeliveryRetryDelay_def)
  qed
  ultimately show ?thesis by (simp flip: j_def)
qed

theorem retryDelay_bounds_witness: "120000000000 \<le> retryDelay 3 (1 / 4) \<and> retryDelay 3 (1 / 4) \<le> 360000000000"
  using retryDelay_bounds [of 3 "1 / 4"] by simp

section \<open>What a delivery sends\<close>

text \<open>The statements that end a lease touch the outbox only.\<close>

definition same_but_outbox :: "mail \<Rightarrow> mail \<Rightarrow> bool" where
  "same_but_outbox s s' = (sent s' = sent s \<and> slots s' = slots s \<and> invitations s' = invitations s)"

lemma same_refl [simp]: "same_but_outbox s s"
  by (simp add: same_but_outbox_def)

lemma same_trans: "same_but_outbox a b \<Longrightarrow> same_but_outbox b c \<Longrightarrow> same_but_outbox a c"
  by (simp add: same_but_outbox_def)

lemma keeps_transition_same: "db_keeps same_but_outbox (transitionDelivery P f)"
  unfolding transitionDelivery_def
  by (rule db_keeps_bind [OF same_trans db_keeps_stmt])
    (auto simp: update_outbox_def same_but_outbox_def intro: db_keeps_fail db_keeps_return)

lemma keeps_end_same:
  "db_keeps same_but_outbox (CompleteDelivery a i w k p)" "db_keeps same_but_outbox (RetryDelivery a i w k m d)"
  "db_keeps same_but_outbox (PermanentlyFailDelivery a i w k m)" "db_keeps same_but_outbox (CancelDelivery a i w k m)"
  by (auto simp: CompleteDelivery_def RetryDelivery_def PermanentlyFailDelivery_def CancelDelivery_def Let_def
    intro: keeps_transition_same db_keeps_fail)

lemma keeps_fail_same: "db_keeps same_but_outbox (permanentlyFail r d m)" "db_keeps same_but_outbox (cancel r d m)"
  unfolding permanentlyFail_def cancel_def by (auto intro: db_keeps_wrap keeps_end_same)

lemma db_keeps_moment: "(\<And>n. db_keeps R (f n)) \<Longrightarrow> db_keeps R (\<lambda>e n. f n e n)"
  unfolding db_keeps_def by blast

lemma keeps_retry_or_fail: "db_keeps same_but_outbox (retry_or_fail r d err)"
  unfolding retry_or_fail_def Let_def
  by (rule db_keeps_moment) (auto intro: keeps_fail_same keeps_end_same db_keeps_wrap)

lemma keeps_after_send: "db_keeps same_but_outbox (after_send r d res)"
proof (cases res)
  case (Inl err)
  have "db_keeps same_but_outbox
     (case g of
        Some c \<Rightarrow> db_fail c
      | None \<Rightarrow>
          if errors_Is err ErrTerminalDelivery
          then db_fail (Wrapf ''deliver invitation to interactive terminal: '' ErrTerminalDelivery)
          else if IsPermanentSenderError err then permanentlyFail r d (providerFailureMessage err)
          else retry_or_fail r d err)" for g
    by (cases g) (auto intro: keeps_fail_same keeps_retry_or_fail db_keeps_fail)
  then show ?thesis unfolding after_send_def Inl sum.case by (rule db_keeps_moment)
next
  case (Inr rc)
  then show ?thesis by (auto simp: after_send_def intro: keeps_end_same db_keeps_wrap)
qed

text \<open>A delivery is ready to be sent.\<close>

definition sendable :: "delivery_runner \<Rightarrow> Delivery \<Rightarrow> env \<Rightarrow> nat \<Rightarrow> mail \<Rightarrow> bool" where
  "sendable r d e n s \<longleftrightarrow>
     (\<exists>i \<in> set (invitations s). in_id i = d_InvitationID d \<and> in_account i = d_AccountID d \<and>
        in_version i = d_InvitationVersion d \<and> invitation_open (clock e n) i) \<and>
     dr_now r (Suc n) < nano (d_InvitationExpiresAt d) \<and> d_AttemptCount d \<le> dr_maxAttempts r \<and>
     \<not> retryHorizonElapsed (dr_now r (Suc n)) (d_FirstAttemptAt d) (dr_retryHorizon r)"

lemma current_Inr:
  assumes "DeliveryInvitationCurrent a i v e n s = (Inr b, n', s')"
  shows "n' = Suc n \<and> s' = s \<and>
    (b \<longrightarrow> (\<exists>x \<in> set (invitations s). in_id x = i \<and> in_account x = a \<and> in_version x = v \<and> invitation_open (clock e n) x))"
  using assms by (auto simp: DeliveryInvitationCurrent_def db_stmt_Inr find_Some_iff split: option.splits)

lemma current_Inl: "DeliveryInvitationCurrent a i v e n s = (Inl err, n', s') \<Longrightarrow> s' = s"
  by (auto simp: DeliveryInvitationCurrent_def db_stmt_def split: option.splits)

text \<open>The ways through a delivery after its revalidation.\<close>

lemma deliver_cases:
  assumes "DeliveryInvitationCurrent (d_AccountID d) (d_InvitationID d) (d_InvitationVersion d) e n s = (Inr b, n1, s1)"
  obtains (early) msg m where "deliver r d e n s = m e (Suc n) s" "m = cancel r d msg \<or> m = permanentlyFail r d msg"
    | (send) pt where "dr_open r (dr_key r) (d_EncryptedPayload d) (d_IdempotencyKey d) = Inr pt" "pt \<noteq> []" "sendable r d e n s"
      "deliver r d e n s = after_send r d (dr_sender r (Suc n) (invitation_message r d pt)) e (Suc (Suc n))
         (s\<lparr>sent := sent s @ [invitation_message r d pt]\<rparr>)"
proof -
  from current_Inr [OF assms] have s1: "s1 = s" "n1 = Suc n"
    and i: "b \<longrightarrow> (\<exists>x \<in> set (invitations s). in_id x = d_InvitationID d \<and> in_account x = d_AccountID d \<and>
      in_version x = d_InvitationVersion d \<and> invitation_open (clock e n) x)" by blast+
  let ?dead = "\<not> b \<or> \<not> dr_now r (Suc n) < nano (d_InvitationExpiresAt d)"
  let ?kind = "d_Kind d \<noteq> ''account_invitation''"
  let ?limit = "d_AttemptCount d > dr_maxAttempts r \<or> retryHorizonElapsed (dr_now r (Suc n)) (d_FirstAttemptAt d) (dr_retryHorizon r)"
  let ?open = "dr_open r (dr_key r) (d_EncryptedPayload d) (d_IdempotencyKey d)"
  have run: "deliver r d e n s =
     (if ?dead then cancel r d ''invitation is no longer current''
      else if ?kind then permanentlyFail r d ''unsupported delivery kind''
      else if ?limit then permanentlyFail r d ''delivery retry limit exceeded''
      else
        (case ?open of
           Inl err \<Rightarrow> permanentlyFail r d ''delivery payload could not be decrypted''
         | Inr plaintext \<Rightarrow>
             if plaintext = [] then permanentlyFail r d ''delivery payload was empty''
             else db_bind (sendInvitation r d plaintext) (after_send r d))) e (Suc n) s"
    using assms s1 by (simp add: deliver_def db_bind_def db_wrap_def)
  have able: "sendable r d e n s" if "\<not> ?dead" "\<not> ?limit" using that i by (auto simp: sendable_def)
  show thesis
  proof (cases "?dead \<or> ?kind \<or> ?limit")
    case True
    then show thesis using run early by (auto split: if_splits)
  next
    case False
    show thesis
    proof (cases ?open)
      case (Inl err)
      then show thesis using run False early by auto
    next
      case (Inr pt)
      show thesis
      proof (cases "pt = []")
        case True
        then show thesis using run False Inr early by auto
      next
        case ne: False
        with run False Inr have "deliver r d e n s = db_bind (sendInvitation r d pt) (after_send r d) e (Suc n) s" by simp
        also have "\<dots> = after_send r d (dr_sender r (Suc n) (invitation_message r d pt)) e (Suc (Suc n))
            (s\<lparr>sent := sent s @ [invitation_message r d pt]\<rparr>)" by (simp add: db_bind_def sendInvitation_def Let_def)
        finally show thesis using send Inr ne able False by blast
      qed
    qed
  qed
qed

lemma deliver_sent:
  assumes "deliver r d e n s = (res, n', s')"
  shows "(sent s' = sent s \<or> (\<exists>pt. sendable r d e n s \<and> sent s' = sent s @ [invitation_message r d pt])) \<and>
    slots s' = slots s \<and> invitations s' = invitations s"
proof -
  obtain c n1 s1 where cur: "DeliveryInvitationCurrent (d_AccountID d) (d_InvitationID d) (d_InvitationVersion d) e n s = (c, n1, s1)"
    by (metis prod_cases3)
  show ?thesis
  proof (cases c)
    case (Inl err)
    with cur current_Inl have "s1 = s" by blast
    then show ?thesis using assms cur Inl by (auto simp: deliver_def db_bind_def db_wrap_def)
  next
    case (Inr b)
    from cur [unfolded Inr] show ?thesis
    proof (cases rule: deliver_cases [where r = r])
      case (early msg m)
      then have "db_keeps same_but_outbox m" using keeps_fail_same by blast
      then show ?thesis using db_keepsD assms early(1) by (fastforce simp: same_but_outbox_def)
    next
      case (send pt)
      with assms db_keepsD [OF keeps_after_send] show ?thesis by (fastforce simp: same_but_outbox_def)
    qed
  qed
qed

text \<open>
  C16. A message is handed to the sender only for a delivery whose invitation the database had just
  found current (same account, same token version, not accepted, not revoked, not expired), before its
  expiry by the worker's clock too, within the configured number of attempts and before the retry
  horizon has passed; and then exactly one, to the recipient and under the idempotency key of the outbox row.
\<close>

theorem deliver_sends:
  assumes "deliver r d e n s = (res, n', s')" and "sent s' \<noteq> sent s"
  shows "\<exists>m. sent s' = sent s @ [m] \<and> To m = d_Recipient d \<and> IdempotencyKey m = d_IdempotencyKey d \<and>
    (\<exists>i \<in> set (invitations s). in_id i = d_InvitationID d \<and> in_account i = d_AccountID d \<and>
        in_version i = d_InvitationVersion d \<and> invitation_open (clock e n) i) \<and>
    dr_now r (Suc n) < nano (d_InvitationExpiresAt d) \<and> d_AttemptCount d \<le> dr_maxAttempts r \<and>
    \<not> retryHorizonElapsed (dr_now r (Suc n)) (d_FirstAttemptAt d) (dr_retryHorizon r)"
  using deliver_sent [OF assms(1)] assms(2) by (auto simp: sendable_def invitation_message_def Let_def)

section \<open>What becomes of a delivery\<close>

text \<open>The row of a lease that is held, in a consistent outbox: ending the lease succeeds and changes
  that row alone.\<close>

lemma transition_held:
  assumes inv: "mail_inv s" and row: "r0 \<in> set (outbox s)" "fence a i w k (clock e n) r0" and "fault e n = None"
    and ok: "outbox_checks (f (clock e n) r0)"
  shows "transitionDelivery (fence a i w k) f e n s =
    (Inr (), Suc n, s\<lparr>outbox := map (\<lambda>r. if r = r0 then f (clock e n) r else r) (outbox s)\<rparr>)"
proof -
  have only: "fence a i w k (clock e n) r \<longleftrightarrow> r = r0" if "r \<in> set (outbox s)" for r
  proof
    assume "fence a i w k (clock e n) r"
    with row(2) have "ob_id r = ob_id r0" by (simp add: fence_def)
    with that row(1) inv show "r = r0" using same_id unfolding mail_inv_def rows_inv_def distinct_key_def by metis
  qed (use row in simp)
  have "distinct (outbox s)" using inv by (auto simp: mail_inv_def rows_inv_def distinct_map)
  then have "length (filter (\<lambda>r. r = r0) (outbox s)) = 1"
    using row(1) by (simp add: distinct_length_filter Int_absorb1 Collect_conv_if)
  moreover have "filter (fence a i w k (clock e n)) (outbox s) = filter (\<lambda>r. r = r0) (outbox s)"
    using only by (rule filter_cong [OF refl])
  moreover have "map (\<lambda>r. if fence a i w k (clock e n) r then f (clock e n) r else r) (outbox s) =
      map (\<lambda>r. if r = r0 then f (clock e n) r else r) (outbox s)"
    using only by (intro map_cong) auto
  moreover have "list_all (\<lambda>r. fence a i w k (clock e n) r \<longrightarrow> outbox_checks (f (clock e n) r)) (outbox s)"
    using only ok by (auto simp: list_all_iff)
  ultimately show ?thesis
    using assms(4) by (simp add: transitionDelivery_def db_bind_def db_stmt_def update_outbox_def wrap_result_def)
qed

lemma outbox_checksD:
  "outbox_checks r \<Longrightarrow> column_checks r" "outbox_checks r \<Longrightarrow> attempt_shape r" "outbox_checks r \<Longrightarrow> state_shape r" "outbox_checks r \<Longrightarrow> time_order r"
  by (simp_all add: outbox_checks_def)

lemma checks_ended:
  assumes "outbox_checks r" and "fence a i w k now r" and "ob_created r \<le> now"
  shows "provider_id_ok p \<Longrightarrow> outbox_checks (complete_row p now r)" and "outbox_checks (retry_row m d now r)"
    and "outbox_checks (fail_row m now r)" and "outbox_checks (cancel_row m now r)"
proof -
  note c = outbox_checksD [OF assms(1)]
  have l: "ob_status r = Leased" using assms(2) by (simp add: fence_def)
  with c(3) have st: "ob_delivered r = None \<and> ob_failed r = None \<and> ob_canceled r = None \<and> prefix ''enc:'' (ob_payload r)"
    by (auto simp: state_shape_def)
  have none: "bounded_text 128 None" by (simp add: bounded_text_def)
  have err: "length (recorded_error m r) \<le> 512" by (simp add: recorded_error_def)
  have "bounded_text 256 (Some p)" if "provider_id_ok p"
    using that btrim_TrimSpace [of p] by (cases p) (auto simp: provider_id_ok_def bounded_text_def maxProviderID_def)
  then show "provider_id_ok p \<Longrightarrow> outbox_checks (complete_row p now r)"
    using c(1,2,4) st assms(3) none
    by (simp add: outbox_checks_def column_checks_def attempt_shape_def state_shape_def time_order_def complete_row_def not_before_def)
  show "outbox_checks (retry_row m d now r)" "outbox_checks (fail_row m now r)" "outbox_checks (cancel_row m now r)"
    using c(1,2,4) st assms(3) none err
    by (simp_all add: outbox_checks_def column_checks_def attempt_shape_def state_shape_def time_order_def not_before_def
      retry_row_def fail_row_def cancel_row_def recorded_error_def)
qed

text \<open>What a sender's contract gives its client.\<close>

context mail_sender
begin

lemma receipt_completes:
  "Send n m = Inr rc \<Longrightarrow> CompleteDelivery a i w k (Receipt_ID rc) = transitionDelivery (fence a i w k) (complete_row (Receipt_ID rc))"
  using receipt_ok [of n m rc] by (simp add: CompleteDelivery_def provider_id_ok_def Let_def)

end

text \<open>The lease is held from a moment on: the row is leased to the worker for this attempt, and the
  database clock stays between the row's creation and the end of its lease.\<close>

definition held :: "delivery_runner \<Rightarrow> Delivery \<Rightarrow> env \<Rightarrow> nat \<Rightarrow> mail \<Rightarrow> outbox_row \<Rightarrow> bool" where
  "held r d e n s r0 \<longleftrightarrow> r0 \<in> set (outbox s) \<and>
     (\<forall>m \<ge> n. fence (d_AccountID d) (d_ID d) (dr_owner r) (d_AttemptCount d) (clock e m) r0 \<and> ob_created r0 \<le> clock e m)"

text \<open>The row ended, or waits for its next attempt at least thirty seconds from a moment of the
  delivery.\<close>

definition resolved :: "env \<Rightarrow> nat \<Rightarrow> outbox_row \<Rightarrow> outbox_row \<Rightarrow> bool" where
  "resolved e n r0 r' \<longleftrightarrow> identity r' = identity r0 \<and>
     (terminal r' \<or> (ob_status r' = Pending \<and> (\<exists>m \<ge> n. clock e m + seconds 30 \<le> ob_next r')))"

definition settles :: "env \<Rightarrow> nat \<Rightarrow> outbox_row \<Rightarrow> mail \<Rightarrow> unit result \<times> nat \<times> mail \<Rightarrow> bool" where
  "settles e n r0 s x \<longleftrightarrow> fst x = Inr () \<and> (\<exists>r' \<in> set (outbox (snd (snd x))). resolved e n r0 r')"

lemma settles_transition:
  assumes "mail_inv s" and "held r d e n s r0" and "no_faults e" and "n \<le> m"
    and "outbox_checks (f (clock e m) r0)" and "resolved e n r0 (f (clock e m) r0)"
  shows "settles e n r0 s (db_wrap p (transitionDelivery (fence (d_AccountID d) (d_ID d) (dr_owner r) (d_AttemptCount d)) f) e m s)"
proof -
  have "r0 \<in> set (outbox s)" "fence (d_AccountID d) (d_ID d) (dr_owner r) (d_AttemptCount d) (clock e m) r0" "fault e m = None"
    using assms by (auto simp: held_def no_faults_def)
  from transition_held [where f = f, OF assms(1) this assms(5)] assms(6) \<open>r0 \<in> set (outbox s)\<close> show ?thesis
    by (auto simp: settles_def db_wrap_def intro!: bexI [of _ "f (clock e m) r0"])
qed

lemma held_checks:
  assumes "mail_inv s" and "held r d e n s r0" and "n \<le> m"
  shows "outbox_checks r0" "fence (d_AccountID d) (d_ID d) (dr_owner r) (d_AttemptCount d) (clock e m) r0" "ob_created r0 \<le> clock e m"
  using assms by (auto simp: held_def mail_inv_def rows_inv_def list_all_iff)

lemma settles_fail:
  assumes "mail_inv s" and "held r d e n s r0" and "no_faults e" and "n \<le> m"
  shows "settles e n r0 s (permanentlyFail r d msg e m s)" "settles e n r0 s (cancel r d msg e m s)"
proof -
  note ok = checks_ended [OF held_checks [OF assms(1,2,4)]]
  show "settles e n r0 s (permanentlyFail r d msg e m s)"
    unfolding permanentlyFail_def PermanentlyFailDelivery_def
    by (rule settles_transition [where f = "fail_row (sanitizeDeliveryError msg)", OF assms ok(3)]) (simp add: resolved_def identity_def terminal_def fail_row_def)
  show "settles e n r0 s (cancel r d msg e m s)"
    unfolding cancel_def CancelDelivery_def
    by (rule settles_transition [where f = "cancel_row (sanitizeDeliveryError msg)", OF assms ok(4)]) (simp add: resolved_def identity_def terminal_def cancel_row_def)
qed

lemma settles_complete:
  assumes "mail_inv s" and "held r d e n s r0" and "no_faults e" and "n \<le> m"
    and "mail_sender (dr_sender r)" and "dr_sender r j msg = Inr rc"
  shows "settles e n r0 s (after_send r d (Inr rc) e m s)"
  unfolding after_send_def sum.case mail_sender.receipt_completes [OF assms(5,6)]
proof (rule settles_transition [OF assms(1-4)])
  show "outbox_checks (complete_row (Receipt_ID rc) (clock e m) r0)"
    using checks_ended(1) [OF held_checks [OF assms(1,2,4)] mail_sender.receipt_ok [OF assms(5,6)]] .
qed (simp add: resolved_def identity_def terminal_def complete_row_def)

lemma round_even_ge: "of_int k \<le> x \<Longrightarrow> k \<le> round_even x"
proof -
  assume "of_int k \<le> x"
  then have "k \<le> \<lfloor>x\<rfloor>" by (simp add: le_floor_iff)
  then show ?thesis unfolding round_even_def Let_def by (smt (verit))
qed

lemma retry_interval: "1 \<le> k \<Longrightarrow> k \<le> 8 \<Longrightarrow> 0 < retryDelay k x \<and> retryDelay k x \<le> maxDeliveryRetryDelay \<and> seconds 30 \<le> interval_of (retryDelay k x)"
proof -
  assume k: "1 \<le> k" "k \<le> 8"
  define j where "j = nat (k - 1)"
  have j: "k = int j + 1" "j < 8" using k by (auto simp: j_def)
  then have p: "(2 :: int) ^ j \<le> 2 ^ 7" by (intro power_increasing) auto
  have q: "30000000000 * (1 :: int) \<le> 30000000000 * 2 ^ j" by (intro mult_left_mono) simp_all
  have "30000000000 * 2 ^ j \<le> retryDelay k x" and u: "retryDelay k x \<le> 90000000000 * 2 ^ j"
    using retryDelay_range [of j x] j by (simp_all add: retryBaseDelay_def)
  with q have b1: "30000000000 \<le> retryDelay k x" by linarith
  have b2: "retryDelay k x \<le> maxDeliveryRetryDelay" using u p by (simp add: maxDeliveryRetryDelay_def)
  note b = b1 b2
  from b(1) have "(30000000000 :: rat) \<le> of_int (retryDelay k x)" by simp
  then have "of_int (30000000 :: int) \<le> of_int (retryDelay k x) / (1000 :: rat)" by simp
  then show ?thesis using b round_even_ge by (simp add: interval_of_def)
qed

lemma settles_retry:
  assumes "mail_inv s" and "held r d e n s r0" and "no_faults e" and "n \<le> m"
    and "1 \<le> d_AttemptCount d" and "dr_maxAttempts r \<le> 8"
  shows "settles e n r0 s (retry_or_fail r d err e m s)"
proof -
  let ?delay = "retryDelay (d_AttemptCount d) (dr_randomFloat r m)"
  have "settles e n r0 s (db_wrap (on_delivery ''retry'' d)
      (RetryDelivery (d_AccountID d) (d_ID d) (dr_owner r) (d_AttemptCount d) (providerFailureMessage err) ?delay) e m s)"
    if "\<not> d_AttemptCount d \<ge> dr_maxAttempts r"
  proof -
    have "d_AttemptCount d \<le> 8" using that assms(6) by simp
    from retry_interval [OF assms(5) this] have i: "\<not> (?delay \<le> 0 \<or> ?delay > maxDeliveryRetryDelay)" "seconds 30 \<le> interval_of ?delay"
      by (auto simp: not_le not_less)
    show ?thesis
      unfolding RetryDelivery_def if_not_P [OF i(1)]
      by (rule settles_transition [where f = "retry_row (sanitizeDeliveryError (providerFailureMessage err)) (interval_of ?delay)",
            OF assms(1-4) checks_ended(2) [OF held_checks [OF assms(1,2,4)]]])
        (use i(2) assms(4) in \<open>auto simp: resolved_def identity_def retry_row_def\<close>)
  qed
  then show ?thesis
    using settles_fail [OF assms(1-4)] by (simp add: retry_or_fail_def Let_def)
qed

lemma held_sent: "held r d e n (s\<lparr>sent := ms\<rparr>) r0 = held r d e n s r0"
  by (simp add: held_def)


section \<open>A concrete worker\<close>

definition demo_provider :: provider where
  "demo_provider = \<lparr>Do = (\<lambda>_ _. Inr \<lparr>StatusCode = 200, resp_body = Inr ''{}''\<rparr>), json_field = (\<lambda>_ _. Some ''p1'')\<rparr>"

definition demo_worker :: delivery_runner where
  "demo_worker =
     \<lparr>dr_sender = ResendSender demo_provider ''k'' ''f'', dr_key = ''key'', dr_baseURL = ''u'', dr_owner = ''w'', dr_batchSize = 50,
      dr_concurrency = 5, dr_maxAttempts = 8, dr_retryHorizon = 82800000000000, dr_now = (\<lambda>_. 5000),
      dr_randomFloat = (\<lambda>_. 1 / 2), dr_open = (\<lambda>_ _ _. Inr ''t''), dr_group = (\<lambda>_. None), dr_ctx = (\<lambda>_. None), dr_stop = (\<lambda>_. False)\<rparr>"

definition demo_delivery :: Delivery where
  "demo_delivery = delivery_of (lease_row ''w'' 300000000 2 demo_row) demo_invitation"

definition demo_still :: env where
  "demo_still = \<lparr>fault = (\<lambda>_. None), clock = (\<lambda>_. 5)\<rparr>"

lemma demo_held: "held demo_worker demo_delivery demo_still 4 demo_leased (lease_row ''w'' 300000000 2 demo_row)"
  by (simp add: held_def demo_still_def demo_leased_def fence_def demo_delivery_def delivery_of_def lease_row_def demo_row_def demo_worker_def)

lemma demo_leased_inv: "mail_inv demo_leased"
  using mail_steps_goes_on [OF demo_steps] demo_mail_inv by (simp add: goes_on_def)


lemma demo_sends: "sent (snd (snd (deliver demo_worker demo_delivery demo_still 4 demo_leased))) \<noteq> sent demo_leased"
proof -
  let ?m = "invitation_message demo_worker demo_delivery ''t''"
  have cur: "DeliveryInvitationCurrent (d_AccountID demo_delivery) (d_InvitationID demo_delivery) (d_InvitationVersion demo_delivery)
      demo_still 4 demo_leased = (Inr True, 5, demo_leased)"
    by code_simp
  have w: "dr_now demo_worker n = 5000" "dr_maxAttempts demo_worker = 8" "dr_open demo_worker a b c = Inr ''t''"
    "dr_retryHorizon demo_worker = 82800000000000" for n a b c by (simp_all add: demo_worker_def)
  have d: "d_Kind demo_delivery = ''account_invitation''" "d_InvitationExpiresAt demo_delivery = 900000000" "d_AttemptCount demo_delivery = 1"
    "d_FirstAttemptAt demo_delivery = 2"
    by (simp_all add: demo_delivery_def delivery_of_def lease_row_def demo_row_def demo_invitation_def)
  have "deliver demo_worker demo_delivery demo_still 4 demo_leased =
      after_send demo_worker demo_delivery (dr_sender demo_worker 5 ?m) demo_still 6 (demo_leased\<lparr>sent := sent demo_leased @ [?m]\<rparr>)"
    by (simp add: deliver_def db_bind_def db_wrap_def cur w d nano_def retryHorizonElapsed_def sendInvitation_def Let_def)
  moreover obtain res n' s' where
    x: "after_send demo_worker demo_delivery (dr_sender demo_worker 5 ?m) demo_still 6 (demo_leased\<lparr>sent := sent demo_leased @ [?m]\<rparr>) = (res, n', s')"
    by (metis prod_cases3)
  ultimately show ?thesis using db_keepsD [OF keeps_after_send x] by (simp add: same_but_outbox_def)
qed

theorem deliver_sends_witness:
  "\<exists>m. sent (snd (snd (deliver demo_worker demo_delivery demo_still 4 demo_leased))) = sent demo_leased @ [m] \<and> To m = ''x@y.z''"
proof -
  obtain res n' s' where run: "deliver demo_worker demo_delivery demo_still 4 demo_leased = (res, n', s')" by (metis prod_cases3)
  from deliver_sends [OF this] demo_sends run show ?thesis
    by (auto simp: demo_delivery_def delivery_of_def lease_row_def demo_row_def)
qed

section \<open>A pass\<close>

subsection \<open>How much is sent\<close>

text \<open>At most \<open>k\<close> messages more, slots and invitations as they were, and the outbox goes on.\<close>

definition sends_at_most :: "nat \<Rightarrow> mail \<Rightarrow> mail \<Rightarrow> bool" where
  "sends_at_most k s s' = (length (sent s') \<le> length (sent s) + k \<and> slots s' = slots s \<and> invitations s' = invitations s)"

lemma deliver_sends_one: "deliver r d e n s = (res, n', s') \<Longrightarrow> sends_at_most 1 s s'"
  using deliver_sent by (fastforce simp: sends_at_most_def)

lemma deliver_all_sends: "deliver_all r err ds e n s = (res, n', s') \<Longrightarrow> sends_at_most (length ds) s s'"
proof (induction ds arbitrary: err n s)
  case Nil
  then show ?case by (simp add: sends_at_most_def)
next
  case (Cons d ds)
  show ?case
  proof (cases "dr_stop r n \<and> (err \<noteq> None \<or> dr_ctx r n \<noteq> None)")
    case True
    with Cons.prems show ?thesis by (auto simp: sends_at_most_def)
  next
    case False
    with Cons.prems obtain x n1 s1 err' where "deliver r d e n s = (x, n1, s1)" and "deliver_all r err' ds e n1 s1 = (res, n', s')"
      by (auto simp: db_bind_def db_try_def split: prod.splits)
    with deliver_sends_one Cons.IH show ?thesis by (fastforce simp: sends_at_most_def)
  qed
qed

lemma LeaseDeliveries_quiet: "db_keeps same_but_outbox (LeaseDeliveries w l d)"
proof -
  have u: "same_but_outbox s (snd (update_outbox P f s))" for P f s by (simp add: update_outbox_def same_but_outbox_def)
  have "snd (lease_due o' l' i now s) = snd (update_outbox
      (\<lambda>r. ob_id r \<in> ob_id ` set (pick fresh_attempt l' now s)) (lease_row o' i now) s)" for o' l' i now s
    by (simp add: lease_due_def Let_def split: prod.splits sum.splits)
  then have l: "same_but_outbox s (snd (lease_due o' l' i now s))" for o' l' i now s using u by simp
  have t: "same_but_outbox s (snd (terminalize now s))" for now s using u by (simp add: terminalize_def Let_def)
  have "db_keeps same_but_outbox (db_bind (db_stmt wa (\<lambda>now s. wrap_result pa (terminalize now s)))
      (\<lambda>_. db_stmt wb (\<lambda>now s. wrap_result pb (lease_due o' l' i now s))))" for wa pa wb pb o' l' i
    by (intro db_keeps_bind [OF same_trans] db_keeps_stmt same_refl) (simp_all add: l t)
  then show ?thesis
    unfolding LeaseDeliveries_def Let_def by (simp add: db_keeps_return db_keeps_fail db_keeps_tx)
qed

lemma LeaseDeliveries_count:
  assumes "mail_inv s" and "LeaseDeliveries w l d e n s = (Inr ds, n', s')"
  shows "int (length ds) \<le> max 0 (min l 50)"
proof (cases "0 < l")
  case True
  have "length ds \<le> nat (min l maxDeliveryLeaseLimit)"
    unfolding LeaseDeliveries_Inr(1) [OF assms True] length_map by (rule pick_length)
  then show ?thesis by (simp add: maxDeliveryLeaseLimit_def)
next
  case False
  with assms(2) show ?thesis by (simp add: LeaseDeliveries_def)
qed

lemma runWithCapacity_sends:
  assumes "mail_inv s" and "runWithCapacity r limit e n s = (res, n', s')"
  shows "sends_at_most (nat (min limit 50)) s s'"
proof -
  obtain x n1 s1 where l: "LeaseDeliveries (dr_owner r) limit deliveryLeaseDuration e n s = (x, n1, s1)" by (metis prod_cases3)
  from db_keepsD [OF LeaseDeliveries_quiet l] have q: "sends_at_most 0 s s1" by (simp add: sends_at_most_def same_but_outbox_def)
  show ?thesis
  proof (cases x)
    case (Inl err)
    with l q assms(2) show ?thesis by (auto simp: runWithCapacity_def db_bind_def db_wrap_def sends_at_most_def)
  next
    case (Inr ds)
    from LeaseDeliveries_count [OF assms(1) l [unfolded Inr]] have c: "length ds \<le> nat (min limit 50)" by linarith
    show ?thesis
    proof (cases "ds = []")
      case True
      with l q Inr assms(2) show ?thesis by (auto simp: runWithCapacity_def db_bind_def db_wrap_def sends_at_most_def)
    next
      case False
      obtain err n2 s2 where d: "deliver_all r None ds e n1 s1 = (err, n2, s2)" by (metis prod_cases3)
      with l Inr False assms(2) have "s' = s2"
        by (auto simp: runWithCapacity_def db_bind_def db_wrap_def split: sum.splits option.splits)
      with deliver_all_sends [OF d] q c show ?thesis by (simp add: sends_at_most_def)
    qed
  qed
qed

subsection \<open>The slots of a pass\<close>

definition freed :: "slot_row \<Rightarrow> slot_row" where
  "freed q = q\<lparr>sl_owner := None, sl_expires := None\<rparr>"

definition free_held :: "string \<Rightarrow> DeliverySlot list \<Rightarrow> slot_row \<Rightarrow> slot_row" where
  "free_held w xs q = (if list_ex (\<lambda>x. slot_held w x q) xs then freed q else q)"

lemma free_held_Cons:
  assumes "Slot x \<notin> Slot ` set xs"
  shows "free_held w xs (if slot_held w x q then freed q else q) = free_held w (x # xs) q"
  using assms by (auto simp: free_held_def list_ex_iff slot_held_def freed_def)

lemma release_one_held:
  assumes "slots_inv (slots s)" and "q \<in> set (slots s)" and "slot_held w x q" and "1 \<le> Generation x" and "no_faults e"
  shows "release_one w x e n s = (Inr (), Suc n, s\<lparr>slots := map (\<lambda>q. if slot_held w x q then freed q else q) (slots s)\<rparr>)"
proof -
  have only: "slot_held w x y \<longleftrightarrow> y = q" if "y \<in> set (slots s)" for y
    using assms(1-3) same_slot that by (auto simp: slot_held_def)
  have "distinct (slots s)" using assms(1) by (auto simp: slots_inv_def distinct_map)
  then have "length (filter (\<lambda>y. y = q) (slots s)) = 1"
    using assms(2) by (simp add: distinct_length_filter Int_absorb1 Collect_conv_if)
  moreover have "filter (slot_held w x) (slots s) = filter (\<lambda>y. y = q) (slots s)" using only by (rule filter_cong [OF refl])
  moreover have "1 \<le> Slot x \<and> Slot x \<le> 5" using assms(1-3) by (auto simp: slots_inv_def list_all_iff slot_shape_def slot_held_def)
  ultimately show ?thesis
    using assms(4,5) by (simp add: release_one_def db_bind_def db_stmt_def no_faults_def release_slot_def maxDeliverySlots_def freed_def)
qed

lemma slots_inv_free: "slots_inv sls \<Longrightarrow> slots_inv (map (\<lambda>q. if P q then freed q else q) sls)"
proof -
  assume "slots_inv sls"
  moreover have "map sl_slot (map (\<lambda>q. if P q then freed q else q) sls) = map sl_slot sls" by (simp add: freed_def)
  moreover have "slot_shape q \<Longrightarrow> slot_shape (freed q)" for q by (simp add: slot_shape_def freed_def bounded_text_def)
  then have "list_all slot_shape sls \<Longrightarrow> list_all slot_shape (map (\<lambda>q. if P q then freed q else q) sls)"
    by (auto simp: list_all_iff)
  ultimately show ?thesis unfolding slots_inv_def by metis
qed

lemma free_held_Nil: "map (free_held w []) sls = sls"
  by (rule map_idI) (simp add: free_held_def)

lemma release_all_held:
  assumes "slots_inv (slots s)" and "distinct (map Slot xs)" and "no_faults e"
    and "\<And>x. x \<in> set xs \<Longrightarrow> 1 \<le> Generation x \<and> (\<exists>q \<in> set (slots s). slot_held w x q)"
  shows "\<exists>n'. db_foreach xs (release_one w) e n s = (Inr (), n', s\<lparr>slots := map (free_held w xs) (slots s)\<rparr>)"
  using assms
proof (induction xs arbitrary: n s)
  case Nil
  then show ?case by (simp add: free_held_Nil)
next
  case (Cons x xs)
  let ?free = "\<lambda>q. if slot_held w x q then freed q else q"
  let ?s = "s\<lparr>slots := map ?free (slots s)\<rparr>"
  from Cons.prems(4) [of x] obtain q where q: "q \<in> set (slots s)" "slot_held w x q" "1 \<le> Generation x" by auto
  note one = release_one_held [OF Cons.prems(1) q Cons.prems(3), of n]
  have "1 \<le> Generation y \<and> (\<exists>q \<in> set (slots ?s). slot_held w y q)" if y: "y \<in> set xs" for y
  proof -
    from Cons.prems(4) [of y] y obtain q' where q': "q' \<in> set (slots s)" "slot_held w y q'" "1 \<le> Generation y" by auto
    have "Slot y \<noteq> Slot x" using Cons.prems(2) y by (metis distinct.simps(2) image_eqI list.set_map list.simps(9))
    with q'(2) have "?free q' = q'" by (auto simp: slot_held_def)
    have "?free q' \<in> set (slots ?s)" using q'(1) by simp
    with \<open>?free q' = q'\<close> have "q' \<in> set (slots ?s)" by (rule subst)
    with q'(2,3) show ?thesis by blast
  qed
  moreover have "slots_inv (slots ?s)" using slots_inv_free [OF Cons.prems(1)] by simp
  ultimately obtain n' where "db_foreach xs (release_one w) e (Suc n) ?s = (Inr (), n', ?s\<lparr>slots := map (free_held w xs) (slots ?s)\<rparr>)"
    using Cons.IH [of ?s "Suc n"] Cons.prems(2,3) by auto
  moreover have "map (free_held w xs) (map ?free (slots s)) = map (free_held w (x # xs)) (slots s)"
    using free_held_Cons [of x xs w] Cons.prems(2) by simp
  ultimately show ?case using one by (auto simp: db_bind_def)
qed

lemma ReleaseDeliverySlots_held:
  assumes "slots_inv (slots s)" and "distinct (map Slot xs)" and "no_faults e" and "owner_ok (TrimSpace w)" and "length xs \<le> 5"
    and "\<And>x. x \<in> set xs \<Longrightarrow> 1 \<le> Generation x \<and> (\<exists>q \<in> set (slots s). slot_held (TrimSpace w) x q)"
  shows "\<exists>n'. ReleaseDeliverySlots w xs e n s = (Inr (), n', s\<lparr>slots := map (free_held (TrimSpace w) xs) (slots s)\<rparr>)"
proof (cases "xs = []")
  case True
  then show ?thesis by (simp add: ReleaseDeliverySlots_def free_held_Nil)
next
  case False
  from release_all_held [OF assms(1,2,3,6), of "Suc n"] obtain n' where
    "db_foreach xs (release_one (TrimSpace w)) e (Suc n) s = (Inr (), n', s\<lparr>slots := map (free_held (TrimSpace w) xs) (slots s)\<rparr>)" by blast
  with False assms(3-5) show ?thesis
    by (simp add: ReleaseDeliverySlots_def Let_def db_tx_def no_faults_def maxDeliverySlots_def)
qed

lemma keeps_release_sent: "db_keeps (\<lambda>s s'. sent s' = sent s) (ReleaseDeliverySlots w xs)"
proof -
  have "db_keeps (\<lambda>s s'. sent s' = sent s) (release_one v x)" for v x
    unfolding release_one_def
    by (auto intro!: db_keeps_fail db_keeps_bind db_keeps_stmt db_keeps_return simp: release_slot_def)
  then show ?thesis
    unfolding ReleaseDeliverySlots_def Let_def
    by (auto intro!: db_keeps_return db_keeps_fail db_keeps_tx db_keeps_foreach)
qed

lemma lease_then_release:
  assumes inv: "mail_inv s" and lease: "LeaseDeliverySlots w l d e n s = (Inr xs, n1, s1)" and "0 < l" and "no_faults e"
    and same: "slots s2 = slots s1"
  shows "\<exists>n'. ReleaseDeliverySlots w xs e n2 s2 = (Inr (), n', s2\<lparr>slots := map (free_held (TrimSpace w) xs) (slots s2)\<rparr>)"
    and "q \<in> set (map (free_held (TrimSpace w) xs) (slots s2)) \<Longrightarrow> sl_owner q \<noteq> None \<Longrightarrow> q \<in> set (slots s)"
proof -
  let ?avail = "available_slots (min l maxDeliverySlots) (clock e n) s"
  note run = LeaseDeliverySlots_Inr [OF inv lease \<open>0 < l\<close>]
  have i: "slots_inv (slots s)" using inv by (simp add: mail_inv_def)
  have i1: "slots_inv (slots s2)"
    using db_keepsD [OF keeps_LeaseDeliverySlots lease] inv by (simp add: goes_on_def mail_inv_def same)
  let ?leased = "lease_slot (TrimSpace w) (clock e n) (interval_of d)"
  have held: "slot_held (TrimSpace w) (slot_of (TrimSpace w) (clock e n) (interval_of d) a) (?leased a)" for a
    by (simp add: slot_held_def slot_of_def lease_slot_def)
  have s2: "slots s2 = map (\<lambda>r. if r \<in> set ?avail then ?leased r else r) (slots s)" by (simp add: same run(2))
  have "1 \<le> Generation x \<and> (\<exists>q \<in> set (slots s2). slot_held (TrimSpace w) x q)" if "x \<in> set xs" for x
  proof -
    from that run(1) obtain a where a: "a \<in> set ?avail" and x: "x = slot_of (TrimSpace w) (clock e n) (interval_of d) a" by auto
    from available_subset [OF a] a have "?leased a \<in> set (slots s2)" unfolding s2 by (force intro: rev_image_eqI)
    moreover have "0 \<le> sl_generation a" using available_subset [OF a] i by (auto simp: slots_inv_def list_all_iff slot_shape_def)
    ultimately show ?thesis using held x by (auto simp: slot_of_def)
  qed
  moreover have "distinct (map Slot xs)"
    using available_distinct [OF i] by (simp add: run(1) slot_of_def o_def)
  moreover have "length xs \<le> 5" by (simp add: run(1) available_slots_def maxDeliverySlots_def) 
  ultimately show "\<exists>n'. ReleaseDeliverySlots w xs e n2 s2 = (Inr (), n', s2\<lparr>slots := map (free_held (TrimSpace w) xs) (slots s2)\<rparr>)"
    using ReleaseDeliverySlots_held i1 assms(4) run(3) by blast
  assume "q \<in> set (map (free_held (TrimSpace w) xs) (slots s2))" and "sl_owner q \<noteq> None"
  then obtain b where b: "b \<in> set (slots s)" "q = free_held (TrimSpace w) xs (if b \<in> set ?avail then ?leased b else b)" by (auto simp: s2)
  have "b \<notin> set ?avail"
  proof
    assume "b \<in> set ?avail"
    then have "list_ex (\<lambda>x. slot_held (TrimSpace w) x (?leased b)) xs" using held by (auto simp: run(1) list_ex_iff)
    with b \<open>b \<in> set ?avail\<close> \<open>sl_owner q \<noteq> None\<close> show False by (simp add: free_held_def freed_def)
  qed
  with b \<open>sl_owner q \<noteq> None\<close> show "q \<in> set (slots s)" by (auto simp: free_held_def freed_def split: if_splits)
qed

lemma leased_nothing:
  assumes "mail_inv s" and "LeaseDeliverySlots w l d e n s = (x, n1, s1)" and "\<not> (\<exists>xs. x = Inr xs \<and> xs \<noteq> [])"
  shows "s1 = s"
proof (cases x)
  case (Inl err)
  with assms(2) show ?thesis
    by (auto simp: LeaseDeliverySlots_def Let_def db_stmt_def lease_slots_def wrap_result_def split: if_splits option.splits)
next
  case (Inr xs)
  with assms(3) have xs: "xs = []" by simp
  show ?thesis
  proof (cases "0 < l")
    case True
    from LeaseDeliverySlots_Inr [OF assms(1) assms(2) [unfolded Inr] True] xs show ?thesis by simp
  next
    case False
    with assms(2) show ?thesis by (simp add: LeaseDeliverySlots_def)
  qed
qed

text \<open>
  One pass of the worker hands at most the configured batch of messages to the sender, and never
  more than fifty. And when no statement fails it leaves no worker slot behind: every slot that is
  still owned after the pass is exactly what it was before it.
\<close>

theorem run_bounded:
  assumes "mail_inv s" and "run r e n s = (res, n', s')"
  shows "int (length (sent s')) \<le> int (length (sent s)) + max 0 (min (dr_batchSize r) 50) \<and>
    (no_faults e \<longrightarrow> (\<forall>q \<in> set (slots s'). sl_owner q \<noteq> None \<longrightarrow> q \<in> set (slots s)))"
proof -
  obtain x n1 s1 where l: "LeaseDeliverySlots (dr_owner r) (dr_concurrency r) deliverySlotLeaseDuration e n s = (x, n1, s1)" by (metis prod_cases3)
  have inv1: "mail_inv s1" using db_keepsD [OF keeps_LeaseDeliverySlots l] assms(1) by (simp add: goes_on_def)
  show ?thesis
  proof (cases "\<exists>xs. x = Inr xs \<and> xs \<noteq> []")
    case False
    with leased_nothing [OF assms(1) l] have "s1 = s" by blast
    moreover have "s' = s1" using assms(2) l False by (auto simp: run_def db_bind_def db_wrap_def split: sum.splits)
    ultimately show ?thesis by simp
  next
    case True
    then obtain xs where x: "x = Inr xs" "xs \<noteq> []" by blast
    have pos: "0 < dr_concurrency r" using l x by (auto simp: LeaseDeliverySlots_def split: if_splits)
    note lease = l [unfolded x(1)]
    note ls = LeaseDeliverySlots_Inr [OF assms(1) lease pos]
    let ?limit = "min (dr_batchSize r) (int (length xs) * maxDeliveriesPerSlot)"
    obtain res2 n2 s2 where w: "runWithCapacity r ?limit e n1 s1 = (res2, n2, s2)" by (metis prod_cases3)
    obtain res3 n3 s3 where rel: "ReleaseDeliverySlots (dr_owner r) xs e n2 s2 = (res3, n3, s3)" by (metis prod_cases3)
    have s': "s' = s3" using assms(2) lease x(2) w rel
      by (auto simp: run_def db_bind_def db_wrap_def release_after_def split: sum.splits)
    from runWithCapacity_sends [OF inv1 w] have sends: "sends_at_most (nat (min ?limit 50)) s1 s2" .
    have sent1: "sent s1 = sent s" by (simp add: ls(2))
    have sent3: "sent s3 = sent s2"
      using rel db_keepsD [OF keeps_release_sent rel] by simp
    have "int (length (sent s')) \<le> int (length (sent s)) + max 0 (min (dr_batchSize r) 50)"
      using sends by (simp add: s' sent3 sent1 sends_at_most_def) linarith
    moreover have "q \<in> set (slots s)" if "no_faults e" "q \<in> set (slots s')" "sl_owner q \<noteq> None" for q
    proof -
      have same: "slots s2 = slots s1" using sends by (simp add: sends_at_most_def)
      from lease_then_release(1) [OF assms(1) lease pos that(1) same, of n2] rel
      have "slots s3 = map (free_held (TrimSpace (dr_owner r)) xs) (slots s2)" by auto
      with lease_then_release(2) [OF assms(1) lease pos that(1) same] that(2,3) s' show ?thesis by simp
    qed
    ultimately show ?thesis by blast
  qed
qed

theorem run_bounded_witness:
  "int (length (sent (snd (snd (run demo_worker demo_still 0 demo_mail))))) \<le> 50"
proof -
  obtain res n' s' where run: "run demo_worker demo_still 0 demo_mail = (res, n', s')" by (metis prod_cases3)
  have "sent demo_mail = []" "dr_batchSize demo_worker = 50" by (simp_all add: demo_mail_def demo_worker_def)
  with run_bounded [OF demo_mail_inv run] show ?thesis by (simp add: run)
qed

end
