(* ===== verification/Account_Tables.thy ===== *)
theory Account_Tables
  imports Delivery_Outbox "HOL-Library.Word"
begin

text \<open>
  Accounts and the people in them: the domain types of \<open>pkg/account/account.go\<close>, the rows of the
  tables they are stored in (migrations 001, 003, 011, 017, 018, 030, 031 and 032), and the
  registry, the record of these tables. The tables of the delivery worker are a field of it; the
  worker sees of an invitation the columns it reads.

  A nullable text column that the code reads as the empty text (\<open>avatar_url\<close>) is that text. The
  identifiers the database generates are drawn from a counter.
\<close>

section \<open>Roles\<close>

type_synonym Role = string
type_synonym Capability = string

abbreviation RoleAdmin :: Role where "RoleAdmin \<equiv> ''admin''"
abbreviation RoleEditor :: Role where "RoleEditor \<equiv> ''editor''"
abbreviation RoleReader :: Role where "RoleReader \<equiv> ''reader''"

abbreviation ReadAccount :: Capability where "ReadAccount \<equiv> ''account.read''"
abbreviation WritePersonal :: Capability where "WritePersonal \<equiv> ''personal.write''"
abbreviation WriteEvidence :: Capability where "WriteEvidence \<equiv> ''evidence.write''"
abbreviation ManageSettings :: Capability where "ManageSettings \<equiv> ''settings.manage''"
abbreviation ManageCredentials :: Capability where "ManageCredentials \<equiv> ''credentials.manage''"
abbreviation ManageMembers :: Capability where "ManageMembers \<equiv> ''members.manage''"

definition Role_Valid :: "Role \<Rightarrow> bool" where
  "Role_Valid r = (r = RoleAdmin \<or> r = RoleEditor \<or> r = RoleReader)"

definition Role_Can :: "Role \<Rightarrow> Capability \<Rightarrow> bool" where
  "Role_Can r c =
     (if r = RoleAdmin then
        c = ReadAccount \<or> c = WritePersonal \<or> c = WriteEvidence \<or>
        c = ManageSettings \<or> c = ManageCredentials \<or> c = ManageMembers
      else if r = RoleEditor then c = ReadAccount \<or> c = WritePersonal \<or> c = WriteEvidence
      else if r = RoleReader then c = ReadAccount \<or> c = WritePersonal
      else False)"

section \<open>Domain types\<close>

record User =
  u_ID :: string
  u_Email :: string
  u_EmailVerifiedAt :: "time option"
  u_Status :: string
  u_AvatarURL :: string
  u_TOSAcceptedAt :: "time option"
  u_CreatedAt :: time
  u_UpdatedAt :: time

record Account =
  a_ID :: string
  a_Name :: string
  a_Plan :: string
  a_Status :: string
  a_MinSeverity :: string
  a_CreatedAt :: time
  a_UpdatedAt :: time

record Membership =
  m_AccountID :: string
  m_UserID :: string
  m_Role :: Role
  m_CreatedByUserID :: "string option"
  m_AcceptedAt :: time
  m_RevokedAt :: "time option"
  m_RevokedByUserID :: "string option"
  m_CreatedAt :: time
  m_UpdatedAt :: time

record Access =
  access_Actor :: User
  access_Account :: Account
  access_Membership :: Membership

definition Access_Can :: "Access \<Rightarrow> Capability \<Rightarrow> bool" where
  "Access_Can a c = Role_Can (m_Role (access_Membership a)) c"

abbreviation ActorUser :: string where "ActorUser \<equiv> ''user''"
abbreviation ActorAPIToken :: string where "ActorAPIToken \<equiv> ''api_token''"
abbreviation ActorPlatform :: string where "ActorPlatform \<equiv> ''platform''"

record Actor =
  ActorKind :: string
  UserID :: string
  APITokenID :: string

abbreviation user_actor :: "string \<Rightarrow> Actor" where
  "user_actor u \<equiv> \<lparr>ActorKind = ActorUser, UserID = u, APITokenID = []\<rparr>"

record VerifiedIdentity =
  vi_Provider :: string
  vi_Subject :: string
  vi_Email :: string
  vi_AvatarURL :: string

record Session =
  s_User :: User
  s_ActiveAccountID :: "string option"
  s_ExpiresAt :: time

section \<open>Rows\<close>

record user_row = User +
  legacy_tenant_id :: "string option"

record account_row = Account +
  t_email :: string
  t_email_verified_at :: "time option"
  t_avatar_url :: string
  t_tos_accepted_at :: "time option"

record identity_row =
  id_tenant :: "string option"
  id_user :: "string option"
  id_provider :: string
  id_subject :: string
  id_email :: string

record session_row =
  se_id :: string
  se_tenant :: "string option"
  se_user :: "string option"
  se_active :: "string option"
  se_expires :: time

record login_row =
  lt_id :: string
  lt_email :: string
  lt_expires :: time

record token_row =
  tk_id :: string
  tk_tenant :: string
  tk_name :: string
  tk_hash :: string
  tk_last_used :: "time option"
  tk_expires :: "time option"
  tk_created :: time
  tk_creator :: "string option"

record flash_row =
  fl_session :: string
  fl_account :: string
  fl_value :: string
  fl_expires :: time

record audit_row =
  au_account :: string
  au_kind :: string
  au_user :: "string option"
  au_token :: "string option"
  au_action :: string
  au_target_type :: string
  au_target :: string
  au_outcome :: string
  au_request :: string
  au_metadata :: string
  au_at :: time

record rate_row =
  rt_key :: string
  rt_window :: time
  rt_count :: int

text \<open>An invitation has more columns than the delivery worker reads.\<close>

record grant_row = invitation_row +
  gr_role :: Role
  gr_inviter :: "string option"
  gr_hash :: string
  gr_accepted_by :: "string option"
  gr_revoked_by :: "string option"
  gr_created :: time
  gr_updated :: time

section \<open>The registry\<close>

record registry =
  accounts :: "account_row list"
  users :: "user_row list"
  members :: "Membership list"
  identities :: "identity_row list"
  sessions :: "session_row list"
  login_tokens :: "login_row list"
  api_tokens :: "token_row list"
  flashes :: "flash_row list"
  legacy_flashes :: "string list"
  audit :: "audit_row list"
  rates :: "rate_row list"
  grants :: "grant_row list"
  post :: mail
  next_id :: nat

definition empty_registry :: registry where
  "empty_registry = \<lparr>accounts = [], users = [], members = [], identities = [], sessions = [], login_tokens = [],
     api_tokens = [], flashes = [], legacy_flashes = [], audit = [], rates = [], grants = [],
     post = \<lparr>slots = [], outbox = [], invitations = [], next_outbox = 0, sent = []\<rparr>, next_id = 0\<rparr>"

definition scanUser :: "user_row \<Rightarrow> User" where
  "scanUser r = User.truncate r"

definition scanAccount :: "account_row \<Rightarrow> Account" where
  "scanAccount r = Account.truncate r"

definition account_of :: "string \<Rightarrow> 'z registry_scheme \<Rightarrow> account_row option" where
  "account_of a s = lookup_key a_ID (accounts s) a"

definition user_of :: "string \<Rightarrow> 'z registry_scheme \<Rightarrow> user_row option" where
  "user_of u s = lookup_key u_ID (users s) u"

definition user_by_email :: "string \<Rightarrow> 'z registry_scheme \<Rightarrow> user_row option" where
  "user_by_email m s = lookup_key u_Email (users s) m"

abbreviation member_key :: "Membership \<Rightarrow> string \<times> string" where
  "member_key m \<equiv> (m_AccountID m, m_UserID m)"

definition member_of :: "string \<Rightarrow> string \<Rightarrow> 'z registry_scheme \<Rightarrow> Membership option" where
  "member_of a u s = lookup_key member_key (members s) (a, u)"

definition user_active :: "string \<Rightarrow> 'z registry_scheme \<Rightarrow> bool" where
  "user_active u s = (case user_of u s of None \<Rightarrow> False | Some r \<Rightarrow> u_Status r = ''active'')"

definition account_active :: "string \<Rightarrow> 'z registry_scheme \<Rightarrow> bool" where
  "account_active a s = (case account_of a s of None \<Rightarrow> False | Some r \<Rightarrow> a_Status r = ''active'')"

text \<open>The tables as the delivery worker sees them, and a program of the worker run on the registry.\<close>

definition mail_view :: "registry \<Rightarrow> mail" where
  "mail_view s = (post s)\<lparr>invitations := map invitation_row.truncate (grants s)\<rparr>"

definition on_mail :: "(mail, 'a) db \<Rightarrow> (registry, 'a) db" where
  "on_mail m e n s = (case m e n (mail_view s) of (r, n', p) \<Rightarrow> (r, n', s\<lparr>post := p\<rparr>))"

section \<open>Hexadecimal text\<close>

type_synonym byte = "8 word"

definition hex_byte :: "byte \<Rightarrow> string" where
  "hex_byte b = [hex_digit (unat b div 16), hex_digit (unat b)]"

text \<open>\<open>hex.EncodeToString\<close>.\<close>

definition hex_encode :: "byte list \<Rightarrow> string" where
  "hex_encode bs = concat (map hex_byte bs)"

section \<open>Tokens\<close>

text \<open>\<open>pkg/authn/token.go\<close>. The random bytes are an argument; \<open>Inl\<close> is an error of the generator.\<close>

definition NewToken :: "string \<Rightarrow> byte list result \<Rightarrow> string result" where
  "NewToken pre random = (case random of Inl err \<Rightarrow> Inl (Wrapf ''generate token: '' err) | Inr bs \<Rightarrow> Inr (pre @ hex_encode bs))"

definition HashToken :: "string \<Rightarrow> string" where
  "HashToken raw = sha256_hex raw"

definition NormalizeEmail :: "string \<Rightarrow> string" where
  "NormalizeEmail email = ToLower (TrimSpace email)"

definition nullStr :: "string \<Rightarrow> string option" where
  "nullStr s = (if s = [] then None else Some s)"

end
