(* ===== verification/Audit_Log.thy ===== *)
theory Audit_Log
  imports Account_Tables
begin

text \<open>
  The audit log: \<open>pkg/data/postgres/audit.go\<close>. A protected mutation and the event that attributes
  it commit in one transaction. An event is validated before: who acts, that every text is present,
  trimmed and short enough, and that the metadata cannot hold a secret.

  A Go map is an association list in the order of its iteration; lengths in characters are lengths,
  since texts are ASCII. A mutation is always given, so the tests for a missing one are not modelled.
\<close>

section \<open>Events\<close>

definition maxAuditActionChars :: nat where "maxAuditActionChars = 96"
definition maxAuditTargetTypeChars :: nat where "maxAuditTargetTypeChars = 64"
definition maxAuditTargetIDChars :: nat where "maxAuditTargetIDChars = 512"
definition maxAuditOutcomeChars :: nat where "maxAuditOutcomeChars = 32"
definition maxAuditRequestIDChars :: nat where "maxAuditRequestIDChars = 128"
definition maxAuditMetadataBytes :: nat where "maxAuditMetadataBytes = 4096"

record AuditEvent =
  Action :: string
  TargetType :: string
  TargetID :: string
  Outcome :: string
  RequestID :: string
  Metadata :: "(string, string) gomap"

text \<open>\<open>json.Marshal\<close> of a map: its keys in order.\<close>

definition json_object :: "(string, string) gomap \<Rightarrow> string" where
  "json_object m = ''{'' @ Join (map (\<lambda>(k, v). json_text k @ '':'' @ json_text v) (sort_key fst m)) '','' @ ''}''"

definition check_actor :: "Actor \<Rightarrow> go_error option" where
  "check_actor actor =
     (if ActorKind actor = ActorUser then
        (if UserID actor = [] \<or> APITokenID actor \<noteq> [] then Some (Errorf ''invalid user audit actor'') else None)
      else if ActorKind actor = ActorAPIToken then
        (if APITokenID actor = [] \<or> UserID actor \<noteq> [] then Some (Errorf ''invalid api-token audit actor'') else None)
      else if ActorKind actor = ActorPlatform then
        (if APITokenID actor \<noteq> [] then Some (Errorf ''invalid platform audit actor'') else None)
      else Some (Errorf (''invalid audit actor kind '' @ quoted (ActorKind actor))))"

definition audit_text :: "nat \<Rightarrow> string \<Rightarrow> bool" where
  "audit_text k v = (v \<noteq> [] \<and> v = TrimSpace v \<and> length v \<le> k)"

definition audit_fields :: "AuditEvent \<Rightarrow> (string \<times> string \<times> nat) list" where
  "audit_fields ev =
     [(''action'', Action ev, maxAuditActionChars), (''target type'', TargetType ev, maxAuditTargetTypeChars),
      (''target id'', TargetID ev, maxAuditTargetIDChars), (''outcome'', Outcome ev, maxAuditOutcomeChars),
      (''request id'', RequestID ev, maxAuditRequestIDChars)]"

definition check_fields :: "AuditEvent \<Rightarrow> go_error option" where
  "check_fields ev =
     map_option (\<lambda>(name, v, k). Errorf (''invalid audit '' @ name))
       (List.find (\<lambda>(name, v, k). \<not> audit_text k v) (audit_fields ev))"

definition forbidden_keys :: "string list" where
  "forbidden_keys =
     [''token'', ''secret'', ''session'', ''login'', ''invitation'', ''payload'', ''envelope'', ''ciphertext'', ''vex'']"

fun check_metadata :: "(string, string) gomap \<Rightarrow> go_error option" where
  "check_metadata [] = None"
| "check_metadata ((k, v) # m) =
     (if list_ex (Contains (ToLower k)) forbidden_keys
      then Some (Errorf (''audit metadata key '' @ quoted k @ '' may contain secret material''))
      else if Contains v ''dr_'' \<or> Contains v ''enc:''
      then Some (Errorf (''audit metadata value for '' @ quoted k @ '' may contain secret material''))
      else check_metadata m)"

definition validateAuditInput :: "string \<Rightarrow> Actor \<Rightarrow> AuditEvent \<Rightarrow> string result" where
  "validateAuditInput accountID actor ev =
     (if accountID = [] then Inl (Errorf ''audit account id is required'')
      else case check_actor actor of
        Some err \<Rightarrow> Inl err
      | None \<Rightarrow>
          (case check_fields ev of
             Some err \<Rightarrow> Inl err
           | None \<Rightarrow>
               (case check_metadata (Metadata ev) of
                  Some err \<Rightarrow> Inl err
                | None \<Rightarrow>
                    (let metadata = json_object (Metadata ev) in
                     if length metadata > maxAuditMetadataBytes
                     then Inl (Errorf (''audit metadata exceeds '' @ nat_text maxAuditMetadataBytes @ '' bytes''))
                     else Inr metadata))))"

section \<open>The table\<close>

definition audit_of :: "string \<Rightarrow> Actor \<Rightarrow> AuditEvent \<Rightarrow> string \<Rightarrow> time \<Rightarrow> audit_row" where
  "audit_of accountID actor ev metadata now =
     \<lparr>au_account = accountID, au_kind = ActorKind actor, au_user = nullStr (UserID actor),
      au_token = nullStr (APITokenID actor), au_action = Action ev, au_target_type = TargetType ev,
      au_target = TargetID ev, au_outcome = Outcome ev, au_request = RequestID ev, au_metadata = metadata, au_at = now\<rparr>"

definition insert_audit :: "string \<Rightarrow> Actor \<Rightarrow> AuditEvent \<Rightarrow> string \<Rightarrow> time \<Rightarrow> 'z registry_scheme \<Rightarrow> 'z registry_scheme" where
  "insert_audit accountID actor ev metadata now s = s\<lparr>audit := audit s @ [audit_of accountID actor ev metadata now]\<rparr>"

section \<open>Audited mutations\<close>

definition member_live :: "string \<Rightarrow> string \<Rightarrow> Membership \<Rightarrow> bool" where
  "member_live a u m = (m_AccountID m = a \<and> m_UserID m = u \<and> m_RevokedAt m = None)"

definition authorizeAuditActor :: "string \<Rightarrow> Actor \<Rightarrow> ('z registry_scheme, unit) db" where
  "authorizeAuditActor accountID actor =
     (let verdict = (\<lambda>authorized. if authorized then db_return ()
        else db_fail (Errorf ''audit actor is not authorized for account'')) in
      if ActorKind actor = ActorUser then
        db_bind (db_read (Wrapf ''authorize audit user actor: '') (\<lambda>_ s.
          Inr (list_ex (member_live accountID (UserID actor)) (members s)))) verdict
      else if ActorKind actor = ActorAPIToken then
        db_bind (db_read (Wrapf ''authorize audit api-token actor: '') (\<lambda>_ s.
          Inr (list_ex (\<lambda>k. tk_tenant k = accountID \<and> tk_id k = APITokenID actor) (api_tokens s)))) verdict
      else if ActorKind actor = ActorPlatform then
        (if UserID actor = [] then db_return ()
         else db_bind (db_read (Wrapf ''authorize audit platform actor: '') (\<lambda>_ s.
           Inr (user_of (UserID actor) s \<noteq> None))) verdict)
      else verdict False)"

definition withAuditTarget ::
    "string \<Rightarrow> Actor \<Rightarrow> AuditEvent \<Rightarrow> (time \<Rightarrow> ('z registry_scheme, string) db) \<Rightarrow> ('z registry_scheme, unit) db" where
  "withAuditTarget accountID actor ev mutate =
     db_bind (db_lift (validateAuditInput accountID actor ev)) (\<lambda>metadata.
     db_txm ''begin audited mutation: '' (\<lambda>now.
       db_bind (authorizeAuditActor accountID actor) (\<lambda>_.
       db_bind (db_try (mutate now)) (\<lambda>r.
       case r of
         Inl err \<Rightarrow>
           if errors_Is err errAuditNoMutation then db_return (''commit audited no-op: '', ()) else db_fail err
       | Inr target \<Rightarrow>
           (let ev' = ev\<lparr>TargetID := target\<rparr> in
            db_bind (db_lift (validateAuditInput accountID actor ev')) (\<lambda>_.
            db_bind (db_write (Wrapf ''insert audit event: '') (\<lambda>_. insert_audit accountID actor ev' metadata now)) (\<lambda>_.
            db_return (''commit audited mutation: '', ()))))))))"

definition WithAudit ::
    "string \<Rightarrow> Actor \<Rightarrow> AuditEvent \<Rightarrow> (time \<Rightarrow> ('z registry_scheme, unit) db) \<Rightarrow> ('z registry_scheme, unit) db" where
  "WithAudit accountID actor ev mutate =
     withAuditTarget accountID actor ev (\<lambda>now. db_bind (mutate now) (\<lambda>_. db_return (TargetID ev)))"

abbreviation success_event :: "string \<Rightarrow> string \<Rightarrow> string \<Rightarrow> string \<Rightarrow> (string, string) gomap \<Rightarrow> AuditEvent" where
  "success_event action ttype target requestID m \<equiv>
     \<lparr>Action = action, TargetType = ttype, TargetID = target, Outcome = ''success'', RequestID = requestID, Metadata = m\<rparr>"

definition set_min_severity :: "string \<Rightarrow> string \<Rightarrow> time \<Rightarrow> registry \<Rightarrow> nat result \<times> registry" where
  "set_min_severity accountID severity now s =
     (let P = (\<lambda>a. a_ID a = accountID \<and> a_MinSeverity a \<noteq> severity) in
      (Inr (count_where P (accounts s)),
       s\<lparr>accounts := update_where P (\<lambda>a. a\<lparr>a_MinSeverity := severity, a_UpdatedAt := now\<rparr>) (accounts s)\<rparr>))"

definition SetMinSeverityAudited :: "string \<Rightarrow> string \<Rightarrow> Actor \<Rightarrow> string \<Rightarrow> (registry, unit) db" where
  "SetMinSeverityAudited accountID severity actor requestID =
     (if \<not> ValidMinSeverity severity then db_fail (Errorf (''invalid minimum severity '' @ quoted severity))
      else
        WithAudit accountID actor (success_event ''account.min_severity.update'' ''account'' accountID requestID [])
          (\<lambda>now.
            db_bind (db_stmt (Wrapf ''set minimum severity: '') (\<lambda>_. set_min_severity accountID severity now)) (\<lambda>n.
            if n = 0 then
              db_bind (db_read (Wrapf ''check minimum severity target: '') (\<lambda>_ s. Inr (account_of accountID s \<noteq> None))) (\<lambda>exists.
              if \<not> exists then db_fail ErrNotFound else db_fail errAuditNoMutation)
            else db_return ())))"

definition auditRepositoryTarget :: "string \<Rightarrow> string" where
  "auditRepositoryTarget repository =
     (if repository \<noteq> [] \<and> repository = TrimSpace repository \<and> length repository \<le> maxAuditTargetIDChars
      then repository else ''sha256:'' @ sha256_hex repository)"

section \<open>Identifiers\<close>

text \<open>A random identifier of version 4: the bytes are an argument, \<open>Inl\<close> is an error of the generator.\<close>

unbundle bit_operations_syntax

definition newAuditUUID :: "byte list result \<Rightarrow> string result" where
  "newAuditUUID random =
     (case random of
        Inl err \<Rightarrow> Inl err
      | Inr raw \<Rightarrow>
          (let raw = raw[6 := (raw ! 6 AND 0x0f) OR 0x40, 8 := (raw ! 8 AND 0x3f) OR 0x80]; h = hex_encode raw in
           Inr (take 8 h @ ''-'' @ take 4 (drop 8 h) @ ''-'' @ take 4 (drop 12 h) @ ''-'' @
                take 4 (drop 16 h) @ ''-'' @ drop 20 h)))"

end
