(* ===== verification/Membership.thy ===== *)
theory Membership
  imports Audit_Log
begin

text \<open>
  Membership of accounts: the reads and the audited mutations of \<open>pkg/data/postgres/account.go\<close>,
  and the audited account name of \<open>audit.go\<close>. A mutation locks the account, checks that it is
  active, decides under the lock, and commits its change with one audit event; a mutation that
  changes nothing commits without one.

  The order of texts is that of their bytes. The transactions run one at a time, so a row lock is
  the read of the row.
\<close>

section \<open>Reads\<close>

definition GetAccount :: "string \<Rightarrow> (registry, Account) db" where
  "GetAccount accountID =
     db_read (Wrapf ''get account: '') (\<lambda>_ s.
       case account_of accountID s of None \<Rightarrow> Inl ErrNotFound | Some a \<Rightarrow> Inr (scanAccount a))"

definition GetUser :: "string \<Rightarrow> (registry, User) db" where
  "GetUser userID =
     db_read (Wrapf ''get user: '') (\<lambda>_ s.
       case user_of userID s of None \<Rightarrow> Inl ErrNotFound | Some u \<Rightarrow> Inr (scanUser u))"

text \<open>The joins of \<open>accessSelect\<close>.\<close>

definition scanAccess :: "registry \<Rightarrow> Membership \<Rightarrow> Access option" where
  "scanAccess s m =
     (case (user_of (m_UserID m) s, account_of (m_AccountID m) s) of
        (Some u, Some a) \<Rightarrow> Some \<lparr>access_Actor = scanUser u, access_Account = scanAccount a, access_Membership = m\<rparr>
      | _ \<Rightarrow> None)"

definition accessSelect :: "registry \<Rightarrow> Access list" where
  "accessSelect s = List.map_filter (scanAccess s) (members s)"

definition access_live :: "Access \<Rightarrow> bool" where
  "access_live x =
     (u_Status (access_Actor x) = ''active'' \<and> a_Status (access_Account x) = ''active'' \<and>
      m_RevokedAt (access_Membership x) = None)"

definition ListUserAccounts :: "string \<Rightarrow> (registry, Access list) db" where
  "ListUserAccounts userID =
     db_read (Wrapf ''list user accounts: '') (\<lambda>_ s.
       Inr (sort_key (\<lambda>x. (ToLower (a_Name (access_Account x)), a_ID (access_Account x)))
         (filter (\<lambda>x. u_ID (access_Actor x) = userID \<and> access_live x) (accessSelect s))))"

definition GetAccess :: "string \<Rightarrow> string \<Rightarrow> (registry, Access) db" where
  "GetAccess userID accountID =
     db_read (Wrapf ''get access: '') (\<lambda>_ s.
       case List.find (\<lambda>x. u_ID (access_Actor x) = userID \<and> a_ID (access_Account x) = accountID \<and> access_live x) (accessSelect s) of
         None \<Rightarrow> Inl ErrNotFound
       | Some x \<Rightarrow> Inr x)"

definition ListMembers :: "string \<Rightarrow> (registry, Access list) db" where
  "ListMembers accountID =
     db_read (Wrapf ''list account members: '') (\<lambda>_ s.
       Inr (sort_key (\<lambda>x. (ToLower (u_Email (access_Actor x)), u_ID (access_Actor x)))
         (filter (\<lambda>x. a_ID (access_Account x) = accountID \<and> m_RevokedAt (access_Membership x) = None) (accessSelect s))))"

section \<open>Decisions under the account lock\<close>

text \<open>\<open>sql.ErrNoRows\<close>.\<close>

abbreviation no_rows :: go_error where "no_rows \<equiv> Driver ''sql: no rows in result set''"

definition withLockedAccountAudit ::
    "string \<Rightarrow> Actor \<Rightarrow> AuditEvent \<Rightarrow> (time \<Rightarrow> (registry, bool) db) \<Rightarrow> (registry, unit) db" where
  "withLockedAccountAudit accountID actor ev mutate =
     db_bind (db_lift (validateAuditInput accountID actor ev)) (\<lambda>metadata.
     db_txm ''begin locked account mutation: '' (\<lambda>now.
       db_bind (db_read (Wrapf ''lock account: '') (\<lambda>_ s.
         if account_of accountID s = None then Inl ErrNotFound else Inr ())) (\<lambda>_.
       db_bind (db_read (Wrapf ''read locked account status: '') (\<lambda>_ s.
         case account_of accountID s of
           None \<Rightarrow> Inl (Wrapf ''read locked account status: '' no_rows)
         | Some a \<Rightarrow> Inr (a_Status a))) (\<lambda>status.
       if status \<noteq> ''active'' then db_fail ErrNotFound
       else
         db_bind (mutate now) (\<lambda>changed.
         if \<not> changed then db_return (''commit locked account no-op: '', ())
         else
           db_bind (db_write (Wrapf ''insert locked account audit event: '') (\<lambda>_. insert_audit accountID actor ev metadata now)) (\<lambda>_.
           db_return (''commit locked account mutation: '', ())))))))"

record membershipState =
  ms_role :: Role
  ms_userActive :: bool

definition membership_state :: "string \<Rightarrow> string \<Rightarrow> registry \<Rightarrow> membershipState option" where
  "membership_state a u s =
     (case List.find (member_live a u) (members s) of
        None \<Rightarrow> None
      | Some m \<Rightarrow> map_option (\<lambda>r. \<lparr>ms_role = m_Role m, ms_userActive = (u_Status r = ''active'')\<rparr>) (user_of u s))"

definition activeMembershipState :: "string \<Rightarrow> string \<Rightarrow> (registry, membershipState) db" where
  "activeMembershipState accountID userID =
     db_read (Wrapf ''read active membership state: '') (\<lambda>_ s.
       case membership_state accountID userID s of None \<Rightarrow> Inl ErrNotFound | Some st \<Rightarrow> Inr st)"

definition requireAdminMembership :: "string \<Rightarrow> Actor \<Rightarrow> (registry, unit) db" where
  "requireAdminMembership accountID actor =
     (if ActorKind actor \<noteq> ActorUser then db_fail ErrForbidden
      else
        db_bind (activeMembershipState accountID (UserID actor)) (\<lambda>st.
        if ms_role st \<noteq> RoleAdmin \<or> \<not> ms_userActive st then db_fail ErrForbidden else db_return ()))"

text \<open>An active administrator: what the count of administrators counts.\<close>

definition active_admin :: "registry \<Rightarrow> string \<Rightarrow> Membership \<Rightarrow> bool" where
  "active_admin s a m = (m_AccountID m = a \<and> m_Role m = RoleAdmin \<and> m_RevokedAt m = None \<and> user_active (m_UserID m) s)"

definition requireAnotherActiveAdmin :: "string \<Rightarrow> (registry, unit) db" where
  "requireAnotherActiveAdmin accountID =
     db_bind (db_read (Wrapf ''count active admins: '') (\<lambda>_ s. Inr (count_where (active_admin s accountID) (members s)))) (\<lambda>count.
     if count \<le> 1 then db_fail ErrLastAdmin else db_return ())"

definition exactlyOneRowChanged :: "nat \<Rightarrow> bool result" where
  "exactlyOneRowChanged rows = (if rows \<noteq> 1 then Inl ErrNotFound else Inr True)"

section \<open>Audited mutations of a membership\<close>

definition update_members :: "(Membership \<Rightarrow> bool) \<Rightarrow> (Membership \<Rightarrow> Membership) \<Rightarrow> registry \<Rightarrow> nat result \<times> registry" where
  "update_members P f s = (Inr (count_where P (members s)), s\<lparr>members := update_where P f (members s)\<rparr>)"

definition revoke_row :: "string \<Rightarrow> time \<Rightarrow> Membership \<Rightarrow> Membership" where
  "revoke_row u now m = m\<lparr>m_RevokedAt := Some now, m_RevokedByUserID := Some u, m_UpdatedAt := now\<rparr>"

definition change_role :: "string \<Rightarrow> string \<Rightarrow> Role \<Rightarrow> Actor \<Rightarrow> time \<Rightarrow> (registry, bool) db" where
  "change_role accountID targetUserID role actor now =
     db_bind (requireAdminMembership accountID actor) (\<lambda>_.
     db_bind (activeMembershipState accountID targetUserID) (\<lambda>st.
     if ms_role st = role then db_return False
     else
       db_bind (if ms_role st = RoleAdmin \<and> ms_userActive st \<and> role \<noteq> RoleAdmin
         then requireAnotherActiveAdmin accountID else db_return ()) (\<lambda>_.
       db_bind (db_stmt (Wrapf ''change member role: '') (\<lambda>_.
         update_members (member_live accountID targetUserID) (\<lambda>m. m\<lparr>m_Role := role, m_UpdatedAt := now\<rparr>))) (\<lambda>rows.
       db_lift (exactlyOneRowChanged rows)))))"

definition ChangeMemberRoleAudited :: "string \<Rightarrow> string \<Rightarrow> Role \<Rightarrow> Actor \<Rightarrow> string \<Rightarrow> (registry, unit) db" where
  "ChangeMemberRoleAudited accountID targetUserID role actor requestID =
     (if \<not> Role_Valid role then db_fail (Errorf (''invalid account role '' @ quoted role))
      else withLockedAccountAudit accountID actor
        (success_event ''membership.role_change'' ''membership'' targetUserID requestID [(''role'', role)])
        (change_role accountID targetUserID role actor))"

definition revoke_member :: "string \<Rightarrow> string \<Rightarrow> Actor \<Rightarrow> time \<Rightarrow> (registry, bool) db" where
  "revoke_member accountID targetUserID actor now =
     db_bind (requireAdminMembership accountID actor) (\<lambda>_.
     db_bind (activeMembershipState accountID targetUserID) (\<lambda>st.
     db_bind (if ms_role st = RoleAdmin \<and> ms_userActive st then requireAnotherActiveAdmin accountID else db_return ()) (\<lambda>_.
     db_bind (db_stmt (Wrapf ''revoke membership: '') (\<lambda>_.
       update_members (member_live accountID targetUserID) (revoke_row (UserID actor) now))) (\<lambda>rows.
     db_lift (exactlyOneRowChanged rows)))))"

definition RevokeMembershipAudited :: "string \<Rightarrow> string \<Rightarrow> Actor \<Rightarrow> string \<Rightarrow> (registry, unit) db" where
  "RevokeMembershipAudited accountID targetUserID actor requestID =
     withLockedAccountAudit accountID actor
       (success_event ''membership.revoke'' ''membership'' targetUserID requestID [])
       (revoke_member accountID targetUserID actor)"

definition leave_account :: "string \<Rightarrow> Actor \<Rightarrow> time \<Rightarrow> (registry, bool) db" where
  "leave_account accountID actor now =
     (if ActorKind actor \<noteq> ActorUser then db_fail ErrForbidden
      else
        db_bind (activeMembershipState accountID (UserID actor)) (\<lambda>st.
        if \<not> ms_userActive st then db_fail ErrForbidden
        else
          db_bind (if ms_role st = RoleAdmin then requireAnotherActiveAdmin accountID else db_return ()) (\<lambda>_.
          db_bind (db_stmt (Wrapf ''leave account: '') (\<lambda>_.
            update_members (member_live accountID (UserID actor)) (revoke_row (UserID actor) now))) (\<lambda>rows.
          db_lift (exactlyOneRowChanged rows)))))"

definition LeaveAccountAudited :: "string \<Rightarrow> Actor \<Rightarrow> string \<Rightarrow> (registry, unit) db" where
  "LeaveAccountAudited accountID actor requestID =
     withLockedAccountAudit accountID actor
       (success_event ''membership.leave'' ''membership'' (UserID actor) requestID [])
       (leave_account accountID actor)"

section \<open>The account name\<close>

definition set_name :: "string \<Rightarrow> string \<Rightarrow> time \<Rightarrow> registry \<Rightarrow> nat result \<times> registry" where
  "set_name accountID name now s =
     (let P = (\<lambda>a. a_ID a = accountID \<and> a_Name a \<noteq> name) in
      (Inr (count_where P (accounts s)),
       s\<lparr>accounts := update_where P (\<lambda>a. a\<lparr>a_Name := name, a_UpdatedAt := now\<rparr>) (accounts s)\<rparr>))"

definition updateAccountName :: "string \<Rightarrow> string \<Rightarrow> time \<Rightarrow> (registry, bool) db" where
  "updateAccountName accountID name now =
     db_bind (db_stmt (Wrapf ''update account name: '') (\<lambda>_. set_name accountID name now)) (\<lambda>n.
     if n = 0 then
       db_bind (db_read (Wrapf ''check account name target: '') (\<lambda>_ s. Inr (account_of accountID s \<noteq> None))) (\<lambda>exists.
       if \<not> exists then db_fail ErrNotFound else db_return False)
     else db_return True)"

definition UpdateAccountNameAudited :: "string \<Rightarrow> string \<Rightarrow> Actor \<Rightarrow> string \<Rightarrow> (registry, unit) db" where
  "UpdateAccountNameAudited accountID name actor requestID =
     (if name = [] \<or> name \<noteq> TrimSpace name \<or> length name > 80 then db_fail (Errorf ''invalid account name'')
      else
        withLockedAccountAudit accountID actor (success_event ''account.name.update'' ''account'' accountID requestID [])
          (\<lambda>now. db_bind (requireAdminMembership accountID actor) (\<lambda>_. updateAccountName accountID name now)))"

section \<open>Administrators\<close>

definition is_admin :: "registry \<Rightarrow> string \<Rightarrow> string \<Rightarrow> bool" where
  "is_admin s a u = list_ex (\<lambda>m. active_admin s a m \<and> m_UserID m = u) (members s)"

definition has_admin :: "registry \<Rightarrow> string \<Rightarrow> bool" where
  "has_admin s a = list_ex (active_admin s a) (members s)"

definition keeps_admins :: "registry \<Rightarrow> registry \<Rightarrow> bool" where
  "keeps_admins s s' = (\<forall>a. has_admin s a \<longrightarrow> has_admin s' a)"

abbreviation member_keys :: "registry \<Rightarrow> (string \<times> string) list" where
  "member_keys s \<equiv> map member_key (members s)"

lemma user_active_cong: "users s' = users s \<Longrightarrow> user_active u s' = user_active u s"
  by (simp add: user_active_def user_of_def)

lemma active_admin_cong: "users s' = users s \<Longrightarrow> active_admin s' a m = active_admin s a m"
  by (simp add: active_admin_def user_active_def user_of_def)

lemma keeps_admins_same: "members s' = members s \<Longrightarrow> users s' = users s \<Longrightarrow> keeps_admins s s'"
  using active_admin_cong [of s' s] by (simp add: keeps_admins_def has_admin_def list_ex_iff)

lemma same_member: "distinct (member_keys s) \<Longrightarrow> m \<in> set (members s) \<Longrightarrow> m' \<in> set (members s) \<Longrightarrow> member_key m = member_key m' \<Longrightarrow> m = m'"
  by (meson distinct_map inj_onD)

lemma membership_state_Some:
  assumes "membership_state a u s = Some st"
  obtains m where "m \<in> set (members s)" and "member_live a u m" and "ms_role st = m_Role m" and "ms_userActive st = user_active u s"
  using assms that by (auto simp: membership_state_def user_active_def find_Some_iff split: option.splits dest: nth_mem)

lemma activeMembershipState_Inr:
  "activeMembershipState a u e n s = (Inr st, n', s') \<longleftrightarrow> fault e n = None \<and> n' = Suc n \<and> s' = s \<and> membership_state a u s = Some st"
  by (auto simp: activeMembershipState_def db_read_Inr split: option.splits)

lemma requireAdminMembership_Inr:
  assumes "requireAdminMembership a actor e n s = (Inr x, n', s')"
  shows "s' = s" and "ActorKind actor = ActorUser" and "is_admin s a (UserID actor)"
proof -
  from assms obtain st where st: "s' = s" "ActorKind actor = ActorUser" "membership_state a (UserID actor) s = Some st"
      "ms_role st = RoleAdmin" "ms_userActive st"
    by (auto simp: requireAdminMembership_def db_Inr activeMembershipState_Inr split: if_splits)
  then show "s' = s" "ActorKind actor = ActorUser" by simp_all
  from st(3) show "is_admin s a (UserID actor)"
    by (rule membership_state_Some) (use st in \<open>auto simp: is_admin_def list_ex_iff active_admin_def member_live_def\<close>)
qed

lemma requireAnotherActiveAdmin_Inr:
  "requireAnotherActiveAdmin a e n s = (Inr x, n', s') \<Longrightarrow> s' = s \<and> count_where (active_admin s a) (members s) > 1"
  by (auto simp: requireAnotherActiveAdmin_def db_Inr split: if_splits)

lemma other_admin:
  assumes "distinct (member_keys s)" and "count_where (active_admin s a) (members s) > 1"
  shows "\<exists>m \<in> set (members s). active_admin s a m \<and> m_UserID m \<noteq> u"
proof -
  let ?xs = "filter (active_admin s a) (members s)"
  have d: "distinct ?xs" using assms(1) by (simp add: distinct_map)
  have "card (set ?xs) > 1" using assms(2) distinct_card [OF d] by (simp add: count_where_def)
  then obtain x y where xy: "x \<in> set ?xs" "y \<in> set ?xs" "x \<noteq> y"
    using card_le_Suc0_iff_eq [of "set ?xs"] by auto
  then have "m_UserID x \<noteq> m_UserID y" using same_member [OF assms(1)] by (auto simp: active_admin_def)
  then show ?thesis using xy by auto
qed

text \<open>A change of one membership, of an administrator only when there is another, leaves every
  account with an administrator that had one.\<close>

lemma update_member_keeps_admins:
  assumes d: "distinct (member_keys s)" and st: "membership_state a u s = Some st"
    and guard: "ms_role st = RoleAdmin \<and> ms_userActive st \<Longrightarrow>
      count_where (active_admin s a) (members s) > 1 \<or> (\<forall>m. active_admin s a m \<longrightarrow> active_admin s a (f m))"
  shows "keeps_admins s (s\<lparr>members := update_where (member_live a u) f (members s)\<rparr>)"
  unfolding keeps_admins_def
proof (intro allI impI)
  fix b assume "has_admin s b"
  then obtain m where m: "m \<in> set (members s)" "active_admin s b m" by (auto simp: has_admin_def list_ex_iff)
  let ?s' = "s\<lparr>members := update_where (member_live a u) f (members s)\<rparr>"
  have stays: "has_admin ?s' b" if "x \<in> set (members s)" "active_admin s b x" "\<not> member_live a u x" for x
    using that by (auto simp: has_admin_def list_ex_iff set_update_where active_admin_cong [where s' = ?s' and s = s] intro!: bexI [of _ x])
  show "has_admin ?s' b"
  proof (cases "member_live a u m")
    case False
    with m show ?thesis by (rule stays)
  next
    case True
    with m have b: "b = a" and act: "user_active u s" and role: "m_Role m = RoleAdmin" by (auto simp: active_admin_def member_live_def)
    obtain m' where "m' \<in> set (members s)" "member_live a u m'" and r: "ms_role st = m_Role m'" "ms_userActive st = user_active u s"
      using st by (rule membership_state_Some)
    with True m(1) d have "m' = m" using same_member by (auto simp: member_live_def)
    with r role act guard consider "count_where (active_admin s a) (members s) > 1" | "\<forall>m. active_admin s a m \<longrightarrow> active_admin s a (f m)" by auto
    then show ?thesis
    proof cases
      case 1
      from other_admin [OF d 1, of u] show ?thesis using stays b by (auto simp: member_live_def)
    next
      case 2
      have "f m \<in> set (members ?s')" using m True by (auto simp: set_update_where)
      with 2 m b show ?thesis
        unfolding has_admin_def list_ex_iff by (auto simp: active_admin_cong [where s' = ?s' and s = s])
    qed
  qed
qed

section \<open>The contract of a locked mutation\<close>

text \<open>A mutation under the account lock says whether it changed anything: then it had the effect it
  promises and left the audit log alone; otherwise the registry is as it was.\<close>

locale locked_mutation =
  fixes a :: string and actor :: Actor and ev :: AuditEvent
    and mutate :: "time \<Rightarrow> (registry, bool) db" and effect :: "time \<Rightarrow> registry \<Rightarrow> registry \<Rightarrow> bool"
  assumes changes: "mutate now e n s = (Inr True, n', s') \<Longrightarrow> effect now s s' \<and> audit s' = audit s"
    and no_change: "mutate now e n s = (Inr False, n', s') \<Longrightarrow> s' = s"
begin

text \<open>Run with its audit event it changes nothing, or the account was active and the effect and one
  event, valid and of the transaction's time, were committed.\<close>

lemma locked_run:
  assumes "withLockedAccountAudit a actor ev mutate e n s = (r, n', s')"
  shows "s' = s \<or> (r = Inr () \<and> account_active a s \<and>
    (\<exists>s1 metadata. effect (clock e n) s s1 \<and> audit s1 = audit s \<and> validateAuditInput a actor ev = Inr metadata \<and>
       s' = insert_audit a actor ev metadata (clock e n) s1))"
proof (cases r)
  case (Inl err)
  then show ?thesis using assms
    by (auto simp: withLockedAccountAudit_def db_bind_def db_lift_def split: prod.splits sum.splits dest: db_txm_Inl)
next
  case (Inr u)
  with assms obtain metadata k1 k2 s1 changed where v: "validateAuditInput a actor ev = Inr metadata" "account_active a s"
    and m: "mutate (clock e n) e k1 s = (Inr changed, k2, s1)"
    and s': "s' = (if changed then insert_audit a actor ev metadata (clock e n) s1 else s1)"
    by (fastforce simp: withLockedAccountAudit_def db_Inr db_txm_Inr account_active_def split: if_splits option.splits)
  show ?thesis
  proof (cases changed)
    case True
    then have "effect (clock e n) s s1 \<and> audit s1 = audit s" using changes [of "clock e n" e k1 s k2 s1] m by simp
    with True s' v Inr show ?thesis by auto
  next
    case False
    then have "s1 = s" using no_change [of "clock e n" e k1 s k2 s1] m by simp
    with False s' show ?thesis by auto
  qed
qed

end

text \<open>The effect on a membership: an active administrator, or the member itself when it leaves,
  rewrites the live row of the target, and every account keeps its administrators.\<close>

definition member_effect ::
    "(registry \<Rightarrow> bool) \<Rightarrow> string \<Rightarrow> string \<Rightarrow> (time \<Rightarrow> Membership \<Rightarrow> Membership) \<Rightarrow> time \<Rightarrow> registry \<Rightarrow> registry \<Rightarrow> bool" where
  "member_effect allowed a u f now s s' \<longleftrightarrow>
     allowed s \<and> s' = s\<lparr>members := update_where (member_live a u) (f now) (members s)\<rparr> \<and>
     (distinct (member_keys s) \<longrightarrow> keeps_admins s s')"

abbreviation by_admin :: "string \<Rightarrow> Actor \<Rightarrow> registry \<Rightarrow> bool" where
  "by_admin a actor s \<equiv> ActorKind actor = ActorUser \<and> is_admin s a (UserID actor)"

definition by_member :: "string \<Rightarrow> Actor \<Rightarrow> registry \<Rightarrow> bool" where
  "by_member a actor s =
     (ActorKind actor = ActorUser \<and> user_active (UserID actor) s \<and> list_ex (member_live a (UserID actor)) (members s))"

lemma change_role_effect:
  assumes "change_role a u role actor now e n s = (Inr b, n', s')"
  shows "if b then member_effect (by_admin a actor) a u (\<lambda>now m. m\<lparr>m_Role := role, m_UpdatedAt := now\<rparr>) now s s' else s' = s"
proof -
  let ?f = "\<lambda>m. m\<lparr>m_Role := role, m_UpdatedAt := now\<rparr>"
  from assms obtain n1 st where adm: "requireAdminMembership a actor e n s = (Inr (), n1, s)" and st: "membership_state a u s = Some st"
    and rest: "\<not> b \<longrightarrow> s' = s" "b \<longrightarrow> s' = s\<lparr>members := update_where (member_live a u) ?f (members s)\<rparr>"
      "b \<longrightarrow> ms_role st \<noteq> role" "b \<longrightarrow> ms_role st = RoleAdmin \<and> ms_userActive st \<and> role \<noteq> RoleAdmin \<longrightarrow> count_where (active_admin s a) (members s) > 1"
    by (auto simp: change_role_def db_Inr activeMembershipState_Inr update_members_def exactlyOneRowChanged_def
        split: if_splits dest: requireAdminMembership_Inr(1) dest!: requireAnotherActiveAdmin_Inr)
  have "keeps_admins s s'" if b "distinct (member_keys s)"
    using update_member_keeps_admins [OF that(2) st, of ?f] rest that(1) by auto
  with rest requireAdminMembership_Inr [OF adm] show ?thesis by (simp add: member_effect_def)
qed

lemma revoke_member_effect:
  assumes "revoke_member a u actor now e n s = (Inr b, n', s')"
  shows "b \<and> member_effect (by_admin a actor) a u (revoke_row (UserID actor)) now s s'"
proof -
  from assms obtain n1 st where adm: "requireAdminMembership a actor e n s = (Inr (), n1, s)" and st: "membership_state a u s = Some st"
    and rest: "b" "s' = s\<lparr>members := update_where (member_live a u) (revoke_row (UserID actor) now) (members s)\<rparr>"
      "ms_role st = RoleAdmin \<and> ms_userActive st \<longrightarrow> count_where (active_admin s a) (members s) > 1"
    by (auto simp: revoke_member_def db_Inr activeMembershipState_Inr update_members_def exactlyOneRowChanged_def
        split: if_splits dest: requireAdminMembership_Inr(1) dest!: requireAnotherActiveAdmin_Inr)
  have "keeps_admins s s'" if "distinct (member_keys s)"
    using update_member_keeps_admins [OF that st] rest by auto
  with rest requireAdminMembership_Inr [OF adm] show ?thesis by (simp add: member_effect_def)
qed

lemma leave_account_effect:
  assumes "leave_account a actor now e n s = (Inr b, n', s')"
  shows "b \<and> member_effect (by_member a actor) a (UserID actor) (revoke_row (UserID actor)) now s s'"
proof -
  from assms obtain st where st: "membership_state a (UserID actor) s = Some st" "ms_userActive st" and "ActorKind actor = ActorUser"
    and rest: "b" "s' = s\<lparr>members := update_where (member_live a (UserID actor)) (revoke_row (UserID actor) now) (members s)\<rparr>"
      "ms_role st = RoleAdmin \<longrightarrow> count_where (active_admin s a) (members s) > 1"
    by (auto simp: leave_account_def db_Inr activeMembershipState_Inr update_members_def exactlyOneRowChanged_def
        split: if_splits dest!: requireAnotherActiveAdmin_Inr)
  have "by_member a actor s" using st(1)
    by (rule membership_state_Some) (use st(2) \<open>ActorKind actor = ActorUser\<close> in \<open>auto simp: by_member_def list_ex_iff\<close>)
  moreover have "keeps_admins s s'" if "distinct (member_keys s)"
    using update_member_keeps_admins [OF that st(1)] rest by auto
  ultimately show ?thesis using rest by (simp add: member_effect_def)
qed

lemma member_effect_audit: "member_effect P a u f now s s' \<Longrightarrow> audit s' = audit s"
  by (simp add: member_effect_def)

interpretation role_change: locked_mutation a actor ev "change_role a u role actor"
    "member_effect (by_admin a actor) a u (\<lambda>now m. m\<lparr>m_Role := role, m_UpdatedAt := now\<rparr>)"
  for a u role actor ev
  by unfold_locales (auto dest!: change_role_effect intro: member_effect_audit)

interpretation revocation: locked_mutation a actor ev "revoke_member a u actor"
    "member_effect (by_admin a actor) a u (revoke_row (UserID actor))"
  for a u actor ev
  by unfold_locales (auto dest!: revoke_member_effect intro: member_effect_audit)

interpretation leaving: locked_mutation a actor ev "leave_account a actor"
    "member_effect (by_member a actor) a (UserID actor) (revoke_row (UserID actor))"
  for a actor ev
  by unfold_locales (auto dest!: leave_account_effect intro: member_effect_audit)

definition name_effect :: "string \<Rightarrow> Actor \<Rightarrow> string \<Rightarrow> time \<Rightarrow> registry \<Rightarrow> registry \<Rightarrow> bool" where
  "name_effect a actor name now s s' = (by_admin a actor s \<and> s' = snd (set_name a name now s))"

lemma update_where_none: "count_where P rs = 0 \<Longrightarrow> update_where P f rs = rs"
  by (induction rs) (auto simp: count_where_def update_where_def split: if_splits)

lemma set_name_none: "count_where (\<lambda>r. a_ID r = a \<and> a_Name r \<noteq> name) (accounts s) = 0 \<Longrightarrow> snd (set_name a name now s) = s"
  by (simp add: set_name_def Let_def update_where_none)

lemma update_name_effect:
  assumes "db_bind (requireAdminMembership a actor) (\<lambda>_. updateAccountName a name now) e n s = (Inr b, n', s')"
  shows "if b then name_effect a actor name now s s' else s' = s"
  using assms
  by (auto simp: name_effect_def updateAccountName_def db_Inr set_name_def Let_def update_where_none
      split: if_splits dest: requireAdminMembership_Inr)

interpretation naming: locked_mutation a actor ev
    "\<lambda>now. db_bind (requireAdminMembership a actor) (\<lambda>_. updateAccountName a name now)" "name_effect a actor name"
  for a actor ev name
  by unfold_locales (auto dest!: update_name_effect simp: name_effect_def set_name_def Let_def)

end
