(* ===== verification/Rate_Limit.thy ===== *)
theory Rate_Limit
  imports Account_Tables
begin

text \<open>
  The durable fixed-window rate limiter: \<open>pkg/ratelimit/ratelimit.go\<close> over the table of migration
  018. A hit increments the counter of its key in the window of the database clock; it is admitted
  when the counter is within the limit. \<open>now_of\<close> gives the \<open>now()\<close> of a statement from the clock that
  reads when it runs: the start of the transaction inside of one, that clock outside.
\<close>

definition window_secs :: "duration \<Rightarrow> int" where
  "window_secs window = (let secs = window div 1000000000 in if secs \<le> 0 then 1 else secs)"

definition window_start :: "int \<Rightarrow> time \<Rightarrow> time" where
  "window_start secs t = t div seconds secs * seconds secs"

abbreviation rate_key :: "rate_row \<Rightarrow> string \<times> time" where
  "rate_key r \<equiv> (rt_key r, rt_window r)"

definition bump :: "string \<Rightarrow> time \<Rightarrow> rate_row list \<Rightarrow> rate_row list" where
  "bump key w rs =
     upsert rate_key (\<lambda>r. r\<lparr>rt_count := rt_count r + 1\<rparr>) \<lparr>rt_key = key, rt_window = w, rt_count = 1\<rparr> rs"

definition hits :: "string \<Rightarrow> time \<Rightarrow> rate_row list \<Rightarrow> int" where
  "hits key w rs = (case lookup_key rate_key rs (key, w) of None \<Rightarrow> 0 | Some r \<Rightarrow> rt_count r)"

definition Allow :: "(time \<Rightarrow> time) \<Rightarrow> string \<Rightarrow> int \<Rightarrow> duration \<Rightarrow> (registry, bool) db" where
  "Allow now_of key limit window =
     (if limit \<le> 0 then db_return True
      else
        db_bind (db_stmt (Wrapf ''rate limit check: '') (\<lambda>clk s.
          let w = window_start (window_secs window) (now_of clk); rs = bump key w (rates s) in
          (Inr (hits key w rs), s\<lparr>rates := rs\<rparr>))) (\<lambda>count.
        db_return (count \<le> limit)))"

definition Prune :: "duration \<Rightarrow> (registry, unit) db" where
  "Prune olderThan =
     db_write (Wrapf ''prune rate events: '') (\<lambda>now s.
       s\<lparr>rates := filter (\<lambda>r. \<not> rt_window r < now - seconds (window_secs olderThan)) (rates s)\<rparr>)"

lemma hits_bump: "hits key w (bump key' w' rs) = (if key = key' \<and> w = w' then hits key w rs + 1 else hits key w rs)"
  unfolding hits_def bump_def by (subst lookup_key_upsert_keep) (auto split: option.splits)

section \<open>Hits of a window\<close>

text \<open>Hits of several keys one after the other, and the key and window each of them falls in.\<close>

fun hit_all :: "int \<Rightarrow> duration \<Rightarrow> string list \<Rightarrow> (registry, bool list) db" where
  "hit_all limit window [] = db_return []"
| "hit_all limit window (k # ks) =
     db_bind (Allow (\<lambda>t. t) k limit window) (\<lambda>b. db_bind (hit_all limit window ks) (\<lambda>bs. db_return (b # bs)))"

fun windows :: "env \<Rightarrow> nat \<Rightarrow> int \<Rightarrow> string list \<Rightarrow> (string \<times> time) list" where
  "windows e n secs [] = []"
| "windows e n secs (k # ks) = (k, window_start secs (clock e n)) # windows e (Suc n) secs ks"

definition admitted :: "string \<times> time \<Rightarrow> (string \<times> time) list \<Rightarrow> bool list \<Rightarrow> nat" where
  "admitted kw hs bs = count_where (\<lambda>(h, b). h = kw \<and> b) (zip hs bs)"

lemma Allow_Inr:
  assumes "limit > 0"
  shows "Allow now_of key limit window e n s = (Inr b, n', s') \<longleftrightarrow>
    fault e n = None \<and> n' = Suc n \<and>
    (let w = window_start (window_secs window) (now_of (clock e n)) in
     b = (hits key w (rates s) + 1 \<le> limit) \<and> s' = s\<lparr>rates := bump key w (rates s)\<rparr>)"
  using assms by (auto simp: Allow_def db_Inr Let_def hits_bump)

text \<open>
  The rate limiter admits exactly the first \<open>limit\<close> hits of a key in a window: whatever hits of other
  keys come between, the hits admitted are the least of their number and of what the limit leaves
  over the hits already counted.
\<close>

theorem Allow_admits_exactly:
  assumes "limit > 0" and "hit_all limit window ks e n s = (Inr bs, n', s')"
  shows "length bs = length ks \<and> int (admitted (k, w) (windows e n (window_secs window) ks) bs) =
    min (int (count_where ((=) (k, w)) (windows e n (window_secs window) ks))) (max 0 (limit - hits k w (rates s)))"
  using assms(2)
proof (induction ks arbitrary: n s bs)
  case Nil
  then show ?case by (simp add: admitted_def count_where_def)
next
  case (Cons k' ks)
  let ?w = "window_start (window_secs window) (clock e n)"
  from Cons.prems obtain bs' where
    bs: "bs = (hits k' ?w (rates s) + 1 \<le> limit) # bs'" and
    rest: "hit_all limit window ks e (Suc n) (s\<lparr>rates := bump k' ?w (rates s)\<rparr>) = (Inr bs', n', s')"
    by (auto simp: db_bind_Inr Allow_Inr [OF assms(1)] Let_def)
  from Cons.IH [OF rest] show ?case
    by (auto simp: bs admitted_def count_where_def hits_bump)
qed

theorem Allow_admits_exactly_witness:
  "int (admitted (''k'', 0) (windows (calm_env 0) 0 3600 [''k'', ''j'', ''k'', ''k''])
     [True, True, True, False]) = 2"
proof -
  have "\<exists>n' s'. hit_all 2 3600000000000 [''k'', ''j'', ''k'', ''k''] (calm_env 0) 0 empty_registry = (Inr [True, True, True, False], n', s')"
    by (simp add: db_bind_def Allow_def db_stmt_def Let_def bump_def hits_def empty_registry_def window_secs_def window_start_def)
  then show ?thesis
    using Allow_admits_exactly [of 2 3600000000000 "[''k'', ''j'', ''k'', ''k'']" "calm_env 0" 0 empty_registry
        "[True, True, True, False]" _ _ "''k''" 0]
    by (auto simp: count_where_def window_secs_def window_start_def hits_def empty_registry_def)
qed

end
