(* ===== verification/Secret_Box.thy ===== *)
theory Secret_Box
  imports Prelude
begin

text \<open>
  Encryption of small secrets: \<open>pkg/secretbox/secretbox.go\<close>. AES-256-GCM is an argument (a record of
  its two functions); the checks around it and the standard base64 encoding of its output are
  modelled. A character is a byte. The position in the error of a malformed text is left out.
\<close>

section \<open>Standard base64\<close>

definition b64_alphabet :: string where
  "b64_alphabet = ''ABCDEFGHIJKLMNOPQRSTUVWXYZabcdefghijklmnopqrstuvwxyz0123456789+/''"

definition b64_digit :: "nat \<Rightarrow> char" where
  "b64_digit i = b64_alphabet ! i"

definition b64_value :: "char \<Rightarrow> nat option" where
  "b64_value c = List.find (\<lambda>i. b64_digit i = c) [0..<64]"

text \<open>\<open>StdEncoding.EncodeToString\<close>: three bytes become four digits; the rest is padded.\<close>

fun b64_encode :: "nat list \<Rightarrow> string" where
  "b64_encode [] = []"
| "b64_encode [a] = [b64_digit (a div 4), b64_digit (a mod 4 * 16), CHR ''='', CHR ''='']"
| "b64_encode [a, b] =
     [b64_digit (a div 4), b64_digit (a mod 4 * 16 + b div 16), b64_digit (b mod 16 * 4), CHR ''='']"
| "b64_encode (a # b # c # bs) =
     b64_digit (a div 4) # b64_digit (a mod 4 * 16 + b div 16) # b64_digit (b mod 16 * 4 + c div 64) #
     b64_digit (c mod 64) # b64_encode bs"

definition byte1 :: "nat \<Rightarrow> nat \<Rightarrow> nat" where "byte1 w x = w * 4 + x div 16"
definition byte2 :: "nat \<Rightarrow> nat \<Rightarrow> nat" where "byte2 x y = x mod 16 * 16 + y div 4"
definition byte3 :: "nat \<Rightarrow> nat \<Rightarrow> nat" where "byte3 y z = y mod 4 * 64 + z"

text \<open>\<open>StdEncoding.DecodeString\<close> on a text without line breaks, which it skips.\<close>

fun b64_decode :: "string \<Rightarrow> nat list option" where
  "b64_decode [] = Some []"
| "b64_decode (w # x # y # z # rest) =
     (case (b64_value w, b64_value x) of
        (Some w', Some x') \<Rightarrow>
          (if z = CHR ''='' then
             (if rest \<noteq> [] then None
              else if y = CHR ''='' then Some [byte1 w' x']
              else case b64_value y of None \<Rightarrow> None | Some y' \<Rightarrow> Some [byte1 w' x', byte2 x' y'])
           else
             (case (b64_value y, b64_value z) of
                (Some y', Some z') \<Rightarrow>
                  map_option (\<lambda>bs. byte1 w' x' # byte2 x' y' # byte3 y' z' # bs) (b64_decode rest)
              | _ \<Rightarrow> None))
      | _ \<Rightarrow> None)"
| "b64_decode _ = None"

definition EncodeToString :: "string \<Rightarrow> string" where
  "EncodeToString s = b64_encode (map of_char s)"

definition DecodeString :: "string \<Rightarrow> string option" where
  "DecodeString s = map_option (map char_of) (b64_decode (filter (\<lambda>c. c \<noteq> CHR 0x0A \<and> c \<noteq> CHR 0x0D) s))"

section \<open>Sealing and opening\<close>

text \<open>AES-256-GCM: the key, the nonce, the text and the additional data. Opening fails when the
  ciphertext was not sealed with the same three.\<close>

record aead =
  gcm_Seal :: "string \<Rightarrow> string \<Rightarrow> string \<Rightarrow> string \<Rightarrow> string"
  gcm_Open :: "string \<Rightarrow> string \<Rightarrow> string \<Rightarrow> string \<Rightarrow> string option"

abbreviation NonceSize :: nat where "NonceSize \<equiv> 12"
abbreviation Overhead :: nat where "Overhead \<equiv> 16"

definition ciphertextPrefix :: string where "ciphertextPrefix = ''enc:''"
definition keySize :: nat where "keySize = 32"

definition newGCM :: "string \<Rightarrow> go_error option" where
  "newGCM key =
     (if length key \<noteq> keySize then Some (Errorf (''secretbox key must be exactly '' @ nat_text keySize @ '' bytes'')) else None)"

definition Seal :: "aead \<Rightarrow> string result \<Rightarrow> string \<Rightarrow> string \<Rightarrow> string \<Rightarrow> string result" where
  "Seal G random key plaintext additionalData =
     (case newGCM key of
        Some err \<Rightarrow> Inl err
      | None \<Rightarrow>
          (case random of
             Inl err \<Rightarrow> Inl (Wrapf ''generate secret nonce: '' err)
           | Inr nonce \<Rightarrow> Inr (ciphertextPrefix @ EncodeToString (nonce @ gcm_Seal G key nonce plaintext additionalData))))"

definition Open :: "aead \<Rightarrow> string \<Rightarrow> string \<Rightarrow> string \<Rightarrow> string result" where
  "Open G key stored additionalData =
     (case newGCM key of
        Some err \<Rightarrow> Inl err
      | None \<Rightarrow>
          if \<not> HasPrefix stored ciphertextPrefix then Inl (Errorf ''secretbox value is not encrypted'')
          else
            (case DecodeString (drop (length ciphertextPrefix) stored) of
               None \<Rightarrow> Inl (Wrapf ''decode secretbox value: '' (Driver ''illegal base64 data''))
             | Some sealed \<Rightarrow>
                 if length sealed < NonceSize + Overhead then Inl (Errorf ''secretbox ciphertext is too short'')
                 else
                   (case gcm_Open G key (take NonceSize sealed) (drop NonceSize sealed) additionalData of
                      None \<Rightarrow> Inl (Wrapf ''authenticate secretbox value: '' (Driver ''cipher: message authentication failed''))
                    | Some plaintext \<Rightarrow> Inr plaintext)))"

section \<open>Base64 round trip\<close>

lemma b64_value_digit: "i < 64 \<Longrightarrow> b64_value (b64_digit i) = Some i"
proof -
  have "list_all (\<lambda>i. b64_value (b64_digit i) = Some i) [0..<64]" by code_simp
  then show "i < 64 \<Longrightarrow> b64_value (b64_digit i) = Some i" by (simp add: list_all_iff)
qed

lemma b64_digit_plain: "i < 64 \<Longrightarrow> b64_digit i \<noteq> CHR ''='' \<and> b64_digit i \<noteq> CHR 0x0A \<and> b64_digit i \<noteq> CHR 0x0D"
proof -
  have "list_all (\<lambda>i. b64_digit i \<noteq> CHR ''='' \<and> b64_digit i \<noteq> CHR 0x0A \<and> b64_digit i \<noteq> CHR 0x0D) [0..<64]" by code_simp
  then show "i < 64 \<Longrightarrow> ?thesis" by (simp add: list_all_iff)
qed

lemma b64_no_breaks:
  "list_all (\<lambda>b. b < 256) bs \<Longrightarrow> filter (\<lambda>c. c \<noteq> CHR 0x0A \<and> c \<noteq> CHR 0x0D) (b64_encode bs) = b64_encode bs"
  by (induction bs rule: b64_encode.induct) (auto simp: b64_digit_plain)

lemma b64_roundtrip: "list_all (\<lambda>b. b < 256) bs \<Longrightarrow> b64_decode (b64_encode bs) = Some bs"
  by (induction bs rule: b64_encode.induct)
    (auto simp: b64_digit_plain b64_value_digit byte1_def byte2_def byte3_def)

lemma DecodeString_EncodeToString: "DecodeString (EncodeToString s) = Some s"
proof -
  have "list_all (\<lambda>b. b < 256) (map of_char s :: nat list)" by (simp add: list_all_iff)
  then show ?thesis by (simp add: DecodeString_def EncodeToString_def b64_no_breaks b64_roundtrip o_def)
qed

section \<open>Opening what was sealed\<close>

text \<open>What is documented of AES-GCM with 12-byte nonces and 16-byte tags: it opens what it sealed with the
  same key, nonce and additional data, and a sealed text is longer by the tag.\<close>

definition gcm_correct :: "aead \<Rightarrow> bool" where
  "gcm_correct G \<longleftrightarrow>
     (\<forall>key nonce p d. gcm_Open G key nonce (gcm_Seal G key nonce p d) d = Some p \<and> length (gcm_Seal G key nonce p d) = length p + Overhead)"

lemma Open_Seal:
  assumes "gcm_correct G" and "length nonce = NonceSize" and "Seal G (Inr nonce) key p d = Inr stored"
  shows "Open G key stored d = Inr p"
proof -
  from assms(3) have key: "newGCM key = None" and stored: "stored = ciphertextPrefix @ EncodeToString (nonce @ gcm_Seal G key nonce p d)"
    by (auto simp: Seal_def split: option.splits)
  have "gcm_Open G key nonce (gcm_Seal G key nonce p d) d = Some p" "length (gcm_Seal G key nonce p d) = length p + Overhead"
    using assms(1) by (auto simp: gcm_correct_def)
  then show ?thesis using assms(2) by (simp add: Open_def key stored HasPrefix_def DecodeString_EncodeToString)
qed

text \<open>A cipher of that kind, to run the model with.\<close>

definition plain_gcm :: aead where
  "plain_gcm = \<lparr>gcm_Seal = (\<lambda>key nonce p d. p @ replicate Overhead (CHR 0x00)),
     gcm_Open = (\<lambda>key nonce c d. Some (take (length c - Overhead) c))\<rparr>"

lemma gcm_correct_plain: "gcm_correct plain_gcm"
  by (simp add: gcm_correct_def plain_gcm_def)

end
