(* ===== verification/Invitation.thy ===== *)
theory Invitation
  imports Membership Rate_Limit Secret_Box Delivery
begin

text \<open>
  Invitations to an account: \<open>pkg/data/postgres/invitation.go\<close>. A pending invitation is created or
  rotated together with its encrypted outbox row and its audit event; rotating gives it a new token,
  so that older links are void. Accepting one links the identity, makes the membership and settles
  the invitation in one transaction.

  The random bytes, the cipher and \<open>mail.ParseAddress\<close> are arguments. \<open>now()\<close> is the start of the
  transaction, \<open>clock_timestamp()\<close> the clock of the statement. A statement whose result would break a
  constraint of the table fails.
\<close>

section \<open>Types\<close>

definition invitationTTL :: interval where
  "invitationTTL = hours (7 * 24)"

abbreviation InvitationDeliveryQueued :: string where "InvitationDeliveryQueued \<equiv> ''queued''"
abbreviation InvitationDeliverySent :: string where "InvitationDeliverySent \<equiv> ''sent''"
abbreviation InvitationDeliveryRetrying :: string where "InvitationDeliveryRetrying \<equiv> ''retrying''"
abbreviation InvitationDeliveryFailed :: string where "InvitationDeliveryFailed \<equiv> ''failed''"

abbreviation InvitationCreateUnchanged :: string where "InvitationCreateUnchanged \<equiv> ''unchanged''"
abbreviation InvitationCreateCreated :: string where "InvitationCreateCreated \<equiv> ''created''"
abbreviation InvitationCreateRoleChanged :: string where "InvitationCreateRoleChanged \<equiv> ''role_changed''"

record InvitationRateLimits =
  AccountPerHour :: int
  RecipientPerHour :: int

record Invitation =
  i_ID :: string
  i_AccountID :: string
  i_AccountName :: string
  i_Email :: string
  i_Role :: Role
  i_InvitedByEmail :: string
  i_DeliveryState :: string
  i_TokenVersion :: int
  i_ExpiresAt :: time
  i_AcceptedAt :: "time option"
  i_RevokedAt :: "time option"
  i_CreatedAt :: time
  i_UpdatedAt :: time
  i_expired :: bool
  i_sentRecently :: bool

text \<open>What the handlers draw at random, and the cipher.\<close>

record entropy =
  rd_uuid :: "byte list result"
  rd_token :: "byte list result"
  rd_nonce :: "string result"
  rd_aead :: aead

section \<open>The table\<close>

definition grant_pending :: "'a invitation_row_scheme \<Rightarrow> bool" where
  "grant_pending g = (in_accepted g = None \<and> in_revoked g = None)"

definition grant_checks :: "grant_row \<Rightarrow> bool" where
  "grant_checks g \<longleftrightarrow>
     in_email g = ToLower (btrim (in_email g)) \<and> 3 \<le> length (in_email g) \<and> length (in_email g) \<le> 320 \<and>
     Role_Valid (gr_role g) \<and> length (gr_hash g) = 64 \<and> set (gr_hash g) \<subseteq> set ''0123456789abcdef'' \<and>
     1 \<le> in_version g \<and> in_version g \<le> 2147483647 \<and> (in_accepted g = None \<or> in_revoked g = None) \<and>
     gr_created g < in_expires g \<and> gr_created g \<le> gr_updated g \<and>
     not_before (gr_created g) (in_accepted g) \<and> not_before (gr_created g) (in_revoked g)"

definition grants_ok :: "grant_row list \<Rightarrow> bool" where
  "grants_ok gs \<longleftrightarrow>
     list_all grant_checks gs \<and> distinct (map in_id gs) \<and> distinct (map gr_hash gs) \<and>
     distinct (map (\<lambda>g. (in_account g, in_email g)) (filter grant_pending gs))"

abbreviation constraint_violation :: go_error where "constraint_violation \<equiv> Driver ''violates constraint''"

definition put_grants :: "grant_row list \<Rightarrow> 'a \<Rightarrow> registry \<Rightarrow> 'a result \<times> registry" where
  "put_grants gs x s = (if grants_ok gs then (Inr x, s\<lparr>grants := gs\<rparr>) else (Inl constraint_violation, s))"

text \<open>The columns of \<open>invitationSelect\<close>: the account is joined, the inviter may be gone.\<close>

definition scanInvitation :: "time \<Rightarrow> registry \<Rightarrow> grant_row \<Rightarrow> Invitation option" where
  "scanInvitation clk s g =
     map_option (\<lambda>a.
       \<lparr>i_ID = in_id g, i_AccountID = in_account g, i_AccountName = a_Name a, i_Email = in_email g, i_Role = gr_role g,
        i_InvitedByEmail = (case gr_inviter g of None \<Rightarrow> [] | Some u \<Rightarrow> (case user_of u s of None \<Rightarrow> [] | Some r \<Rightarrow> u_Email r)),
        i_DeliveryState = [], i_TokenVersion = in_version g, i_ExpiresAt = in_expires g,
        i_AcceptedAt = in_accepted g, i_RevokedAt = in_revoked g, i_CreatedAt = gr_created g, i_UpdatedAt = gr_updated g,
        i_expired = (in_expires g \<le> clk), i_sentRecently = (gr_updated g > clk - seconds 60)\<rparr>)
       (account_of (in_account g) s)"

text \<open>The first row that satisfies \<open>P\<close>, as the query returns it.\<close>

definition select_invitation :: "(grant_row \<Rightarrow> bool) \<Rightarrow> time \<Rightarrow> registry \<Rightarrow> Invitation option" where
  "select_invitation P clk s = (case List.find P (grants s) of None \<Rightarrow> None | Some g \<Rightarrow> scanInvitation clk s g)"

definition grant_is :: "string \<Rightarrow> string \<Rightarrow> grant_row \<Rightarrow> bool" where
  "grant_is a i g = (in_account g = a \<and> in_id g = i \<and> grant_pending g)"

section \<open>Helpers\<close>

definition validInvitationEmail :: "(string \<Rightarrow> string option) \<Rightarrow> string \<Rightarrow> bool" where
  "validInvitationEmail ParseAddress email =
     (if length email < 3 \<or> length email > 320 \<or> CHR 0x0D \<in> set email \<or> CHR 0x0A \<in> set email then False
      else ParseAddress email = Some email)"

definition lockActiveAccount :: "string \<Rightarrow> (registry, unit) db" where
  "lockActiveAccount accountID =
     db_read (Wrapf ''lock invitation account: '') (\<lambda>_ s.
       case account_of accountID s of
         None \<Rightarrow> Inl ErrNotFound
       | Some a \<Rightarrow> if a_Status a \<noteq> ''active'' then Inl ErrNotFound else Inr ())"

definition insertInvitationAudit :: "string \<Rightarrow> Actor \<Rightarrow> AuditEvent \<Rightarrow> string \<Rightarrow> time \<Rightarrow> (registry, unit) db" where
  "insertInvitationAudit accountID actor ev metadata now =
     db_write (Wrapf ''insert invitation audit event: '') (\<lambda>_. insert_audit accountID actor ev metadata now)"

definition wrapping :: "string \<Rightarrow> 'a result \<Rightarrow> 'a result" where
  "wrapping p r = (case r of Inl err \<Rightarrow> Inl (Wrapf p err) | Inr x \<Rightarrow> Inr x)"

definition reserve_one :: "time \<Rightarrow> string \<Rightarrow> string \<Rightarrow> int \<Rightarrow> (registry, unit) db" where
  "reserve_one now what key limit =
     db_bind (db_wrap what (Allow (\<lambda>_. now) key limit (60 * 60 * 1000000000))) (\<lambda>allowed.
     if \<not> allowed then db_fail ErrRateLimited else db_return ())"

definition reserveInvitationQuota :: "time \<Rightarrow> string \<Rightarrow> string \<Rightarrow> InvitationRateLimits \<Rightarrow> (registry, unit) db" where
  "reserveInvitationQuota now accountID email limits =
     db_bind (reserve_one now ''reserve account invitation quota: '' (''invitation-account:'' @ accountID) (AccountPerHour limits)) (\<lambda>_.
     reserve_one now ''reserve recipient invitation quota: '' (''invitation-recipient:'' @ email) (RecipientPerHour limits))"

section \<open>Creating and rotating\<close>

text \<open>What a rotation is about to do: nothing, for a duplicate; or to write the invitation with a new
  version, for an address, with a role, under an action, reporting an outcome.\<close>

datatype rotation =
    Duplicate Invitation
  | Rotate string int string Role string string

definition rotate_existing :: "string \<Rightarrow> string \<Rightarrow> Role \<Rightarrow> bool \<Rightarrow> (registry, rotation) db" where
  "rotate_existing accountID invitationID role resend =
     db_bind (db_read (Wrapf ''read invitation: '') (\<lambda>clk s.
       case select_invitation (grant_is accountID invitationID) clk s of None \<Rightarrow> Inl ErrNotFound | Some i \<Rightarrow> Inr i)) (\<lambda>i.
     if resend \<and> i_sentRecently i then db_fail ErrRateLimited
     else if resend then db_return (Rotate (i_ID i) (i_TokenVersion i) (i_Email i) (i_Role i) ''invitation.resend'' [])
     else db_return (Rotate (i_ID i) (i_TokenVersion i) (i_Email i) role ''invitation.role_change'' []))"

definition active_email :: "string \<Rightarrow> string \<Rightarrow> registry \<Rightarrow> bool" where
  "active_email a email s =
     list_ex (\<lambda>m. m_AccountID m = a \<and> m_RevokedAt m = None \<and>
       (case user_of (m_UserID m) s of None \<Rightarrow> False | Some u \<Rightarrow> u_Email u = email)) (members s)"

definition pending_email :: "string \<Rightarrow> string \<Rightarrow> grant_row \<Rightarrow> bool" where
  "pending_email a email g = (in_account g = a \<and> in_email g = email \<and> grant_pending g)"

definition rotate_address :: "entropy \<Rightarrow> string \<Rightarrow> string \<Rightarrow> Role \<Rightarrow> (registry, rotation) db" where
  "rotate_address R accountID email role =
     db_bind (db_read (Wrapf ''check active invitation member: '') (\<lambda>_ s. Inr (active_email accountID email s))) (\<lambda>active.
     if active then db_fail ErrActiveMember
     else
       db_bind (db_read (Wrapf ''find pending invitation: '') (\<lambda>clk s.
         Inr (select_invitation (pending_email accountID email) clk s))) (\<lambda>found.
       case found of
         Some i \<Rightarrow>
           if i_Role i = role then db_return (Duplicate i)
           else db_return (Rotate (i_ID i) (i_TokenVersion i) email role ''invitation.role_change'' InvitationCreateRoleChanged)
       | None \<Rightarrow>
           db_bind (db_lift (newAuditUUID (rd_uuid R))) (\<lambda>uuid.
           db_return (Rotate uuid 0 email role ''invitation.create'' InvitationCreateCreated))))"

definition new_grant :: "string \<Rightarrow> string \<Rightarrow> string \<Rightarrow> Role \<Rightarrow> string \<Rightarrow> string \<Rightarrow> int \<Rightarrow> time \<Rightarrow> grant_row" where
  "new_grant uuid accountID email role inviter hash version now =
     \<lparr>in_id = uuid, in_account = accountID, in_email = email, in_version = version, in_expires = now + invitationTTL,
      in_accepted = None, in_revoked = None, gr_role = role, gr_inviter = Some inviter, gr_hash = hash,
      gr_accepted_by = None, gr_revoked_by = None, gr_created = now, gr_updated = now\<rparr>"

definition rotate_grant :: "Role \<Rightarrow> string \<Rightarrow> string \<Rightarrow> int \<Rightarrow> time \<Rightarrow> grant_row \<Rightarrow> grant_row" where
  "rotate_grant role inviter hash version now g =
     g\<lparr>gr_role := role, gr_inviter := Some inviter, gr_hash := hash, in_version := version,
       in_expires := now + invitationTTL, gr_updated := now\<rparr>"

definition persist_invitation ::
    "string \<Rightarrow> int \<Rightarrow> string \<Rightarrow> string \<Rightarrow> Role \<Rightarrow> string \<Rightarrow> string \<Rightarrow> time \<Rightarrow> (registry, Invitation) db" where
  "persist_invitation uuid old accountID email role inviter hash now =
     db_stmt (Wrapf ''persist invitation: '') (\<lambda>clk s.
       let gs = (if old = 0 then grants s @ [new_grant uuid accountID email role inviter hash (old + 1) now]
                 else update_where (grant_is accountID uuid) (rotate_grant role inviter hash (old + 1) now) (grants s)) in
       case put_grants gs () s of
         (Inl err, s') \<Rightarrow> (Inl (Wrapf ''persist invitation: '' err), s')
       | (Inr _, s') \<Rightarrow>
           (case select_invitation (grant_is accountID uuid) clk s' of
              None \<Rightarrow> (Inl (Wrapf ''persist invitation: '' no_rows), s')
            | Some i \<Rightarrow> (Inr i, s')))"

definition idempotency_key :: "string \<Rightarrow> int \<Rightarrow> string" where
  "idempotency_key uuid version = ''account-invitation/'' @ uuid @ ''/'' @ itoa version"

definition rotation_event :: "string \<Rightarrow> string \<Rightarrow> Role \<Rightarrow> string \<Rightarrow> string \<Rightarrow> AuditEvent" where
  "rotation_event action uuid role email requestID =
     success_event action ''invitation'' uuid requestID [(''role'', role), (''recipient'', email)]"

definition invitation_delivery :: "string \<Rightarrow> int \<Rightarrow> string \<Rightarrow> string \<Rightarrow> InvitationDelivery" where
  "invitation_delivery uuid version email encrypted =
     \<lparr>iv_InvitationID = uuid, iv_InvitationVersion = version, iv_Recipient = email,
      iv_EncryptedPayload = encrypted, iv_IdempotencyKey = idempotency_key uuid version\<rparr>"

text \<open>The part of a rotation after its target is known.\<close>

definition issue_invitation ::
    "entropy \<Rightarrow> string \<Rightarrow> Actor \<Rightarrow> string \<Rightarrow> string \<Rightarrow> InvitationRateLimits option \<Rightarrow> time \<Rightarrow>
     string \<Rightarrow> int \<Rightarrow> string \<Rightarrow> Role \<Rightarrow> string \<Rightarrow> (registry, Invitation) db" where
  "issue_invitation R accountID actor requestID deliveryKey limits now uuid old email role action =
     db_bind (case limits of None \<Rightarrow> db_return () | Some l \<Rightarrow> reserveInvitationQuota now accountID email l) (\<lambda>_.
     db_bind (db_lift (NewToken [] (rd_token R))) (\<lambda>raw.
     db_bind (db_lift (wrapping ''encrypt invitation token: ''
       (Seal (rd_aead R) (rd_nonce R) deliveryKey raw (idempotency_key uuid (old + 1))))) (\<lambda>encrypted.
     db_bind (db_lift (validateAuditInput accountID actor (rotation_event action uuid role email requestID))) (\<lambda>metadata.
     db_bind (persist_invitation uuid old accountID email role (UserID actor) (HashToken raw) now) (\<lambda>invitation.
     db_bind (on_mail (EnqueueInvitationDelivery now accountID (invitation_delivery uuid (old + 1) email encrypted))) (\<lambda>_.
     db_bind (insertInvitationAudit accountID actor (rotation_event action uuid role email requestID) metadata now) (\<lambda>_.
     db_return invitation)))))))"

definition rotateInvitation ::
    "entropy \<Rightarrow> string \<Rightarrow> string \<Rightarrow> string \<Rightarrow> Role \<Rightarrow> Actor \<Rightarrow> string \<Rightarrow> string \<Rightarrow> InvitationRateLimits option \<Rightarrow>
     bool \<Rightarrow> bool \<Rightarrow> (registry, Invitation \<times> string) db" where
  "rotateInvitation R accountID invitationID email role actor requestID deliveryKey limits resend roleChange =
     db_txm ''begin invitation rotation: '' (\<lambda>now.
       db_bind (lockActiveAccount accountID) (\<lambda>_.
       db_bind (requireAdminMembership accountID actor) (\<lambda>_.
       db_bind (if resend \<or> roleChange then rotate_existing accountID invitationID role resend
                else rotate_address R accountID email role) (\<lambda>t.
       case t of
         Duplicate i \<Rightarrow> db_return (''commit duplicate invitation: '', (i, InvitationCreateUnchanged))
       | Rotate uuid old email' role' action outcome \<Rightarrow>
           db_bind (issue_invitation R accountID actor requestID deliveryKey limits now uuid old email' role' action) (\<lambda>i.
           db_return (''commit invitation rotation: '', (i, outcome)))))))"

definition CreateOrRefreshInvitation ::
    "(string \<Rightarrow> string option) \<Rightarrow> entropy \<Rightarrow> string \<Rightarrow> string \<Rightarrow> Role \<Rightarrow> Actor \<Rightarrow> string \<Rightarrow> string \<Rightarrow> (registry, Invitation) db" where
  "CreateOrRefreshInvitation ParseAddress R accountID email0 role actor requestID deliveryKey =
     (let email = NormalizeEmail email0 in
      if \<not> validInvitationEmail ParseAddress email \<or> \<not> Role_Valid role
      then db_fail (Errorf ''invalid invitation recipient or role'')
      else
        db_bind (rotateInvitation R accountID [] email role actor requestID deliveryKey None False False) (\<lambda>(i, _). db_return i))"

definition CreateInvitation ::
    "(string \<Rightarrow> string option) \<Rightarrow> entropy \<Rightarrow> string \<Rightarrow> string \<Rightarrow> Role \<Rightarrow> Actor \<Rightarrow> string \<Rightarrow> string \<Rightarrow>
     InvitationRateLimits \<Rightarrow> (registry, Invitation \<times> string) db" where
  "CreateInvitation ParseAddress R accountID email0 role actor requestID deliveryKey limits =
     (let email = NormalizeEmail email0 in
      if \<not> validInvitationEmail ParseAddress email \<or> \<not> Role_Valid role
      then db_fail (Errorf ''invalid invitation recipient or role'')
      else rotateInvitation R accountID [] email role actor requestID deliveryKey (Some limits) False False)"

definition ResendInvitation ::
    "entropy \<Rightarrow> string \<Rightarrow> string \<Rightarrow> Actor \<Rightarrow> string \<Rightarrow> string \<Rightarrow> (registry, Invitation) db" where
  "ResendInvitation R accountID invitationID actor requestID deliveryKey =
     db_bind (rotateInvitation R accountID invitationID [] [] actor requestID deliveryKey None True False) (\<lambda>(i, _). db_return i)"

definition ChangeInvitationRole ::
    "entropy \<Rightarrow> string \<Rightarrow> string \<Rightarrow> Role \<Rightarrow> Actor \<Rightarrow> string \<Rightarrow> string \<Rightarrow> (registry, Invitation) db" where
  "ChangeInvitationRole R accountID invitationID role actor requestID deliveryKey =
     (if \<not> Role_Valid role then db_fail (Errorf ''invalid invitation role'')
      else
        db_bind (rotateInvitation R accountID invitationID [] role actor requestID deliveryKey None False True) (\<lambda>(i, _). db_return i))"

section \<open>Revoking and reading\<close>

definition revoke_grant :: "string \<Rightarrow> time \<Rightarrow> grant_row \<Rightarrow> grant_row" where
  "revoke_grant u now g = g\<lparr>in_revoked := Some now, gr_revoked_by := Some u, gr_updated := now\<rparr>"

definition update_grants ::
    "string \<Rightarrow> (grant_row \<Rightarrow> bool) \<Rightarrow> (grant_row \<Rightarrow> grant_row) \<Rightarrow> (registry, nat) db" where
  "update_grants what P f =
     db_stmt (Wrapf what) (\<lambda>_ s.
       wrap_result what (put_grants (update_where P f (grants s)) (count_where P (grants s)) s))"

definition RevokeInvitation :: "string \<Rightarrow> string \<Rightarrow> Actor \<Rightarrow> string \<Rightarrow> (registry, unit) db" where
  "RevokeInvitation accountID invitationID actor requestID =
     withLockedAccountAudit accountID actor (success_event ''invitation.revoke'' ''invitation'' invitationID requestID [])
       (\<lambda>now.
         db_bind (requireAdminMembership accountID actor) (\<lambda>_.
         db_bind (update_grants ''revoke invitation: '' (grant_is accountID invitationID) (revoke_grant (UserID actor) now)) (\<lambda>rows.
         db_lift (exactlyOneRowChanged rows))))"

text \<open>The latest outbox row of an invitation's current version, and what it says of the delivery.\<close>

definition latest_delivery :: "registry \<Rightarrow> grant_row \<Rightarrow> outbox_row option" where
  "latest_delivery s g =
     (case sort_key (\<lambda>r. (ob_created r, ob_id r))
        (filter (\<lambda>r. ob_account r = in_account g \<and> ob_invitation r = in_id g \<and> ob_version r = in_version g) (outbox (post s))) of
        [] \<Rightarrow> None
      | rs \<Rightarrow> Some (last rs))"

definition delivery_state :: "outbox_row option \<Rightarrow> string" where
  "delivery_state d =
     (case d of
        None \<Rightarrow> InvitationDeliveryQueued
      | Some r \<Rightarrow>
          if ob_status r = Delivered then InvitationDeliverySent
          else if ob_status r = PermanentlyFailed \<or> ob_status r = CanceledState then InvitationDeliveryFailed
          else if (ob_status r = Pending \<or> ob_status r = Leased) \<and> (ob_attempts r > 0 \<or> ob_error r \<noteq> None)
          then InvitationDeliveryRetrying
          else InvitationDeliveryQueued)"

definition scanListedInvitation :: "time \<Rightarrow> registry \<Rightarrow> grant_row \<Rightarrow> Invitation option" where
  "scanListedInvitation clk s g =
     map_option (\<lambda>i. i\<lparr>i_DeliveryState := delivery_state (latest_delivery s g)\<rparr>) (scanInvitation clk s g)"

definition ListInvitations :: "string \<Rightarrow> (registry, Invitation list) db" where
  "ListInvitations accountID =
     db_read (Wrapf ''list invitations: '') (\<lambda>clk s.
       Inr (List.map_filter (scanListedInvitation clk s)
         (sort_key (\<lambda>g. (gr_created g, in_id g)) (filter (\<lambda>g. in_account g = accountID \<and> grant_pending g) (grants s)))))"

definition PeekInvitation :: "string \<Rightarrow> (registry, Invitation) db" where
  "PeekInvitation invitationID =
     db_read (Wrapf ''peek invitation: '') (\<lambda>clk s.
       case select_invitation (\<lambda>g. in_id g = invitationID \<and> grant_pending g) clk s of
         None \<Rightarrow> Inl ErrInvitationInvalid
       | Some i \<Rightarrow> if i_expired i then Inl ErrInvitationExpired else Inr i)"

section \<open>Accepting\<close>

definition userByID :: "string \<Rightarrow> (registry, User) db" where
  "userByID userID =
     db_read (Wrapf ''get session user: '') (\<lambda>_ s. case user_of userID s of None \<Rightarrow> Inl ErrNotFound | Some u \<Rightarrow> Inr (scanUser u))"

definition userByEmail :: "string \<Rightarrow> (registry, User) db" where
  "userByEmail email =
     db_read (Wrapf ''get user by email: '') (\<lambda>_ s. case user_by_email email s of None \<Rightarrow> Inl ErrNotFound | Some u \<Rightarrow> Inr (scanUser u))"

text \<open>A new user: the identifier is the database's, and the address is unique.\<close>

definition new_user :: "string \<Rightarrow> string \<Rightarrow> time \<Rightarrow> nat \<Rightarrow> user_row" where
  "new_user email avatar now k =
     \<lparr>u_ID = nat_text k, u_Email = email, u_EmailVerifiedAt = Some now, u_Status = ''active'', u_AvatarURL = avatar,
      u_TOSAcceptedAt = None, u_CreatedAt = now, u_UpdatedAt = now, legacy_tenant_id = None\<rparr>"

definition insert_user :: "user_row \<Rightarrow> registry \<Rightarrow> User result \<times> registry" where
  "insert_user r s =
     (if u_Email r \<noteq> ToLower (btrim (u_Email r)) then (Inl constraint_violation, s)
      else if user_by_email (u_Email r) s \<noteq> None then (Inl constraint_violation, s)
      else (Inr (scanUser r), s\<lparr>users := users s @ [r], next_id := Suc (next_id s)\<rparr>))"

definition resolveInvitationUser :: "string \<Rightarrow> string \<Rightarrow> time \<Rightarrow> (registry, User) db" where
  "resolveInvitationUser email signedInUserID now =
     (if signedInUserID \<noteq> [] then
        db_bind (userByID signedInUserID) (\<lambda>user.
        if u_Status user \<noteq> ''active'' \<or> u_Email user \<noteq> email then db_fail ErrInvitationEmailMismatch else db_return user)
      else
        db_bind (db_try (userByEmail email)) (\<lambda>r.
        case r of
          Inr user \<Rightarrow> if u_Status user \<noteq> ''active'' then db_fail ErrForbidden else db_return user
        | Inl err \<Rightarrow>
            if \<not> errors_Is err ErrNotFound then db_fail err
            else db_stmt (Wrapf ''create invited user: '') (\<lambda>_ s.
              wrap_result ''create invited user: '' (insert_user (new_user email [] now (next_id s)) s))))"

definition identity_of :: "string \<Rightarrow> string \<Rightarrow> registry \<Rightarrow> identity_row option" where
  "identity_of provider subject s = lookup_key (\<lambda>i. (id_provider i, id_subject i)) (identities s) (provider, subject)"

definition linkInvitationIdentity :: "User \<Rightarrow> string \<Rightarrow> (registry, unit) db" where
  "linkInvitationIdentity user email =
     db_bind (db_read (Wrapf ''read invitation identity: '') (\<lambda>_ s. Inr (identity_of ''magiclink'' email s))) (\<lambda>found.
     case found of
       Some i \<Rightarrow> if id_user i \<noteq> Some (u_ID user) then db_fail ErrInvitationEmailMismatch else db_return ()
     | None \<Rightarrow>
         db_write (Wrapf ''link invitation identity: '') (\<lambda>_ s.
           s\<lparr>identities := identities s @ [\<lparr>id_tenant = None, id_user = Some (u_ID user), id_provider = ''magiclink'',
              id_subject = email, id_email = email\<rparr>]\<rparr>))"

definition invitationInviterID :: "string \<Rightarrow> (registry, string) db" where
  "invitationInviterID invitationID =
     db_read (Wrapf ''read invitation inviter: '') (\<lambda>_ s.
       case lookup_key in_id (grants s) invitationID of
         None \<Rightarrow> Inl (Wrapf ''read invitation inviter: '' no_rows)
       | Some g \<Rightarrow> Inr (case gr_inviter g of None \<Rightarrow> [] | Some u \<Rightarrow> u))"

definition accountByID :: "string \<Rightarrow> (registry, Account) db" where
  "accountByID accountID =
     db_read (Wrapf ''read invitation account: '') (\<lambda>_ s.
       case account_of accountID s of
         None \<Rightarrow> Inl (Wrapf ''read invitation account: '' no_rows)
       | Some a \<Rightarrow> Inr (scanAccount a))"

definition invited_member :: "string \<Rightarrow> string \<Rightarrow> Role \<Rightarrow> string \<Rightarrow> time \<Rightarrow> Membership" where
  "invited_member accountID userID role inviter now =
     \<lparr>m_AccountID = accountID, m_UserID = userID, m_Role = role, m_CreatedByUserID = nullStr inviter, m_AcceptedAt = now,
      m_RevokedAt = None, m_RevokedByUserID = None, m_CreatedAt = now, m_UpdatedAt = now\<rparr>"

definition put_member :: "string \<Rightarrow> string \<Rightarrow> Role \<Rightarrow> string \<Rightarrow> time \<Rightarrow> registry \<Rightarrow> registry" where
  "put_member accountID userID role inviter now s =
     s\<lparr>members := upsert member_key
        (\<lambda>m. m\<lparr>m_Role := role, m_CreatedByUserID := nullStr inviter, m_AcceptedAt := now, m_RevokedAt := None,
           m_RevokedByUserID := None, m_UpdatedAt := now\<rparr>)
        (invited_member accountID userID role inviter now) (members s)\<rparr>"

definition accept_grant :: "string \<Rightarrow> time \<Rightarrow> grant_row \<Rightarrow> grant_row" where
  "accept_grant u now g = g\<lparr>in_accepted := Some now, gr_accepted_by := Some u, gr_updated := now\<rparr>"

text \<open>The end of an acceptance that consumes the invitation.\<close>

definition settle_invitation :: "string \<Rightarrow> Invitation \<Rightarrow> User \<Rightarrow> string \<Rightarrow> time \<Rightarrow> (registry, Account) db" where
  "settle_invitation accountID i user requestID now =
     (let ev = rotation_event ''invitation.accept'' (i_ID i) (i_Role i) (i_Email i) requestID; actor = user_actor (u_ID user) in
      db_bind (linkInvitationIdentity user (i_Email i)) (\<lambda>_.
      db_bind (db_lift (validateAuditInput accountID actor ev)) (\<lambda>metadata.
      db_bind (invitationInviterID (i_ID i)) (\<lambda>inviter.
      db_bind (db_write (Wrapf ''create invitation membership: '') (\<lambda>_. put_member accountID (u_ID user) (i_Role i) inviter now)) (\<lambda>_.
      db_bind (update_grants ''accept invitation: '' (grant_is accountID (i_ID i)) (accept_grant (u_ID user) now)) (\<lambda>rows.
      db_bind (db_lift (exactlyOneRowChanged rows)) (\<lambda>_.
      db_bind (insertInvitationAudit accountID actor ev metadata now) (\<lambda>_.
      accountByID accountID))))))))"

text \<open>The transaction of an acceptance.\<close>

definition accept_locked ::
    "string \<Rightarrow> string \<Rightarrow> string \<Rightarrow> string \<Rightarrow> string \<Rightarrow> time \<Rightarrow> (registry, string \<times> User \<times> Account \<times> bool) db" where
  "accept_locked accountID invitationID raw signedInUserID requestID now =
     db_bind (lockActiveAccount accountID) (\<lambda>_.
     db_bind (db_read (Wrapf ''lock invitation: '') (\<lambda>clk s.
       let P = (\<lambda>g. in_account g = accountID \<and> in_id g = invitationID \<and> gr_hash g = HashToken raw) in
       case (select_invitation P clk s, List.find P (grants s)) of
         (Some i, Some g) \<Rightarrow> Inr (i, gr_accepted_by g)
       | _ \<Rightarrow> Inl ErrInvitationInvalid)) (\<lambda>(i, acceptedBy).
     if i_RevokedAt i \<noteq> None then db_fail ErrInvitationInvalid
     else if i_AcceptedAt i = None \<and> i_expired i then db_fail ErrInvitationExpired
     else
       db_bind (db_write (Wrapf ''lock invitation email: '') (\<lambda>_ s. s)) (\<lambda>_.
       db_bind (resolveInvitationUser (i_Email i) signedInUserID now) (\<lambda>user.
       if i_AcceptedAt i \<noteq> None then
         (if acceptedBy \<noteq> Some (u_ID user) then db_fail ErrInvitationInvalid
          else
            db_bind (accountByID accountID) (\<lambda>acct.
            db_return (''commit repeated invitation acceptance: '', (user, acct, False))))
       else
         db_bind (settle_invitation accountID i user requestID now) (\<lambda>acct.
         db_return (''commit invitation acceptance: '', (user, acct, True)))))))"

definition AcceptInvitation ::
    "string \<Rightarrow> string \<Rightarrow> string \<Rightarrow> string \<Rightarrow> (registry, User \<times> Account \<times> bool) db" where
  "AcceptInvitation invitationID raw signedInUserID requestID =
     db_bind (db_read (Wrapf ''locate invitation account: '') (\<lambda>_ s.
       case lookup_key in_id (grants s) invitationID of None \<Rightarrow> Inl ErrInvitationInvalid | Some g \<Rightarrow> Inr (in_account g))) (\<lambda>accountID.
     db_txm ''begin invitation acceptance: '' (accept_locked accountID invitationID raw signedInUserID requestID))"

end
