(* ===== verification/Invitation_Rules.thy ===== *)
theory Invitation_Rules
  imports Invitation
begin

text \<open>
  What the handlers of invitations do: the effect of a rotation and of an acceptance that commit,
  and that one which does not commit leaves the registry as it was.
\<close>

section \<open>Statements\<close>

lemma put_grants_Inr: "put_grants gs x s = (Inr y, s') \<longleftrightarrow> grants_ok gs \<and> y = x \<and> s' = s\<lparr>grants := gs\<rparr>"
  by (auto simp: put_grants_def)

lemma find_Some_in: "List.find P xs = Some x \<Longrightarrow> x \<in> set xs \<and> P x"
  by (auto simp: find_Some_iff dest: nth_mem)

lemma select_invitation_Some:
  assumes "select_invitation P clk s = Some i"
  obtains g where "g \<in> set (grants s)" and "P g" and "List.find P (grants s) = Some g" and "scanInvitation clk s g = Some i"
  using assms that by (auto simp: select_invitation_def split: option.splits dest: find_Some_in)

lemma scanInvitation_Some:
  "scanInvitation clk s g = Some i \<Longrightarrow>
     i_ID i = in_id g \<and> i_AccountID i = in_account g \<and> i_Email i = in_email g \<and> i_Role i = gr_role g \<and>
     i_TokenVersion i = in_version g \<and> i_ExpiresAt i = in_expires g \<and> i_AcceptedAt i = in_accepted g \<and>
     i_RevokedAt i = in_revoked g \<and> i_expired i = (in_expires g \<le> clk) \<and> i_sentRecently i = (gr_updated g > clk - seconds 60)"
  by (auto simp: scanInvitation_def)

lemma db_wrap_Inr: "db_wrap p m e n s = (Inr y, n', s') \<longleftrightarrow> m e n s = (Inr y, n', s')"
  by (auto simp: db_wrap_def split: prod.splits sum.splits)

lemma wrapping_Inr: "wrapping p r = Inr y \<longleftrightarrow> r = Inr y"
  by (auto simp: wrapping_def split: sum.splits)

lemma rates_same: "s = s\<lparr>rates := rates s\<rparr>"
  by simp

lemma Allow_rates: "Allow f k l w e n s = (Inr b, n', s') \<Longrightarrow> \<exists>rs. s' = s\<lparr>rates := rs\<rparr>"
proof (cases "l \<le> 0")
  case True
  moreover assume "Allow f k l w e n s = (Inr b, n', s')"
  ultimately have "s' = s" by (simp add: Allow_def)
  then show ?thesis using rates_same by blast
qed (auto simp: Allow_def db_Inr Let_def)

lemma reserve_one_rates: "reserve_one now what k l e n s = (Inr x, n', s') \<Longrightarrow> \<exists>rs. s' = s\<lparr>rates := rs\<rparr>"
  by (auto simp: reserve_one_def db_Inr db_wrap_Inr split: if_splits dest: Allow_rates)

lemma reserveInvitationQuota_rates: "reserveInvitationQuota now a m l e n s = (Inr x, n', s') \<Longrightarrow> \<exists>rs. s' = s\<lparr>rates := rs\<rparr>"
  by (fastforce simp: reserveInvitationQuota_def db_Inr dest!: reserve_one_rates)

lemma lockActiveAccount_Inr: "lockActiveAccount a e n s = (Inr x, n', s') \<Longrightarrow> s' = s \<and> account_active a s"
  by (auto simp: lockActiveAccount_def db_Inr account_active_def split: option.splits if_splits)

lemma update_grants_Inr:
  "update_grants what P f e n s = (Inr k, n', s') \<Longrightarrow>
     grants_ok (update_where P f (grants s)) \<and> k = count_where P (grants s) \<and> s' = s\<lparr>grants := update_where P f (grants s)\<rparr>"
  by (auto simp: update_grants_def db_Inr wrap_result_Inr put_grants_Inr)

text \<open>The outbox row of a successful enqueue.\<close>

lemma Enqueue_Inr:
  assumes "EnqueueInvitationDelivery now a d e n s = (Inr x, n', s')"
  shows "enqueue_target a d (clock e n) s \<and> outbox_checks (new_outbox a d now (next_outbox s)) \<and>
    s' = s\<lparr>outbox := outbox s @ [new_outbox a d now (next_outbox s)], next_outbox := Suc (next_outbox s)\<rparr>"
  using assms by (auto simp: EnqueueInvitationDelivery_def db_Inr insert_outbox_def Let_def wrap_result_Inr split: if_splits)

lemma on_mail_Inr:
  "on_mail m e n s = (Inr x, n', s') \<longleftrightarrow> (\<exists>p. m e n (mail_view s) = (Inr x, n', p) \<and> s' = s\<lparr>post := p\<rparr>)"
  by (auto simp: on_mail_def split: prod.splits)

section \<open>Rotating\<close>

text \<open>The rows a rotation writes.\<close>

definition issued_grants :: "string \<Rightarrow> int \<Rightarrow> string \<Rightarrow> string \<Rightarrow> Role \<Rightarrow> string \<Rightarrow> string \<Rightarrow> time \<Rightarrow> grant_row list \<Rightarrow> grant_row list" where
  "issued_grants uuid old a email role inviter hash now gs =
     (if old = 0 then gs @ [new_grant uuid a email role inviter hash (old + 1) now]
      else update_where (grant_is a uuid) (rotate_grant role inviter hash (old + 1) now) gs)"

definition enqueued :: "time \<Rightarrow> string \<Rightarrow> InvitationDelivery \<Rightarrow> mail \<Rightarrow> mail \<Rightarrow> bool" where
  "enqueued now a d p p' = (\<exists>e n x n'. EnqueueInvitationDelivery now a d e n p = (Inr x, n', p'))"

definition issued ::
    "entropy \<Rightarrow> string \<Rightarrow> Actor \<Rightarrow> string \<Rightarrow> string \<Rightarrow> time \<Rightarrow> string \<Rightarrow> int \<Rightarrow> string \<Rightarrow> Role \<Rightarrow> string \<Rightarrow> registry \<Rightarrow> registry \<Rightarrow> bool" where
  "issued R a actor requestID key now uuid old email role action s s' \<longleftrightarrow>
     (\<exists>rs raw encrypted metadata gs p.
        NewToken [] (rd_token R) = Inr raw \<and>
        Seal (rd_aead R) (rd_nonce R) key raw (idempotency_key uuid (old + 1)) = Inr encrypted \<and>
        validateAuditInput a actor (rotation_event action uuid role email requestID) = Inr metadata \<and>
        gs = issued_grants uuid old a email role (UserID actor) (HashToken raw) now (grants s) \<and> grants_ok gs \<and>
        enqueued now a (invitation_delivery uuid (old + 1) email encrypted) ((post s)\<lparr>invitations := map invitation_row.truncate gs\<rparr>) p \<and>
        s' = s\<lparr>rates := rs, grants := gs, post := p,
          audit := audit s @ [audit_of a actor (rotation_event action uuid role email requestID) metadata now]\<rparr>)"

lemma persist_invitation_Inr:
  assumes "persist_invitation uuid old a email role inviter hash now e n s = (Inr i, n', s')"
  shows "grants_ok (issued_grants uuid old a email role inviter hash now (grants s)) \<and>
    s' = s\<lparr>grants := issued_grants uuid old a email role inviter hash now (grants s)\<rparr>"
proof -
  let ?gs = "issued_grants uuid old a email role inviter hash now (grants s)"
  from assms show ?thesis
    unfolding persist_invitation_def db_stmt_Inr Let_def
    by (fold issued_grants_def) (auto simp: put_grants_def split: if_splits option.splits)
qed

lemma issue_invitation_Inr:
  assumes "issue_invitation R a actor requestID key limits now uuid old email role action e n s = (Inr i, n', s')"
  shows "issued R a actor requestID key now uuid old email role action s s'"
proof -
  from assms obtain n1 s1 raw encrypted metadata n2 n3 s2 n4 x where
    q: "(case limits of None \<Rightarrow> db_return () | Some l \<Rightarrow> reserveInvitationQuota now a email l) e n s = (Inr (), n1, s1)" and
    pure: "NewToken [] (rd_token R) = Inr raw" "Seal (rd_aead R) (rd_nonce R) key raw (idempotency_key uuid (old + 1)) = Inr encrypted"
      "validateAuditInput a actor (rotation_event action uuid role email requestID) = Inr metadata" and
    p: "persist_invitation uuid old a email role (UserID actor) (HashToken raw) now e n2 s1 = (Inr i, n3, s2)" and
    m: "\<exists>s3. on_mail (EnqueueInvitationDelivery now a (invitation_delivery uuid (old + 1) email encrypted)) e n3 s2 = (Inr x, n4, s3) \<and>
      s' = insert_audit a actor (rotation_event action uuid role email requestID) metadata now s3"
    by (fastforce simp: issue_invitation_def db_Inr wrapping_Inr insertInvitationAudit_def)
  from q obtain rs where s1: "s1 = s\<lparr>rates := rs\<rparr>"
    by (cases limits) (auto dest!: reserveInvitationQuota_rates intro: that [of "rates s"])
  from persist_invitation_Inr [OF p] have gs: "grants_ok (issued_grants uuid old a email role (UserID actor) (HashToken raw) now (grants s))"
    and s2: "s2 = s1\<lparr>grants := issued_grants uuid old a email role (UserID actor) (HashToken raw) now (grants s)\<rparr>" by (simp_all add: s1)
  from m obtain p where "enqueued now a (invitation_delivery uuid (old + 1) email encrypted) (mail_view s2) p"
    and "s' = insert_audit a actor (rotation_event action uuid role email requestID) metadata now (s2\<lparr>post := p\<rparr>)"
    unfolding on_mail_Inr enqueued_def by blast
  with pure gs show ?thesis unfolding issued_def by (fastforce simp: s1 s2 mail_view_def insert_audit_def)
qed

text \<open>The invitation a rotation is about: a new one for an address that has neither a membership nor a
  pending invitation, or a pending one of that address and version.\<close>

definition rotation_target :: "string \<Rightarrow> string \<Rightarrow> string \<Rightarrow> int \<Rightarrow> registry \<Rightarrow> bool" where
  "rotation_target a email uuid old s \<longleftrightarrow>
     (old = 0 \<and> \<not> active_email a email s \<and> \<not> list_ex (pending_email a email) (grants s)) \<or>
     (\<exists>g \<in> set (grants s). grant_is a uuid g \<and> in_version g = old \<and> in_email g = email)"

lemma rotate_existing_Inr:
  assumes "rotate_existing a i role resend e n s = (Inr t, n', s')"
  shows "s' = s" and "\<exists>old email role' action. t = Rotate i old email role' action [] \<and> rotation_target a email i old s"
proof -
  from assms obtain inv where "s' = s" and inv: "select_invitation (grant_is a i) (clock e n) s = Some inv"
    and t: "\<exists>role' action. t = Rotate (i_ID inv) (i_TokenVersion inv) (i_Email inv) role' action []"
    by (auto simp: rotate_existing_def db_Inr split: if_splits option.splits)
  show "s' = s" by fact
  from inv obtain g where g: "g \<in> set (grants s)" "grant_is a i g" "scanInvitation (clock e n) s g = Some inv"
    by (rule select_invitation_Some)
  with scanInvitation_Some [OF g(3)] have "rotation_target a (i_Email inv) i (i_TokenVersion inv) s" "i_ID inv = i"
    by (auto simp: rotation_target_def grant_is_def)
  with t show "\<exists>old email role' action. t = Rotate i old email role' action [] \<and> rotation_target a email i old s" by blast
qed

lemma find_account_None:
  assumes "account_active a s" and "select_invitation P clk s = None" and "\<And>g. P g \<Longrightarrow> in_account g = a"
  shows "\<not> list_ex P (grants s)"
  using assms
  by (auto simp: select_invitation_def scanInvitation_def account_active_def list_ex_iff find_None_iff
      split: option.splits dest: find_Some_in)

lemma rotate_address_Inr:
  assumes "rotate_address R a email role e n s = (Inr t, n', s')" and "account_active a s"
  shows "s' = s" and "(\<exists>i. t = Duplicate i) \<or>
    (\<exists>uuid old action outcome. t = Rotate uuid old email role action outcome \<and> rotation_target a email uuid old s \<and> \<not> active_email a email s)"
proof -
  from assms(1) have na: "\<not> active_email a email s" by (auto simp: rotate_address_def db_Inr split: if_splits)
  with assms(1) show "s' = s" by (auto simp: rotate_address_def db_Inr split: option.splits if_splits)
  show "(\<exists>i. t = Duplicate i) \<or>
    (\<exists>uuid old action outcome. t = Rotate uuid old email role action outcome \<and> rotation_target a email uuid old s \<and> \<not> active_email a email s)"
  proof (cases "select_invitation (pending_email a email) (clock e (Suc n)) s")
    case None
    then have "\<not> list_ex (pending_email a email) (grants s)"
      by (rule find_account_None [OF assms(2)]) (simp add: pending_email_def)
    with None na assms(1) show ?thesis by (auto simp: rotate_address_def db_Inr rotation_target_def)
  next
    case (Some i)
    then obtain g where "g \<in> set (grants s)" "pending_email a email g" "scanInvitation (clock e (Suc n)) s g = Some i"
      by (rule select_invitation_Some)
    then have "rotation_target a email (i_ID i) (i_TokenVersion i) s"
      by (auto simp: rotation_target_def grant_is_def pending_email_def dest!: scanInvitation_Some)
    with Some na assms(1) show ?thesis by (auto simp: rotate_address_def db_Inr split: if_splits)
  qed
qed

lemma rotateInvitation_run:
  assumes "rotateInvitation R a i email role actor requestID key limits resend roleChange e n s = (r, n', s')"
  shows "s' = s \<and> (resend \<or> roleChange \<longrightarrow> (\<exists>err. r = Inl err)) \<or>
    (\<exists>x uuid old email' role' action. r = Inr x \<and> account_active a s \<and> by_admin a actor s \<and>
    rotation_target a email' uuid old s \<and> (if resend \<or> roleChange then uuid = i else email' = email \<and> role' = role) \<and>
    issued R a actor requestID key (clock e n) uuid old email' role' action s s')"
proof (cases r)
  case (Inl err)
  then show ?thesis using assms by (auto simp: rotateInvitation_def dest: db_txm_Inl)
next
  case (Inr x)
  let ?pick = "if resend \<or> roleChange then rotate_existing a i role resend else rotate_address R a email role"
  let ?go = "\<lambda>t. case t of Duplicate i \<Rightarrow> db_return (''commit duplicate invitation: '', (i, InvitationCreateUnchanged))
       | Rotate uuid old email' role' action outcome \<Rightarrow>
           db_bind (issue_invitation R a actor requestID key limits (clock e n) uuid old email' role' action) (\<lambda>i.
           db_return (''commit invitation rotation: '', (i, outcome)))"
  from assms Inr obtain u k1 sa v k2 sb t k3 s1 c k4 where lock: "lockActiveAccount a e (Suc n) s = (Inr u, k1, sa)"
    and adm0: "requireAdminMembership a actor e k1 sa = (Inr v, k2, sb)" and t0: "?pick e k2 sb = (Inr t, k3, s1)"
    and rest: "?go t e k3 s1 = (Inr (c, x), k4, s')"
    by (auto simp only: rotateInvitation_def db_txm_Inr db_bind_Inr)
  from lockActiveAccount_Inr [OF lock] have act: "account_active a s" and sa: "sa = s" by simp_all
  note adm = requireAdminMembership_Inr [OF adm0 [unfolded sa]]
  have t: "?pick e k2 s = (Inr t, k3, s1)" using t0 adm(1) by simp
  have s1: "s1 = s" using t rotate_existing_Inr(1) rotate_address_Inr(1) [OF _ act] by (auto split: if_splits)
  show ?thesis
  proof (cases t)
    case (Duplicate j)
    with t rotate_existing_Inr(2) [of a i role resend e k2 s t k3 s1] have "\<not> (resend \<or> roleChange)" by (auto split: if_splits)
    with Duplicate rest s1 show ?thesis by simp
  next
    case (Rotate uuid old email' role' action outcome)
    have "rotation_target a email' uuid old s" "if resend \<or> roleChange then uuid = i else email' = email \<and> role' = role"
      using t Rotate rotate_existing_Inr(2) [of a i role resend e k2 s t k3 s1] rotate_address_Inr(2) [OF _ act, of R email role e k2 t k3 s1]
      by (auto split: if_splits)
    moreover from rest Rotate s1 have "issued R a actor requestID key (clock e n) uuid old email' role' action s s'"
      by (auto simp: db_bind_Inr dest: issue_invitation_Inr)
    ultimately show ?thesis using Inr act adm by blast
  qed
qed

section \<open>Accepting\<close>

text \<open>The user an acceptance is for: an active one with the address, or a new one.\<close>

definition add_user :: "string \<Rightarrow> time \<Rightarrow> registry \<Rightarrow> registry" where
  "add_user email now s = s\<lparr>users := users s @ [new_user email [] now (next_id s)], next_id := Suc (next_id s)\<rparr>"

definition resolved :: "string \<Rightarrow> time \<Rightarrow> User \<Rightarrow> registry \<Rightarrow> registry \<Rightarrow> bool" where
  "resolved email now user s s1 \<longleftrightarrow>
     (\<exists>r \<in> set (users s). user = scanUser r \<and> user_of (u_ID r) s = Some r \<and> u_Status r = ''active'' \<and> u_Email r = email \<and> s1 = s) \<or>
     (user_by_email email s = None \<and> user = scanUser (new_user email [] now (next_id s)) \<and> s1 = add_user email now s)"

lemma scanUser_simps [simp]:
  "u_ID (scanUser r) = u_ID r" "u_Email (scanUser r) = u_Email r" "u_Status (scanUser r) = u_Status r"
  by (simp_all add: scanUser_def User.truncate_def)

lemma userByID_Inr: "userByID u e n s = (Inr x, n', s') \<Longrightarrow> s' = s \<and> (\<exists>r. user_of u s = Some r \<and> x = scanUser r)"
  by (auto simp: userByID_def db_Inr split: option.splits)

lemma userByEmail_run:
  "userByEmail m e n s = (r, n', s') \<Longrightarrow> s' = s \<and>
     (case r of Inr x \<Rightarrow> (\<exists>y. user_by_email m s = Some y \<and> x = scanUser y)
      | Inl err \<Rightarrow> errors_Is err ErrNotFound \<longrightarrow> user_by_email m s = None)"
  by (auto simp: userByEmail_def db_read_def db_stmt_def split: option.splits)

lemma lookup_in: "lookup_key key rs k = Some r \<Longrightarrow> r \<in> set rs"
  using lookup_key_Some by fast

definition users_ok :: "registry \<Rightarrow> bool" where
  "users_ok s \<longleftrightarrow> distinct (map u_ID (users s)) \<and> distinct (map u_Email (users s)) \<and>
     (\<forall>r \<in> set (users s). u_ID r \<in> nat_text ` {..<next_id s})"

lemma user_of_in: "users_ok s \<Longrightarrow> r \<in> set (users s) \<Longrightarrow> user_of (u_ID r) s = Some r"
  unfolding user_of_def users_ok_def by (rule lookup_key_in) (auto simp: distinct_key_def)

lemma resolveInvitationUser_Inr:
  assumes "resolveInvitationUser email me now e n s = (Inr user, n', s')" and "users_ok s"
  shows "resolved email now user s s'"
proof (cases "me = []")
  case False
  with assms(1) obtain r where "user_of me s = Some r" "user = scanUser r" "u_Status r = ''active''" "u_Email r = email" "s' = s"
    by (auto simp: resolveInvitationUser_def db_Inr split: if_splits dest!: userByID_Inr)
  moreover from this(1) have "r \<in> set (users s)" by (auto simp: user_of_def dest: lookup_in)
  ultimately show ?thesis using user_of_in [OF assms(2)] unfolding resolved_def by blast
next
  case True
  obtain r n1 s1 where run: "userByEmail email e n s = (r, n1, s1)" by (metis prod_cases3)
  note found = userByEmail_run [OF run]
  show ?thesis
  proof (cases r)
    case (Inr x)
    with found obtain y where y: "user_by_email email s = Some y" "x = scanUser y" "s1 = s" by auto
    then have "y \<in> set (users s)" "u_Email y = email" by (auto simp: user_by_email_def dest: lookup_key_Some)
    moreover from True assms(1) run Inr y have "user = x" "u_Status y = ''active''" "s' = s"
      by (auto simp: resolveInvitationUser_def db_bind_Inr db_try_def split: if_splits)
    ultimately show ?thesis using y user_of_in [OF assms(2)] unfolding resolved_def by blast
  next
    case (Inl err)
    with found have none: "errors_Is err ErrNotFound \<longrightarrow> user_by_email email s = None" and "s1 = s" by auto
    with True assms(1) run Inl have "errors_Is err ErrNotFound"
      and "wrap_result ''create invited user: '' (insert_user (new_user email [] now (next_id s)) s) = (Inr user, s')"
      by (auto simp: resolveInvitationUser_def db_bind_Inr db_try_def db_stmt_Inr split: if_splits)
    then show ?thesis using none
      by (auto simp: resolved_def wrap_result_Inr insert_user_def add_user_def split: if_splits)
  qed
qed

text \<open>What an acceptance that consumes the invitation \<open>g\<close> leaves: the membership of the user, the
  accepted invitation, an identity when there was none, and its event.\<close>

definition accept_event :: "grant_row \<Rightarrow> string \<Rightarrow> AuditEvent" where
  "accept_event g requestID = rotation_event ''invitation.accept'' (in_id g) (gr_role g) (in_email g) requestID"

definition consumed :: "grant_row \<Rightarrow> User \<Rightarrow> string \<Rightarrow> time \<Rightarrow> registry \<Rightarrow> registry \<Rightarrow> bool" where
  "consumed g user requestID now s s' \<longleftrightarrow>
     (\<exists>s1 ids inviter metadata gs.
        resolved (in_email g) now user s s1 \<and>
        (ids = identities s \<or> identity_of ''magiclink'' (in_email g) s = None \<and>
           ids = identities s @ [\<lparr>id_tenant = None, id_user = Some (u_ID user), id_provider = ''magiclink'',
             id_subject = in_email g, id_email = in_email g\<rparr>]) \<and>
        validateAuditInput (in_account g) (user_actor (u_ID user)) (accept_event g requestID) = Inr metadata \<and>
        gs = update_where (grant_is (in_account g) (in_id g)) (accept_grant (u_ID user) now) (grants s) \<and> grants_ok gs \<and>
        s' = (put_member (in_account g) (u_ID user) (gr_role g) inviter now s1)\<lparr>identities := ids, grants := gs,
          audit := audit s @ [audit_of (in_account g) (user_actor (u_ID user)) (accept_event g requestID) metadata now]\<rparr>)"

lemma linkInvitationIdentity_Inr:
  "linkInvitationIdentity user m e n s = (Inr x, n', s') \<Longrightarrow>
     \<exists>ids. s' = s\<lparr>identities := ids\<rparr> \<and>
       (ids = identities s \<or> identity_of ''magiclink'' m s = None \<and>
          ids = identities s @ [\<lparr>id_tenant = None, id_user = Some (u_ID user), id_provider = ''magiclink'', id_subject = m, id_email = m\<rparr>])"
  by (auto simp: linkInvitationIdentity_def db_Inr split: option.splits if_splits)

lemma accountByID_Inr: "accountByID a e n s = (Inr x, n', s') \<Longrightarrow> s' = s \<and> (\<exists>r. account_of a s = Some r \<and> x = scanAccount r)"
  by (auto simp: accountByID_def db_Inr split: option.splits)

lemma invitationInviterID_Inr: "invitationInviterID i e n s = (Inr x, n', s') \<Longrightarrow> s' = s"
  by (auto simp: invitationInviterID_def db_Inr split: option.splits)

lemma settle_invitation_Inr:
  assumes "settle_invitation (in_account g) i user requestID now e n s1 = (Inr acct, n', s')" and "resolved (in_email g) now user s s1"
    and "scanInvitation clk s g = Some i"
  shows "consumed g user requestID now s s'"
proof -
  note cols = scanInvitation_Some [OF assms(3)]
  have same: "grants s1 = grants s" "identities s1 = identities s" "audit s1 = audit s" "members s1 = members s"
    using assms(2) by (auto simp: resolved_def add_user_def)
  let ?a = "in_account g" and ?ev = "accept_event g requestID" and ?actor = "user_actor (u_ID user)"
  let ?gs = "update_where (grant_is ?a (in_id g)) (accept_grant (u_ID user) now) (grants s)"
  have ev: "rotation_event ''invitation.accept'' (i_ID i) (i_Role i) (i_Email i) requestID = ?ev" by (simp add: accept_event_def cols)
  from assms(1) obtain k1 s2 metadata k2 inviter s3 k3 rows s4 k4 where
    link: "linkInvitationIdentity user (in_email g) e n s1 = (Inr (), k1, s2)" and
    v: "validateAuditInput ?a ?actor ?ev = Inr metadata" and
    inv: "invitationInviterID (in_id g) e k1 s2 = (Inr inviter, k2, s3)" and
    upd: "update_grants ''accept invitation: '' (grant_is ?a (in_id g)) (accept_grant (u_ID user) now) e k3
      (put_member ?a (u_ID user) (gr_role g) inviter now s3) = (Inr rows, k4, s4)" and
    s': "s' = insert_audit ?a ?actor ?ev metadata now s4"
    unfolding settle_invitation_def Let_def ev using cols
    by (auto simp: db_Inr insertInvitationAudit_def dest!: accountByID_Inr)
  from linkInvitationIdentity_Inr [OF link] obtain ids where s2: "s2 = s1\<lparr>identities := ids\<rparr>" and
    ids: "ids = identities s \<or> identity_of ''magiclink'' (in_email g) s = None \<and>
      ids = identities s @ [\<lparr>id_tenant = None, id_user = Some (u_ID user), id_provider = ''magiclink'', id_subject = in_email g, id_email = in_email g\<rparr>]"
    by (auto simp: same identity_of_def)
  have "s3 = s2" using invitationInviterID_Inr [OF inv] .
  with update_grants_Inr [OF upd] s2 have "grants_ok ?gs"
    and "s4 = (put_member ?a (u_ID user) (gr_role g) inviter now s1)\<lparr>identities := ids, grants := ?gs\<rparr>"
    by (simp_all add: put_member_def same)
  then have "s' = (put_member ?a (u_ID user) (gr_role g) inviter now s1)\<lparr>identities := ids, grants := ?gs,
      audit := audit s @ [audit_of ?a ?actor ?ev metadata now]\<rparr>"
    using s' by (simp add: insert_audit_def put_member_def same)
  with ids v assms(2) \<open>grants_ok ?gs\<close> show ?thesis unfolding consumed_def by blast
qed

text \<open>An acceptance fails and changes nothing; or repeats one and at most adds the user it resolved;
  or consumes the pending invitation whose token it was given, before it expires.\<close>

lemma AcceptInvitation_run:
  assumes "AcceptInvitation i raw me requestID e n s = (r, n', s')" and "users_ok s"
  shows "s' = s \<and> \<not> (\<exists>user acct. r = Inr (user, acct, True)) \<or>
    (\<exists>user acct m. r = Inr (user, acct, False) \<and> s' = add_user m (clock e (Suc n)) s \<and> user_by_email m s = None) \<or>
    (\<exists>user acct g clk. r = Inr (user, acct, True) \<and> g \<in> set (grants s) \<and> in_id g = i \<and> gr_hash g = HashToken raw \<and> grant_pending g \<and>
       clk < in_expires g \<and> clk = clock e (n + 3) \<and> account_active (in_account g) s \<and> consumed g user requestID (clock e (Suc n)) s s')"
proof (cases r)
  case (Inl err)
  then show ?thesis using assms(1)
    by (auto simp: AcceptInvitation_def db_bind_def db_read_def db_stmt_def split: prod.splits sum.splits option.splits dest: db_txm_Inl)
next
  case (Inr x)
  let ?now = "clock e (Suc n)" and ?clk = "clock e (n + 3)"
  from assms(1) Inr obtain a where tx: "\<exists>c k. accept_locked a i raw me requestID ?now e (Suc (Suc n)) s = (Inr (c, x), k, s')"
    by (auto simp: AcceptInvitation_def db_bind_Inr db_read_Inr db_txm_Inr)
  let ?P = "\<lambda>g. in_account g = a \<and> in_id g = i \<and> gr_hash g = HashToken raw"
  from tx obtain u k1 s0 c k where lock: "lockActiveAccount a e (Suc (Suc n)) s = (Inr u, k1, s0)" and "k1 = n + 3"
    by (auto simp: accept_locked_def db_bind_Inr lockActiveAccount_def db_read_Inr)
  from lockActiveAccount_Inr [OF lock] have act: "account_active a s" and s0: "s0 = s" by simp_all
  from tx lock s0 \<open>k1 = n + 3\<close> obtain inv g k2 user k3 s1 k4 where
    sel: "select_invitation ?P ?clk s = Some inv" "List.find ?P (grants s) = Some g"
    and live: "i_RevokedAt inv = None" "i_AcceptedAt inv = None \<longrightarrow> \<not> i_expired inv"
    and res: "resolveInvitationUser (i_Email inv) me ?now e k2 s = (Inr user, k3, s1)"
    and fin: "(if i_AcceptedAt inv \<noteq> None then s' = s1 \<and> (\<exists>acct. x = (user, acct, False))
      else \<exists>acct k5. settle_invitation a inv user requestID ?now e k3 s1 = (Inr acct, k5, s') \<and> x = (user, acct, True))"
    by (fastforce simp: accept_locked_def db_bind_Inr [of "lockActiveAccount a"] db_Inr Let_def numeral_3_eq_3 split: option.splits if_splits dest!: accountByID_Inr)
  from find_Some_in [OF sel(2)] have g: "g \<in> set (grants s)" "in_account g = a" "in_id g = i" "gr_hash g = HashToken raw" by simp_all
  from sel have scan: "scanInvitation ?clk s g = Some inv" by (auto simp: select_invitation_def)
  note cols = scanInvitation_Some [OF scan]
  from resolveInvitationUser_Inr [OF res assms(2)] have r1: "resolved (in_email g) ?now user s s1" by (simp add: cols)
  show ?thesis
  proof (cases "i_AcceptedAt inv = None")
    case False
    with fin Inr r1 show ?thesis by (auto simp: resolved_def)
  next
    case True
    with fin obtain acct k5 where "settle_invitation (in_account g) inv user requestID ?now e k3 s1 = (Inr acct, k5, s')" "x = (user, acct, True)"
      by (auto simp: g)
    with settle_invitation_Inr [OF _ r1 scan] True live g cols act Inr show ?thesis
      by (fastforce simp: grant_pending_def)
  qed
qed

text \<open>Every acceptance that succeeds, a repeated one too, was given the current token.\<close>

lemma AcceptInvitation_token:
  assumes "AcceptInvitation i raw me rid e n s = (Inr x, n', s')"
  shows "\<exists>g \<in> set (grants s). in_id g = i \<and> gr_hash g = HashToken raw"
proof -
  from assms obtain a c k where tx: "accept_locked a i raw me rid (clock e (Suc n)) e (Suc (Suc n)) s = (Inr (c, x), k, s')"
    by (auto simp: AcceptInvitation_def db_bind_Inr db_read_Inr db_txm_Inr)
  let ?P = "\<lambda>g. in_account g = a \<and> in_id g = i \<and> gr_hash g = HashToken raw"
  from tx obtain u k1 s0 clk y where lock: "lockActiveAccount a e (Suc (Suc n)) s = (Inr u, k1, s0)"
    and read: "(case (select_invitation ?P clk s0, List.find ?P (grants s0)) of (Some i, Some g) \<Rightarrow> Inr (i, gr_accepted_by g)
       | _ \<Rightarrow> Inl ErrInvitationInvalid) = Inr y"
    unfolding accept_locked_def db_bind_Inr db_read_Inr Let_def by blast
  from read obtain g where "List.find ?P (grants s0) = Some g" by (auto split: option.splits)
  with lockActiveAccount_Inr [OF lock] find_Some_in [of ?P] show ?thesis by blast
qed

end
