(* ===== verification/Identity.thy ===== *)
theory Identity
  imports Invitation
begin

text \<open>
  Who signs in: verified identities and the accounts they reach (\<open>pkg/data/postgres/auth.go\<close>), and
  the reconciliation of accounts that an old revision wrote (\<open>account.go\<close>). A verified identity
  belongs to one user; a user without an account gets one with an administrator's membership when it
  signs up directly.

  \<open>now\<close> is the start of the transaction. Advisory locks are statements that change nothing.
\<close>

section \<open>Users and identities\<close>

definition put_user :: "string \<Rightarrow> user_row \<Rightarrow> registry \<Rightarrow> User result \<times> registry" where
  "put_user what r s = wrap_result what (insert_user r s)"

definition identityOwner :: "string \<Rightarrow> string \<Rightarrow> (registry, User option \<times> string option \<times> bool) db" where
  "identityOwner provider subject =
     db_bind (db_read (Wrapf ''find verified identity: '') (\<lambda>_ s. Inr (identity_of provider subject s))) (\<lambda>found.
     case found of
       None \<Rightarrow> db_return (None, None, False)
     | Some i \<Rightarrow>
         (case id_user i of
            None \<Rightarrow> db_return (None, id_tenant i, True)
          | Some u \<Rightarrow> db_bind (userByID u) (\<lambda>user. db_return (Some user, id_tenant i, True))))"

definition legacy_user :: "account_row \<Rightarrow> nat \<Rightarrow> user_row" where
  "legacy_user t k =
     \<lparr>u_ID = nat_text k, u_Email = ToLower (btrim (t_email t)), u_EmailVerifiedAt = t_email_verified_at t, u_Status = ''active'',
      u_AvatarURL = t_avatar_url t, u_TOSAcceptedAt = t_tos_accepted_at t, u_CreatedAt = a_CreatedAt t, u_UpdatedAt = a_UpdatedAt t,
      legacy_tenant_id = Some (a_ID t)\<rparr>"

definition user_by_legacy :: "string \<Rightarrow> registry \<Rightarrow> user_row option" where
  "user_by_legacy a s = List.find (\<lambda>u. legacy_tenant_id u = Some a) (users s)"

definition ensureLegacyUser :: "string \<Rightarrow> (registry, User) db" where
  "ensureLegacyUser accountID =
     db_bind (db_read (Wrapf ''find legacy user: '') (\<lambda>_ s. Inr (map_option scanUser (user_by_legacy accountID s)))) (\<lambda>found.
     case found of
       Some u \<Rightarrow> db_return u
     | None \<Rightarrow>
         db_stmt (Wrapf ''create legacy user: '') (\<lambda>_ s.
           case account_of accountID s of
             None \<Rightarrow> (Inl (Wrapf ''create legacy user: '' no_rows), s)
           | Some t \<Rightarrow> put_user ''create legacy user: '' (legacy_user t (next_id s)) s))"

definition legacy_member :: "account_row \<Rightarrow> string \<Rightarrow> time \<Rightarrow> Membership" where
  "legacy_member t u now =
     \<lparr>m_AccountID = a_ID t, m_UserID = u, m_Role = RoleAdmin, m_CreatedByUserID = None,
      m_AcceptedAt = (case t_email_verified_at t of None \<Rightarrow> a_CreatedAt t | Some v \<Rightarrow> v),
      m_RevokedAt = None, m_RevokedByUserID = None, m_CreatedAt = now, m_UpdatedAt = now\<rparr>"

definition insertLegacyAdminMembership :: "string \<Rightarrow> string \<Rightarrow> time \<Rightarrow> (registry, unit) db" where
  "insertLegacyAdminMembership accountID userID now =
     db_write (Wrapf ''create legacy admin membership: '') (\<lambda>_ s.
       case account_of accountID s of
         None \<Rightarrow> s
       | Some t \<Rightarrow>
           if member_of accountID userID s \<noteq> None then s else s\<lparr>members := members s @ [legacy_member t userID now]\<rparr>)"

definition own_identity :: "string \<Rightarrow> string \<Rightarrow> string \<Rightarrow> registry \<Rightarrow> nat result \<times> registry" where
  "own_identity provider subject u s =
     (let P = (\<lambda>i. id_provider i = provider \<and> id_subject i = subject \<and> id_user i = None) in
      (Inr (count_where P (identities s)), s\<lparr>identities := update_where P (\<lambda>i. i\<lparr>id_user := Some u\<rparr>) (identities s)\<rparr>))"

definition reconcileLegacyIdentityOwner :: "string \<Rightarrow> string \<Rightarrow> string \<Rightarrow> time \<Rightarrow> (registry, User) db" where
  "reconcileLegacyIdentityOwner provider subject accountID now =
     db_bind (db_write (Wrapf ''lock legacy identity account: '') (\<lambda>_ s. s)) (\<lambda>_.
     db_bind (ensureLegacyUser accountID) (\<lambda>user.
     db_bind (insertLegacyAdminMembership accountID (u_ID user) now) (\<lambda>_.
     db_bind (db_stmt (Wrapf ''backfill legacy identity owner: '') (\<lambda>_. own_identity provider subject (u_ID user))) (\<lambda>updated.
     if updated = 0 then
       db_bind (identityOwner provider subject) (\<lambda>(owner, _, found).
       case owner of
         Some o' \<Rightarrow> if \<not> found then db_fail (Errorf ''legacy identity owner disappeared'') else db_return o'
       | None \<Rightarrow> db_fail (Errorf ''legacy identity owner disappeared''))
     else db_return user))))"

section \<open>Direct sign-up\<close>

definition firstRunes :: "string \<Rightarrow> nat \<Rightarrow> string" where
  "firstRunes v k = (if length v \<le> k then v else take k v)"

definition new_account :: "string \<Rightarrow> string \<Rightarrow> string \<Rightarrow> time \<Rightarrow> nat \<Rightarrow> account_row" where
  "new_account email name avatar now k =
     \<lparr>a_ID = nat_text k, a_Name = name, a_Plan = ''free'', a_Status = ''active'', a_MinSeverity = ''medium'', a_CreatedAt = now,
      a_UpdatedAt = now, t_email = email, t_email_verified_at = Some now, t_avatar_url = avatar, t_tos_accepted_at = None\<rparr>"

definition name_valid :: "string \<Rightarrow> bool" where
  "name_valid name = (name = [] \<or> name = btrim name \<and> length name \<le> 80)"

definition insert_account :: "account_row \<Rightarrow> registry \<Rightarrow> string result \<times> registry" where
  "insert_account t s =
     (if \<not> name_valid (a_Name t) \<or> list_ex (\<lambda>x. t_email x = t_email t) (accounts s) then (Inl constraint_violation, s)
      else (Inr (a_ID t), s\<lparr>accounts := accounts s @ [t], next_id := Suc (next_id s)\<rparr>))"

definition direct_member :: "string \<Rightarrow> string \<Rightarrow> time \<Rightarrow> Membership" where
  "direct_member a u now =
     \<lparr>m_AccountID = a, m_UserID = u, m_Role = RoleAdmin, m_CreatedByUserID = Some u, m_AcceptedAt = now,
      m_RevokedAt = None, m_RevokedByUserID = None, m_CreatedAt = now, m_UpdatedAt = now\<rparr>"

definition insert_member :: "Membership \<Rightarrow> registry \<Rightarrow> unit result \<times> registry" where
  "insert_member m s =
     (if member_of (m_AccountID m) (m_UserID m) s \<noteq> None then (Inl constraint_violation, s)
      else (Inr (), s\<lparr>members := members s @ [m]\<rparr>))"

definition createDirectUserAccount :: "VerifiedIdentity \<Rightarrow> time \<Rightarrow> (registry, User \<times> string) db" where
  "createDirectUserAccount vid now =
     db_bind (db_read (Wrapf ''find legacy signup account: '') (\<lambda>_ s.
       Inr (map_option a_ID (List.find (\<lambda>t. t_email t = vi_Email vid) (accounts s))))) (\<lambda>legacy.
     case legacy of
       Some accountID \<Rightarrow>
         db_bind (ensureLegacyUser accountID) (\<lambda>user.
         db_bind (insertLegacyAdminMembership accountID (u_ID user) now) (\<lambda>_.
         db_return (user, accountID)))
     | None \<Rightarrow>
         db_bind (db_stmt (Wrapf ''create direct user: '') (\<lambda>_ s.
           put_user ''create direct user: '' (new_user (vi_Email vid) (vi_AvatarURL vid) now (next_id s)) s)) (\<lambda>user.
         db_bind (db_stmt (Wrapf ''create direct account: '') (\<lambda>_ s.
           wrap_result ''create direct account: ''
             (insert_account (new_account (vi_Email vid) (firstRunes (vi_Email vid) 80) (vi_AvatarURL vid) now (next_id s)) s))) (\<lambda>accountID.
         db_bind (db_stmt (Wrapf ''create direct admin membership: '') (\<lambda>_ s.
           wrap_result ''create direct admin membership: '' (insert_member (direct_member accountID (u_ID user) now) s))) (\<lambda>_.
         db_return (user, accountID)))))"

definition onlyActiveAccount :: "string \<Rightarrow> (registry, Account option) db" where
  "onlyActiveAccount userID =
     db_read (Wrapf ''list active identity accounts: '') (\<lambda>_ s.
       Inr (case take 2 (sort_key a_ID (List.map_filter (\<lambda>m.
                if m_UserID m = userID \<and> m_RevokedAt m = None then
                  (case account_of (m_AccountID m) s of
                     Some t \<Rightarrow> if a_Status t = ''active'' then Some (scanAccount t) else None
                   | None \<Rightarrow> None)
                else None) (members s))) of
              [a] \<Rightarrow> Some a
            | _ \<Rightarrow> None))"

definition link_identity :: "string option \<Rightarrow> string \<Rightarrow> VerifiedIdentity \<Rightarrow> registry \<Rightarrow> nat result \<times> registry" where
  "link_identity tenant u vid s =
     (if identity_of (vi_Provider vid) (vi_Subject vid) s \<noteq> None then (Inr 0, s)
      else (Inr 1, s\<lparr>identities := identities s @ [\<lparr>id_tenant = tenant, id_user = Some u, id_provider = vi_Provider vid,
              id_subject = vi_Subject vid, id_email = vi_Email vid\<rparr>]\<rparr>))"

definition verify_user :: "string \<Rightarrow> string \<Rightarrow> time \<Rightarrow> registry \<Rightarrow> User result \<times> registry" where
  "verify_user u avatar now s =
     (let f = (\<lambda>r. r\<lparr>u_AvatarURL := (if avatar = [] then u_AvatarURL r else avatar),
                u_EmailVerifiedAt := Some (case u_EmailVerifiedAt r of None \<Rightarrow> now | Some t \<Rightarrow> t), u_UpdatedAt := now\<rparr>) in
      case user_of u s of
        None \<Rightarrow> (Inl (Wrapf ''verify identity user: '' no_rows), s)
      | Some r \<Rightarrow> (Inr (scanUser (f r)), s\<lparr>users := update_where (\<lambda>r. u_ID r = u) f (users s)\<rparr>))"

text \<open>An vid that is known: its user, found or made from the account of an old revision.\<close>

definition known_owner :: "VerifiedIdentity \<Rightarrow> User option \<Rightarrow> string option \<Rightarrow> time \<Rightarrow> (registry, User) db" where
  "known_owner vid user tenant now =
     (case user of
        Some u \<Rightarrow> db_return u
      | None \<Rightarrow>
          (case tenant of
             None \<Rightarrow> db_fail (Errorf ''resolve direct identity: identity has no owner'')
           | Some a \<Rightarrow> reconcileLegacyIdentityOwner (vi_Provider vid) (vi_Subject vid) a now))"

definition new_owner :: "VerifiedIdentity \<Rightarrow> time \<Rightarrow> (registry, User) db" where
  "new_owner vid now =
     db_bind (db_try (userByEmail (vi_Email vid))) (\<lambda>r.
     db_bind (case r of
         Inr u \<Rightarrow> db_return (u, None)
       | Inl err \<Rightarrow>
           if errors_Is err ErrNotFound
           then db_bind (createDirectUserAccount vid now) (\<lambda>(u, a). db_return (u, Some a))
           else db_fail err) (\<lambda>(user, created).
     db_bind (db_stmt (Wrapf ''link verified identity: '') (\<lambda>_. link_identity created (u_ID user) vid)) (\<lambda>linked.
     if linked \<noteq> 1 then db_fail errIdentityLinkRace else db_return user)))"

definition resolve_owner :: "VerifiedIdentity \<Rightarrow> time \<Rightarrow> (registry, User) db" where
  "resolve_owner vid now =
     db_bind (identityOwner (vi_Provider vid) (vi_Subject vid)) (\<lambda>(user, tenant, found).
     if found then known_owner vid user tenant now
     else
       db_bind (db_write (Wrapf ''lock verified email: '') (\<lambda>_ s. s)) (\<lambda>_.
       db_bind (identityOwner (vi_Provider vid) (vi_Subject vid)) (\<lambda>(user, tenant, found).
       if found then known_owner vid user tenant now else new_owner vid now)))"

definition resolveDirectIdentity :: "VerifiedIdentity \<Rightarrow> (registry, User \<times> Account option) db" where
  "resolveDirectIdentity vid =
     db_tx ''begin identity resolution: '' (\<lambda>now.
       db_bind (resolve_owner vid now) (\<lambda>user.
       db_bind (db_stmt (Wrapf ''verify identity user: '') (\<lambda>_. verify_user (u_ID user) (vi_AvatarURL vid) now)) (\<lambda>user.
       db_bind (onlyActiveAccount (u_ID user)) (\<lambda>acct.
       db_return (user, acct)))))
     ''commit identity resolution: ''"

text \<open>The code tries twice when another transaction linked the vid meanwhile.\<close>

definition ResolveDirectIdentity :: "VerifiedIdentity \<Rightarrow> (registry, User \<times> Account option) db" where
  "ResolveDirectIdentity vid0 =
     (let vid = vid0\<lparr>vi_Email := NormalizeEmail (vi_Email vid0)\<rparr>;
          again = (\<lambda>k. db_bind (db_try (resolveDirectIdentity vid)) (\<lambda>r.
            case r of Inr x \<Rightarrow> db_return x | Inl err \<Rightarrow> if errors_Is err errIdentityLinkRace then k else db_fail err))
      in again (again (db_fail (Wrapf ''resolve direct identity: '' errIdentityLinkRace))))"

section \<open>Accounts of an old revision\<close>

record compatibilityOwner =
  co_userID :: string
  co_legacy :: bool

definition identity_owners :: "string \<Rightarrow> registry \<Rightarrow> string list" where
  "identity_owners a s = remdups (List.map_filter (\<lambda>i. if id_tenant i = Some a then id_user i else None) (identities s))"

definition modern_state :: "string \<Rightarrow> registry \<Rightarrow> bool" where
  "modern_state a s =
     (list_ex (\<lambda>m. m_AccountID m = a) (members s) \<or> list_ex (\<lambda>x. se_tenant x = Some a \<and> se_user x \<noteq> None) (sessions s))"

definition resolveCompatibilityOwner :: "string \<Rightarrow> (registry, compatibilityOwner option) db" where
  "resolveCompatibilityOwner accountID =
     db_bind (db_read (Wrapf ''read legacy compatibility owner: '') (\<lambda>_ s. Inr (map_option u_ID (user_by_legacy accountID s)))) (\<lambda>legacy.
     case legacy of
       Some u \<Rightarrow> db_return (Some \<lparr>co_userID = u, co_legacy = True\<rparr>)
     | None \<Rightarrow>
         db_bind (db_read (Wrapf ''read modern compatibility owner: '') (\<lambda>_ s. Inr (sort (identity_owners accountID s)))) (\<lambda>owners.
         case owners of
           [u] \<Rightarrow> db_return (Some \<lparr>co_userID = u, co_legacy = False\<rparr>)
         | [] \<Rightarrow>
             db_bind (db_read (Wrapf ''check modern compatibility state: '') (\<lambda>_ s. Inr (modern_state accountID s))) (\<lambda>modern.
             if modern then db_fail errCompatibilityOwnerMissing else db_return None)
         | _ \<Rightarrow> db_fail errCompatibilityOwnerAmbiguous))"

definition backfill_name :: "string \<Rightarrow> registry \<Rightarrow> unit result \<times> registry" where
  "backfill_name a s =
     (let ts = update_where (\<lambda>t. a_ID t = a \<and> a_Name t = []) (\<lambda>t. t\<lparr>a_Name := take 80 (btrim (t_email t))\<rparr>) (accounts s) in
      if list_all (\<lambda>t. name_valid (a_Name t)) ts then (Inr (), s\<lparr>accounts := ts\<rparr>) else (Inl constraint_violation, s))"

definition backfill_identities :: "string \<Rightarrow> string \<Rightarrow> registry \<Rightarrow> registry" where
  "backfill_identities a u s =
     s\<lparr>identities := update_where (\<lambda>i. id_tenant i = Some a \<and> id_user i = None) (\<lambda>i. i\<lparr>id_user := Some u\<rparr>) (identities s)\<rparr>"

definition live_member :: "string \<Rightarrow> string \<Rightarrow> registry \<Rightarrow> bool" where
  "live_member a u s = (list_ex (member_live a u) (members s) \<and> account_active a s)"

definition backfill_sessions :: "string \<Rightarrow> string \<Rightarrow> time \<Rightarrow> registry \<Rightarrow> registry" where
  "backfill_sessions a u now s =
     s\<lparr>sessions := update_where (\<lambda>x. se_tenant x = Some a \<and> se_user x = None \<and> se_expires x > now)
        (\<lambda>x. x\<lparr>se_user := Some u, se_active := (if live_member a u s then Some a else None)\<rparr>) (sessions s)\<rparr>"

text \<open>What is filled in once the owner is known.\<close>

definition backfill_account :: "string \<Rightarrow> compatibilityOwner \<Rightarrow> time \<Rightarrow> (registry, unit) db" where
  "backfill_account accountID owner now =
     db_bind (db_stmt (Wrapf ''backfill compatibility account name: '') (\<lambda>_ s.
       wrap_result ''backfill compatibility account name: '' (backfill_name accountID s))) (\<lambda>_.
     db_bind (if co_legacy owner then insertLegacyAdminMembership accountID (co_userID owner) now else db_return ()) (\<lambda>_.
     db_bind (db_write (Wrapf ''backfill compatibility identities: '') (\<lambda>_. backfill_identities accountID (co_userID owner))) (\<lambda>_.
     db_write (Wrapf ''backfill compatibility sessions: '') (\<lambda>_. backfill_sessions accountID (co_userID owner) now))))"

definition reconcileCompatibilityAccount :: "string \<Rightarrow> time \<Rightarrow> (registry, unit) db" where
  "reconcileCompatibilityAccount accountID now =
     db_bind (resolveCompatibilityOwner accountID) (\<lambda>found.
     db_bind (case found of
         Some o' \<Rightarrow> db_return o'
       | None \<Rightarrow> db_bind (ensureLegacyUser accountID) (\<lambda>user. db_return \<lparr>co_userID = u_ID user, co_legacy = True\<rparr>)) (\<lambda>owner.
     backfill_account accountID owner now))"

definition ReconcileLegacyAccount :: "string \<Rightarrow> (registry, unit) db" where
  "ReconcileLegacyAccount accountID =
     db_tx ''begin legacy account reconciliation: '' (\<lambda>now.
       db_bind (db_read (Wrapf ''lock legacy account: '') (\<lambda>_ s.
         if account_of accountID s = None then Inl ErrNotFound else Inr ())) (\<lambda>_.
       reconcileCompatibilityAccount accountID now))
     ''commit legacy account reconciliation: ''"

definition legacy_incomplete :: "time \<Rightarrow> registry \<Rightarrow> account_row \<Rightarrow> bool" where
  "legacy_incomplete now s t =
     (let owner = user_by_legacy (a_ID t) s in
      owner = None \<or> a_Name t = [] \<or>
      (case owner of None \<Rightarrow> False | Some u \<Rightarrow> \<not> list_ex (\<lambda>m. m_AccountID m = a_ID t \<and> m_UserID m = u_ID u) (members s)) \<or>
      list_ex (\<lambda>i. id_tenant i = Some (a_ID t) \<and> id_user i = None) (identities s) \<or>
      list_ex (\<lambda>x. se_tenant x = Some (a_ID t) \<and> se_expires x > now \<and> se_user x = None) (sessions s))"

definition ReconcileLegacyAccounts :: "(registry, unit) db" where
  "ReconcileLegacyAccounts =
     db_bind (db_read (Wrapf ''list legacy accounts: '') (\<lambda>now s.
       Inr (sort (map a_ID (filter (legacy_incomplete now s) (accounts s)))))) (\<lambda>ids.
     db_foreach ids (\<lambda>a. db_wrap (''reconcile legacy account '' @ a @ '': '') (ReconcileLegacyAccount a)))"

definition sharing_incomplete :: "time \<Rightarrow> registry \<Rightarrow> bool" where
  "sharing_incomplete now s =
     (list_ex (\<lambda>t. a_Name t = [] \<or> \<not> list_ex (\<lambda>m. m_AccountID m = a_ID t \<and> user_of (m_UserID m) s \<noteq> None) (members s)) (accounts s) \<or>
      list_ex (\<lambda>i. id_user i = None) (identities s) \<or>
      list_ex (\<lambda>x. se_expires x > now \<and> se_tenant x \<noteq> None \<and> (se_user x = None \<or> se_active x = None)) (sessions s))"

definition VerifyAccountSharingReady :: "(registry, unit) db" where
  "VerifyAccountSharingReady =
     db_bind (db_read (Wrapf ''verify account sharing compatibility state: '') (\<lambda>now s. Inr (sharing_incomplete now s))) (\<lambda>incomplete.
     if incomplete then db_fail (Errorf ''account sharing compatibility state is incomplete'') else db_return ())"

end
