(* ===== verification/Registry.thy ===== *)
theory Registry
  imports Invitation_Rules Identity
begin

text \<open>
  The registry as a state machine: the invariant of its tables, a step relation over the operations
  on accounts, members and invitations and the delivery worker, and what every step keeps. An
  account that has an active administrator never loses the last one; an invitation never leaves a
  settled state; the audit log only grows; and towards the delivery worker the handlers are steps of
  its own state machine.
\<close>

section \<open>The invariant\<close>

definition unclaimed :: "registry \<Rightarrow> bool" where
  "unclaimed s = (\<forall>g \<in> set (grants s). grant_pending g \<longrightarrow> \<not> active_email (in_account g) (in_email g) s)"

definition members_ok :: "registry \<Rightarrow> bool" where
  "members_ok s = (distinct (member_keys s) \<and> (\<forall>m \<in> set (members s). user_of (m_UserID m) s \<noteq> None))"

text \<open>Accounts: identifiers are drawn from the counter; an account with invitations has members, one
  with members has a user with its address, and the user made from an old account is among its
  members.\<close>

abbreviation drawn :: "registry \<Rightarrow> string set" where
  "drawn s \<equiv> nat_text ` {..<next_id s}"

definition accounts_ok :: "registry \<Rightarrow> bool" where
  "accounts_ok s \<longleftrightarrow>
     distinct (map a_ID (accounts s)) \<and> (\<forall>t \<in> set (accounts s). a_ID t \<in> drawn s) \<and>
     (\<forall>m \<in> set (members s). m_AccountID m \<in> drawn s) \<and>
     (\<forall>g \<in> set (grants s). \<exists>m \<in> set (members s). m_AccountID m = in_account g) \<and>
     (\<forall>t \<in> set (accounts s). (\<exists>m \<in> set (members s). m_AccountID m = a_ID t) \<longrightarrow> user_by_email (ToLower (btrim (t_email t))) s \<noteq> None) \<and>
     (\<forall>u \<in> set (users s). \<forall>a. legacy_tenant_id u = Some a \<longrightarrow> (\<exists>m \<in> set (members s). member_key m = (a, u_ID u)))"

definition registry_inv :: "registry \<Rightarrow> bool" where
  "registry_inv s = (users_ok s \<and> members_ok s \<and> grants_ok (grants s) \<and> unclaimed s \<and> accounts_ok s)"

lemma registry_invD:
  assumes "registry_inv s"
  shows "users_ok s" "members_ok s" "grants_ok (grants s)" "unclaimed s" "accounts_ok s"
  using assms by (simp_all add: registry_inv_def)

abbreviation account_names :: "registry \<Rightarrow> (string \<times> string) list" where
  "account_names s \<equiv> map (\<lambda>t. (a_ID t, t_email t)) (accounts s)"

lemma account_named:
  assumes "account_names s' = account_names s" and "t \<in> set (accounts s')"
  obtains t0 where "t0 \<in> set (accounts s)" and "a_ID t0 = a_ID t" and "t_email t0 = t_email t"
proof -
  have "(a_ID t, t_email t) \<in> set (account_names s')" using assms(2) by force
  then have "(a_ID t, t_email t) \<in> set (account_names s)" unfolding assms(1) .
  then show ?thesis using that by force
qed

lemma account_ids: "account_names s' = account_names s \<Longrightarrow> map a_ID (accounts s') = map a_ID (accounts s)"
  by (drule arg_cong [where f = "map fst"]) (simp add: o_def)

lemma accounts_ok_mono:
  assumes ok: "accounts_ok s" and acc: "account_names s' = account_names s" and nx: "next_id s \<le> next_id s'"
    and mem: "\<And>m'. m' \<in> set (members s') \<Longrightarrow> \<exists>m \<in> set (members s). m_AccountID m = m_AccountID m'"
    and keeps: "\<And>m. m \<in> set (members s) \<Longrightarrow> \<exists>m' \<in> set (members s'). member_key m' = member_key m"
    and gr: "\<And>g. g \<in> set (grants s') \<Longrightarrow> \<exists>m \<in> set (members s). m_AccountID m = in_account g"
    and us: "\<And>k. user_by_email k s \<noteq> None \<Longrightarrow> user_by_email k s' \<noteq> None"
    and leg: "\<And>u a. u \<in> set (users s') \<Longrightarrow> legacy_tenant_id u = Some a \<Longrightarrow> \<exists>u0 \<in> set (users s). legacy_tenant_id u0 = Some a \<and> u_ID u0 = u_ID u"
  shows "accounts_ok s'"
proof -
  have sub: "drawn s \<subseteq> drawn s'" using nx by auto
  have "distinct (map a_ID (accounts s'))" using ok account_ids [OF acc] by (simp add: accounts_ok_def)
  moreover have "a_ID t \<in> drawn s'" if "t \<in> set (accounts s')" for t
    using account_named [OF acc that] ok sub unfolding accounts_ok_def by (metis subsetD)
  moreover have "m_AccountID m \<in> drawn s'" if "m \<in> set (members s')" for m
    using mem [OF that] ok sub unfolding accounts_ok_def by (metis subsetD)
  moreover have "\<exists>m' \<in> set (members s'). m_AccountID m' = in_account g" if "g \<in> set (grants s')" for g
    using gr [OF that] keeps by (metis prod.inject)
  moreover have "user_by_email (ToLower (btrim (t_email t))) s' \<noteq> None"
    if t: "t \<in> set (accounts s')" and m: "m \<in> set (members s')" "m_AccountID m = a_ID t" for t m
    using account_named [OF acc t] mem [OF m(1)] m(2) us ok unfolding accounts_ok_def by metis
  moreover have "\<exists>m \<in> set (members s'). member_key m = (a, u_ID u)" if "u \<in> set (users s')" "legacy_tenant_id u = Some a" for u a
    using leg [OF that] keeps ok unfolding accounts_ok_def by metis
  ultimately show ?thesis unfolding accounts_ok_def by blast
qed

section \<open>How invitations go on\<close>

definition grant_goes :: "grant_row \<Rightarrow> grant_row \<Rightarrow> bool" where
  "grant_goes g g' \<longleftrightarrow>
     in_id g' = in_id g \<and> in_account g' = in_account g \<and> in_email g' = in_email g \<and> gr_created g' = gr_created g \<and>
     in_version g \<le> in_version g' \<and> (in_version g' = in_version g \<longrightarrow> gr_hash g' = gr_hash g) \<and>
     (\<not> grant_pending g \<longrightarrow> g' = g)"

definition grants_go :: "grant_row list \<Rightarrow> grant_row list \<Rightarrow> bool" where
  "grants_go gs gs' = (\<forall>g \<in> set gs. \<exists>g' \<in> set gs'. grant_goes g g')"

lemma grant_goes_refl [simp]: "grant_goes g g"
  by (simp add: grant_goes_def)

lemma grant_goes_trans: "grant_goes g g' \<Longrightarrow> grant_goes g' g'' \<Longrightarrow> grant_goes g g''"
  unfolding grant_goes_def by (metis order.antisym order.trans)

lemma grants_go_refl [simp]: "grants_go gs gs"
  by (auto simp: grants_go_def intro: grant_goes_refl)

lemma grants_go_trans: "grants_go gs gs' \<Longrightarrow> grants_go gs' gs'' \<Longrightarrow> grants_go gs gs''"
  unfolding grants_go_def by (meson grant_goes_trans)

lemma grants_go_update:
  assumes "\<And>g. g \<in> set gs \<Longrightarrow> P g \<Longrightarrow> grant_goes g (f g)"
  shows "grants_go gs (update_where P f gs)"
  unfolding grants_go_def
proof
  fix g assume g: "g \<in> set gs"
  then have "(if P g then f g else g) \<in> set (update_where P f gs)" by (auto simp: update_where_def)
  moreover have "grant_goes g (if P g then f g else g)" using assms g by simp
  ultimately show "\<exists>g' \<in> set (update_where P f gs). grant_goes g g'" by blast
qed

lemma grants_go_append: "grants_go gs (gs @ gs')"
  by (auto simp: grants_go_def intro: grant_goes_refl)

text \<open>One step of the registry and every sequence of them: when the invariant holds before, it holds
  after.\<close>

definition reg_advances :: "registry \<Rightarrow> registry \<Rightarrow> bool" where
  "reg_advances s s' \<longleftrightarrow>
     (registry_inv s \<longrightarrow> registry_inv s' \<and> keeps_admins s s' \<and> grants_go (grants s) (grants s') \<and>
        mail_steps (mail_view s) (mail_view s') \<and> prefix (audit s) (audit s'))"

lemma reg_advances_refl [simp]: "reg_advances s s"
  by (simp add: reg_advances_def keeps_admins_def)

lemma reg_advances_trans: "reg_advances s s' \<Longrightarrow> reg_advances s' s'' \<Longrightarrow> reg_advances s s''"
  unfolding reg_advances_def keeps_admins_def by (meson grants_go_trans prefix_order.trans rtranclp_trans)

section \<open>Towards the delivery worker\<close>

lemma truncate_simps [simp]:
  "in_id (invitation_row.truncate g) = in_id g" "in_account (invitation_row.truncate g) = in_account g"
  by (simp_all add: invitation_row.truncate_def)

lemma mail_view_invitations:
  assumes "grants_ok gs" and "grants_go (grants s) gs"
  shows "mail_step (mail_view s) ((post s)\<lparr>invitations := map invitation_row.truncate gs\<rparr>)"
proof -
  have "mail_step (mail_view s) ((mail_view s)\<lparr>invitations := map invitation_row.truncate gs\<rparr>)"
  proof (rule mail_step.invitations)
    show "distinct (map in_id (map invitation_row.truncate gs))" using assms(1) by (simp add: grants_ok_def o_def)
    show "\<forall>i \<in> set (invitations (mail_view s)). \<exists>j \<in> set (map invitation_row.truncate gs). in_id j = in_id i \<and> in_account j = in_account i"
      using assms(2) by (fastforce simp: mail_view_def grants_go_def grant_goes_def)
  qed
  then show ?thesis by (simp add: mail_view_def)
qed

lemma mail_view_steps:
  assumes "grants_ok gs" and "grants_go (grants s) gs" and "grants s' = gs" and "post s' = post s"
  shows "mail_steps (mail_view s) (mail_view s')"
  using mail_view_invitations [OF assms(1,2)] assms(3,4) by (auto simp: mail_view_def)

lemma mail_view_same: "grants s' = grants s \<Longrightarrow> post s' = post s \<Longrightarrow> mail_view s' = mail_view s"
  by (simp add: mail_view_def)

section \<open>Members and addresses\<close>

lemma has_admin_cong: "members s' = members s \<Longrightarrow> users s' = users s \<Longrightarrow> has_admin s' a = has_admin s a"
  using active_admin_cong [of s' s] by (simp add: has_admin_def list_ex_iff)

lemma active_email_iff:
  "active_email a m s \<longleftrightarrow> (\<exists>x \<in> set (members s). m_AccountID x = a \<and> m_RevokedAt x = None \<and> (\<exists>u. user_of (m_UserID x) s = Some u \<and> u_Email u = m))"
  by (auto simp: active_email_def list_ex_iff split: option.splits)

lemma unclaimed_mono:
  assumes "unclaimed s" and "\<And>a m. active_email a m s' \<Longrightarrow> active_email a m s"
    and "\<And>g. g \<in> set (grants s') \<Longrightarrow> grant_pending g \<Longrightarrow> \<exists>h \<in> set (grants s). grant_pending h \<and> in_account h = in_account g \<and> in_email h = in_email g"
  shows "unclaimed s'"
  using assms unfolding unclaimed_def by metis

text \<open>A step that leaves users, members, invitations and the outbox alone.\<close>

lemma reg_advances_frame:
  assumes "users s' = users s" "members s' = members s" "grants s' = grants s" "post s' = post s" "next_id s' = next_id s"
    and "account_names s' = account_names s" and "prefix (audit s) (audit s')"
  shows "reg_advances s s'"
  unfolding reg_advances_def
proof
  assume inv: "registry_inv s"
  have "accounts_ok s'"
  proof (rule accounts_ok_mono [OF registry_invD(5) [OF inv] assms(6)])
    show "\<exists>m \<in> set (members s). m_AccountID m = in_account g" if "g \<in> set (grants s')" for g
      using registry_invD(5) [OF inv] that unfolding assms(3) accounts_ok_def by blast
  qed (use assms(1,2,5) in \<open>auto simp: user_by_email_def\<close>)
  moreover have "active_email a m s' = active_email a m s" for a m using assms(1,2) by (simp add: active_email_iff user_of_def)
  ultimately have "registry_inv s'"
    using inv assms by (simp add: registry_inv_def users_ok_def members_ok_def unclaimed_def user_of_def)
  with assms keeps_admins_same [OF assms(2,1)]
  show "registry_inv s' \<and> keeps_admins s s' \<and> grants_go (grants s) (grants s') \<and> mail_steps (mail_view s) (mail_view s') \<and> prefix (audit s) (audit s')"
    by (simp add: mail_view_def)
qed

text \<open>A membership that changed its role or was revoked.\<close>

lemma member_effect_advances:
  assumes "member_effect P a u f now s s1" and f: "\<And>m. member_live a u m \<Longrightarrow> member_key (f now m) = member_key m"
  shows "reg_advances s (insert_audit a' actor ev metadata now s1)"
proof -
  let ?s' = "insert_audit a' actor ev metadata now s1"
  from assms(1) have s1: "s1 = s\<lparr>members := update_where (member_live a u) (f now) (members s)\<rparr>"
    and k: "distinct (member_keys s) \<longrightarrow> keeps_admins s s1" unfolding member_effect_def by blast+
  have eq: "users ?s' = users s" "members ?s' = update_where (member_live a u) (f now) (members s)" "grants ?s' = grants s" "post ?s' = post s" "next_id ?s' = next_id s"
    by (simp_all add: insert_audit_def s1)
  have keys: "member_keys ?s' = member_keys s" using keys_update_where [of "member_live a u" member_key "f now" "members s"] f by (simp add: eq)
  have live: "\<exists>x \<in> set (members s). m_AccountID x = m_AccountID y \<and> m_UserID x = m_UserID y \<and> (m_RevokedAt y = None \<longrightarrow> m_RevokedAt x = None)"
    if "y \<in> set (members ?s')" for y
    using that f unfolding eq by (fastforce simp: set_update_where member_live_def)
  have act: "active_email b m s" if "active_email b m ?s'" for b m
    using that live unfolding active_email_iff by (fastforce simp: user_of_def eq)
  have "members_ok ?s'" if "members_ok s"
    using that keys live by (fastforce simp: members_ok_def user_of_def eq)
  moreover have "unclaimed ?s'" if "unclaimed s" using that act by (auto simp: unclaimed_def eq)
  moreover have "keeps_admins s ?s'" if "distinct (member_keys s)"
    using k that has_admin_cong [of ?s' s1] by (simp add: keeps_admins_def insert_audit_def)
  moreover have "accounts_ok ?s'" if "accounts_ok s"
  proof (rule accounts_ok_mono [OF that])
    show "\<exists>m' \<in> set (members ?s'). member_key m' = member_key m" if "m \<in> set (members s)" for m
      using that keys by (metis (no_types, lifting) image_iff image_set)
    show "\<exists>m \<in> set (members s). m_AccountID m = m_AccountID m'" if "m' \<in> set (members ?s')" for m'
      using live [OF that] by blast
  qed (use live that in \<open>auto simp: insert_audit_def s1 user_by_email_def accounts_ok_def\<close>)
  ultimately show ?thesis
    by (auto simp: reg_advances_def registry_inv_def users_ok_def members_ok_def eq mail_view_def insert_audit_def s1)
qed

section \<open>Rotations\<close>

lemma grant_by_id: "grants_ok gs \<Longrightarrow> g \<in> set gs \<Longrightarrow> h \<in> set gs \<Longrightarrow> in_id g = in_id h \<Longrightarrow> g = h"
  unfolding grants_ok_def by (meson distinct_map inj_onD)

lemma issued_grants_go:
  assumes "grants_ok (grants s)" and "rotation_target a email uuid old s"
  shows "grants_go (grants s) (issued_grants uuid old a email role inviter hash now (grants s))"
proof (cases "old = 0")
  case True
  then show ?thesis by (simp add: issued_grants_def grants_go_append)
next
  case False
  with assms(2) obtain g where g: "g \<in> set (grants s)" "grant_is a uuid g" "in_version g = old" by (auto simp: rotation_target_def)
  have "grant_goes h (rotate_grant role inviter hash (old + 1) now h)" if "h \<in> set (grants s)" "grant_is a uuid h" for h
  proof -
    have "h = g" using grant_by_id [OF assms(1) that(1) g(1)] that(2) g(2) by (simp add: grant_is_def)
    with g show ?thesis by (simp add: grant_goes_def rotate_grant_def grant_is_def)
  qed
  then show ?thesis using False by (simp add: issued_grants_def grants_go_update)
qed

lemma issued_unclaimed:
  assumes "grants_ok (grants s)" and "rotation_target a email uuid old s" and "unclaimed s"
    and "g \<in> set (issued_grants uuid old a email role inviter hash now (grants s))" and "grant_pending g"
  shows "\<not> active_email (in_account g) (in_email g) s"
proof -
  have "old \<noteq> 0" if "h \<in> set (grants s)" "in_version h = old" for h
    using assms(1) that by (auto simp: grants_ok_def list_all_iff grant_checks_def)
  with assms show ?thesis
    by (auto simp: issued_grants_def rotation_target_def unclaimed_def new_grant_def set_update_where rotate_grant_def grant_is_def grant_pending_def
        split: if_splits)
qed

lemma enqueued_invitations: "enqueued now a d p p' \<Longrightarrow> invitations p' = invitations p"
  by (auto simp: enqueued_def dest!: Enqueue_Inr)

lemma issued_advances:
  assumes "issued R a actor requestID key now uuid old email role action s s'" and "rotation_target a email uuid old s"
    and "is_admin s a (UserID actor)"
  shows "reg_advances s s'"
  unfolding reg_advances_def
proof
  assume inv: "registry_inv s"
  then have gok: "grants_ok (grants s)" by (simp add: registry_inv_def)
  from assms(1) obtain rs raw gs p x d where gs: "gs = issued_grants uuid old a email role (UserID actor) (HashToken raw) now (grants s)"
    and ok: "grants_ok gs" and enq: "enqueued now a d ((post s)\<lparr>invitations := map invitation_row.truncate gs\<rparr>) p"
    and s': "s' = s\<lparr>rates := rs, grants := gs, post := p, audit := audit s @ [x]\<rparr>"
    unfolding issued_def by blast
  have go: "grants_go (grants s) gs" unfolding gs by (rule issued_grants_go [OF gok assms(2)])
  have eq: "users s' = users s" "members s' = members s" "grants s' = gs" "next_id s' = next_id s" by (simp_all add: s')
  have "unclaimed s'"
    using issued_unclaimed [OF gok assms(2)] inv unfolding unclaimed_def eq
    by (auto simp: active_email_iff user_of_def s' gs registry_inv_def unclaimed_def)
  moreover have "users_ok s'" "members_ok s'" using inv by (simp_all add: registry_inv_def users_ok_def members_ok_def user_of_def s')
  moreover have "accounts_ok s'"
  proof (rule accounts_ok_mono [OF registry_invD(5) [OF inv]])
    from assms(3) obtain m0 where m0: "m0 \<in> set (members s)" "m_AccountID m0 = a" by (auto simp: is_admin_def list_ex_iff active_admin_def)
    have home: "\<exists>m \<in> set (members s). m_AccountID m = in_account h" if "h \<in> set (grants s)" for h
      using registry_invD(5) [OF inv] that by (auto simp: accounts_ok_def)
    show "\<exists>m \<in> set (members s). m_AccountID m = in_account g" if "g \<in> set (grants s')" for g
      using that m0 home unfolding eq gs
      by (auto simp: issued_grants_def new_grant_def set_update_where rotate_grant_def split: if_splits)
  qed (auto simp: s' user_by_email_def)
  moreover have "mail_steps (mail_view s) (mail_view s')"
  proof -
    have "mail_view s' = p" using enqueued_invitations [OF enq] by (simp add: mail_view_def s')
    moreover have "mail_step ((post s)\<lparr>invitations := map invitation_row.truncate gs\<rparr>) p" using enq by (auto simp: enqueued_def intro: mail_step.enqueue)
    ultimately show ?thesis using mail_view_invitations [OF ok go] by (metis converse_rtranclp_into_rtranclp r_into_rtranclp)
  qed
  ultimately show "registry_inv s' \<and> keeps_admins s s' \<and> grants_go (grants s) (grants s') \<and> mail_steps (mail_view s) (mail_view s') \<and> prefix (audit s) (audit s')"
    using ok go keeps_admins_same [of s' s] by (simp add: registry_inv_def s')
qed

section \<open>Settling an invitation\<close>

lemma grants_go_accept: "grants_go gs (update_where (grant_is a i) (accept_grant u now) gs)"
  by (rule grants_go_update) (simp add: grant_goes_def grant_is_def accept_grant_def)

lemma grants_go_revoke: "grants_go gs (update_where (grant_is a i) (revoke_grant u now) gs)"
  by (rule grants_go_update) (simp add: grant_goes_def grant_is_def revoke_grant_def)

lemma upsert_cases:
  "y \<in> set (upsert key upd r rs) \<Longrightarrow> y = r \<or> y \<in> set rs \<or> (\<exists>x \<in> set rs. key x = key r \<and> y = upd x)"
  by (induction rs) (auto split: if_splits)

lemma upsert_back:
  "x \<in> set rs \<Longrightarrow> (\<And>x. key x = key r \<Longrightarrow> key (upd x) = key r) \<Longrightarrow> \<exists>y \<in> set (upsert key upd r rs). key y = key x"
  using upsert_covers [of x rs key upd r] by metis

lemma upsert_keeps: "x \<in> set rs \<Longrightarrow> key x \<noteq> key r \<Longrightarrow> x \<in> set (upsert key upd r rs)"
  using upsert_covers [of x rs key upd r] by auto

text \<open>What is still pending after an update that settles.\<close>

lemma pending_after:
  assumes "g \<in> set (update_where P f gs)" and "grant_pending g" and "\<And>k. \<not> grant_pending (f k)"
  shows "g \<in> set gs \<and> \<not> P g"
proof -
  from assms(1) obtain k where k: "k \<in> set gs" "g = (if P k then f k else k)" by (auto simp: set_update_where)
  with assms(2,3) have "\<not> P k" by auto
  with k show ?thesis by simp
qed

lemma settles [simp]: "\<not> grant_pending (accept_grant u t k)" "\<not> grant_pending (revoke_grant u t k)"
  by (simp_all add: accept_grant_def revoke_grant_def grant_pending_def)

text \<open>Resolving the user: users keep their rows, and the resolved one has the address.\<close>

lemma user_of_add_user: "user_of u s = Some r \<Longrightarrow> user_of u (add_user m now s) = Some r"
  by (simp add: user_of_def add_user_def lookup_key_append)

lemma fresh_user: "users_ok s \<Longrightarrow> user_of (nat_text (next_id s)) s = None"
  unfolding user_of_def users_ok_def lookup_key_None using nat_text_inj by (metis imageE lessThan_iff less_irrefl)

lemma users_ok_add_user:
  assumes "users_ok s" and "user_by_email m s = None"
  shows "users_ok (add_user m now s)"
proof -
  have "nat_text (next_id s) \<notin> u_ID ` set (users s)" using fresh_user [OF assms(1)] by (simp add: user_of_def lookup_key_None)
  moreover have "m \<notin> u_Email ` set (users s)" using assms(2) by (simp add: user_by_email_def lookup_key_None)
  ultimately show ?thesis using assms(1)
    by (fastforce simp: users_ok_def add_user_def new_user_def less_Suc_eq)
qed

lemma resolved_users:
  assumes "resolved m now user s s1" and "users_ok s"
  shows "users_ok s1" and "\<exists>r. user_of (u_ID user) s1 = Some r \<and> u_Email r = m \<and> u_Status r = ''active''"
    and "user_of u s = Some r \<Longrightarrow> user_of u s1 = Some r"
    and "user_of (u_ID user) s = Some r \<Longrightarrow> u_Email r = m"
    and "members s1 = members s" "grants s1 = grants s" "post s1 = post s" "audit s1 = audit s"
proof -
  have new: "user_of (nat_text (next_id s)) (add_user m now s) = Some (new_user m [] now (next_id s))"
    using fresh_user [OF assms(2)] by (simp add: user_of_def add_user_def lookup_key_append new_user_def)
  show "users_ok s1" using assms users_ok_add_user by (auto simp: resolved_def)
  show "\<exists>r. user_of (u_ID user) s1 = Some r \<and> u_Email r = m \<and> u_Status r = ''active''"
    using assms new by (auto simp: resolved_def) (simp_all add: new_user_def)
  show "user_of u s1 = Some r" if "user_of u s = Some r"
    using assms that user_of_add_user by (auto simp: resolved_def)
  show "u_Email r = m" if "user_of (u_ID user) s = Some r"
    using assms that fresh_user [OF assms(2)] by (auto simp: resolved_def) (simp add: new_user_def)
  show "members s1 = members s" "grants s1 = grants s" "post s1 = post s" "audit s1 = audit s"
    using assms(1) by (auto simp: resolved_def add_user_def)
qed

text \<open>Only the address of the invitation becomes a member's.\<close>

lemma consumed_active:
  assumes "registry_inv s" and "resolved m now user s s1" and "s' = (put_member a (u_ID user) role inviter now s1)\<lparr>identities := ids, grants := gs, audit := evs\<rparr>"
    and "active_email b k s'"
  shows "active_email b k s \<or> b = a \<and> k = m"
proof -
  note u = resolved_users [OF assms(2)]
  from assms(1) have uok: "users_ok s" and fk: "\<And>x. x \<in> set (members s) \<Longrightarrow> user_of (m_UserID x) s \<noteq> None"
    by (auto simp: registry_inv_def members_ok_def)
  from assms(4) obtain y r where y: "y \<in> set (members s')" "m_AccountID y = b" "m_RevokedAt y = None" "user_of (m_UserID y) s1 = Some r" "u_Email r = k"
    by (auto simp: active_email_iff assms(3) put_member_def user_of_def)
  consider "y \<in> set (members s)" | "m_AccountID y = a" "m_UserID y = u_ID user"
    using y(1) by (auto simp: assms(3) put_member_def u(5) [OF uok] invited_member_def dest!: upsert_cases)
  then show ?thesis
  proof cases
    case 1
    with fk obtain r' where "user_of (m_UserID y) s = Some r'" by blast
    with u(3) [OF uok this] y(4) have "user_of (m_UserID y) s = Some r" by simp
    with 1 y show ?thesis by (auto simp: active_email_iff)
  next
    case 2
    with u(2) [OF uok] y show ?thesis by auto
  qed
qed

lemma consumed_members_ok:
  assumes "registry_inv s" and "resolved m now user s s1" and "s' = (put_member a (u_ID user) role inviter now s1)\<lparr>identities := ids, grants := gs, audit := evs\<rparr>"
  shows "members_ok s'" and "users_ok s'"
proof -
  from assms(1) have uok: "users_ok s" and mok: "members_ok s" by (simp_all add: registry_inv_def)
  note u = resolved_users [OF assms(2) uok]
  let ?upd = "\<lambda>m. m\<lparr>m_Role := role, m_CreatedByUserID := nullStr inviter, m_AcceptedAt := now, m_RevokedAt := None, m_RevokedByUserID := None, m_UpdatedAt := now\<rparr>"
  have ms: "members s' = upsert member_key ?upd (invited_member a (u_ID user) role inviter now) (members s)"
    by (simp add: assms(3) put_member_def u)
  have "distinct (member_keys s')"
    using distinct_key_upsert [of member_key "members s" "invited_member a (u_ID user) role inviter now" ?upd] mok
    by (simp add: ms distinct_key_def members_ok_def)
  moreover have "user_of (m_UserID y) s' \<noteq> None" if "y \<in> set (members s')" for y
  proof -
    from upsert_cases [OF that [unfolded ms]] consider "y \<in> set (members s)" | "m_UserID y = u_ID user" by (auto simp: invited_member_def)
    then have "user_of (m_UserID y) s1 \<noteq> None" using mok u(2) u(3) by cases (auto simp: members_ok_def)
    then show ?thesis by (simp add: user_of_def assms(3) put_member_def)
  qed
  ultimately show "members_ok s'" by (simp add: members_ok_def)
  show "users_ok s'" using u(1) by (simp add: users_ok_def assms(3) put_member_def)
qed

text \<open>An acceptance never rewrites an active membership, so no administrator is lost to it.\<close>

lemma consumed_keeps_admins:
  assumes inv: "registry_inv s" and res: "resolved (in_email g) now user s s1" and g: "g \<in> set (grants s)" "grant_pending g"
    and s': "s' = (put_member (in_account g) (u_ID user) role inviter now s1)\<lparr>identities := ids, grants := gs, audit := evs\<rparr>"
  shows "keeps_admins s s'"
  unfolding keeps_admins_def
proof (intro allI impI)
  fix b assume "has_admin s b"
  then obtain m where m: "m \<in> set (members s)" "active_admin s b m" by (auto simp: has_admin_def list_ex_iff)
  from inv have uok: "users_ok s" and "user_of (m_UserID m) s \<noteq> None" using m(1) by (auto simp: registry_inv_def members_ok_def)
  then obtain r where r: "user_of (m_UserID m) s = Some r" by blast
  note u = resolved_users [OF res uok]
  have "member_key m \<noteq> (in_account g, u_ID user)"
  proof
    assume k: "member_key m = (in_account g, u_ID user)"
    with u(4) r have "u_Email r = in_email g" by auto
    with m k r have "active_email (in_account g) (in_email g) s" by (auto simp: active_email_iff active_admin_def)
    with inv g show False by (auto simp: registry_inv_def unclaimed_def)
  qed
  then have "m \<in> set (members s')"
    using m(1) by (auto simp: s' put_member_def u intro!: upsert_keeps simp: invited_member_def)
  moreover have "active_admin s' b m"
    using m(2) r u(3) [OF r] by (simp add: active_admin_def user_active_def s' put_member_def user_of_def)
  ultimately show "has_admin s' b" by (auto simp: has_admin_def list_ex_iff)
qed

lemma pending_unique:
  assumes "grants_ok gs" and "g \<in> set gs" "h \<in> set gs" "grant_pending g" "grant_pending h" "in_account g = in_account h" "in_email g = in_email h"
  shows "g = h"
proof -
  have "inj_on (\<lambda>g. (in_account g, in_email g)) (set (filter grant_pending gs))" using assms(1) by (simp add: grants_ok_def distinct_map)
  then show ?thesis by (rule inj_onD) (use assms in simp_all)
qed

lemma consumed_unclaimed:
  assumes inv: "registry_inv s" and res: "resolved (in_email g) now user s s1" and g: "g \<in> set (grants s)" "grant_pending g"
    and gs: "gs = update_where (grant_is (in_account g) (in_id g)) (accept_grant (u_ID user) t) (grants s)"
    and s': "s' = (put_member (in_account g) (u_ID user) role inviter now s1)\<lparr>identities := ids, grants := gs, audit := evs\<rparr>"
  shows "unclaimed s'"
  unfolding unclaimed_def
proof (intro ballI impI notI)
  fix h assume h: "h \<in> set (grants s')" "grant_pending h" "active_email (in_account h) (in_email h) s'"
  from inv have gok: "grants_ok (grants s)" and un: "unclaimed s" by (simp_all add: registry_inv_def)
  have "h \<in> set gs" using h(1) by (simp add: s')
  then have hs: "h \<in> set (grants s)" "\<not> grant_is (in_account g) (in_id g) h" using pending_after h(2) settles(1) unfolding gs by blast+
  from consumed_active [OF inv res s' h(3)] show False
  proof
    assume "active_email (in_account h) (in_email h) s"
    with un hs(1) h(2) show False by (simp add: unclaimed_def)
  next
    assume "in_account h = in_account g \<and> in_email h = in_email g"
    then have "h = g" using pending_unique [OF gok hs(1) g(1) h(2) g(2)] by simp
    with hs(2) g show False by (simp add: grant_is_def)
  qed
qed

lemma consumed_accounts_ok:
  assumes inv: "registry_inv s" and res: "resolved (in_email g) now user s s1" and g: "g \<in> set (grants s)"
    and gs: "gs = update_where (grant_is (in_account g) (in_id g)) (accept_grant (u_ID user) t) (grants s)"
    and s': "s' = (put_member (in_account g) (u_ID user) role inviter now s1)\<lparr>identities := ids, grants := gs, audit := evs\<rparr>"
  shows "accounts_ok s'"
proof (rule accounts_ok_mono [OF registry_invD(5) [OF inv]])
  note u = resolved_users [OF res registry_invD(1) [OF inv]]
  have home: "\<exists>m \<in> set (members s). m_AccountID m = in_account h" if "h \<in> set (grants s)" for h
    using registry_invD(5) [OF inv] that by (auto simp: accounts_ok_def)
  show "\<exists>m \<in> set (members s). m_AccountID m = m_AccountID m'" if "m' \<in> set (members s')" for m'
    using that home [OF g] by (auto simp: s' put_member_def u invited_member_def dest!: upsert_cases)
  show "\<exists>m' \<in> set (members s'). member_key m' = member_key m" if "m \<in> set (members s)" for m
    using upsert_back [OF that, of member_key "invited_member (in_account g) (u_ID user) role inviter now"
        "\<lambda>m. m\<lparr>m_Role := role, m_CreatedByUserID := nullStr inviter, m_AcceptedAt := now, m_RevokedAt := None, m_RevokedByUserID := None, m_UpdatedAt := now\<rparr>"]
    by (simp add: s' put_member_def u)
  show "\<exists>m \<in> set (members s). m_AccountID m = in_account h" if "h \<in> set (grants s')" for h
    using that home by (auto simp: s' gs set_update_where accept_grant_def split: if_splits)
qed (use res in \<open>auto simp: s' put_member_def resolved_def add_user_def user_by_email_def lookup_key_append new_user_def split: option.splits\<close>)

lemma consumed_advances:
  assumes "consumed g user requestID now s s'" and "g \<in> set (grants s)" "grant_pending g"
  shows "reg_advances s s'"
  unfolding reg_advances_def
proof
  assume inv: "registry_inv s"
  from assms(1) obtain s1 ids inviter x gs where res: "resolved (in_email g) now user s s1"
    and gs: "gs = update_where (grant_is (in_account g) (in_id g)) (accept_grant (u_ID user) now) (grants s)" and ok: "grants_ok gs"
    and s': "s' = (put_member (in_account g) (u_ID user) (gr_role g) inviter now s1)\<lparr>identities := ids, grants := gs, audit := audit s @ [x]\<rparr>"
    unfolding consumed_def by blast
  from inv have uok: "users_ok s" by (simp add: registry_inv_def)
  have go: "grants_go (grants s) gs" unfolding gs by (rule grants_go_accept)
  have eq: "grants s' = gs" "post s' = post s" "audit s' = audit s @ [x]" using resolved_users(7) [OF res uok] by (simp_all add: s' put_member_def)
  show "registry_inv s' \<and> keeps_admins s s' \<and> grants_go (grants s) (grants s') \<and> mail_steps (mail_view s) (mail_view s') \<and> prefix (audit s) (audit s')"
    using consumed_members_ok [OF inv res s'] consumed_keeps_admins [OF inv res assms(2,3) s'] consumed_unclaimed [OF inv res assms(2,3) gs s']
      mail_view_steps [OF ok go eq(1,2)] consumed_accounts_ok [OF inv res assms(2) gs s'] ok go eq by (simp add: registry_inv_def)
qed

text \<open>A new user alone.\<close>

lemma user_rows_advance:
  assumes "\<And>u r. user_of u s = Some r \<Longrightarrow> \<exists>r'. user_of u s' = Some r' \<and> u_Email r' = u_Email r \<and> u_Status r' = u_Status r"
    and "members s' = members s" "grants s' = grants s" "post s' = post s" "users_ok s \<Longrightarrow> users_ok s'" "prefix (audit s) (audit s')"
    and "account_names s' = account_names s" "next_id s \<le> next_id s'"
    and "\<And>u a. u \<in> set (users s') \<Longrightarrow> legacy_tenant_id u = Some a \<Longrightarrow> \<exists>u0 \<in> set (users s). legacy_tenant_id u0 = Some a \<and> u_ID u0 = u_ID u"
    and "\<And>k. user_by_email k s \<noteq> None \<Longrightarrow> user_by_email k s' \<noteq> None"
  shows "reg_advances s s'"
  unfolding reg_advances_def
proof
  assume inv: "registry_inv s"
  then have fk: "\<exists>r. user_of (m_UserID m) s = Some r" if "m \<in> set (members s)" for m
    using that by (auto simp: registry_inv_def members_ok_def)
  have "members_ok s'" using inv fk assms(1) by (fastforce simp: registry_inv_def members_ok_def assms(2))
  moreover have "active_email a m s" if act: "active_email a m s'" for a m
  proof -
    from act obtain x r' where x: "x \<in> set (members s)" "m_AccountID x = a" "m_RevokedAt x = None" "user_of (m_UserID x) s' = Some r'" "u_Email r' = m"
      by (auto simp: active_email_iff assms(2))
    from fk [OF x(1)] obtain r where "user_of (m_UserID x) s = Some r" by blast
    with assms(1) [OF this] x show ?thesis by (auto simp: active_email_iff)
  qed
  then have "unclaimed s'" using inv by (auto simp: registry_inv_def unclaimed_def assms(3))
  moreover have "keeps_admins s s'"
    using assms(1) by (force simp: keeps_admins_def has_admin_def list_ex_iff active_admin_def user_active_def assms(2) split: option.splits)
  moreover have "accounts_ok s'"
    by (rule accounts_ok_mono [OF registry_invD(5) [OF inv]])
      (use assms registry_invD(5) [OF inv] in \<open>auto simp: accounts_ok_def\<close>)
  ultimately show "registry_inv s' \<and> keeps_admins s s' \<and> grants_go (grants s) (grants s') \<and> mail_steps (mail_view s) (mail_view s') \<and> prefix (audit s) (audit s')"
    using inv assms by (simp add: registry_inv_def mail_view_def)
qed

lemma add_user_simps [simp]:
  "members (add_user m now s) = members s" "grants (add_user m now s) = grants s" "post (add_user m now s) = post s"
  "audit (add_user m now s) = audit s" "accounts (add_user m now s) = accounts s" "next_id (add_user m now s) = Suc (next_id s)"
  by (simp_all add: add_user_def)

lemma user_by_email_add_user: "user_by_email k s \<noteq> None \<Longrightarrow> user_by_email k (add_user m now s) \<noteq> None"
  by (auto simp: add_user_def user_by_email_def lookup_key_append)

lemma add_user_legacy: "u \<in> set (users (add_user m now s)) \<Longrightarrow> legacy_tenant_id u = Some a \<Longrightarrow> u \<in> set (users s)"
  by (auto simp: add_user_def new_user_def)

lemma add_user_advances:
  assumes "user_by_email m s = None"
  shows "reg_advances s (add_user m now s)"
proof (rule user_rows_advance)
  show "users_ok s \<Longrightarrow> users_ok (add_user m now s)" using users_ok_add_user assms by blast
  show "user_by_email k (add_user m now s) \<noteq> None" if "user_by_email k s \<noteq> None" for k
    using that by (rule user_by_email_add_user)
qed (auto dest: user_of_add_user [where m = m and now = now] add_user_legacy)

section \<open>Operations\<close>

definition revoke_effect :: "string \<Rightarrow> string \<Rightarrow> Actor \<Rightarrow> time \<Rightarrow> registry \<Rightarrow> registry \<Rightarrow> bool" where
  "revoke_effect a i actor now s s' \<longleftrightarrow>
     by_admin a actor s \<and> grants_ok (grants s') \<and> list_ex (grant_is a i) (grants s) \<and>
     s' = s\<lparr>grants := update_where (grant_is a i) (revoke_grant (UserID actor) now) (grants s)\<rparr>"

lemma revoke_invitation_effect:
  assumes "db_bind (requireAdminMembership a actor) (\<lambda>_.
      db_bind (update_grants ''revoke invitation: '' (grant_is a i) (revoke_grant (UserID actor) now)) (\<lambda>rows.
      db_lift (exactlyOneRowChanged rows))) e n s = (Inr b, n', s')"
  shows "b \<and> revoke_effect a i actor now s s'"
proof -
  from assms obtain n1 n2 k where adm: "requireAdminMembership a actor e n s = (Inr (), n1, s)"
    and upd: "update_grants ''revoke invitation: '' (grant_is a i) (revoke_grant (UserID actor) now) e n1 s = (Inr k, n2, s')" and "b" "k = 1"
    by (auto simp: db_Inr exactlyOneRowChanged_def split: if_splits dest: requireAdminMembership_Inr(1))
  from update_grants_Inr [OF upd] \<open>k = 1\<close> have "list_ex (grant_is a i) (grants s)"
    by (cases "filter (grant_is a i) (grants s)") (auto simp: count_where_def list_ex_iff dest: filter_eq_ConsD)
  with update_grants_Inr [OF upd] requireAdminMembership_Inr [OF adm] \<open>b\<close> show ?thesis by (simp add: revoke_effect_def)
qed

lemma revoke_effect_audit: "revoke_effect a i actor now s s' \<Longrightarrow> audit s' = audit s"
  unfolding revoke_effect_def by (elim conjE) simp

interpretation withdrawing: locked_mutation a actor ev
    "\<lambda>now. db_bind (requireAdminMembership a actor) (\<lambda>_.
      db_bind (update_grants ''revoke invitation: '' (grant_is a i) (revoke_grant (UserID actor) now)) (\<lambda>rows.
      db_lift (exactlyOneRowChanged rows)))"
    "revoke_effect a i actor"
  for a actor ev i
  by unfold_locales (use revoke_invitation_effect revoke_effect_audit in blast)+

lemma revoke_effect_advances:
  assumes "revoke_effect a i actor now s s1"
  shows "reg_advances s (insert_audit a' actor ev metadata t s1)"
  unfolding reg_advances_def
proof
  assume inv: "registry_inv s"
  let ?s' = "insert_audit a' actor ev metadata t s1" and ?gs = "update_where (grant_is a i) (revoke_grant (UserID actor) now) (grants s)"
  from assms have "grants_ok (grants s1)" and s1: "s1 = s\<lparr>grants := ?gs\<rparr>" unfolding revoke_effect_def by blast+
  then have ok: "grants_ok ?gs" by simp
  have eq: "users ?s' = users s" "members ?s' = members s" "grants ?s' = ?gs" "post ?s' = post s" "next_id ?s' = next_id s"
    by (simp_all add: insert_audit_def s1)
  have pend: "g \<in> set (grants s)" if "g \<in> set (grants ?s')" "grant_pending g" for g
    using pending_after that settles(2) unfolding eq by blast
  have "unclaimed ?s'" using inv pend by (simp add: registry_inv_def unclaimed_def active_email_iff user_of_def eq)
  moreover have "users_ok ?s'" "members_ok ?s'" using inv by (simp_all add: registry_inv_def users_ok_def members_ok_def user_of_def eq)
  moreover have "accounts_ok ?s'"
  proof (rule accounts_ok_mono [OF registry_invD(5) [OF inv]])
    show "\<exists>m \<in> set (members s). m_AccountID m = in_account g" if "g \<in> set (grants ?s')" for g
      using that registry_invD(5) [OF inv] unfolding eq by (auto simp: accounts_ok_def set_update_where revoke_grant_def split: if_splits)
  qed (auto simp: insert_audit_def s1 user_by_email_def)
  ultimately show "registry_inv ?s' \<and> keeps_admins s ?s' \<and> grants_go (grants s) (grants ?s') \<and> mail_steps (mail_view s) (mail_view ?s') \<and> prefix (audit s) (audit ?s')"
    using ok grants_go_revoke mail_view_steps [OF ok grants_go_revoke eq(3,4)] keeps_admins_same [OF eq(2,1)]
    by (simp add: registry_inv_def eq insert_audit_def s1)
qed

end
