(* ===== verification/Sessions.thy ===== *)
theory Sessions
  imports Identity
begin

text \<open>
  Sign-in links and browser sessions: \<open>pkg/data/postgres/auth.go\<close>. Only hashes of tokens are stored. A
  sign-in link is deleted when it is used. A session names a user and, while the user is a member
  of it, one selected account; a session of an old revision is repaired once when it is read.
\<close>

section \<open>Sign-in links\<close>

definition CreateLoginToken :: "byte list result \<Rightarrow> string \<Rightarrow> duration \<Rightarrow> (registry, string) db" where
  "CreateLoginToken random email ttl =
     db_bind (db_lift (NewToken [] random)) (\<lambda>raw.
     db_stmt (Wrapf ''create login token: '') (\<lambda>now s.
       if list_ex (\<lambda>t. lt_id t = HashToken raw) (login_tokens s)
       then (Inl (Wrapf ''create login token: '' constraint_violation), s)
       else (Inr raw, s\<lparr>login_tokens := login_tokens s @
               [\<lparr>lt_id = HashToken raw, lt_email = NormalizeEmail email, lt_expires = now + interval_of ttl\<rparr>]\<rparr>)))"

definition PeekLoginToken :: "string \<Rightarrow> (registry, string) db" where
  "PeekLoginToken raw =
     db_read (Wrapf ''peek login token: '') (\<lambda>now s.
       case lookup_key lt_id (login_tokens s) (HashToken raw) of
         None \<Rightarrow> Inl ErrLoginTokenInvalid
       | Some t \<Rightarrow> if lt_expires t \<le> now then Inl ErrLoginTokenExpired else Inr (lt_email t))"

definition login_live :: "string \<Rightarrow> time \<Rightarrow> login_row \<Rightarrow> bool" where
  "login_live hash now t = (lt_id t = hash \<and> lt_expires t > now)"

text \<open>The second statement only chooses the error, and its own failure is taken for an unknown token.\<close>

definition ConsumeLoginToken :: "string \<Rightarrow> (registry, VerifiedIdentity) db" where
  "ConsumeLoginToken raw =
     db_bind (db_stmt (Wrapf ''consume login token: '') (\<lambda>now s.
       (Inr (map_option lt_email (List.find (login_live (HashToken raw) now) (login_tokens s))),
        s\<lparr>login_tokens := filter (\<lambda>t. \<not> login_live (HashToken raw) now t) (login_tokens s)\<rparr>))) (\<lambda>found.
     case found of
       Some email \<Rightarrow> db_return \<lparr>vi_Provider = ''magiclink'', vi_Subject = email, vi_Email = email, vi_AvatarURL = []\<rparr>
     | None \<Rightarrow>
         db_bind (db_try (db_read (\<lambda>err. err) (\<lambda>now s.
           case lookup_key lt_id (login_tokens s) (HashToken raw) of None \<Rightarrow> Inl no_rows | Some t \<Rightarrow> Inr (lt_expires t \<le> now)))) (\<lambda>r.
         case r of
           Inr True \<Rightarrow> db_fail ErrLoginTokenExpired
         | _ \<Rightarrow> db_fail ErrLoginTokenInvalid))"

section \<open>Sessions\<close>

text \<open>The rows an \<open>INSERT ... SELECT\<close> selects: one for an active user, and for an account one when the
  user is an active member of the active account.\<close>

definition may_select :: "string \<Rightarrow> string \<Rightarrow> registry \<Rightarrow> bool" where
  "may_select u a s = (user_active u s \<and> account_active a s \<and> list_ex (member_live a u) (members s))"

definition insert_session :: "session_row \<Rightarrow> registry \<Rightarrow> nat result \<times> registry" where
  "insert_session x s =
     (if list_ex (\<lambda>y. se_id y = se_id x) (sessions s) then (Inl constraint_violation, s)
      else (Inr 1, s\<lparr>sessions := sessions s @ [x]\<rparr>))"

definition CreateSession :: "byte list result \<Rightarrow> string \<Rightarrow> string option \<Rightarrow> duration \<Rightarrow> (registry, string) db" where
  "CreateSession random userID activeAccountID ttl =
     db_bind (db_lift (NewToken [] random)) (\<lambda>raw.
     db_bind (db_stmt (Wrapf ''create session: '') (\<lambda>now s.
       let ok = (case activeAccountID of None \<Rightarrow> user_active userID s | Some a \<Rightarrow> may_select userID a s) in
       if \<not> ok then (Inr 0, s)
       else wrap_result ''create session: '' (insert_session
         \<lparr>se_id = HashToken raw, se_tenant = activeAccountID, se_user = Some userID, se_active = activeAccountID,
          se_expires = now + interval_of ttl\<rparr> s))) (\<lambda>inserted.
     if inserted \<noteq> 1 then db_fail ErrNotFound else db_return raw))"

definition session_live :: "string \<Rightarrow> time \<Rightarrow> registry \<Rightarrow> session_row option" where
  "session_live hash now s = List.find (\<lambda>x. se_id x = hash \<and> se_expires x > now) (sessions s)"

definition repairLegacySession :: "string \<Rightarrow> string \<Rightarrow> (registry, unit) db" where
  "repairLegacySession hash accountID =
     db_txm ''begin legacy session repair: '' (\<lambda>now.
       db_bind (db_write (Wrapf ''lock legacy session account: '') (\<lambda>_ s. s)) (\<lambda>_.
       db_bind (db_read (Wrapf ''lock legacy session: '') (\<lambda>_ s.
         case session_live hash now s of None \<Rightarrow> Inl ErrSessionInvalid | Some x \<Rightarrow> Inr (se_user x, se_tenant x))) (\<lambda>(u, t).
       if u \<noteq> None then db_return ([], ())
       else if t \<noteq> Some accountID then db_fail ErrSessionInvalid
       else
         db_bind (reconcileCompatibilityAccount accountID now) (\<lambda>_.
         db_return (''commit legacy session repair: '', ())))))"

text \<open>One attempt of the loop; \<open>again\<close> is the next one.\<close>

definition validate_attempt :: "string \<Rightarrow> bool \<Rightarrow> (registry, Session) db \<Rightarrow> (registry, Session) db" where
  "validate_attempt hash first again =
     db_bind (db_read (Wrapf ''validate session: '') (\<lambda>now s.
       case session_live hash now s of None \<Rightarrow> Inl ErrSessionInvalid | Some x \<Rightarrow> Inr x)) (\<lambda>x.
     case se_user x of
       None \<Rightarrow>
         (case se_tenant x of
            None \<Rightarrow> db_fail ErrSessionInvalid
          | Some t \<Rightarrow> if \<not> first then db_fail ErrSessionInvalid else db_bind (repairLegacySession hash t) (\<lambda>_. again))
     | Some u \<Rightarrow>
         db_bind (db_try (GetUser u)) (\<lambda>r.
         case r of
           Inl err \<Rightarrow> if errors_Is err ErrNotFound then db_fail ErrSessionInvalid else db_fail err
         | Inr user \<Rightarrow> db_return \<lparr>s_User = user, s_ActiveAccountID = se_active x, s_ExpiresAt = se_expires x\<rparr>))"

definition ValidateSession :: "string \<Rightarrow> (registry, Session) db" where
  "ValidateSession raw =
     (let hash = HashToken raw in
      validate_attempt hash True (validate_attempt hash False (db_fail ErrSessionInvalid)))"

definition update_sessions :: "(session_row \<Rightarrow> bool) \<Rightarrow> (session_row \<Rightarrow> session_row) \<Rightarrow> registry \<Rightarrow> nat result \<times> registry" where
  "update_sessions P f s = (Inr (count_where P (sessions s)), s\<lparr>sessions := update_where P f (sessions s)\<rparr>)"

definition SelectSessionAccount :: "string \<Rightarrow> string \<Rightarrow> string \<Rightarrow> (registry, unit) db" where
  "SelectSessionAccount raw userID accountID =
     db_bind (db_stmt (Wrapf ''select session account: '') (\<lambda>now s.
       update_sessions (\<lambda>x. se_id x = HashToken raw \<and> se_user x = Some userID \<and> se_expires x > now \<and> may_select userID accountID s)
         (\<lambda>x. x\<lparr>se_tenant := Some accountID, se_active := Some accountID\<rparr>) s)) (\<lambda>updated.
     if updated \<noteq> 1 then db_fail ErrNotFound else db_return ())"

definition ClearSessionAccount :: "string \<Rightarrow> string \<Rightarrow> string \<Rightarrow> (registry, bool) db" where
  "ClearSessionAccount raw userID accountID =
     db_bind (db_stmt (Wrapf ''clear session account: '') (\<lambda>_.
       update_sessions (\<lambda>x. se_id x = HashToken raw \<and> se_user x = Some userID \<and> se_active x = Some accountID)
         (\<lambda>x. x\<lparr>se_tenant := None, se_active := None\<rparr>))) (\<lambda>updated.
     db_return (updated = 1))"

text \<open>Deleting a session deletes the tokens waiting to be shown in it.\<close>

definition DestroySession :: "string \<Rightarrow> (registry, unit) db" where
  "DestroySession raw =
     db_write (Wrapf ''destroy session: '') (\<lambda>_ s.
       s\<lparr>sessions := filter (\<lambda>x. se_id x \<noteq> HashToken raw) (sessions s),
         flashes := filter (\<lambda>f. fl_session f \<noteq> HashToken raw) (flashes s)\<rparr>)"

end
