(* ===== verification/Api_Tokens.thy ===== *)
theory Api_Tokens
  imports Sessions
begin

text \<open>
  API tokens: \<open>pkg/data/postgres/token.go\<close> and the validation of a token in \<open>auth.go\<close>. A token is
  created under the account lock by an administrator's own session, up to the account's cap; its
  text is stored encrypted for one display in that session, and only its hash to authenticate with.
\<close>

definition tokenFlashTTL :: interval where
  "tokenFlashTTL = minutes 2"

definition apiTokenLastUsedCoarsening :: interval where
  "apiTokenLastUsedCoarsening = minutes 1"

record APITokenInfo =
  ti_ID :: string
  ti_Name :: string
  ti_LastUsed :: "time option"
  ti_ExpiresAt :: "time option"
  ti_CreatedAt :: time

definition token_info :: "token_row \<Rightarrow> APITokenInfo" where
  "token_info k = \<lparr>ti_ID = tk_id k, ti_Name = tk_name k, ti_LastUsed = tk_last_used k, ti_ExpiresAt = tk_expires k, ti_CreatedAt = tk_created k\<rparr>"

section \<open>Authorization\<close>

definition token_admin :: "string \<Rightarrow> string \<Rightarrow> registry \<Rightarrow> bool" where
  "token_admin a u s = (account_active a s \<and> list_ex (\<lambda>m. active_admin s a m \<and> m_UserID m = u) (members s))"

definition authorizeTokenManager :: "string \<Rightarrow> Actor \<Rightarrow> (registry, unit) db" where
  "authorizeTokenManager accountID actor =
     (let verdict = (\<lambda>authorized. if authorized then db_return () else db_fail ErrForbidden) in
      if ActorKind actor = ActorUser then
        db_bind (db_read (Wrapf ''authorize token metadata: '') (\<lambda>_ s. Inr (token_admin accountID (UserID actor) s))) verdict
      else if ActorKind actor = ActorPlatform then
        (if UserID actor = [] then db_fail ErrForbidden
         else db_bind (db_read (Wrapf ''authorize platform token metadata: '') (\<lambda>_ s.
           Inr (account_of accountID s \<noteq> None \<and> user_active (UserID actor) s))) verdict)
      else db_fail ErrForbidden)"

text \<open>\<open>ORDER BY created_at DESC, id DESC\<close>.\<close>

definition ListAPITokens :: "string \<Rightarrow> Actor \<Rightarrow> (registry, APITokenInfo list) db" where
  "ListAPITokens accountID actor =
     db_bind (authorizeTokenManager accountID actor) (\<lambda>_.
     db_read (Wrapf ''list api tokens: '') (\<lambda>_ s.
       Inr (map token_info (rev (sort_key (\<lambda>k. (tk_created k, tk_id k)) (filter (\<lambda>k. tk_tenant k = accountID) (api_tokens s)))))))"

section \<open>Creating\<close>

definition tokenFlashAdditionalData :: "string \<Rightarrow> string \<Rightarrow> string" where
  "tokenFlashAdditionalData sessionHash accountID =
     ''devradar/token-flash/v1'' @ [CHR 0x00] @ sessionHash @ [CHR 0x00] @ accountID"

definition tokens_of :: "string \<Rightarrow> registry \<Rightarrow> nat" where
  "tokens_of a s = count_where (\<lambda>k. tk_tenant k = a) (api_tokens s)"

definition insert_token :: "int \<Rightarrow> token_row \<Rightarrow> registry \<Rightarrow> nat result \<times> registry" where
  "insert_token maxTokens k s =
     (if \<not> (maxTokens \<le> 0 \<or> int (tokens_of (tk_tenant k) s) < maxTokens) then (Inr 0, s)
      else if list_ex (\<lambda>x. tk_id x = tk_id k \<or> tk_hash x = tk_hash k) (api_tokens s) then (Inl constraint_violation, s)
      else (Inr 1, s\<lparr>api_tokens := api_tokens s @ [k]\<rparr>))"

definition put_flash :: "string \<Rightarrow> string \<Rightarrow> string \<Rightarrow> time \<Rightarrow> registry \<Rightarrow> registry" where
  "put_flash session a v now s =
     s\<lparr>flashes := upsert (\<lambda>f. (fl_session f, fl_account f)) (\<lambda>f. f\<lparr>fl_value := v, fl_expires := now + tokenFlashTTL\<rparr>)
        \<lparr>fl_session = session, fl_account = a, fl_value = v, fl_expires = now + tokenFlashTTL\<rparr> (flashes s)\<rparr>"

text \<open>The transaction; \<open>expires\<close> is the expiry computed from the program's clock.\<close>

definition store_token ::
    "string \<Rightarrow> string \<Rightarrow> string \<Rightarrow> string \<Rightarrow> time option \<Rightarrow> int \<Rightarrow> string \<Rightarrow> string \<Rightarrow> string \<Rightarrow> AuditEvent \<Rightarrow> string \<Rightarrow> time \<Rightarrow>
     (registry, unit) db" where
  "store_token accountID userID sessionHash name expires maxTokens tokenID hash stored ev metadata now =
     db_bind (db_read (Wrapf ''lock token account: '') (\<lambda>_ s.
       case account_of accountID s of None \<Rightarrow> Inl ErrNotFound | Some a \<Rightarrow> Inr (a_Status a))) (\<lambda>status.
     if status \<noteq> ''active'' then db_fail ErrNotFound
     else
       db_bind (db_write (Wrapf ''acquire token admission lock: '') (\<lambda>_ s. s)) (\<lambda>_.
       db_bind (db_read (Wrapf ''lock token creator session: '') (\<lambda>_ s.
         case session_live sessionHash now s of None \<Rightarrow> Inl ErrForbidden | Some x \<Rightarrow> Inr (se_user x, se_active x))) (\<lambda>(u, a).
       if u \<noteq> Some userID \<or> a \<noteq> Some accountID then db_fail ErrForbidden
       else
         db_bind (db_read (Wrapf ''authorize token creator session: '') (\<lambda>_ s. Inr (token_admin accountID userID s))) (\<lambda>authorized.
         if \<not> authorized then db_fail ErrForbidden
         else
           db_bind (db_stmt (Wrapf ''create api token: '') (\<lambda>_ s. wrap_result ''create api token: '' (insert_token maxTokens
             \<lparr>tk_id = tokenID, tk_tenant = accountID, tk_name = name, tk_hash = hash, tk_last_used = None, tk_expires = expires,
              tk_created = now, tk_creator = Some userID\<rparr> s))) (\<lambda>rows.
           if rows = 0 then db_fail ErrAPITokenLimit
           else
             db_bind (db_write (Wrapf ''store token flash: '') (\<lambda>_. put_flash sessionHash accountID stored now)) (\<lambda>_.
             db_write (Wrapf ''insert token create audit event: '') (\<lambda>_. insert_audit accountID (user_actor userID) ev metadata now)))))))"

definition CreateAPIToken ::
    "entropy \<Rightarrow> time \<Rightarrow> string \<Rightarrow> string \<Rightarrow> string \<Rightarrow> string \<Rightarrow> duration \<Rightarrow> int \<Rightarrow> string \<Rightarrow> string \<Rightarrow> (registry, string) db" where
  "CreateAPIToken R wall accountID userID sessionHash name ttl maxTokens requestID key =
     db_bind (db_lift (wrapping ''generate api token: '' (NewToken ''dr_'' (rd_token R)))) (\<lambda>raw.
     db_bind (db_lift (wrapping ''generate api token id: '' (newAuditUUID (rd_uuid R)))) (\<lambda>tokenID.
     db_bind (db_lift (wrapping ''encrypt token flash: ''
       (Seal (rd_aead R) (rd_nonce R) key raw (tokenFlashAdditionalData sessionHash accountID)))) (\<lambda>stored.
     let ev = success_event ''api_token.create'' ''api_token'' tokenID requestID [] in
     db_bind (db_lift (validateAuditInput accountID (user_actor userID) ev)) (\<lambda>metadata.
     db_tx ''begin token create: '' (\<lambda>now.
       db_bind (store_token accountID userID sessionHash name (if ttl > 0 then Some (wall + interval_of ttl) else None) maxTokens
         tokenID (HashToken raw) stored ev metadata now) (\<lambda>_. db_return tokenID))
     ''commit token create: ''))))"

section \<open>Showing once\<close>

definition flash_live :: "string \<Rightarrow> string \<Rightarrow> time \<Rightarrow> registry \<Rightarrow> flash_row option" where
  "flash_live session a now s =
     List.find (\<lambda>f. fl_session f = session \<and> fl_account f = a \<and> fl_expires f > now \<and>
       list_ex (\<lambda>x. se_id x = session \<and> se_active x = Some a \<and> se_expires x > now) (sessions s)) (flashes s)"

definition ConsumeTokenFlash :: "aead \<Rightarrow> string \<Rightarrow> string \<Rightarrow> string \<Rightarrow> (registry, string) db" where
  "ConsumeTokenFlash G sessionHash accountID key =
     db_bind (db_try (db_tx ''begin token flash consume: '' (\<lambda>now.
       db_bind (db_read (Wrapf ''read token flash: '') (\<lambda>_ s.
         case flash_live sessionHash accountID now s of None \<Rightarrow> Inl no_rows | Some f \<Rightarrow> Inr (fl_value f))) (\<lambda>stored.
       db_bind (db_lift (wrapping ''decrypt token flash: '' (Open G key stored (tokenFlashAdditionalData sessionHash accountID)))) (\<lambda>plaintext.
       db_bind (db_write (Wrapf ''delete token flash: '') (\<lambda>_ s.
         s\<lparr>flashes := filter (\<lambda>f. \<not> (fl_session f = sessionHash \<and> fl_account f = accountID)) (flashes s)\<rparr>)) (\<lambda>_.
       db_return plaintext))))
     ''commit token flash consume: '')) (\<lambda>r.
     case r of
       Inr plaintext \<Rightarrow> db_return plaintext
     | Inl err \<Rightarrow> if err = no_rows then db_return [] else db_fail err)"

section \<open>Revoking\<close>

definition deleteAPIToken :: "string \<Rightarrow> string \<Rightarrow> (registry, bool) db" where
  "deleteAPIToken accountID tokenID =
     db_bind (db_stmt (Wrapf ''revoke api token: '') (\<lambda>_ s.
       let P = (\<lambda>k. tk_tenant k = accountID \<and> tk_id k = tokenID) in
       (Inr (count_where P (api_tokens s)), s\<lparr>api_tokens := filter (\<lambda>k. \<not> P k) (api_tokens s)\<rparr>))) (\<lambda>rows.
     if rows = 0 then db_fail ErrNotFound else db_return True)"

definition RevokeAPIToken :: "string \<Rightarrow> string \<Rightarrow> Actor \<Rightarrow> string \<Rightarrow> (registry, unit) db" where
  "RevokeAPIToken accountID tokenID actor requestID =
     (let ev = success_event ''api_token.revoke'' ''api_token'' tokenID requestID [] in
      if ActorKind actor = ActorUser then
        withLockedAccountAudit accountID actor ev (\<lambda>_.
          db_bind (requireAdminMembership accountID actor) (\<lambda>_. deleteAPIToken accountID tokenID))
      else if ActorKind actor \<noteq> ActorPlatform then db_fail ErrForbidden
      else WithAudit accountID actor ev (\<lambda>_. db_bind (deleteAPIToken accountID tokenID) (\<lambda>_. db_return ())))"

definition PurgeLegacyTokenFlashes :: "(registry, unit) db" where
  "PurgeLegacyTokenFlashes = db_write (Wrapf ''purge legacy token flashes: '') (\<lambda>_ s. s\<lparr>legacy_flashes := []\<rparr>)"

section \<open>Authenticating\<close>

definition token_live :: "string \<Rightarrow> time \<Rightarrow> token_row \<Rightarrow> bool" where
  "token_live hash now k = (tk_hash k = hash \<and> (case tk_expires k of None \<Rightarrow> True | Some t \<Rightarrow> t > now))"

definition bump_used :: "time \<Rightarrow> token_row \<Rightarrow> bool" where
  "bump_used now k = (case tk_last_used k of None \<Rightarrow> True | Some t \<Rightarrow> t < now - apiTokenLastUsedCoarsening)"

definition ValidateAPIToken :: "string \<Rightarrow> (registry, Account \<times> Actor) db" where
  "ValidateAPIToken raw =
     db_stmt (Wrapf ''validate api token: '') (\<lambda>now s.
       let hash = HashToken raw;
           s' = s\<lparr>api_tokens := update_where (\<lambda>k. token_live hash now k \<and> bump_used now k) (\<lambda>k. k\<lparr>tk_last_used := Some now\<rparr>) (api_tokens s)\<rparr> in
       case List.find (token_live hash now) (api_tokens s) of
         None \<Rightarrow> (Inl ErrAPITokenInvalid, s')
       | Some k \<Rightarrow>
           (case account_of (tk_tenant k) s of
              None \<Rightarrow> (Inl ErrAPITokenInvalid, s')
            | Some a \<Rightarrow> (Inr (scanAccount a, \<lparr>ActorKind = ActorAPIToken, UserID = [], APITokenID = tk_id k\<rparr>), s')))"

end
