(* ===== verification/Sign_In.thy ===== *)
theory Sign_In
  imports Registry Api_Tokens
begin

text \<open>
  What signing in does to the registry: a verified identity finds its user, or makes one with an
  account of its own; the reconciliation of an old account makes its owner. Every path keeps the
  invariant of the registry.
\<close>

section \<open>A first owner\<close>

text \<open>A new user becomes the first member of an account: of a new one, or of one that had none.\<close>

lemma owner_users_ok:
  assumes "users_ok s" and "users s' = users s @ [r]" and "u_ID r = nat_text (next_id s)" and "next_id s < next_id s'"
    and "user_by_email (u_Email r) s = None"
  shows "users_ok s'"
proof -
  have "u_ID r \<notin> u_ID ` set (users s)" using fresh_user [OF assms(1)] by (simp add: user_of_def lookup_key_None assms(3))
  moreover have "u_Email r \<notin> u_Email ` set (users s)" using assms(5) by (simp add: user_by_email_def lookup_key_None)
  moreover have "u_ID x \<in> drawn s'" if "x \<in> set (users s')" for x
  proof -
    from that assms(2) consider "x = r" | "x \<in> set (users s)" by auto
    then show ?thesis
    proof cases
      case 1
      with assms(3,4) show ?thesis by simp
    next
      case 2
      then have "u_ID x \<in> drawn s" using assms(1) by (simp add: users_ok_def)
      with assms(4) show ?thesis by auto
    qed
  qed
  ultimately show ?thesis using assms(1) unfolding users_ok_def assms(2) by simp
qed

lemma owner_accounts_ok:
  assumes ok: "accounts_ok s" and us: "users s' = users s @ [r]" "next_id s < next_id s'"
    and ms: "members s' = members s @ [m]" "m_UserID m = u_ID r"
    and leg: "legacy_tenant_id r = None \<or> legacy_tenant_id r = Some (m_AccountID m)" and rest: "grants s' = grants s"
    and acc: "distinct (map a_ID (accounts s'))" "m_AccountID m \<in> drawn s'"
      "\<And>t. t \<in> set (accounts s') \<Longrightarrow> a_ID t \<noteq> m_AccountID m \<Longrightarrow> \<exists>t0 \<in> set (accounts s). a_ID t0 = a_ID t \<and> t_email t0 = t_email t"
      "\<And>t. t \<in> set (accounts s') \<Longrightarrow> a_ID t = m_AccountID m \<Longrightarrow> u_Email r = ToLower (btrim (t_email t))"
  shows "accounts_ok s'"
proof -
  have email: "user_by_email k s' \<noteq> None" if "user_by_email k s \<noteq> None \<or> k = u_Email r" for k
    using that by (auto simp: user_by_email_def us lookup_key_append split: option.splits)
  have sub: "drawn s \<subseteq> drawn s'" using us(2) by auto
  have "a_ID t \<in> drawn s'" if "t \<in> set (accounts s')" for t
  proof (cases "a_ID t = m_AccountID m")
    case False
    with acc(3) [OF that] ok sub show ?thesis unfolding accounts_ok_def by (metis subsetD)
  qed (use acc(2) in simp)
  moreover have "m_AccountID y \<in> drawn s'" if "y \<in> set (members s')" for y
    using that ok sub acc(2) unfolding ms accounts_ok_def by auto
  moreover have "\<exists>y \<in> set (members s'). m_AccountID y = in_account g" if "g \<in> set (grants s')" for g
    using that ok unfolding ms rest accounts_ok_def by auto
  moreover have "user_by_email (ToLower (btrim (t_email t))) s' \<noteq> None"
    if t: "t \<in> set (accounts s')" and y: "y \<in> set (members s')" "m_AccountID y = a_ID t" for t y
  proof (cases "a_ID t = m_AccountID m")
    case True
    with acc(4) [OF t] email show ?thesis by simp
  next
    case False
    with y have "y \<in> set (members s)" by (auto simp: ms)
    with acc(3) [OF t False] y(2) ok email show ?thesis unfolding accounts_ok_def by metis
  qed
  moreover have "\<exists>y \<in> set (members s'). member_key y = (a, u_ID u)" if "u \<in> set (users s')" "legacy_tenant_id u = Some a" for u a
    using that leg ok ms unfolding us accounts_ok_def by fastforce
  ultimately show ?thesis unfolding accounts_ok_def using acc(1) by blast
qed

lemma owner_advances:
  assumes us: "users s' = users s @ [r]" "u_ID r = nat_text (next_id s)" "next_id s < next_id s'" "user_by_email (u_Email r) s = None"
    and ms: "members s' = members s @ [m]" "m_UserID m = u_ID r" "\<forall>x \<in> set (members s). m_AccountID x \<noteq> m_AccountID m"
    and leg: "legacy_tenant_id r = None \<or> legacy_tenant_id r = Some (m_AccountID m)"
    and rest: "grants s' = grants s" "post s' = post s" "prefix (audit s) (audit s')"
    and acc: "distinct (map a_ID (accounts s'))" "m_AccountID m \<in> drawn s'"
      "\<And>t. t \<in> set (accounts s') \<Longrightarrow> a_ID t \<noteq> m_AccountID m \<Longrightarrow> \<exists>t0 \<in> set (accounts s). a_ID t0 = a_ID t \<and> t_email t0 = t_email t"
      "\<And>t. t \<in> set (accounts s') \<Longrightarrow> a_ID t = m_AccountID m \<Longrightarrow> u_Email r = ToLower (btrim (t_email t))"
  shows "reg_advances s s'"
  unfolding reg_advances_def
proof
  assume inv: "registry_inv s"
  note ok = registry_invD [OF inv]
  have uok: "users_ok s'" by (rule owner_users_ok [OF ok(1) us])
  have mine: "user_of (u_ID r) s' = Some r" by (rule user_of_in [OF uok]) (simp add: us)
  have old: "user_of u s' = Some x" if "user_of u s = Some x" for u x using that by (simp add: user_of_def us lookup_key_append)
  have fk: "\<exists>x. user_of (m_UserID y) s = Some x" if "y \<in> set (members s)" for y
    using ok(2) that by (auto simp: members_ok_def)
  have nogrant: "in_account g \<noteq> m_AccountID m" if "g \<in> set (grants s)" for g
    using ok(5) that ms(3) unfolding accounts_ok_def by metis
  have "members_ok s'" using ok(2) ms mine old fk unfolding members_ok_def by (fastforce simp: image_iff)
  moreover have "unclaimed s'"
    unfolding unclaimed_def
  proof (intro ballI impI notI)
    fix g assume g: "g \<in> set (grants s')" "grant_pending g" "active_email (in_account g) (in_email g) s'"
    then obtain y x where y: "y \<in> set (members s')" "m_AccountID y = in_account g" "m_RevokedAt y = None" "user_of (m_UserID y) s' = Some x" "u_Email x = in_email g"
      by (auto simp: active_email_iff)
    have "g \<in> set (grants s)" using g(1) rest(1) by simp
    with nogrant y(1,2) have "y \<in> set (members s)" by (fastforce simp: ms)
    with fk old y have "active_email (in_account g) (in_email g) s" by (fastforce simp: active_email_iff)
    with ok(4) g rest show False by (simp add: unclaimed_def)
  qed
  moreover have "keeps_admins s s'"
    using old fk by (fastforce simp: keeps_admins_def has_admin_def list_ex_iff active_admin_def user_active_def ms split: option.splits)
  moreover have "accounts_ok s'" by (rule owner_accounts_ok [OF ok(5) us(1,3) ms(1,2) leg rest(1) acc])
  ultimately show "registry_inv s' \<and> keeps_admins s s' \<and> grants_go (grants s) (grants s') \<and> mail_steps (mail_view s) (mail_view s') \<and> prefix (audit s) (audit s')"
    using uok ok(3) rest by (simp add: registry_inv_def mail_view_def)
qed

section \<open>The owner of an old account\<close>

lemma reg_advances_if: "(registry_inv s \<Longrightarrow> reg_advances s s') \<Longrightarrow> reg_advances s s'"
  by (simp add: reg_advances_def)

text \<open>The user made from the account, found or new, with its membership.\<close>

definition legacy_members :: "string \<Rightarrow> string \<Rightarrow> registry \<Rightarrow> Membership list \<Rightarrow> bool" where
  "legacy_members a u s ms \<longleftrightarrow>
     (if account_of a s = None \<or> member_of a u s \<noteq> None then ms = members s
      else \<exists>m. ms = members s @ [m] \<and> m_AccountID m = a \<and> m_UserID m = u)"

definition owner_given :: "string \<Rightarrow> string \<Rightarrow> registry \<Rightarrow> registry \<Rightarrow> bool" where
  "owner_given a u s s' \<longleftrightarrow>
     legacy_members a u s (members s') \<and>
     ((\<exists>r. user_by_legacy a s = Some r \<and> u_ID r = u \<and> users s' = users s \<and> next_id s' = next_id s) \<or>
      (\<exists>t. account_of a s = Some t \<and> user_by_email (ToLower (btrim (t_email t))) s = None \<and> u = nat_text (next_id s) \<and>
         users s' = users s @ [legacy_user t (next_id s)] \<and> next_id s' = Suc (next_id s)))"

lemma member_of_None: "member_of a u s = None \<longleftrightarrow> (\<forall>m \<in> set (members s). member_key m \<noteq> (a, u))"
  by (auto simp: member_of_def lookup_key_None image_iff)

lemma account_of_Some: "account_of a s = Some t \<Longrightarrow> t \<in> set (accounts s) \<and> a_ID t = a"
  unfolding account_of_def by (rule lookup_key_Some)

lemma owner_given_advances:
  assumes own: "owner_given a u s s'" and same: "grants s' = grants s" "post s' = post s" "account_names s' = account_names s" "prefix (audit s) (audit s')"
  shows "reg_advances s s'"
proof (rule reg_advances_if)
  assume "registry_inv s"
  note ok = registry_invD [OF this]
  from own consider r where "user_by_legacy a s = Some r" "u_ID r = u" "users s' = users s" "next_id s' = next_id s"
    | t where "account_of a s = Some t" "user_by_email (ToLower (btrim (t_email t))) s = None" "u = nat_text (next_id s)"
       "users s' = users s @ [legacy_user t (next_id s)]" "next_id s' = Suc (next_id s)"
    unfolding owner_given_def by blast
  then show "reg_advances s s'"
  proof cases
    case 1
    then have "r \<in> set (users s)" "legacy_tenant_id r = Some a" by (auto simp: user_by_legacy_def dest: find_Some_in)
    with ok(5) 1(2) have "member_of a u s \<noteq> None" unfolding member_of_None accounts_ok_def by blast
    with own have "members s' = members s" by (simp add: owner_given_def legacy_members_def)
    with 1 same show ?thesis by (intro reg_advances_frame) simp_all
  next
    case 2
    note t = account_of_Some [OF 2(1)]
    have none: "\<forall>m \<in> set (members s). m_AccountID m \<noteq> a"
      using ok(5) 2(2) t unfolding accounts_ok_def by metis
    then have "member_of a u s = None" unfolding member_of_None by blast
    with own 2(1) obtain m where m: "members s' = members s @ [m]" "m_AccountID m = a" "m_UserID m = u"
      by (auto simp: owner_given_def legacy_members_def)
    have d: "distinct (map a_ID (accounts s))" using ok(5) by (simp add: accounts_ok_def)
    have "t_email t' = t_email t" if "t' \<in> set (accounts s')" "a_ID t' = a" for t'
    proof -
      from account_named [OF same(3) that(1)] obtain t0 where "t0 \<in> set (accounts s)" "a_ID t0 = a_ID t'" "t_email t0 = t_email t'" .
      with t d that(2) show ?thesis by (metis distinct_map inj_onD)
    qed
    moreover have "a \<in> drawn s'" using ok(5) t 2(5) unfolding accounts_ok_def by force
    moreover have "distinct (map a_ID (accounts s'))" using d account_ids [OF same(3)] by simp
    moreover have "\<exists>t0 \<in> set (accounts s). a_ID t0 = a_ID t' \<and> t_email t0 = t_email t'" if "t' \<in> set (accounts s')" for t'
      using account_named [OF same(3) that] by metis
    ultimately show ?thesis using 2 m none same
      by (intro owner_advances [where r = "legacy_user t (next_id s)" and m = m]) (auto simp: legacy_user_def t)
  qed
qed

lemma ensureLegacyUser_Inr:
  assumes "ensureLegacyUser a e n s = (Inr u, n', s')"
  shows "(\<exists>r. user_by_legacy a s = Some r \<and> u = scanUser r \<and> s' = s) \<or>
    (\<exists>t. account_of a s = Some t \<and> user_by_email (ToLower (btrim (t_email t))) s = None \<and> u = scanUser (legacy_user t (next_id s)) \<and>
       s' = s\<lparr>users := users s @ [legacy_user t (next_id s)], next_id := Suc (next_id s)\<rparr>)"
  using assms
  by (auto simp: ensureLegacyUser_def db_Inr put_user_def wrap_result_Inr insert_user_def legacy_user_def split: option.splits if_splits)

lemma insertLegacyAdminMembership_Inr:
  "insertLegacyAdminMembership a u now e n s = (Inr x, n', s') \<Longrightarrow> \<exists>ms. s' = s\<lparr>members := ms\<rparr> \<and> legacy_members a u s ms"
proof -
  assume run: "insertLegacyAdminMembership a u now e n s = (Inr x, n', s')"
  show ?thesis
  proof (cases "account_of a s = None \<or> member_of a u s \<noteq> None")
    case True
    with run have "s' = s" by (auto simp: insertLegacyAdminMembership_def db_Inr split: option.splits)
    with True show ?thesis by (intro exI [of _ "members s"]) (simp add: legacy_members_def)
  next
    case False
    then obtain t where t: "account_of a s = Some t" by fastforce
    with False run have "s' = s\<lparr>members := members s @ [legacy_member t u now]\<rparr>" by (simp add: insertLegacyAdminMembership_def db_Inr)
    with False account_of_Some [OF t] show ?thesis
      by (intro exI [of _ "members s @ [legacy_member t u now]"]) (simp add: legacy_members_def legacy_member_def)
  qed
qed

text \<open>The two together, with anything between them that leaves users and members alone.\<close>

lemma ensure_then_insert:
  assumes "ensureLegacyUser a e n s = (Inr u, n1, s1)"
    and "users s2 = users s1" "members s2 = members s1" "next_id s2 = next_id s1" "account_of a s2 = None \<longleftrightarrow> account_of a s1 = None"
    and "legacy_members a (u_ID u) s2 ms"
  shows "owner_given a (u_ID u) s (s3\<lparr>users := users s2, members := ms, next_id := next_id s2\<rparr>)"
proof -
  have "members s1 = members s" "accounts s1 = accounts s" using ensureLegacyUser_Inr [OF assms(1)] by auto
  then have "legacy_members a (u_ID u) s ms" using assms(3,5,6)
    by (auto simp: legacy_members_def member_of_def account_of_def split: if_splits)
  with ensureLegacyUser_Inr [OF assms(1)] assms(2,4) show ?thesis by (auto simp: owner_given_def) (simp_all add: legacy_user_def)
qed

lemma identityOwner_Inr: "identityOwner p q e n s = (Inr x, n', s') \<Longrightarrow> s' = s"
  by (auto simp: identityOwner_def db_Inr split: option.splits dest!: userByID_Inr)

lemma reconcileLegacyIdentityOwner_advances:
  assumes "reconcileLegacyIdentityOwner p q a now e n s = (Inr u, n', s')"
  shows "reg_advances s s'"
proof -
  from assms obtain v n1 s1 ms ids n2 where run: "ensureLegacyUser a e (Suc n) s = (Inr v, n1, s1)" and lm: "legacy_members a (u_ID v) s1 ms"
    and s': "s' = s1\<lparr>members := ms, identities := ids\<rparr>"
    by (auto simp: reconcileLegacyIdentityOwner_def db_Inr own_identity_def Let_def
        split: if_splits option.splits dest!: insertLegacyAdminMembership_Inr identityOwner_Inr)
  have "owner_given a (u_ID v) s (s'\<lparr>users := users s1, members := ms, next_id := next_id s1\<rparr>)"
    by (rule ensure_then_insert [OF run _ _ _ _ lm]) simp_all
  also have "s'\<lparr>users := users s1, members := ms, next_id := next_id s1\<rparr> = s'" by (simp add: s')
  finally show ?thesis
    by (rule owner_given_advances) (use ensureLegacyUser_Inr [OF run] in \<open>auto simp: s'\<close>)
qed

lemma resolveCompatibilityOwner_Inr:
  "resolveCompatibilityOwner a e n s = (Inr x, n', s') \<Longrightarrow> s' = s \<and>
     (\<forall>o'. x = Some o' \<and> co_legacy o' \<longrightarrow> (\<exists>r. user_by_legacy a s = Some r \<and> u_ID r = co_userID o'))"
  by (auto simp: resolveCompatibilityOwner_def db_Inr split: option.splits list.splits if_splits)

lemma backfill_name_names: "backfill_name a s = (Inr x, s') \<Longrightarrow> \<exists>ts. s' = s\<lparr>accounts := ts\<rparr> \<and> map (\<lambda>t. (a_ID t, t_email t)) ts = account_names s"
  by (auto simp: backfill_name_def Let_def update_where_def split: if_splits)

lemma account_of_names: "map (\<lambda>t. (a_ID t, t_email t)) ts = account_names s \<Longrightarrow> (lookup_key a_ID ts a = None) = (account_of a s = None)"
  by (drule arg_cong [where f = "\<lambda>xs. fst ` set xs"]) (simp add: account_of_def lookup_key_None image_image)

text \<open>The statements of a reconciliation after its owner is known.\<close>

lemma backfill_account_Inr:
  assumes "backfill_account a own now e n s = (Inr x, n', s')"
  shows "\<exists>ts ms ids ses. s' = s\<lparr>accounts := ts, members := ms, identities := ids, sessions := ses\<rparr> \<and>
    map (\<lambda>t. (a_ID t, t_email t)) ts = account_names s \<and> (if co_legacy own then legacy_members a (co_userID own) s ms else ms = members s)"
proof -
  from assms obtain ts n1 s2 where ts: "map (\<lambda>t. (a_ID t, t_email t)) ts = account_names s"
    and ins: "(if co_legacy own then insertLegacyAdminMembership a (co_userID own) now else db_return ()) e (Suc n) (s\<lparr>accounts := ts\<rparr>) = (Inr (), n1, s2)"
    and s': "s' = backfill_sessions a (co_userID own) now (backfill_identities a (co_userID own) s2)"
    by (fastforce simp: backfill_account_def db_Inr wrap_result_Inr dest!: backfill_name_names)
  have "\<exists>ms. s2 = s\<lparr>accounts := ts, members := ms\<rparr> \<and> (if co_legacy own then legacy_members a (co_userID own) s ms else ms = members s)"
  proof (cases "co_legacy own")
    case True
    with ins obtain ms where "s2 = s\<lparr>accounts := ts, members := ms\<rparr>" "legacy_members a (co_userID own) (s\<lparr>accounts := ts\<rparr>) ms"
      by (auto dest: insertLegacyAdminMembership_Inr)
    moreover from this(2) have "legacy_members a (co_userID own) s ms"
      using account_of_names [OF ts, of a] by (auto simp: legacy_members_def member_of_def account_of_def split: if_splits)
    ultimately show ?thesis using True by auto
  next
    case False
    with ins have "s2 = s\<lparr>accounts := ts\<rparr>" by simp
    with False show ?thesis by (intro exI [of _ "members s"]) simp
  qed
  then obtain ms where s2: "s2 = s\<lparr>accounts := ts, members := ms\<rparr>"
    and ms: "if co_legacy own then legacy_members a (co_userID own) s ms else ms = members s" by blast
  have "s' = s\<lparr>accounts := ts, members := ms, identities := identities s', sessions := sessions s'\<rparr>"
    by (simp add: s' s2 backfill_sessions_def backfill_identities_def)
  with ts ms show ?thesis by blast
qed

lemma reconcileCompatibilityAccount_advances:
  assumes "reconcileCompatibilityAccount a now e n s = (Inr x, n', s')"
  shows "reg_advances s s'"
proof -
  from assms obtain found n1 s0 own n2 s1 where res: "resolveCompatibilityOwner a e n s = (Inr found, n1, s0)"
    and own: "(case found of Some o' \<Rightarrow> db_return o'
       | None \<Rightarrow> db_bind (ensureLegacyUser a) (\<lambda>user. db_return \<lparr>co_userID = u_ID user, co_legacy = True\<rparr>)) e n1 s0 = (Inr own, n2, s1)"
    and fill: "backfill_account a own now e n2 s1 = (Inr x, n', s')"
    by (auto simp only: reconcileCompatibilityAccount_def db_bind_Inr)
  from resolveCompatibilityOwner_Inr [OF res] have s0: "s0 = s"
    and leg: "\<And>o'. found = Some o' \<Longrightarrow> co_legacy o' \<Longrightarrow> \<exists>r. user_by_legacy a s = Some r \<and> u_ID r = co_userID o'" by blast+
  from backfill_account_Inr [OF fill] obtain ts ms ids ses where s': "s' = s1\<lparr>accounts := ts, members := ms, identities := ids, sessions := ses\<rparr>"
    and ts: "map (\<lambda>t. (a_ID t, t_email t)) ts = account_names s1"
    and lm: "if co_legacy own then legacy_members a (co_userID own) s1 ms else ms = members s1" by blast
  show ?thesis
  proof (cases found)
    case (Some o')
    with own s0 have o': "own = o'" "s1 = s" by auto
    show ?thesis
    proof (cases "co_legacy own")
      case True
      with leg [OF Some] o' lm have "owner_given a (co_userID own) s s'" by (auto simp: owner_given_def s')
      then show ?thesis by (rule owner_given_advances) (use ts o' in \<open>auto simp: s'\<close>)
    next
      case False
      with lm ts o' show ?thesis by (intro reg_advances_frame) (simp_all add: s')
    qed
  next
    case None
    with own s0 obtain u n3 where run: "ensureLegacyUser a e n1 s = (Inr u, n3, s1)" and o': "own = \<lparr>co_userID = u_ID u, co_legacy = True\<rparr>"
      by (auto simp: db_Inr)
    have "owner_given a (u_ID u) s (s'\<lparr>users := users s1, members := ms, next_id := next_id s1\<rparr>)"
      by (rule ensure_then_insert [OF run]) (use lm o' in simp_all)
    also have "s'\<lparr>users := users s1, members := ms, next_id := next_id s1\<rparr> = s'" by (simp add: s')
    finally show ?thesis
      by (rule owner_given_advances) (use ensureLegacyUser_Inr [OF run] ts in \<open>auto simp: s'\<close>)
  qed
qed

section \<open>Signing up\<close>

lemma is_space_lower: "is_space (lower_char c) = is_space c"
  by (cases c) (auto simp: is_space_def lower_char_def Let_def)

lemma ToLower_TrimSpace: "ToLower (TrimSpace s) = TrimSpace (ToLower s)"
  by (simp add: TrimSpace_def ToLower_def dropWhile_map o_def rev_map is_space_lower)

lemma normal_address: "ToLower (btrim (NormalizeEmail m)) = NormalizeEmail m"
  by (simp add: NormalizeEmail_def ToLower_TrimSpace)

text \<open>The account of an address, found or made.\<close>

lemma direct_account_advances:
  assumes us: "users s' = users s @ [new_user m avatar now (next_id s)]" and nx: "next_id s' = Suc (Suc (next_id s))"
    and none: "user_by_email m s = None" and m: "ToLower (btrim m) = m"
    and acc: "accounts s' = accounts s @ [t]" "a_ID t = nat_text (Suc (next_id s))" "t_email t = m"
    and ms: "members s' = members s @ [direct_member (nat_text (Suc (next_id s))) (nat_text (next_id s)) now]"
    and rest: "grants s' = grants s" "post s' = post s" "audit s' = audit s"
  shows "reg_advances s s'"
proof (rule reg_advances_if)
  assume "registry_inv s"
  note ok = registry_invD [OF this]
  have fresh: "nat_text (Suc (next_id s)) \<notin> drawn s" using nat_text_inj by fastforce
  have old: "a_ID x \<noteq> nat_text (Suc (next_id s))" if "x \<in> set (accounts s)" for x
    using that ok(5) fresh unfolding accounts_ok_def by metis
  show "reg_advances s s'"
  proof (rule owner_advances [OF us _ _ _ ms])
    have "m_AccountID x \<in> drawn s" if "x \<in> set (members s)" for x using that ok(5) unfolding accounts_ok_def by blast
    with fresh have "m_AccountID x \<noteq> nat_text (Suc (next_id s))" if "x \<in> set (members s)" for x using that by metis
    then show "\<forall>x \<in> set (members s). m_AccountID x \<noteq> m_AccountID (direct_member (nat_text (Suc (next_id s))) (nat_text (next_id s)) now)"
      by (simp add: direct_member_def)
    show "distinct (map a_ID (accounts s'))" using ok(5) old acc by (auto simp: accounts_ok_def)
  qed (use old none m in \<open>auto simp: new_user_def direct_member_def acc rest nx\<close>)
qed

lemma createDirectUserAccount_advances:
  assumes run: "createDirectUserAccount vid now e n s = (Inr x, n', s')" and none: "user_by_email (vi_Email vid) s = None"
    and m: "ToLower (btrim (vi_Email vid)) = vi_Email vid"
  shows "reg_advances s s'"
proof (cases "List.find (\<lambda>t. t_email t = vi_Email vid) (accounts s)")
  case (Some t)
  with run obtain v n1 s1 ms where ens: "ensureLegacyUser (a_ID t) e (Suc n) s = (Inr v, n1, s1)"
    and lm: "legacy_members (a_ID t) (u_ID v) s1 ms" and s': "s' = s1\<lparr>members := ms\<rparr>"
    by (auto simp: createDirectUserAccount_def db_Inr dest!: insertLegacyAdminMembership_Inr)
  have "owner_given (a_ID t) (u_ID v) s (s'\<lparr>users := users s1, members := ms, next_id := next_id s1\<rparr>)"
    by (rule ensure_then_insert [OF ens _ _ _ _ lm]) simp_all
  also have "s'\<lparr>users := users s1, members := ms, next_id := next_id s1\<rparr> = s'" by (simp add: s')
  finally show ?thesis by (rule owner_given_advances) (use ensureLegacyUser_Inr [OF ens] in \<open>auto simp: s'\<close>)
next
  case None
  with run none m show ?thesis
    by (intro direct_account_advances [where m = "vi_Email vid" and avatar = "vi_AvatarURL vid" and now = now
            and t = "new_account (vi_Email vid) (firstRunes (vi_Email vid) 80) (vi_AvatarURL vid) now (Suc (next_id s))"])
      (auto simp: createDirectUserAccount_def db_Inr wrap_result_Inr put_user_def insert_user_def insert_account_def insert_member_def
        new_account_def new_user_def split: if_splits)
qed

end
