(* ===== verification/Registry_Steps.thy ===== *)
theory Registry_Steps
  imports Sign_In
begin

text \<open>
  The registry as a state machine: a step for every operation of the store on accounts, members,
  invitations, identities, sessions, API tokens and rate limits, whatever it returns, and for the
  delivery worker. Every step keeps the invariant of the registry; no account that has an active
  administrator loses the last one; an invitation never leaves a settled state; the audit log only
  grows; and towards the delivery worker the steps are steps of its own state machine.
\<close>

section \<open>Operations beside the members\<close>

text \<open>What an operation leaves that touches neither users, members, invitations nor the outbox.\<close>

definition reg_frame :: "registry \<Rightarrow> registry \<Rightarrow> bool" where
  "reg_frame s s' \<longleftrightarrow> users s' = users s \<and> members s' = members s \<and> grants s' = grants s \<and> post s' = post s \<and> next_id s' = next_id s \<and>
     account_names s' = account_names s \<and> prefix (audit s) (audit s')"

lemma reg_frame_refl [simp]: "reg_frame s s"
  by (simp add: reg_frame_def)

lemma reg_frame_trans: "reg_frame s s' \<Longrightarrow> reg_frame s' s'' \<Longrightarrow> reg_frame s s''"
  by (auto simp: reg_frame_def)

lemma reg_frame_advances: "reg_frame s s' \<Longrightarrow> reg_advances s s'"
  by (rule reg_advances_frame) (auto simp: reg_frame_def)

lemma frame_advances: "db_keeps reg_frame m \<Longrightarrow> db_keeps reg_advances m"
  by (erule db_keeps_mono) (rule reg_frame_advances)

lemma db_commits_mono: "db_commits R m \<Longrightarrow> (\<And>s s'. R s s' \<Longrightarrow> R' s s') \<Longrightarrow> db_commits R' m"
  unfolding db_commits_def by blast

lemma frame_bind: "db_keeps reg_frame m \<Longrightarrow> (\<And>x. db_keeps reg_frame (f x)) \<Longrightarrow> db_keeps reg_frame (db_bind m f)"
  by (rule db_keeps_bind) (rule reg_frame_trans)

lemmas frame_rules = db_keeps_return [of reg_frame, OF reg_frame_refl] db_keeps_fail [of reg_frame, OF reg_frame_refl]
  db_keeps_read [of reg_frame, OF reg_frame_refl] db_keeps_lift [of reg_frame, OF reg_frame_refl] db_keeps_try
  db_keeps_tx [of reg_frame, OF reg_frame_refl]
lemmas frame_stmt = db_keeps_stmt [of reg_frame, OF reg_frame_refl]
lemmas frame_write = db_keeps_write [of reg_frame, OF reg_frame_refl]

lemma frame_if: "db_keeps R p \<Longrightarrow> db_keeps R q \<Longrightarrow> db_keeps R (if b then p else q)"
  by simp

lemma frame_Allow: "db_keeps reg_frame (Allow f k l w)"
  unfolding Allow_def by (intro frame_if frame_rules frame_bind frame_stmt) (simp add: reg_frame_def Let_def)

lemma frame_Prune: "db_keeps reg_frame (Prune d)"
  unfolding Prune_def by (intro frame_write) (simp add: reg_frame_def)

lemma frame_CreateLoginToken: "db_keeps reg_frame (CreateLoginToken r m ttl)"
  unfolding CreateLoginToken_def by (intro frame_rules frame_bind frame_stmt) (simp add: reg_frame_def)

lemma frame_ConsumeLoginToken: "db_keeps reg_frame (ConsumeLoginToken raw)"
  unfolding ConsumeLoginToken_def
  by (intro frame_bind frame_stmt) (auto simp: reg_frame_def split: option.split sum.split bool.split intro!: frame_rules frame_bind)

lemma frame_CreateSession: "db_keeps reg_frame (CreateSession r u a ttl)"
  unfolding CreateSession_def
  by (intro frame_rules frame_bind frame_stmt frame_if)
    (auto simp: reg_frame_def insert_session_def wrap_result_def Let_def split: option.splits)

lemma frame_SelectSessionAccount: "db_keeps reg_frame (SelectSessionAccount raw u a)"
  unfolding SelectSessionAccount_def by (intro frame_rules frame_bind frame_stmt frame_if) (simp add: reg_frame_def update_sessions_def)

lemma frame_ClearSessionAccount: "db_keeps reg_frame (ClearSessionAccount raw u a)"
  unfolding ClearSessionAccount_def by (intro frame_rules frame_bind frame_stmt) (simp add: reg_frame_def update_sessions_def)

lemma frame_DestroySession: "db_keeps reg_frame (DestroySession raw)"
  unfolding DestroySession_def by (intro frame_write) (simp add: reg_frame_def)

lemma frame_store_token: "db_keeps reg_frame (store_token a u h name x k i hh st ev md now)"
  unfolding store_token_def
  by (intro frame_rules frame_bind frame_stmt frame_write frame_if)
    (auto simp: reg_frame_def insert_token_def wrap_result_def put_flash_def insert_audit_def split: prod.split
      intro!: frame_rules frame_bind frame_stmt frame_write)

lemma frame_CreateAPIToken: "db_keeps reg_frame (CreateAPIToken R wall a u h name ttl k rid key)"
  unfolding CreateAPIToken_def Let_def by (intro frame_rules frame_bind frame_store_token)

lemma frame_ConsumeTokenFlash: "db_keeps reg_frame (ConsumeTokenFlash G h a key)"
  unfolding ConsumeTokenFlash_def
  by (intro frame_bind frame_rules frame_write) (auto simp: reg_frame_def split: sum.split intro!: frame_rules)

lemma frame_PurgeLegacyTokenFlashes: "db_keeps reg_frame PurgeLegacyTokenFlashes"
  unfolding PurgeLegacyTokenFlashes_def by (intro frame_write) (simp add: reg_frame_def)

lemma frame_ValidateAPIToken: "db_keeps reg_frame (ValidateAPIToken raw)"
  unfolding ValidateAPIToken_def by (intro frame_stmt) (auto simp: reg_frame_def Let_def split: option.split)

text \<open>Audited mutations: their transaction adds at most its event to what the mutation does.\<close>

lemma frame_insert_audit: "reg_frame s (insert_audit a actor ev metadata now s)"
  by (simp add: reg_frame_def insert_audit_def)

lemma db_keeps_txm [db_keeps_rules]: "(\<And>s. R s s) \<Longrightarrow> (\<And>t. db_keeps R (body t)) \<Longrightarrow> db_keeps R (db_txm b body)"
  by (rule db_keeps_txm_commits) (auto intro: db_keeps_commits)

lemmas frame_txm = db_keeps_txm [of reg_frame, OF reg_frame_refl]

lemma frame_WithAudit: "(\<And>now. db_keeps reg_frame (mutate now)) \<Longrightarrow> db_keeps reg_frame (WithAudit a actor ev mutate)"
  unfolding WithAudit_def withAuditTarget_def authorizeAuditActor_def
  by (intro frame_bind frame_rules frame_txm)
    (auto simp: Let_def split: sum.split intro!: frame_bind frame_rules frame_write frame_insert_audit)

lemma frame_withLockedAccountAudit:
  "(\<And>now. db_keeps reg_frame (mutate now)) \<Longrightarrow> db_keeps reg_frame (withLockedAccountAudit a actor ev mutate)"
  unfolding withLockedAccountAudit_def
  by (intro frame_bind frame_rules frame_txm frame_if) (auto intro!: frame_write frame_insert_audit frame_bind frame_rules)

lemma frame_requireAdminMembership: "db_keeps reg_frame (requireAdminMembership a actor)"
  unfolding requireAdminMembership_def activeMembershipState_def by (auto intro!: frame_bind frame_rules)

lemma frame_deleteAPIToken: "db_keeps reg_frame (deleteAPIToken a i)"
  unfolding deleteAPIToken_def by (intro frame_bind frame_rules frame_stmt frame_if) (simp add: reg_frame_def Let_def)

lemma frame_RevokeAPIToken: "db_keeps reg_frame (RevokeAPIToken a i actor rid)"
  unfolding RevokeAPIToken_def Let_def
  by (intro frame_if frame_withLockedAccountAudit frame_WithAudit frame_bind frame_rules frame_requireAdminMembership frame_deleteAPIToken)

lemma frame_SetMinSeverityAudited: "db_keeps reg_frame (SetMinSeverityAudited a sev actor rid)"
  unfolding SetMinSeverityAudited_def
  by (intro frame_if frame_WithAudit frame_bind frame_rules frame_stmt)
    (simp add: reg_frame_def set_min_severity_def Let_def update_where_def)

lemmas registry_frames = frame_Allow frame_Prune frame_CreateLoginToken frame_ConsumeLoginToken frame_CreateSession
  frame_SelectSessionAccount frame_ClearSessionAccount frame_DestroySession frame_CreateAPIToken frame_ConsumeTokenFlash
  frame_RevokeAPIToken frame_PurgeLegacyTokenFlashes frame_ValidateAPIToken frame_SetMinSeverityAudited

section \<open>Members and invitations\<close>

named_theorems registry_ops "operations that advance the registry"

lemma advances_fail: "db_keeps reg_advances (db_fail err)"
  by (rule db_keeps_fail) simp

lemma advances_bind: "db_keeps reg_advances m \<Longrightarrow> (\<And>x. db_keeps reg_advances (f x)) \<Longrightarrow> db_keeps reg_advances (db_bind m f)"
  by (rule db_keeps_bind) (rule reg_advances_trans)

lemma advances_return: "db_keeps reg_advances (db_return x)"
  by (rule db_keeps_return) simp

lemma ChangeMemberRole_advances [registry_ops]: "db_keeps reg_advances (ChangeMemberRoleAudited a u role actor rid)"
  unfolding ChangeMemberRoleAudited_def
proof (intro frame_if advances_fail)
  show "db_keeps reg_advances (withLockedAccountAudit a actor
      (success_event ''membership.role_change'' ''membership'' u rid [(''role'', role)]) (change_role a u role actor))"
    unfolding db_keeps_def by (auto dest!: role_change.locked_run intro: member_effect_advances)
qed

lemma RevokeMembership_advances [registry_ops]: "db_keeps reg_advances (RevokeMembershipAudited a u actor rid)"
  unfolding RevokeMembershipAudited_def db_keeps_def
  by (auto dest!: revocation.locked_run intro!: member_effect_advances simp: revoke_row_def)

lemma LeaveAccount_advances [registry_ops]: "db_keeps reg_advances (LeaveAccountAudited a actor rid)"
  unfolding LeaveAccountAudited_def db_keeps_def
  by (auto dest!: leaving.locked_run intro!: member_effect_advances simp: revoke_row_def)

lemma UpdateAccountName_advances [registry_ops]: "db_keeps reg_advances (UpdateAccountNameAudited a name actor rid)"
proof -
  have "reg_frame s (insert_audit b actor' ev metadata t s1)" if "name_effect a actor name now s s1" for s s1 b actor' ev metadata t now
    using that by (auto simp: name_effect_def set_name_def Let_def reg_frame_def insert_audit_def update_where_def)
  then show ?thesis
    unfolding UpdateAccountNameAudited_def db_keeps_def
    by (auto dest!: naming.locked_run intro: reg_frame_advances)
qed

lemma rotateInvitation_advances: "db_keeps reg_advances (rotateInvitation R a i email role actor rid key limits resend roleChange)"
  unfolding db_keeps_def by (auto dest!: rotateInvitation_run intro: issued_advances)

lemma CreateOrRefreshInvitation_advances [registry_ops]:
  "db_keeps reg_advances (CreateOrRefreshInvitation P R a m role actor rid key)"
  unfolding CreateOrRefreshInvitation_def Let_def
  by (intro frame_if advances_fail advances_bind rotateInvitation_advances) (auto intro: advances_return)

lemma CreateInvitation_advances [registry_ops]: "db_keeps reg_advances (CreateInvitation P R a m role actor rid key limits)"
  unfolding CreateInvitation_def Let_def by (intro frame_if advances_fail rotateInvitation_advances)

lemma ResendInvitation_advances [registry_ops]: "db_keeps reg_advances (ResendInvitation R a i actor rid key)"
  unfolding ResendInvitation_def by (intro advances_bind rotateInvitation_advances) (auto intro: advances_return)

lemma ChangeInvitationRole_advances [registry_ops]: "db_keeps reg_advances (ChangeInvitationRole R a i role actor rid key)"
  unfolding ChangeInvitationRole_def
  by (intro frame_if advances_fail advances_bind rotateInvitation_advances) (auto intro: advances_return)

lemma RevokeInvitation_advances [registry_ops]: "db_keeps reg_advances (RevokeInvitation a i actor rid)"
  unfolding RevokeInvitation_def db_keeps_def
  by (auto dest!: withdrawing.locked_run intro: revoke_effect_advances)

lemma AcceptInvitation_advances [registry_ops]: "db_keeps reg_advances (AcceptInvitation i raw me rid)"
  unfolding db_keeps_def
proof (intro allI impI)
  fix e n s r n' s'
  assume run: "AcceptInvitation i raw me rid e n s = (r, n', s')"
  show "reg_advances s s'"
  proof (rule reg_advances_if)
    assume "registry_inv s"
    from AcceptInvitation_run [OF run registry_invD(1) [OF this]] show "reg_advances s s'"
      by (auto intro: add_user_advances consumed_advances)
  qed
qed

section \<open>Signing in\<close>

lemma commits_bind: "db_commits reg_advances m \<Longrightarrow> (\<And>x. db_commits reg_advances (f x)) \<Longrightarrow> db_commits reg_advances (db_bind m f)"
  by (rule db_commits_bind) (rule reg_advances_trans)

lemmas commits_rules = db_commits_return [of reg_advances, OF reg_advances_refl] db_commits_fail
  db_commits_read [of reg_advances, OF reg_advances_refl]

lemma commits_frame: "db_keeps reg_frame m \<Longrightarrow> db_commits reg_advances m"
  by (rule db_keeps_commits) (rule frame_advances)

lemma commits_lock: "db_commits reg_advances (db_write wrap (\<lambda>_ s. s))"
  by (intro commits_frame frame_write reg_frame_refl)

lemma commits_known_owner: "db_commits reg_advances (known_owner vid user tenant now)"
  unfolding known_owner_def
  by (auto intro!: commits_rules db_commitsI [of "reconcileLegacyIdentityOwner p q a now" for p q a now]
      dest: reconcileLegacyIdentityOwner_advances split: option.split)

lemma commits_new_owner: "ToLower (btrim (vi_Email vid)) = vi_Email vid \<Longrightarrow> db_commits reg_advances (new_owner vid now)"
proof (rule db_commitsI)
  fix e n s x n' s'
  assume m: "ToLower (btrim (vi_Email vid)) = vi_Email vid" and run: "new_owner vid now e n s = (Inr x, n', s')"
  obtain r n1 s1 where look: "userByEmail (vi_Email vid) e n s = (r, n1, s1)" by (metis prod_cases3)
  note found = userByEmail_run [OF look]
  let ?link = "\<lambda>user created.
     db_bind (db_stmt (Wrapf ''link verified identity: '') (\<lambda>_. link_identity created (u_ID user) vid)) (\<lambda>linked.
     if linked \<noteq> 1 then db_fail errIdentityLinkRace else db_return user)"
  have link: "reg_advances a b" if "?link user created e k a = (Inr y, k', b)" for user :: User and created a b k k' y
    using that by (intro reg_frame_advances) (auto simp: db_Inr link_identity_def reg_frame_def split: if_splits)
  show "reg_advances s s'"
  proof (cases r)
    case (Inr u)
    with run look found have "?link u None e n1 s = (Inr x, n', s')" by (simp add: new_owner_def db_bind_def db_try_def)
    then show ?thesis by (rule link)
  next
    case (Inl err)
    with run look found obtain c n2 s2 where c: "createDirectUserAccount vid now e n1 s = (Inr c, n2, s2)" and none: "user_by_email (vi_Email vid) s = None"
      and rest: "?link (fst c) (Some (snd c)) e n2 s2 = (Inr x, n', s')"
      by (auto simp: new_owner_def db_bind_Inr db_try_def split: if_splits)
    show ?thesis using createDirectUserAccount_advances [OF c none m] link [OF rest] by (rule reg_advances_trans)
  qed
qed

lemma commits_resolve_owner: "ToLower (btrim (vi_Email vid)) = vi_Email vid \<Longrightarrow> db_commits reg_advances (resolve_owner vid now)"
  unfolding resolve_owner_def
proof (intro commits_bind)
  show look: "db_commits reg_advances (identityOwner (vi_Provider vid) (vi_Subject vid))" for vid
    by (rule db_commitsI) (auto dest!: identityOwner_Inr)
  assume m: "ToLower (btrim (vi_Email vid)) = vi_Email vid"
  show "db_commits reg_advances (case x of (user, tenant, found) \<Rightarrow>
       if found then known_owner vid user tenant now
       else db_bind (db_write (Wrapf ''lock verified email: '') (\<lambda>_ s. s)) (\<lambda>_.
         db_bind (identityOwner (vi_Provider vid) (vi_Subject vid)) (\<lambda>(user, tenant, found).
           if found then known_owner vid user tenant now else new_owner vid now)))" for x
    using m by (auto intro!: commits_bind commits_known_owner commits_new_owner look commits_lock split: prod.split)
qed

lemma verify_user_advances: "verify_user u avatar now s = (Inr x, s') \<Longrightarrow> reg_advances s s'"
proof -
  let ?f = "\<lambda>r. r\<lparr>u_AvatarURL := (if avatar = [] then u_AvatarURL r else avatar),
    u_EmailVerifiedAt := Some (case u_EmailVerifiedAt r of None \<Rightarrow> now | Some t \<Rightarrow> t), u_UpdatedAt := now\<rparr> :: user_row"
  assume "verify_user u avatar now s = (Inr x, s')"
  then have s': "s' = s\<lparr>users := update_where (\<lambda>r. u_ID r = u) ?f (users s)\<rparr>" by (auto simp: verify_user_def Let_def split: option.splits)
  have keys: "map u_ID (users s') = map u_ID (users s)" "map u_Email (users s') = map u_Email (users s)"
    by (simp_all add: s' keys_update_where)
  have row: "\<exists>r0 \<in> set (users s). u_ID r = u_ID r0 \<and> legacy_tenant_id r = legacy_tenant_id r0" if "r \<in> set (users s')" for r
    using that by (auto simp: s' set_update_where)
  show ?thesis
  proof (rule user_rows_advance)
    show "\<exists>r'. user_of v s' = Some r' \<and> u_Email r' = u_Email r \<and> u_Status r' = u_Status r" if "user_of v s = Some r" for v r
      using that by (simp add: user_of_def s' lookup_key_update_where)
    show "users_ok s'" if "users_ok s" using that keys row by (fastforce simp: users_ok_def s')
    show "user_by_email k s' \<noteq> None" if "user_by_email k s \<noteq> None" for k
      using that by (auto simp: user_by_email_def s' lookup_key_update_where)
    show "\<exists>u0 \<in> set (users s). legacy_tenant_id u0 = Some a \<and> u_ID u0 = u_ID v" if "v \<in> set (users s')" "legacy_tenant_id v = Some a" for v a
      using row [OF that(1)] that(2) by metis
  qed (simp_all add: s')
qed

lemma resolveDirectIdentity_advances:
  "ToLower (btrim (vi_Email vid)) = vi_Email vid \<Longrightarrow> db_keeps reg_advances (resolveDirectIdentity vid)"
  unfolding resolveDirectIdentity_def onlyActiveAccount_def
  by (intro db_keeps_tx_commits commits_bind commits_resolve_owner commits_rules reg_advances_refl db_commitsI)
    (auto simp: db_stmt_Inr dest: verify_user_advances)

lemma ResolveDirectIdentity_advances [registry_ops]: "db_keeps reg_advances (ResolveDirectIdentity vid)"
  unfolding ResolveDirectIdentity_def Let_def
  by (intro advances_bind db_keeps_try resolveDirectIdentity_advances)
    (auto simp: normal_address split: sum.split intro!: advances_return advances_fail advances_bind db_keeps_try resolveDirectIdentity_advances)

section \<open>Reconciling\<close>

lemma commits_reconcile: "db_commits reg_advances (reconcileCompatibilityAccount a now)"
  by (rule db_commitsI) (rule reconcileCompatibilityAccount_advances)

lemma ReconcileLegacyAccount_advances: "db_keeps reg_advances (ReconcileLegacyAccount a)"
  unfolding ReconcileLegacyAccount_def
  by (intro db_keeps_tx_commits commits_bind commits_rules commits_reconcile reg_advances_refl)

lemma ReconcileLegacyAccounts_advances [registry_ops]: "db_keeps reg_advances ReconcileLegacyAccounts"
  unfolding ReconcileLegacyAccounts_def
  by (intro advances_bind frame_advances frame_rules db_keeps_foreach db_keeps_wrap ReconcileLegacyAccount_advances)
    (auto intro: reg_advances_trans)

lemma repairLegacySession_advances: "db_keeps reg_advances (repairLegacySession h a)"
  unfolding repairLegacySession_def
  by (intro db_keeps_txm_commits commits_bind commits_rules reg_advances_refl)
    (auto intro!: commits_lock commits_rules commits_bind commits_reconcile split: prod.split)

lemma ValidateSession_advances [registry_ops]: "db_keeps reg_advances (ValidateSession raw)"
proof -
  have user: "db_keeps reg_advances (GetUser u)" for u unfolding GetUser_def by (intro frame_advances frame_rules)
  have look: "db_keeps reg_advances (db_read w g)" for w and g :: "time \<Rightarrow> registry \<Rightarrow> session_row result" by (intro frame_advances frame_rules)
  have "db_keeps reg_advances (validate_attempt h b again)" if "db_keeps reg_advances again" for h b again
    unfolding validate_attempt_def using that
    by (auto intro!: look advances_bind advances_fail advances_return repairLegacySession_advances user db_keeps_try split: option.split sum.split)
  note attempt = this
  show ?thesis unfolding ValidateSession_def Let_def by (intro attempt advances_fail)
qed

section \<open>Steps\<close>

text \<open>The operations of the store that may change the registry, with any arguments; their results do
  not matter here.\<close>

inductive registry_op :: "(registry, unit) db \<Rightarrow> bool" where
  change_role: "registry_op (ChangeMemberRoleAudited a u role actor rid)"
| revoke_member: "registry_op (RevokeMembershipAudited a u actor rid)"
| leave: "registry_op (LeaveAccountAudited a actor rid)"
| rename_account: "registry_op (UpdateAccountNameAudited a name actor rid)"
| min_severity: "registry_op (SetMinSeverityAudited a sev actor rid)"
| refresh_invitation: "registry_op (db_ignore (CreateOrRefreshInvitation P R a m role actor rid key))"
| create_invitation: "registry_op (db_ignore (CreateInvitation P R a m role actor rid key limits))"
| resend_invitation: "registry_op (db_ignore (ResendInvitation R a i actor rid key))"
| change_invitation: "registry_op (db_ignore (ChangeInvitationRole R a i role actor rid key))"
| revoke_invitation: "registry_op (RevokeInvitation a i actor rid)"
| accept_invitation: "registry_op (db_ignore (AcceptInvitation i raw me rid))"
| sign_in: "registry_op (db_ignore (ResolveDirectIdentity vid))"
| reconcile: "registry_op ReconcileLegacyAccounts"
| create_login: "registry_op (db_ignore (CreateLoginToken r m ttl))"
| consume_login: "registry_op (db_ignore (ConsumeLoginToken raw))"
| create_session: "registry_op (db_ignore (CreateSession r u x ttl))"
| validate_session: "registry_op (db_ignore (ValidateSession raw))"
| select_account: "registry_op (SelectSessionAccount raw u a)"
| clear_account: "registry_op (db_ignore (ClearSessionAccount raw u a))"
| destroy_session: "registry_op (DestroySession raw)"
| create_token: "registry_op (db_ignore (CreateAPIToken R wall a u h name ttl k rid key))"
| show_token: "registry_op (db_ignore (ConsumeTokenFlash G h a key))"
| revoke_token: "registry_op (RevokeAPIToken a i actor rid)"
| purge_flashes: "registry_op PurgeLegacyTokenFlashes"
| validate_token: "registry_op (db_ignore (ValidateAPIToken raw))"
| rate_limit: "registry_op (db_ignore (Allow f k l w))"
| prune: "registry_op (Prune d)"

text \<open>One step: an operation with any failing statements, or a step of the delivery worker, which leaves
  the invitations alone.\<close>

inductive registry_step :: "registry \<Rightarrow> registry \<Rightarrow> bool" where
  operation: "registry_op m \<Longrightarrow> m e n s = (r, n', s') \<Longrightarrow> registry_step s s'"
| worker: "mail_step (mail_view s) p \<Longrightarrow> invitations p = invitations (mail_view s) \<Longrightarrow> registry_step s (s\<lparr>post := p\<rparr>)"

abbreviation registry_steps :: "registry \<Rightarrow> registry \<Rightarrow> bool" where
  "registry_steps \<equiv> registry_step\<^sup>*\<^sup>*"

lemma registry_op_advances: "registry_op m \<Longrightarrow> db_keeps reg_advances m"
  by (induction rule: registry_op.induct) (auto intro: registry_ops registry_frames [THEN frame_advances] db_keeps_ignore)

lemma worker_advances:
  assumes "mail_step (mail_view s) p" and "invitations p = invitations (mail_view s)"
  shows "reg_advances s (s\<lparr>post := p\<rparr>)"
  unfolding reg_advances_def
proof
  assume inv: "registry_inv s"
  have "mail_view (s\<lparr>post := p\<rparr>) = p" using assms(2) by (simp add: mail_view_def)
  moreover have "registry_inv (s\<lparr>post := p\<rparr>)"
    using inv by (simp add: registry_inv_def users_ok_def members_ok_def unclaimed_def active_email_iff user_of_def accounts_ok_def user_by_email_def)
  ultimately show "registry_inv (s\<lparr>post := p\<rparr>) \<and> keeps_admins s (s\<lparr>post := p\<rparr>) \<and> grants_go (grants s) (grants (s\<lparr>post := p\<rparr>)) \<and>
    mail_steps (mail_view s) (mail_view (s\<lparr>post := p\<rparr>)) \<and> prefix (audit s) (audit (s\<lparr>post := p\<rparr>))"
    using assms(1) keeps_admins_same [of "s\<lparr>post := p\<rparr>" s] by auto
qed

lemma registry_step_advances: "registry_step s s' \<Longrightarrow> reg_advances s s'"
  by (induction rule: registry_step.induct) (auto intro: worker_advances dest: registry_op_advances [THEN db_keepsD])

lemma registry_steps_advance: "registry_steps s s' \<Longrightarrow> reg_advances s s'"
  by (induction rule: rtranclp_induct) (auto intro: reg_advances_trans registry_step_advances)

lemma registry_steps_keep:
  assumes "registry_steps s s'" and "registry_inv s"
  shows "registry_inv s'" "keeps_admins s s'" "grants_go (grants s) (grants s')" "mail_steps (mail_view s) (mail_view s')" "prefix (audit s) (audit s')"
  using registry_steps_advance [OF assms(1)] assms(2) by (auto simp: reg_advances_def)

lemma registry_op_step: "registry_op m \<Longrightarrow> registry_steps s (snd (snd (m e n s)))"
  by (metis operation prod.collapse r_into_rtranclp)

end
