(* ===== verification/Registry_Facts.thy ===== *)
theory Registry_Facts
  imports Registry_Steps
begin

text \<open>
  What the operations on accounts, members, invitations, sessions and tokens guarantee, one by one and
  over every sequence of steps of the registry.
\<close>

section \<open>A registry with two members and an invitation\<close>

definition demo_user :: "string \<Rightarrow> string \<Rightarrow> user_row" where
  "demo_user u m =
     \<lparr>u_ID = u, u_Email = m, u_EmailVerifiedAt = Some 0, u_Status = ''active'', u_AvatarURL = [], u_TOSAcceptedAt = None,
      u_CreatedAt = 0, u_UpdatedAt = 0, legacy_tenant_id = None\<rparr>"

definition demo_member :: "string \<Rightarrow> Role \<Rightarrow> Membership" where
  "demo_member u role =
     \<lparr>m_AccountID = ''0'', m_UserID = u, m_Role = role, m_CreatedByUserID = None, m_AcceptedAt = 0, m_RevokedAt = None,
      m_RevokedByUserID = None, m_CreatedAt = 0, m_UpdatedAt = 0\<rparr>"

definition demo_token :: string where
  "demo_token = ''abcd''"

definition demo_grant :: grant_row where
  "demo_grant =
     \<lparr>in_id = ''i'', in_account = ''0'', in_email = ''cy@x.io'', in_version = 1, in_expires = hours 168, in_accepted = None, in_revoked = None,
      gr_role = RoleReader, gr_inviter = Some ''1'', gr_hash = HashToken demo_token, gr_accepted_by = None, gr_revoked_by = None,
      gr_created = 0, gr_updated = 0\<rparr>"

definition demo_registry :: registry where
  "demo_registry = empty_registry\<lparr>
     accounts := [new_account ''ann@x.io'' ''Ann'' [] 0 0], users := [demo_user ''1'' ''ann@x.io'', demo_user ''2'' ''bob@x.io''],
     members := [demo_member ''1'' RoleAdmin, demo_member ''2'' RoleAdmin], grants := [demo_grant], next_id := 3\<rparr>"

lemmas demo_registry_defs = demo_registry_def demo_user_def demo_member_def demo_grant_def empty_registry_def new_account_def

lemma hash_format: "length (HashToken raw) = 64" "set (HashToken raw) \<subseteq> set ''0123456789abcdef''"
  using length_sha256_hex [of raw] set_sha256_hex [of raw] by (simp_all add: HashToken_def)

lemma demo_ids: "nat_text 0 = ''0''" "nat_text 1 = ''1''" "nat_text 2 = ''2''" "nat_text 3 = ''3''"
  by code_simp+

lemma demo_drawn: "drawn demo_registry = {''0'', ''1'', ''2''}"
proof -
  have "{..<next_id demo_registry} = {0, 1, 2}" by (auto simp: demo_registry_def)
  then show ?thesis by (simp add: demo_ids [simplified])
qed

lemma demo_grants_ok: "grants_ok [demo_grant]"
  using hash_format [of demo_token]
  by (simp add: grants_ok_def grant_checks_def demo_grant_def Role_Valid_def btrim_def ToLower_def lower_char_def not_before_def)

lemma demo_registry_inv: "registry_inv demo_registry"
proof -
  have "users_ok demo_registry" unfolding users_ok_def demo_drawn by (simp add: demo_registry_defs)
  moreover have "members_ok demo_registry" by (simp add: members_ok_def user_of_def demo_registry_defs)
  moreover have "unclaimed demo_registry" by (simp add: unclaimed_def active_email_def user_of_def demo_registry_defs)
  moreover have "accounts_ok demo_registry"
    unfolding accounts_ok_def demo_drawn by (simp add: demo_registry_defs demo_ids user_by_email_def btrim_def ToLower_def lower_char_def)
  moreover have "grants_ok (grants demo_registry)" using demo_grants_ok by (simp add: demo_registry_def)
  ultimately show ?thesis by (simp add: registry_inv_def)
qed

abbreviation bob :: Actor where
  "bob \<equiv> \<lparr>ActorKind = ActorUser, UserID = ''2'', APITokenID = []\<rparr>"

lemmas run_defs = db_bind_def db_stmt_def db_read_def db_write_def db_txm_def db_tx_def db_try_def db_lift_def

text \<open>One of the two administrators leaves.\<close>

lemma demo_leave_audit: "validateAuditInput ''0'' bob (success_event ''membership.leave'' ''membership'' ''2'' ''r'' []) = Inr ''{}''"
  by code_simp

lemma demo_leave:
  "LeaveAccountAudited ''0'' bob ''r'' (calm_env 0) 0 demo_registry =
    (Inr (), 8, demo_registry\<lparr>members := [demo_member ''1'' RoleAdmin, revoke_row ''2'' 0 (demo_member ''2'' RoleAdmin)],
       audit := [audit_of ''0'' bob (success_event ''membership.leave'' ''membership'' ''2'' ''r'' []) ''{}'' 0]\<rparr>)"
  by (simp add: LeaveAccountAudited_def withLockedAccountAudit_def demo_leave_audit run_defs account_of_def leave_account_def
      activeMembershipState_def membership_state_def requireAnotherActiveAdmin_def update_members_def exactlyOneRowChanged_def
      demo_registry_def empty_registry_def new_account_def demo_user_def demo_member_def member_live_def user_of_def user_active_def active_admin_def
      insert_audit_def demo_ids update_where_def count_where_def)

lemma demo_leave_steps: "registry_steps demo_registry (snd (snd (LeaveAccountAudited ''0'' bob ''r'' (calm_env 0) 0 demo_registry)))"
  by (rule registry_op_step) (rule registry_op.leave)

section \<open>Over every sequence of steps\<close>

text \<open>
  C20. From the empty registry on, whatever the operations, their order and their failing statements: no two
  users have an address, no user has two memberships in an account, no address has two pending
  invitations to an account, and no pending invitation is for an active member of its account.
\<close>

theorem registry_invariant:
  assumes "registry_steps empty_registry s"
  shows "distinct (map u_Email (users s)) \<and> distinct (member_keys s) \<and>
    distinct (map (\<lambda>g. (in_account g, in_email g)) (filter grant_pending (grants s))) \<and>
    (\<forall>g \<in> set (grants s). grant_pending g \<longrightarrow>
       \<not> (\<exists>m \<in> set (members s). m_AccountID m = in_account g \<and> m_RevokedAt m = None \<and>
            (\<exists>u. user_of (m_UserID m) s = Some u \<and> u_Email u = in_email g)))"
proof -
  have "registry_inv empty_registry"
    by (simp add: empty_registry_def registry_inv_def users_ok_def members_ok_def grants_ok_def unclaimed_def accounts_ok_def)
  from registry_steps_keep(1) [OF assms this] show ?thesis
    by (auto simp: registry_inv_def users_ok_def members_ok_def grants_ok_def unclaimed_def active_email_iff)
qed

definition demo_vid :: VerifiedIdentity where
  "demo_vid = \<lparr>vi_Provider = ''google'', vi_Subject = ''1'', vi_Email = '' Ann@x.io'', vi_AvatarURL = []\<rparr>"

abbreviation signed_up :: registry where
  "signed_up \<equiv> snd (snd (db_ignore (ResolveDirectIdentity demo_vid) (calm_env 0) 0 empty_registry))"

lemma demo_sign_up: "map u_Email (users signed_up) = [''ann@x.io'']" "member_keys signed_up = [(''1'', ''0'')]" "grants signed_up = []"
  by code_simp+

theorem registry_invariant_witness:
  "map u_Email (users signed_up) = [''ann@x.io''] \<and> member_keys signed_up = [(''1'', ''0'')] \<and> distinct (map u_Email (users signed_up)) \<and>
   distinct (member_keys signed_up)"
proof -
  have "registry_steps empty_registry signed_up" by (rule registry_op_step) (rule registry_op.sign_in)
  from registry_invariant [OF this] demo_sign_up show ?thesis by blast
qed

text \<open>
  C19. An account that has an active administrator never loses the last one: no sequence of role changes,
  revocations, departures, acceptances, sign-ins and reconciliations leaves it without a membership
  that is an administrator's, not revoked and of an active user.
\<close>

theorem account_keeps_admin:
  assumes "registry_steps s s'" and "registry_inv s" and "has_admin s a"
  shows "\<exists>m \<in> set (members s'). m_AccountID m = a \<and> m_Role m = RoleAdmin \<and> m_RevokedAt m = None \<and> user_active (m_UserID m) s'"
proof -
  have "has_admin s' a" using registry_steps_keep(2) [OF assms(1,2)] assms(3) by (simp add: keeps_admins_def)
  then show ?thesis by (auto simp: has_admin_def list_ex_iff active_admin_def)
qed

theorem account_keeps_admin_witness:
  "has_admin demo_registry ''0'' \<and>
   (\<exists>m \<in> set (members (snd (snd (LeaveAccountAudited ''0'' bob ''r'' (calm_env 0) 0 demo_registry)))).
      m_AccountID m = ''0'' \<and> m_Role m = RoleAdmin \<and> m_RevokedAt m = None)"
proof -
  have "has_admin demo_registry ''0''" by (simp add: has_admin_def active_admin_def user_active_def user_of_def demo_registry_defs)
  with account_keeps_admin [OF demo_leave_steps demo_registry_inv this] show ?thesis by blast
qed

text \<open>
  C21. An invitation is never lost, rewritten or revived: it keeps its identifier, account and address, its
  version only grows, its token changes only with the version, and once it is accepted or revoked its
  row never changes again.
\<close>

theorem invitation_settles_once:
  assumes "registry_steps s s'" and "registry_inv s" and "g \<in> set (grants s)"
  shows "\<exists>g' \<in> set (grants s'). in_id g' = in_id g \<and> (\<forall>h \<in> set (grants s'). in_id h = in_id g \<longrightarrow> h = g') \<and>
      in_account g' = in_account g \<and> in_email g' = in_email g \<and> in_version g \<le> in_version g' \<and>
      (in_version g' = in_version g \<longrightarrow> gr_hash g' = gr_hash g) \<and> (in_accepted g \<noteq> None \<or> in_revoked g \<noteq> None \<longrightarrow> g' = g)"
proof -
  note k = registry_steps_keep [OF assms(1,2)]
  from k(3) assms(3) obtain h where h: "h \<in> set (grants s')" "grant_goes g h" unfolding grants_go_def by blast
  from h(2) have same: "in_id h = in_id g" "in_account h = in_account g" "in_email h = in_email g" "in_version g \<le> in_version h"
    and tok: "in_version h = in_version g \<longrightarrow> gr_hash h = gr_hash g" and fin: "in_accepted g \<noteq> None \<or> in_revoked g \<noteq> None \<longrightarrow> h = g"
    unfolding grant_goes_def grant_pending_def by argo+
  have "\<forall>x \<in> set (grants s'). in_id x = in_id g \<longrightarrow> x = h"
    using grant_by_id [OF registry_invD(3) [OF k(1)] _ h(1)] unfolding same(1) by blast
  with same tok fin h(1) show ?thesis by (intro bexI [of _ h] conjI)
qed

theorem invitation_settles_once_witness:
  "\<exists>g' \<in> set (grants (snd (snd (LeaveAccountAudited ''0'' bob ''r'' (calm_env 0) 0 demo_registry)))). in_id g' = ''i'' \<and> in_email g' = ''cy@x.io''"
proof -
  have "demo_grant \<in> set (grants demo_registry)" by (simp add: demo_registry_def)
  from invitation_settles_once [OF demo_leave_steps demo_registry_inv this] show ?thesis by (auto simp: demo_grant_def)
qed

text \<open>
  C22. The store refines the delivery worker's state machine: every sequence of steps of the registry is, seen
  on the invitations and the outbox, a sequence of the outbox's own steps, so the outbox's invariant
  and everything proved of it hold while accounts and invitations change.
\<close>

theorem registry_refines_mail:
  assumes "registry_steps s s'" and "registry_inv s" and "mail_inv (mail_view s)"
  shows "mail_steps (mail_view s) (mail_view s') \<and> mail_inv (mail_view s')"
proof -
  have m: "mail_steps (mail_view s) (mail_view s')" by (rule registry_steps_keep(4) [OF assms(1,2)])
  with mail_steps_goes_on [OF m] assms(3) show ?thesis by (simp add: goes_on_def)
qed

theorem registry_refines_mail_witness:
  "mail_steps (mail_view demo_registry) (mail_view (snd (snd (LeaveAccountAudited ''0'' bob ''r'' (calm_env 0) 0 demo_registry))))"
proof -
  have "mail_inv (mail_view demo_registry)"
    by (simp add: mail_inv_def rows_inv_def slots_inv_def mail_view_def demo_registry_def empty_registry_def)
  from registry_refines_mail [OF demo_leave_steps demo_registry_inv this] show ?thesis by blast
qed

section \<open>Who may change an account, and the record of it\<close>

text \<open>The changes of members, invitations and the name of an account, with who may make them.\<close>

inductive account_change :: "string \<Rightarrow> Actor \<Rightarrow> (registry \<Rightarrow> bool) \<Rightarrow> (registry, unit) db \<Rightarrow> bool" where
  "account_change a actor (by_admin a actor) (ChangeMemberRoleAudited a u role actor rid)"
| "account_change a actor (by_admin a actor) (RevokeMembershipAudited a u actor rid)"
| "account_change a actor (by_member a actor) (LeaveAccountAudited a actor rid)"
| "account_change a actor (by_admin a actor) (UpdateAccountNameAudited a name actor rid)"
| "account_change a actor (by_admin a actor) (RevokeInvitation a i actor rid)"
| "account_change a actor (by_admin a actor) (db_ignore (CreateOrRefreshInvitation P R a m role actor rid key))"
| "account_change a actor (by_admin a actor) (db_ignore (CreateInvitation P R a m role actor rid key limits))"
| "account_change a actor (by_admin a actor) (db_ignore (ResendInvitation R a i actor rid key))"
| "account_change a actor (by_admin a actor) (db_ignore (ChangeInvitationRole R a i role actor rid key))"

definition attributed :: "string \<Rightarrow> Actor \<Rightarrow> (registry \<Rightarrow> bool) \<Rightarrow> registry \<Rightarrow> registry \<Rightarrow> bool" where
  "attributed a actor allowed s s' \<longleftrightarrow>
     s' = s \<or> account_active a s \<and> allowed s \<and>
       (\<exists>x. audit s' = audit s @ [x] \<and> au_account x = a \<and> au_kind x = ActorKind actor \<and> au_user x = nullStr (UserID actor) \<and> au_outcome x = ''success'')"

context locked_mutation
begin

lemma locked_attributed:
  assumes "\<And>now s s1. effect now s s1 \<Longrightarrow> allowed s" and "Outcome ev = ''success''"
  shows "db_keeps (attributed a actor allowed) (withLockedAccountAudit a actor ev mutate)"
  unfolding db_keeps_def attributed_def using assms by (auto dest!: locked_run simp: insert_audit_def audit_of_def)

end

lemma attributed_rotation: "db_keeps (attributed a actor (by_admin a actor)) (rotateInvitation R a i email role actor rid key limits resend roleChange)"
  unfolding db_keeps_def attributed_def
  by (auto dest!: rotateInvitation_run simp: issued_def audit_of_def rotation_event_def)

lemma attributed_bind_return:
  assumes "db_keeps (attributed a actor P) m"
  shows "db_keeps (attributed a actor P) (db_bind m (\<lambda>x. db_return (f x)))"
  using assms unfolding db_keeps_def by (fastforce simp: db_bind_def split: prod.splits sum.splits)

lemma attributed_fail: "db_keeps (attributed a actor P) (db_fail err)"
  by (rule db_keeps_fail) (simp add: attributed_def)

lemma account_change_attributed: "account_change a actor P m \<Longrightarrow> db_keeps (attributed a actor P) m"
  by (induction rule: account_change.induct)
    (auto simp: ChangeMemberRoleAudited_def RevokeMembershipAudited_def LeaveAccountAudited_def UpdateAccountNameAudited_def RevokeInvitation_def
      CreateOrRefreshInvitation_def CreateInvitation_def ResendInvitation_def ChangeInvitationRole_def Let_def split_def
      member_effect_def name_effect_def revoke_effect_def
      intro!: db_keeps_ignore attributed_fail attributed_bind_return attributed_rotation role_change.locked_attributed revocation.locked_attributed
        leaving.locked_attributed naming.locked_attributed withdrawing.locked_attributed)



section \<open>Accepting an invitation\<close>

lemma member_of_put_member:
  "member_of b v (put_member a u role inviter now s) =
    (if (b, v) = (a, u) then Some (case member_of a u s of None \<Rightarrow> invited_member a u role inviter now
       | Some m \<Rightarrow> m\<lparr>m_Role := role, m_CreatedByUserID := nullStr inviter, m_AcceptedAt := now, m_RevokedAt := None,
           m_RevokedByUserID := None, m_UpdatedAt := now\<rparr>)
     else member_of b v s)"
  unfolding member_of_def put_member_def by (auto simp: invited_member_def lookup_key_upsert_keep split: option.split)

lemma consumed_user: "resolved m now user s s1 \<Longrightarrow> u_Email user = m"
  by (auto simp: resolved_def) (simp add: new_user_def)

lemma accepted_in:
  "g \<in> set gs \<Longrightarrow> grant_pending g \<Longrightarrow> accept_grant u now g \<in> set (update_where (grant_is (in_account g) (in_id g)) (accept_grant u now) gs)"
  unfolding set_update_where by (intro bexI [of _ g]) (simp_all add: grant_is_def)

lemma consumed_effect:
  assumes "consumed g user rid now s s'" and "users_ok s" and "g \<in> set (grants s)" "grant_pending g"
  shows "u_Email user = in_email g"
    and "\<exists>m. member_of (in_account g) (u_ID user) s' = Some m \<and> m_Role m = gr_role g \<and> m_RevokedAt m = None"
    and "(b, v) \<noteq> (in_account g, u_ID user) \<Longrightarrow> member_of b v s' = member_of b v s"
    and "accept_grant (u_ID user) now g \<in> set (grants s')"
    and "\<exists>x. audit s' = audit s @ [x] \<and> au_account x = in_account g \<and> au_user x = nullStr (u_ID user) \<and> au_action x = ''invitation.accept''"
proof -
  from assms(1) obtain s1 ids inviter metadata gs where res: "resolved (in_email g) now user s s1"
    and gs: "gs = update_where (grant_is (in_account g) (in_id g)) (accept_grant (u_ID user) now) (grants s)"
    and s': "s' = (put_member (in_account g) (u_ID user) (gr_role g) inviter now s1)\<lparr>identities := ids, grants := gs,
      audit := audit s @ [audit_of (in_account g) (user_actor (u_ID user)) (accept_event g rid) metadata now]\<rparr>"
    unfolding consumed_def by blast
  have ms: "members s1 = members s" by (rule resolved_users(5) [OF res assms(2)])
  have m: "member_of b v s' = member_of b v (put_member (in_account g) (u_ID user) (gr_role g) inviter now s1)" for b v
    by (simp add: member_of_def s')
  have old: "member_of b v s1 = member_of b v s" for b v by (simp add: member_of_def ms)
  show "u_Email user = in_email g" using res by (rule consumed_user)
  show "\<exists>m. member_of (in_account g) (u_ID user) s' = Some m \<and> m_Role m = gr_role g \<and> m_RevokedAt m = None"
    unfolding m member_of_put_member by (simp add: invited_member_def split: option.split)
  show "member_of b v s' = member_of b v s" if "(b, v) \<noteq> (in_account g, u_ID user)"
    using that unfolding m member_of_put_member old by auto
  show "accept_grant (u_ID user) now g \<in> set (grants s')" using accepted_in [OF assms(3,4)] by (simp add: s' gs)
  show "\<exists>x. audit s' = audit s @ [x] \<and> au_account x = in_account g \<and> au_user x = nullStr (u_ID user) \<and> au_action x = ''invitation.accept''"
    by (simp add: s' audit_of_def accept_event_def rotation_event_def)
qed

text \<open>An invitation that can be accepted.\<close>

lemma one_grant: "grants_ok gs \<Longrightarrow> g \<in> set gs \<Longrightarrow> grant_pending g \<Longrightarrow> count_where (grant_is (in_account g) (in_id g)) gs = 1"
proof -
  assume ok: "grants_ok gs" and g: "g \<in> set gs" "grant_pending g"
  then have "filter (grant_is (in_account g) (in_id g)) gs = filter ((=) g) gs"
    using grant_by_id [OF ok g(1)] by (auto simp: grant_is_def intro!: filter_cong)
  moreover have "distinct gs" using ok by (simp add: grants_ok_def distinct_map)
  ultimately show ?thesis using g(1) by (simp add: count_where_def distinct_length_filter)
qed

lemma accept_grants_ok:
  assumes ok: "grants_ok gs" and g: "g \<in> set gs" "grant_pending g" "gr_created g \<le> now"
  shows "grants_ok (update_where (grant_is (in_account g) (in_id g)) (accept_grant u now) gs)"
proof -
  let ?P = "grant_is (in_account g) (in_id g)" and ?gs = "update_where (grant_is (in_account g) (in_id g)) (accept_grant u now) gs"
  have "grant_checks (accept_grant u now h)" if "h \<in> set gs" "?P h" for h
  proof -
    have "h = g" using that grant_by_id [OF ok that(1) g(1)] by (simp add: grant_is_def)
    moreover have "grant_checks g" using ok g(1) by (simp add: grants_ok_def list_all_iff)
    ultimately show ?thesis using g by (simp add: grant_checks_def accept_grant_def not_before_def grant_pending_def)
  qed
  then have "list_all grant_checks ?gs" using ok by (auto simp: grants_ok_def list_all_iff set_update_where)
  moreover have "map in_id ?gs = map in_id gs" "map gr_hash ?gs = map gr_hash gs"
    by (simp_all add: update_where_def accept_grant_def)
  moreover have "filter grant_pending ?gs = filter (\<lambda>h. \<not> ?P h) (filter grant_pending gs)"
    by (induction gs) (simp_all add: update_where_def grant_pending_def accept_grant_def)
  then have "distinct (map (\<lambda>g. (in_account g, in_email g)) (filter grant_pending ?gs))"
    using ok unfolding grants_ok_def by (simp only: distinct_map_filter)
  ultimately show ?thesis using ok by (simp add: grants_ok_def)
qed

lemma settle_succeeds:
  assumes ok: "grants_ok (grants s)" and g: "g \<in> set (grants s)" "grant_pending g" "gr_created g \<le> now" and e: "no_faults e"
    and scan: "scanInvitation clk s0 g = Some i" and acct: "account_of (in_account g) s = Some t"
    and idn: "\<And>x. identity_of ''magiclink'' (in_email g) s = Some x \<Longrightarrow> id_user x = Some (u_ID user)"
    and md: "validateAuditInput (in_account g) (user_actor (u_ID user)) (accept_event g rid) = Inr metadata"
  shows "\<exists>n' s'. settle_invitation (in_account g) i user rid now e n s = (Inr (scanAccount t), n', s')"
proof -
  note cols = scanInvitation_Some [OF scan]
  have look: "lookup_key in_id (grants s) (in_id g) = Some g"
    by (rule lookup_key_in) (use ok g in \<open>simp_all add: grants_ok_def distinct_key_def\<close>)
  have md': "validateAuditInput (in_account g) (user_actor (u_ID user)) (rotation_event ''invitation.accept'' (in_id g) (gr_role g) (in_email g) rid) = Inr metadata"
    using md by (simp add: accept_event_def)
  from e have nf: "fault e k = None" for k by (simp add: no_faults_def)
  show ?thesis
    using accept_grants_ok [OF ok g, of "u_ID user"] one_grant [OF ok g(1,2)] acct idn
    by (auto simp: settle_invitation_def run_defs nf cols md' linkInvitationIdentity_def invitationInviterID_def look update_grants_def put_member_def
        put_grants_def wrap_result_def exactlyOneRowChanged_def insertInvitationAudit_def insert_audit_def accountByID_def account_of_def
        split: option.split)
qed

text \<open>The user an acceptance without a session resolves.\<close>

definition invitee :: "string \<Rightarrow> registry \<Rightarrow> string" where
  "invitee m s = (case user_by_email m s of Some u \<Rightarrow> u_ID u | None \<Rightarrow> nat_text (next_id s))"

lemma resolve_succeeds:
  assumes "no_faults e" and "\<And>u. user_by_email m s = Some u \<Longrightarrow> u_Status u = ''active''" and "ToLower (btrim m) = m"
  shows "\<exists>user n' s1. resolveInvitationUser m [] now e n s = (Inr user, n', s1) \<and> u_ID user = invitee m s \<and>
    grants s1 = grants s \<and> accounts s1 = accounts s \<and> identities s1 = identities s"
  using assms
  by (cases "user_by_email m s")
    (auto simp: resolveInvitationUser_def run_defs no_faults_def userByEmail_def wrap_result_def insert_user_def invitee_def new_user_def)

lemma accept_succeeds:
  assumes "no_faults e" and "registry_inv s" and g: "g \<in> set (grants s)" "gr_hash g = HashToken raw" "grant_pending g"
    and time: "clock e (n + 3) < in_expires g" "gr_created g \<le> clock e (Suc n)" and act: "account_active (in_account g) s"
    and user: "\<And>u. user_by_email (in_email g) s = Some u \<Longrightarrow> u_Status u = ''active''"
    and idn: "\<And>x. identity_of ''magiclink'' (in_email g) s = Some x \<Longrightarrow> id_user x = Some (invitee (in_email g) s)"
    and md: "validateAuditInput (in_account g) (user_actor (invitee (in_email g) s)) (accept_event g rid) = Inr metadata"
  shows "\<exists>user acct n' s'. AcceptInvitation (in_id g) raw [] rid e n s = (Inr (user, acct, True), n', s') \<and> u_ID user = invitee (in_email g) s"
proof -
  have nf: "fault e k = None" for k using assms(1) by (simp add: no_faults_def)
  note ok = registry_invD(3) [OF assms(2)]
  let ?P = "\<lambda>h. in_account h = in_account g \<and> in_id h = in_id g \<and> gr_hash h = HashToken raw"
  from act obtain t where t: "account_of (in_account g) s = Some t" "a_Status t = ''active''" by (auto simp: account_active_def split: option.splits)
  have look: "lookup_key in_id (grants s) (in_id g) = Some g"
    by (rule lookup_key_in) (use ok g in \<open>simp_all add: grants_ok_def distinct_key_def\<close>)
  have found: "List.find ?P (grants s) = Some g"
  proof (cases "List.find ?P (grants s)")
    case (Some h)
    then show ?thesis using find_Some_in [OF Some] grant_by_id [OF ok _ g(1)] by simp
  qed (use g in \<open>simp add: find_None_iff\<close>)
  obtain i where scan: "scanInvitation (clock e (n + 3)) s g = Some i" using t by (auto simp: scanInvitation_def)
  note cols = scanInvitation_Some [OF scan]
  have m: "ToLower (btrim (in_email g)) = in_email g" using ok g(1) by (simp add: grants_ok_def list_all_iff grant_checks_def)
  from resolve_succeeds [OF assms(1) user m, where now = "clock e (Suc n)" and n = "n + 5"] obtain v k s1 where
    res: "resolveInvitationUser (in_email g) [] (clock e (Suc n)) e (n + 5) s = (Inr v, k, s1)" and v: "u_ID v = invitee (in_email g) s"
    and same: "grants s1 = grants s" "accounts s1 = accounts s" "identities s1 = identities s" by blast
  have "\<exists>n' s'. settle_invitation (in_account g) i v rid (clock e (Suc n)) e k s1 = (Inr (scanAccount t), n', s')"
    by (rule settle_succeeds [OF _ _ g(3) time(2) assms(1) scan])
      (use ok g t idn md v same in \<open>simp_all add: account_of_def identity_of_def\<close>)
  then show ?thesis using res v t time g look found scan cols
    by (auto simp: AcceptInvitation_def run_defs nf accept_locked_def lockActiveAccount_def select_invitation_def grant_pending_def
        eval_nat_numeral)
qed

text \<open>
  C24. An acceptance that consumes an invitation was given the token of its current version, before it
  expired and while it was pending; the user it returns has the invited address and is now a member
  with the invited role; the invitation is accepted by that user; no other membership changed; and one
  audit event of that user was added.
\<close>

theorem AcceptInvitation_consumes:
  assumes "AcceptInvitation i raw me rid e n s = (Inr (user, acct, True), n', s')" and "registry_inv s"
  shows "\<exists>g \<in> set (grants s). in_id g = i \<and> gr_hash g = HashToken raw \<and> grant_pending g \<and> clock e (n + 3) < in_expires g \<and>
    account_active (in_account g) s \<and> u_Email user = in_email g \<and>
    (\<exists>m. member_of (in_account g) (u_ID user) s' = Some m \<and> m_Role m = gr_role g \<and> m_RevokedAt m = None) \<and>
    (\<forall>b v. (b, v) \<noteq> (in_account g, u_ID user) \<longrightarrow> member_of b v s' = member_of b v s) \<and>
    accept_grant (u_ID user) (clock e (Suc n)) g \<in> set (grants s') \<and>
    (\<exists>x. audit s' = audit s @ [x] \<and> au_account x = in_account g \<and> au_user x = nullStr (u_ID user) \<and> au_action x = ''invitation.accept'')"
proof -
  from AcceptInvitation_run [OF assms(1) registry_invD(1) [OF assms(2)]] obtain g where
    g: "g \<in> set (grants s)" "in_id g = i" "gr_hash g = HashToken raw" "grant_pending g" "clock e (n + 3) < in_expires g"
    and act: "account_active (in_account g) s" and c: "consumed g user rid (clock e (Suc n)) s s'" by auto
  note eff = consumed_effect [OF c registry_invD(1) [OF assms(2)] g(1,4)]
  show ?thesis using g act eff(1,2,4,5) eff(3) by blast
qed

lemma demo_accept_audit: "validateAuditInput ''0'' (user_actor ''3'') (rotation_event ''invitation.accept'' ''i'' RoleReader ''cy@x.io'' ''r'') =
    Inr ''{\"recipient\":\"cy@x.io\",\"role\":\"reader\"}''"
  by code_simp

lemma demo_invitee: "invitee ''cy@x.io'' demo_registry = ''3''" "user_by_email ''cy@x.io'' demo_registry = None" "identity_of ''magiclink'' ''cy@x.io'' demo_registry = None"
  by (simp_all add: invitee_def user_by_email_def identity_of_def demo_registry_defs demo_ids)

lemma demo_accept_ready:
  shows "demo_grant \<in> set (grants demo_registry)" "gr_hash demo_grant = HashToken demo_token" "grant_pending demo_grant"
    and "clock (calm_env 0) (0 + 3) < in_expires demo_grant" "gr_created demo_grant \<le> clock (calm_env 0) (Suc 0)"
    and "account_active (in_account demo_grant) demo_registry"
    and "\<And>u. user_by_email (in_email demo_grant) demo_registry = Some u \<Longrightarrow> u_Status u = ''active''"
    and "\<And>x. identity_of ''magiclink'' (in_email demo_grant) demo_registry = Some x \<Longrightarrow> id_user x = Some (invitee (in_email demo_grant) demo_registry)"
    and "validateAuditInput (in_account demo_grant) (user_actor (invitee (in_email demo_grant) demo_registry)) (accept_event demo_grant ''r'')
      = Inr ''{\"recipient\":\"cy@x.io\",\"role\":\"reader\"}''"
proof -
  have cols: "in_email demo_grant = ''cy@x.io''" "in_account demo_grant = ''0''" by (simp_all add: demo_grant_def)
  have "accept_event demo_grant ''r'' = rotation_event ''invitation.accept'' ''i'' RoleReader ''cy@x.io'' ''r''" by (simp add: accept_event_def demo_grant_def)
  then show "validateAuditInput (in_account demo_grant) (user_actor (invitee (in_email demo_grant) demo_registry)) (accept_event demo_grant ''r'')
      = Inr ''{\"recipient\":\"cy@x.io\",\"role\":\"reader\"}''"
    unfolding cols demo_invitee using demo_accept_audit by simp
qed (simp_all add: demo_registry_def, simp_all add: demo_grant_def grant_pending_def account_active_def account_of_def demo_registry_defs
      demo_ids user_by_email_def identity_of_def)

lemma demo_accept:
  obtains user acct n' s' where "AcceptInvitation ''i'' demo_token [] ''r'' (calm_env 0) 0 demo_registry = (Inr (user, acct, True), n', s')" "u_ID user = ''3''"
proof -
  have "in_id demo_grant = ''i''" "in_email demo_grant = ''cy@x.io''" by (simp_all add: demo_grant_def)
  with accept_succeeds [OF no_faults_calm demo_registry_inv demo_accept_ready] demo_invitee that show ?thesis by auto
qed

theorem AcceptInvitation_consumes_witness:
  "\<exists>user acct n' s' m. AcceptInvitation ''i'' demo_token [] ''r'' (calm_env 0) 0 demo_registry = (Inr (user, acct, True), n', s') \<and>
     member_of ''0'' ''3'' s' = Some m \<and> m_Role m = RoleReader"
proof -
  obtain user acct n' s' where run: "AcceptInvitation ''i'' demo_token [] ''r'' (calm_env 0) 0 demo_registry = (Inr (user, acct, True), n', s')"
    and u: "u_ID user = ''3''" by (rule demo_accept)
  have "grants demo_registry = [demo_grant]" by (simp add: demo_registry_def)
  with AcceptInvitation_consumes [OF run demo_registry_inv] run u show ?thesis by (auto simp: demo_grant_def)
qed

text \<open>
  C25. A current link is accepted: with the token of the invitation's current version, before it expires, in
  an active account, and as long as no statement fails, the user of the address is active (or new), no
  other user holds the address as an identity and the audit event is valid, the acceptance succeeds
  and the user of the address is a member with the invited role.
\<close>

theorem AcceptInvitation_succeeds:
  assumes "no_faults e" and "registry_inv s" and "g \<in> set (grants s)" "gr_hash g = HashToken raw" "grant_pending g"
    and "clock e (n + 3) < in_expires g" "gr_created g \<le> clock e (Suc n)" and "account_active (in_account g) s"
    and "\<And>u. user_by_email (in_email g) s = Some u \<Longrightarrow> u_Status u = ''active''"
    and "\<And>x. identity_of ''magiclink'' (in_email g) s = Some x \<Longrightarrow> id_user x = Some (invitee (in_email g) s)"
    and "validateAuditInput (in_account g) (user_actor (invitee (in_email g) s)) (accept_event g rid) = Inr metadata"
  shows "\<exists>user acct n' s'. AcceptInvitation (in_id g) raw [] rid e n s = (Inr (user, acct, True), n', s') \<and>
    (\<exists>m. member_of (in_account g) (invitee (in_email g) s) s' = Some m \<and> m_Role m = gr_role g \<and> m_RevokedAt m = None)"
proof -
  from accept_succeeds [OF assms] obtain user acct n' s' where run: "AcceptInvitation (in_id g) raw [] rid e n s = (Inr (user, acct, True), n', s')"
    and u: "u_ID user = invitee (in_email g) s" by blast
  from AcceptInvitation_run [OF run registry_invD(1) [OF assms(2)]] obtain h where h: "h \<in> set (grants s)" "in_id h = in_id g" "grant_pending h"
    and c: "consumed h user rid (clock e (Suc n)) s s'" by auto
  have "h = g" using grant_by_id [OF registry_invD(3) [OF assms(2)] h(1) assms(3) h(2)] .
  with consumed_effect(2) [OF c registry_invD(1) [OF assms(2)] h(1,3)] run u show ?thesis by auto
qed

theorem AcceptInvitation_succeeds_witness:
  "\<exists>user acct n' s' m. AcceptInvitation ''i'' demo_token [] ''r'' (calm_env 0) 0 demo_registry = (Inr (user, acct, True), n', s') \<and>
     member_of ''0'' ''3'' s' = Some m \<and> m_Role m = RoleReader"
proof -
  have "in_id demo_grant = ''i''" "in_email demo_grant = ''cy@x.io''" "in_account demo_grant = ''0''" "gr_role demo_grant = RoleReader"
    by (simp_all add: demo_grant_def)
  with AcceptInvitation_succeeds [OF no_faults_calm demo_registry_inv demo_accept_ready] demo_invitee show ?thesis by auto
qed

end
