(* ===== verification/Access_Facts.thy ===== *)
theory Access_Facts
  imports Registry_Facts
begin

text \<open>
  What the links and tokens of the store guarantee: the link an invitation's email carries opens to
  the token its row accepts, and a new link replaces the old one; a sign-in link works once; signing in
  again finds the same user; an API token is created within the cap, shown once and authenticates.
\<close>

section \<open>Invitation links\<close>

text \<open>The rows of a rotation: the invitation with the new token, and the mail that carries it.\<close>

lemma issued_grant:
  assumes "rotation_target a email uuid old s" and "grants_ok (grants s)"
  shows "\<exists>g \<in> set (issued_grants uuid old a email role inviter hash now (grants s)). grant_is a uuid g \<and> in_email g = email \<and>
    in_version g = old + 1 \<and> gr_role g = role \<and> gr_hash g = hash \<and> in_expires g = now + invitationTTL"
proof (cases "old = 0")
  case True
  then show ?thesis by (auto simp: issued_grants_def new_grant_def grant_is_def grant_pending_def)
next
  case False
  with assms(1) obtain g where g: "g \<in> set (grants s)" "grant_is a uuid g" "in_email g = email" by (auto simp: rotation_target_def)
  then have "rotate_grant role inviter hash (old + 1) now g \<in> set (issued_grants uuid old a email role inviter hash now (grants s))"
    using False by (auto simp: issued_grants_def set_update_where)
  with g show ?thesis by (intro bexI [of _ "rotate_grant role inviter hash (old + 1) now g"]) (auto simp: rotate_grant_def grant_is_def grant_pending_def)
qed

lemma issued_link:
  assumes iss: "issued R a actor rid key now uuid old email role action s s'" and target: "rotation_target a email uuid old s" "grants_ok (grants s)"
    and G: "gcm_correct (rd_aead R)" "rd_nonce R = Inr nonce" "length nonce = NonceSize"
  shows "\<exists>row raw g. outbox (post s') = outbox (post s) @ [row] \<and> NewToken [] (rd_token R) = Inr raw \<and> Open (rd_aead R) key (ob_payload row) (ob_key row) = Inr raw \<and>
    g \<in> set (grants s') \<and> grant_is a uuid g \<and> gr_hash g = HashToken raw \<and> in_email g = email \<and> gr_role g = role \<and>
    in_expires g = now + invitationTTL \<and> ob_recipient row = email \<and> ob_invitation row = in_id g \<and> ob_version row = in_version g"
proof -
  from iss obtain rs raw encrypted gs p x where raw: "NewToken [] (rd_token R) = Inr raw"
    and seal: "Seal (rd_aead R) (rd_nonce R) key raw (idempotency_key uuid (old + 1)) = Inr encrypted"
    and gs: "gs = issued_grants uuid old a email role (UserID actor) (HashToken raw) now (grants s)"
    and enq: "enqueued now a (invitation_delivery uuid (old + 1) email encrypted) ((post s)\<lparr>invitations := map invitation_row.truncate gs\<rparr>) p"
    and s': "s' = s\<lparr>rates := rs, grants := gs, post := p, audit := audit s @ [x]\<rparr>" unfolding issued_def by blast
  let ?row = "new_outbox a (invitation_delivery uuid (old + 1) email encrypted) now (next_outbox (post s))"
  from enq have "outbox p = outbox (post s) @ [?row]" by (auto simp: enqueued_def dest!: Enqueue_Inr)
  moreover have "Open (rd_aead R) key encrypted (idempotency_key uuid (old + 1)) = Inr raw"
    by (rule Open_Seal [OF G(1,3)]) (use seal G(2) in simp)
  moreover from issued_grant [OF target] obtain g where "g \<in> set gs" "grant_is a uuid g" "in_email g = email" "in_version g = old + 1" "gr_role g = role"
    "gr_hash g = HashToken raw" "in_expires g = now + invitationTTL" unfolding gs by blast
  ultimately show ?thesis using raw by (intro exI [of _ ?row] exI [of _ raw] exI [of _ g]) (simp add: s' new_outbox_def invitation_delivery_def grant_is_def)
qed

text \<open>A rotation of the pending invitation, a hundred seconds after it was made.\<close>

definition demo_key :: string where
  "demo_key = replicate 32 (CHR ''k'')"

definition demo_entropy :: entropy where
  "demo_entropy = \<lparr>rd_uuid = Inr (replicate 16 0), rd_token = Inr [1], rd_nonce = Inr (replicate NonceSize (CHR ''n'')), rd_aead = plain_gcm\<rparr>"

definition demo_limits :: InvitationRateLimits where
  "demo_limits = \<lparr>AccountPerHour = 10, RecipientPerHour = 10\<rparr>"

definition demo_sealed :: string where
  "demo_sealed = ''enc:bm5ubm5ubm5ubm5uMDEAAAAAAAAAAAAAAAAAAAAA''"

definition demo_letter :: InvitationDelivery where
  "demo_letter = invitation_delivery ''i'' 2 ''cy@x.io'' demo_sealed"

abbreviation ann :: Actor where
  "ann \<equiv> \<lparr>ActorKind = ActorUser, UserID = ''1'', APITokenID = []\<rparr>"

abbreviation later :: env where
  "later \<equiv> calm_env 100000000"

lemma demo_parts:
  "NewToken [] (rd_token demo_entropy) = Inr ''01''"
  "validateAuditInput ''0'' ann (rotation_event ''invitation.role_change'' ''i'' RoleEditor ''cy@x.io'' ''r'') = Inr ''{\"recipient\":\"cy@x.io\",\"role\":\"editor\"}''"
  "validateAuditInput ''0'' ann (rotation_event ''invitation.resend'' ''i'' RoleReader ''cy@x.io'' ''r'') = Inr ''{\"recipient\":\"cy@x.io\",\"role\":\"reader\"}''"
  "Seal (rd_aead demo_entropy) (rd_nonce demo_entropy) demo_key ''01'' (idempotency_key ''i'' 2) = Inr demo_sealed"
  "outbox_checks (new_outbox ''0'' demo_letter 100000000 0)"
  "''cy@x.io'' = ToLower (TrimSpace ''cy@x.io'')"
  by code_simp+

abbreviation rotated :: "Role \<Rightarrow> grant_row" where
  "rotated role \<equiv> rotate_grant role ''1'' (HashToken ''01'') 2 100000000 demo_grant"

lemma demo_rotated_ok: "Role_Valid role \<Longrightarrow> grants_ok [rotated role]"
  using hash_format [of "''01''"]
  by (simp add: grants_ok_def grant_checks_def rotate_grant_def demo_grant_def btrim_def ToLower_def lower_char_def not_before_def invitationTTL_def)

lemma demo_issue:
  assumes md: "validateAuditInput ''0'' ann (rotation_event action ''i'' role ''cy@x.io'' ''r'') = Inr md" and role: "Role_Valid role"
    and q: "(case limits of None \<Rightarrow> db_return () | Some l \<Rightarrow> reserveInvitationQuota 100000000 ''0'' ''cy@x.io'' l) later n demo_registry =
      (Inr (), k, demo_registry\<lparr>rates := rs\<rparr>)" "k < 1000000"
  shows "\<exists>iv n' s'. issue_invitation demo_entropy ''0'' ann ''r'' demo_key limits 100000000 ''i'' 1 ''cy@x.io'' role action later n demo_registry =
    (Inr iv, n', s') \<and> grants s' = [rotated role]"
proof -
  let ?g = "rotated role"
  have g: "grant_is ''0'' ''i'' demo_grant" "grant_is ''0'' ''i'' ?g" "in_account ?g = ''0''"
    by (simp_all add: grant_is_def grant_pending_def demo_grant_def rotate_grant_def)
  have r: "grants demo_registry = [demo_grant]" "account_of ''0'' demo_registry = Some (new_account ''ann@x.io'' ''Ann'' [] 0 0)"
    "outbox (post demo_registry) = []" "next_outbox (post demo_registry) = 0"
    by (simp_all add: account_of_def demo_registry_defs demo_ids)
  have tgt: "enqueue_target ''0'' demo_letter t ((post demo_registry)\<lparr>invitations := [invitation_row.truncate ?g]\<rparr>)" if "t < 200000000" for t
    using that by (simp add: enqueue_target_def demo_letter_def invitation_delivery_def invitation_row.truncate_def rotate_grant_def demo_grant_def
        invitation_open_def invitationTTL_def)
  let ?s = "demo_registry\<lparr>rates := rs, grants := [?g]\<rparr>"
  have "\<exists>iv. persist_invitation ''i'' 1 ''0'' ''cy@x.io'' role ''1'' (HashToken ''01'') 100000000 later k (demo_registry\<lparr>rates := rs\<rparr>) = (Inr iv, Suc k, ?s)"
    using demo_rotated_ok [OF role] r
    by (simp add: persist_invitation_def db_stmt_def put_grants_def update_where_def g select_invitation_def scanInvitation_def account_of_def Let_def)
  then obtain iv where persist: "persist_invitation ''i'' 1 ''0'' ''cy@x.io'' role ''1'' (HashToken ''01'') 100000000 later k (demo_registry\<lparr>rates := rs\<rparr>) = (Inr iv, Suc k, ?s)" ..
  have "\<exists>x p. on_mail (EnqueueInvitationDelivery 100000000 ''0'' (invitation_delivery ''i'' 2 ''cy@x.io'' demo_sealed)) later (Suc k) ?s =
      (Inr x, Suc (Suc k), ?s\<lparr>post := p\<rparr>)"
    using demo_parts(5,6) tgt [of "100000000 + int (Suc k)"] q(2) r
    by (simp add: on_mail_def mail_view_def EnqueueInvitationDelivery_def demo_letter_def invitation_delivery_def db_stmt_def insert_outbox_def Let_def wrap_result_def)
      (rule exI, rule refl)
  then obtain x p where enq: "on_mail (EnqueueInvitationDelivery 100000000 ''0'' (invitation_delivery ''i'' 2 ''cy@x.io'' demo_sealed)) later (Suc k) ?s =
      (Inr x, Suc (Suc k), ?s\<lparr>post := p\<rparr>)" by blast
  show ?thesis
    by (simp add: issue_invitation_def db_bind_def q(1) demo_parts(1,4) md wrapping_def persist enq insertInvitationAudit_def db_write_def db_stmt_def insert_audit_def)
qed

lemma demo_admin: "requireAdminMembership ''0'' ann later n demo_registry = (Inr (), Suc n, demo_registry)"
  by (simp add: requireAdminMembership_def activeMembershipState_def membership_state_def run_defs demo_registry_def demo_user_def demo_member_def
      member_live_def user_of_def)

lemma demo_lock: "lockActiveAccount ''0'' later n demo_registry = (Inr (), Suc n, demo_registry)"
  by (simp add: lockActiveAccount_def run_defs account_of_def demo_registry_defs demo_ids)

lemma demo_scan: "scanInvitation clk demo_registry demo_grant = Some iv \<Longrightarrow>
    i_ID iv = ''i'' \<and> i_TokenVersion iv = 1 \<and> i_Email iv = ''cy@x.io'' \<and> i_Role iv = RoleReader \<and> i_sentRecently iv = (0 > clk - seconds 60)"
  by (drule scanInvitation_Some) (simp add: demo_grant_def)

lemma demo_find:
  "\<exists>iv. select_invitation (grant_is ''0'' ''i'') clk demo_registry = Some iv \<and> scanInvitation clk demo_registry demo_grant = Some iv"
  "\<exists>iv. select_invitation (pending_email ''0'' ''cy@x.io'') clk demo_registry = Some iv \<and> scanInvitation clk demo_registry demo_grant = Some iv"
  by (simp_all add: select_invitation_def scanInvitation_def demo_registry_defs account_of_def demo_ids grant_is_def pending_email_def grant_pending_def)

lemma demo_resend:
  "\<exists>iv n' s'. ResendInvitation demo_entropy ''0'' ''i'' ann ''r'' demo_key later 0 demo_registry = (Inr iv, n', s') \<and> grants s' = [rotated RoleReader]"
proof -
  obtain iv where iv: "select_invitation (grant_is ''0'' ''i'') 100000003 demo_registry = Some iv"
    "i_ID iv = ''i''" "i_TokenVersion iv = 1" "i_Email iv = ''cy@x.io''" "i_Role iv = RoleReader" "\<not> i_sentRecently iv"
    using demo_find(1) demo_scan by fastforce
  obtain iv' n' s' where "issue_invitation demo_entropy ''0'' ann ''r'' demo_key None 100000000 ''i'' 1 ''cy@x.io'' RoleReader ''invitation.resend'' later 4 demo_registry =
      (Inr iv', n', s')" "grants s' = [rotated RoleReader]"
    using demo_issue [OF demo_parts(3), where limits = None and n = 4 and k = 4 and rs = "rates demo_registry"] by (auto simp: Role_Valid_def)
  then show ?thesis using iv
    by (simp add: ResendInvitation_def rotateInvitation_def db_bind_def db_txm_def demo_lock demo_admin rotate_existing_def db_read_def db_stmt_def
        eval_nat_numeral)
qed

lemma demo_quota: "\<exists>rs. reserveInvitationQuota 100000000 ''0'' ''cy@x.io'' demo_limits later 5 demo_registry = (Inr (), 7, demo_registry\<lparr>rates := rs\<rparr>)"
  by (simp add: reserveInvitationQuota_def reserve_one_def db_wrap_def Allow_def run_defs demo_limits_def Let_def demo_registry_def empty_registry_def
      bump_def hits_def)

lemma demo_address: "NormalizeEmail ''cy@x.io'' = ''cy@x.io''" "\<not> active_email ''0'' ''cy@x.io'' demo_registry"
  using demo_parts(6) by (simp_all only: NormalizeEmail_def) (simp add: active_email_def demo_registry_defs user_of_def)

lemma demo_create:
  "\<exists>r n' s'. CreateInvitation Some demo_entropy ''0'' ''cy@x.io'' RoleEditor ann ''r'' demo_key demo_limits later 0 demo_registry = (Inr r, n', s') \<and>
     grants s' = [rotated RoleEditor]"
proof -
  obtain iv where iv: "select_invitation (pending_email ''0'' ''cy@x.io'') 100000004 demo_registry = Some iv"
    "i_ID iv = ''i''" "i_TokenVersion iv = 1" "i_Email iv = ''cy@x.io''" "i_Role iv = RoleReader"
    using demo_find(2) demo_scan by fastforce
  from demo_quota obtain rs where q: "reserveInvitationQuota 100000000 ''0'' ''cy@x.io'' demo_limits later 5 demo_registry = (Inr (), 7, demo_registry\<lparr>rates := rs\<rparr>)" ..
  have "\<exists>iv' n' s'. issue_invitation demo_entropy ''0'' ann ''r'' demo_key (Some demo_limits) 100000000 ''i'' 1 ''cy@x.io'' RoleEditor
      ''invitation.role_change'' later 5 demo_registry = (Inr iv', n', s') \<and> grants s' = [rotated RoleEditor]"
    by (rule demo_issue [OF demo_parts(2), where k = 7 and rs = rs]) (simp_all add: Role_Valid_def q)
  moreover have "CreateInvitation Some demo_entropy ''0'' ''cy@x.io'' RoleEditor ann ''r'' demo_key demo_limits =
      rotateInvitation demo_entropy ''0'' [] ''cy@x.io'' RoleEditor ann ''r'' demo_key (Some demo_limits) False False"
    by (simp add: CreateInvitation_def demo_address validInvitationEmail_def Role_Valid_def)
  ultimately show ?thesis using iv demo_address(2)
    by (auto simp: rotateInvitation_def db_bind_def db_txm_def demo_lock demo_admin rotate_address_def db_read_def db_stmt_def eval_nat_numeral)
qed

text \<open>
  C26. The link round trip: when an invitation is created or its role changed, one outbox row is added, for
  that address, and what the worker opens of its payload, with the delivery key and the row's
  idempotency key, is the token whose hash the pending invitation of that version holds, which
  expires seven days after.
\<close>

theorem invitation_link_roundtrip:
  assumes run: "CreateInvitation P R a m role actor rid key limits e n s = (r, n', s')" and "s' \<noteq> s" and "registry_inv s"
    and G: "gcm_correct (rd_aead R)" "rd_nonce R = Inr nonce" "length nonce = NonceSize"
  shows "\<exists>row raw g. outbox (post s') = outbox (post s) @ [row] \<and> Open (rd_aead R) key (ob_payload row) (ob_key row) = Inr raw \<and>
    g \<in> set (grants s') \<and> grant_pending g \<and> in_account g = a \<and> in_email g = NormalizeEmail m \<and> gr_role g = role \<and>
    gr_hash g = HashToken raw \<and> in_expires g = clock e n + invitationTTL \<and>
    ob_recipient row = NormalizeEmail m \<and> ob_invitation row = in_id g \<and> ob_version row = in_version g"
proof -
  from run have "rotateInvitation R a [] (NormalizeEmail m) role actor rid key (Some limits) False False e n s = (r, n', s')"
    using assms(2) by (auto simp: CreateInvitation_def Let_def split: if_splits)
  from rotateInvitation_run [OF this] assms(2) obtain uuid old action where "rotation_target a (NormalizeEmail m) uuid old s"
    and "issued R a actor rid key (clock e n) uuid old (NormalizeEmail m) role action s s'" by auto
  from issued_link [OF this(2,1) registry_invD(3) [OF assms(3)] G] show ?thesis by (auto simp: grant_is_def)
qed

theorem invitation_link_roundtrip_witness:
  "\<exists>row raw g. outbox (post (snd (snd (CreateInvitation Some demo_entropy ''0'' ''cy@x.io'' RoleEditor ann ''r'' demo_key demo_limits later 0 demo_registry)))) = [row] \<and>
     Open plain_gcm demo_key (ob_payload row) (ob_key row) = Inr raw \<and> gr_hash g = HashToken raw \<and> ob_invitation row = in_id (g :: grant_row)"
proof -
  obtain r n' s' where run: "CreateInvitation Some demo_entropy ''0'' ''cy@x.io'' RoleEditor ann ''r'' demo_key demo_limits later 0 demo_registry = (Inr r, n', s')"
    and gs: "grants s' = [rotated RoleEditor]" using demo_create by blast
  have "in_version (rotated RoleEditor) \<noteq> in_version demo_grant" "grants demo_registry = [demo_grant]"
    by (simp_all add: rotate_grant_def demo_grant_def demo_registry_def)
  then have ne: "s' \<noteq> demo_registry" using gs by auto
  have G: "gcm_correct (rd_aead demo_entropy)" "rd_nonce demo_entropy = Inr (replicate NonceSize (CHR ''n''))" and none: "outbox (post demo_registry) = []"
    and plain: "rd_aead demo_entropy = plain_gcm"
    by (simp_all add: demo_entropy_def gcm_correct_plain demo_registry_def empty_registry_def)
  from invitation_link_roundtrip [OF run ne demo_registry_inv G length_replicate] obtain row raw g where "outbox (post s') = [row]" "g \<in> set (grants s')"
    "Open plain_gcm demo_key (ob_payload row) (ob_key row) = Inr raw" "gr_hash g = HashToken raw" "ob_invitation row = in_id g"
    unfolding none plain append_Nil by blast
  then show ?thesis unfolding run snd_conv by blast
qed

text \<open>
  A new link replaces the old one: after an invitation was resent, only the new token is accepted for it.
\<close>

theorem resend_replaces_link:
  assumes "ResendInvitation R a i actor rid key e n s = (Inr iv, n1, s1)" and "registry_inv s" and "NewToken [] (rd_token R) = Inr new"
    and "AcceptInvitation i raw me rid' e' n2 s1 = (Inr x, n3, s2)"
  shows "HashToken raw = HashToken new"
proof -
  from assms(1) obtain x k where rot: "rotateInvitation R a i [] [] actor rid key None True False e n s = (Inr x, k, s1)"
    by (auto simp: ResendInvitation_def db_bind_Inr split: prod.splits)
  from rotateInvitation_run [OF rot] obtain old email role action where tgt: "rotation_target a email i old s"
    and iss: "issued R a actor rid key (clock e n) i old email role action s s1" by auto
  from iss assms(3) have gs: "grants s1 = issued_grants i old a email role (UserID actor) (HashToken new) (clock e n) (grants s)" and ok: "grants_ok (grants s1)"
    unfolding issued_def by auto
  from issued_grant [OF tgt registry_invD(3) [OF assms(2)]] obtain g where g: "g \<in> set (grants s1)" "in_id g = i" "gr_hash g = HashToken new"
    unfolding gs by (fastforce simp: grant_is_def)
  from AcceptInvitation_token [OF assms(4)] obtain h where "h \<in> set (grants s1)" "in_id h = i" "gr_hash h = HashToken raw" by blast
  with grant_by_id [OF ok _ g(1)] g show ?thesis by metis
qed

lemma demo_rotated_link:
  assumes "ResendInvitation demo_entropy ''0'' ''i'' ann ''r'' demo_key later 0 demo_registry = (Inr iv, n', s')" and gs: "grants s' = [rotated RoleReader]"
  shows "\<exists>user acct n2 s2. AcceptInvitation ''i'' ''01'' [] ''r'' later 20 s' = (Inr (user, acct, True), n2, s2)"
proof -
  have inv: "registry_inv s'" using db_keepsD [OF ResendInvitation_advances assms(1)] demo_registry_inv by (simp add: reg_advances_def)
  from assms(1) obtain x k where rot: "rotateInvitation demo_entropy ''0'' ''i'' [] [] ann ''r'' demo_key None True False later 0 demo_registry = (Inr x, k, s')"
    by (auto simp: ResendInvitation_def db_bind_Inr split: prod.splits)
  from rotateInvitation_run [OF rot] have same: "users s' = users demo_registry" "accounts s' = accounts demo_registry" "identities s' = identities demo_registry"
    "next_id s' = next_id demo_registry" unfolding issued_def by auto
  have me: "invitee ''cy@x.io'' s' = ''3''" "user_by_email ''cy@x.io'' s' = None" "identity_of ''magiclink'' ''cy@x.io'' s' = None" "account_active ''0'' s'"
    using demo_invitee demo_accept_ready(6)
    by (simp_all add: invitee_def user_by_email_def identity_of_def account_active_def account_of_def same) (simp add: demo_grant_def)
  have cols: "in_id (rotated RoleReader) = ''i''" "in_account (rotated RoleReader) = ''0''" "in_email (rotated RoleReader) = ''cy@x.io''"
    by (simp_all add: rotate_grant_def demo_grant_def)
  have ev: "accept_event (rotated RoleReader) ''r'' = rotation_event ''invitation.accept'' ''i'' RoleReader ''cy@x.io'' ''r''"
    by (simp add: accept_event_def rotate_grant_def demo_grant_def)
  have "\<exists>user acct n2 s2. AcceptInvitation (in_id (rotated RoleReader)) ''01'' [] ''r'' later 20 s' = (Inr (user, acct, True), n2, s2) \<and>
      u_ID user = invitee (in_email (rotated RoleReader)) s'"
    by (rule accept_succeeds [OF no_faults_calm inv])
      (use me gs cols ev demo_accept_audit in \<open>auto simp: rotate_grant_def demo_grant_def grant_pending_def invitationTTL_def\<close>)
  then show ?thesis unfolding cols by blast
qed

theorem resend_replaces_link_witness:
  "\<exists>iv n1 s1 x n2 s2. ResendInvitation demo_entropy ''0'' ''i'' ann ''r'' demo_key later 0 demo_registry = (Inr iv, n1, s1) \<and>
     AcceptInvitation ''i'' ''01'' [] ''r'' later 20 s1 = (Inr x, n2, s2) \<and> NewToken [] (rd_token demo_entropy) = Inr ''01'' \<and> HashToken ''01'' = HashToken ''01''"
proof -
  obtain iv n1 s1 where run: "ResendInvitation demo_entropy ''0'' ''i'' ann ''r'' demo_key later 0 demo_registry = (Inr iv, n1, s1)"
    and gs: "grants s1 = [rotated RoleReader]" using demo_resend by blast
  from demo_rotated_link [OF run gs] obtain x n2 s2 where acc: "AcceptInvitation ''i'' ''01'' [] ''r'' later 20 s1 = (Inr x, n2, s2)" by blast
  have h: "HashToken ''01'' = HashToken ''01''" by (rule resend_replaces_link [OF run demo_registry_inv demo_parts(1) acc])
  show ?thesis by (intro exI conjI) (rule run, rule acc, rule demo_parts(1), rule h)
qed

text \<open>
  C27. An address that contains \<open>dr_\<close> or \<open>enc:\<close> cannot be invited: the audit event of the rotation carries the
  address, and its validation takes these texts for secret material.
\<close>

theorem invitation_rejects_marked_address:
  assumes "CreateInvitation P R a m role actor rid key limits e n s = (r, n', s')"
    and "Contains (NormalizeEmail m) ''dr_'' \<or> Contains (NormalizeEmail m) ''enc:''"
  shows "s' = s"
proof (rule ccontr)
  assume "s' \<noteq> s"
  with assms(1) have "rotateInvitation R a [] (NormalizeEmail m) role actor rid key (Some limits) False False e n s = (r, n', s')"
    by (auto simp: CreateInvitation_def Let_def split: if_splits)
  from rotateInvitation_run [OF this] \<open>s' \<noteq> s\<close> obtain uuid old action metadata where
    "validateAuditInput a actor (rotation_event action uuid role (NormalizeEmail m) rid) = Inr metadata" by (auto simp: issued_def)
  then show False using assms(2) by (auto simp: validateAuditInput_def rotation_event_def Let_def split: if_splits option.splits)
qed

lemma demo_marked: "Contains (NormalizeEmail ''Andr_e@x.io'') ''dr_''"
  by code_simp

theorem invitation_rejects_marked_address_witness:
  "Contains (NormalizeEmail ''Andr_e@x.io'') ''dr_'' \<and>
   snd (snd (CreateInvitation Some demo_entropy ''0'' ''Andr_e@x.io'' RoleReader ann ''r'' demo_key demo_limits later 0 demo_registry)) = demo_registry"
  using invitation_rejects_marked_address [of Some demo_entropy "''0''" "''Andr_e@x.io''" RoleReader ann "''r''" demo_key demo_limits later 0 demo_registry] demo_marked
  by (metis prod.collapse)

section \<open>Sign-in links\<close>

lemma ConsumeLoginToken_Inr:
  assumes "ConsumeLoginToken raw e n s = (Inr v, n', s')"
  shows "\<exists>t. List.find (login_live (HashToken raw) (clock e n)) (login_tokens s) = Some t \<and> lt_email t = vi_Email v \<and>
    s' = s\<lparr>login_tokens := filter (\<lambda>t. \<not> login_live (HashToken raw) (clock e n) t) (login_tokens s)\<rparr>"
proof (cases "List.find (login_live (HashToken raw) (clock e n)) (login_tokens s)")
  case (Some t)
  with assms show ?thesis by (auto simp: ConsumeLoginToken_def db_bind_def db_stmt_def split: option.splits)
next
  case None
  have "(case r of Inr True \<Rightarrow> db_fail ErrLoginTokenExpired | _ \<Rightarrow> db_fail ErrLoginTokenInvalid) e k x \<noteq> (Inr v, n', s')" for r :: "bool result" and k x
    by (simp split: sum.split bool.split)
  with None assms show ?thesis by (auto simp: ConsumeLoginToken_def db_bind_def db_stmt_def db_try_def split: option.splits prod.splits)
qed

text \<open>
  C28. A sign-in link works once: it signs in the address it was made for, before it expires; and in every
  later state in which no token with the same hash was made anew, using it again fails.
\<close>

theorem login_link_once:
  assumes "ConsumeLoginToken raw e n s = (Inr v, n1, s1)" and "distinct (map lt_id (login_tokens s))"
    and "\<forall>t \<in> set (login_tokens s2). lt_id t = HashToken raw \<longrightarrow> t \<in> set (login_tokens s1)"
  shows "(\<exists>t \<in> set (login_tokens s). lt_id t = HashToken raw \<and> lt_email t = vi_Email v \<and> clock e n < lt_expires t) \<and>
    (\<exists>err. fst (ConsumeLoginToken raw e' m s2) = Inl err)"
proof -
  from ConsumeLoginToken_Inr [OF assms(1)] obtain t where t: "t \<in> set (login_tokens s)" "login_live (HashToken raw) (clock e n) t" "lt_email t = vi_Email v"
    and s1: "login_tokens s1 = filter (\<lambda>t. \<not> login_live (HashToken raw) (clock e n) t) (login_tokens s)" by (auto dest: find_Some_in)
  have "lt_id x \<noteq> HashToken raw" if "x \<in> set (login_tokens s1)" for x
  proof
    assume "lt_id x = HashToken raw"
    with that t s1 have "x \<in> set (login_tokens s)" "lt_id x = lt_id t" "\<not> login_live (HashToken raw) (clock e n) x" by (auto simp: login_live_def)
    with assms(2) t show False by (metis distinct_map inj_onD)
  qed
  with assms(3) have none: "\<not> login_live (HashToken raw) c x" if "x \<in> set (login_tokens s2)" for x c using that by (auto simp: login_live_def)
  have "\<exists>err. fst (ConsumeLoginToken raw e' m s2) = Inl err"
  proof (cases "fst (ConsumeLoginToken raw e' m s2)")
    case (Inr w)
    then obtain n2 s3 where "ConsumeLoginToken raw e' m s2 = (Inr w, n2, s3)" by (metis prod.collapse)
    from ConsumeLoginToken_Inr [OF this] none show ?thesis by (auto dest: find_Some_in)
  qed simp
  with t show ?thesis by (auto simp: login_live_def)
qed

definition demo_login :: registry where
  "demo_login = demo_registry\<lparr>login_tokens := [\<lparr>lt_id = HashToken ''01'', lt_email = ''ann@x.io'', lt_expires = seconds 900\<rparr>]\<rparr>"

theorem login_link_once_witness:
  "fst (ConsumeLoginToken ''01'' later 0 demo_login) = Inr \<lparr>vi_Provider = ''magiclink'', vi_Subject = ''ann@x.io'', vi_Email = ''ann@x.io'', vi_AvatarURL = []\<rparr> \<and>
   (\<exists>err. fst (ConsumeLoginToken ''01'' later 1 (snd (snd (ConsumeLoginToken ''01'' later 0 demo_login)))) = Inl err)"
proof -
  have run: "ConsumeLoginToken ''01'' later 0 demo_login = (Inr \<lparr>vi_Provider = ''magiclink'', vi_Subject = ''ann@x.io'', vi_Email = ''ann@x.io'', vi_AvatarURL = []\<rparr>,
      1, demo_login\<lparr>login_tokens := []\<rparr>)"
    by (simp add: ConsumeLoginToken_def run_defs demo_login_def login_live_def)
  have "distinct (map lt_id (login_tokens demo_login))" by (simp add: demo_login_def)
  with login_link_once [OF run this, of "demo_login\<lparr>login_tokens := []\<rparr>" later 1] run show ?thesis by auto
qed

section \<open>API tokens\<close>

text \<open>What a created token leaves.\<close>

lemma CreateAPIToken_Inr:
  assumes "CreateAPIToken R wall a u h name ttl k rid key e n s = (Inr tid, n', s')"
  obtains raw stored x md K where "NewToken ''dr_'' (rd_token R) = Inr raw"
    and "Seal (rd_aead R) (rd_nonce R) key raw (tokenFlashAdditionalData h a) = Inr stored"
    and "session_live h (clock e n) s = Some x" "se_user x = Some u" "se_active x = Some a" and "token_admin a u s" "account_active a s"
    and "k \<le> 0 \<or> int (tokens_of a s) < k" and "\<forall>y \<in> set (api_tokens s). tk_id y \<noteq> tid \<and> tk_hash y \<noteq> HashToken raw"
    and "K = \<lparr>tk_id = tid, tk_tenant = a, tk_name = name, tk_hash = HashToken raw, tk_last_used = None,
      tk_expires = (if ttl > 0 then Some (wall + interval_of ttl) else None), tk_created = clock e n, tk_creator = Some u\<rparr>"
    and "s' = insert_audit a (user_actor u) (success_event ''api_token.create'' ''api_token'' tid rid []) md (clock e n)
      (put_flash h a stored (clock e n) (s\<lparr>api_tokens := api_tokens s @ [K]\<rparr>))"
  using assms
  by (fastforce simp: CreateAPIToken_def db_bind_Inr db_lift_Inr wrapping_Inr db_tx_Inr store_token_def db_read_Inr db_write_Inr db_stmt_Inr Let_def
      insert_token_def wrap_result_Inr list_ex_iff account_active_def split: if_splits option.splits prod.splits)

lemma CreateAPIToken_Inl: "CreateAPIToken R wall a u h name ttl k rid key e n s = (Inl err, n', s') \<Longrightarrow> s' = s"
  by (auto simp: CreateAPIToken_def db_bind_def db_lift_def Let_def split: sum.splits prod.splits dest: db_tx_Inl)

lemma created_tokens:
  assumes "s' = insert_audit a actor ev md t (put_flash h a stored t (s\<lparr>api_tokens := api_tokens s @ [K]\<rparr>))"
  shows "api_tokens s' = api_tokens s @ [K]"
    and "flashes s' = upsert (\<lambda>f. (fl_session f, fl_account f)) (\<lambda>f. f\<lparr>fl_value := stored, fl_expires := t + tokenFlashTTL\<rparr>)
        \<lparr>fl_session = h, fl_account = a, fl_value = stored, fl_expires = t + tokenFlashTTL\<rparr> (flashes s)"
    and "sessions s' = sessions s" and "accounts s' = accounts s"
  by (simp_all add: assms insert_audit_def put_flash_def)

text \<open>
  C29. The cap on API tokens: with a positive cap no creation, whatever fails, raises the number of an
  account's tokens above it, nor changes the number of another account; and one that succeeds was
  made by an active administrator of the active account, in a live session of that user in which the
  account is selected.
\<close>

theorem CreateAPIToken_capped:
  assumes "CreateAPIToken R wall a u h name ttl k rid key e n s = (r, n', s')" and "k > 0"
  shows "int (tokens_of a s') \<le> max (int (tokens_of a s)) k \<and> (b \<noteq> a \<longrightarrow> tokens_of b s' = tokens_of b s) \<and>
    (\<forall>tid. r = Inr tid \<longrightarrow> tokens_of a s' = tokens_of a s + 1 \<and> account_active a s \<and> is_admin s a u \<and>
       (\<exists>x. session_live h (clock e n) s = Some x \<and> se_user x = Some u \<and> se_active x = Some a))"
proof (cases r)
  case (Inl err)
  with assms CreateAPIToken_Inl have "s' = s" by blast
  with Inl show ?thesis by simp
next
  case (Inr tid)
  from assms(1) [unfolded Inr] obtain x md K stored where parts: "session_live h (clock e n) s = Some x" "se_user x = Some u" "se_active x = Some a"
      "token_admin a u s" "account_active a s" "k \<le> 0 \<or> int (tokens_of a s) < k" "tk_tenant K = a"
    and s': "s' = insert_audit a (user_actor u) (success_event ''api_token.create'' ''api_token'' tid rid []) md (clock e n)
      (put_flash h a stored (clock e n) (s\<lparr>api_tokens := api_tokens s @ [K]\<rparr>))"
    by (rule CreateAPIToken_Inr) (rule that, simp_all)
  have "tokens_of b s' = tokens_of b s + (if b = a then 1 else 0)" for b
    using parts(7) by (simp add: tokens_of_def created_tokens(1) [OF s'] count_where_def)
  moreover have "is_admin s a u" using parts(4) by (simp add: token_admin_def is_admin_def)
  ultimately show ?thesis using parts assms(2) Inr by auto
qed

definition demo_api :: registry where
  "demo_api = demo_registry\<lparr>sessions :=
     [\<lparr>se_id = ''h'', se_tenant = Some ''0'', se_user = Some ''1'', se_active = Some ''0'', se_expires = seconds 900\<rparr>]\<rparr>"

lemma demo_api_parts:
  "newAuditUUID (rd_uuid demo_entropy) = Inr ''00000000-0000-4000-8000-000000000000''"
  "NewToken ''dr_'' (rd_token demo_entropy) = Inr ''dr_01''"
  "Seal (rd_aead demo_entropy) (rd_nonce demo_entropy) demo_key ''dr_01'' (tokenFlashAdditionalData ''h'' ''0'') =
     Inr ''enc:bm5ubm5ubm5ubm5uZHJfMDEAAAAAAAAAAAAAAAAAAAAA''"
  "validateAuditInput ''0'' (user_actor ''1'')
     (success_event ''api_token.create'' ''api_token'' ''00000000-0000-4000-8000-000000000000'' ''r'' []) = Inr ''{}''"
  by code_simp+

lemma demo_api_state:
  "account_of ''0'' demo_api = Some (new_account ''ann@x.io'' ''Ann'' [] 0 0)" "account_active ''0'' demo_api" "token_admin ''0'' ''1'' demo_api"
  "api_tokens demo_api = []" "tokens_of ''0'' demo_api = 0"
  "t < seconds 900 \<Longrightarrow> session_live ''h'' t demo_api =
     Some \<lparr>se_id = ''h'', se_tenant = Some ''0'', se_user = Some ''1'', se_active = Some ''0'', se_expires = seconds 900\<rparr>"
  by (simp_all add: demo_api_def demo_registry_defs demo_ids account_of_def account_active_def token_admin_def active_admin_def member_live_def
      user_of_def user_active_def tokens_of_def count_where_def session_live_def)

lemma demo_create_token:
  "\<exists>n' s'. CreateAPIToken demo_entropy 0 ''0'' ''1'' ''h'' ''ci'' 0 1 ''r'' demo_key later 0 demo_api =
     (Inr ''00000000-0000-4000-8000-000000000000'', n', s')"
proof -
  have "\<exists>n' s'. store_token ''0'' ''1'' ''h'' ''ci'' None 1 ''00000000-0000-4000-8000-000000000000'' hash stored ev md 100000000 later 1 demo_api = (Inr (), n', s')"
    for hash stored ev md
    by (simp add: store_token_def run_defs demo_api_state new_account_def insert_token_def wrap_result_def)
  then obtain n' s' where "store_token ''0'' ''1'' ''h'' ''ci'' None 1 ''00000000-0000-4000-8000-000000000000'' (HashToken ''dr_01'')
      ''enc:bm5ubm5ubm5ubm5uZHJfMDEAAAAAAAAAAAAAAAAAAAAA'' (success_event ''api_token.create'' ''api_token'' ''00000000-0000-4000-8000-000000000000'' ''r'' [])
      ''{}'' 100000000 later 1 demo_api = (Inr (), n', s')" by blast
  then show ?thesis by (simp add: CreateAPIToken_def run_defs demo_api_parts wrapping_def Let_def)
qed

theorem CreateAPIToken_capped_witness:
  "\<exists>n' s'. CreateAPIToken demo_entropy 0 ''0'' ''1'' ''h'' ''ci'' 0 1 ''r'' demo_key later 0 demo_api =
     (Inr ''00000000-0000-4000-8000-000000000000'', n', s') \<and> tokens_of ''0'' s' = 1 \<and> tokens_of ''1'' s' = 0"
proof -
  from demo_create_token obtain n' s' where run: "CreateAPIToken demo_entropy 0 ''0'' ''1'' ''h'' ''ci'' 0 1 ''r'' demo_key later 0 demo_api =
     (Inr ''00000000-0000-4000-8000-000000000000'', n', s')" by blast
  have "tokens_of ''1'' demo_api = 0" by (simp add: tokens_of_def demo_api_state count_where_def)
  with CreateAPIToken_capped [OF run, of "''1''"] run demo_api_state(5) show ?thesis by auto
qed

text \<open>The text of a token waits for its session, and is found there.\<close>

lemma find_append_None: "List.find P xs = None \<Longrightarrow> List.find P (xs @ ys) = List.find P ys"
  by (induction xs) (auto split: if_splits)

lemma find_live:
  "lookup_key (\<lambda>f. (fl_session f, fl_account f)) fs (h, a) = Some f \<Longrightarrow> fl_expires f > t \<Longrightarrow> Q \<Longrightarrow>
     List.find (\<lambda>f. fl_session f = h \<and> fl_account f = a \<and> fl_expires f > t \<and> Q) fs = Some f"
  by (induction fs) (auto split: if_splits)

lemma flash_shown:
  assumes "gcm_correct G" and "length nonce = NonceSize" "Seal G (Inr nonce) key raw (tokenFlashAdditionalData h a) = Inr stored"
    and fl: "flashes s = upsert (\<lambda>f. (fl_session f, fl_account f)) (\<lambda>f. f\<lparr>fl_value := stored, fl_expires := x\<rparr>)
        \<lparr>fl_session = h, fl_account = a, fl_value = stored, fl_expires = x\<rparr> fs"
    and "no_faults e" "clock e n < x" and ses: "list_ex (\<lambda>y. se_id y = h \<and> se_active y = Some a \<and> se_expires y > clock e n) (sessions s)"
  shows "\<exists>n'. ConsumeTokenFlash G h a key e n s = (Inr raw, n', s\<lparr>flashes := filter (\<lambda>f. \<not> (fl_session f = h \<and> fl_account f = a)) (flashes s)\<rparr>)"
proof -
  have "lookup_key (\<lambda>f. (fl_session f, fl_account f)) (flashes s) (h, a) = Some (case lookup_key (\<lambda>f. (fl_session f, fl_account f)) fs (h, a) of
      None \<Rightarrow> \<lparr>fl_session = h, fl_account = a, fl_value = stored, fl_expires = x\<rparr> | Some f \<Rightarrow> f\<lparr>fl_value := stored, fl_expires := x\<rparr>)"
    unfolding fl by (subst lookup_key_upsert_keep) auto
  then obtain f where f: "lookup_key (\<lambda>f. (fl_session f, fl_account f)) (flashes s) (h, a) = Some f" "fl_value f = stored" "fl_expires f = x"
    by (auto split: option.splits)
  have "flash_live h a (clock e n) s = Some f"
    using find_live [OF f(1), of "clock e n"] ses assms(6) f(3) by (simp add: flash_live_def)
  moreover have "Open G key stored (tokenFlashAdditionalData h a) = Inr raw" by (rule Open_Seal [OF assms(1-3)])
  ultimately show ?thesis using assms(5) f(2)
    by (simp add: ConsumeTokenFlash_def run_defs no_faults_def wrapping_def)
qed



end
