(* ===== verification/Platform.thy ===== *)
theory Platform
  imports Enrichment Alert_Store Audit_Log
begin

text \<open>
  The whole database. The registry of accounts is extended by the catalog, the record of the tables of
  SBOMs, findings and alerts, and by the tables that refer to both: VEX documents and statements
  (migrations 006 and 007), license policies (009), attestations (027), posture snapshots (022, 025) and
  platform statistics (014). The operations of the catalog see the accounts as their rows of \<open>tenants\<close>.
\<close>

section \<open>Rows\<close>

record vex_document =
  vd_id :: string
  vd_tenant :: string
  vd_author :: "string option"
  vd_statements :: nat
  vd_matched :: nat
  vd_document :: string
  vd_created :: time

text \<open>A statement as it is read back; the timestamp of the document is stored as the database parses it.\<close>

record vex_statement =
  vs_id :: nat
  vs_tenant :: string
  vs_document :: string
  vs_digest :: "string option"
  vs_repo :: "string option"
  vs_vulnerability :: string
  vs_subcomponent :: "string option"
  vs_status :: string
  vs_justification :: "string option"
  vs_impact :: "string option"
  vs_timestamp :: "time option"
  vs_created :: time

record attestation_row =
  at_id :: string
  at_of :: string
  at_tenant :: string
  at_result :: string
  at_mode :: string
  at_binding :: string
  at_subject :: string
  at_predicate :: "string option"
  at_identity :: "string option"
  at_issuer :: "string option"
  at_key :: "string option"
  at_log :: "string option"
  at_verifier :: string
  at_policy :: string
  at_reason :: "string option"
  at_envelope :: string
  at_verified :: time

text \<open>Counts over the findings of an image or of an account.\<close>

record posture =
  po_images :: nat
  po_total :: nat
  po_critical :: nat
  po_high :: nat
  po_medium :: nat
  po_low :: nat
  po_fixable :: nat
  po_kev :: nat

text \<open>A day is the number of days since 1970. The snapshot of an account has no repository.\<close>

record snapshot_row =
  sn_tenant :: string
  sn_repository :: string
  sn_day :: int
  sn_posture :: posture
  sn_captured :: time

record PlatformSnapshot =
  ps_tenants :: nat
  ps_sboms_active :: nat
  ps_unique_digests :: nat
  ps_open_findings :: nat
  ps_critical_open :: nat
  ps_high_open :: nat
  ps_vex_statements :: nat

record stats_row = PlatformSnapshot +
  st_day :: int
  st_captured :: time

record license_row =
  lp_tenant :: string
  lp_policy :: LicensePolicy
  lp_updated :: time

section \<open>The database\<close>

record platform = registry +
  catalog :: store
  vex_documents :: "vex_document list"
  vex_statements :: "vex_statement list"
  license_policies :: "license_row list"
  attestations :: "attestation_row list"
  tenant_snapshots :: "snapshot_row list"
  repository_snapshots :: "snapshot_row list"
  platform_stats :: "stats_row list"
  next_statement :: nat

definition empty_platform :: platform where
  "empty_platform = registry.extend empty_registry (platform.fields empty_store [] [] [] [] [] [] [] 0)"

definition catalog_view :: "platform \<Rightarrow> store" where
  "catalog_view s = (catalog s)\<lparr>tenants := map (\<lambda>a. \<lparr>tn_id = a_ID a, tn_status = a_Status a\<rparr>) (accounts s)\<rparr>"

definition on_catalog :: "(store, 'a) db \<Rightarrow> (platform, 'a) db" where
  "on_catalog m e n s = (case m e n (catalog_view s) of (r, n', c) \<Rightarrow> (r, n', s\<lparr>catalog := c\<rparr>))"

definition sbom_of :: "string \<Rightarrow> platform \<Rightarrow> sbom_row option" where
  "sbom_of sid s = lookup_key ID (sboms (catalog s)) sid"

text \<open>The day of a time, \<open>(t AT TIME ZONE 'UTC')::date\<close>.\<close>

definition day_of :: "time \<Rightarrow> int" where
  "day_of t = t div hours 24"

section \<open>Audited operations of the catalog\<close>

definition ActivateSBOMAudited :: "string \<Rightarrow> string \<Rightarrow> Actor \<Rightarrow> string \<Rightarrow> (platform, unit) db" where
  "ActivateSBOMAudited tenantID sbomID actor requestID =
     (let ev = success_event ''sbom.activate'' ''sbom'' sbomID requestID [] in
      db_bind (db_lift (validateAuditInput tenantID actor ev)) (\<lambda>metadata.
      db_tx ''begin audited SBOM activation: '' (\<lambda>now.
        db_bind (on_catalog (lockAccountForSBOMMutation tenantID)) (\<lambda>_.
        db_bind (authorizeAuditActor tenantID actor) (\<lambda>_.
        db_bind (on_catalog (activateSBOM tenantID sbomID)) (\<lambda>changed.
        if changed then
          db_write (Wrapf ''insert SBOM activation audit event: '') (\<lambda>_. insert_audit tenantID actor ev metadata now)
        else db_return ()))))
      ''commit audited SBOM activation: ''))"

text \<open>A callback that changes nothing commits without an event.\<close>

definition unless_changed :: "(platform, bool) db \<Rightarrow> (platform, unit) db" where
  "unless_changed m = db_bind m (\<lambda>changed. if changed then db_return () else db_fail errAuditNoMutation)"

definition ArchiveSBOMAudited :: "string \<Rightarrow> string \<Rightarrow> Actor \<Rightarrow> string \<Rightarrow> (platform, unit) db" where
  "ArchiveSBOMAudited tenantID sbomID actor requestID =
     WithAudit tenantID actor (success_event ''sbom.archive'' ''sbom'' sbomID requestID [])
       (\<lambda>_. unless_changed (on_catalog (archiveSBOM tenantID sbomID)))"

text \<open>The number of archived rows, which the code returns besides, is that of the statement.\<close>

definition ArchiveRepoAudited :: "string \<Rightarrow> string \<Rightarrow> Actor \<Rightarrow> string \<Rightarrow> (platform, unit) db" where
  "ArchiveRepoAudited tenantID repository actor requestID =
     WithAudit tenantID actor (success_event ''repository.archive'' ''repository'' (auditRepositoryTarget repository) requestID [])
       (\<lambda>_. unless_changed (db_bind (on_catalog (archiveRepo tenantID repository)) (\<lambda>archived. db_return (archived \<noteq> 0))))"

definition UpdateAlertPolicyAudited :: "string \<Rightarrow> AlertPolicy \<Rightarrow> Actor \<Rightarrow> string \<Rightarrow> (platform, unit) db" where
  "UpdateAlertPolicyAudited tenantID policy actor requestID =
     WithAudit tenantID actor (success_event ''account.alert_policy.update'' ''account'' tenantID requestID [])
       (\<lambda>_. unless_changed (on_catalog (updateAlertPolicy tenantID policy)))"

section \<open>License policies\<close>

definition license_policy_of :: "string \<Rightarrow> platform \<Rightarrow> LicensePolicy" where
  "license_policy_of tenantID s =
     (case lookup_key lp_tenant (license_policies s) tenantID of
        None \<Rightarrow> \<lparr>DeniedCategories = [], AllowExceptions = [], DenyExceptions = []\<rparr>
      | Some r \<Rightarrow> lp_policy r)"

definition GetLicensePolicy :: "string \<Rightarrow> (platform, LicensePolicy) db" where
  "GetLicensePolicy tenantID = db_read (Wrapf ''get license policy: '') (\<lambda>_ s. Inr (license_policy_of tenantID s))"

definition setLicensePolicy :: "string \<Rightarrow> LicensePolicy \<Rightarrow> time \<Rightarrow> (platform, bool) db" where
  "setLicensePolicy tenantID p now =
     db_stmt (Wrapf ''set license policy: '') (\<lambda>_ s.
       if map_option lp_policy (lookup_key lp_tenant (license_policies s) tenantID) = Some p then (Inr False, s)
       else (Inr True, s\<lparr>license_policies :=
         upsert lp_tenant (\<lambda>r. r\<lparr>lp_policy := p, lp_updated := now\<rparr>) \<lparr>lp_tenant = tenantID, lp_policy = p, lp_updated = now\<rparr>
           (license_policies s)\<rparr>))"

definition SetLicensePolicyAudited :: "string \<Rightarrow> LicensePolicy \<Rightarrow> Actor \<Rightarrow> string \<Rightarrow> (platform, unit) db" where
  "SetLicensePolicyAudited tenantID p actor requestID =
     WithAudit tenantID actor (success_event ''account.license_policy.update'' ''account'' tenantID requestID [])
       (\<lambda>now. unless_changed (setLicensePolicy tenantID p now))"

end
