(* ===== verification/Vex.thy ===== *)
theory Vex
  imports Platform
begin

text \<open>
  VEX: an account's statements about which vulnerabilities affect its images. \<open>pkg/vex/vex.go\<close> parses an
  OpenVEX document into statements about an image digest or, without one, about every version of an
  image name; \<open>pkg/data/postgres/vex.go\<close> stores them and resolves the status of a finding.

  The parser of JSON texts is an argument. A map of identifiers is iterated in the order of the
  association list. How the database reads a timestamp is an argument of the operations that store one.
\<close>

section \<open>Documents\<close>

abbreviation StatusNotAffected :: string where "StatusNotAffected \<equiv> ''not_affected''"
abbreviation StatusAffected :: string where "StatusAffected \<equiv> ''affected''"
abbreviation StatusFixed :: string where "StatusFixed \<equiv> ''fixed''"
abbreviation StatusUnderInvestigation :: string where "StatusUnderInvestigation \<equiv> ''under_investigation''"

definition validStatus :: "string list" where
  "validStatus = [StatusNotAffected, StatusAffected, StatusFixed, StatusUnderInvestigation]"

record Statement =
  ProductDigest :: string
  ProductRepo :: string
  Vulnerability :: string
  Subcomponent :: string
  StatementStatus :: string
  Justification :: string
  ImpactStatement :: string
  Timestamp :: string

record Document =
  Author :: string
  Raw :: string
  Statements :: "Statement list"
  Skipped :: nat

record rawProduct =
  rp_ID :: string
  rp_Identifiers :: "(string, json) gomap"
  rp_Subcomponents :: "string list"

record rawStatement =
  rs_Vulnerability :: "json option"
  rs_Products :: "rawProduct list"
  rs_Status :: string
  rs_Justification :: string
  rs_ImpactState :: string
  rs_Timestamp :: string

record rawDoc =
  rd_Author :: string
  rd_Timestamp :: string
  rd_Statements :: "rawStatement list"

subsection \<open>Decoding\<close>

text \<open>A subcomponent is a text or an object with an identifier.\<close>

definition rawSubcompStr :: "json \<Rightarrow> string option" where
  "rawSubcompStr j = (case j of JStr s \<Rightarrow> Some s | _ \<Rightarrow> Option.bind (Enrichment.members j) (string_field ''@id''))"

definition decode_product :: "(string \<times> json) list \<Rightarrow> rawProduct option" where
  "decode_product kvs =
     Option.bind (string_field ''@id'' kvs) (\<lambda>pid.
     Option.bind (Enrichment.members (field ''identifiers'' kvs)) (\<lambda>ids.
     Option.bind (array_field ''subcomponents'' kvs) (\<lambda>subs.
     Option.bind (those (map rawSubcompStr subs)) (\<lambda>subs.
     Some \<lparr>rp_ID = pid, rp_Identifiers = map_from fst snd ids, rp_Subcomponents = subs\<rparr>))))"

text \<open>The vulnerability is kept as it is.\<close>

definition raw_field :: "string \<Rightarrow> (string \<times> json) list \<Rightarrow> json option" where
  "raw_field k kvs = (case filter (\<lambda>(k', v). EqualFold k' k) kvs of [] \<Rightarrow> None | x # xs \<Rightarrow> Some (snd (last (x # xs))))"

definition decode_statement :: "(string \<times> json) list \<Rightarrow> rawStatement option" where
  "decode_statement kvs =
     Option.bind (struct_list ''products'' decode_product (JObj kvs)) (\<lambda>ps.
     Option.bind (string_field ''status'' kvs) (\<lambda>st.
     Option.bind (string_field ''justification'' kvs) (\<lambda>ju.
     Option.bind (string_field ''impact_statement'' kvs) (\<lambda>im.
     Option.bind (string_field ''timestamp'' kvs) (\<lambda>ts.
     Some \<lparr>rs_Vulnerability = raw_field ''vulnerability'' kvs, rs_Products = ps, rs_Status = st, rs_Justification = ju,
       rs_ImpactState = im, rs_Timestamp = ts\<rparr>)))))"

definition decode_doc :: "json \<Rightarrow> rawDoc option" where
  "decode_doc j =
     Option.bind (Enrichment.members j) (\<lambda>kvs.
     Option.bind (string_field ''author'' kvs) (\<lambda>au.
     Option.bind (string_field ''timestamp'' kvs) (\<lambda>ts.
     Option.bind (struct_list ''statements'' decode_statement j) (\<lambda>sts.
     Some \<lparr>rd_Author = au, rd_Timestamp = ts, rd_Statements = sts\<rparr>))))"

subsection \<open>Products\<close>

definition lower_hex :: "char \<Rightarrow> bool" where
  "lower_hex c = (c \<in> set ''0123456789abcdef'')"

text \<open>\<open>digestRE.FindString\<close>: the leftmost match of \<open>sha256:[0-9a-f]{64}\<close>.\<close>

definition digest_at :: "string \<Rightarrow> bool" where
  "digest_at s = (HasPrefix s ''sha256:'' \<and> length s \<ge> 71 \<and> list_all lower_hex (take 64 (drop 7 s)))"

fun find_digest :: "string \<Rightarrow> string" where
  "find_digest [] = []"
| "find_digest (c # s) = (if digest_at (c # s) then take 71 (c # s) else find_digest s)"

definition vulnName :: "json option \<Rightarrow> string" where
  "vulnName raw =
     (case raw of
        None \<Rightarrow> []
      | Some (JStr s) \<Rightarrow> TrimSpace s
      | Some j \<Rightarrow>
          (case Option.bind (Enrichment.members j) (\<lambda>kvs. Option.bind (string_field ''name'' kvs) (\<lambda>name.
             map_option (Pair name) (string_field ''@id'' kvs))) of
             None \<Rightarrow> []
           | Some (name, vid) \<Rightarrow> if name \<noteq> [] then TrimSpace name else find_digest vid))"

text \<open>The part after the last occurrence of a character, and the part before it.\<close>

definition after_last :: "char \<Rightarrow> string \<Rightarrow> string" where
  "after_last c s = rev (takeWhile (\<lambda>x. x \<noteq> c) (rev s))"

definition before_last :: "char \<Rightarrow> string \<Rightarrow> string" where
  "before_last c s = (if c \<in> set s then rev (tl (dropWhile (\<lambda>x. x \<noteq> c) (rev s))) else s)"

definition strip_scheme :: "string \<Rightarrow> string" where
  "strip_scheme i =
     (case Cut i '':'' of
        None \<Rightarrow> i
      | Some (a, b) \<Rightarrow>
          if HasPrefix i ''pkg:'' then (case Cut ('':'' @ b) ''/'' of None \<Rightarrow> i | Some (_, rest) \<Rightarrow> rest) else i)"

definition repoKeyOf :: "rawProduct \<Rightarrow> string" where
  "repoKeyOf p =
     (let i = (if rp_ID p = [] then (case map_of (rp_Identifiers p) ''purl'' of Some (JStr purl) \<Rightarrow> purl | _ \<Rightarrow> []) else rp_ID p) in
      if i = [] then []
      else
        ToLower (TrimSpace (before_last (CHR '':'') (after_last (CHR ''/'')
          (takeWhile (\<lambda>c. c \<noteq> CHR ''?'' \<and> c \<noteq> CHR ''@'') (strip_scheme i))))))"

definition digestOf :: "rawProduct \<Rightarrow> string" where
  "digestOf p =
     (if find_digest (rp_ID p) \<noteq> [] then find_digest (rp_ID p)
      else
        (case List.find (\<lambda>d. d \<noteq> []) (map (\<lambda>(k, v). case v of JStr s \<Rightarrow> find_digest s | _ \<Rightarrow> []) (rp_Identifiers p)) of
           None \<Rightarrow> []
         | Some d \<Rightarrow> d))"

subsection \<open>Parsing\<close>

text \<open>The statements of one product; a product that resolves to nothing is skipped.\<close>

definition product_statement :: "rawStatement \<Rightarrow> string \<Rightarrow> string \<Rightarrow> string \<Rightarrow> rawProduct \<Rightarrow> Statement option" where
  "product_statement st cve status ts p =
     (let digest = digestOf p; repo = (if digest = [] then repoKeyOf p else []) in
      if digest = [] \<and> repo = [] then None
      else Some \<lparr>ProductDigest = digest, ProductRepo = repo, Vulnerability = cve,
        Subcomponent = (case rp_Subcomponents p of [] \<Rightarrow> [] | sub # _ \<Rightarrow> sub),
        StatementStatus = status, Justification = rs_Justification st, ImpactStatement = rs_ImpactState st, Timestamp = ts\<rparr>)"

definition check_statement :: "nat \<Rightarrow> rawStatement \<Rightarrow> go_error option" where
  "check_statement i st =
     (let status = ToLower (TrimSpace (rs_Status st)) in
      if status \<notin> set validStatus then Some (Errorf (''vex: statement '' @ nat_text i @ '': invalid status '' @ quoted (rs_Status st)))
      else if status = StatusNotAffected \<and> TrimSpace (rs_Justification st) = []
      then Some (Errorf (''vex: statement '' @ nat_text i @ '': not_affected requires a justification''))
      else if vulnName (rs_Vulnerability st) = [] then Some (Errorf (''vex: statement '' @ nat_text i @ '': missing vulnerability name''))
      else None)"

definition statement_found :: "string \<Rightarrow> rawStatement \<Rightarrow> Statement option list" where
  "statement_found docTS st =
     map (product_statement st (vulnName (rs_Vulnerability st)) (ToLower (TrimSpace (rs_Status st)))
       (if rs_Timestamp st = [] then docTS else rs_Timestamp st)) (rs_Products st)"

fun parse_statements :: "string \<Rightarrow> nat \<Rightarrow> rawStatement list \<Rightarrow> (Statement list \<times> nat) result" where
  "parse_statements docTS i [] = Inr ([], 0)"
| "parse_statements docTS i (st # sts) =
     (case check_statement i st of
        Some err \<Rightarrow> Inl err
      | None \<Rightarrow>
          (case parse_statements docTS (Suc i) sts of
             Inl err \<Rightarrow> Inl err
           | Inr (out, skipped) \<Rightarrow>
               Inr (List.map_filter (\<lambda>x. x) (statement_found docTS st) @ out,
                    length (filter (\<lambda>x. x = None) (statement_found docTS st)) + skipped)))"

definition Parse :: "(string \<Rightarrow> json result) \<Rightarrow> string \<Rightarrow> Document result" where
  "Parse json_of raw =
     (case json_of raw of
        Inl _ \<Rightarrow> Inl (Errorf ''vex: not valid JSON'')
      | Inr j \<Rightarrow>
          (case decode_doc j of
             None \<Rightarrow> Inl (Wrapf ''vex: parse: '' (Driver ''json: cannot unmarshal''))
           | Some d \<Rightarrow>
               if rd_Statements d = [] then Inl (Errorf ''vex: document has no statements'')
               else (case parse_statements (rd_Timestamp d) 0 (rd_Statements d) of
                       Inl err \<Rightarrow> Inl err
                     | Inr (out, skipped) \<Rightarrow>
                         if out = [] then Inl (Errorf ''vex: no statement resolved to an image digest or name'')
                         else Inr \<lparr>Author = rd_Author d, Raw = raw, Statements = out, Skipped = skipped\<rparr>)))"

section \<open>Resolving the status of a finding\<close>

text \<open>\<open>vexRepoKeyExpr\<close>: the last segment of a repository; of the empty text there is none.\<close>

definition vexRepoKey :: "string \<Rightarrow> string option" where
  "vexRepoKey repository = (if repository = [] then None else Some (ToLower (after_last (CHR ''/'') repository)))"

definition vex_applies :: "sbom_row \<Rightarrow> string \<Rightarrow> vex_statement \<Rightarrow> bool" where
  "vex_applies sb exposure v =
     (vs_tenant v = TenantID sb \<and> vs_vulnerability v = exposure \<and>
      (vs_digest v = Some (Digest sb) \<or> vs_repo v \<noteq> None \<and> vs_repo v = vexRepoKey (Repository sb)))"

text \<open>\<open>vexSpecificityOrder\<close>: a statement about a digest first, then the newest.\<close>

definition vex_rank :: "vex_statement \<Rightarrow> bool \<times> time \<times> nat" where
  "vex_rank v = (vs_digest v \<noteq> None, vs_created v, vs_id v)"

definition vex_resolved :: "vex_statement list \<Rightarrow> sbom_row \<Rightarrow> string \<Rightarrow> vex_statement option" where
  "vex_resolved vs sb exposure =
     (case sort_key vex_rank (filter (vex_applies sb exposure) vs) of [] \<Rightarrow> None | x # xs \<Rightarrow> Some (last (x # xs)))"

definition suppressing :: "string \<Rightarrow> bool" where
  "suppressing status = (status = StatusNotAffected \<or> status = StatusFixed)"

definition vex_suppressed :: "vex_statement list \<Rightarrow> sbom_row \<Rightarrow> string \<Rightarrow> bool" where
  "vex_suppressed vs sb exposure =
     (case vex_resolved vs sb exposure of None \<Rightarrow> False | Some v \<Rightarrow> suppressing (vs_status v))"

definition TenantHasSuppressingVEX :: "string \<Rightarrow> (platform, bool) db" where
  "TenantHasSuppressingVEX tenantID =
     db_read (Wrapf ''tenant has suppressing vex: '') (\<lambda>_ s.
       Inr (list_ex (\<lambda>v. vs_tenant v = tenantID \<and> suppressing (vs_status v)) (vex_statements s)))"

section \<open>Storing documents\<close>

definition statement_hits :: "string \<Rightarrow> Statement \<Rightarrow> store \<Rightarrow> bool" where
  "statement_hits tenantID st c =
     list_ex (\<lambda>f. Exposure (f_vuln f) = Vulnerability st \<and>
       list_ex (\<lambda>sb. ID sb = f_sbom f \<and> TenantID sb = tenantID \<and>
         (ProductDigest st \<noteq> [] \<and> Digest sb = ProductDigest st \<or>
          ProductRepo st \<noteq> [] \<and> vexRepoKey (Repository sb) = Some (ProductRepo st))) (sboms c)) (findings c)"

definition new_statement :: "(string \<Rightarrow> time option) \<Rightarrow> string \<Rightarrow> string \<Rightarrow> time \<Rightarrow> Statement \<Rightarrow> nat \<Rightarrow> vex_statement" where
  "new_statement timestamptz tenantID doc now st i =
     \<lparr>vs_id = i, vs_tenant = tenantID, vs_document = doc, vs_digest = nullStr (ProductDigest st), vs_repo = nullStr (ProductRepo st),
      vs_vulnerability = Vulnerability st, vs_subcomponent = nullStr (Subcomponent st), vs_status = StatementStatus st,
      vs_justification = nullStr (Justification st), vs_impact = nullStr (ImpactStatement st),
      vs_timestamp = (if Timestamp st = [] then None else timestamptz (Timestamp st)), vs_created = now\<rparr>"

definition insert_statement :: "(string \<Rightarrow> time option) \<Rightarrow> string \<Rightarrow> string \<Rightarrow> time \<Rightarrow> Statement \<Rightarrow> platform \<Rightarrow> unit result \<times> platform" where
  "insert_statement timestamptz tenantID doc now st s =
     (if Timestamp st \<noteq> [] \<and> timestamptz (Timestamp st) = None
      then (Inl (Wrapf ''insert vex statement: '' (Driver ''invalid input syntax for type timestamp with time zone'')), s)
      else (Inr (), s\<lparr>vex_statements := vex_statements s @ [new_statement timestamptz tenantID doc now st (next_statement s)],
              next_statement := Suc (next_statement s)\<rparr>))"

fun count_matches :: "string \<Rightarrow> Statement list \<Rightarrow> nat \<Rightarrow> (platform, nat) db" where
  "count_matches tenantID [] matched = db_return matched"
| "count_matches tenantID (st # sts) matched =
     db_bind (db_read (Wrapf ''vex match check: '') (\<lambda>_ s. Inr (statement_hits tenantID st (catalog s)))) (\<lambda>hit.
     count_matches tenantID sts (if hit then Suc matched else matched))"

text \<open>A document has its account, and an identifier of its own.\<close>

definition insert_document :: "vex_document \<Rightarrow> platform \<Rightarrow> unit result \<times> platform" where
  "insert_document d s =
     (if account_of (vd_tenant d) s = None \<or> list_ex (\<lambda>x. vd_id x = vd_id d) (vex_documents s) then (Inl (Driver ''violates constraint''), s)
      else (Inr (), s\<lparr>vex_documents := vex_documents s @ [d]\<rparr>))"

definition saveVEXDocument :: "(string \<Rightarrow> time option) \<Rightarrow> time \<Rightarrow> string \<Rightarrow> string \<Rightarrow> Document \<Rightarrow> (platform, nat) db" where
  "saveVEXDocument timestamptz now tenantID doc d =
     db_bind (count_matches tenantID (Statements d) 0) (\<lambda>matched.
     db_bind (db_stmt (Wrapf ''insert vex document: '') (\<lambda>_. wrap_result ''insert vex document: '' \<circ> insert_document
       \<lparr>vd_id = doc, vd_tenant = tenantID, vd_author = nullStr (Author d), vd_statements = length (Statements d),
        vd_matched = matched, vd_document = Raw d, vd_created = now\<rparr>)) (\<lambda>_.
     db_bind (db_write (Wrapf ''prepare vex statement: '') (\<lambda>_ s. s)) (\<lambda>_.
     db_bind (db_foreach (Statements d) (\<lambda>st.
       db_stmt (Wrapf ''insert vex statement: '') (\<lambda>_. insert_statement timestamptz tenantID doc now st))) (\<lambda>_.
     db_return matched))))"

definition SaveVEXDocument ::
    "(string \<Rightarrow> time option) \<Rightarrow> byte list result \<Rightarrow> string \<Rightarrow> Document \<Rightarrow> (platform, string \<times> nat) db" where
  "SaveVEXDocument timestamptz random tenantID d =
     db_bind (db_lift (case newAuditUUID random of Inl err \<Rightarrow> Inl (Wrapf ''generate vex document id: '' err) | Inr i \<Rightarrow> Inr i)) (\<lambda>doc.
     db_tx ''begin vex tx: '' (\<lambda>now.
       db_bind (saveVEXDocument timestamptz now tenantID doc d) (\<lambda>matched. db_return (doc, matched)))
     ''commit vex: '')"

definition SaveVEXDocumentAudited ::
    "(string \<Rightarrow> time option) \<Rightarrow> byte list result \<Rightarrow> string \<Rightarrow> Document \<Rightarrow> Actor \<Rightarrow> string \<Rightarrow> (platform, string) db" where
  "SaveVEXDocumentAudited timestamptz random tenantID d actor requestID =
     db_bind (db_lift (case newAuditUUID random of Inl err \<Rightarrow> Inl (Wrapf ''generate vex document id: '' err) | Inr i \<Rightarrow> Inr i)) (\<lambda>doc.
     db_bind (WithAudit tenantID actor (success_event ''vex.save'' ''vex_document'' doc requestID []) (\<lambda>now.
       db_bind (saveVEXDocument timestamptz now tenantID doc d) (\<lambda>_. db_return ()))) (\<lambda>_.
     db_return doc))"

text \<open>Newest first, at most 200.\<close>

definition ListVEXDocuments :: "string \<Rightarrow> (platform, vex_document list) db" where
  "ListVEXDocuments tenantID =
     db_read (Wrapf ''list vex documents: '') (\<lambda>_ s.
       Inr (take 200 (rev (sort_key vd_created (filter (\<lambda>d. vd_tenant d = tenantID) (vex_documents s))))))"

section \<open>Parsed documents\<close>

text \<open>A statement names a digest or a repository, and not both.\<close>

definition one_scope :: "Statement \<Rightarrow> bool" where
  "one_scope st = ((ProductDigest st = []) \<noteq> (ProductRepo st = []))"

definition statement_ok :: "Statement \<Rightarrow> bool" where
  "statement_ok st =
     (one_scope st \<and> StatementStatus st \<in> set validStatus \<and> Vulnerability st \<noteq> [] \<and>
      (StatementStatus st = StatusNotAffected \<longrightarrow> TrimSpace (Justification st) \<noteq> []) \<and>
      (ProductDigest st = [] \<or> digest_at (ProductDigest st) \<and> length (ProductDigest st) = 71))"

lemma digest_at_take: "digest_at s \<Longrightarrow> digest_at (take 71 s)"
  by (auto simp: digest_at_def HasPrefix_def prefix_def take_drop)

lemma find_digest_cases: "find_digest s = [] \<or> digest_at (find_digest s) \<and> length (find_digest s) = 71"
proof (induction s)
  case (Cons c s)
  then show ?case using digest_at_take [of "c # s"] by (auto simp: digest_at_def)
qed simp

lemma digestOf_cases: "digestOf p = [] \<or> digest_at (digestOf p) \<and> length (digestOf p) = 71"
proof -
  have "d = [] \<or> digest_at d \<and> length d = 71"
    if "List.find (\<lambda>d. d \<noteq> []) (map (\<lambda>(k, v). case v of JStr s \<Rightarrow> find_digest s | _ \<Rightarrow> []) ids) = Some d" for d ids
  proof -
    from that have "d \<in> set (map (\<lambda>(k, v). case v of JStr s \<Rightarrow> find_digest s | _ \<Rightarrow> []) ids)" by (metis find_Some_iff nth_mem)
    then obtain v where "d = (case v of JStr s \<Rightarrow> find_digest s | _ \<Rightarrow> [])" by auto
    then show ?thesis using find_digest_cases by (cases v) auto
  qed
  then show ?thesis using find_digest_cases [of "rp_ID p"] by (auto simp: digestOf_def split: option.splits)
qed

lemma product_statement_Some:
  "product_statement st cve status ts p = Some x \<Longrightarrow>
     one_scope x \<and> StatementStatus x = status \<and> Vulnerability x = cve \<and> Justification x = rs_Justification st \<and>
     (ProductDigest x = [] \<or> digest_at (ProductDigest x) \<and> length (ProductDigest x) = 71)"
  using digestOf_cases [of p] by (auto simp: product_statement_def one_scope_def Let_def split: if_splits)

lemma length_map_of_filter: "length (List.map_filter (\<lambda>x. x) xs) + length (filter (\<lambda>x. x = None) xs) = length xs"
  by (induction xs) (auto simp: map_filter_simps)

lemma in_map_filter_id: "x \<in> set (List.map_filter (\<lambda>x. x) xs) \<longleftrightarrow> Some x \<in> set xs"
  by (induction xs) (auto simp: map_filter_simps split: option.splits)

lemma statement_found_ok:
  assumes "check_statement i st = None"
  shows "list_all statement_ok (List.map_filter (\<lambda>x. x) (statement_found ts st))"
  unfolding list_all_iff in_map_filter_id
proof
  fix x assume "x \<in> set (List.map_filter (\<lambda>x. x) (statement_found ts st))"
  then obtain p where "product_statement st (vulnName (rs_Vulnerability st)) (ToLower (TrimSpace (rs_Status st)))
      (if rs_Timestamp st = [] then ts else rs_Timestamp st) p = Some x"
    unfolding in_map_filter_id statement_found_def by (metis (no_types, lifting) imageE set_map)
  from product_statement_Some [OF this] assms show "statement_ok x" by (auto simp: statement_ok_def check_statement_def Let_def split: if_splits)
qed

lemma parse_statements_ok:
  "parse_statements ts i sts = Inr (out, skipped) \<Longrightarrow>
     list_all statement_ok out \<and> length out + skipped = sum_list (map (\<lambda>st. length (rs_Products st)) sts)"
proof (induction sts arbitrary: i out skipped)
  case (Cons st sts)
  from Cons.prems obtain out' k where rest: "parse_statements ts (Suc i) sts = Inr (out', k)" and ok: "check_statement i st = None"
    and out: "out = List.map_filter (\<lambda>x. x) (statement_found ts st) @ out'"
    and sk: "skipped = length (filter (\<lambda>x. x = None) (statement_found ts st)) + k"
    by (auto split: sum.splits option.splits)
  note IH = Cons.IH [OF rest]
  have "list_all statement_ok out" using IH statement_found_ok [OF ok] by (simp add: out)
  moreover have "length out + skipped = length (rs_Products st) + (length out' + k)"
    using length_map_of_filter [of "statement_found ts st"] by (simp add: out sk statement_found_def)
  ultimately show ?case using IH by simp
qed simp

text \<open>
  C34. What a parsed document holds. Every statement has one of the four statuses and a vulnerability, a
  justification when it says that an image is not affected, and names either a full image digest or
  a repository and not both; and every product of the document became a statement or was counted as
  skipped, at least one of them a statement.
\<close>

theorem Parse_wellformed:
  assumes "Parse json_of raw = Inr d"
  shows "list_all statement_ok (Statements d) \<and> Statements d \<noteq> [] \<and> Raw d = raw \<and>
    (\<exists>j rd. json_of raw = Inr j \<and> decode_doc j = Some rd \<and>
       length (Statements d) + Skipped d = sum_list (map (\<lambda>st. length (rs_Products st)) (rd_Statements rd)))"
proof -
  from assms obtain j rd out k where parts: "json_of raw = Inr j" "decode_doc j = Some rd" "parse_statements (rd_Timestamp rd) 0 (rd_Statements rd) = Inr (out, k)"
    and d: "out \<noteq> []" "d = \<lparr>Author = rd_Author rd, Raw = raw, Statements = out, Skipped = k\<rparr>"
    by (auto simp: Parse_def split: sum.splits option.splits if_splits)
  with parse_statements_ok [OF parts(3)] show ?thesis by simp
qed

definition demo_vex :: json where
  "demo_vex = JObj [(''author'', JStr ''ann''), (''statements'', JArr [JObj [(''vulnerability'', JObj [(''name'', JStr ''CVE-2024-0001'')]),
     (''products'', JArr [JObj [(''@id'', JStr ''pkg:oci/ghcr.io/acme/API?tag=1'')], JObj []]), (''status'', JStr '' Fixed'')]])]"

theorem Parse_wellformed_witness:
  "\<exists>d. Parse (\<lambda>_. Inr demo_vex) ''{}'' = Inr d \<and> list_all statement_ok (Statements d) \<and> map ProductRepo (Statements d) = [''api''] \<and> Skipped d = 1"
proof -
  let ?d = "\<lparr>Author = ''ann'', Raw = ''{}'', Statements = [\<lparr>ProductDigest = [], ProductRepo = ''api'', Vulnerability = ''CVE-2024-0001'',
    Subcomponent = [], StatementStatus = ''fixed'', Justification = [], ImpactStatement = [], Timestamp = []\<rparr>], Skipped = 1\<rparr>"
  have run: "Parse (\<lambda>_. Inr demo_vex) ''{}'' = Inr ?d" by code_simp
  from Parse_wellformed [OF run] run show ?thesis by auto
qed

section \<open>Image names\<close>

text \<open>Cutting a text at the first occurrence of a character.\<close>

lemma Cut_char: "Cut s [c] = (if c \<in> set s then Some (takeWhile (\<lambda>x. x \<noteq> c) s, tl (dropWhile (\<lambda>x. x \<noteq> c) s)) else None)"
  by (induction s) (auto simp: HasPrefix_def)

lemma strip_oci: "strip_scheme (''pkg:oci/'' @ x) = x"
  by (simp add: strip_scheme_def Cut_char HasPrefix_def)

lemma strip_plain: "\<not> HasPrefix x ''pkg:'' \<Longrightarrow> strip_scheme x = x"
  by (simp add: strip_scheme_def split: option.split)

lemma takeWhile_stop: "\<forall>c \<in> set x. P c \<Longrightarrow> suf = [] \<or> \<not> P (hd suf) \<Longrightarrow> takeWhile P (x @ suf) = x"
  by (cases suf) (simp_all add: takeWhile_append2)

lemma after_last_append: "c \<notin> set y \<Longrightarrow> after_last c (x @ y) = after_last c x @ y"
  unfolding after_last_def rev_append by (subst takeWhile_append2) auto

lemma before_last_tag:
  assumes "c \<notin> set x" "c \<notin> set t" "y = [] \<or> y = c # t"
  shows "before_last c (x @ y) = x"
proof -
  have "dropWhile (\<lambda>z. z \<noteq> c) (rev (x @ c # t)) = c # rev x"
    unfolding rev_append rev.simps append_assoc using assms(2) by (subst dropWhile_append2) auto
  then have "before_last c (x @ c # t) = x" unfolding before_last_def by (simp only: list.sel rev_rev_ident) simp
  with assms(1,3) show ?thesis by (metis append_Nil2 before_last_def)
qed

lemma notin_tag: "c \<notin> set t \<Longrightarrow> c \<noteq> d \<Longrightarrow> tag = [] \<or> tag = d # t \<Longrightarrow> c \<notin> set tag"
  by auto

lemma ball_tag: "tag = [] \<or> tag = d # t \<Longrightarrow> \<forall>c \<in> set x. P c \<Longrightarrow> \<forall>c \<in> set t. P c \<Longrightarrow> P d \<Longrightarrow> \<forall>c \<in> set (x @ tag). P c"
  by auto

text \<open>
  A document that names an image by its pull path, with or without the scheme of a package URL, a tag, a
  version and qualifiers, is matched with that image: the key the parser takes from such a product
  is the key the queries compute from the tracked repository.
\<close>

theorem repoKeyOf_tracked:
  assumes "repo \<noteq> []" and "\<forall>c \<in> set repo. c \<noteq> CHR ''?'' \<and> c \<noteq> CHR ''@''" and "CHR '':'' \<notin> set (after_last (CHR ''/'') repo)"
    and "TrimSpace (after_last (CHR ''/'') repo) = after_last (CHR ''/'') repo"
    and "\<forall>c \<in> set t. c \<noteq> CHR ''?'' \<and> c \<noteq> CHR ''@'' \<and> c \<noteq> CHR '':'' \<and> c \<noteq> CHR ''/''"
    and "suf = [] \<or> hd suf = CHR ''?'' \<or> hd suf = CHR ''@''" and "tag = [] \<or> tag = CHR '':'' # t"
    and "scheme = ''pkg:oci/'' \<or> scheme = [] \<and> \<not> HasPrefix (repo @ tag @ suf) ''pkg:''"
    and "rp_ID p = scheme @ repo @ tag @ suf"
  shows "vexRepoKey repo = Some (repoKeyOf p)"
proof -
  have "strip_scheme (rp_ID p) = (repo @ tag) @ suf"
    using assms(8)
  proof
    assume "scheme = ''pkg:oci/''"
    then show ?thesis unfolding assms(9) by (simp only: strip_oci append_assoc)
  next
    assume "scheme = [] \<and> \<not> HasPrefix (repo @ tag @ suf) ''pkg:''"
    then show ?thesis unfolding assms(9) by (simp add: strip_plain)
  qed
  moreover have "takeWhile (\<lambda>c. c \<noteq> CHR ''?'' \<and> c \<noteq> CHR ''@'') ((repo @ tag) @ suf) = repo @ tag"
  proof (rule takeWhile_stop)
    show "\<forall>c \<in> set (repo @ tag). c \<noteq> CHR ''?'' \<and> c \<noteq> CHR ''@''"
      by (rule ball_tag [OF assms(7,2)]) (use assms(5) in blast, simp)
    show "suf = [] \<or> \<not> (hd suf \<noteq> CHR ''?'' \<and> hd suf \<noteq> CHR ''@'')" using assms(6) by blast
  qed
  moreover have "after_last (CHR ''/'') (repo @ tag) = after_last (CHR ''/'') repo @ tag"
    by (rule after_last_append) (rule notin_tag [OF _ _ assms(7)], use assms(5) in blast, simp)
  moreover have "before_last (CHR '':'') (after_last (CHR ''/'') repo @ tag) = after_last (CHR ''/'') repo"
    by (rule before_last_tag [OF assms(3) _ assms(7)]) (use assms(5) in blast)
  moreover have "rp_ID p \<noteq> []" using assms(1,9) by simp
  ultimately have "repoKeyOf p = ToLower (TrimSpace (after_last (CHR ''/'') repo))" unfolding repoKeyOf_def Let_def by (simp only: if_False)
  then show ?thesis unfolding assms(4) by (simp add: vexRepoKey_def assms(1))
qed

theorem repoKeyOf_tracked_witness:
  "vexRepoKey ''ghcr.io:443/Acme/API'' = Some (repoKeyOf \<lparr>rp_ID = ''pkg:oci/ghcr.io:443/Acme/API:v2@1?arch=arm'', rp_Identifiers = [], rp_Subcomponents = []\<rparr>)"
  by (rule repoKeyOf_tracked [where t = "''v2''" and tag = "'':v2''" and suf = "''@1?arch=arm''" and scheme = "''pkg:oci/''"])
    (simp_all add: after_last_def go_string_defs is_space_def)

section \<open>Resolution\<close>

lemma last_sort_key:
  assumes "xs \<noteq> []"
  shows "last (sort_key f xs) \<in> set xs" and "x \<in> set xs \<Longrightarrow> f x \<le> f (last (sort_key f xs))"
proof -
  have ne: "sort_key f xs \<noteq> []" using assms by (metis length_0_conv length_sort)
  then show "last (sort_key f xs) \<in> set xs" by (metis last_in_set set_sort)
  assume "x \<in> set xs"
  then obtain i where i: "i < length (sort_key f xs)" "sort_key f xs ! i = x" by (metis in_set_conv_nth set_sort)
  have "map f (sort_key f xs) ! i \<le> map f (sort_key f xs) ! (length (sort_key f xs) - 1)"
    using i(1) by (intro sorted_nth_mono) (auto simp del: nth_map)
  then show "f x \<le> f (last (sort_key f xs))" using i ne by (simp add: last_conv_nth)
qed

lemma vex_resolved_None: "vex_resolved vs sb cve = None \<longleftrightarrow> (\<forall>v \<in> set vs. \<not> vex_applies sb cve v)"
proof -
  have "sort_key vex_rank xs = [] \<longleftrightarrow> xs = []" for xs by (metis length_0_conv length_sort)
  then have "vex_resolved vs sb cve = None \<longleftrightarrow> filter (vex_applies sb cve) vs = []" unfolding vex_resolved_def by (metis list.exhaust list.simps(4) list.simps(5) option.distinct(1))
  then show ?thesis by (simp add: filter_empty_conv)
qed

lemma vex_resolved_Some:
  assumes "vex_resolved vs sb cve = Some v"
  shows "v \<in> set vs" "vex_applies sb cve v" "w \<in> set vs \<Longrightarrow> vex_applies sb cve w \<Longrightarrow> vex_rank w \<le> vex_rank v"
proof -
  have ne: "filter (vex_applies sb cve) vs \<noteq> []" using assms vex_resolved_None [of vs sb cve] by (auto simp: filter_empty_conv)
  then have v: "v = last (sort_key vex_rank (filter (vex_applies sb cve) vs))" using assms by (auto simp: vex_resolved_def split: list.splits)
  show "v \<in> set vs" "vex_applies sb cve v" using last_sort_key(1) [OF ne, of vex_rank] by (auto simp flip: v)
  show "vex_rank w \<le> vex_rank v" if "w \<in> set vs" "vex_applies sb cve w" using last_sort_key(2) [OF ne, of w vex_rank] that by (simp flip: v)
qed

text \<open>With distinct identifiers the highest statement is the only one.\<close>

lemma vex_resolved_eq:
  assumes "distinct_key vs_id vs" "v \<in> set vs" "vex_applies sb cve v" "\<And>w. w \<in> set vs \<Longrightarrow> vex_applies sb cve w \<Longrightarrow> vex_rank w \<le> vex_rank v"
  shows "vex_resolved vs sb cve = Some v"
proof -
  obtain u where u: "vex_resolved vs sb cve = Some u" using assms(2,3) vex_resolved_None [of vs sb cve] by (cases "vex_resolved vs sb cve") auto
  note max = vex_resolved_Some [OF u]
  have "vex_rank u = vex_rank v" using assms(4) [OF max(1,2)] max(3) [OF assms(2,3)] by simp
  then have "vs_id u = vs_id v" by (simp add: vex_rank_def)
  with assms(1,2) max(1) have "u = v" by (auto simp: distinct_key_def distinct_map inj_on_def)
  with u show ?thesis by simp
qed

text \<open>
  C32. The status of a finding is decided by one of the statements of its account that apply to it, when
  there is one: a statement about the image's digest before every statement about its name,
  whichever is newer, and among those of the same kind the newest.
\<close>

theorem vex_resolution:
  "(vex_resolved vs sb cve = None \<longleftrightarrow> (\<forall>v \<in> set vs. \<not> vex_applies sb cve v)) \<and>
   (\<forall>v. vex_resolved vs sb cve = Some v \<longrightarrow> v \<in> set vs \<and> vex_applies sb cve v \<and> vs_tenant v = TenantID sb \<and>
     (\<forall>w \<in> set vs. vex_applies sb cve w \<longrightarrow> (vs_digest w \<noteq> None \<longrightarrow> vs_digest v \<noteq> None) \<and>
       ((vs_digest w = None \<longleftrightarrow> vs_digest v = None) \<longrightarrow> vs_created w < vs_created v \<or> vs_created w = vs_created v \<and> vs_id w \<le> vs_id v)))"
proof (intro conjI allI impI)
  show "vex_resolved vs sb cve = None \<longleftrightarrow> (\<forall>v \<in> set vs. \<not> vex_applies sb cve v)" by (rule vex_resolved_None)
  fix v assume v: "vex_resolved vs sb cve = Some v"
  note top = vex_resolved_Some [OF v]
  show "v \<in> set vs" "vex_applies sb cve v" by (rule top)+
  then show "vs_tenant v = TenantID sb" by (simp add: vex_applies_def)
  show "\<forall>w \<in> set vs. vex_applies sb cve w \<longrightarrow> (vs_digest w \<noteq> None \<longrightarrow> vs_digest v \<noteq> None) \<and>
       ((vs_digest w = None \<longleftrightarrow> vs_digest v = None) \<longrightarrow> vs_created w < vs_created v \<or> vs_created w = vs_created v \<and> vs_id w \<le> vs_id v)"
    using top(3) by (fastforce simp: vex_rank_def)
qed

definition demo_image :: sbom_row where
  "demo_image = new_row \<lparr>ID = ''i'', TenantID = ''a'', ImageRef = ''ghcr.io/acme/api:1'', Repository = ''ghcr.io/acme/api'', SBOMVersion = ''1'',
     Digest = ''sha256:1'', Format = ''spdx'', SpecVersion = [], Tool = [], ToolVersion = [], PackageCount = 0, ObjectPath = ''o'',
     VerificationStatus = [], Status = ''active'', Labels = [], GeneratedAt = 0, SubmittedAt = 0\<rparr> 0"

definition demo_statement :: "nat \<Rightarrow> string option \<Rightarrow> string option \<Rightarrow> string \<Rightarrow> vex_statement" where
  "demo_statement i digest repo status =
     \<lparr>vs_id = i, vs_tenant = ''a'', vs_document = ''d'', vs_digest = digest, vs_repo = repo, vs_vulnerability = ''CVE-1'', vs_subcomponent = None,
      vs_status = status, vs_justification = None, vs_impact = None, vs_timestamp = None, vs_created = int i\<rparr>"

theorem vex_resolution_witness:
  "\<exists>v. vex_resolved [demo_statement 0 (Some ''sha256:1'') None StatusAffected, demo_statement 1 None (Some ''api'') StatusFixed] demo_image ''CVE-1'' = Some v \<and>
     vs_digest v \<noteq> None"
proof -
  let ?vs = "[demo_statement 0 (Some ''sha256:1'') None StatusAffected, demo_statement 1 None (Some ''api'') StatusFixed]"
  have a: "vex_applies demo_image ''CVE-1'' (demo_statement 0 (Some ''sha256:1'') None StatusAffected)"
    by (simp add: vex_applies_def demo_statement_def demo_image_def new_row_def)
  note vex_resolution [of ?vs demo_image "''CVE-1''"]
  with a obtain v where "vex_resolved ?vs demo_image ''CVE-1'' = Some v"
    "\<forall>w \<in> set ?vs. vex_applies demo_image ''CVE-1'' w \<longrightarrow> (vs_digest w \<noteq> None \<longrightarrow> vs_digest v \<noteq> None)" by fastforce
  with a show ?thesis by (intro exI [of _ v]) (simp add: demo_statement_def)
qed

section \<open>Saving a document\<close>

fun stored_statements :: "(string \<Rightarrow> time option) \<Rightarrow> string \<Rightarrow> string \<Rightarrow> time \<Rightarrow> nat \<Rightarrow> Statement list \<Rightarrow> vex_statement list" where
  "stored_statements tz t doc now i [] = []"
| "stored_statements tz t doc now i (st # sts) = new_statement tz t doc now st i # stored_statements tz t doc now (Suc i) sts"

definition vex_inv :: "platform \<Rightarrow> bool" where
  "vex_inv s \<longleftrightarrow> distinct_key vs_id (vex_statements s) \<and>
     list_all (\<lambda>v. vs_id v < next_statement s \<and> (vs_digest v = None \<longleftrightarrow> vs_repo v \<noteq> None)) (vex_statements s)"

lemma count_matches_Inr:
  "count_matches t sts k e n s = (Inr m, n', s') \<Longrightarrow> s' = s \<and> m = k + length (filter (\<lambda>st. statement_hits t st (catalog s)) sts)"
  by (induction sts arbitrary: k n) (auto simp: db_bind_Inr db_read_Inr split: if_splits, fastforce+)

lemma insert_statements:
  "db_foreach sts (\<lambda>st. db_stmt w (\<lambda>_. insert_statement tz t doc now st)) e n s = (Inr u, n', s') \<Longrightarrow>
     s' = s\<lparr>vex_statements := vex_statements s @ stored_statements tz t doc now (next_statement s) sts, next_statement := next_statement s + length sts\<rparr>"
proof (induction sts arbitrary: n s)
  case (Cons st sts)
  then obtain n1 s1 where "fst (insert_statement tz t doc now st s) = Inr ()" and s1: "snd (insert_statement tz t doc now st s) = s1"
    and rest: "db_foreach sts (\<lambda>st. db_stmt w (\<lambda>_. insert_statement tz t doc now st)) e n1 s1 = (Inr u, n', s')"
    by (auto simp: db_bind_Inr db_stmt_Inr)
  then have "s1 = s\<lparr>vex_statements := vex_statements s @ [new_statement tz t doc now st (next_statement s)], next_statement := Suc (next_statement s)\<rparr>"
    by (auto simp: insert_statement_def split: if_splits)
  with Cons.IH [OF rest] show ?case by simp
qed simp

lemma saveVEXDocument_Inr:
  assumes "saveVEXDocument tz now t doc d e n s = (Inr m, n', s')"
  shows "m = length (filter (\<lambda>st. statement_hits t st (catalog s)) (Statements d))"
    and "vex_statements s' = vex_statements s @ stored_statements tz t doc now (next_statement s) (Statements d)"
    and "next_statement s' = next_statement s + length (Statements d)" and "catalog s' = catalog s" and "audit s' = audit s"
proof -
  from assms obtain n1 n2 n3 s1 s2 where c: "count_matches t (Statements d) 0 e n s = (Inr m, n1, s1)"
    and doc: "wrap_result ''insert vex document: '' (insert_document \<lparr>vd_id = doc, vd_tenant = t, vd_author = nullStr (Author d),
      vd_statements = length (Statements d), vd_matched = m, vd_document = Raw d, vd_created = now\<rparr> s1) = (Inr (), s2)"
    and rows: "db_foreach (Statements d) (\<lambda>st. db_stmt (Wrapf ''insert vex statement: '') (\<lambda>_. insert_statement tz t doc now st)) e n2 s2 = (Inr (), n3, s')"
    by (auto simp: saveVEXDocument_def db_bind_Inr db_stmt_Inr db_write_Inr)
  from count_matches_Inr [OF c] have c': "s1 = s" "m = length (filter (\<lambda>st. statement_hits t st (catalog s)) (Statements d))" by auto
  then show "m = length (filter (\<lambda>st. statement_hits t st (catalog s)) (Statements d))" by simp
  from doc have "vex_statements s2 = vex_statements s" "next_statement s2 = next_statement s" "catalog s2 = catalog s" "audit s2 = audit s"
    by (auto simp: c' wrap_result_Inr insert_document_def split: if_splits)
  with insert_statements [OF rows] show "vex_statements s' = vex_statements s @ stored_statements tz t doc now (next_statement s) (Statements d)"
    "next_statement s' = next_statement s + length (Statements d)" "catalog s' = catalog s" "audit s' = audit s" by simp_all
qed

text \<open>What the statements of a document say about a finding.\<close>

definition pins :: "sbom_row \<Rightarrow> string \<Rightarrow> Statement \<Rightarrow> bool" where
  "pins sb cve st = (Vulnerability st = cve \<and> ProductDigest st \<noteq> [] \<and> ProductDigest st = Digest sb)"

definition covers :: "sbom_row \<Rightarrow> string \<Rightarrow> Statement \<Rightarrow> bool" where
  "covers sb cve st = (Vulnerability st = cve \<and> ProductRepo st \<noteq> [] \<and> vexRepoKey (Repository sb) = Some (ProductRepo st))"

lemma applies_new:
  assumes "one_scope st"
  shows "vex_applies sb cve (new_statement tz t doc now st i) \<and> vs_digest (new_statement tz t doc now st i) \<noteq> None \<longleftrightarrow> t = TenantID sb \<and> pins sb cve st"
    and "vex_applies sb cve (new_statement tz t doc now st i) \<and> vs_digest (new_statement tz t doc now st i) = None \<longleftrightarrow> t = TenantID sb \<and> covers sb cve st"
  using assms by (auto simp: vex_applies_def new_statement_def nullStr_def pins_def covers_def one_scope_def split: if_splits)

lemma stored_ids: "map vs_id (stored_statements tz t doc now i sts) = [i ..< i + length sts]"
  by (induction sts arbitrary: i) (simp_all add: new_statement_def upt_rec)

lemma stored_in: "v \<in> set (stored_statements tz t doc now i sts) \<Longrightarrow> \<exists>st \<in> set sts. \<exists>j. v = new_statement tz t doc now st j"
  by (induction sts arbitrary: i) auto

lemma filter_stored:
  "(\<And>st j. st \<in> set sts \<Longrightarrow> Q (new_statement tz t doc now st j) \<longleftrightarrow> P st) \<Longrightarrow>
     map vs_status (filter Q (stored_statements tz t doc now i sts)) = map StatementStatus (filter P sts)"
  by (induction sts arbitrary: i) (auto simp: new_statement_def)

lemma last_filter_id:
  assumes "sorted (map vs_id ns)" "w \<in> set ns" "Q w"
  shows "vs_id w \<le> vs_id (last (filter Q ns))" and "last (filter Q ns) \<in> set ns" and "Q (last (filter Q ns))"
proof -
  have ne: "filter Q ns \<noteq> []" using assms(2,3) by (auto simp: filter_empty_conv)
  then show "last (filter Q ns) \<in> set ns" "Q (last (filter Q ns))" using last_in_set by fastforce+
  have s: "sorted (map vs_id (filter Q ns))" using assms(1) by (rule sorted_filter)
  from assms(2,3) have "w \<in> set (filter Q ns)" by simp
  then obtain k where k: "k < length (filter Q ns)" "filter Q ns ! k = w" by (metis in_set_conv_nth)
  have "map vs_id (filter Q ns) ! k \<le> map vs_id (filter Q ns) ! (length (filter Q ns) - 1)"
    using k(1) by (intro sorted_nth_mono [OF s]) auto
  then show "vs_id w \<le> vs_id (last (filter Q ns))" using k ne by (simp add: last_conv_nth)
qed

text \<open>Later statements against earlier ones: the last of the highest kind decides, and statements by
  name change nothing when an earlier one names the digest.\<close>

definition newer :: "vex_statement list \<Rightarrow> vex_statement list \<Rightarrow> bool" where
  "newer vs ns \<longleftrightarrow> distinct_key vs_id (vs @ ns) \<and> sorted (map vs_id ns) \<and>
     (\<exists>now i. (\<forall>v \<in> set vs. vs_created v \<le> now \<and> vs_id v < i) \<and> (\<forall>v \<in> set ns. vs_created v = now \<and> i \<le> vs_id v))"

lemma vex_resolved_newest:
  assumes "newer vs ns" and w: "w \<in> set ns" "vex_applies sb cve w" "(vs_digest w \<noteq> None) = b"
    and top: "\<And>v. v \<in> set (vs @ ns) \<Longrightarrow> vex_applies sb cve v \<Longrightarrow> vs_digest v \<noteq> None \<Longrightarrow> b"
  shows "vex_resolved (vs @ ns) sb cve = Some (last (filter (\<lambda>v. vex_applies sb cve v \<and> (vs_digest v \<noteq> None) = b) ns))"
    (is "_ = Some ?v")
proof -
  from assms(1) obtain now i where d: "distinct_key vs_id (vs @ ns)" and srt: "sorted (map vs_id ns)"
    and old: "\<And>v. v \<in> set vs \<Longrightarrow> vs_created v \<le> now \<and> vs_id v < i" and new: "\<And>v. v \<in> set ns \<Longrightarrow> vs_created v = now \<and> i \<le> vs_id v"
    unfolding newer_def by blast
  have v: "?v \<in> set ns" "vex_applies sb cve ?v" "(vs_digest ?v \<noteq> None) = b"
    using last_filter_id(2,3) [OF srt w(1), of "\<lambda>v. vex_applies sb cve v \<and> (vs_digest v \<noteq> None) = b"] w by auto
  show ?thesis
  proof (rule vex_resolved_eq [OF d])
    fix u assume u: "u \<in> set (vs @ ns)" "vex_applies sb cve u"
    have "vs_created u \<le> vs_created ?v \<and> (vs_created u = vs_created ?v \<and> (vs_digest u \<noteq> None) = b \<longrightarrow> vs_id u \<le> vs_id ?v)"
    proof (cases "u \<in> set vs")
      case True
      with old [of u] new [OF v(1)] show ?thesis by auto
    next
      case False
      with u have "u \<in> set ns" by simp
      with last_filter_id(1) [OF srt, of u "\<lambda>v. vex_applies sb cve v \<and> (vs_digest v \<noteq> None) = b"] new [of u] new [OF v(1)] u show ?thesis by auto
    qed
    then show "vex_rank u \<le> vex_rank ?v" using top [OF u] v(3) by (cases b; cases "vs_digest u") (auto simp: vex_rank_def)
  qed (use v in simp_all)
qed

lemma vex_resolved_kept:
  assumes "newer vs ns" and ns: "\<forall>v \<in> set ns. vex_applies sb cve v \<longrightarrow> vs_digest v = None \<and> (\<exists>u \<in> set vs. vex_applies sb cve u \<and> vs_digest u \<noteq> None)"
  shows "vex_resolved (vs @ ns) sb cve = vex_resolved vs sb cve"
proof (cases "vex_resolved vs sb cve")
  case None
  with ns have "vex_resolved (vs @ ns) sb cve = None" by (auto simp: vex_resolved_None)
  with None show ?thesis by simp
next
  case (Some v)
  note top = vex_resolved_Some [OF Some]
  have "vex_resolved (vs @ ns) sb cve = Some v"
  proof (rule vex_resolved_eq)
    show "distinct_key vs_id (vs @ ns)" using assms(1) by (simp add: newer_def)
    show "v \<in> set (vs @ ns)" "vex_applies sb cve v" using top by simp_all
    fix w assume w: "w \<in> set (vs @ ns)" "vex_applies sb cve w"
    show "vex_rank w \<le> vex_rank v"
    proof (cases "w \<in> set vs")
      case False
      with w ns obtain u where "vs_digest w = None" "u \<in> set vs" "vex_applies sb cve u" "vs_digest u \<noteq> None" by auto
      with top(3) [of u] show ?thesis by (auto simp: vex_rank_def)
    qed (use top w in blast)
  qed
  with Some show ?thesis by simp
qed

lemma newer_stored:
  assumes "vex_inv s" and "\<forall>v \<in> set (vex_statements s). vs_created v \<le> now"
  shows "newer (vex_statements s) (stored_statements tz t doc now (next_statement s) sts)"
proof -
  let ?ns = "stored_statements tz t doc now (next_statement s) sts"
  have ids: "\<forall>v \<in> set ?ns. vs_created v = now \<and> next_statement s \<le> vs_id v"
  proof
    fix v assume v: "v \<in> set ?ns"
    then have "vs_id v \<in> set (map vs_id ?ns)" by simp
    with v show "vs_created v = now \<and> next_statement s \<le> vs_id v" by (auto simp: stored_ids new_statement_def dest!: stored_in)
  qed
  moreover have "distinct_key vs_id (vex_statements s @ ?ns)"
    using assms(1) ids by (fastforce simp: vex_inv_def distinct_key_def stored_ids list_all_iff)
  ultimately show ?thesis using assms by (fastforce simp: newer_def stored_ids vex_inv_def list_all_iff)
qed

lemma stored_filter:
  assumes "list_all one_scope sts"
  shows "map vs_status (filter (\<lambda>v. vex_applies sb cve v \<and> (vs_digest v \<noteq> None) = b) (stored_statements tz t doc now i sts)) =
    map StatementStatus (filter (\<lambda>st. t = TenantID sb \<and> (if b then pins sb cve st else covers sb cve st)) sts)"
  using assms applies_new by (intro filter_stored) (cases b; auto simp: list_all_iff)

lemma resolved_newest:
  assumes ns: "ns = stored_statements tz t doc now i sts" and "newer vs ns" and "list_all one_scope sts" "t = TenantID sb"
    and P: "P = (if b then pins sb cve else covers sb cve)" and "list_ex P sts"
    and top: "\<And>v. v \<in> set (vs @ ns) \<Longrightarrow> vex_applies sb cve v \<Longrightarrow> vs_digest v \<noteq> None \<Longrightarrow> b"
  shows "map_option vs_status (vex_resolved (vs @ ns) sb cve) = Some (StatementStatus (last (filter P sts)))"
proof -
  let ?F = "filter (\<lambda>v. vex_applies sb cve v \<and> (vs_digest v \<noteq> None) = b) ns"
  have F: "map vs_status ?F = map StatementStatus (filter P sts)" using stored_filter [OF assms(3), of sb cve b tz t doc now i] assms(4) by (cases b) (simp_all add: P ns)
  have ne: "filter P sts \<noteq> []" using assms(6) by (auto simp: list_ex_iff filter_empty_conv)
  with F have ne': "?F \<noteq> []" by (metis map_is_Nil_conv)
  then obtain w where w: "w \<in> set ns" "vex_applies sb cve w" "(vs_digest w \<noteq> None) = b" by (auto simp: filter_empty_conv)
  have "vex_resolved (vs @ ns) sb cve = Some (last ?F)" by (rule vex_resolved_newest [OF assms(2) w]) (rule top)
  then have "map_option vs_status (vex_resolved (vs @ ns) sb cve) = Some (vs_status (last ?F))" by simp
  moreover have "vs_status (last ?F) = last (map vs_status ?F)" "StatementStatus (last (filter P sts)) = last (map StatementStatus (filter P sts))"
    using ne ne' by (simp_all add: last_map)
  ultimately show ?thesis using F by simp
qed

lemma pinned_stored:
  "list_all one_scope sts \<Longrightarrow> v \<in> set (stored_statements tz t doc now i sts) \<Longrightarrow> vex_applies sb cve v \<Longrightarrow>
     (if vs_digest v = None then TenantID sb = t \<and> list_ex (covers sb cve) sts else TenantID sb = t \<and> list_ex (pins sb cve) sts)"
proof (drule stored_in, elim bexE exE)
  fix st j assume "list_all one_scope sts" and a: "vex_applies sb cve v" and st: "st \<in> set sts" "v = new_statement tz t doc now st j"
  then have "one_scope st" by (simp add: list_all_iff)
  from applies_new [OF this, of sb cve tz t doc now j] a st show ?thesis by (auto simp: list_ex_iff)
qed

lemma resolved_statements:
  assumes ns: "ns = stored_statements tz t doc now i sts" and "newer vs ns" and "list_all one_scope sts"
  shows "map_option vs_status (vex_resolved (vs @ ns) sb cve) =
      (if TenantID sb = t \<and> list_ex (pins sb cve) sts then Some (StatementStatus (last (filter (pins sb cve) sts)))
       else if TenantID sb = t \<and> list_ex (covers sb cve) sts \<and> \<not> list_ex (\<lambda>v. vex_applies sb cve v \<and> vs_digest v \<noteq> None) vs
       then Some (StatementStatus (last (filter (covers sb cve) sts)))
       else map_option vs_status (vex_resolved vs sb cve))"
proof -
  note stored = pinned_stored [OF assms(3), where sb = sb and cve = cve, of _ tz t doc now i, folded ns]
  consider (pinned) "TenantID sb = t" "list_ex (pins sb cve) sts"
    | (named) "TenantID sb = t" "list_ex (covers sb cve) sts" "\<not> list_ex (pins sb cve) sts" "\<not> list_ex (\<lambda>v. vex_applies sb cve v \<and> vs_digest v \<noteq> None) vs"
    | (same) "\<not> (TenantID sb = t \<and> list_ex (pins sb cve) sts)"
      "\<not> (TenantID sb = t \<and> list_ex (covers sb cve) sts \<and> \<not> list_ex (\<lambda>v. vex_applies sb cve v \<and> vs_digest v \<noteq> None) vs)" by blast
  then show ?thesis
  proof cases
    case pinned
    then show ?thesis using resolved_newest [OF assms, where sb = sb and cve = cve and P = "pins sb cve" and b = True] by simp
  next
    case named
    have "False" if "v \<in> set (vs @ ns)" "vex_applies sb cve v" "vs_digest v \<noteq> None" for v
      using that named stored [of v] by (auto simp: list_ex_iff)
    then have "map_option vs_status (vex_resolved (vs @ ns) sb cve) = Some (StatementStatus (last (filter (covers sb cve) sts)))"
      by (intro resolved_newest [OF assms, where b = False]) (use named in simp_all)
    with named show ?thesis by simp
  next
    case same
    have "vs_digest v = None \<and> (\<exists>u \<in> set vs. vex_applies sb cve u \<and> vs_digest u \<noteq> None)" if "v \<in> set ns" "vex_applies sb cve v" for v
      using stored [OF that] same by (auto simp: list_ex_iff split: if_splits)
    then have "vex_resolved (vs @ ns) sb cve = vex_resolved vs sb cve" by (intro vex_resolved_kept [OF assms(2)]) blast
    with same show ?thesis by (simp only: if_False)
  qed
qed

lemma vex_inv_stored:
  assumes "vex_inv s" "list_all one_scope sts" and nw: "newer (vex_statements s) (stored_statements tz t doc now (next_statement s) sts)"
    and eff: "vex_statements s' = vex_statements s @ stored_statements tz t doc now (next_statement s) sts" "next_statement s' = next_statement s + length sts"
  shows "vex_inv s'"
proof -
  have "vs_id v < next_statement s' \<and> (vs_digest v = None \<longleftrightarrow> vs_repo v \<noteq> None)"
    if v: "v \<in> set (stored_statements tz t doc now (next_statement s) sts)" for v
  proof -
    from v have "vs_id v \<in> set (map vs_id (stored_statements tz t doc now (next_statement s) sts))" by simp
    then have "vs_id v < next_statement s'" by (simp add: stored_ids eff(2))
    moreover from stored_in [OF v] assms(2) have "vs_digest v = None \<longleftrightarrow> vs_repo v \<noteq> None"
      by (auto simp: list_all_iff one_scope_def new_statement_def nullStr_def)
    ultimately show ?thesis by simp
  qed
  moreover have "distinct_key vs_id (vex_statements s')" using nw by (simp add: newer_def eff(1))
  ultimately show ?thesis using assms(1) by (fastforce simp: vex_inv_def eff list_all_iff)
qed

text \<open>
  C33. Saving a document. The number returned is that of the statements that concern a finding of one of the
  account's images. Afterwards, for every image of the account and every vulnerability, the last
  statement of the document about the image's digest decides; without one, the last statement about
  its name, unless an earlier statement names the digest; and otherwise the status is what it was. The
  status of a finding of another account does not change.
\<close>

theorem SaveVEXDocument_decides:
  assumes "SaveVEXDocument tz random t d e n s = (Inr (doc, matched), n', s')" and inv: "vex_inv s"
    and "\<forall>v \<in> set (vex_statements s). vs_created v \<le> clock e n" and one: "list_all one_scope (Statements d)"
  shows "vex_inv s' \<and> matched = length (filter (\<lambda>st. statement_hits t st (catalog s)) (Statements d)) \<and>
    map_option vs_status (vex_resolved (vex_statements s') sb cve) =
      (if TenantID sb = t \<and> list_ex (pins sb cve) (Statements d) then Some (StatementStatus (last (filter (pins sb cve) (Statements d))))
       else if TenantID sb = t \<and> list_ex (covers sb cve) (Statements d) \<and>
         \<not> list_ex (\<lambda>v. vex_applies sb cve v \<and> vs_digest v \<noteq> None) (vex_statements s)
       then Some (StatementStatus (last (filter (covers sb cve) (Statements d))))
       else map_option vs_status (vex_resolved (vex_statements s) sb cve))"
proof -
  from assms(1) obtain n1 n2 where run: "saveVEXDocument tz (clock e n) t doc d e n1 s = (Inr matched, n2, s')"
    by (auto simp: SaveVEXDocument_def db_bind_Inr db_lift_Inr db_tx_Inr)
  let ?ns = "stored_statements tz t doc (clock e n) (next_statement s) (Statements d)"
  note eff = saveVEXDocument_Inr [OF run]
  have nw: "newer (vex_statements s) ?ns" by (rule newer_stored [OF inv assms(3)])
  moreover have "vex_inv s'" by (rule vex_inv_stored [OF inv one nw eff(2,3)])
  ultimately show ?thesis using eff(1) resolved_statements [OF refl nw one] unfolding eff(2) by blast
qed

definition demo_platform :: platform where
  "demo_platform = empty_platform\<lparr>
     accounts := [\<lparr>a_ID = ''a'', a_Name = ''Acme'', a_Plan = ''free'', a_Status = ''active'', a_MinSeverity = ''medium'', a_CreatedAt = 0, a_UpdatedAt = 0,
       t_email = ''ann@x.io'', t_email_verified_at = None, t_avatar_url = [], t_tos_accepted_at = None\<rparr>],
     catalog := empty_store\<lparr>sboms := [demo_image], findings := [\<lparr>f_sbom = ''i'', f_scanner = ''grype'', f_id = ''f'', f_vuln =
       \<lparr>Exposure = ''CVE-1'', Package = ''p'', Version = ''1'', Severity = ''high'', Score = 7, IsFixed = False\<rparr>, f_updated_at = 0\<rparr>]\<rparr>,
     vex_statements := [demo_statement 0 (Some ''sha256:1'') None StatusAffected], next_statement := 1\<rparr>"

definition demo_document :: Document where
  "demo_document = \<lparr>Author = ''ann'', Raw = ''{}'', Statements =
     [\<lparr>ProductDigest = ''sha256:1'', ProductRepo = [], Vulnerability = ''CVE-1'', Subcomponent = [], StatementStatus = StatusFixed,
       Justification = [], ImpactStatement = [], Timestamp = []\<rparr>], Skipped = 0\<rparr>"

theorem SaveVEXDocument_decides_witness:
  "\<exists>doc n' s'. SaveVEXDocument (\<lambda>_. None) (Inr (replicate 16 0)) ''a'' demo_document (calm_env 5) 0 demo_platform = (Inr (doc, 1), n', s') \<and>
     map_option vs_status (vex_resolved (vex_statements s') demo_image ''CVE-1'') = Some StatusFixed \<and> vex_inv s'"
proof -
  have "fst (SaveVEXDocument (\<lambda>_. None) (Inr (replicate 16 0)) ''a'' demo_document (calm_env 5) 0 demo_platform) =
      Inr (''00000000-0000-4000-8000-000000000000'', 1)" by code_simp
  then obtain n' s' where run: "SaveVEXDocument (\<lambda>_. None) (Inr (replicate 16 0)) ''a'' demo_document (calm_env 5) 0 demo_platform =
      (Inr (''00000000-0000-4000-8000-000000000000'', 1), n', s')" by (metis prod.collapse)
  have inv: "vex_inv demo_platform" by (simp add: vex_inv_def demo_platform_def demo_statement_def)
  have "\<forall>v \<in> set (vex_statements demo_platform). vs_created v \<le> clock (calm_env 5) 0" by (simp add: demo_platform_def demo_statement_def)
  from SaveVEXDocument_decides [OF run inv this, of demo_image "''CVE-1''"] run show ?thesis
    by (auto simp: demo_document_def one_scope_def pins_def demo_image_def new_row_def)
qed

end
