(* ===== verification/Catalog.thy ===== *)
theory Catalog
  imports Apply_Scan Enrichment
begin

text \<open>
  The tables of SBOMs and findings under every sequence of operations that change them: scans, submissions,
  activation, archiving and deletion of SBOMs, recomputed rollups, recorded failures and risk context.
  Shown: whatever they do and wherever they fail, the rollup of an SBOM holds the counts over its
  findings (\<open>applyscan.go\<close> and migration 015 promise it). The rollup's count of known exploited
  vulnerabilities is that of the last scan, since the catalog of these changes on its own.
\<close>

section \<open>Rollups and findings\<close>

text \<open>A rollup without the columns that age.\<close>

definition rollup_counts :: "rollup_row \<Rightarrow> rollup_row" where
  "rollup_counts ro = ro\<lparr>ro_kev := 0, ro_updated_at := 0\<rparr>"

definition current_at :: "string \<Rightarrow> store \<Rightarrow> bool" where
  "current_at k s =
     (case lookup_key ro_sbom (rollups s) k of
        None \<Rightarrow> filter (\<lambda>f. f_sbom f = k) (findings s) = []
      | Some ro \<Rightarrow> rollup_counts ro = rollup_counts (rollup_of k 0 s))"

definition rollups_current :: "store \<Rightarrow> bool" where
  "rollups_current s \<longleftrightarrow> (\<forall>k. current_at k s)"

definition catalog_inv :: "store \<Rightarrow> bool" where
  "catalog_inv s \<longleftrightarrow> distinct_key ID (sboms s) \<and> distinct_key natural_key (sboms s) \<and> rollups_current s"

lemma catalog_inv_empty: "catalog_inv empty_store"
  by (simp add: catalog_inv_def rollups_current_def current_at_def empty_store_def)

lemma rollup_counts_cong:
  "filter (\<lambda>f. f_sbom f = k) (findings s) = filter (\<lambda>f. f_sbom f = k) (findings s') \<Longrightarrow>
     rollup_counts (rollup_of k t s) = rollup_counts (rollup_of k t' s')"
  by (simp add: rollup_counts_def rollup_of_def Let_def)

lemma current_at_cong:
  assumes "lookup_key ro_sbom (rollups s') k = lookup_key ro_sbom (rollups s) k"
    and "filter (\<lambda>f. f_sbom f = k) (findings s') = filter (\<lambda>f. f_sbom f = k) (findings s)"
  shows "current_at k s' = current_at k s"
  using rollup_counts_cong [OF assms(2), of 0 0] by (simp add: current_at_def assms split: option.split)

lemma rollups_current_cong: "findings s' = findings s \<Longrightarrow> rollups s' = rollups s \<Longrightarrow> rollups_current s' = rollups_current s"
  unfolding rollups_current_def using current_at_cong [of s' _ s] by simp

lemma rollups_current_put:
  assumes "\<And>k. k \<noteq> sid \<Longrightarrow> filter (\<lambda>f. f_sbom f = k) (findings s1) = filter (\<lambda>f. f_sbom f = k) (findings s)"
    and "rollups s1 = rollups s" and "rollups_current s"
  shows "rollups_current (put_rollup sid t s1)"
  unfolding rollups_current_def
proof
  fix k
  have f: "findings (put_rollup sid t s1) = findings s1" by (simp add: put_rollup_def)
  show "current_at k (put_rollup sid t s1)"
  proof (cases "k = sid")
    case True
    then show ?thesis using rollup_counts_cong [of sid s1 "put_rollup sid t s1" t 0] by (simp add: current_at_def lookup_put_rollup f)
  next
    case False
    then have "current_at k (put_rollup sid t s1) = current_at k s" using assms(1,2) by (intro current_at_cong) (simp_all add: lookup_put_rollup f)
    with assms(3) show ?thesis by (simp add: rollups_current_def)
  qed
qed

text \<open>Deleting the rows of some SBOMs.\<close>

lemma filter_kept: "(\<And>x. P x \<Longrightarrow> Q x) \<Longrightarrow> filter P (filter Q xs) = filter P xs"
  by (induction xs) auto

lemma lookup_kept: "Q k \<Longrightarrow> lookup_key key (filter (\<lambda>r. Q (key r)) rs) k = lookup_key key rs k"
  by (induction rs) auto

lemma rollups_current_filter:
  assumes "rollups_current s" and "findings s' = filter (\<lambda>f. Q (f_sbom f)) (findings s)" "rollups s' = filter (\<lambda>r. Q (ro_sbom r)) (rollups s)"
  shows "rollups_current s'"
  unfolding rollups_current_def
proof
  fix k
  show "current_at k s'"
  proof (cases "Q k")
    case True
    have "current_at k s' = current_at k s" by (rule current_at_cong, unfold assms(2,3)) (rule lookup_kept, rule True, rule filter_kept, simp add: True)
    with assms(1) show ?thesis by (simp add: rollups_current_def)
  next
    case False
    then have "lookup_key ro_sbom (rollups s') k = None" by (auto simp: lookup_key_None assms(3))
    moreover have "filter (\<lambda>f. f_sbom f = k) (findings s') = []" using False by (auto simp: filter_empty_conv assms(2))
    ultimately show ?thesis by (simp add: current_at_def)
  qed
qed

lemma rollups_current_delete: "rollups_current s \<Longrightarrow> rollups_current (delete_sboms p s)"
  by (erule rollups_current_filter [where Q = "\<lambda>k. k \<notin> set (map ID (filter p (sboms s)))"]) (simp_all add: delete_sboms_def Let_def)

section \<open>Scans\<close>

text \<open>A scan changes the findings of its SBOM only, and no SBOM row.\<close>

lemma apply_core_inputs:
  "sboms (apply_core sb scanner ver vulns now tx_now s) = sboms s"
  "policies (apply_core sb scanner ver vulns now tx_now s) = policies s"
proof -
  have "sboms (sync_findings sb scanner ver cause rid now prev inc t) = sboms t \<and> policies (sync_findings sb scanner ver cause rid now prev inc t) = policies t"
    for cause rid prev inc t
    unfolding sync_findings_def
    by (rule sync_invariant [where P = "\<lambda>t'. sboms t' = sboms t \<and> policies t' = policies t"])
      (auto simp: put_finding_def del_finding_def emit_change_def emit_event_def insert_event_def enqueue_alert_def Let_def)
  then show "sboms (apply_core sb scanner ver vulns now tx_now s) = sboms s"
    "policies (apply_core sb scanner ver vulns now tx_now s) = policies s"
    by (simp_all add: apply_core_def put_rollup_def add_run_def)
qed

lemma filter_upsert_other:
  "\<not> P r \<Longrightarrow> (\<And>x. key x = key r \<Longrightarrow> \<not> P x \<and> \<not> P (upd x)) \<Longrightarrow> filter P (upsert key upd r rs) = filter P rs"
  by (induction rs) auto

lemma sync_other_findings:
  assumes "k \<noteq> ID sb"
  shows "filter (\<lambda>f. f_sbom f = k) (findings (sync_findings sb scanner ver cause rid now prev inc s)) = filter (\<lambda>f. f_sbom f = k) (findings s)"
  unfolding sync_findings_def
proof (rule sync_invariant [where P = "\<lambda>s'. filter (\<lambda>f. f_sbom f = k) (findings s') = filter (\<lambda>f. f_sbom f = k) (findings s)"])
  show "filter (\<lambda>f. f_sbom f = k) (findings (put_finding (ID sb) scanner fid v now t)) = filter (\<lambda>f. f_sbom f = k) (findings s)"
    if "filter (\<lambda>f. f_sbom f = k) (findings t) = filter (\<lambda>f. f_sbom f = k) (findings s)" for fid v t
  proof -
    have "filter (\<lambda>f. f_sbom f = k) (upsert finding_key u \<lparr>f_sbom = ID sb, f_scanner = scanner, f_id = fid, f_vuln = v, f_updated_at = now\<rparr> fs) =
        filter (\<lambda>f. f_sbom f = k) fs" if "\<And>x. f_sbom (u x) = f_sbom x" for u and fs :: "finding_row list"
      using assms that by (intro filter_upsert_other) (auto simp: finding_key_def)
    with that show ?thesis by (simp add: put_finding_def)
  qed
  show "filter (\<lambda>f. f_sbom f = k) (findings (del_finding (ID sb) scanner fid t)) = filter (\<lambda>f. f_sbom f = k) (findings s)"
    if "filter (\<lambda>f. f_sbom f = k) (findings t) = filter (\<lambda>f. f_sbom f = k) (findings s)" for fid t
  proof -
    have "findings (del_finding (ID sb) scanner fid t) = filter (\<lambda>f. \<not> (f_sbom f = ID sb \<and> f_scanner f = scanner \<and> f_id f = fid)) (findings t)"
      by (simp add: del_finding_def)
    with that show ?thesis using assms by (simp only:) (rule trans [OF filter_kept], auto)
  qed
qed (simp_all add: sync_frames)

definition catalog_kept :: "store \<Rightarrow> store \<Rightarrow> bool" where
  "catalog_kept s s' = (catalog_inv s \<longrightarrow> catalog_inv s')"

lemma ApplyScan_kept: "db_keeps catalog_kept (ApplyScan sb scanner ver vulns)"
  unfolding db_keeps_def catalog_kept_def
proof (intro allI impI)
  fix e n s r n' s' assume run: "ApplyScan sb scanner ver vulns e n s = (r, n', s')" and inv: "catalog_inv s"
  show "catalog_inv s'"
  proof (cases r)
    case (Inl err)
    with run have "s' = s" using db_tx_Inl by (auto simp: ApplyScan_def)
    with inv show ?thesis by simp
  next
    case (Inr u)
    with run ApplyScan_success have s': "s' = apply_core sb scanner ver vulns (clock e (n + 4)) (clock e n) s" by blast
    have "rollups_current s'" unfolding s' apply_core_def
      by (rule rollups_current_put [where s = s]) (use inv in \<open>simp_all add: sync_other_findings sync_rollups add_run_def catalog_inv_def\<close>)
    with inv show ?thesis by (simp add: catalog_inv_def s' apply_core_inputs)
  qed
qed

section \<open>The other operations\<close>

lemma kept_refl: "catalog_kept s s"
  by (simp add: catalog_kept_def)

lemma kept_trans: "catalog_kept a b \<Longrightarrow> catalog_kept b c \<Longrightarrow> catalog_kept a c"
  by (simp add: catalog_kept_def)

text \<open>An operation that leaves findings and rollups alone, and the keys of the SBOM rows.\<close>

lemma kept_same:
  assumes "findings s' = findings s" "rollups s' = rollups s" "map (\<lambda>r. (ID r, natural_key r)) (sboms s') = map (\<lambda>r. (ID r, natural_key r)) (sboms s)"
  shows "catalog_kept s s'"
proof -
  from assms(3) have "map ID (sboms s') = map ID (sboms s)" "map natural_key (sboms s') = map natural_key (sboms s)"
    by (metis (no_types, lifting) comp_apply fst_conv list.map_comp map_cong snd_conv)+
  then show ?thesis using rollups_current_cong [OF assms(1,2)] by (simp add: catalog_kept_def catalog_inv_def distinct_key_def)
qed

lemma kept_frames:
  "catalog_kept s (set_status st p s)" "catalog_kept s (set_rescan sid m s)" "catalog_kept s (s\<lparr>attempts := as\<rparr>)"
  "catalog_kept s (s\<lparr>failures := fs\<rparr>)" "catalog_kept s (s\<lparr>packages := ps\<rparr>)" "catalog_kept s (put_enrichment k t r s)" "catalog_kept s (s\<lparr>tenants := ts\<rparr>)"
  by (rule kept_same; simp add: set_status_def set_rescan_def put_enrichment_def natural_key_def)+

lemma kept_delete: "catalog_kept s (delete_sboms p s)"
proof -
  have "sboms (delete_sboms p s) = filter (\<lambda>r. \<not> p r) (sboms s)" by (simp add: delete_sboms_def Let_def)
  then show ?thesis using rollups_current_delete [of s p] by (simp add: catalog_kept_def catalog_inv_def distinct_key_filter)
qed

lemma kept_insert: "catalog_kept s (snd (insert_sbom sb a b t s))"
proof (cases "lookup_key natural_key (sboms s) (TenantID sb, Digest sb, Format sb)")
  case (Some r)
  have "natural_key (resubmit sb x) = natural_key x \<and> ID (resubmit sb x) = ID x" for x by (simp add: resubmit_def natural_key_def)
  then have "map (\<lambda>r. (ID r, natural_key r)) (upsert natural_key (resubmit sb) r rs) = map (\<lambda>r. (ID r, natural_key r)) rs" if "r \<in> set rs" for rs
    using that by (induction rs) auto
  with lookup_key_Some [OF Some] have "catalog_kept s (s\<lparr>sboms := upsert natural_key (resubmit sb) r (sboms s)\<rparr>)" by (intro kept_same) simp_all
  with Some show ?thesis by (simp add: insert_sbom_def kept_refl)
next
  case None
  have r: "rollups_current (s\<lparr>sboms := rs\<rparr>) = rollups_current s" for rs by (rule rollups_current_cong) simp_all
  have "ID (new_row sb t) = ID sb" "natural_key (new_row sb t) = (TenantID sb, Digest sb, Format sb)" by (simp_all add: new_row_def natural_key_def)
  moreover have "(TenantID sb, Digest sb, Format sb) \<notin> natural_key ` set (sboms s)" using None by (simp add: lookup_key_None)
  ultimately have "catalog_kept s (s\<lparr>sboms := sboms s @ [new_row sb t]\<rparr>)" if "\<not> list_ex (\<lambda>r. ID r = ID sb) (sboms s)"
    using that by (auto simp: catalog_kept_def catalog_inv_def r list_ex_iff)
  with None show ?thesis by (simp add: insert_sbom_def kept_refl)
qed

lemma kept_recompute: "catalog_kept s (put_rollup sid t s)"
  using rollups_current_put [of sid s s t] by (auto simp: catalog_kept_def catalog_inv_def put_rollup_def)

lemmas kept_rules = db_keeps_return db_keeps_fail db_keeps_stmt db_keeps_bind [OF kept_trans] db_keeps_tx db_keeps_try db_keeps_ignore db_keeps_foreach [OF kept_trans]
  kept_insert kept_frames kept_delete kept_recompute kept_refl

section \<open>Reachable catalogs\<close>

text \<open>Accounts are rows of another component, which come, go and change their status.\<close>

inductive catalog_step :: "store \<Rightarrow> store \<Rightarrow> bool" where
  scan: "ApplyScan sb scanner ver vulns e n s = (r, n', s') \<Longrightarrow> catalog_step s s'"
| sbom: "sbom_step s s' \<Longrightarrow> catalog_step s s'"
| recompute: "RecomputeSBOMRollup sid e n s = (r, n', s') \<Longrightarrow> catalog_step s s'"
| failure: "RecordScanFailure sid scanner stage cause e n s = (r, n', s') \<Longrightarrow> catalog_step s s'"
| attempt: "RecordScannerAttemptFailure oor sid scanner msg e n s = (r, n', s') \<Longrightarrow> catalog_step s s'"
| clear: "ClearScannerAttempt sid scanner e n s = (r, n', s') \<Longrightarrow> catalog_step s s'"
| packages: "UpsertSBOMPackages sid pkgs e n s = (r, n', s') \<Longrightarrow> catalog_step s s'"
| accounts: "catalog_step s (s\<lparr>tenants := ts\<rparr>)"
| enrich: "UpsertCVEEnrichment recs auth e n s = (r, n', s') \<Longrightarrow> catalog_step s s'"

lemma sbom_step_kept: "sbom_step s s' \<Longrightarrow> catalog_kept s s'"
proof (induction rule: sbom_step.induct)
  case (upsert sb a b e n s r n' s')
  have "db_keeps catalog_kept (UpsertSBOMWithLimit sb a b)"
    unfolding UpsertSBOMWithLimit_def lockAccountForSBOMMutation_def reject_upsert_def by (auto intro!: kept_rules split: option.splits sum.splits)
  then show ?case using upsert by (rule db_keepsD)
next
  case (activate acc sid e n s u n' s')
  have "db_keeps catalog_kept (ActivateSBOM acc sid)"
    unfolding ActivateSBOM_def activateSBOM_def lockAccountForSBOMMutation_def by (auto intro!: kept_rules)
  then show ?case using activate by (rule db_keepsD)
next
  case (archive acc sid e n s c n' s')
  have "db_keeps catalog_kept (archiveSBOM acc sid)" unfolding archiveSBOM_def by (auto intro!: kept_rules)
  then show ?case using archive by (rule db_keepsD)
next
  case (archive_repo acc repo e n s k n' s')
  have "db_keeps catalog_kept (archiveRepo acc repo)" unfolding archiveRepo_def by (auto intro!: kept_rules simp: Let_def)
  then show ?case using archive_repo by (rule db_keepsD)
next
  case (delete_pending acc sid e n s u n' s')
  have "db_keeps catalog_kept (DeletePendingSBOM acc sid)" unfolding DeletePendingSBOM_def by (auto intro!: kept_rules)
  then show ?case using delete_pending by (rule db_keepsD)
next
  case (request_rescan sid e n s u n' s')
  have "db_keeps catalog_kept (AdminRequestRescan sid)" unfolding AdminRequestRescan_def by (auto intro!: kept_rules)
  then show ?case using request_rescan by (rule db_keepsD)
next
  case (clear_rescan sid e n s u n' s')
  have "db_keeps catalog_kept (ClearRescanRequested sid)" unfolding ClearRescanRequested_def by (auto intro!: kept_rules)
  then show ?case using clear_rescan by (rule db_keepsD)
qed

lemma store_ops_kept:
  "db_keeps catalog_kept (RecomputeSBOMRollup sid)" "db_keeps catalog_kept (RecordScanFailure sid scanner stage cause)"
  "db_keeps catalog_kept (RecordScannerAttemptFailure oor sid scanner msg)" "db_keeps catalog_kept (ClearScannerAttempt sid scanner)"
  "db_keeps catalog_kept (UpsertSBOMPackages sid pkgs)" "db_keeps catalog_kept (UpsertCVEEnrichment recs auth)"
  unfolding RecomputeSBOMRollup_def recomputeSBOMRollup_def RecordScanFailure_def RecordScannerAttemptFailure_def ClearScannerAttempt_def
    UpsertSBOMPackages_def insertPackageChunk_def UpsertCVEEnrichment_def
  by (auto intro!: kept_rules simp: attempt_failed_def clear_attempt_def split: option.splits)

lemma catalog_step_kept: "catalog_step s s' \<Longrightarrow> catalog_kept s s'"
  by (induction rule: catalog_step.induct) (blast intro: sbom_step_kept kept_frames(7) db_keepsD [OF ApplyScan_kept] db_keepsD [OF store_ops_kept(1)]
    db_keepsD [OF store_ops_kept(2)] db_keepsD [OF store_ops_kept(3)] db_keepsD [OF store_ops_kept(4)] db_keepsD [OF store_ops_kept(5)]
    db_keepsD [OF store_ops_kept(6)])+

lemma catalog_reachable: "catalog_step\<^sup>*\<^sup>* empty_store s \<Longrightarrow> catalog_inv s"
  by (induction rule: rtranclp_induct) (auto simp: catalog_inv_empty dest: catalog_step_kept simp: catalog_kept_def)

end
