(* ===== verification/Read_Models.thy ===== *)
theory Read_Models
  imports Vex Catalog
begin

text \<open>
  The dashboard's reads: \<open>pkg/data/postgres/read.go\<close> and \<open>read_images.go\<close>. The counts of an image, of a
  repository and of an account come from the rollups when the account has no suppressing VEX statement, and
  from the findings otherwise. Shown: for every reachable catalog both queries give the same answer.

  Rows with equal sort keys come in the order of the model's sort. A count is a natural number.
\<close>

section \<open>Counts\<close>

record SeverityCounts =
  n_critical :: nat
  n_high :: nat
  n_medium :: nat
  n_low :: nat
  n_negligible :: nat
  n_unknown :: nat
  n_total :: nat
  n_relevant :: nat

definition applyThreshold :: "SeverityCounts \<Rightarrow> string \<Rightarrow> SeverityCounts" where
  "applyThreshold c m =
     (let keep = (\<lambda>sev k. if MeetsThreshold sev m then k else 0);
          cr = keep SeverityCritical (n_critical c); hi = keep SeverityHigh (n_high c); me = keep SeverityMedium (n_medium c);
          lo = keep SeverityLow (n_low c); ne = keep SeverityNegligible (n_negligible c) in
      c\<lparr>n_critical := cr, n_high := hi, n_medium := me, n_low := lo, n_negligible := ne,
        n_relevant := n_unknown c + cr + hi + me + lo + ne\<rparr>)"

text \<open>The findings of an SBOM that no statement suppresses.\<close>

definition live_findings :: "platform \<Rightarrow> sbom_row \<Rightarrow> finding_row list" where
  "live_findings s sb =
     filter (\<lambda>f. f_sbom f = ID sb \<and> \<not> vex_suppressed (vex_statements s) sb (Exposure (f_vuln f))) (findings (catalog s))"

definition has_severity :: "string \<Rightarrow> finding_row \<Rightarrow> bool" where
  "has_severity sev f = (Severity (f_vuln f) = sev)"

definition fixable :: "finding_row \<Rightarrow> bool" where
  "fixable f = IsFixed (f_vuln f)"

text \<open>The columns of a group of rows, by a way to count the findings that satisfy a condition.\<close>

definition counts_by :: "((finding_row \<Rightarrow> bool) \<Rightarrow> nat) \<Rightarrow> SeverityCounts" where
  "counts_by count =
     \<lparr>n_critical = count (has_severity SeverityCritical), n_high = count (has_severity SeverityHigh),
      n_medium = count (has_severity SeverityMedium), n_low = count (has_severity SeverityLow),
      n_negligible = count (has_severity SeverityNegligible), n_unknown = count (has_severity SeverityUnknown),
      n_total = count (\<lambda>_. True), n_relevant = 0\<rparr>"

text \<open>A column of the rollup, zero where an SBOM has none yet.\<close>

definition rollup_column :: "platform \<Rightarrow> sbom_row \<Rightarrow> (rollup_row \<Rightarrow> nat) \<Rightarrow> nat" where
  "rollup_column s sb col = (case lookup_key ro_sbom (rollups (catalog s)) (ID sb) of None \<Rightarrow> 0 | Some ro \<Rightarrow> col ro)"

definition rollup_severities :: "((rollup_row \<Rightarrow> nat) \<Rightarrow> nat) \<Rightarrow> SeverityCounts" where
  "rollup_severities col =
     \<lparr>n_critical = col ro_critical, n_high = col ro_high, n_medium = col ro_medium, n_low = col ro_low,
      n_negligible = col ro_negligible, n_unknown = col ro_unknown, n_total = col ro_total, n_relevant = 0\<rparr>"

section \<open>Images\<close>

record Image =
  im_sbom :: string
  im_ref :: string
  im_digest :: string
  im_format :: string
  im_submitted :: time
  im_counts :: SeverityCounts
  im_failures :: nat

definition failures_of :: "platform \<Rightarrow> string \<Rightarrow> nat" where
  "failures_of s sid = count_where (\<lambda>x. sf_sbom x = sid) (failures (catalog s))"

definition image_row :: "platform \<Rightarrow> (sbom_row \<Rightarrow> SeverityCounts) \<Rightarrow> sbom_row \<Rightarrow> Image" where
  "image_row s counts sb =
     \<lparr>im_sbom = ID sb, im_ref = ImageRef sb, im_digest = Digest sb, im_format = Format sb, im_submitted = SubmittedAt sb,
      im_counts = counts sb, im_failures = failures_of s (ID sb)\<rparr>"

definition active_sboms :: "platform \<Rightarrow> string \<Rightarrow> sbom_row list" where
  "active_sboms s tenantID = filter (active_in tenantID) (sboms (catalog s))"

definition listImagesRollup :: "string \<Rightarrow> platform \<Rightarrow> Image list" where
  "listImagesRollup tenantID s =
     map (image_row s (\<lambda>sb. rollup_severities (rollup_column s sb))) (rev (sort_key SubmittedAt (active_sboms s tenantID)))"

definition listImagesLive :: "string \<Rightarrow> platform \<Rightarrow> Image list" where
  "listImagesLive tenantID s =
     map (image_row s (\<lambda>sb. counts_by (\<lambda>p. count_ids p (live_findings s sb)))) (rev (sort_key SubmittedAt (active_sboms s tenantID)))"

definition ListImages :: "string \<Rightarrow> string \<Rightarrow> (platform, Image list) db" where
  "ListImages tenantID minSeverity =
     db_bind (TenantHasSuppressingVEX tenantID) (\<lambda>hasVEX.
     db_read (Wrapf ''list images: '') (\<lambda>_ s.
       Inr (map (\<lambda>im. im\<lparr>im_counts := applyThreshold (im_counts im) minSeverity\<rparr>)
         (if hasVEX then listImagesLive tenantID s else listImagesRollup tenantID s))))"

section \<open>Repositories\<close>

text \<open>\<open>ILIKE\<close>: the wildcards \<open>%\<close> and \<open>_\<close>, and the escape.\<close>

fun like :: "string \<Rightarrow> string \<Rightarrow> bool" where
  "like [] s = (s = [])"
| "like (c # p) s =
     (if c = CHR ''%'' then like p s \<or> (case s of [] \<Rightarrow> False | _ # s' \<Rightarrow> like (c # p) s')
      else if c = CHR ''_'' then (case s of [] \<Rightarrow> False | _ # s' \<Rightarrow> like p s')
      else if c = CHR 0x5C \<and> p \<noteq> [] then (case s of [] \<Rightarrow> False | x # s' \<Rightarrow> x = hd p \<and> like (tl p) s')
      else (case s of [] \<Rightarrow> False | x # s' \<Rightarrow> x = c \<and> like p s'))"

definition ILIKE :: "string \<Rightarrow> string \<Rightarrow> bool" where
  "ILIKE s pattern = like (ToLower pattern) (ToLower s)"

record RepoImage =
  ri_repository :: string
  ri_sboms :: nat
  ri_digests :: nat
  ri_versions :: "string list"
  ri_latest :: time
  ri_counts :: SeverityCounts
  ri_fixable :: nat
  ri_failures :: nat
  ri_risk :: nat

definition repo_row :: "platform \<Rightarrow> string \<Rightarrow> (sbom_row list \<Rightarrow> SeverityCounts \<times> nat) \<Rightarrow> sbom_row list \<Rightarrow> string \<Rightarrow> RepoImage" where
  "repo_row s tenantID counts rows repo =
     (let g = filter (\<lambda>sb. Repository sb = repo) rows; (c, fx) = counts g in
      \<lparr>ri_repository = repo, ri_sboms = count_distinct (map ID g), ri_digests = count_distinct (map Digest g),
       ri_versions = sort (remdups (filter (\<lambda>v. v \<noteq> []) (map SBOMVersion g))), ri_latest = Max (set (map SubmittedAt g)),
       ri_counts = c, ri_fixable = fx,
       ri_failures = count_where (\<lambda>x. list_ex (\<lambda>sb. ID sb = sf_sbom x \<and> TenantID sb = tenantID \<and> Repository sb = repo) (sboms (catalog s)))
         (failures (catalog s)),
       ri_risk = n_critical c * 1000000000 + n_high c * 100000 + n_total c\<rparr>)"

definition img_rows :: "platform \<Rightarrow> string \<Rightarrow> string \<Rightarrow> string \<Rightarrow> sbom_row list" where
  "img_rows s tenantID nameFilter labelFilter =
     filter (\<lambda>sb. (nameFilter = [] \<or> ILIKE (Repository sb) (''%'' @ nameFilter @ ''%'')) \<and> (labelFilter = [] \<or> labelFilter \<in> set (Labels sb)))
       (active_sboms s tenantID)"

definition sum_column :: "platform \<Rightarrow> sbom_row list \<Rightarrow> (rollup_row \<Rightarrow> nat) \<Rightarrow> nat" where
  "sum_column s g col = sum_list (map (\<lambda>sb. rollup_column s sb col) g)"

text \<open>\<open>COUNT(DISTINCT (sb.id, f.finding_id))\<close> over the joined rows.\<close>

definition joined :: "platform \<Rightarrow> sbom_row list \<Rightarrow> (sbom_row \<times> finding_row) list" where
  "joined s g = concat (map (\<lambda>sb. map (Pair sb) (live_findings s sb)) g)"

definition count_pairs :: "platform \<Rightarrow> sbom_row list \<Rightarrow> (finding_row \<Rightarrow> bool) \<Rightarrow> nat" where
  "count_pairs s g p = count_distinct (map (\<lambda>(sb, f). (ID sb, f_id f)) (filter (\<lambda>(sb, f). p f) (joined s g)))"

definition rollupImgCTE :: "string \<Rightarrow> string \<Rightarrow> string \<Rightarrow> platform \<Rightarrow> RepoImage list" where
  "rollupImgCTE tenantID nameFilter labelFilter s =
     (let rows = img_rows s tenantID nameFilter labelFilter in
      map (repo_row s tenantID (\<lambda>g. (rollup_severities (sum_column s g), sum_column s g ro_fixable)) rows) (remdups (map Repository rows)))"

definition liveImgCTE :: "string \<Rightarrow> string \<Rightarrow> string \<Rightarrow> platform \<Rightarrow> RepoImage list" where
  "liveImgCTE tenantID nameFilter labelFilter s =
     (let rows = img_rows s tenantID nameFilter labelFilter in
      map (repo_row s tenantID (\<lambda>g. (counts_by (count_pairs s g), count_pairs s g fixable)) rows) (remdups (map Repository rows)))"

section \<open>The fleet\<close>

record FleetStats =
  fs_Images :: nat
  fs_Total :: nat
  fs_Critical :: nat
  fs_High :: nat
  fs_Medium :: nat
  fs_Low :: nat
  fs_Fixable :: nat
  fs_FixCritical :: nat
  fs_FixHigh :: nat
  fs_FixMedium :: nat
  fs_FixLow :: nat
  fs_KEV :: nat
  fs_Failures :: nat
  fs_LastScanAt :: "time option"

definition last_scan :: "platform \<Rightarrow> string \<Rightarrow> time option" where
  "last_scan s tenantID =
     (let ts = map scanned_at (filter (\<lambda>r. list_ex (\<lambda>sb. ID sb = run_sbom r) (active_sboms s tenantID)) (scan_runs (catalog s))) in
      if ts = [] then None else Some (Max (set ts)))"

definition tenant_failures :: "platform \<Rightarrow> string \<Rightarrow> nat" where
  "tenant_failures s tenantID =
     count_where (\<lambda>x. list_ex (\<lambda>sb. ID sb = sf_sbom x \<and> TenantID sb = tenantID) (sboms (catalog s))) (failures (catalog s))"

definition fleetStatsRollup :: "string \<Rightarrow> platform \<Rightarrow> FleetStats" where
  "fleetStatsRollup tenantID s =
     (let rows = active_sboms s tenantID; col = sum_column s rows in
      \<lparr>fs_Images = count_distinct (map Repository rows), fs_Total = col ro_total, fs_Critical = col ro_critical,
       fs_High = col ro_high, fs_Medium = col ro_medium, fs_Low = col ro_low, fs_Fixable = col ro_fixable,
       fs_FixCritical = col ro_fix_critical, fs_FixHigh = col ro_fix_high, fs_FixMedium = col ro_fix_medium, fs_FixLow = col ro_fix_low,
       fs_KEV = count_distinct (map (\<lambda>f. Exposure (f_vuln f))
         (filter (\<lambda>f. kev_cve (catalog s) (Exposure (f_vuln f)) \<and> list_ex (\<lambda>sb. ID sb = f_sbom f) rows) (findings (catalog s)))),
       fs_Failures = tenant_failures s tenantID, fs_LastScanAt = last_scan s tenantID\<rparr>)"

definition fleetStatsLive :: "string \<Rightarrow> platform \<Rightarrow> FleetStats" where
  "fleetStatsLive tenantID s =
     (let rows = active_sboms s tenantID; count = count_pairs s rows in
      \<lparr>fs_Images = count_distinct (map Repository rows), fs_Total = count (\<lambda>_. True), fs_Critical = count (has_severity SeverityCritical),
       fs_High = count (has_severity SeverityHigh), fs_Medium = count (has_severity SeverityMedium), fs_Low = count (has_severity SeverityLow),
       fs_Fixable = count fixable,
       fs_FixCritical = count (\<lambda>f. fixable f \<and> has_severity SeverityCritical f), fs_FixHigh = count (\<lambda>f. fixable f \<and> has_severity SeverityHigh f),
       fs_FixMedium = count (\<lambda>f. fixable f \<and> has_severity SeverityMedium f), fs_FixLow = count (\<lambda>f. fixable f \<and> has_severity SeverityLow f),
       fs_KEV = count_distinct (map (\<lambda>(sb, f). Exposure (f_vuln f)) (filter (\<lambda>(sb, f). kev_cve (catalog s) (Exposure (f_vuln f))) (joined s rows))),
       fs_Failures = tenant_failures s tenantID, fs_LastScanAt = last_scan s tenantID\<rparr>)"

definition FleetStats :: "string \<Rightarrow> (platform, FleetStats) db" where
  "FleetStats tenantID =
     db_bind (TenantHasSuppressingVEX tenantID) (\<lambda>hasVEX.
     if hasVEX then db_read (Wrapf ''fleet stats: '') (\<lambda>_ s. Inr (fleetStatsLive tenantID s))
     else db_read (Wrapf ''fleet stats (rollup): '') (\<lambda>_ s. Inr (fleetStatsRollup tenantID s)))"

section \<open>Both paths\<close>

definition no_suppressing :: "string \<Rightarrow> platform \<Rightarrow> bool" where
  "no_suppressing tenantID s = (\<not> list_ex (\<lambda>v. vs_tenant v = tenantID \<and> suppressing (vs_status v)) (vex_statements s))"

lemma live_findings_all:
  assumes "no_suppressing (TenantID sb) s"
  shows "live_findings s sb = filter (\<lambda>f. f_sbom f = ID sb) (findings (catalog s))"
proof -
  have "\<not> vex_suppressed (vex_statements s) sb cve" for cve
    using assms vex_resolved_Some(1,2) [of "vex_statements s" sb cve]
    by (auto simp: vex_suppressed_def no_suppressing_def list_ex_iff vex_applies_def split: option.splits)
  then show ?thesis by (simp add: live_findings_def)
qed

text \<open>A column of a current rollup is a count over the findings.\<close>

lemma rollup_columns:
  assumes "rollups_current (catalog s)" and live: "live_findings s sb = filter (\<lambda>f. f_sbom f = ID sb) (findings (catalog s))"
  defines "c \<equiv> (\<lambda>p. count_ids p (live_findings s sb))"
  shows "rollup_column s sb ro_critical = c (has_severity SeverityCritical)" "rollup_column s sb ro_high = c (has_severity SeverityHigh)"
    "rollup_column s sb ro_medium = c (has_severity SeverityMedium)" "rollup_column s sb ro_low = c (has_severity SeverityLow)"
    "rollup_column s sb ro_negligible = c (has_severity SeverityNegligible)" "rollup_column s sb ro_unknown = c (has_severity SeverityUnknown)"
    "rollup_column s sb ro_total = c (\<lambda>_. True)" "rollup_column s sb ro_fixable = c fixable"
    "rollup_column s sb ro_fix_critical = c (\<lambda>f. fixable f \<and> has_severity SeverityCritical f)"
    "rollup_column s sb ro_fix_high = c (\<lambda>f. fixable f \<and> has_severity SeverityHigh f)"
    "rollup_column s sb ro_fix_medium = c (\<lambda>f. fixable f \<and> has_severity SeverityMedium f)"
    "rollup_column s sb ro_fix_low = c (\<lambda>f. fixable f \<and> has_severity SeverityLow f)"
proof -
  let ?ro = "rollup_of (ID sb) 0 (catalog s)"
  have at: "current_at (ID sb) (catalog s)" using assms(1) by (simp add: rollups_current_def)
  have col: "rollup_column s sb x = x (rollup_counts ?ro)" if "\<And>ro. x (rollup_counts ro) = x ro" "filter (\<lambda>f. f_sbom f = ID sb) (findings (catalog s)) = [] \<Longrightarrow> x ?ro = 0" for x
    using at that by (auto simp: current_at_def rollup_column_def split: option.splits) metis
  show "rollup_column s sb ro_critical = c (has_severity SeverityCritical)" "rollup_column s sb ro_high = c (has_severity SeverityHigh)"
    "rollup_column s sb ro_medium = c (has_severity SeverityMedium)" "rollup_column s sb ro_low = c (has_severity SeverityLow)"
    "rollup_column s sb ro_negligible = c (has_severity SeverityNegligible)" "rollup_column s sb ro_unknown = c (has_severity SeverityUnknown)"
    "rollup_column s sb ro_total = c (\<lambda>_. True)" "rollup_column s sb ro_fixable = c fixable"
    "rollup_column s sb ro_fix_critical = c (\<lambda>f. fixable f \<and> has_severity SeverityCritical f)"
    "rollup_column s sb ro_fix_high = c (\<lambda>f. fixable f \<and> has_severity SeverityHigh f)"
    "rollup_column s sb ro_fix_medium = c (\<lambda>f. fixable f \<and> has_severity SeverityMedium f)"
    "rollup_column s sb ro_fix_low = c (\<lambda>f. fixable f \<and> has_severity SeverityLow f)"
    by (subst col; simp add: rollup_counts_def rollup_of_def count_ids_def count_distinct_def Let_def c_def live has_severity_def [abs_def] fixable_def [abs_def])+
qed

lemma count_pairs_sum:
  assumes "distinct (map ID g)"
  shows "count_pairs s g p = sum_list (map (\<lambda>sb. count_ids p (live_findings s sb)) g)"
  using assms
proof (induction g)
  case (Cons sb g)
  let ?A = "Pair (ID sb) ` f_id ` {f \<in> set (live_findings s sb). p f}" and ?B = "(\<lambda>(sb, f). (ID sb, f_id f)) ` {x \<in> set (joined s g). p (snd x)}"
  have "set (map (\<lambda>(sb, f). (ID sb, f_id f)) (filter (\<lambda>(sb, f). p f) (joined s (sb # g)))) = ?A \<union> ?B"
    by (auto simp: joined_def image_iff)
  moreover have "?A \<inter> ?B = {}" using Cons.prems by (auto simp: joined_def)
  moreover have "card ?A = count_ids p (live_findings s sb)" by (simp add: count_ids_card card_image inj_on_def)
  moreover have "count_pairs s g p = card ?B" by (simp add: count_pairs_def count_distinct_card) (rule arg_cong [where f = card], auto simp: image_iff)
  ultimately show ?case using Cons by (simp add: count_pairs_def count_distinct_card card_Un_disjoint)
qed (simp add: count_pairs_def joined_def count_distinct_def)

lemma sum_columns:
  assumes "catalog_inv (catalog s)" "no_suppressing tenantID s" and g: "set g \<subseteq> set (active_sboms s tenantID)" "distinct (map ID g)"
    and col: "\<And>sb. sb \<in> set g \<Longrightarrow> rollup_column s sb col = count_ids p (live_findings s sb)"
  shows "sum_column s g col = count_pairs s g p"
proof -
  have "map (\<lambda>sb. rollup_column s sb col) g = map (\<lambda>sb. count_ids p (live_findings s sb)) g" using col by simp
  then show ?thesis unfolding sum_column_def count_pairs_sum [OF g(2)] by (rule arg_cong)
qed

lemma active_live:
  assumes "no_suppressing tenantID s" "sb \<in> set (active_sboms s tenantID)"
  shows "live_findings s sb = filter (\<lambda>f. f_sbom f = ID sb) (findings (catalog s))"
  using assms by (intro live_findings_all) (auto simp: active_sboms_def active_in_def)

text \<open>The columns of a group of rows, on both paths.\<close>

lemma group_columns:
  assumes "catalog_inv (catalog s)" "no_suppressing tenantID s" and g: "set g \<subseteq> set (active_sboms s tenantID)" "distinct (map ID g)"
  shows "rollup_severities (sum_column s g) = counts_by (count_pairs s g)" and "sum_column s g ro_fixable = count_pairs s g fixable"
    and "sum_column s g ro_fix_critical = count_pairs s g (\<lambda>f. fixable f \<and> has_severity SeverityCritical f)"
    and "sum_column s g ro_fix_high = count_pairs s g (\<lambda>f. fixable f \<and> has_severity SeverityHigh f)"
    and "sum_column s g ro_fix_medium = count_pairs s g (\<lambda>f. fixable f \<and> has_severity SeverityMedium f)"
    and "sum_column s g ro_fix_low = count_pairs s g (\<lambda>f. fixable f \<and> has_severity SeverityLow f)"
proof -
  have cur: "rollups_current (catalog s)" using assms(1) by (simp add: catalog_inv_def)
  have live: "live_findings s sb = filter (\<lambda>f. f_sbom f = ID sb) (findings (catalog s))" if "sb \<in> set g" for sb
    using active_live [OF assms(2)] g(1) that by blast
  note cols = rollup_columns [OF cur live]
  note eq = sum_columns [OF assms]
  show "rollup_severities (sum_column s g) = counts_by (count_pairs s g)"
    unfolding rollup_severities_def counts_by_def
    by (simp add: eq [OF cols(1)] eq [OF cols(2)] eq [OF cols(3)] eq [OF cols(4)] eq [OF cols(5)] eq [OF cols(6)] eq [OF cols(7)])
  show "sum_column s g ro_fixable = count_pairs s g fixable" by (rule eq, rule cols(8))
  show "sum_column s g ro_fix_critical = count_pairs s g (\<lambda>f. fixable f \<and> has_severity SeverityCritical f)" by (rule eq, rule cols(9))
  show "sum_column s g ro_fix_high = count_pairs s g (\<lambda>f. fixable f \<and> has_severity SeverityHigh f)" by (rule eq, rule cols(10))
  show "sum_column s g ro_fix_medium = count_pairs s g (\<lambda>f. fixable f \<and> has_severity SeverityMedium f)" by (rule eq, rule cols(11))
  show "sum_column s g ro_fix_low = count_pairs s g (\<lambda>f. fixable f \<and> has_severity SeverityLow f)" by (rule eq, rule cols(12))
qed

lemma distinct_active: "catalog_inv (catalog s) \<Longrightarrow> distinct (map ID (active_sboms s tenantID))"
  using distinct_key_filter [of ID "sboms (catalog s)" "active_in tenantID"] by (simp add: catalog_inv_def active_sboms_def distinct_key_def)

lemma images_agree:
  assumes "catalog_inv (catalog s)" "no_suppressing tenantID s"
  shows "listImagesRollup tenantID s = listImagesLive tenantID s"
proof -
  have "rollup_severities (rollup_column s sb) = counts_by (\<lambda>p. count_ids p (live_findings s sb))" if "sb \<in> set (active_sboms s tenantID)" for sb
    using assms(1) rollup_columns [OF _ active_live [OF assms(2) that]] by (simp add: rollup_severities_def counts_by_def catalog_inv_def)
  then show ?thesis by (auto simp: listImagesRollup_def listImagesLive_def image_row_def)
qed

lemma repos_agree:
  assumes "catalog_inv (catalog s)" "no_suppressing tenantID s"
  shows "rollupImgCTE tenantID nameFilter labelFilter s = liveImgCTE tenantID nameFilter labelFilter s"
proof -
  let ?rows = "img_rows s tenantID nameFilter labelFilter"
  have "set (filter (\<lambda>sb. Repository sb = repo) ?rows) \<subseteq> set (active_sboms s tenantID)" "distinct (map ID (filter (\<lambda>sb. Repository sb = repo) ?rows))" for repo
    using distinct_active [OF assms(1), of tenantID] by (auto simp: img_rows_def distinct_map_filter)
  from group_columns(1,2) [OF assms this] show ?thesis
    by (simp add: rollupImgCTE_def liveImgCTE_def Let_def repo_row_def)
qed

lemma kev_agree:
  assumes "no_suppressing tenantID s"
  defines "rows \<equiv> active_sboms s tenantID"
  shows "count_distinct (map (\<lambda>f. Exposure (f_vuln f))
      (filter (\<lambda>f. kev_cve (catalog s) (Exposure (f_vuln f)) \<and> list_ex (\<lambda>sb. ID sb = f_sbom f) rows) (findings (catalog s)))) =
    count_distinct (map (\<lambda>(sb, f). Exposure (f_vuln f)) (filter (\<lambda>(sb, f). kev_cve (catalog s) (Exposure (f_vuln f))) (joined s rows)))"
proof -
  have "set (joined s rows) = {(sb, f). sb \<in> set rows \<and> f \<in> set (findings (catalog s)) \<and> f_sbom f = ID sb}"
    using active_live [OF assms(1)] by (auto simp: joined_def rows_def)
  then show ?thesis unfolding count_distinct_card by (intro arg_cong [where f = card]) (force simp: list_ex_iff image_iff)
qed

lemma fleet_agree:
  assumes "catalog_inv (catalog s)" "no_suppressing tenantID s"
  shows "fleetStatsRollup tenantID s = fleetStatsLive tenantID s"
proof -
  let ?rows = "active_sboms s tenantID"
  note cols = group_columns [OF assms order_refl distinct_active [OF assms(1)]]
  from cols(1) have "sum_column s ?rows ro_total = count_pairs s ?rows (\<lambda>_. True)" "sum_column s ?rows ro_critical = count_pairs s ?rows (has_severity SeverityCritical)"
    "sum_column s ?rows ro_high = count_pairs s ?rows (has_severity SeverityHigh)" "sum_column s ?rows ro_medium = count_pairs s ?rows (has_severity SeverityMedium)"
    "sum_column s ?rows ro_low = count_pairs s ?rows (has_severity SeverityLow)"
    by (simp_all add: rollup_severities_def counts_by_def)
  then show ?thesis using kev_agree [OF assms(2)] cols(2-6) by (simp add: fleetStatsRollup_def fleetStatsLive_def Let_def)
qed


lemma demo_reached:
  "\<exists>c. catalog_step\<^sup>*\<^sup>* empty_store c \<and> sboms c = [new_row demo_sbom 0]"
proof -
  let ?c1 = "empty_store\<lparr>tenants := [\<lparr>tn_id = ''t1'', tn_status = ''active''\<rparr>]\<rparr>" and ?r = "new_row demo_sbom 0"
  have "UpsertSBOM demo_sbom (calm_env 0) 0 ?c1 = (Inr (''s1'', True, ''active''), 4, ?c1\<lparr>sboms := [?r]\<rparr>)"
    by (simp add: UpsertSBOM_def UpsertSBOMWithLimit_def lockAccountForSBOMMutation_def db_tx_def db_bind_def db_stmt_def account_gate_def insert_sbom_def
        admits_def empty_store_def demo_sbom_def new_row_def defaultStr_def)
  then have "catalog_step ?c1 (?c1\<lparr>sboms := [?r]\<rparr>)" unfolding UpsertSBOM_def by (intro catalog_step.sbom sbom_step.upsert)
  moreover obtain n' where "ApplyScan demo_sbom ''grype'' demo_versions demo_vulns (calm_env 0) 0 (?c1\<lparr>sboms := [?r]\<rparr>) =
      (Inr (), n', apply_core demo_sbom ''grype'' demo_versions demo_vulns 4 0 (?c1\<lparr>sboms := [?r]\<rparr>))"
    using ApplyScan_total [of "calm_env 0" demo_sbom "''grype''" demo_versions 0 "?c1\<lparr>sboms := [?r]\<rparr>"] by (auto simp: empty_store_def)
  then have "catalog_step (?c1\<lparr>sboms := [?r]\<rparr>) (apply_core demo_sbom ''grype'' demo_versions demo_vulns 4 0 (?c1\<lparr>sboms := [?r]\<rparr>))"
    by (rule catalog_step.scan)
  ultimately have "catalog_step\<^sup>*\<^sup>* empty_store (apply_core demo_sbom ''grype'' demo_versions demo_vulns 4 0 (?c1\<lparr>sboms := [?r]\<rparr>))"
    using catalog_step.accounts [of empty_store] by (meson converse_rtranclp_into_rtranclp rtranclp.rtrancl_refl)
  then show ?thesis by (intro exI conjI) (assumption, simp add: apply_core_inputs)
qed


section \<open>One SBOM\<close>

record SBOMDetail =
  sd_sbom :: SBOM
  sd_counts :: SeverityCounts

text \<open>The counts are of rows: \<open>COUNT(*)\<close>.\<close>

definition GetSBOM :: "string \<Rightarrow> string \<Rightarrow> string \<Rightarrow> (platform, SBOMDetail) db" where
  "GetSBOM tenantID sbomID minSeverity =
     db_read (Wrapf ''get sbom: '') (\<lambda>_ s.
       case List.find (\<lambda>sb. ID sb = sbomID \<and> TenantID sb = tenantID) (sboms (catalog s)) of
         None \<Rightarrow> Inl ErrNotFound
       | Some sb \<Rightarrow> Inr \<lparr>sd_sbom = SBOM.truncate sb,
           sd_counts = applyThreshold (counts_by (\<lambda>p. count_where p (live_findings s sb))) minSeverity\<rparr>)"

definition demo_twins :: platform where
  "demo_twins = demo_platform\<lparr>vex_statements := [], catalog := empty_store\<lparr>sboms := [demo_image], findings := map (\<lambda>sc. \<lparr>f_sbom = ''i'', f_scanner = sc, f_id = ''f'',
     f_vuln = \<lparr>Exposure = ''CVE-1'', Package = ''p'', Version = ''1'', Severity = ''high'', Score = 7, IsFixed = False\<rparr>, f_updated_at = 0\<rparr>) [''grype'', ''trivy''],
     rollups := [\<lparr>ro_sbom = ''i'', ro_critical = 0, ro_high = 1, ro_medium = 0, ro_low = 0, ro_negligible = 0, ro_unknown = 0, ro_total = 1, ro_fixable = 0,
       ro_fix_critical = 0, ro_fix_high = 0, ro_fix_medium = 0, ro_fix_low = 0, ro_kev = 0, ro_updated_at = 0\<rparr>]\<rparr>\<rparr>"

text \<open>
  A finding that two scanners report is one finding of its image in the list of images, by the rollup and by
  the findings, and two in the detail of the SBOM, whose query counts rows.
\<close>

theorem GetSBOM_counts_rows:
  "map (\<lambda>im. n_total (im_counts im)) (listImagesLive ''a'' demo_twins) = [1] \<and> map (\<lambda>im. n_total (im_counts im)) (listImagesRollup ''a'' demo_twins) = [1] \<and>
   map_sum id (\<lambda>d. n_total (sd_counts d)) (fst (GetSBOM ''a'' ''i'' ''low'' (calm_env 0) 0 demo_twins)) = Inr 2"
  by code_simp

end
