(* ===== verification/Keyset.thy ===== *)
theory Keyset
  imports Secret_Box Read_Models
begin

text \<open>
  Pages of a list: \<open>pkg/data/postgres/cursor.go\<close> and \<open>sort.go\<close>. A page is read by seeking past the key of
  the last row of the page before, which travels in an opaque token. The contract of a query that pages this
  way is the locale \<open>keyset_query\<close>: whoever follows the tokens gets the whole list in order, and a row that
  stays is not missed when other rows change between the pages.

  \<open>json.Marshal\<close> and \<open>json.Unmarshal\<close> of a cursor are arguments, and so are the database's text of a value and
  its cast back.
\<close>

section \<open>Tokens\<close>

text \<open>\<open>base64.RawURLEncoding\<close>: the standard digits with \<open>-\<close> and \<open>_\<close> for the last two, and no padding.\<close>

definition url_char :: "char \<Rightarrow> char" where
  "url_char c = (if c = CHR ''+'' then CHR ''-'' else if c = CHR ''/'' then CHR ''_'' else c)"

definition std_char :: "char \<Rightarrow> char" where
  "std_char c = (if c = CHR ''-'' then CHR ''+'' else if c = CHR ''_'' then CHR ''/'' else c)"

definition RawURL_Encode :: "string \<Rightarrow> string" where
  "RawURL_Encode s = map url_char (takeWhile (\<lambda>c. c \<noteq> CHR ''='') (EncodeToString s))"

definition RawURL_Decode :: "string \<Rightarrow> string option" where
  "RawURL_Decode s =
     (let t = filter (\<lambda>c. c \<noteq> CHR 0x0A \<and> c \<noteq> CHR 0x0D) s in
      if list_ex (\<lambda>c. c = CHR ''+'' \<or> c = CHR ''/'' \<or> c = CHR ''='') t then None
      else DecodeString (map std_char t @ replicate ((4 - length t mod 4) mod 4) CHR ''=''))"

text \<open>The JSON texts of a type of cursors.\<close>

record 'c codec =
  marshal :: "'c \<Rightarrow> string"
  unmarshal :: "string \<Rightarrow> 'c option"

text \<open>What the text of a cursor is relied on for.\<close>

definition codec_ok :: "'c codec \<Rightarrow> 'c \<Rightarrow> bool" where
  "codec_ok js c = (marshal js c \<noteq> [] \<and> unmarshal js (marshal js c) = Some c)"

text \<open>A \<open>keysetCursor\<close> is the pair of its time and identifier, a \<open>sortCursor\<close> that of its value and identifier.\<close>

definition encodeCursor :: "(time \<times> string) codec \<Rightarrow> time \<Rightarrow> string \<Rightarrow> string" where
  "encodeCursor js ts i = RawURL_Encode (marshal js (ts, i))"

definition decodeCursor :: "(time \<times> string) codec \<Rightarrow> string \<Rightarrow> (time \<times> string) option" where
  "decodeCursor js s = (if s = [] then None else case RawURL_Decode s of None \<Rightarrow> None | Some raw \<Rightarrow> unmarshal js raw)"

definition encodeSortCursor :: "(string \<times> string) codec \<Rightarrow> string \<Rightarrow> string \<Rightarrow> string" where
  "encodeSortCursor js v i = RawURL_Encode (marshal js (v, i))"

definition decodeSortCursor :: "(string \<times> string) codec \<Rightarrow> string \<Rightarrow> (string \<times> string) option" where
  "decodeSortCursor js s = (if s = [] then None else case RawURL_Decode s of None \<Rightarrow> None | Some raw \<Rightarrow> unmarshal js raw)"

definition defaultPageLimit :: int where "defaultPageLimit = 100"

definition clampLimit :: "int \<Rightarrow> nat \<times> nat" where
  "clampLimit limit = (let l = (if limit \<le> 0 \<or> limit > maxPageLimit then defaultPageLimit else limit) in (nat l, nat (l + 1)))"

section \<open>Pages\<close>

definition past :: "bool \<Rightarrow> 'k::linorder option \<Rightarrow> 'k \<Rightarrow> bool" where
  "past desc cur k = (case cur of None \<Rightarrow> True | Some c \<Rightarrow> if desc then k < c else c < k)"

definition ordered :: "bool \<Rightarrow> ('r \<Rightarrow> 'k::linorder) \<Rightarrow> 'r list \<Rightarrow> 'r list" where
  "ordered desc key rows = (if desc then rev (sort_key key rows) else sort_key key rows)"

text \<open>The rows of a page, and its last row when a further page follows.\<close>

definition page_rows :: "bool \<Rightarrow> ('r \<Rightarrow> 'k::linorder) \<Rightarrow> 'k option \<Rightarrow> nat \<times> nat \<Rightarrow> 'r list \<Rightarrow> 'r list \<times> 'r option" where
  "page_rows desc key cur window rows =
     (case window of (eff, fetch) \<Rightarrow>
        let items = take fetch (ordered desc key (filter (\<lambda>r. past desc cur (key r)) rows)) in
        if length items > eff then (take eff items, Some (items ! (eff - 1))) else (items, None))"

subsection \<open>Sorting by a column\<close>

datatype sort_value = SNum rat | SText string | STime time

text \<open>The columns of one query have values of one kind.\<close>

instantiation sort_value :: linorder
begin

fun less_eq_sort_value :: "sort_value \<Rightarrow> sort_value \<Rightarrow> bool" where
  "less_eq_sort_value (SNum a) (SNum b) = (a \<le> b)"
| "less_eq_sort_value (SText a) (SText b) = (a \<le> b)"
| "less_eq_sort_value (STime a) (STime b) = (a \<le> b)"
| "less_eq_sort_value (SNum _) _ = True"
| "less_eq_sort_value (SText _) (SNum _) = False"
| "less_eq_sort_value (SText _) (STime _) = True"
| "less_eq_sort_value (STime _) _ = False"

definition less_sort_value :: "sort_value \<Rightarrow> sort_value \<Rightarrow> bool" where
  "less_sort_value a b = (a \<le> b \<and> \<not> b \<le> (a :: sort_value))"

instance
proof
  fix x y z :: sort_value
  show "(x < y) = (x \<le> y \<and> \<not> y \<le> x)" by (rule less_sort_value_def)
  show "x \<le> x" by (cases x) simp_all
  show "x \<le> y \<Longrightarrow> y \<le> z \<Longrightarrow> x \<le> z" by (cases x; cases y; cases z) auto
  show "x \<le> y \<Longrightarrow> y \<le> x \<Longrightarrow> x = y" by (cases x; cases y) auto
  show "x \<le> y \<or> y \<le> x" by (cases x; cases y) auto
qed

end

record 'r sortCol =
  sc_expr :: "'r \<Rightarrow> sort_value"
  sc_cast :: string
  sc_defDesc :: bool

record 'r sortSpec =
  ss_key :: string
  ss_col :: "'r sortCol"
  ss_desc :: bool

text \<open>A key that the map of columns does not have gives the zero value of a column.\<close>

definition resolveSort :: "string \<Rightarrow> string \<Rightarrow> (string, 'r sortCol) gomap \<Rightarrow> string \<Rightarrow> 'r sortSpec" where
  "resolveSort key dir cols defKey =
     (let zero = \<lparr>sc_expr = (\<lambda>_. SText []), sc_cast = [], sc_defDesc = False\<rparr>;
          (k, c) = (case map_of cols key of
             Some c \<Rightarrow> (key, c)
           | None \<Rightarrow> (defKey, case map_of cols defKey of Some c \<Rightarrow> c | None \<Rightarrow> zero)) in
      \<lparr>ss_key = k, ss_col = c, ss_desc = (if dir = ''asc'' then False else if dir = ''desc'' then True else sc_defDesc c)\<rparr>)"

text \<open>The database's text of a value, and the cast of a text, which may fail.\<close>

record pg =
  pg_text :: "sort_value \<Rightarrow> string"
  pg_cast :: "string \<Rightarrow> string \<Rightarrow> string + sort_value"

definition sort_key_of :: "'r sortSpec \<Rightarrow> ('r \<Rightarrow> string) \<Rightarrow> 'r \<Rightarrow> sort_value \<times> string" where
  "sort_key_of spec tie r = (sc_expr (ss_col spec) r, tie r)"

definition seek_key :: "pg \<Rightarrow> 'r sortSpec \<Rightarrow> (string \<times> string) option \<Rightarrow> string + (sort_value \<times> string) option" where
  "seek_key db spec cur =
     (case cur of
        None \<Rightarrow> Inr None
      | Some (v, i) \<Rightarrow> (case pg_cast db (sc_cast (ss_col spec)) v of Inl m \<Rightarrow> Inl m | Inr x \<Rightarrow> Inr (Some (x, i))))"

text \<open>The query of a sorted page, and the token of the next one.\<close>

definition sort_page ::
  "pg \<Rightarrow> (string \<times> string) codec \<Rightarrow> (go_error \<Rightarrow> go_error) \<Rightarrow> 'r sortSpec \<Rightarrow> ('r \<Rightarrow> string) \<Rightarrow> string \<Rightarrow> int \<Rightarrow> 'r list \<Rightarrow> ('r list \<times> string) result" where
  "sort_page db js wrap spec tie cursor limit rows =
     (case seek_key db spec (decodeSortCursor js cursor) of
        Inl m \<Rightarrow> Inl (wrap (Driver m))
      | Inr cur \<Rightarrow>
          (case page_rows (ss_desc spec) (sort_key_of spec tie) cur (clampLimit limit) rows of
             (items, None) \<Rightarrow> Inr (items, [])
           | (items, Some r) \<Rightarrow> Inr (items, encodeSortCursor js (pg_text db (sc_expr (ss_col spec) r)) (tie r))))"

section \<open>The encoding is inverted\<close>

lemma b64_encode_padding:
  "list_all (\<lambda>b. b < 256) bs \<Longrightarrow> \<exists>ds p. b64_encode bs = ds @ replicate p CHR ''='' \<and> p = (4 - length ds mod 4) mod 4 \<and>
     set ds \<subseteq> b64_digit ` {..<64} \<and> (bs \<noteq> [] \<longrightarrow> ds \<noteq> [])"
proof (induction bs rule: b64_encode.induct)
  case (2 a)
  let ?ds = "[b64_digit (a div 4), b64_digit (a mod 4 * 16)]"
  from 2 have "a div 4 < 64" "a mod 4 * 16 < 64" by auto
  then have "set ?ds \<subseteq> b64_digit ` {..<64}" by simp
  then show ?case by (intro exI [of _ ?ds] exI [of _ 2]) (simp add: numeral_2_eq_2)
next
  case (3 a b)
  let ?ds = "[b64_digit (a div 4), b64_digit (a mod 4 * 16 + b div 16), b64_digit (b mod 16 * 4)]"
  from 3 have "a div 4 < 64" "a mod 4 * 16 + b div 16 < 64" "b mod 16 * 4 < 64" by auto
  then have "set ?ds \<subseteq> b64_digit ` {..<64}" by simp
  then show ?case by (intro exI [of _ ?ds] exI [of _ 1]) simp
next
  case (4 a b c bs)
  let ?hs = "[b64_digit (a div 4), b64_digit (a mod 4 * 16 + b div 16), b64_digit (b mod 16 * 4 + c div 64), b64_digit (c mod 64)]"
  from 4 obtain ds p where IH: "b64_encode bs = ds @ replicate p CHR ''=''" "p = (4 - length ds mod 4) mod 4" "set ds \<subseteq> b64_digit ` {..<64}" by auto
  from 4(2) have "a div 4 < 64" "a mod 4 * 16 + b div 16 < 64" "b mod 16 * 4 + c div 64 < 64" "c mod 64 < 64" by auto
  then have "set ?hs \<subseteq> b64_digit ` {..<64}" by simp
  with IH show ?case by (intro exI [of _ "?hs @ ds"] exI [of _ p]) simp
qed simp

lemma url_char_digit:
  assumes "i < 64"
  shows "std_char (url_char (b64_digit i)) = b64_digit i" and "url_char (b64_digit i) \<noteq> CHR ''+''" and "url_char (b64_digit i) \<noteq> CHR ''/''"
    and "url_char (b64_digit i) \<noteq> CHR ''=''" and "url_char (b64_digit i) \<noteq> CHR 0x0A" and "url_char (b64_digit i) \<noteq> CHR 0x0D"
proof -
  have "list_all (\<lambda>i. std_char (url_char (b64_digit i)) = b64_digit i \<and>
      url_char (b64_digit i) \<notin> {CHR ''+'', CHR ''/'', CHR ''='', CHR 0x0A, CHR 0x0D}) [0..<64]" by code_simp
  then have "std_char (url_char (b64_digit i)) = b64_digit i \<and> url_char (b64_digit i) \<notin> {CHR ''+'', CHR ''/'', CHR ''='', CHR 0x0A, CHR 0x0D}"
    using assms by (simp only: list_all_iff set_upt) simp
  then show "std_char (url_char (b64_digit i)) = b64_digit i" "url_char (b64_digit i) \<noteq> CHR ''+''" "url_char (b64_digit i) \<noteq> CHR ''/''"
    "url_char (b64_digit i) \<noteq> CHR ''=''" "url_char (b64_digit i) \<noteq> CHR 0x0A" "url_char (b64_digit i) \<noteq> CHR 0x0D" by simp_all
qed

lemma digits_all: "set ds \<subseteq> b64_digit ` {..<64} \<Longrightarrow> (\<And>i. i < 64 \<Longrightarrow> P (b64_digit i)) \<Longrightarrow> \<forall>c \<in> set ds. P c"
  by blast

lemma RawURL_roundtrip: "RawURL_Decode (RawURL_Encode s) = Some s" and RawURL_nonempty: "s \<noteq> [] \<Longrightarrow> RawURL_Encode s \<noteq> []"
proof -
  have "list_all (\<lambda>b. b < 256) (map (of_char :: char \<Rightarrow> nat) s)" by (simp add: list_all_iff)
  from b64_encode_padding [OF this] obtain ds p where enc: "EncodeToString s = ds @ replicate p CHR ''=''" "p = (4 - length ds mod 4) mod 4"
      "set ds \<subseteq> b64_digit ` {..<64}" "s \<noteq> [] \<longrightarrow> ds \<noteq> []" by (auto simp: EncodeToString_def)
  have "\<forall>c \<in> set ds. c \<noteq> CHR ''=''" by (rule digits_all [OF enc(3)]) (simp only: b64_digit_plain not_False_eq_True)
  then have "takeWhile (\<lambda>c. c \<noteq> CHR ''='') (EncodeToString s) = ds"
    unfolding enc(1) by (subst takeWhile_append2) (cases p; simp)+
  then have url: "RawURL_Encode s = map url_char ds" by (simp add: RawURL_Encode_def)
  have "\<forall>c \<in> set ds. std_char (url_char c) = c" by (rule digits_all [OF enc(3)]) (rule url_char_digit(1))
  then have undo: "map std_char (map url_char ds) = ds" by (simp add: map_idI)
  have "\<forall>c \<in> set ds. url_char c \<noteq> CHR 0x0A \<and> url_char c \<noteq> CHR 0x0D"
    by (rule digits_all [OF enc(3)]) (intro conjI url_char_digit)
  then have keep: "filter (\<lambda>c. c \<noteq> CHR 0x0A \<and> c \<noteq> CHR 0x0D) (map url_char ds) = map url_char ds" by (intro filter_True) simp
  have "\<forall>c \<in> set ds. \<not> (url_char c = CHR ''+'' \<or> url_char c = CHR ''/'' \<or> url_char c = CHR ''='')"
    by (rule digits_all [OF enc(3)]) (simp only: de_Morgan_disj, intro conjI url_char_digit)
  then have "\<not> list_ex (\<lambda>c. c = CHR ''+'' \<or> c = CHR ''/'' \<or> c = CHR ''='') (map url_char ds)" by (simp add: list_ex_iff)
  then show "RawURL_Decode (RawURL_Encode s) = Some s"
    unfolding RawURL_Decode_def url keep Let_def undo using DecodeString_EncodeToString [of s] enc(1,2) by simp
  show "s \<noteq> [] \<Longrightarrow> RawURL_Encode s \<noteq> []" using enc(4) by (simp add: url)
qed

lemma sort_cursor_roundtrip:
  "codec_ok js (v, i) \<Longrightarrow> decodeSortCursor js (encodeSortCursor js v i) = Some (v, i)" "codec_ok js (v, i) \<Longrightarrow> encodeSortCursor js v i \<noteq> []"
  by (simp_all add: decodeSortCursor_def encodeSortCursor_def codec_ok_def RawURL_nonempty RawURL_roundtrip)

lemma cursor_roundtrip:
  "codec_ok js (ts, i) \<Longrightarrow> decodeCursor js (encodeCursor js ts i) = Some (ts, i)" "codec_ok js (ts, i) \<Longrightarrow> encodeCursor js ts i \<noteq> []"
  by (simp_all add: decodeCursor_def encodeCursor_def codec_ok_def RawURL_nonempty RawURL_roundtrip)

text \<open>The key of a row survives the way through a token and the database's cast. Numbers of type \<open>real\<close> do not:
  their text is cast to a number of double precision.\<close>

definition survives :: "pg \<Rightarrow> (string \<times> string) codec \<Rightarrow> 'r sortSpec \<Rightarrow> ('r \<Rightarrow> string) \<Rightarrow> 'r \<Rightarrow> bool" where
  "survives db js spec tie r =
     (let v = sc_expr (ss_col spec) r in
      codec_ok js (pg_text db v, tie r) \<and> pg_cast db (sc_cast (ss_col spec)) (pg_text db v) = Inr v)"

definition sort_token :: "pg \<Rightarrow> (string \<times> string) codec \<Rightarrow> sort_value \<times> string \<Rightarrow> string" where
  "sort_token db js k = encodeSortCursor js (pg_text db (fst k)) (snd k)"

definition page_size :: "int \<Rightarrow> nat" where "page_size limit = fst (clampLimit limit)"

lemma clampLimit_window: "clampLimit limit = (page_size limit, Suc (page_size limit))" and page_size_pos: "0 < page_size limit"
  and page_size_le: "page_size limit \<le> 1000"
  by (auto simp: page_size_def clampLimit_def Let_def defaultPageLimit_def)

lemma sort_page_first:
  "sort_page db js wrap spec tie [] limit rows =
     (case page_rows (ss_desc spec) (sort_key_of spec tie) None (page_size limit, Suc (page_size limit)) rows of
        (items, final) \<Rightarrow> Inr (items, case final of None \<Rightarrow> [] | Some r \<Rightarrow> sort_token db js (sort_key_of spec tie r)))"
  by (auto simp: sort_page_def decodeSortCursor_def seek_key_def clampLimit_window sort_token_def sort_key_of_def split: prod.splits option.splits)

lemma sort_page_next:
  "survives db js spec' tie' x \<Longrightarrow> sc_cast (ss_col spec') = sc_cast (ss_col spec) \<Longrightarrow>
   sort_page db js wrap spec tie (sort_token db js (sort_key_of spec' tie' x)) limit rows =
     (case page_rows (ss_desc spec) (sort_key_of spec tie) (Some (sort_key_of spec' tie' x)) (page_size limit, Suc (page_size limit)) rows of
        (items, final) \<Rightarrow> Inr (items, case final of None \<Rightarrow> [] | Some r \<Rightarrow> sort_token db js (sort_key_of spec tie r)))"
  by (auto simp: sort_page_def sort_token_def sort_key_of_def survives_def Let_def sort_cursor_roundtrip(1) seek_key_def clampLimit_window
      split: prod.splits option.splits)

lemma sort_token_nonempty: "survives db js spec tie r \<Longrightarrow> sort_token db js (sort_key_of spec tie r) \<noteq> []"
  by (simp add: survives_def Let_def sort_token_def sort_key_of_def sort_cursor_roundtrip)

section \<open>Following the tokens\<close>

definition strictly :: "bool \<Rightarrow> ('r \<Rightarrow> 'k::linorder) \<Rightarrow> 'r list \<Rightarrow> bool" where
  "strictly desc key rs = sorted_wrt (\<lambda>a b. past desc (Some (key a)) (key b)) rs"

lemma strictly_ordered:
  assumes "distinct_key key rows"
  shows "strictly desc key (ordered desc key rows)"
proof -
  have "sorted_wrt (<) (map key (sort_key key rows))" using assms by (simp add: strict_sorted_iff distinct_key_def distinct_map)
  then have "sorted_wrt (\<lambda>a b. key a < key b) (sort_key key rows)" by (simp add: sorted_wrt_map)
  then show ?thesis by (simp add: strictly_def ordered_def past_def sorted_wrt_rev)
qed

lemma ordered_filter: "ordered desc key (filter P rows) = filter P (ordered desc key rows)"
  by (simp add: ordered_def rev_filter flip: filter_sort)

lemma set_ordered [simp]: "set (ordered desc key rows) = set rows"
  by (simp add: ordered_def)

lemma past_trans: "past desc (Some c) k \<Longrightarrow> past desc cur c \<Longrightarrow> past desc cur k"
  by (auto simp: past_def split: option.splits if_splits)

lemma past_irrefl: "\<not> past desc (Some k) k"
  by (simp add: past_def)

lemma past_asym: "past desc (Some a) b \<Longrightarrow> \<not> past desc (Some b) a"
  by (auto simp: past_def split: if_splits)

text \<open>What is past the row at a position are the rows after it.\<close>

lemma filter_past_nth:
  assumes "strictly desc key rs" and "i < length rs"
  shows "filter (\<lambda>r. past desc (Some (key (rs ! i))) (key r)) rs = drop (Suc i) rs"
proof -
  let ?x = "rs ! i"
  have rs: "rs = take i rs @ ?x # drop (Suc i) rs" using assms(2) by (rule id_take_nth_drop)
  then have s: "sorted_wrt (\<lambda>a b. past desc (Some (key a)) (key b)) (take i rs @ ?x # drop (Suc i) rs)"
    using assms(1) by (simp add: strictly_def)
  then have "\<forall>r \<in> set (take i rs). \<not> past desc (Some (key ?x)) (key r)" by (auto simp: sorted_wrt_append dest: past_asym)
  moreover have "\<forall>r \<in> set (drop (Suc i) rs). past desc (Some (key ?x)) (key r)" using s by (simp add: sorted_wrt_append)
  ultimately show ?thesis by (subst rs) (simp add: past_irrefl)
qed

text \<open>The rest of the list: the rows past a cursor, in order.\<close>

definition rest :: "bool \<Rightarrow> ('r \<Rightarrow> 'k::linorder) \<Rightarrow> 'k option \<Rightarrow> 'r list \<Rightarrow> 'r list" where
  "rest desc key cur rows = ordered desc key (filter (\<lambda>r. past desc cur (key r)) rows)"

lemma rest_None: "rest desc key None rows = ordered desc key rows"
  by (simp add: rest_def past_def)

lemma rest_next:
  assumes "distinct_key key rows" and "0 < eff" and "eff < length (rest desc key cur rows)"
  shows "rest desc key (Some (key (rest desc key cur rows ! (eff - 1)))) rows = drop eff (rest desc key cur rows)"
proof -
  let ?L = "rest desc key cur rows" and ?x = "rest desc key cur rows ! (eff - 1)"
  have "?x \<in> set ?L" using assms(3) by (intro nth_mem) simp
  then have x: "past desc cur (key ?x)" by (simp add: rest_def)
  have "rest desc key (Some (key ?x)) rows = filter (\<lambda>r. past desc (Some (key ?x)) (key r)) (ordered desc key rows)"
    by (simp add: rest_def ordered_filter)
  also have "\<dots> = filter (\<lambda>r. past desc (Some (key ?x)) (key r)) ?L"
    unfolding rest_def ordered_filter filter_filter by (rule filter_cong) (auto intro: past_trans [OF _ x] simp: rest_def ordered_filter)
  also have "\<dots> = drop (Suc (eff - 1)) ?L"
    by (rule filter_past_nth) (use assms in \<open>simp_all add: rest_def strictly_ordered distinct_key_filter\<close>)
  finally show ?thesis using assms(2) by simp
qed

lemma page_rows_rest:
  "page_rows desc key cur (eff, Suc eff) rows =
     (let L = rest desc key cur rows in if length L > eff then (take eff L, Some (L ! (eff - 1))) else (L, None))"
  by (simp add: page_rows_def rest_def Let_def min_def)

text \<open>A reader who follows the tokens, at each page with the state of its own.\<close>

fun follow :: "('s \<Rightarrow> string \<Rightarrow> 'i list \<times> string) \<Rightarrow> 's list \<Rightarrow> string \<Rightarrow> 'i list \<times> bool" where
  "follow query [] cursor = ([], False)"
| "follow query (s # ss) cursor =
     (case query s cursor of (items, next) \<Rightarrow>
        if next = [] then (items, True) else (case follow query ss next of (later, ended) \<Rightarrow> (items @ later, ended)))"

locale keyset_query =
  fixes query :: "'s \<Rightarrow> string \<Rightarrow> 'i list \<times> string" and rows :: "'s \<Rightarrow> 'r list" and key :: "'s \<Rightarrow> 'r \<Rightarrow> 'k::linorder"
    and view :: "'s \<Rightarrow> 'r \<Rightarrow> 'i" and good :: "'s \<Rightarrow> bool" and desc :: bool and eff :: nat and token :: "'k \<Rightarrow> string"
  assumes eff_pos: "0 < eff"
    and unique: "good s \<Longrightarrow> distinct_key (key s) (rows s)"
    and token_nonempty: "good s \<Longrightarrow> r \<in> set (rows s) \<Longrightarrow> token (key s r) \<noteq> []"
    and first_page: "good s \<Longrightarrow> query s [] = (case page_rows desc (key s) None (eff, Suc eff) (rows s) of
          (items, final) \<Rightarrow> (map (view s) items, case final of None \<Rightarrow> [] | Some r \<Rightarrow> token (key s r)))"
    and next_page: "good s \<Longrightarrow> good s' \<Longrightarrow> r \<in> set (rows s') \<Longrightarrow> query s (token (key s' r)) =
        (case page_rows desc (key s) (Some (key s' r)) (eff, Suc eff) (rows s) of
          (items, final) \<Rightarrow> (map (view s) items, case final of None \<Rightarrow> [] | Some r \<Rightarrow> token (key s r)))"
begin

text \<open>The tokens a reader can hold, and the position each stands for.\<close>

definition holds :: "string \<Rightarrow> 'k option \<Rightarrow> bool" where
  "holds cursor cur \<longleftrightarrow> cursor = [] \<and> cur = None \<or> (\<exists>s r. good s \<and> r \<in> set (rows s) \<and> cursor = token (key s r) \<and> cur = Some (key s r))"

lemma query_rest:
  assumes "good s" and "holds cursor cur"
  shows "query s cursor = (let L = rest desc (key s) cur (rows s) in
     if length L > eff then (map (view s) (take eff L), token (key s (L ! (eff - 1)))) else (map (view s) L, []))"
proof -
  have "query s cursor = (case page_rows desc (key s) cur (eff, Suc eff) (rows s) of
          (items, final) \<Rightarrow> (map (view s) items, case final of None \<Rightarrow> [] | Some r \<Rightarrow> token (key s r)))"
    using assms first_page next_page by (auto simp: holds_def)
  then show ?thesis by (simp add: page_rows_rest Let_def)
qed

lemma holds_next:
  assumes "good s" and "eff < length (rest desc (key s) cur (rows s))"
  shows "holds (token (key s (rest desc (key s) cur (rows s) ! (eff - 1)))) (Some (key s (rest desc (key s) cur (rows s) ! (eff - 1))))"
    and "token (key s (rest desc (key s) cur (rows s) ! (eff - 1))) \<noteq> []"
proof -
  have "rest desc (key s) cur (rows s) ! (eff - 1) \<in> set (rest desc (key s) cur (rows s))" using assms(2) by (intro nth_mem) simp
  then have "rest desc (key s) cur (rows s) ! (eff - 1) \<in> set (rows s)" by (simp add: rest_def)
  with assms(1) show "holds (token (key s (rest desc (key s) cur (rows s) ! (eff - 1)))) (Some (key s (rest desc (key s) cur (rows s) ! (eff - 1))))"
    "token (key s (rest desc (key s) cur (rows s) ! (eff - 1))) \<noteq> []"
    using token_nonempty by (auto simp: holds_def)
qed

lemma follow_same:
  assumes "good s" and "holds cursor cur" and "length (rest desc (key s) cur (rows s)) < m * eff"
  shows "follow query (replicate m s) cursor = (map (view s) (rest desc (key s) cur (rows s)), True)"
  using assms(2,3)
proof (induction m arbitrary: cursor cur)
  case (Suc m)
  let ?L = "rest desc (key s) cur (rows s)"
  show ?case
  proof (cases "eff < length ?L")
    case True
    let ?k = "key s (?L ! (eff - 1))"
    have r: "rest desc (key s) (Some ?k) (rows s) = drop eff ?L" by (rule rest_next [OF unique [OF assms(1)] eff_pos True])
    have "follow query (replicate m s) (token ?k) = (map (view s) (drop eff ?L), True)"
      by (rule Suc.IH [OF holds_next(1) [OF assms(1) True], unfolded r]) (use Suc.prems(2) True in simp)
    then show ?thesis using True holds_next(2) [OF assms(1) True]
      by (simp add: query_rest [OF assms(1) Suc.prems(1)] Let_def flip: map_append)
  next
    case False
    then show ?thesis by (simp add: query_rest [OF assms(1) Suc.prems(1)] Let_def)
  qed
qed simp

lemma follow_complete: "good s \<Longrightarrow> length (rows s) < m * eff \<Longrightarrow> follow query (replicate m s) [] = (map (view s) (ordered desc (key s) (rows s)), True)"
  using follow_same [of s "[]" None m] by (simp add: holds_def rest_None ordered_def)

lemma follow_keeps:
  assumes "follow query ss cursor = (items, True)" and "holds cursor cur" and "past desc cur k"
    and "\<forall>s \<in> set ss. good s \<and> r \<in> set (rows s) \<and> key s r = k"
  shows "\<exists>s \<in> set ss. view s r \<in> set items"
  using assms
proof (induction ss arbitrary: cursor cur items)
  case (Cons s ss)
  let ?L = "rest desc (key s) cur (rows s)"
  from Cons.prems(4) have s: "good s" "r \<in> set (rows s)" "key s r = k" by auto
  with Cons.prems(3) have r: "r \<in> set ?L" by (simp add: rest_def)
  note q = query_rest [OF s(1) Cons.prems(2)]
  show ?case
  proof (cases "eff < length ?L")
    case False
    then have "items = map (view s) ?L" using Cons.prems(1) by (simp add: q Let_def)
    with r show ?thesis by auto
  next
    case True
    let ?k = "key s (?L ! (eff - 1))"
    from True Cons.prems(1) holds_next(2) [OF s(1) True] obtain later where later: "follow query ss (token ?k) = (later, True)"
      "items = map (view s) (take eff ?L) @ later" by (auto simp: q Let_def split: prod.splits)
    show ?thesis
    proof (cases "r \<in> set (take eff ?L)")
      case True
      then show ?thesis by (auto simp: later(2))
    next
      case False
      with r have "r \<in> set (drop eff ?L)" by (metis Un_iff append_take_drop_id set_append)
      then have "r \<in> set (rest desc (key s) (Some ?k) (rows s))" by (simp only: rest_next [OF unique [OF s(1)] eff_pos True])
      then have "past desc (Some ?k) k" by (simp add: rest_def s(3))
      from Cons.IH [OF later(1) holds_next(1) [OF s(1) True] this] Cons.prems(4) show ?thesis by (auto simp: later(2))
    qed
  qed
qed simp

end

end
