(* ===== verification/Compare.thy ===== *)
theory Compare
  imports Read_Models
begin

text \<open>
  Comparing two SBOMs of an image and recommending an upgrade: \<open>pkg/data/postgres/compare.go\<close>. The findings
  of the scanners are merged by identifier, without those a VEX statement suppresses.

  A Go map is an association list; the code sorts what it lists from one, and findings or packages with
  equal sort keys come in the order of the list.
\<close>

section \<open>Sides\<close>

abbreviation PostureImproves :: string where "PostureImproves \<equiv> ''improves''"
abbreviation PostureRegresses :: string where "PostureRegresses \<equiv> ''regresses''"
abbreviation PostureUnchanged :: string where "PostureUnchanged \<equiv> ''unchanged''"

record PostureCounts =
  pc_KEV :: nat
  pc_Critical :: nat
  pc_High :: nat
  pc_Medium :: nat
  pc_Low :: nat
  pc_Total :: nat

record ComparisonSide =
  side_SBOMID :: string
  side_Repository :: string
  side_Version :: string
  side_Digest :: string
  side_Counts :: PostureCounts

definition no_counts :: PostureCounts where
  "no_counts = \<lparr>pc_KEV = 0, pc_Critical = 0, pc_High = 0, pc_Medium = 0, pc_Low = 0, pc_Total = 0\<rparr>"

record ComparisonFinding =
  cf_FindingID :: string
  cf_Exposure :: string
  cf_Package :: string
  cf_Version :: string
  cf_Severity :: string
  cf_Score :: rat
  cf_Fixed :: bool
  cf_PreviousSeverity :: string
  cf_PreviousScore :: rat

record comparisonFindingState = ComparisonFinding +
  cf_KEV :: bool

record ComparisonPackage =
  cp_Package :: string
  cp_Version :: string
  cp_Licenses :: "string list"

record LicenseChange =
  lc_Package :: string
  lc_Version :: string
  lc_From :: "string list"
  lc_To :: "string list"

record LicensePolicyRegression = LicenseChange +
  lr_Reason :: string

record SBOMComparison =
  cmp_From :: ComparisonSide
  cmp_To :: ComparisonSide
  cmp_Verdict :: string
  cmp_Added :: "ComparisonFinding list"
  cmp_Resolved :: "ComparisonFinding list"
  cmp_Rerated :: "ComparisonFinding list"
  cmp_NewlyFixable :: "ComparisonFinding list"
  cmp_PackagesAdded :: "ComparisonPackage list"
  cmp_PackagesRemoved :: "ComparisonPackage list"
  cmp_LicenseChanges :: "LicenseChange list"
  cmp_Regressions :: "LicensePolicyRegression list"

record UpgradeRecommendation =
  up_Baseline :: ComparisonSide
  up_Candidate :: ComparisonSide
  up_Comparison :: SBOMComparison

definition side_row :: "string \<Rightarrow> string \<Rightarrow> (sbom_row \<Rightarrow> bool) \<Rightarrow> platform \<Rightarrow> ComparisonSide result" where
  "side_row tenantID sbomID visible s =
     (case List.find (\<lambda>sb. TenantID sb = tenantID \<and> ID sb = sbomID \<and> visible sb) (sboms (catalog s)) of
        None \<Rightarrow> Inl ErrNotFound
      | Some sb \<Rightarrow> Inr \<lparr>side_SBOMID = ID sb, side_Repository = Repository sb, side_Version = SBOMVersion sb, side_Digest = Digest sb,
          side_Counts = no_counts\<rparr>)"

definition comparable :: "sbom_row \<Rightarrow> bool" where
  "comparable sb = (Status sb = ''active'' \<or> Status sb = ''archived'')"

definition comparisonSide :: "string \<Rightarrow> string \<Rightarrow> (platform, ComparisonSide) db" where
  "comparisonSide tenantID sbomID = db_read (Wrapf ''load comparison SBOM: '') (\<lambda>_. side_row tenantID sbomID comparable)"

definition activeComparisonSide :: "string \<Rightarrow> string \<Rightarrow> (platform, ComparisonSide) db" where
  "activeComparisonSide tenantID sbomID =
     db_read (Wrapf ''load active comparison SBOM: '') (\<lambda>_. side_row tenantID sbomID (\<lambda>sb. Status sb = ''active''))"

section \<open>Findings\<close>

text \<open>\<open>severityRankSQLCol\<close>.\<close>

definition severityRankSQL :: "string \<Rightarrow> nat" where
  "severityRankSQL sev =
     (if sev = ''critical'' then 0 else if sev = ''high'' then 1 else if sev = ''medium'' then 2
      else if sev = ''low'' then 3 else if sev = ''negligible'' then 4 else 5)"

text \<open>The rows of one identifier merged: the worst severity, the highest score, and whether some scanner knows a fix.\<close>

definition merged :: "platform \<Rightarrow> string \<Rightarrow> finding_row list \<Rightarrow> comparisonFindingState" where
  "merged s fid g =
     \<lparr>cf_FindingID = fid, cf_Exposure = Min (set (map (\<lambda>f. Exposure (f_vuln f)) g)), cf_Package = Min (set (map (\<lambda>f. Package (f_vuln f)) g)),
      cf_Version = Min (set (map (\<lambda>f. Version (f_vuln f)) g)),
      cf_Severity = hd (sort_key severityRankSQL (map (\<lambda>f. Severity (f_vuln f)) g)), cf_Score = Max (set (map (\<lambda>f. Score (f_vuln f)) g)),
      cf_Fixed = list_ex fixable g, cf_PreviousSeverity = [], cf_PreviousScore = 0,
      cf_KEV = list_ex (\<lambda>f. kev_cve (catalog s) (Exposure (f_vuln f))) g\<rparr>"

definition merged_findings :: "platform \<Rightarrow> sbom_row \<Rightarrow> (string, comparisonFindingState) gomap" where
  "merged_findings s sb =
     (let fs = live_findings s sb in
      map (\<lambda>fid. (fid, merged s fid (filter (\<lambda>f. f_id f = fid) fs))) (remdups (map f_id fs)))"

definition comparison_findings :: "string \<Rightarrow> string \<Rightarrow> platform \<Rightarrow> (string, comparisonFindingState) gomap" where
  "comparison_findings tenantID sbomID s =
     (case List.find (\<lambda>sb. TenantID sb = tenantID \<and> ID sb = sbomID \<and> comparable sb) (sboms (catalog s)) of
        None \<Rightarrow> []
      | Some sb \<Rightarrow> merged_findings s sb)"

definition comparisonFindings :: "string \<Rightarrow> string \<Rightarrow> (platform, (string, comparisonFindingState) gomap) db" where
  "comparisonFindings tenantID sbomID =
     db_read (Wrapf ''load comparison findings: '') (\<lambda>_ s. Inr (comparison_findings tenantID sbomID s))"

definition comparisonCounts :: "(string, comparisonFindingState) gomap \<Rightarrow> PostureCounts" where
  "comparisonCounts m =
     (let count = (\<lambda>p. count_where p (map snd m)); sev = (\<lambda>x f. cf_Severity f = x) in
      \<lparr>pc_KEV = count cf_KEV, pc_Critical = count (sev ''critical''), pc_High = count (sev ''high''), pc_Medium = count (sev ''medium''),
       pc_Low = count (sev ''low''), pc_Total = length m\<rparr>)"

definition posture_list :: "PostureCounts \<Rightarrow> nat list" where
  "posture_list c = [pc_KEV c, pc_Critical c, pc_High c, pc_Medium c, pc_Low c, pc_Total c]"

fun compare_from :: "nat list \<Rightarrow> nat list \<Rightarrow> string" where
  "compare_from (a # as) (b # bs) = (if b < a then PostureImproves else if b > a then PostureRegresses else compare_from as bs)"
| "compare_from _ _ = PostureUnchanged"

definition comparePosture :: "PostureCounts \<Rightarrow> PostureCounts \<Rightarrow> string" where
  "comparePosture c d = compare_from (posture_list c) (posture_list d)"

definition sortFindings :: "ComparisonFinding list \<Rightarrow> ComparisonFinding list" where
  "sortFindings xs = sort_key cf_Exposure xs"

definition finding_of :: "comparisonFindingState \<Rightarrow> ComparisonFinding" where
  "finding_of f = ComparisonFinding.truncate f"

definition absent :: "('k, 'v) gomap \<Rightarrow> ('k, 'w) gomap \<Rightarrow> 'v list" where
  "absent m m' = map snd (filter (\<lambda>(k, v). map_of m' k = None) m)"

definition kept_pairs :: "('k, 'v) gomap \<Rightarrow> ('k, 'w) gomap \<Rightarrow> ('v \<times> 'w) list" where
  "kept_pairs m m' = List.map_filter (\<lambda>(k, v). map_option (Pair v) (map_of m' k)) m"

definition rerated_findings :: "(comparisonFindingState \<times> comparisonFindingState) list \<Rightarrow> ComparisonFinding list" where
  "rerated_findings ps =
     map (\<lambda>(before, after). (finding_of after)\<lparr>cf_PreviousSeverity := cf_Severity before, cf_PreviousScore := cf_Score before\<rparr>)
       (filter (\<lambda>(before, after). cf_Severity before \<noteq> cf_Severity after \<or> cf_Score before \<noteq> cf_Score after) ps)"

definition newly_fixable :: "(comparisonFindingState \<times> comparisonFindingState) list \<Rightarrow> ComparisonFinding list" where
  "newly_fixable ps = map (\<lambda>(before, after). finding_of after) (filter (\<lambda>(before, after). \<not> cf_Fixed before \<and> cf_Fixed after) ps)"

section \<open>Packages\<close>

definition package_of :: "package_row \<Rightarrow> ComparisonPackage" where
  "package_of p = \<lparr>cp_Package = pl_package (pk_license p), cp_Version = pl_version (pk_license p), cp_Licenses = sort (pl_licenses (pk_license p))\<rparr>"

definition comparison_packages :: "string \<Rightarrow> string \<Rightarrow> platform \<Rightarrow> (string, ComparisonPackage) gomap" where
  "comparison_packages tenantID sbomID s =
     (if list_ex (\<lambda>sb. TenantID sb = tenantID \<and> ID sb = sbomID \<and> comparable sb) (sboms (catalog s))
      then map_from (\<lambda>p. cp_Package p @ [CHR 0x00] @ cp_Version p) (\<lambda>p. p)
        (sort_key (\<lambda>p. (cp_Package p, cp_Version p)) (map package_of (filter (\<lambda>p. pk_sbom p = sbomID) (packages (catalog s)))))
      else [])"

definition comparisonPackages :: "string \<Rightarrow> string \<Rightarrow> (platform, (string, ComparisonPackage) gomap) db" where
  "comparisonPackages tenantID sbomID =
     db_read (Wrapf ''load comparison packages: '') (\<lambda>_ s. Inr (comparison_packages tenantID sbomID s))"

definition comparisonPackageLicense :: "ComparisonPackage \<Rightarrow> PackageLicense" where
  "comparisonPackageLicense p = \<lparr>pl_package = cp_Package p, pl_version = cp_Version p, pl_purl = [], pl_licenses = cp_Licenses p\<rparr>"

definition violates :: "LicensePolicy \<Rightarrow> ComparisonPackage \<Rightarrow> bool" where
  "violates policy p = fst (Evaluate policy (comparisonPackageLicense p))"

definition license_changes :: "(ComparisonPackage \<times> ComparisonPackage) list \<Rightarrow> LicenseChange list" where
  "license_changes ps =
     map (\<lambda>(before, after). \<lparr>lc_Package = cp_Package before, lc_Version = cp_Version before, lc_From = cp_Licenses before, lc_To = cp_Licenses after\<rparr>)
       (filter (\<lambda>(before, after). cp_Licenses before \<noteq> cp_Licenses after) ps)"

definition regression :: "LicensePolicy \<Rightarrow> string list \<Rightarrow> ComparisonPackage \<Rightarrow> LicensePolicyRegression" where
  "regression policy from p =
     \<lparr>lc_Package = cp_Package p, lc_Version = cp_Version p, lc_From = from, lc_To = cp_Licenses p,
      lr_Reason = snd (Evaluate policy (comparisonPackageLicense p))\<rparr>"

definition regressions :: "LicensePolicy \<Rightarrow> (ComparisonPackage \<times> ComparisonPackage) list \<Rightarrow> ComparisonPackage list \<Rightarrow> LicensePolicyRegression list" where
  "regressions policy ps added =
     map (\<lambda>(before, after). regression policy (cp_Licenses before) after) (filter (\<lambda>(before, after). \<not> violates policy before \<and> violates policy after) ps) @
     map (regression policy []) (filter (violates policy) added)"

section \<open>Comparing\<close>

definition comparison ::
    "ComparisonSide \<Rightarrow> ComparisonSide \<Rightarrow> (string, comparisonFindingState) gomap \<Rightarrow> (string, comparisonFindingState) gomap \<Rightarrow>
     (string, ComparisonPackage) gomap \<Rightarrow> (string, ComparisonPackage) gomap \<Rightarrow> LicensePolicy \<Rightarrow> SBOMComparison" where
  "comparison from to ff tf fp tp policy =
     (let from = from\<lparr>side_Counts := comparisonCounts ff\<rparr>; to = to\<lparr>side_Counts := comparisonCounts tf\<rparr> in
      \<lparr>cmp_From = from, cmp_To = to, cmp_Verdict = comparePosture (side_Counts from) (side_Counts to),
       cmp_Added = sortFindings (map finding_of (absent tf ff)), cmp_Resolved = sortFindings (map finding_of (absent ff tf)),
       cmp_Rerated = sortFindings (rerated_findings (kept_pairs ff tf)), cmp_NewlyFixable = sortFindings (newly_fixable (kept_pairs ff tf)),
       cmp_PackagesAdded = sort_key (\<lambda>p. (cp_Package p, cp_Version p)) (absent tp fp),
       cmp_PackagesRemoved = sort_key (\<lambda>p. (cp_Package p, cp_Version p)) (absent fp tp),
       cmp_LicenseChanges = sort_key (\<lambda>c. (lc_Package c, lc_Version c)) (license_changes (kept_pairs fp tp)),
       cmp_Regressions = sort_key (\<lambda>c. (lc_Package c, lc_Version c)) (regressions policy (kept_pairs fp tp) (absent tp fp))\<rparr>)"

definition CompareSBOMs :: "string \<Rightarrow> string \<Rightarrow> string \<Rightarrow> (platform, SBOMComparison) db" where
  "CompareSBOMs tenantID fromID toID =
     (if fromID = toID then db_fail ErrInvalidComparison
      else
        db_bind (comparisonSide tenantID fromID) (\<lambda>from.
        db_bind (comparisonSide tenantID toID) (\<lambda>to.
        if side_Repository from \<noteq> side_Repository to then db_fail ErrInvalidComparison
        else
          db_bind (comparisonFindings tenantID fromID) (\<lambda>ff.
          db_bind (comparisonFindings tenantID toID) (\<lambda>tf.
          db_bind (comparisonPackages tenantID fromID) (\<lambda>fp.
          db_bind (comparisonPackages tenantID toID) (\<lambda>tp.
          db_bind (GetLicensePolicy tenantID) (\<lambda>policy.
          db_return (comparison from to ff tf fp tp policy)))))))))"

section \<open>Recommending\<close>

definition effective_at :: "sbom_row \<Rightarrow> time" where
  "effective_at sb = (if GeneratedAt sb = zero_time then SubmittedAt sb else GeneratedAt sb)"

definition generation :: "sbom_row \<Rightarrow> time \<times> string" where
  "generation sb = (effective_at sb, ID sb)"

definition later_generations :: "platform \<Rightarrow> sbom_row \<Rightarrow> sbom_row list" where
  "later_generations s base =
     filter (\<lambda>sb. TenantID sb = TenantID base \<and> Repository sb = Repository base \<and> Status sb = ''active'' \<and> generation base < generation sb)
       (sboms (catalog s))"

definition posture_of :: "platform \<Rightarrow> sbom_row \<Rightarrow> PostureCounts" where
  "posture_of s sb = comparisonCounts (merged_findings s sb)"

text \<open>The row comparison of the statement, and its guard on the total.\<close>

definition posture_row :: "PostureCounts \<Rightarrow> nat \<times> nat \<times> nat \<times> nat \<times> nat \<times> nat" where
  "posture_row c = (pc_KEV c, pc_Critical c, pc_High c, pc_Medium c, pc_Low c, pc_Total c)"

definition candidate_better :: "PostureCounts \<Rightarrow> PostureCounts \<Rightarrow> bool" where
  "candidate_better base c = (pc_Total c < pc_Total base \<and> posture_row c < posture_row base)"

definition select_candidate :: "string \<Rightarrow> string \<Rightarrow> platform \<Rightarrow> sbom_row option" where
  "select_candidate tenantID baselineID s =
     (case List.find (\<lambda>sb. TenantID sb = tenantID \<and> ID sb = baselineID \<and> Status sb = ''active'') (sboms (catalog s)) of
        None \<Rightarrow> None
      | Some base \<Rightarrow>
          (case sort_key generation (filter (\<lambda>sb. candidate_better (posture_of s base) (posture_of s sb)) (later_generations s base)) of
             [] \<Rightarrow> None
           | x # xs \<Rightarrow> Some (last (x # xs))))"

definition RecommendUpgrade :: "string \<Rightarrow> string \<Rightarrow> (platform, UpgradeRecommendation option) db" where
  "RecommendUpgrade tenantID baselineID =
     db_bind (activeComparisonSide tenantID baselineID) (\<lambda>_.
     db_bind (db_read (Wrapf ''select upgrade candidate: '') (\<lambda>_ s. Inr (map_option ID (select_candidate tenantID baselineID s)))) (\<lambda>candidate.
     case candidate of
       None \<Rightarrow> db_return None
     | Some candidateID \<Rightarrow>
         db_bind (CompareSBOMs tenantID baselineID candidateID) (\<lambda>c.
         db_return (Some \<lparr>up_Baseline = cmp_From c, up_Candidate = cmp_To c, up_Comparison = c\<rparr>))))"

definition ComparisonReadyRepositoryCount :: "string \<Rightarrow> (platform, nat) db" where
  "ComparisonReadyRepositoryCount tenantID =
     db_read (Wrapf ''count comparison-ready repositories: '') (\<lambda>_ s.
       let rows = active_sboms s tenantID in
       Inr (count_where (\<lambda>repo. 2 \<le> count_distinct (map Digest (filter (\<lambda>sb. Repository sb = repo) rows))) (remdups (map Repository rows))))"

section \<open>Verdicts\<close>

text \<open>
  The verdict is the lexicographic order of the counts, the order by which the statement selects a
  candidate: known exploited, critical, high, medium, low, all. Exactly one of the three verdicts holds, and
  \<open>unchanged\<close> only of equal counts.
\<close>

theorem comparePosture_lexicographic:
  "(comparePosture c d = PostureImproves \<longleftrightarrow> posture_row d < posture_row c) \<and>
   (comparePosture c d = PostureRegresses \<longleftrightarrow> posture_row c < posture_row d) \<and>
   (comparePosture c d = PostureUnchanged \<longleftrightarrow> c = d)"
  by (cases c; cases d) (auto simp: comparePosture_def posture_list_def posture_row_def)

lemma verdict_improves: "comparePosture c d = PostureImproves \<longleftrightarrow> posture_row d < posture_row c"
  by (cases c; cases d) (auto simp: comparePosture_def posture_list_def posture_row_def)

section \<open>Differences\<close>

lemma distinct_merged: "distinct (map fst (merged_findings s sb))"
  by (simp add: merged_findings_def Let_def comp_def)

lemma distinct_findings: "distinct (map fst (comparison_findings t sid s))"
  by (simp add: comparison_findings_def distinct_merged split: option.split)

lemma set_absent:
  assumes "distinct (map fst m)"
  shows "set (absent m m') = {v. \<exists>k. map_of m k = Some v \<and> map_of m' k = None}"
  using assms by (force simp: absent_def)

lemma set_listed:
  assumes "distinct (map fst m)"
  shows "set (sortFindings (map finding_of (absent m m'))) = {finding_of v | k v. map_of m k = Some v \<and> map_of m' k = None}"
  unfolding sortFindings_def set_sort set_map set_absent [OF assms] by blast

lemma set_kept_pairs: "distinct (map fst m) \<Longrightarrow> (v, w) \<in> set (kept_pairs m m') \<longleftrightarrow> (\<exists>k. map_of m k = Some v \<and> map_of m' k = Some w)"
proof -
  assume d: "distinct (map fst m)"
  have "(v, w) \<in> set (kept_pairs m m') \<longleftrightarrow> (\<exists>k. (k, v) \<in> set m \<and> map_of m' k = Some w)"
    by (induction m) (auto simp: kept_pairs_def map_filter_simps split: option.splits)
  with d show ?thesis by (metis map_of_is_SomeI map_of_SomeD)
qed

lemma CompareSBOMs_Inr:
  assumes "CompareSBOMs t a b e n s = (Inr c, n', s')"
  obtains p q where "s' = s" "a \<noteq> b" "side_row t a comparable s = Inr p" "side_row t b comparable s = Inr q" "side_Repository p = side_Repository q"
    and "c = comparison p q (comparison_findings t a s) (comparison_findings t b s) (comparison_packages t a s) (comparison_packages t b s) (license_policy_of t s)"
  using assms
  by (auto simp: CompareSBOMs_def comparisonSide_def comparisonFindings_def comparisonPackages_def GetLicensePolicy_def db_bind_Inr db_read_Inr split: if_splits)

text \<open>
  C35. What a comparison lists. Of the merged findings of both SBOMs it lists as added those only the second
  has, as resolved those only the first has, as rerated those of both whose severity or score differ, with
  the previous values, and as newly fixable those that gained a fix; each sorted by vulnerability. The
  verdict is that of the counts. Comparing the other way round swaps added and resolved.
\<close>

theorem CompareSBOMs_differences:
  assumes "CompareSBOMs t a b e n s = (Inr c, n', s')"
  defines "ff \<equiv> map_of (comparison_findings t a s)" and "tf \<equiv> map_of (comparison_findings t b s)"
  shows "set (cmp_Added c) = {finding_of v | k v. tf k = Some v \<and> ff k = None} \<and>
    set (cmp_Resolved c) = {finding_of v | k v. ff k = Some v \<and> tf k = None} \<and>
    set (cmp_Rerated c) = {(finding_of w)\<lparr>cf_PreviousSeverity := cf_Severity v, cf_PreviousScore := cf_Score v\<rparr> | k v w.
      ff k = Some v \<and> tf k = Some w \<and> (cf_Severity v \<noteq> cf_Severity w \<or> cf_Score v \<noteq> cf_Score w)} \<and>
    set (cmp_NewlyFixable c) = {finding_of w | k v w. ff k = Some v \<and> tf k = Some w \<and> \<not> cf_Fixed v \<and> cf_Fixed w} \<and>
    sorted (map cf_Exposure (cmp_Added c)) \<and> sorted (map cf_Exposure (cmp_Resolved c)) \<and>
    cmp_Verdict c = comparePosture (comparisonCounts (comparison_findings t a s)) (comparisonCounts (comparison_findings t b s)) \<and>
    (\<forall>c' e' m m' r. CompareSBOMs t b a e' m s = (Inr c', m', r) \<longrightarrow> cmp_Added c' = cmp_Resolved c \<and> cmp_Resolved c' = cmp_Added c)"
proof -
  obtain p q where c: "c = comparison p q (comparison_findings t a s) (comparison_findings t b s) (comparison_packages t a s)
      (comparison_packages t b s) (license_policy_of t s)" using assms(1) by (rule CompareSBOMs_Inr)
  note kept = set_kept_pairs [OF distinct_findings]
  have fields: "cmp_Added c = sortFindings (map finding_of (absent (comparison_findings t b s) (comparison_findings t a s)))"
    "cmp_Resolved c = sortFindings (map finding_of (absent (comparison_findings t a s) (comparison_findings t b s)))"
    "cmp_Rerated c = sortFindings (rerated_findings (kept_pairs (comparison_findings t a s) (comparison_findings t b s)))"
    "cmp_NewlyFixable c = sortFindings (newly_fixable (kept_pairs (comparison_findings t a s) (comparison_findings t b s)))"
    "cmp_Verdict c = comparePosture (comparisonCounts (comparison_findings t a s)) (comparisonCounts (comparison_findings t b s))"
    by (simp_all add: c comparison_def Let_def)
  have swap: "cmp_Added c' = cmp_Resolved c \<and> cmp_Resolved c' = cmp_Added c" if "CompareSBOMs t b a e' m s = (Inr c', m', r)" for c' e' m m' r
    using that by (rule CompareSBOMs_Inr) (simp add: fields comparison_def Let_def)
  have "set (cmp_Rerated c) = {(finding_of w)\<lparr>cf_PreviousSeverity := cf_Severity v, cf_PreviousScore := cf_Score v\<rparr> | k v w.
      ff k = Some v \<and> tf k = Some w \<and> (cf_Severity v \<noteq> cf_Severity w \<or> cf_Score v \<noteq> cf_Score w)}"
    unfolding fields by (force simp: sortFindings_def rerated_findings_def kept ff_def tf_def image_iff)
  moreover have "set (cmp_NewlyFixable c) = {finding_of w | k v w. ff k = Some v \<and> tf k = Some w \<and> \<not> cf_Fixed v \<and> cf_Fixed w}"
    unfolding fields by (force simp: sortFindings_def newly_fixable_def kept ff_def tf_def image_iff)
  moreover have "set (cmp_Added c) = {finding_of v | k v. tf k = Some v \<and> ff k = None}" "set (cmp_Resolved c) = {finding_of v | k v. ff k = Some v \<and> tf k = None}"
    unfolding fields ff_def tf_def by (rule set_listed [OF distinct_findings])+
  moreover have "sorted (map cf_Exposure (cmp_Added c))" "sorted (map cf_Exposure (cmp_Resolved c))" unfolding fields sortFindings_def by simp_all
  ultimately show ?thesis using fields(5)
    by (intro conjI allI impI) (assumption | drule swap, (erule conjunct1 | erule conjunct2))+
qed

section \<open>Upgrades\<close>

lemma find_unique:
  assumes "x \<in> set xs" "P x" "\<And>y. y \<in> set xs \<Longrightarrow> P y \<Longrightarrow> y = x"
  shows "List.find P xs = Some x"
proof (cases "List.find P xs")
  case None
  with assms(1,2) show ?thesis by (simp add: find_None_iff)
next
  case (Some y)
  then have "y \<in> set xs" "P y" by (auto simp: find_Some_iff)
  with Some assms(3) show ?thesis by blast
qed

lemma find_row:
  assumes d: "distinct_key ID (sboms (catalog s))" and sb: "sb \<in> set (sboms (catalog s))" "P sb" and P: "\<And>x. P x \<Longrightarrow> ID x = ID sb"
  shows "List.find P (sboms (catalog s)) = Some sb"
proof (rule find_unique [where P = P, OF sb])
  fix y assume "y \<in> set (sboms (catalog s))" "P y"
  with d sb(1) P [of y] show "y = sb" unfolding distinct_key_def distinct_map by (blast dest: inj_onD)
qed

lemma select_candidate_None:
  assumes "List.find (\<lambda>sb. TenantID sb = t \<and> ID sb = b \<and> Status sb = ''active'') (sboms (catalog s)) = Some base"
  shows "select_candidate t b s = None \<longleftrightarrow> (\<forall>x \<in> set (later_generations s base). \<not> candidate_better (posture_of s base) (posture_of s x))"
proof -
  have "sort_key generation xs = [] \<longleftrightarrow> xs = []" for xs by (metis length_0_conv length_sort)
  then have "select_candidate t b s = None \<longleftrightarrow> filter (\<lambda>sb. candidate_better (posture_of s base) (posture_of s sb)) (later_generations s base) = []"
    unfolding select_candidate_def assms option.case by (metis list.exhaust list.simps(4) list.simps(5) option.distinct(1))
  then show ?thesis by (simp add: filter_empty_conv)
qed

lemma select_candidate_Some:
  assumes "List.find (\<lambda>sb. TenantID sb = t \<and> ID sb = b \<and> Status sb = ''active'') (sboms (catalog s)) = Some base" and "select_candidate t b s = Some x"
  shows "x \<in> set (later_generations s base)" "candidate_better (posture_of s base) (posture_of s x)"
    and "y \<in> set (later_generations s base) \<Longrightarrow> candidate_better (posture_of s base) (posture_of s y) \<Longrightarrow> generation y \<le> generation x"
proof -
  let ?xs = "filter (\<lambda>sb. candidate_better (posture_of s base) (posture_of s sb)) (later_generations s base)"
  have ne: "?xs \<noteq> []" using assms(2) select_candidate_None [OF assms(1)] by (auto simp: filter_empty_conv)
  have x: "x = last (sort_key generation ?xs)" using assms by (auto simp: select_candidate_def split: list.splits)
  show "x \<in> set (later_generations s base)" "candidate_better (posture_of s base) (posture_of s x)"
    using last_sort_key(1) [OF ne, of generation] by (auto simp flip: x)
  show "generation y \<le> generation x" if "y \<in> set (later_generations s base)" "candidate_better (posture_of s base) (posture_of s y)"
    using last_sort_key(2) [OF ne, of y generation] that by (simp flip: x)
qed

text \<open>
  C36. The recommended upgrade. A recommendation compares the baseline with a later active generation of the same
  image whose verdict is \<open>improves\<close> and which has fewer findings in all, and it is the newest such
  generation; there is no recommendation only when there is no such generation.
\<close>

theorem RecommendUpgrade_newest:
  assumes run: "RecommendUpgrade t b e n s = (Inr r, n', s')" and d: "distinct_key ID (sboms (catalog s))"
  shows "\<exists>base \<in> set (sboms (catalog s)). TenantID base = t \<and> ID base = b \<and> Status base = ''active'' \<and>
    (let good = (\<lambda>x. x \<in> set (later_generations s base) \<and> comparePosture (posture_of s base) (posture_of s x) = PostureImproves \<and>
                  pc_Total (posture_of s x) < pc_Total (posture_of s base)) in
     case r of
       None \<Rightarrow> \<forall>x. \<not> good x
     | Some u \<Rightarrow> cmp_Verdict (up_Comparison u) = PostureImproves \<and> side_SBOMID (up_Baseline u) = b \<and>
         (\<exists>x. good x \<and> side_SBOMID (up_Candidate u) = ID x \<and> side_Counts (up_Candidate u) = posture_of s x \<and>
            (\<forall>y. good y \<longrightarrow> generation y \<le> generation x)))"
proof -
  let ?find = "List.find (\<lambda>sb. TenantID sb = t \<and> ID sb = b \<and> Status sb = ''active'') (sboms (catalog s))"
  from run obtain base where base: "?find = Some base"
    by (auto simp: RecommendUpgrade_def activeComparisonSide_def db_bind_Inr db_read_Inr side_row_def split: option.splits)
  then have b: "base \<in> set (sboms (catalog s))" "TenantID base = t" "ID base = b" "Status base = ''active''" by (auto simp: find_Some_iff)
  have good: "candidate_better (posture_of s base) (posture_of s x) \<longleftrightarrow>
      comparePosture (posture_of s base) (posture_of s x) = PostureImproves \<and> pc_Total (posture_of s x) < pc_Total (posture_of s base)" for x
    using verdict_improves by (auto simp: candidate_better_def)
  show ?thesis
  proof (cases "select_candidate t b s")
    case None
    with run have "r = None" by (auto simp: RecommendUpgrade_def activeComparisonSide_def db_bind_Inr db_read_Inr)
    with None b show ?thesis by (intro bexI [of _ base]) (auto simp: select_candidate_None [OF base] good)
  next
    case (Some x)
    note sel = select_candidate_Some [OF base Some]
    then have x: "x \<in> set (sboms (catalog s))" "TenantID x = t" "Status x = ''active''" using b by (auto simp: later_generations_def)
    from run Some obtain c e1 n1 n2 where c: "CompareSBOMs t b (ID x) e n1 s = (Inr c, n2, s')" and r: "r = Some \<lparr>up_Baseline = cmp_From c, up_Candidate = cmp_To c, up_Comparison = c\<rparr>"
      by (auto simp: RecommendUpgrade_def activeComparisonSide_def db_bind_Inr db_read_Inr)
    have pf: "comparison_findings t (ID y) s = merged_findings s y" if "y \<in> set (sboms (catalog s))" "TenantID y = t" "Status y = ''active''" for y
      unfolding comparison_findings_def by (subst find_row [OF d that(1)]) (use that in \<open>simp_all add: comparable_def\<close>)
    from c obtain p q where "side_row t b comparable s = Inr p" "side_row t (ID x) comparable s = Inr q"
      and c': "c = comparison p q (comparison_findings t b s) (comparison_findings t (ID x) s) (comparison_packages t b s) (comparison_packages t (ID x) s) (license_policy_of t s)"
      by (rule CompareSBOMs_Inr)
    then have "side_SBOMID p = b" "side_SBOMID q = ID x" by (auto simp: side_row_def find_Some_iff split: option.splits)
    moreover have "side_Counts (cmp_To c) = posture_of s x" "cmp_Verdict c = comparePosture (posture_of s base) (posture_of s x)"
      "side_SBOMID (cmp_From c) = side_SBOMID p" "side_SBOMID (cmp_To c) = side_SBOMID q"
      using pf [OF x] pf [OF b(1,2,4)] by (simp_all add: c' comparison_def Let_def posture_of_def b(3))
    ultimately show ?thesis using sel b by (intro bexI [of _ base]) (auto simp: r good Let_def)
  qed
qed

section \<open>Two generations\<close>

text \<open>An image with a critical finding, then with the given ones.\<close>

definition demo_generations :: "string list \<Rightarrow> string list \<Rightarrow> platform" where
  "demo_generations old new =
     (let row = (\<lambda>sid t. demo_image\<lparr>ID := sid, Digest := sid, GeneratedAt := t\<rparr>);
          fnd = (\<lambda>sid k sev. \<lparr>f_sbom = sid, f_scanner = ''grype'', f_id = sev @ nat_text k, f_vuln = \<lparr>Exposure = ''CVE-'' @ nat_text k, Package = ''p'',
            Version = ''1'', Severity = sev, Score = 5, IsFixed = False\<rparr>, f_updated_at = 0\<rparr>);
          rows = (\<lambda>sid sevs. map (\<lambda>(k, sev). fnd sid k sev) (List.enumerate 0 sevs)) in
      empty_platform\<lparr>catalog := empty_store\<lparr>sboms := [row ''one'' 1, row ''two'' 2], findings := rows ''one'' old @ rows ''two'' new\<rparr>\<rparr>)"

lemma demo_generations_distinct: "distinct_key ID (sboms (catalog (demo_generations old new)))"
  by (simp add: demo_generations_def Let_def)

theorem CompareSBOMs_differences_witness:
  "\<exists>c n' s'. CompareSBOMs ''a'' ''one'' ''two'' (calm_env 0) 0 (demo_generations [''high'', ''low''] [''high'']) = (Inr c, n', s') \<and>
     sorted (map cf_Exposure (cmp_Resolved c)) \<and> map cf_FindingID (cmp_Resolved c) = [''low1''] \<and> cmp_Added c = []"
proof -
  let ?s = "demo_generations [''high'', ''low''] [''high'']"
  have "map_sum id (\<lambda>c. (map cf_FindingID (cmp_Resolved c), cmp_Added c)) (fst (CompareSBOMs ''a'' ''one'' ''two'' (calm_env 0) 0 ?s)) = Inr ([''low1''], [])"
    by code_simp
  then obtain c n' s' where run: "CompareSBOMs ''a'' ''one'' ''two'' (calm_env 0) 0 ?s = (Inr c, n', s')" and c: "map cf_FindingID (cmp_Resolved c) = [''low1'']" "cmp_Added c = []"
    by (cases "CompareSBOMs ''a'' ''one'' ''two'' (calm_env 0) 0 ?s"; cases "fst (CompareSBOMs ''a'' ''one'' ''two'' (calm_env 0) 0 ?s)") auto
  have "sorted (map cf_Exposure (cmp_Resolved c))" using CompareSBOMs_differences [OF run] by (elim conjE)
  with run c show ?thesis by (intro exI conjI)
qed

theorem RecommendUpgrade_newest_witness:
  "\<exists>u n' s'. RecommendUpgrade ''a'' ''one'' (calm_env 0) 0 (demo_generations [''high'', ''low''] [''high'']) = (Inr (Some u), n', s') \<and>
     cmp_Verdict (up_Comparison u) = PostureImproves"
proof -
  let ?s = "demo_generations [''high'', ''low''] [''high'']"
  have "map_sum id (\<lambda>r. r \<noteq> None) (fst (RecommendUpgrade ''a'' ''one'' (calm_env 0) 0 ?s)) = Inr True" by code_simp
  then obtain u n' s' where run: "RecommendUpgrade ''a'' ''one'' (calm_env 0) 0 ?s = (Inr (Some u), n', s')"
    by (cases "RecommendUpgrade ''a'' ''one'' (calm_env 0) 0 ?s"; cases "fst (RecommendUpgrade ''a'' ''one'' (calm_env 0) 0 ?s)") auto
  with RecommendUpgrade_newest [OF run demo_generations_distinct] show ?thesis by (auto simp: Let_def)
qed

text \<open>
  A later generation in which a critical finding became a low one improves by the verdict, and is not
  recommended, because the number of findings is the same.
\<close>

theorem RecommendUpgrade_skips_equal_total:
  "map_sum id cmp_Verdict (fst (CompareSBOMs ''a'' ''one'' ''two'' (calm_env 0) 0 (demo_generations [''critical''] [''low'']))) = Inr PostureImproves \<and>
   fst (RecommendUpgrade ''a'' ''one'' (calm_env 0) 0 (demo_generations [''critical''] [''low''])) = Inr None"
  by code_simp

end
