(* ===== verification/Pages.thy ===== *)
theory Pages
  imports Keyset Compare
begin

text \<open>
  The paged and bounded lists of \<open>pkg/data/postgres/read.go\<close> and \<open>read_images.go\<close>: findings and events of an
  SBOM, tracked images, the SBOMs and the history of a repository, packages, labels and failures. Every paged
  query is an instance of \<open>keyset_query\<close>, so each of them lists everything once to whoever follows its tokens.
\<close>

section \<open>Findings of an SBOM\<close>

text \<open>A row of the query: the finding with what is joined to it.\<close>

record finding_join =
  jf_finding :: finding_row
  jf_enrichment :: "enrichment_row option"
  jf_vex :: "vex_statement option"

abbreviation jf_vuln :: "finding_join \<Rightarrow> vulnerability" where
  "jf_vuln j \<equiv> f_vuln (jf_finding j)"

record Finding =
  fi_Scanner :: string
  fi_Exposure :: string
  fi_Package :: string
  fi_Version :: string
  fi_Severity :: string
  fi_Score :: rat
  fi_IsFixed :: bool
  fi_EPSS :: "rat option"
  fi_EPSSPct :: "rat option"
  fi_KEV :: bool
  fi_VEXStatus :: string

definition assertSBOMOwner :: "string \<Rightarrow> string \<Rightarrow> (platform, unit) db" where
  "assertSBOMOwner tenantID sbomID =
     db_read (Wrapf ''check sbom owner: '') (\<lambda>_ s.
       if list_ex (\<lambda>sb. ID sb = sbomID \<and> TenantID sb = tenantID) (sboms (catalog s)) then Inr () else Inl ErrNotFound)"

definition finding_joins :: "string \<Rightarrow> platform \<Rightarrow> finding_join list" where
  "finding_joins sbomID s =
     (case sbom_of sbomID s of
        None \<Rightarrow> []
      | Some sb \<Rightarrow>
          map (\<lambda>f. \<lparr>jf_finding = f, jf_enrichment = lookup_key en_cve (enrichments (catalog s)) (Exposure (f_vuln f)),
                    jf_vex = vex_resolved (vex_statements s) sb (Exposure (f_vuln f))\<rparr>)
            (filter (\<lambda>f. f_sbom f = sbomID) (findings (catalog s))))"

definition hidden :: "finding_join \<Rightarrow> bool" where
  "hidden j = (case jf_vex j of None \<Rightarrow> False | Some v \<Rightarrow> suppressing (vs_status v))"

definition finding_listed :: "string \<Rightarrow> bool \<Rightarrow> bool \<Rightarrow> finding_join \<Rightarrow> bool" where
  "finding_listed minSeverity fixableOnly showSuppressed j =
     (Severity (jf_vuln j) \<in> set (AllowedSeverities minSeverity) \<and> (fixableOnly \<longrightarrow> IsFixed (jf_vuln j)) \<and> (showSuppressed \<or> \<not> hidden j))"

definition double :: "('r \<Rightarrow> rat) \<Rightarrow> bool \<Rightarrow> 'r sortCol" where
  "double expr desc = \<lparr>sc_expr = SNum \<circ> expr, sc_cast = ''double precision'', sc_defDesc = desc\<rparr>"

definition textual :: "('r \<Rightarrow> string) \<Rightarrow> bool \<Rightarrow> 'r sortCol" where
  "textual expr desc = \<lparr>sc_expr = SText \<circ> expr, sc_cast = ''text'', sc_defDesc = desc\<rparr>"

definition timestamptz :: "('r \<Rightarrow> time) \<Rightarrow> bool \<Rightarrow> 'r sortCol" where
  "timestamptz expr desc = \<lparr>sc_expr = STime \<circ> expr, sc_cast = ''timestamptz'', sc_defDesc = desc\<rparr>"

definition findingSortCols :: "(string, finding_join sortCol) gomap" where
  "findingSortCols =
     [(''severity'', double (\<lambda>j. of_nat (severityRankSQL (Severity (jf_vuln j)))) False),
      (''cvss'', double (\<lambda>j. Score (jf_vuln j)) True),
      (''epss'', double (\<lambda>j. case jf_enrichment j of None \<Rightarrow> -1 | Some e \<Rightarrow> (case en_epss_score e of None \<Rightarrow> -1 | Some x \<Rightarrow> x)) True),
      (''package'', textual (\<lambda>j. Package (jf_vuln j)) False),
      (''cve'', textual (\<lambda>j. Exposure (jf_vuln j)) False),
      (''scanner'', textual (\<lambda>j. f_scanner (jf_finding j)) False),
      (''fixable'', double (\<lambda>j. if IsFixed (jf_vuln j) then 1 else 0) True)]"

definition finding_tie :: "finding_join \<Rightarrow> string" where
  "finding_tie j = f_id (jf_finding j) @ ''|'' @ f_scanner (jf_finding j)"

definition finding_item :: "finding_join \<Rightarrow> Finding" where
  "finding_item j =
     \<lparr>fi_Scanner = f_scanner (jf_finding j), fi_Exposure = Exposure (jf_vuln j), fi_Package = Package (jf_vuln j), fi_Version = Version (jf_vuln j),
      fi_Severity = Severity (jf_vuln j), fi_Score = Score (jf_vuln j), fi_IsFixed = IsFixed (jf_vuln j),
      fi_EPSS = Option.bind (jf_enrichment j) en_epss_score, fi_EPSSPct = Option.bind (jf_enrichment j) en_epss_percentile,
      fi_KEV = (case jf_enrichment j of None \<Rightarrow> False | Some e \<Rightarrow> en_kev e),
      fi_VEXStatus = (case jf_vex j of None \<Rightarrow> [] | Some v \<Rightarrow> vs_status v)\<rparr>"

definition FindingsBySBOM ::
  "pg \<Rightarrow> (string \<times> string) codec \<Rightarrow> string \<Rightarrow> string \<Rightarrow> string \<Rightarrow> bool \<Rightarrow> bool \<Rightarrow> string \<Rightarrow> string \<Rightarrow> string \<Rightarrow> int \<Rightarrow> (platform, Finding list \<times> string) db" where
  "FindingsBySBOM db js tenantID sbomID minSeverity fixableOnly showSuppressed sortKey sortDir cursor limit =
     db_bind (assertSBOMOwner tenantID sbomID) (\<lambda>_.
     db_read (Wrapf ''findings: '') (\<lambda>_ s.
       map_sum id (\<lambda>(items, next). (map finding_item items, next))
         (sort_page db js (Wrapf ''findings: '') (resolveSort sortKey sortDir findingSortCols ''severity'') finding_tie cursor limit
           (filter (finding_listed minSeverity fixableOnly showSuppressed) (finding_joins sbomID s)))))"

section \<open>Packages of an SBOM\<close>

record PackageFinding =
  pf_Package :: string
  pf_Count :: nat
  pf_Fixable :: nat
  pf_WorstSev :: string
  pf_FixablePct :: nat

definition severityForRank :: "nat \<Rightarrow> string" where
  "severityForRank rank =
     (if rank = 0 then ''critical'' else if rank = 1 then ''high'' else if rank = 2 then ''medium''
      else if rank = 3 then ''low'' else if rank = 4 then ''negligible'' else ''unknown'')"

definition package_rank :: "finding_join list \<Rightarrow> nat" where
  "package_rank g = Min (set (map (\<lambda>j. severityRankSQL (Severity (jf_vuln j))) g))"

definition package_rollup :: "finding_join list \<Rightarrow> PackageFinding list" where
  "package_rollup js =
     (let group = (\<lambda>p. filter (\<lambda>j. Package (jf_vuln j) = p) js) in
      map (\<lambda>p. let g = group p; n = length g; fx = length (filter (\<lambda>j. IsFixed (jf_vuln j)) g) in
             \<lparr>pf_Package = p, pf_Count = n, pf_Fixable = fx, pf_WorstSev = severityForRank (package_rank g),
              pf_FixablePct = (if n > 0 then fx * 100 div n else 0)\<rparr>)
        (sort_key (\<lambda>p. (package_rank (group p), - int (length (group p)), p)) (remdups (map (\<lambda>j. Package (jf_vuln j)) js))))"

definition PackageRollup :: "string \<Rightarrow> string \<Rightarrow> string \<Rightarrow> int \<Rightarrow> (platform, PackageFinding list) db" where
  "PackageRollup tenantID sbomID minSeverity limit =
     db_bind (assertSBOMOwner tenantID sbomID) (\<lambda>_.
     db_read (Wrapf ''package rollup: '') (\<lambda>_ s.
       Inr (take (nat (if limit \<le> 0 \<or> limit > 100 then 20 else limit))
         (package_rollup (filter (finding_listed minSeverity False False) (finding_joins sbomID s))))))"

section \<open>Tracked images\<close>

definition repoImageSortCols :: "(string, RepoImage sortCol) gomap" where
  "repoImageSortCols =
     [(''risk'', double (\<lambda>r. of_nat (ri_risk r)) True), (''repository'', textual ri_repository False),
      (''total'', double (\<lambda>r. of_nat (n_total (ri_counts r))) True), (''critical'', double (\<lambda>r. of_nat (n_critical (ri_counts r))) True),
      (''fixable'', double (\<lambda>r. of_nat (ri_fixable r)) True), (''sboms'', double (\<lambda>r. of_nat (ri_sboms r)) True)]"

definition repo_images :: "string \<Rightarrow> string \<Rightarrow> string \<Rightarrow> bool \<Rightarrow> platform \<Rightarrow> RepoImage list" where
  "repo_images tenantID nameFilter labelFilter hasVEX s =
     (if hasVEX then liveImgCTE else rollupImgCTE) tenantID nameFilter labelFilter s"

definition repo_item :: "string \<Rightarrow> RepoImage \<Rightarrow> RepoImage" where
  "repo_item minSeverity r = r\<lparr>ri_counts := applyThreshold (ri_counts r) minSeverity\<rparr>"

definition ListRepoImages ::
  "pg \<Rightarrow> (string \<times> string) codec \<Rightarrow> string \<Rightarrow> string \<Rightarrow> string \<Rightarrow> string \<Rightarrow> string \<Rightarrow> string \<Rightarrow> string \<Rightarrow> int \<Rightarrow> (platform, RepoImage list \<times> string) db" where
  "ListRepoImages db js tenantID minSeverity nameFilter labelFilter sortKey sortDir cursor limit =
     db_bind (TenantHasSuppressingVEX tenantID) (\<lambda>hasVEX.
     db_read (Wrapf ''list repo images: '') (\<lambda>_ s.
       map_sum id (\<lambda>(items, next). (map (repo_item minSeverity) items, next))
         (sort_page db js (Wrapf ''list repo images: '') (resolveSort sortKey sortDir repoImageSortCols ''risk'') ri_repository cursor limit
           (repo_images tenantID nameFilter labelFilter hasVEX s))))"

section \<open>One repository\<close>

definition repository_known :: "string \<Rightarrow> string \<Rightarrow> (platform, unit) db" where
  "repository_known tenantID repository =
     db_read (Wrapf ''check repository: '') (\<lambda>_ s.
       if list_ex (\<lambda>sb. TenantID sb = tenantID \<and> Repository sb = repository) (sboms (catalog s)) then Inr () else Inl ErrNotFound)"

definition repoSBOMSortCols :: "(string, sbom_row sortCol) gomap" where
  "repoSBOMSortCols =
     [(''generated'', timestamptz effective_at True), (''version'', textual SBOMVersion False),
      (''packages'', double (\<lambda>sb. of_int (PackageCount sb)) True)]"

record RepoSBOM =
  rb_SBOMID :: string
  rb_Digest :: string
  rb_Version :: string
  rb_Format :: string
  rb_Tool :: string
  rb_ToolVersion :: string
  rb_PackageCount :: int
  rb_EffectiveAt :: time
  rb_SubmittedAt :: time

definition repo_sbom :: "sbom_row \<Rightarrow> RepoSBOM" where
  "repo_sbom sb = \<lparr>rb_SBOMID = ID sb, rb_Digest = Digest sb, rb_Version = SBOMVersion sb, rb_Format = Format sb, rb_Tool = Tool sb,
     rb_ToolVersion = ToolVersion sb, rb_PackageCount = PackageCount sb, rb_EffectiveAt = effective_at sb, rb_SubmittedAt = SubmittedAt sb\<rparr>"

definition repository_sboms :: "string \<Rightarrow> string \<Rightarrow> platform \<Rightarrow> sbom_row list" where
  "repository_sboms tenantID repository s = filter (\<lambda>sb. Repository sb = repository) (active_sboms s tenantID)"

definition SBOMsForRepo ::
  "pg \<Rightarrow> (string \<times> string) codec \<Rightarrow> string \<Rightarrow> string \<Rightarrow> string \<Rightarrow> string \<Rightarrow> string \<Rightarrow> int \<Rightarrow> (platform, RepoSBOM list \<times> string) db" where
  "SBOMsForRepo db js tenantID repository sortKey sortDir cursor limit =
     db_bind (repository_known tenantID repository) (\<lambda>_.
     db_read (Wrapf ''sboms for repo: '') (\<lambda>_ s.
       map_sum id (\<lambda>(items, next). (map repo_sbom items, next))
         (sort_page db js (Wrapf ''sboms for repo: '') (resolveSort sortKey sortDir repoSBOMSortCols ''generated'') ID cursor limit
           (repository_sboms tenantID repository s))))"

record RepoSummary =
  rs_SBOMCount :: nat
  rs_DigestCount :: nat
  rs_Versions :: "string list"
  rs_Labels :: "string list"

definition RepoSummary :: "string \<Rightarrow> string \<Rightarrow> (platform, RepoSummary) db" where
  "RepoSummary tenantID repository =
     db_read (Wrapf ''repo summary: '') (\<lambda>_ s.
       let g = repository_sboms tenantID repository s in
       if count_distinct (map ID g) = 0 then Inl ErrNotFound
       else Inr \<lparr>rs_SBOMCount = count_distinct (map ID g), rs_DigestCount = count_distinct (map Digest g),
         rs_Versions = sort (remdups (filter (\<lambda>v. v \<noteq> []) (map SBOMVersion g))), rs_Labels = sort (remdups (concat (map Labels g)))\<rparr>)"

definition TenantLabels :: "string \<Rightarrow> (platform, string list) db" where
  "TenantLabels tenantID =
     db_read (Wrapf ''tenant labels: '') (\<lambda>_ s. Inr (sort (remdups (concat (map Labels (active_sboms s tenantID))))))"

record Failure =
  fl_Scanner :: string
  fl_Stage :: string
  fl_Error :: string
  fl_OccurredAt :: time

definition recent_failures :: "string \<Rightarrow> (failure_row \<Rightarrow> bool) \<Rightarrow> int \<Rightarrow> platform \<Rightarrow> Failure list result" where
  "recent_failures what p limit s =
     (if limit < 0 then Inl (Wrapf what (Driver ''pq: LIMIT must not be negative''))
      else Inr (map (\<lambda>x. \<lparr>fl_Scanner = sf_scanner x, fl_Stage = sf_stage x, fl_Error = sf_error x, fl_OccurredAt = sf_occurred_at x\<rparr>)
        (take (nat limit) (rev (sort_key sf_occurred_at (filter p (failures (catalog s))))))))"

definition FailuresBySBOM :: "string \<Rightarrow> string \<Rightarrow> int \<Rightarrow> (platform, Failure list) db" where
  "FailuresBySBOM tenantID sbomID limit =
     db_bind (assertSBOMOwner tenantID sbomID) (\<lambda>_.
     db_read (Wrapf ''failures: '') (\<lambda>_. recent_failures ''failures: '' (\<lambda>x. sf_sbom x = sbomID) limit))"

definition FailuresByRepo :: "string \<Rightarrow> string \<Rightarrow> int \<Rightarrow> (platform, Failure list) db" where
  "FailuresByRepo tenantID repository limit =
     db_read (Wrapf ''repo failures: '') (\<lambda>_ s.
       recent_failures ''repo failures: '' (\<lambda>x. list_ex (\<lambda>sb. ID sb = sf_sbom x) (repository_sboms tenantID repository s)) limit s)"

section \<open>Histories\<close>

record Event =
  ve_Scanner :: string
  ve_EventType :: string
  ve_Exposure :: string
  ve_Package :: string
  ve_Severity :: string
  ve_Score :: rat
  ve_Cause :: string
  ve_OccurredAt :: time

definition event_item :: "finding_event \<Rightarrow> Event" where
  "event_item v = \<lparr>ve_Scanner = ev_scanner v, ve_EventType = ev_type v, ve_Exposure = ev_exposure v, ve_Package = ev_package v,
     ve_Severity = ev_severity v, ve_Score = ev_score v, ve_Cause = ev_cause v, ve_OccurredAt = ev_occurred_at v\<rparr>"

definition event_position :: "finding_event \<Rightarrow> time \<times> sort_value" where
  "event_position v = (ev_occurred_at v, SNum (of_int (ev_id v)))"

definition event_rows :: "string \<Rightarrow> string \<Rightarrow> platform \<Rightarrow> finding_event list" where
  "event_rows sbomID minSeverity s =
     filter (\<lambda>v. ev_sbom v = sbomID \<and> ev_severity v \<in> set (AllowedSeverities minSeverity)) (events (catalog s))"

text \<open>The position of a cursor: its identifier is read as a \<open>bigint\<close>.\<close>

definition event_seek :: "pg \<Rightarrow> (time \<times> string) option \<Rightarrow> string + (time \<times> sort_value) option" where
  "event_seek db cur =
     (case cur of None \<Rightarrow> Inr None | Some (ts, i) \<Rightarrow> (case pg_cast db ''bigint'' i of Inl m \<Rightarrow> Inl m | Inr x \<Rightarrow> Inr (Some (ts, x))))"

definition EventsBySBOM ::
  "pg \<Rightarrow> (time \<times> string) codec \<Rightarrow> string \<Rightarrow> string \<Rightarrow> string \<Rightarrow> string \<Rightarrow> int \<Rightarrow> (platform, Event list \<times> string) db" where
  "EventsBySBOM db js tenantID sbomID minSeverity cursor limit =
     db_bind (assertSBOMOwner tenantID sbomID) (\<lambda>_.
     db_read (Wrapf ''events: '') (\<lambda>_ s.
       case event_seek db (decodeCursor js cursor) of
         Inl m \<Rightarrow> Inl (Wrapf ''events: '' (Driver m))
       | Inr cur \<Rightarrow>
           (case page_rows True event_position cur (clampLimit limit) (event_rows sbomID minSeverity s) of
              (items, None) \<Rightarrow> Inr (map event_item items, [])
            | (items, Some v) \<Rightarrow> Inr (map event_item items, encodeCursor js (ev_occurred_at v) (itoa (ev_id v))))))"

record TimelineEvent = Event +
  te_Digest :: string
  te_SBOMID :: string

definition timeline_item :: "finding_event \<times> sbom_row \<Rightarrow> TimelineEvent" where
  "timeline_item r = (case r of (v, sb) \<Rightarrow> Event.extend (event_item v) (TimelineEvent.fields (Digest sb) (ev_sbom v)))"

definition timeline_rows :: "string \<Rightarrow> (sbom_row \<Rightarrow> bool) \<Rightarrow> string list \<Rightarrow> platform \<Rightarrow> (finding_event \<times> sbom_row) list" where
  "timeline_rows tenantID p levels s =
     filter (\<lambda>(v, sb). ev_tenant v = tenantID \<and> p sb \<and> ev_severity v \<in> set levels)
       (List.map_filter (\<lambda>v. map_option (Pair v) (sbom_of (ev_sbom v) s)) (events (catalog s)))"

definition repoTimelineSortCols :: "(string, (finding_event \<times> sbom_row) sortCol) gomap" where
  "repoTimelineSortCols =
     [(''occurred'', timestamptz (\<lambda>r. ev_occurred_at (fst r)) True), (''severity'', double (\<lambda>r. of_nat (severityRankSQL (ev_severity (fst r)))) False),
      (''cause'', textual (\<lambda>r. ev_cause (fst r)) False), (''cve'', textual (\<lambda>r. ev_exposure (fst r)) False)]"

definition event_tie :: "finding_event \<times> sbom_row \<Rightarrow> string" where
  "event_tie r = itoa (ev_id (fst r))"

definition timeline_levels :: "string \<Rightarrow> bool \<Rightarrow> string list" where
  "timeline_levels minSeverity includeUnknown = (if includeUnknown then AllowedSeverities minSeverity else AllowedSeveritiesStrict minSeverity)"

definition RepoTimeline ::
  "pg \<Rightarrow> (string \<times> string) codec \<Rightarrow> string \<Rightarrow> string \<Rightarrow> string \<Rightarrow> bool \<Rightarrow> string \<Rightarrow> string \<Rightarrow> string \<Rightarrow> int \<Rightarrow> (platform, TimelineEvent list \<times> string) db" where
  "RepoTimeline db js tenantID repository minSeverity includeUnknown sortKey sortDir cursor limit =
     db_bind (repository_known tenantID repository) (\<lambda>_.
     db_read (Wrapf ''repo timeline: '') (\<lambda>_ s.
       map_sum id (\<lambda>(items, next). (map timeline_item items, next))
         (sort_page db js (Wrapf ''repo timeline: '') (resolveSort sortKey sortDir repoTimelineSortCols ''occurred'') event_tie cursor limit
           (timeline_rows tenantID (\<lambda>sb. Repository sb = repository)
             (timeline_levels minSeverity includeUnknown) s))))"

definition ImageTimeline :: "string \<Rightarrow> string \<Rightarrow> string \<Rightarrow> int \<Rightarrow> (platform, TimelineEvent list) db" where
  "ImageTimeline tenantID imageRef minSeverity limit =
     db_bind (db_read (Wrapf ''check image ref: '') (\<lambda>_ s.
       if list_ex (\<lambda>sb. TenantID sb = tenantID \<and> ImageRef sb = imageRef) (sboms (catalog s)) then Inr () else Inl ErrNotFound)) (\<lambda>_.
     db_read (Wrapf ''image timeline: '') (\<lambda>_ s.
       Inr (map timeline_item (take (nat (if limit \<le> 0 \<or> limit > 1000 then 200 else limit))
         (rev (sort_key (\<lambda>r. ev_occurred_at (fst r)) (timeline_rows tenantID (\<lambda>sb. ImageRef sb = imageRef) (AllowedSeverities minSeverity) s)))))))"

text \<open>The greatest counts of the runs of a day of the session's time zone, which is taken to be UTC; the last days, oldest first.\<close>

record SeverityPoint =
  pt_Day :: int
  pt_Critical :: nat
  pt_High :: nat
  pt_Medium :: nat
  pt_Low :: nat

definition day_point :: "scan_run list \<Rightarrow> int \<Rightarrow> SeverityPoint" where
  "day_point rs d =
     (let g = filter (\<lambda>r. day_of (scanned_at r) = d) rs; top = (\<lambda>col. Max (set (map col g))) in
      \<lparr>pt_Day = d, pt_Critical = top critical_count, pt_High = top high_count, pt_Medium = top medium_count, pt_Low = top low_count\<rparr>)"

definition RepoSeverityTimeline :: "string \<Rightarrow> string \<Rightarrow> int \<Rightarrow> (platform, SeverityPoint list) db" where
  "RepoSeverityTimeline tenantID repository limit =
     db_read (Wrapf ''repo severity timeline: '') (\<lambda>_ s.
       let rs = filter (\<lambda>r. list_ex (\<lambda>sb. ID sb = run_sbom r \<and> TenantID sb = tenantID \<and> Repository sb = repository) (sboms (catalog s))) (scan_runs (catalog s));
           days = rev (sort (remdups (map (\<lambda>r. day_of (scanned_at r)) rs))) in
       Inr (map (day_point rs) (rev (take (nat (if limit \<le> 0 \<or> limit > 365 then 60 else limit)) days))))"

section \<open>Every paged list is complete\<close>

text \<open>What a query serves: its page and the next token, in a state with its environment.\<close>

definition served :: "(string \<Rightarrow> (platform, 'i list \<times> string) db) \<Rightarrow> env \<times> nat \<times> platform \<Rightarrow> string \<Rightarrow> 'i list \<times> string" where
  "served oper st cursor = (case st of (e, n, s) \<Rightarrow> (case fst (oper cursor e n s) of Inr page \<Rightarrow> page | Inl _ \<Rightarrow> ([], [])))"

text \<open>A query behind a check that passes.\<close>

lemma served_checked:
  assumes "no_faults e" and "check (clock e n) s = Inr x"
  shows "served (\<lambda>cursor. db_bind (db_read wrap check) (\<lambda>x. db_read wrap' (\<lambda>_ s.
      map_sum id (\<lambda>(items, next). (map view items, next)) (sort_page db js wrap' spec tie cursor limit (rows x s))))) (e, n, s) cursor =
    (case sort_page db js wrap' spec tie cursor limit (rows x s) of Inl _ \<Rightarrow> ([], []) | Inr (items, next) \<Rightarrow> (map view items, next))"
  using assms by (simp add: served_def db_bind_def db_read_def db_stmt_def no_faults_def split: sum.splits prod.splits)

lemma distinct_sort_key: "distinct_key tie rows \<Longrightarrow> distinct_key (sort_key_of spec tie) rows"
  by (auto simp: distinct_key_def distinct_map inj_on_def sort_key_of_def)

lemma keyset_sort_query:
  assumes page: "\<And>st cursor. good st \<Longrightarrow> served oper st cursor =
      (case sort_page db js wrap spec tie cursor limit (rows st) of Inl _ \<Rightarrow> ([], []) | Inr (items, next) \<Rightarrow> (map view items, next))"
    and unique: "\<And>st. good st \<Longrightarrow> distinct_key tie (rows st)"
    and survive: "\<And>st. good st \<Longrightarrow> \<forall>r \<in> set (rows st). survives db js spec tie r"
  shows "keyset_query (served oper) rows (\<lambda>_. sort_key_of spec tie) (\<lambda>_. view) good (ss_desc spec) (page_size limit) (sort_token db js)"
proof
  show "0 < page_size limit" by (rule page_size_pos)
  fix s assume s: "good s"
  show "distinct_key (sort_key_of spec tie) (rows s)" by (rule distinct_sort_key [OF unique [OF s]])
  show "served oper s [] = (case page_rows (ss_desc spec) (sort_key_of spec tie) None (page_size limit, Suc (page_size limit)) (rows s) of
      (items, final) \<Rightarrow> (map view items, case final of None \<Rightarrow> [] | Some r \<Rightarrow> sort_token db js (sort_key_of spec tie r)))"
    by (simp add: page [OF s] sort_page_first split: prod.splits)
  fix s' r assume "good s'" and "r \<in> set (rows s')"
  then have sv: "survives db js spec tie r" by (rule bspec [OF survive])
  show "served oper s (sort_token db js (sort_key_of spec tie r)) =
      (case page_rows (ss_desc spec) (sort_key_of spec tie) (Some (sort_key_of spec tie r)) (page_size limit, Suc (page_size limit)) (rows s) of
        (items, final) \<Rightarrow> (map view items, case final of None \<Rightarrow> [] | Some r \<Rightarrow> sort_token db js (sort_key_of spec tie r)))"
    unfolding page [OF s] sort_page_next [OF sv refl] by (simp split: prod.splits)
next
  fix s r assume "good s" and "r \<in> set (rows s)"
  then have "survives db js spec tie r" by (rule bspec [OF survive])
  then show "sort_token db js (sort_key_of spec tie r) \<noteq> []" by (rule sort_token_nonempty)
qed

subsection \<open>Findings\<close>

abbreviation findings_spec :: "string \<Rightarrow> string \<Rightarrow> finding_join sortSpec" where
  "findings_spec sortKey sortDir \<equiv> resolveSort sortKey sortDir findingSortCols ''severity''"

definition listed_findings :: "string \<Rightarrow> string \<Rightarrow> bool \<Rightarrow> bool \<Rightarrow> env \<times> nat \<times> platform \<Rightarrow> finding_join list" where
  "listed_findings sbomID minSeverity fixableOnly showSuppressed st =
     filter (finding_listed minSeverity fixableOnly showSuppressed) (finding_joins sbomID (snd (snd st)))"

text \<open>The SBOM is the account's, the keys of findings are unique and their identifiers contain no bar, and the sort values of the
  listed findings survive.\<close>

definition findings_pageable :: "pg \<Rightarrow> (string \<times> string) codec \<Rightarrow> string \<Rightarrow> string \<Rightarrow> string \<Rightarrow> string \<Rightarrow> (env \<times> nat \<times> platform \<Rightarrow> finding_join list) \<Rightarrow> env \<times> nat \<times> platform \<Rightarrow> bool" where
  "findings_pageable db js tenantID sbomID sortKey sortDir rows st =
     (case st of (e, n, s) \<Rightarrow> no_faults e \<and> list_ex (\<lambda>sb. ID sb = sbomID \<and> TenantID sb = tenantID) (sboms (catalog s)) \<and>
        distinct_key finding_key (findings (catalog s)) \<and> (\<forall>f \<in> set (findings (catalog s)). CHR ''|'' \<notin> set (f_id f)) \<and>
        (\<forall>j \<in> set (rows st). survives db js (findings_spec sortKey sortDir) finding_tie j))"

lemma bar_inj: "CHR ''|'' \<notin> set a \<Longrightarrow> CHR ''|'' \<notin> set b \<Longrightarrow> a @ ''|'' @ x = b @ ''|'' @ y \<Longrightarrow> a = b \<and> x = y"
  using split_at_inj [of a "CHR ''|''" x b y] by simp

lemma distinct_finding_tie:
  assumes "distinct_key finding_key (findings (catalog s))" and "\<forall>f \<in> set (findings (catalog s)). CHR ''|'' \<notin> set (f_id f)"
  shows "distinct_key finding_tie (finding_joins sbomID s)"
proof (cases "sbom_of sbomID s")
  case (Some sb)
  let ?fs = "filter (\<lambda>f. f_sbom f = sbomID) (findings (catalog s))" and ?tie = "\<lambda>f. f_id f @ ''|'' @ f_scanner f"
  have "f = g" if "f \<in> set ?fs" "g \<in> set ?fs" "?tie f = ?tie g" for f g
  proof -
    have "f_id f = f_id g \<and> f_scanner f = f_scanner g" using that assms(2) by (intro bar_inj) auto
    then have "finding_key f = finding_key g" using that by (simp add: finding_key_def)
    then show "f = g" using assms(1) that by (auto simp: distinct_key_def distinct_map inj_on_def)
  qed
  then have "inj_on ?tie (set ?fs)" by (rule inj_onI)
  moreover have "distinct ?fs" using assms(1) by (auto simp: distinct_key_def distinct_map)
  ultimately have "distinct (map ?tie ?fs)" by (simp add: distinct_map)
  then show ?thesis by (simp add: finding_joins_def Some distinct_key_def o_def finding_tie_def)
qed (simp add: finding_joins_def)

interpretation findings: keyset_query "served (\<lambda>cursor. FindingsBySBOM db js tenantID sbomID minSeverity fixableOnly showSuppressed sortKey sortDir cursor limit)"
  "listed_findings sbomID minSeverity fixableOnly showSuppressed" "\<lambda>_. sort_key_of (findings_spec sortKey sortDir) finding_tie" "\<lambda>_. finding_item"
  "findings_pageable db js tenantID sbomID sortKey sortDir (listed_findings sbomID minSeverity fixableOnly showSuppressed)"
  "ss_desc (findings_spec sortKey sortDir)" "page_size limit" "sort_token db js"
  for db js tenantID sbomID minSeverity fixableOnly showSuppressed sortKey sortDir limit
proof (rule keyset_sort_query)
  fix st assume g: "findings_pageable db js tenantID sbomID sortKey sortDir (listed_findings sbomID minSeverity fixableOnly showSuppressed) st"
  show "served (\<lambda>cursor. FindingsBySBOM db js tenantID sbomID minSeverity fixableOnly showSuppressed sortKey sortDir cursor limit) st cursor =
      (case sort_page db js (Wrapf ''findings: '') (findings_spec sortKey sortDir) finding_tie cursor limit
          (listed_findings sbomID minSeverity fixableOnly showSuppressed st) of Inl _ \<Rightarrow> ([], []) | Inr (items, next) \<Rightarrow> (map finding_item items, next))" for cursor
    using g unfolding FindingsBySBOM_def assertSBOMOwner_def listed_findings_def
    by (cases st) (simp add: findings_pageable_def, rule served_checked; simp)
  show "distinct_key finding_tie (listed_findings sbomID minSeverity fixableOnly showSuppressed st)"
    using g by (auto simp: findings_pageable_def listed_findings_def intro: distinct_key_filter distinct_finding_tie split: prod.splits)
  show "\<forall>r \<in> set (listed_findings sbomID minSeverity fixableOnly showSuppressed st). survives db js (findings_spec sortKey sortDir) finding_tie r"
    using g by (auto simp: findings_pageable_def split: prod.splits)
qed

subsection \<open>Images, SBOMs and histories\<close>

text \<open>The other paged lists are instances of the same contract.\<close>

definition image_rows :: "string \<Rightarrow> string \<Rightarrow> string \<Rightarrow> env \<times> nat \<times> platform \<Rightarrow> RepoImage list" where
  "image_rows tenantID nameFilter labelFilter st =
     repo_images tenantID nameFilter labelFilter (\<not> no_suppressing tenantID (snd (snd st))) (snd (snd st))"

abbreviation images_spec :: "string \<Rightarrow> string \<Rightarrow> RepoImage sortSpec" where
  "images_spec sortKey sortDir \<equiv> resolveSort sortKey sortDir repoImageSortCols ''risk''"

definition images_pageable :: "pg \<Rightarrow> (string \<times> string) codec \<Rightarrow> string \<Rightarrow> string \<Rightarrow> (env \<times> nat \<times> platform \<Rightarrow> RepoImage list) \<Rightarrow> env \<times> nat \<times> platform \<Rightarrow> bool" where
  "images_pageable db js sortKey sortDir rows st =
     (no_faults (fst st) \<and> (\<forall>r \<in> set (rows st). survives db js (images_spec sortKey sortDir) ri_repository r))"

lemma distinct_repositories: "distinct_key ri_repository (repo_images tenantID nameFilter labelFilter hasVEX s)"
  by (simp add: repo_images_def liveImgCTE_def rollupImgCTE_def Let_def distinct_key_def o_def repo_row_def split_beta)

interpretation images: keyset_query "served (\<lambda>cursor. ListRepoImages db js tenantID minSeverity nameFilter labelFilter sortKey sortDir cursor limit)"
  "image_rows tenantID nameFilter labelFilter" "\<lambda>_. sort_key_of (images_spec sortKey sortDir) ri_repository" "\<lambda>_. repo_item minSeverity"
  "images_pageable db js sortKey sortDir (image_rows tenantID nameFilter labelFilter)" "ss_desc (images_spec sortKey sortDir)" "page_size limit" "sort_token db js"
  for db js tenantID minSeverity nameFilter labelFilter sortKey sortDir limit
proof (rule keyset_sort_query)
  fix st assume g: "images_pageable db js sortKey sortDir (image_rows tenantID nameFilter labelFilter) st"
  show "served (\<lambda>cursor. ListRepoImages db js tenantID minSeverity nameFilter labelFilter sortKey sortDir cursor limit) st cursor =
      (case sort_page db js (Wrapf ''list repo images: '') (images_spec sortKey sortDir) ri_repository cursor limit
          (image_rows tenantID nameFilter labelFilter st) of Inl _ \<Rightarrow> ([], []) | Inr (items, next) \<Rightarrow> (map (repo_item minSeverity) items, next))" for cursor
    using g unfolding ListRepoImages_def TenantHasSuppressingVEX_def image_rows_def
    by (cases st) (simp add: images_pageable_def, rule served_checked; simp add: no_suppressing_def)
  show "distinct_key ri_repository (image_rows tenantID nameFilter labelFilter st)" by (simp add: image_rows_def distinct_repositories)
  show "\<forall>r \<in> set (image_rows tenantID nameFilter labelFilter st). survives db js (images_spec sortKey sortDir) ri_repository r"
    using g by (simp add: images_pageable_def)
qed

abbreviation sboms_spec :: "string \<Rightarrow> string \<Rightarrow> sbom_row sortSpec" where
  "sboms_spec sortKey sortDir \<equiv> resolveSort sortKey sortDir repoSBOMSortCols ''generated''"

definition repository_pageable :: "string \<Rightarrow> string \<Rightarrow> (env \<times> nat \<times> platform \<Rightarrow> bool) \<Rightarrow> env \<times> nat \<times> platform \<Rightarrow> bool" where
  "repository_pageable tenantID repository survive st =
     (case st of (e, n, s) \<Rightarrow> no_faults e \<and> list_ex (\<lambda>sb. TenantID sb = tenantID \<and> Repository sb = repository) (sboms (catalog s)) \<and>
        store_inv (catalog s) \<and> survive st)"

interpretation repo_sboms: keyset_query "served (\<lambda>cursor. SBOMsForRepo db js tenantID repository sortKey sortDir cursor limit)"
  "\<lambda>st. repository_sboms tenantID repository (snd (snd st))" "\<lambda>_. sort_key_of (sboms_spec sortKey sortDir) ID" "\<lambda>_. repo_sbom"
  "repository_pageable tenantID repository (\<lambda>st. \<forall>sb \<in> set (repository_sboms tenantID repository (snd (snd st))). survives db js (sboms_spec sortKey sortDir) ID sb)"
  "ss_desc (sboms_spec sortKey sortDir)" "page_size limit" "sort_token db js"
  for db js tenantID repository sortKey sortDir limit
proof (rule keyset_sort_query)
  let ?good = "\<lambda>st. \<forall>sb \<in> set (repository_sboms tenantID repository (snd (snd st))). survives db js (sboms_spec sortKey sortDir) ID sb"
  fix st assume g: "repository_pageable tenantID repository ?good st"
  show "served (\<lambda>cursor. SBOMsForRepo db js tenantID repository sortKey sortDir cursor limit) st cursor =
      (case sort_page db js (Wrapf ''sboms for repo: '') (sboms_spec sortKey sortDir) ID cursor limit
          (repository_sboms tenantID repository (snd (snd st))) of Inl _ \<Rightarrow> ([], []) | Inr (items, next) \<Rightarrow> (map repo_sbom items, next))" for cursor
    using g unfolding SBOMsForRepo_def repository_known_def
    by (cases st) (simp add: repository_pageable_def, rule served_checked; simp)
  show "distinct_key ID (repository_sboms tenantID repository (snd (snd st)))"
    using g by (auto simp: repository_pageable_def repository_sboms_def active_sboms_def store_inv_def intro!: distinct_key_filter split: prod.splits)
  show "\<forall>sb \<in> set (repository_sboms tenantID repository (snd (snd st))). survives db js (sboms_spec sortKey sortDir) ID sb"
    using g by (auto simp: repository_pageable_def split: prod.splits)
qed

abbreviation timeline_spec :: "string \<Rightarrow> string \<Rightarrow> (finding_event \<times> sbom_row) sortSpec" where
  "timeline_spec sortKey sortDir \<equiv> resolveSort sortKey sortDir repoTimelineSortCols ''occurred''"

definition history_rows :: "string \<Rightarrow> string \<Rightarrow> string \<Rightarrow> bool \<Rightarrow> env \<times> nat \<times> platform \<Rightarrow> (finding_event \<times> sbom_row) list" where
  "history_rows tenantID repository minSeverity includeUnknown st = timeline_rows tenantID (\<lambda>sb. Repository sb = repository)
     (timeline_levels minSeverity includeUnknown) (snd (snd st))"

lemma itoa_inj: "itoa i = itoa j \<Longrightarrow> 1 \<le> i \<Longrightarrow> 1 \<le> j \<Longrightarrow> i = j"
  using nat_text_inj [of "nat i" "nat j"] by (simp add: itoa_def)

lemma distinct_joined_events:
  "distinct_key ev_id vs \<Longrightarrow> distinct_key (\<lambda>r. ev_id (fst r)) (List.map_filter (\<lambda>v. map_option (Pair v) (f v)) vs)"
proof (induction vs)
  case (Cons v vs)
  have "ev_id ` fst ` set (List.map_filter (\<lambda>v. map_option (Pair v) (f v)) vs) \<subseteq> ev_id ` set vs"
    by (auto simp: map_filter_def)
  with Cons show ?case by (auto simp: map_filter_simps split: option.split)
qed (simp add: map_filter_simps)

lemma distinct_event_tie:
  assumes "store_inv (catalog s)"
  shows "distinct_key event_tie (timeline_rows tenantID p levels s)"
proof -
  let ?rs = "List.map_filter (\<lambda>v. map_option (Pair v) (sbom_of (ev_sbom v) s)) (events (catalog s))"
  have d: "distinct_key (\<lambda>r. ev_id (fst r)) ?rs" using assms by (intro distinct_joined_events) (simp add: store_inv_def)
  have pos: "1 \<le> ev_id (fst r)" if "r \<in> set ?rs" for r
    using that assms by (auto simp: map_filter_def store_inv_def list_all_iff)
  have "inj_on event_tie (set ?rs)"
  proof (rule inj_onI)
    fix x y assume xy: "x \<in> set ?rs" "y \<in> set ?rs" "event_tie x = event_tie y"
    then have "ev_id (fst x) = ev_id (fst y)" using itoa_inj pos by (simp add: event_tie_def)
    with d xy show "x = y" by (auto simp: distinct_key_def distinct_map inj_on_def)
  qed
  moreover have "distinct ?rs" using d by (auto simp: distinct_key_def distinct_map)
  ultimately have "distinct_key event_tie ?rs" by (simp add: distinct_key_def distinct_map)
  then show ?thesis unfolding timeline_rows_def by (rule distinct_key_filter)
qed

interpretation timeline: keyset_query "served (\<lambda>cursor. RepoTimeline db js tenantID repository minSeverity includeUnknown sortKey sortDir cursor limit)"
  "history_rows tenantID repository minSeverity includeUnknown" "\<lambda>_. sort_key_of (timeline_spec sortKey sortDir) event_tie" "\<lambda>_. timeline_item"
  "repository_pageable tenantID repository (\<lambda>st. \<forall>r \<in> set (history_rows tenantID repository minSeverity includeUnknown st). survives db js (timeline_spec sortKey sortDir) event_tie r)"
  "ss_desc (timeline_spec sortKey sortDir)" "page_size limit" "sort_token db js"
  for db js tenantID repository minSeverity includeUnknown sortKey sortDir limit
proof (rule keyset_sort_query)
  let ?good = "\<lambda>st. \<forall>r \<in> set (history_rows tenantID repository minSeverity includeUnknown st). survives db js (timeline_spec sortKey sortDir) event_tie r"
  fix st assume g: "repository_pageable tenantID repository ?good st"
  show "served (\<lambda>cursor. RepoTimeline db js tenantID repository minSeverity includeUnknown sortKey sortDir cursor limit) st cursor =
      (case sort_page db js (Wrapf ''repo timeline: '') (timeline_spec sortKey sortDir) event_tie cursor limit
          (history_rows tenantID repository minSeverity includeUnknown st) of Inl _ \<Rightarrow> ([], []) | Inr (items, next) \<Rightarrow> (map timeline_item items, next))" for cursor
    using g unfolding RepoTimeline_def repository_known_def history_rows_def
    by (cases st) (simp add: repository_pageable_def, rule served_checked; simp)
  show "distinct_key event_tie (history_rows tenantID repository minSeverity includeUnknown st)"
    using g by (auto simp: repository_pageable_def history_rows_def intro!: distinct_event_tie split: prod.splits)
  show "\<forall>r \<in> set (history_rows tenantID repository minSeverity includeUnknown st). survives db js (timeline_spec sortKey sortDir) event_tie r"
    using g by (auto simp: repository_pageable_def split: prod.splits)
qed

subsection \<open>Events of an SBOM\<close>

definition event_token :: "(time \<times> string) codec \<Rightarrow> time \<times> sort_value \<Rightarrow> string" where
  "event_token js k = encodeCursor js (fst k) (case snd k of SNum q \<Rightarrow> itoa \<lfloor>q\<rfloor> | _ \<Rightarrow> [])"

definition events_pageable :: "pg \<Rightarrow> (time \<times> string) codec \<Rightarrow> string \<Rightarrow> string \<Rightarrow> string \<Rightarrow> env \<times> nat \<times> platform \<Rightarrow> bool" where
  "events_pageable db js tenantID sbomID minSeverity st =
     (case st of (e, n, s) \<Rightarrow> no_faults e \<and> list_ex (\<lambda>sb. ID sb = sbomID \<and> TenantID sb = tenantID) (sboms (catalog s)) \<and>
        distinct_key ev_id (events (catalog s)) \<and>
        (\<forall>v \<in> set (event_rows sbomID minSeverity s). codec_ok js (ev_occurred_at v, itoa (ev_id v)) \<and>
           pg_cast db ''bigint'' (itoa (ev_id v)) = Inr (SNum (of_int (ev_id v)))))"

lemma event_token_position: "event_token js (event_position v) = encodeCursor js (ev_occurred_at v) (itoa (ev_id v))"
  by (simp add: event_token_def event_position_def)

lemma EventsBySBOM_page:
  assumes "events_pageable db js tenantID sbomID minSeverity (e, n, s)" and "event_seek db (decodeCursor js cursor) = Inr cur"
  shows "served (\<lambda>cursor. EventsBySBOM db js tenantID sbomID minSeverity cursor limit) (e, n, s) cursor =
     (case page_rows True event_position cur (page_size limit, Suc (page_size limit)) (event_rows sbomID minSeverity s) of
        (items, final) \<Rightarrow> (map event_item items, case final of None \<Rightarrow> [] | Some v \<Rightarrow> event_token js (event_position v)))"
  using assms by (auto simp: served_def events_pageable_def EventsBySBOM_def assertSBOMOwner_def db_bind_def db_read_def db_stmt_def no_faults_def
      clampLimit_window event_token_position split: sum.splits prod.splits option.splits)

lemma distinct_event_position: "distinct_key ev_id vs \<Longrightarrow> distinct_key event_position vs"
  by (auto simp: distinct_key_def distinct_map inj_on_def event_position_def)

interpretation sbom_events: keyset_query "served (\<lambda>cursor. EventsBySBOM db js tenantID sbomID minSeverity cursor limit)"
  "\<lambda>st. event_rows sbomID minSeverity (snd (snd st))" "\<lambda>_. event_position" "\<lambda>_. event_item" "events_pageable db js tenantID sbomID minSeverity" True
  "page_size limit" "event_token js"
  for db js tenantID sbomID minSeverity limit
proof
  show "0 < page_size limit" by (rule page_size_pos)
  fix st assume st: "events_pageable db js tenantID sbomID minSeverity st"
  obtain e n s where est: "st = (e, n, s)" by (cases st)
  show "distinct_key event_position (event_rows sbomID minSeverity (snd (snd st)))"
    using st by (auto simp: est events_pageable_def event_rows_def intro!: distinct_key_filter distinct_event_position)
  note page = EventsBySBOM_page [OF st [unfolded est]]
  show "served (\<lambda>cursor. EventsBySBOM db js tenantID sbomID minSeverity cursor limit) st [] =
     (case page_rows True event_position None (page_size limit, Suc (page_size limit)) (event_rows sbomID minSeverity (snd (snd st))) of
        (items, final) \<Rightarrow> (map event_item items, case final of None \<Rightarrow> [] | Some v \<Rightarrow> event_token js (event_position v)))"
    unfolding est snd_conv by (rule page) (simp add: decodeCursor_def event_seek_def)
  fix st' r assume "events_pageable db js tenantID sbomID minSeverity st'" and "r \<in> set (event_rows sbomID minSeverity (snd (snd st')))"
  then have r: "codec_ok js (ev_occurred_at r, itoa (ev_id r))" "pg_cast db ''bigint'' (itoa (ev_id r)) = Inr (SNum (of_int (ev_id r)))"
    by (auto simp: events_pageable_def split: prod.splits)
  show "served (\<lambda>cursor. EventsBySBOM db js tenantID sbomID minSeverity cursor limit) st (event_token js (event_position r)) =
     (case page_rows True event_position (Some (event_position r)) (page_size limit, Suc (page_size limit)) (event_rows sbomID minSeverity (snd (snd st))) of
        (items, final) \<Rightarrow> (map event_item items, case final of None \<Rightarrow> [] | Some v \<Rightarrow> event_token js (event_position v)))"
    unfolding est snd_conv by (rule page) (simp add: event_token_position cursor_roundtrip r event_seek_def, simp add: event_position_def)
next
  fix st r assume "events_pageable db js tenantID sbomID minSeverity st" and "r \<in> set (event_rows sbomID minSeverity (snd (snd st)))"
  then show "event_token js (event_position r) \<noteq> []"
    by (auto simp: events_pageable_def event_token_position cursor_roundtrip split: prod.splits)
qed


definition demo_codec :: "(string \<times> string) codec" where
  "demo_codec = \<lparr>marshal = (\<lambda>(v, i). v @ '','' @ i), unmarshal = (\<lambda>s. Cut s '','')\<rparr>"

text \<open>The number 9.8 as a \<open>real\<close> and as a number of double precision; its text is 9.8.\<close>

definition demo_pg :: pg where
  "demo_pg = \<lparr>pg_text = (\<lambda>v. case v of SText t \<Rightarrow> t | STime t \<Rightarrow> itoa t | SNum q \<Rightarrow> if q = 10276045 / 1048576 then ''9.8'' else itoa \<lfloor>q\<rfloor>),
     pg_cast = (\<lambda>c t. if c = ''text'' then Inr (SText t) else if c = ''double precision'' \<and> t = ''9.8'' then Inr (SNum (2758454771764429 / 281474976710656))
       else Inl ''invalid input syntax'')\<rparr>"

definition demo_scored :: "rat \<Rightarrow> string list \<Rightarrow> platform" where
  "demo_scored score ps = demo_platform\<lparr>vex_statements := [], catalog := empty_store\<lparr>sboms := [demo_image], findings := map (\<lambda>p. \<lparr>f_sbom = ''i'', f_scanner = ''grype'', f_id = p,
     f_vuln = \<lparr>Exposure = ''CVE-1'', Package = p, Version = ''1'', Severity = ''critical'', Score = score, IsFixed = False\<rparr>, f_updated_at = 0\<rparr>) ps\<rparr>\<rparr>"

definition demo_page :: "string \<Rightarrow> int \<Rightarrow> env \<times> nat \<times> platform \<Rightarrow> string \<Rightarrow> Finding list \<times> string" where
  "demo_page sortKey limit = served (\<lambda>cursor. FindingsBySBOM demo_pg demo_codec ''a'' ''i'' ''low'' False False sortKey [] cursor limit)"

definition demo_state :: "string list \<Rightarrow> env \<times> nat \<times> platform" where
  "demo_state ps = (calm_env 0, 0, demo_scored (10276045 / 1048576) ps)"


text \<open>
  Sorted by score, which is a \<open>real\<close> whose text is cast to double precision, the pages lose the rest of the findings that share the score at
  the end of a page: of three findings with the score 9.8 a reader who takes them one by one gets the first and is
  told that it was the last; sorted by package the reader gets all three.
\<close>

theorem cvss_pages_lose_ties:
  "map_prod (map fi_Package) id (follow (demo_page ''package'' 1) (replicate 4 (demo_state [''b'', ''a'', ''c''])) []) = ([''a'', ''b'', ''c''], True) \<and>
   map_prod (map fi_Package) id (follow (demo_page ''cvss'' 1) (replicate 4 (demo_state [''b'', ''a'', ''c''])) []) = ([''c''], True)"
  by code_simp

end
