(* ===== verification/Account_Deletion.thy ===== *)
theory Account_Deletion
  imports Read_Models
begin

text \<open>
  The end of an account: \<open>pkg/data/postgres/admin.go\<close> with the plan and the status of an account, and the
  operator's handler in \<open>pkg/server/handler_admin.go\<close>. A deletion suspends the account, leaves a marker in the audit log,
  removes the objects and rows of its SBOMs in batches and then the account itself, whose rows in other
  tables go with it by the foreign keys of the migrations. The bucket is the list of its objects; that
  removing one may fail is an argument.
\<close>

section \<open>Plan and status\<close>

definition accountDeletionStartAction :: string where "accountDeletionStartAction = ''account.delete.start''"
definition adminAccountDeletionBatchSize :: nat where "adminAccountDeletionBatchSize = 100"
definition adminPendingSBOMGrace :: interval where "adminPendingSBOMGrace = minutes 5"

definition adminUpdateAccount :: "string \<Rightarrow> (time \<Rightarrow> account_row \<Rightarrow> account_row) \<Rightarrow> (platform, unit) db" where
  "adminUpdateAccount accountID f =
     db_stmt (Wrapf ''update admin account: '') (\<lambda>t s.
       if account_of accountID s = None then (Inl ErrNotFound, s)
       else (Inr (), s\<lparr>accounts := update_where (\<lambda>a. a_ID a = accountID) (f t) (accounts s)\<rparr>))"

definition AdminSetAccountPlan :: "string \<Rightarrow> string \<Rightarrow> (platform, unit) db" where
  "AdminSetAccountPlan accountID plan = adminUpdateAccount accountID (\<lambda>t a. a\<lparr>a_Plan := plan, a_UpdatedAt := t\<rparr>)"

definition deletion_marked :: "string \<Rightarrow> 'z registry_scheme \<Rightarrow> bool" where
  "deletion_marked accountID s =
     list_ex (\<lambda>r. au_account r = accountID \<and> au_action r = accountDeletionStartAction \<and> au_target_type r = ''account'' \<and> au_target r = accountID) (audit s)"

definition accountDeletionStarted :: "string \<Rightarrow> (platform, bool) db" where
  "accountDeletionStarted accountID = db_read (Wrapf ''read account deletion start marker: '') (\<lambda>_ s. Inr (deletion_marked accountID s))"

definition lock_account :: "string \<Rightarrow> string \<Rightarrow> (platform, account_row) db" where
  "lock_account what accountID =
     db_read (Wrapf what) (\<lambda>_ s. case account_of accountID s of None \<Rightarrow> Inl ErrNotFound | Some a \<Rightarrow> Inr a)"

definition set_account_status :: "string \<Rightarrow> string \<Rightarrow> time \<Rightarrow> platform \<Rightarrow> platform" where
  "set_account_status accountID st t s =
     s\<lparr>accounts := update_where (\<lambda>a. a_ID a = accountID) (\<lambda>a. a\<lparr>a_Status := st, a_UpdatedAt := t\<rparr>) (accounts s)\<rparr>"

definition AdminSetAccountStatus :: "string \<Rightarrow> string \<Rightarrow> (platform, unit) db" where
  "AdminSetAccountStatus accountID st =
     db_tx ''begin admin account status update: '' (\<lambda>now.
       db_bind (lock_account ''lock admin account status: '' accountID) (\<lambda>_.
       db_bind (accountDeletionStarted accountID) (\<lambda>marked.
       if marked then db_fail ErrAccountDeletionInProgress
       else db_write (Wrapf ''update admin account status: '') (\<lambda>_. set_account_status accountID st now))))
     ''commit admin account status update: ''"

section \<open>Deletion\<close>

definition deletable :: "string \<Rightarrow> time \<Rightarrow> time \<Rightarrow> sbom_row \<Rightarrow> bool" where
  "deletable accountID suspendedAt now sb =
     (TenantID sb = accountID \<and>
      (Status sb \<noteq> ''pending'' \<or> SubmittedAt sb \<le> suspendedAt \<and> SubmittedAt sb \<le> now - adminPendingSBOMGrace))"

text \<open>An \<open>AdminAccountDeletionObject\<close> is the pair of identifier and path.\<close>

definition deletion_batch :: "string \<Rightarrow> time \<Rightarrow> time \<Rightarrow> platform \<Rightarrow> (string \<times> string) list" where
  "deletion_batch accountID suspendedAt now s =
     map (\<lambda>sb. (ID sb, ObjectPath sb)) (take adminAccountDeletionBatchSize
       (sort_key (\<lambda>sb. (SubmittedAt sb, ID sb)) (filter (deletable accountID suspendedAt now) (sboms (catalog s)))))"

definition AdminPrepareAccountDeletion :: "string \<Rightarrow> Actor \<Rightarrow> string \<Rightarrow> (platform, (string \<times> string) list) db" where
  "AdminPrepareAccountDeletion accountID actor requestID =
     (if ActorKind actor \<noteq> ActorPlatform then db_fail (Errorf ''account deletion requires platform actor'')
      else let ev = success_event accountDeletionStartAction ''account'' accountID requestID [] in
        db_bind (db_lift (validateAuditInput accountID actor ev)) (\<lambda>metadata.
        db_tx ''begin account deletion preparation: '' (\<lambda>now.
          db_bind (lock_account ''lock account for deletion: '' accountID) (\<lambda>a.
          db_bind (accountDeletionStarted accountID) (\<lambda>marked.
          db_bind (if \<not> marked \<and> a_Status a \<noteq> ''suspended'' then
              db_stmt (Wrapf ''suspend account for deletion: '') (\<lambda>t s. (Inr t, set_account_status accountID ''suspended'' t s))
            else db_return (a_UpdatedAt a)) (\<lambda>suspendedAt.
          db_bind (if \<not> marked then
              db_write (Wrapf ''insert account deletion start marker: '')
                (\<lambda>_. insert_audit accountID (actor\<lparr>APITokenID := []\<rparr>) ev metadata now)
            else db_return ()) (\<lambda>_.
          db_read (Wrapf ''list account deletion objects: '') (\<lambda>_ s. Inr (deletion_batch accountID suspendedAt now s)))))))
        ''commit account deletion preparation: ''))"

text \<open>Rows of SBOMs go with what refers to them.\<close>

definition drop_sboms :: "(sbom_row \<Rightarrow> bool) \<Rightarrow> platform \<Rightarrow> platform" where
  "drop_sboms p s =
     s\<lparr>catalog := delete_sboms p (catalog s),
       attestations := filter (\<lambda>x. at_of x \<notin> set (map ID (filter p (sboms (catalog s))))) (attestations s)\<rparr>"

definition AdminDeleteAccountSBOM :: "string \<Rightarrow> string \<Rightarrow> (platform, unit) db" where
  "AdminDeleteAccountSBOM accountID sbomID =
     db_stmt (Wrapf ''delete account SBOM cleanup row: '') (\<lambda>_ s.
       let p = (\<lambda>sb. TenantID sb = accountID \<and> ID sb = sbomID) in
       if list_ex p (sboms (catalog s)) then (Inr (), drop_sboms p s) else (Inl ErrNotFound, s))"

definition detach_identities :: "string \<Rightarrow> platform \<Rightarrow> platform" where
  "detach_identities accountID s =
     s\<lparr>identities := update_where (\<lambda>i. id_tenant i = Some accountID \<and> id_user i \<noteq> None) (\<lambda>i. i\<lparr>id_tenant := None\<rparr>) (identities s)\<rparr>"

definition detach_sessions :: "string \<Rightarrow> platform \<Rightarrow> platform" where
  "detach_sessions accountID s =
     s\<lparr>sessions := update_where (\<lambda>x. se_user x \<noteq> None \<and> (se_tenant x = Some accountID \<or> se_active x = Some accountID))
         (\<lambda>x. x\<lparr>se_tenant := None, se_active := None\<rparr>) (sessions s)\<rparr>"

text \<open>\<open>DELETE FROM devradar_tenant\<close> with the foreign keys: what belongs to the account goes, what only refers to it is set to
  \<open>NULL\<close>. The append-only logs of findings and of failures have no foreign key.\<close>

definition catalog_without :: "string \<Rightarrow> store \<Rightarrow> store" where
  "catalog_without a c =
     (delete_sboms (\<lambda>sb. TenantID sb = a) c)\<lparr>
       policies := filter (\<lambda>p. ap_tenant p \<noteq> a) (policies c),
       alerts := filter (\<lambda>x. al_tenant x \<noteq> a) (alerts (delete_sboms (\<lambda>sb. TenantID sb = a) c)),
       alert_queue := filter (\<lambda>q. q_tenant q \<noteq> a) (alert_queue c)\<rparr>"

definition registry_without :: "string \<Rightarrow> platform \<Rightarrow> platform" where
  "registry_without a s =
     (let gone = map se_id (filter (\<lambda>x. se_tenant x = Some a) (sessions s)); dead = map tk_id (filter (\<lambda>k. tk_tenant k = a) (api_tokens s));
          lost = map in_id (filter (\<lambda>g. in_account g = a) (grants s)) in
      s\<lparr>accounts := filter (\<lambda>x. a_ID x \<noteq> a) (accounts s),
        users := update_where (\<lambda>u. legacy_tenant_id u = Some a) (\<lambda>u. u\<lparr>legacy_tenant_id := None\<rparr>) (users s),
        members := filter (\<lambda>m. m_AccountID m \<noteq> a) (members s),
        identities := filter (\<lambda>i. id_tenant i \<noteq> Some a) (identities s),
        sessions := update_where (\<lambda>x. se_active x = Some a) (\<lambda>x. x\<lparr>se_active := None\<rparr>) (filter (\<lambda>x. se_tenant x \<noteq> Some a) (sessions s)),
        api_tokens := filter (\<lambda>k. tk_tenant k \<noteq> a) (api_tokens s),
        flashes := filter (\<lambda>f. fl_account f \<noteq> a \<and> fl_session f \<notin> set gone) (flashes s),
        legacy_flashes := filter (\<lambda>x. x \<noteq> a) (legacy_flashes s),
        audit := update_where (\<lambda>r. \<exists>k \<in> set dead. au_token r = Some k) (\<lambda>r. r\<lparr>au_token := None\<rparr>) (filter (\<lambda>r. au_account r \<noteq> a) (audit s)),
        grants := filter (\<lambda>g. in_account g \<noteq> a) (grants s),
        post := (post s)\<lparr>outbox := filter (\<lambda>r. ob_account r \<noteq> a \<and> ob_invitation r \<notin> set lost) (outbox (post s))\<rparr>\<rparr>)"

definition delete_account :: "string \<Rightarrow> platform \<Rightarrow> platform" where
  "delete_account a s =
     (registry_without a s)\<lparr>
       catalog := catalog_without a (catalog s),
       vex_documents := filter (\<lambda>d. vd_tenant d \<noteq> a) (vex_documents s),
       vex_statements := filter (\<lambda>v. vs_tenant v \<noteq> a) (vex_statements s),
       license_policies := filter (\<lambda>p. lp_tenant p \<noteq> a) (license_policies s),
       attestations := filter (\<lambda>x. at_tenant x \<noteq> a) (attestations (drop_sboms (\<lambda>sb. TenantID sb = a) s)),
       tenant_snapshots := filter (\<lambda>x. sn_tenant x \<noteq> a) (tenant_snapshots s),
       repository_snapshots := filter (\<lambda>x. sn_tenant x \<noteq> a) (repository_snapshots s)\<rparr>"

definition AdminFinalizeAccountDeletion :: "string \<Rightarrow> (platform, unit) db" where
  "AdminFinalizeAccountDeletion accountID =
     db_tx ''begin account deletion finalization: '' (\<lambda>_.
       db_bind (lock_account ''lock account for deletion finalization: '' accountID) (\<lambda>a.
       if a_Status a \<noteq> ''suspended'' then db_fail ErrAccountDeletionIncomplete
       else
         db_bind (accountDeletionStarted accountID) (\<lambda>marked.
         if \<not> marked then db_fail ErrAccountDeletionIncomplete
         else
           db_bind (db_read (Wrapf ''count remaining account SBOMs: '') (\<lambda>_ s. Inr (count_where (\<lambda>sb. TenantID sb = accountID) (sboms (catalog s))))) (\<lambda>remaining.
           if remaining \<noteq> 0 then db_fail ErrAccountDeletionIncomplete
           else
             db_bind (db_write (Wrapf ''detach authoritative account identities: '') (\<lambda>_. detach_identities accountID)) (\<lambda>_.
             db_bind (db_write (Wrapf ''detach authoritative account sessions: '') (\<lambda>_. detach_sessions accountID)) (\<lambda>_.
             db_stmt (Wrapf ''delete admin account: '') (\<lambda>_ s.
               if account_of accountID s = None then (Inl ErrNotFound, s) else (Inr (), delete_account accountID s))))))))
     ''commit account deletion finalization: ''"

section \<open>The operator's handler\<close>

text \<open>The database and the bucket.\<close>

type_synonym world = "platform \<times> string list"

definition on_platform :: "(platform, 'a) db \<Rightarrow> (world, 'a) db" where
  "on_platform m e n w = (case m e n (fst w) of (r, n', s) \<Rightarrow> (r, n', (s, snd w)))"

text \<open>Removing an object that is not there succeeds.\<close>

definition blob_delete :: "(string \<Rightarrow> go_error option) \<Rightarrow> string \<Rightarrow> (world, unit) db" where
  "blob_delete broken path e n w =
     (case broken path of Some err \<Rightarrow> (Inl err, n, w) | None \<Rightarrow> (Inr (), n, (fst w, filter (\<lambda>x. x \<noteq> path) (snd w))))"

fun delete_objects :: "(string \<Rightarrow> go_error option) \<Rightarrow> string \<Rightarrow> (string \<times> string) list \<Rightarrow> (world, unit) db" where
  "delete_objects broken accountID [] = db_return ()"
| "delete_objects broken accountID ((sbomID, path) # objects) =
     db_bind (blob_delete broken path) (\<lambda>_.
     db_bind (db_try (on_platform (AdminDeleteAccountSBOM accountID sbomID))) (\<lambda>r.
     case r of
       Inr _ \<Rightarrow> delete_objects broken accountID objects
     | Inl err \<Rightarrow> if errors_Is err ErrNotFound then delete_objects broken accountID objects else db_fail err))"

text \<open>The message of the redirect.\<close>

definition handleAdminDeleteAccount :: "(string \<Rightarrow> go_error option) \<Rightarrow> string \<Rightarrow> string \<Rightarrow> string \<Rightarrow> (world, string) db" where
  "handleAdminDeleteAccount broken userID accountID requestID =
     (let actor = \<lparr>ActorKind = ActorPlatform, UserID = userID, APITokenID = []\<rparr> in
      db_bind (db_try (on_platform (AdminPrepareAccountDeletion accountID actor requestID))) (\<lambda>prepared.
      case prepared of
        Inl _ \<Rightarrow> db_return ''cleanup_failed''
      | Inr objects \<Rightarrow>
          db_bind (db_try (delete_objects broken accountID objects)) (\<lambda>r.
          case r of
            Inl _ \<Rightarrow> db_return ''cleanup_failed''
          | Inr _ \<Rightarrow>
              db_bind (db_try (on_platform (AdminFinalizeAccountDeletion accountID))) (\<lambda>f.
              case f of
                Inl err \<Rightarrow> db_return (if errors_Is err ErrAccountDeletionIncomplete then ''cleanup_in_progress'' else ''cleanup_failed'')
              | Inr _ \<Rightarrow> db_return ''account_deleted''))))"

section \<open>What a deletion leaves\<close>

text \<open>No row belongs to the account and none refers to it, in any table with a foreign key.\<close>

definition account_gone :: "string \<Rightarrow> platform \<Rightarrow> bool" where
  "account_gone a s \<longleftrightarrow>
     account_of a s = None \<and> list_all (\<lambda>u. legacy_tenant_id u \<noteq> Some a) (users s) \<and> list_all (\<lambda>m. m_AccountID m \<noteq> a) (members s) \<and>
     list_all (\<lambda>i. id_tenant i \<noteq> Some a) (identities s) \<and> list_all (\<lambda>x. se_tenant x \<noteq> Some a \<and> se_active x \<noteq> Some a) (sessions s) \<and>
     list_all (\<lambda>k. tk_tenant k \<noteq> a) (api_tokens s) \<and> list_all (\<lambda>f. fl_account f \<noteq> a) (flashes s) \<and> a \<notin> set (legacy_flashes s) \<and>
     list_all (\<lambda>r. au_account r \<noteq> a) (audit s) \<and> list_all (\<lambda>g. in_account g \<noteq> a) (grants s) \<and> list_all (\<lambda>r. ob_account r \<noteq> a) (outbox (post s)) \<and>
     list_all (\<lambda>sb. TenantID sb \<noteq> a) (sboms (catalog s)) \<and> list_all (\<lambda>p. ap_tenant p \<noteq> a) (policies (catalog s)) \<and>
     list_all (\<lambda>x. al_tenant x \<noteq> a) (alerts (catalog s)) \<and> list_all (\<lambda>q. q_tenant q \<noteq> a) (alert_queue (catalog s)) \<and>
     list_all (\<lambda>d. vd_tenant d \<noteq> a) (vex_documents s) \<and> list_all (\<lambda>v. vs_tenant v \<noteq> a) (vex_statements s) \<and>
     list_all (\<lambda>p. lp_tenant p \<noteq> a) (license_policies s) \<and> list_all (\<lambda>x. at_tenant x \<noteq> a) (attestations s) \<and>
     list_all (\<lambda>x. sn_tenant x \<noteq> a) (tenant_snapshots s) \<and> list_all (\<lambda>x. sn_tenant x \<noteq> a) (repository_snapshots s)"

text \<open>What the other accounts have: their rows, the catalog's evidence, and their entries of the audit log up to references to tokens.\<close>

definition elsewhere_accounts :: "string \<Rightarrow> platform \<Rightarrow> account_row list \<times> Membership list \<times> token_row list \<times> grant_row list \<times> audit_row list" where
  "elsewhere_accounts a s =
     (filter (\<lambda>x. a_ID x \<noteq> a) (accounts s), filter (\<lambda>m. m_AccountID m \<noteq> a) (members s), filter (\<lambda>k. tk_tenant k \<noteq> a) (api_tokens s),
      filter (\<lambda>g. in_account g \<noteq> a) (grants s), map (\<lambda>r. r\<lparr>au_token := None\<rparr>) (filter (\<lambda>r. au_account r \<noteq> a) (audit s)))"

definition elsewhere_catalog :: "string \<Rightarrow> platform \<Rightarrow> sbom_row list \<times> finding_row list \<times> scan_run list \<times> rollup_row list \<times> package_row list \<times> AlertPolicy list \<times> vex_statement list \<times> license_row list" where
  "elsewhere_catalog a s =
     (sboms (catalog s), findings (catalog s), scan_runs (catalog s), rollups (catalog s), packages (catalog s),
      filter (\<lambda>p. ap_tenant p \<noteq> a) (policies (catalog s)), filter (\<lambda>v. vs_tenant v \<noteq> a) (vex_statements s), filter (\<lambda>p. lp_tenant p \<noteq> a) (license_policies s))"

lemma Finalize_Inr:
  assumes "AdminFinalizeAccountDeletion a e n s = (Inr u, n', s')"
  obtains r where "account_of a s = Some r" "a_Status r = ''suspended''" "deletion_marked a s" "list_all (\<lambda>sb. TenantID sb \<noteq> a) (sboms (catalog s))"
    "s' = delete_account a (detach_sessions a (detach_identities a s))"
  using assms
  by (auto simp: AdminFinalizeAccountDeletion_def lock_account_def accountDeletionStarted_def db_tx_Inr db_bind_Inr db_read_Inr db_write_Inr db_stmt_Inr
      count_where_def filter_empty_conv list_all_iff split: option.splits if_splits)

lemma delete_none: "list_all (\<lambda>sb. \<not> p sb) (sboms c) \<Longrightarrow> delete_sboms p c = c"
proof -
  assume "list_all (\<lambda>sb. \<not> p sb) (sboms c)"
  then have none: "filter p (sboms c) = []" "filter (\<lambda>r. \<not> p r) (sboms c) = sboms c" by (auto simp: list_all_iff filter_empty_conv)
  show "delete_sboms p c = c" by (simp add: delete_sboms_def none)
qed

lemma map_update_where: "(\<And>x. P x \<Longrightarrow> f (g x) = f x) \<Longrightarrow> map f (update_where P g xs) = map f xs"
  by (auto simp: update_where_def)

lemma filter_update_where: "(\<And>x. P x \<Longrightarrow> Q (g x) = Q x) \<Longrightarrow> filter Q (update_where P g xs) = update_where P g (filter Q xs)"
  by (induction xs) (auto simp: update_where_def)

lemma session_stays:
  "x \<in> set (sessions s) \<Longrightarrow> se_tenant x \<noteq> Some a \<Longrightarrow> se_active x \<noteq> Some a \<Longrightarrow> x \<in> set (sessions (delete_account a s))"
  by (auto simp: delete_account_def registry_without_def Let_def set_update_where)

lemma account_gone_finalized:
  assumes "AdminFinalizeAccountDeletion a e n s = (Inr u, n', s')"
  shows "account_gone a s'"
proof -
  from assms obtain r where r: "list_all (\<lambda>sb. TenantID sb \<noteq> a) (sboms (catalog s))" and s': "s' = delete_account a (detach_sessions a (detach_identities a s))"
    by (rule Finalize_Inr)
  show ?thesis using r
    by (simp add: account_gone_def s' delete_account_def registry_without_def catalog_without_def detach_sessions_def detach_identities_def Let_def
        delete_none [of "\<lambda>sb. TenantID sb = a", OF r] account_of_def lookup_key_None list_all_iff update_where_def) auto
qed


section \<open>No object is left behind\<close>

text \<open>The SBOMs of an account whose object is still in the bucket keep their rows; the bucket only loses objects; and the SBOMs of
  the other accounts stay.\<close>

definition no_orphans :: "string \<Rightarrow> world \<Rightarrow> world \<Rightarrow> bool" where
  "no_orphans a w w' \<longleftrightarrow>
     (\<forall>sb \<in> set (sboms (catalog (fst w))). TenantID sb = a \<longrightarrow> sb \<in> set (sboms (catalog (fst w'))) \<or> ObjectPath sb \<notin> set (snd w')) \<and>
     set (snd w') \<subseteq> set (snd w) \<and> set (sboms (catalog (fst w'))) \<subseteq> set (sboms (catalog (fst w))) \<and>
     filter (\<lambda>sb. TenantID sb \<noteq> a) (sboms (catalog (fst w'))) = filter (\<lambda>sb. TenantID sb \<noteq> a) (sboms (catalog (fst w)))"

lemma no_orphans_refl: "no_orphans a w w"
  by (simp add: no_orphans_def)

lemma no_orphans_trans: "no_orphans a w w' \<Longrightarrow> no_orphans a w' w'' \<Longrightarrow> no_orphans a w w''"
  unfolding no_orphans_def by (metis subset_iff)

lemma no_orphans_same: "sboms (catalog (fst w')) = sboms (catalog (fst w)) \<Longrightarrow> snd w' = snd w \<Longrightarrow> no_orphans a w w'"
  by (simp add: no_orphans_def)

text \<open>The objects of a batch are those of the rows with their identifiers.\<close>

definition paths_of :: "string \<Rightarrow> (string \<times> string) list \<Rightarrow> platform \<Rightarrow> bool" where
  "paths_of a objects s \<longleftrightarrow>
     (\<forall>(sid, path) \<in> set objects. \<forall>sb \<in> set (sboms (catalog s)). TenantID sb = a \<and> ID sb = sid \<longrightarrow> ObjectPath sb = path)"

lemma sboms_drop [simp]: "sboms (catalog (drop_sboms p s)) = filter (\<lambda>sb. \<not> p sb) (sboms (catalog s))"
  by (simp add: drop_sboms_def delete_sboms_def Let_def)

lemma delete_one:
  assumes "on_platform (AdminDeleteAccountSBOM a sid) e n w = (r, n', w')"
  shows "snd w' = snd w" and "sboms (catalog (fst w')) = sboms (catalog (fst w)) \<or>
    sboms (catalog (fst w')) = filter (\<lambda>sb. \<not> (TenantID sb = a \<and> ID sb = sid)) (sboms (catalog (fst w)))"
  using assms by (auto simp: on_platform_def AdminDeleteAccountSBOM_def db_stmt_def Let_def split: option.splits if_splits prod.splits)

lemma delete_objects_step:
  "delete_objects broken a ((sid, path) # objects) e n w =
     (case broken path of
        Some err \<Rightarrow> (Inl err, n, w)
      | None \<Rightarrow>
          (case on_platform (AdminDeleteAccountSBOM a sid) e n (fst w, filter (\<lambda>x. x \<noteq> path) (snd w)) of
             (Inr _, n1, w1) \<Rightarrow> delete_objects broken a objects e n1 w1
           | (Inl err, n1, w1) \<Rightarrow> if errors_Is err ErrNotFound then delete_objects broken a objects e n1 w1 else (Inl err, n1, w1)))"
  by (simp add: db_bind_def blob_delete_def db_try_def split: option.split sum.split prod.split)

lemma delete_row_safe:
  assumes "on_platform (AdminDeleteAccountSBOM a sid) e n (fst w, filter (\<lambda>x. x \<noteq> path) (snd w)) = (r, n1, w1)" and "paths_of a ((sid, path) # objects) (fst w)"
  shows "no_orphans a w w1" and "paths_of a objects (fst w1)"
proof -
  note one = delete_one [OF assms(1), simplified]
  show "no_orphans a w w1" using one assms(2) by (auto simp: no_orphans_def paths_of_def intro: filter_cong)
  show "paths_of a objects (fst w1)" using one(2) assms(2) by (auto simp: paths_of_def)
qed

lemma delete_objects_safe:
  "delete_objects broken a objects e n w = (r, n', w') \<Longrightarrow> paths_of a objects (fst w) \<Longrightarrow> no_orphans a w w'"
proof (induction objects arbitrary: n w r n' w')
  case (Cons object objects)
  obtain sid path where o: "object = (sid, path)" by (cases object)
  note run = Cons.prems(1) [unfolded o delete_objects_step]
  show ?case
  proof (cases "broken path")
    case (Some err)
    then show ?thesis using run by (simp add: no_orphans_refl)
  next
    case None
    obtain r1 n1 w1 where step: "on_platform (AdminDeleteAccountSBOM a sid) e n (fst w, filter (\<lambda>x. x \<noteq> path) (snd w)) = (r1, n1, w1)"
      using prod_cases3 by blast
    note safe = delete_row_safe [OF step Cons.prems(2) [unfolded o]]
    have "delete_objects broken a objects e n1 w1 = (r, n', w') \<or> w' = w1" using run by (simp add: None step split: sum.splits if_splits)
    then show ?thesis
    proof
      assume "delete_objects broken a objects e n1 w1 = (r, n', w')"
      from no_orphans_trans [OF safe(1) Cons.IH [OF this safe(2)]] show ?thesis .
    next
      assume "w' = w1"
      with safe(1) show ?thesis by simp
    qed
  qed
qed (simp add: no_orphans_refl)

lemma batch_paths:
  assumes "distinct_key ID (sboms (catalog s))"
  shows "paths_of a (deletion_batch b t now s) s"
proof -
  have inj: "inj_on ID (set (sboms (catalog s)))" using assms by (simp add: distinct_key_def distinct_map)
  have same: "ObjectPath sb = ObjectPath x" if "x \<in> set (sboms (catalog s))" "sb \<in> set (sboms (catalog s))" "ID sb = ID x" for x sb
    using inj_onD [OF inj that(3,2,1)] by (rule arg_cong)
  have row: "\<exists>x \<in> set (sboms (catalog s)). ID x = sid \<and> ObjectPath x = path" if "(sid, path) \<in> set (deletion_batch b t now s)" for sid path
  proof -
    from that obtain x where x: "sid = ID x" "path = ObjectPath x"
      "x \<in> set (take adminAccountDeletionBatchSize (sort_key (\<lambda>sb. (SubmittedAt sb, ID sb)) (filter (deletable b t now) (sboms (catalog s)))))"
      unfolding deletion_batch_def set_map by blast
    from in_set_takeD [OF x(3)] have "x \<in> set (sboms (catalog s))" by simp
    with x(1,2) show ?thesis by blast
  qed
  show ?thesis unfolding paths_of_def case_prod_beta
  proof (intro ballI impI)
    fix object sb assume object: "object \<in> set (deletion_batch b t now s)" and sb: "sb \<in> set (sboms (catalog s))" and "TenantID sb = a \<and> ID sb = fst object"
    then have i: "ID sb = fst object" by simp
    from object have "(fst object, snd object) \<in> set (deletion_batch b t now s)" by simp
    from row [OF this] obtain x where x: "x \<in> set (sboms (catalog s))" "ID x = fst object" "ObjectPath x = snd object" by blast
    show "ObjectPath sb = snd object" unfolding x(3) [symmetric] by (rule same [OF x(1) sb]) (simp add: x(2) i)
  qed
qed

lemma Prepare_keeps: "db_keeps (\<lambda>s s'. catalog s' = catalog s) (AdminPrepareAccountDeletion a actor rid)"
proof -
  have trans: "catalog s'' = catalog s" if "catalog s' = catalog s" "catalog s'' = catalog s'" for s s' s'' :: platform using that by simp
  note rules = db_keeps_return [of "\<lambda>s s'. catalog s' = catalog s", OF refl] db_keeps_fail [of "\<lambda>s s'. catalog s' = catalog s", OF refl]
    db_keeps_bind [of "\<lambda>s s'. catalog s' = catalog s", OF trans] db_keeps_tx [of "\<lambda>s s'. catalog s' = catalog s", OF refl]
    db_keeps_read [of "\<lambda>s s'. catalog s' = catalog s", OF refl] db_keeps_lift [of "\<lambda>s s'. catalog s' = catalog s", OF refl]
    db_keeps_stmt [of "\<lambda>s s'. catalog s' = catalog s", OF refl] db_keeps_write [of "\<lambda>s s'. catalog s' = catalog s", OF refl]
  show ?thesis unfolding AdminPrepareAccountDeletion_def lock_account_def accountDeletionStarted_def
    by (auto intro!: rules simp: Let_def set_account_status_def insert_audit_def)
qed

lemma Prepare_batch:
  assumes "AdminPrepareAccountDeletion a actor rid e n s = (Inr objects, n', s')"
  shows "\<exists>t now. objects = deletion_batch a t now s'"
  using assms
  by (auto simp: AdminPrepareAccountDeletion_def Let_def db_bind_Inr db_lift_Inr db_tx_Inr db_read_Inr split: if_splits)

lemma Finalize_sboms:
  assumes "AdminFinalizeAccountDeletion a e n s = (r, n', s')"
  shows "sboms (catalog s') = sboms (catalog s)"
proof (cases r)
  case (Inl err)
  have "s' = s" by (rule db_tx_Inl [OF assms [unfolded Inl AdminFinalizeAccountDeletion_def]])
  then show ?thesis by simp
next
  case (Inr u)
  from assms [unfolded Inr] obtain x where "list_all (\<lambda>sb. TenantID sb \<noteq> a) (sboms (catalog s))"
      "s' = delete_account a (detach_sessions a (detach_identities a s))" by (rule Finalize_Inr)
  then show ?thesis using delete_none [of "\<lambda>sb. TenantID sb = a"] by (simp add: delete_account_def catalog_without_def detach_sessions_def detach_identities_def)
qed

text \<open>
  C38. The operator's handler never loses track of an object. Whatever fails on the way, in the database or in the bucket, a row of an
  SBOM is only removed after its object was: every object of the account that is left is still named by a row, so that
  the next attempt finds it. The SBOMs of other accounts are not touched.
\<close>

theorem deletion_leaves_no_orphans:
  assumes "handleAdminDeleteAccount broken userID a requestID e n (s, bucket) = (r, n', (s', bucket'))" and "distinct_key ID (sboms (catalog s))"
  shows "(\<forall>sb \<in> set (sboms (catalog s)). TenantID sb = a \<and> ObjectPath sb \<in> set bucket' \<longrightarrow> sb \<in> set (sboms (catalog s'))) \<and>
    filter (\<lambda>sb. TenantID sb \<noteq> a) (sboms (catalog s')) = filter (\<lambda>sb. TenantID sb \<noteq> a) (sboms (catalog s))"
proof -
  let ?actor = "\<lparr>ActorKind = ActorPlatform, UserID = userID, APITokenID = []\<rparr>"
  obtain p n1 s1 where prep: "AdminPrepareAccountDeletion a ?actor requestID e n s = (p, n1, s1)" by (cases "AdminPrepareAccountDeletion a ?actor requestID e n s")
  then have cat: "catalog s1 = catalog s" by (rule db_keepsD [OF Prepare_keeps])
  have "no_orphans a (s, bucket) (s', bucket')"
  proof (cases p)
    case (Inl err)
    then have "s' = s1" "bucket' = bucket" using assms(1) prep by (auto simp: handleAdminDeleteAccount_def Let_def db_bind_def db_try_def on_platform_def)
    then show ?thesis by (simp add: no_orphans_same cat)
  next
    case (Inr objects)
    obtain q n2 w2 where del: "delete_objects broken a objects e n1 (s1, bucket) = (q, n2, w2)" by (cases "delete_objects broken a objects e n1 (s1, bucket)")
    from Prepare_batch prep Inr obtain t now where "objects = deletion_batch a t now s1" by blast
    then have "paths_of a objects s1" using batch_paths assms(2) by (simp add: cat)
    then have "no_orphans a (s1, bucket) w2" using delete_objects_safe [OF del] by simp
    then have here: "no_orphans a (s, bucket) w2" by (rule no_orphans_trans [OF no_orphans_same, rotated 2]) (simp_all add: cat)
    obtain f n3 s3 where fin: "AdminFinalizeAccountDeletion a e n2 (fst w2) = (f, n3, s3)" by (cases "AdminFinalizeAccountDeletion a e n2 (fst w2)")
    have "(s', bucket') = w2 \<or> (s', bucket') = (s3, snd w2)"
      using assms(1) prep Inr del fin
      by (auto simp: handleAdminDeleteAccount_def Let_def db_bind_def db_try_def on_platform_def split: sum.splits if_splits)
    moreover have "no_orphans a w2 (s3, snd w2)" using Finalize_sboms [OF fin] by (simp add: no_orphans_same)
    ultimately show ?thesis using here no_orphans_trans by metis
  qed
  then show ?thesis by (auto simp: no_orphans_def)
qed

section \<open>Progress\<close>

definition sboms_left :: "string \<Rightarrow> platform \<Rightarrow> nat" where
  "sboms_left a s = count_where (\<lambda>sb. TenantID sb = a) (sboms (catalog s))"

text \<open>The account is on its way out: suspended and marked.\<close>

definition closing :: "string \<Rightarrow> platform \<Rightarrow> bool" where
  "closing a s = (case account_of a s of None \<Rightarrow> True | Some r \<Rightarrow> a_Status r = ''suspended'' \<and> deletion_marked a s)"

abbreviation operator :: "string \<Rightarrow> Actor" where
  "operator userID \<equiv> \<lparr>ActorKind = ActorPlatform, UserID = userID, APITokenID = []\<rparr>"

abbreviation deletion_event :: "string \<Rightarrow> string \<Rightarrow> AuditEvent" where
  "deletion_event a requestID \<equiv> success_event accountDeletionStartAction ''account'' a requestID []"

lemma account_of_status:
  "account_of a (set_account_status b st t s) = map_option (\<lambda>r. if a_ID r = b then r\<lparr>a_Status := st, a_UpdatedAt := t\<rparr> else r) (account_of a s)"
  unfolding account_of_def set_account_status_def by (simp add: lookup_key_update_where)

lemma marked_insert: "deletion_marked a (insert_audit b actor ev md now s) \<longleftrightarrow>
    deletion_marked a s \<or> b = a \<and> Action ev = accountDeletionStartAction \<and> TargetType ev = ''account'' \<and> TargetID ev = a"
  by (auto simp: deletion_marked_def insert_audit_def audit_of_def)

lemma account_of_audit [simp]: "account_of a (insert_audit b actor ev md now s) = account_of a s"
  by (simp add: account_of_def insert_audit_def)

lemma Prepare_Inr:
  assumes "AdminPrepareAccountDeletion a actor rid e n s = (Inr objects, n', s')" and "deletion_marked a s \<longrightarrow> closing a s"
  shows "closing a s'" and "\<exists>r. account_of a s' = Some r"
proof -
  from assms(1) obtain r where "account_of a s = Some r"
    by (auto simp: AdminPrepareAccountDeletion_def Let_def lock_account_def db_bind_Inr db_lift_Inr db_tx_Inr db_read_Inr split: if_splits option.splits)
  moreover from this have "a_ID r = a" using lookup_key_Some [of a_ID "accounts s" a r] by (simp add: account_of_def)
  ultimately have "closing a s' \<and> (\<exists>r. account_of a s' = Some r)" using assms
    by (cases "deletion_marked a s"; cases "a_Status r = ''suspended''")
      (auto simp: AdminPrepareAccountDeletion_def Let_def lock_account_def accountDeletionStarted_def closing_def db_bind_Inr db_lift_Inr db_tx_Inr db_read_Inr
        db_write_Inr db_stmt_Inr account_of_status marked_insert split: if_splits)
  then show "closing a s'" "\<exists>r. account_of a s' = Some r" by blast+
qed

lemma Prepare_total:
  assumes "no_faults e" and "account_of a s = Some r" and "validateAuditInput a (operator u) (deletion_event a rid) = Inr md"
  shows "\<exists>objects n' s'. AdminPrepareAccountDeletion a (operator u) rid e n s = (Inr objects, n', s')"
proof -
  obtain p n' s' where run: "AdminPrepareAccountDeletion a (operator u) rid e n s = (p, n', s')" using prod_cases3 by blast
  have "\<not> isl p" using run assms(2,3) unfolding AdminPrepareAccountDeletion_def
    by (auto simp: Let_def lock_account_def accountDeletionStarted_def db_bind_def db_tx_def db_read_def db_write_def db_stmt_def
        assms(1) [unfolded no_faults_def, rule_format] split: if_splits)
  then show ?thesis using run by (cases p) auto
qed

lemma delete_objects_total:
  assumes "no_faults e" and "\<forall>path. broken path = None"
  shows "\<exists>n' w'. delete_objects broken a objects e n w = (Inr (), n', w') \<and>
    sboms (catalog (fst w')) = filter (\<lambda>sb. \<not> (TenantID sb = a \<and> ID sb \<in> fst ` set objects)) (sboms (catalog (fst w))) \<and>
    accounts (fst w') = accounts (fst w) \<and> audit (fst w') = audit (fst w)"
proof (induction objects arbitrary: n w)
  case (Cons object objects)
  obtain sid path where object: "object = (sid, path)" by (cases object)
  obtain r n1 w1 where step: "on_platform (AdminDeleteAccountSBOM a sid) e n (fst w, filter (\<lambda>x. x \<noteq> path) (snd w)) = (r, n1, w1)"
    using prod_cases3 by blast
  then have one: "r = Inr () \<or> r = Inl ErrNotFound" "accounts (fst w1) = accounts (fst w)" "audit (fst w1) = audit (fst w)"
      "sboms (catalog (fst w1)) = filter (\<lambda>sb. \<not> (TenantID sb = a \<and> ID sb = sid)) (sboms (catalog (fst w)))"
    using assms(1) by (auto simp: on_platform_def AdminDeleteAccountSBOM_def db_stmt_def no_faults_def Let_def drop_sboms_def delete_sboms_def list_ex_iff
        intro!: filter_True [symmetric] split: if_splits)
  from Cons.IH [of n1 w1] obtain n' w' where "delete_objects broken a objects e n1 w1 = (Inr (), n', w')"
      "sboms (catalog (fst w')) = filter (\<lambda>sb. \<not> (TenantID sb = a \<and> ID sb \<in> fst ` set objects)) (sboms (catalog (fst w1)))"
      "accounts (fst w') = accounts (fst w1)" "audit (fst w') = audit (fst w1)" by blast
  moreover have "delete_objects broken a (object # objects) e n w = delete_objects broken a objects e n1 w1"
    unfolding object delete_objects_step using one(1) assms(2) by (auto simp: step)
  ultimately show ?case using one by (auto simp: object intro!: filter_cong)
qed simp

text \<open>What a batch takes away of an account without pending SBOMs.\<close>

lemma filter_taken:
  assumes "distinct (map f xs)"
  shows "filter (\<lambda>x. f x \<notin> f ` set (take k xs)) xs = drop k xs"
proof -
  let ?P = "\<lambda>x. f x \<notin> f ` set (take k xs)"
  from assms have "distinct (map f (take k xs @ drop k xs))" by simp
  then have "f ` set (take k xs) \<inter> f ` set (drop k xs) = {}" unfolding map_append distinct_append set_map by (elim conjE)
  then have "filter ?P (drop k xs) = drop k xs" by (intro filter_True) blast
  moreover have "filter ?P (take k xs) = []" by (intro filter_False) blast
  moreover have "filter ?P xs = filter ?P (take k xs) @ filter ?P (drop k xs)" by (metis append_take_drop_id filter_append)
  ultimately show ?thesis by (simp only: append_Nil)
qed

lemma distinct_map_sort: "distinct (map f (sort_key g xs)) = distinct (map f xs)"
  by (metis distinct_map distinct_sort set_sort)

lemma left_after_taken:
  assumes "distinct (map f xs)"
  shows "length (filter p (filter (\<lambda>x. \<not> (p x \<and> f x \<in> f ` set (take k (sort_key g (filter p xs))))) xs)) = length (filter p xs) - k"
proof -
  let ?S = "sort_key g (filter p xs)"
  let ?Q = "\<lambda>x. f x \<notin> f ` set (take k ?S)"
  from assms have "distinct (map f ?S)" unfolding distinct_map_sort by (rule distinct_map_filter)
  then have "filter ?Q ?S = drop k ?S" by (rule filter_taken)
  then have "length (filter ?Q ?S) = length (filter p xs) - k" by (simp only: length_drop length_sort)
  moreover have "filter ?Q ?S = sort_key g (filter ?Q (filter p xs))" by (rule filter_sort)
  moreover have "filter p (filter (\<lambda>x. \<not> (p x \<and> f x \<in> f ` set (take k ?S))) xs) = filter ?Q (filter p xs)"
    unfolding filter_filter by (rule filter_cong [OF refl]) blast
  ultimately show ?thesis by (simp only: length_sort)
qed

lemma batch_left:
  assumes "distinct_key ID (sboms (catalog s))" and "list_all (\<lambda>sb. TenantID sb = a \<longrightarrow> Status sb \<noteq> ''pending'') (sboms (catalog s))"
  shows "count_where (\<lambda>sb. TenantID sb = a) (filter (\<lambda>sb. \<not> (TenantID sb = a \<and> ID sb \<in> fst ` set (deletion_batch a t now s))) (sboms (catalog s))) =
    sboms_left a s - adminAccountDeletionBatchSize"
proof -
  have "filter (deletable a t now) (sboms (catalog s)) = filter (\<lambda>sb. TenantID sb = a) (sboms (catalog s))"
    using assms(2) by (intro filter_cong) (auto simp: deletable_def list_all_iff)
  then have ids: "fst ` set (deletion_batch a t now s) =
      ID ` set (take adminAccountDeletionBatchSize (sort_key (\<lambda>sb. (SubmittedAt sb, ID sb)) (filter (\<lambda>sb. TenantID sb = a) (sboms (catalog s)))))"
    by (simp add: deletion_batch_def image_image)
  show ?thesis unfolding ids count_where_def sboms_left_def
    using assms(1) by (intro left_after_taken) (simp add: distinct_key_def)
qed

lemma Finalize_total:
  assumes "no_faults e" and "account_of a s = Some r" and "closing a s"
  shows "\<exists>n'. AdminFinalizeAccountDeletion a e n s =
    (if sboms_left a s = 0 then (Inr (), n', delete_account a (detach_sessions a (detach_identities a s))) else (Inl ErrAccountDeletionIncomplete, n', s))"
proof -
  have "account_of a (detach_sessions a (detach_identities a s)) = Some r"
    using assms(2) by (simp add: account_of_def detach_sessions_def detach_identities_def)
  then show ?thesis using assms(2,3) unfolding AdminFinalizeAccountDeletion_def closing_def sboms_left_def
    by (auto simp: lock_account_def accountDeletionStarted_def db_bind_def db_tx_def db_read_def db_write_def db_stmt_def
        assms(1) [unfolded no_faults_def, rule_format])
qed

text \<open>
  C39. A deletion makes progress. When nothing fails and no SBOM of the account is pending, a call of the handler removes a batch of a hundred SBOMs; the
  last of them is the one that deletes the account, and every call before leaves it suspended and marked for the next.
\<close>

theorem deletion_progresses:
  assumes "no_faults e" and "\<forall>path. broken path = None" and "account_of a s = Some r" and "deletion_marked a s \<longrightarrow> closing a s"
    and "distinct_key ID (sboms (catalog s))" and "list_all (\<lambda>sb. TenantID sb = a \<longrightarrow> Status sb \<noteq> ''pending'') (sboms (catalog s))"
    and "validateAuditInput a (operator userID) (deletion_event a requestID) = Inr metadata"
  shows "\<exists>msg n' s' bucket'. handleAdminDeleteAccount broken userID a requestID e n (s, bucket) = (Inr msg, n', (s', bucket')) \<and>
    (if sboms_left a s \<le> 100 then msg = ''account_deleted'' \<and> account_gone a s'
     else msg = ''cleanup_in_progress'' \<and> sboms_left a s' = sboms_left a s - 100 \<and> closing a s' \<and> account_of a s' \<noteq> None)"
proof -
  from Prepare_total [OF assms(1,3,7)] obtain objects n1 s1 where prep: "AdminPrepareAccountDeletion a (operator userID) requestID e n s = (Inr objects, n1, s1)" by blast
  note prepared = Prepare_Inr [OF prep assms(4)]
  have cat: "catalog s1 = catalog s" using prep by (rule db_keepsD [OF Prepare_keeps])
  from Prepare_batch [OF prep] obtain t now where objects: "objects = deletion_batch a t now s1" by blast
  from delete_objects_total [OF assms(1,2), of a objects n1 "(s1, bucket)"] obtain n2 w2 where w2: "delete_objects broken a objects e n1 (s1, bucket) = (Inr (), n2, w2)"
      "sboms (catalog (fst w2)) = filter (\<lambda>sb. \<not> (TenantID sb = a \<and> ID sb \<in> fst ` set objects)) (sboms (catalog s1))"
      "accounts (fst w2) = accounts s1" "audit (fst w2) = audit s1"
    unfolding fst_conv by blast
  obtain s2 b2 where pair: "w2 = (s2, b2)" by (cases w2)
  note del = w2 [unfolded pair fst_conv]
  have left: "sboms_left a s2 = sboms_left a s - 100"
    using batch_left [of s1 a t now] assms(5,6) by (simp add: sboms_left_def del(2) objects cat adminAccountDeletionBatchSize_def)
  from prepared(2) obtain r1 where r1: "account_of a s2 = Some r1" by (auto simp: account_of_def del(3))
  have marked: "deletion_marked a s2 = deletion_marked a s1" by (simp add: deletion_marked_def del(4))
  have cl: "closing a s2" using prepared(1) unfolding closing_def account_of_def del(3) marked .
  from Finalize_total [OF assms(1) r1 cl] obtain n3 where fin: "AdminFinalizeAccountDeletion a e n2 s2 =
    (if sboms_left a s2 = 0 then (Inr (), n3, delete_account a (detach_sessions a (detach_identities a s2))) else (Inl ErrAccountDeletionIncomplete, n3, s2))" by blast
  note run = handleAdminDeleteAccount_def Let_def db_bind_def db_try_def on_platform_def prep del(1) fin
  show ?thesis
  proof (cases "sboms_left a s \<le> 100")
    case True
    then have z: "sboms_left a s2 = 0" using left by simp
    with fin have "AdminFinalizeAccountDeletion a e n2 s2 = (Inr (), n3, delete_account a (detach_sessions a (detach_identities a s2)))" by simp
    from account_gone_finalized [OF this] True z show ?thesis by (simp add: run)
  next
    case False
    then show ?thesis using left cl r1 by (simp add: run)
  qed
qed

section \<open>Deletion is final\<close>

text \<open>Once the marker is there, the account stays suspended: the status cannot be changed any more, and the plan does not matter.\<close>

lemma closing_plan:
  assumes "AdminSetAccountPlan a plan e n s = (r, n', s')" and "deletion_marked b s \<longrightarrow> closing b s"
  shows "deletion_marked b s' \<longrightarrow> closing b s'"
proof -
  have "s' = s \<or> s' = s\<lparr>accounts := update_where (\<lambda>x. a_ID x = a) (\<lambda>x. x\<lparr>a_Plan := plan, a_UpdatedAt := clock e n\<rparr>) (accounts s)\<rparr>"
    using assms(1) by (auto simp: AdminSetAccountPlan_def adminUpdateAccount_def db_stmt_def split: option.splits if_splits)
  then show ?thesis using assms(2)
    by (elim disjE) (simp, auto simp: closing_def account_of_def deletion_marked_def lookup_key_update_where split: option.splits)
qed

lemma SetAccountStatus_cases:
  assumes "AdminSetAccountStatus a st e n s = (r, n', s')"
  shows "s' = s \<and> isl r \<or> \<not> deletion_marked a s \<and> (\<exists>t. s' = set_account_status a st t s)"
proof (cases r)
  case (Inl err)
  have "s' = s" by (rule db_tx_Inl [OF assms [unfolded Inl AdminSetAccountStatus_def]])
  with Inl show ?thesis by simp
next
  case (Inr u)
  then show ?thesis using assms
    by (auto simp: AdminSetAccountStatus_def lock_account_def accountDeletionStarted_def db_tx_Inr db_bind_Inr db_read_Inr db_write_Inr split: if_splits)
qed

lemma closing_status:
  assumes "AdminSetAccountStatus a st e n s = (r, n', s')" and "deletion_marked b s \<longrightarrow> closing b s"
  shows "deletion_marked b s' \<longrightarrow> closing b s'"
  using SetAccountStatus_cases [OF assms(1)]
proof (elim disjE conjE exE)
  fix t assume unmarked: "\<not> deletion_marked a s" and s': "s' = set_account_status a st t s"
  have marked: "deletion_marked c s' = deletion_marked c s" for c by (simp add: s' set_account_status_def deletion_marked_def)
  have row: "a_ID x = b" if "account_of b s = Some x" for x using that lookup_key_Some [of a_ID "accounts s" b x] by (simp add: account_of_def)
  have "account_of b s' = account_of b s" if "b \<noteq> a"
    using that by (cases "account_of b s") (auto simp: s' account_of_status dest: row)
  then have "closing b s' = closing b s" if "b \<noteq> a" using that unfolding closing_def marked by simp
  then show ?thesis using unmarked assms(2) by (cases "b = a") (simp_all add: marked)
qed (use assms(2) in simp)

text \<open>Preparing keeps it as well, and makes it true of the account.\<close>

lemma closing_prepare:
  assumes "AdminPrepareAccountDeletion a actor rid e n s = (p, n', s')" and "deletion_marked a s \<longrightarrow> closing a s"
  shows "deletion_marked a s' \<longrightarrow> closing a s'"
proof (cases p)
  case (Inl err)
  with assms(1) have "s' = s"
    by (auto simp: AdminPrepareAccountDeletion_def Let_def db_bind_def db_lift_def db_fail_def split: if_splits sum.splits prod.splits dest: db_tx_Inl)
  with assms(2) show ?thesis by simp
next
  case (Inr objects)
  with Prepare_Inr(1) assms show ?thesis by blast
qed

section \<open>Witnesses\<close>

definition demo_leaving :: platform where
  "demo_leaving = demo_platform\<lparr>catalog := (catalog demo_platform)\<lparr>sboms := [demo_image\<lparr>ObjectPath := ''gs://b/1''\<rparr>]\<rparr>\<rparr>"

lemma demo_leaving_account: "\<exists>r. account_of ''a'' demo_leaving = Some r"
  by (simp add: demo_leaving_def demo_platform_def account_of_def lookup_key_def)

lemma demo_leaving_sboms: "sboms (catalog demo_leaving) = [demo_image\<lparr>ObjectPath := ''gs://b/1''\<rparr>]"
  by (simp add: demo_leaving_def)

lemma demo_leaving_unmarked: "\<not> deletion_marked ''a'' demo_leaving"
  by code_simp

theorem deletion_progresses_witness:
  "\<exists>msg n' s' bucket'. handleAdminDeleteAccount (\<lambda>_. None) ''u'' ''a'' ''r'' (calm_env 5) 0 (demo_leaving, [''gs://b/1'']) = (Inr msg, n', (s', bucket')) \<and>
     msg = ''account_deleted'' \<and> account_gone ''a'' s'"
proof -
  obtain r where r: "account_of ''a'' demo_leaving = Some r" using demo_leaving_account by blast
  have "\<not> isl (validateAuditInput ''a'' (operator ''u'') (deletion_event ''a'' ''r''))" by code_simp
  then obtain md where md: "validateAuditInput ''a'' (operator ''u'') (deletion_event ''a'' ''r'') = Inr md" by (metis sum.collapse(2))
  have left: "sboms_left ''a'' demo_leaving \<le> 100" by (simp add: sboms_left_def count_where_def demo_leaving_sboms)
  show ?thesis
    using deletion_progresses [OF no_faults_calm [of 5] _ r _ _ _ md, of "\<lambda>_. None" 0 "[''gs://b/1'']"] left demo_leaving_unmarked
    by (simp add: demo_leaving_sboms distinct_key_def demo_image_def new_row_def defaultStr_def)
qed

theorem deletion_leaves_no_orphans_witness:
  "\<exists>r n' s'. handleAdminDeleteAccount (\<lambda>_. Some (Errorf ''unavailable'')) ''u'' ''a'' ''r'' (calm_env 5) 0 (demo_leaving, [''gs://b/1'']) = (r, n', (s', [''gs://b/1''])) \<and>
     demo_image\<lparr>ObjectPath := ''gs://b/1''\<rparr> \<in> set (sboms (catalog s'))"
proof -
  let ?run = "handleAdminDeleteAccount (\<lambda>_. Some (Errorf ''unavailable'')) ''u'' ''a'' ''r'' (calm_env 5) 0 (demo_leaving, [''gs://b/1''])"
  have "snd (snd (snd ?run)) = [''gs://b/1'']" by code_simp
  then obtain r n' s' where run: "?run = (r, n', (s', [''gs://b/1'']))" by (metis prod.collapse)
  have "distinct_key ID (sboms (catalog demo_leaving))" by (simp add: demo_leaving_sboms distinct_key_def)
  from deletion_leaves_no_orphans [OF run this] have "demo_image\<lparr>ObjectPath := ''gs://b/1''\<rparr> \<in> set (sboms (catalog s'))"
    by (simp add: demo_leaving_sboms demo_image_def new_row_def)
  with run show ?thesis by blast
qed


end
