(* ===== verification/Spec2Isabelle.thy ===== *)
theory Spec2Isabelle
  imports Scan_Outcome Delivery Access_Facts Pages Account_Deletion
begin

text \<open>
  DevRadar: a verification of the core of the SBOM vulnerability tracker (\<open>github.com/thingzio/devradar\<close>).

  \<^bold>\<open>The program.\<close> Accounts submit SBOMs of their images. A scan job (\<open>pkg/scan\<close>) takes the SBOMs that
  are due, runs vulnerability scanners on each, converts their reports and applies them to the
  database, where a delta engine turns the difference to the stored findings into an append-only event
  log. Alert evaluation reads the events that wait in a queue and stores alerts by each account's policy.
  License expressions of packages are parsed and judged by a policy. Invitations to an account go
  through an email outbox that a delivery worker drains.

  \<^bold>\<open>Theories and sources.\<close> Names are those of the code; an operation of the store keeps its Go name,
  and the statement inside it is a function on tables with a name in lower case.

  \<^item> \<open>Prelude\<close>: Go strings, errors, times, maps and tables, and database programs. A program of type
    \<open>('s, 'a) db\<close> takes an environment (which statement fails, what the clock reads), the number of the next
    statement and the state; a transaction restores the state it began with unless it commits. Rules
    (\<open>db_does\<close>, \<open>db_total\<close>, \<open>db_keeps\<close>) say what a program does, that it succeeds without failures, and
    what it keeps whatever fails.
  \<^item> \<open>Sha256\<close>, \<open>Severity\<close>: the identity of a finding and the severity scale (\<open>pkg/data/vuln.go\<close>,
    \<open>severity.go\<close>).
  \<^item> \<open>License_Expr\<close>, \<open>License\<close>: the expression tokenizer, parser and evaluator, classification and policy
    (\<open>pkg/data/license_expr.go\<close>, \<open>license.go\<close>).
  \<^item> \<open>Store\<close>: the tables (\<open>pkg/data/postgres/models.go\<close> and the migrations) as one record, with their
    unique keys as \<open>store_inv\<close>.
  \<^item> \<open>Delta\<close>, \<open>Apply_Scan\<close>: the contract of a table with a log of its differences (locales \<open>delta_table\<close>
    and \<open>delta_log\<close>), and \<open>applyscan.go\<close>, on whose tables the contract is interpreted.
  \<^item> \<open>Scan_Backoff\<close>, \<open>Sbom_Store\<close>: retry control (\<open>scan_backoff.go\<close>); submission under quotas, activation,
    archiving and work selection (\<open>sbom.go\<close>, parts of \<open>read.go\<close>, \<open>admin.go\<close> and \<open>license.go\<close>).
  \<^item> \<open>Converter\<close>, \<open>Enrichment\<close>: scanner reports (\<open>pkg/converter\<close>, \<open>pkg/parser\<close> over the vendored \<open>gabs\<close>);
    the feeds of exploited vulnerabilities and of exploit probabilities (\<open>pkg/enrich\<close>, \<open>enrich.go\<close>).
  \<^item> \<open>Alert_Store\<close>, \<open>Alert\<close>: policies, queue and batches (\<open>alert.go\<close>); matching and the evaluator's
    loop (\<open>pkg/alert\<close>).
  \<^item> \<open>Scan_Runner\<close>, \<open>Scan_Outcome\<close>: the scan job with its temporary files, errors and panics
    (\<open>pkg/scan/scan.go\<close>), and what a run leaves behind.
  \<^item> \<open>Email\<close>, \<open>Redaction\<close>, \<open>Delivery_Store\<close>, \<open>Delivery_Outbox\<close>, \<open>Delivery\<close>: the senders (\<open>pkg/net/email.go\<close>)
    with the contract the store needs of them (locale \<open>mail_sender\<close>, interpreted for both); the text of
    errors, the slots and the outbox (\<open>pkg/data/postgres/delivery.go\<close>, migration 032), a step relation over all of
    their operations, and the worker (\<open>pkg/delivery/delivery.go\<close>).
  \<^item> \<open>Account_Tables\<close>, \<open>Audit_Log\<close>, \<open>Membership\<close>: the registry, a record of the tables of accounts, users,
    members, sessions, tokens and invitations with the outbox as a field; roles (\<open>pkg/account\<close>); audited
    mutations (\<open>audit.go\<close>); members under the account lock (\<open>account.go\<close>).
  \<^item> \<open>Rate_Limit\<close>, \<open>Secret_Box\<close>: the fixed-window limiter (\<open>ratelimit.go\<close>) and sealed texts (\<open>pkg/secretbox\<close>)
    over a parameter for AES-GCM.
  \<^item> \<open>Invitation\<close>, \<open>Invitation_Rules\<close>: creating, rotating, revoking and accepting (\<open>invitation.go\<close>), and what each
    leaves.
  \<^item> \<open>Identity\<close>, \<open>Sessions\<close>, \<open>Api_Tokens\<close>, \<open>Sign_In\<close>: identities and the legacy accounts they grew from
    (\<open>account.go\<close>, \<open>auth.go\<close>), sessions and login links (\<open>auth.go\<close>), API tokens (\<open>token.go\<close>).
  \<^item> \<open>Registry\<close>, \<open>Registry_Steps\<close>, \<open>Registry_Facts\<close>, \<open>Access_Facts\<close>: the invariant of the registry, a step relation
    over all of its operations, and what they guarantee.
  \<^item> \<open>Platform\<close>: the registry and the catalog of SBOMs as one record, and the audited operations over both.
  \<^item> \<open>Vex\<close>: OpenVEX documents (\<open>pkg/vex\<close>) and the statements that decide findings (\<open>pkg/data/postgres/vex.go\<close>).
  \<^item> \<open>Catalog\<close>, \<open>Read_Models\<close>: a step relation over the operations of the catalog with the rollups as its
    invariant, and the dashboard's queries on their fast and their live path (\<open>read.go\<close>, \<open>read_images.go\<close>).
  \<^item> \<open>Compare\<close>: comparison of two SBOMs and the recommended upgrade (\<open>compare.go\<close>).
  \<^item> \<open>Keyset\<close>, \<open>Pages\<close>: cursors and sorting (\<open>cursor.go\<close>, \<open>sort.go\<close>) with the contract of a paged query (locale
    \<open>keyset_query\<close>), and the paged lists of \<open>read.go\<close> and \<open>read_images.go\<close>, each an interpretation of it.
  \<^item> \<open>Account_Deletion\<close>: plan, status and deletion of an account (\<open>admin.go\<close>) and the operator's handler over the
    database and the bucket (\<open>handler_admin.go\<close>).

  \<^bold>\<open>What is shown.\<close> The delta engine converges to the scan, logs exactly the differences, is atomic and
  idempotent, and its log replays to the current state. Submission respects its quota and the life
  cycle of an SBOM; work selection is exactly what its conditions say. The expression parser is total,
  inverts printing, and the evaluator decides the boolean meaning. Alert evaluation terminates, loses
  no alert and repeats none. The scan job records an outcome for every due pair, isolates failures and
  leaves no file. The outbox is a state machine whose terminal rows never change; a lease is ended at
  most once, slots are exclusive and fenced, and a held delivery is always settled. No sequence of
  operations leaves an account that had an administrator without one; every change of an account is
  attributed in the same transaction; an invitation is settled once, its mail carries the token its row
  accepts, and a link, a token text and a login link each work once. The rollups agree with the findings
  in every catalog that can be reached, so that the fast reads equal the live ones; a statement of VEX
  that names a digest is never overridden by one that names an image; a comparison lists exactly the
  differences, and a recommended upgrade is the newest that improves; the pages of a list are the list. A
  deletion of an account never loses track of an object, ends after a call per hundred SBOMs, and leaves
  nothing of the account and everything of the others. The last section spans components:
  from an applied scan to the alerts it must raise.

  \<^bold>\<open>Bounds.\<close> The expression parser has fuel \<open>4 * tokens + 4\<close>, proved enough for every input; the
  evaluation loop has one unit per event and one more, proved enough because every round that goes
  on takes events out of the queue. Every other loop is structural.

  \<^bold>\<open>Representation.\<close> Strings are lists of ASCII characters. Scores are rationals rounded to the code's
  precision. Times are microseconds, durations nanoseconds. Statements are atomic and run one at a
  time; interleavings are sequences of operations. A statement that fails changes nothing.

  \<^bold>\<open>Not modelled.\<close> Tools outside of the repository are arguments: HTTP, JSON parsing, the scanners,
  object storage, the file system's answers, encryption, randomness. The queries of the operator's
  console (\<open>admin.go\<close> besides the rescan request and the deletion of accounts), attestation, posture snapshots, the vulnerabilities
  of the fleet and the license pages are queries and state machines of the store that are not modelled. The HTTP server, its pages,
  middleware, configuration, migrations and commands are input and output around them.
\<close>

section \<open>From a scan to its alerts\<close>

lemma change_event_origin:
  "ev_tenant (change_event sb scanner ver cause rid now fid c) = TenantID sb \<and>
   ev_sbom (change_event sb scanner ver cause rid now fid c) = ID sb \<and> ev_cause (change_event sb scanner ver cause rid now fid c) = cause"
  by (cases c) (simp_all add: new_event_def)

text \<open>The events a scan appended: whose they are, why, and that they wait for evaluation.\<close>

lemma scan_appends:
  assumes "ApplyScan sb scanner ver vulns e n s = (Inr r, n1, s1)" and "store_inv s" and "v \<in> set (drop (length (events s)) (events s1))"
  shows "v \<in> set (events s1)" and "ev_tenant v = TenantID sb" and "ev_sbom v = ID sb" and "ev_cause v = scan_cause sb scanner ver s"
    and "alert_cause (ev_cause v) \<Longrightarrow> queue_event DefaultConsumer v s1"
proof -
  note run = ApplyScan_success [OF assms(1)]
  let ?s1 = "apply_core sb scanner ver vulns (clock e (n + 4)) (clock e n) s"
  obtain new where new: "events s1 = events s @ new"
      "alert_queue s1 = alert_queue s @ (if alert_cause (scan_cause sb scanner ver s) then queue_rows (TenantID sb) new else [])"
    using apply_core_appended [OF assms(2)] run unfolding appended_def by blast
  have log: "map (\<lambda>v. v\<lparr>ev_id := 0\<rparr>) new = scan_events sb scanner ver vulns (clock e (n + 4)) s"
    using apply_core_log [OF assms(2), of sb scanner ver "clock e (n + 4)" vulns "clock e n"] run new by (auto simp: event_log_def)
  from assms(3) new(1) have v: "v \<in> set new" by simp
  then show "v \<in> set (events s1)" by (simp add: new(1))
  from v have "v\<lparr>ev_id := 0\<rparr> \<in> set (scan_events sb scanner ver vulns (clock e (n + 4)) s)" by (force simp flip: log)
  then obtain fid c where "v\<lparr>ev_id := 0\<rparr> = change_event sb scanner ver (scan_cause sb scanner ver s) (next_row_id s) (clock e (n + 4)) fid c"
    by (auto simp: scan_events_def)
  then have o: "ev_tenant (v\<lparr>ev_id := 0\<rparr>) = TenantID sb" "ev_sbom (v\<lparr>ev_id := 0\<rparr>) = ID sb"
    "ev_cause (v\<lparr>ev_id := 0\<rparr>) = scan_cause sb scanner ver s" using change_event_origin by metis+
  then show "ev_tenant v = TenantID sb" "ev_sbom v = ID sb" and c: "ev_cause v = scan_cause sb scanner ver s" by simp_all
  show "queue_event DefaultConsumer v s1" if "alert_cause (ev_cause v)"
    using that v by (force simp: queue_event_def list_ex_iff new(2) c queue_rows_def)
qed

text \<open>
  C18. From a scan to its alerts. When a scan of an SBOM was applied and then the alert queue is
  evaluated without a failing statement, every event of the scan that raises an alert under the
  policy of the SBOM's account (enabled, with a cause and labels the policy includes, a fix the
  policy asks for, or a new finding that is known to be exploited or reaches its severity) has its alert
  in the store.
\<close>

theorem scan_raises_alerts:
  assumes "store_inv s" and "ApplyScan sb scanner ver vulns e n s = (Inr r, n1, s1)"
    and "lookup_key ID (sboms s) (ID sb) = Some row" and "read_only compare" and "no_faults e'" and "batchSize \<le> maxPageLimit"
  shows "\<exists>res n2 s2. EvaluateAlerts compare (\<lambda>_. None) DefaultConsumer batchSize e' m s1 = (Inr (Some (res, None)), n2, s2) \<and>
    (\<forall>v \<in> set (drop (length (events s)) (events s1)).
       validateEvent (alert_event v row s1) = None \<and> raises (candidate_policy (TenantID sb) s1) (alert_event v row s1) \<longrightarrow>
       has_alert (draft_of (candidate_policy (TenantID sb) s1) (alert_event v row s1)) s2)"
proof -
  note run = ApplyScan_success [OF assms(2)]
  have inv: "store_inv s1" using apply_core_appended [OF assms(1)] run unfolding appended_def by blast
  let ?b = "if batchSize \<le> 0 then DefaultBatchSize else batchSize"
  have b: "0 < ?b" "?b \<le> maxPageLimit" using assms(6) by simp_all
  have "distinct_key ev_id (events s1)" using inv by (simp add: store_inv_def)
  from evaluate_loop_settles [OF assms(4,5) refl b pending_fuel [of DefaultConsumer s1] this]
  obtain res n2 s2 where ev: "evaluate_loop (evaluate_fuel s1) compare (\<lambda>_. None) DefaultConsumer ?b
        \<lparr>Examined = 0, Matched = 0, Failures = 0\<rparr> [] e' m s1 = (Inr (Some (res, None)), n2, s2)"
      "\<forall>c \<in> set (pending_candidates DefaultConsumer s1). settled DefaultConsumer c s2" by blast
  have "has_alert (draft_of (candidate_policy (TenantID sb) s1) (alert_event v row s1)) s2"
    if v: "v \<in> set (drop (length (events s)) (events s1))" and ok: "validateEvent (alert_event v row s1) = None"
      and ra: "raises (candidate_policy (TenantID sb) s1) (alert_event v row s1)" for v
  proof -
    note a = scan_appends [OF assms(2,1) v]
    have "lookup_key ID (sboms s1) (ev_sbom v) = Some row" using assms(3) run by (simp add: a(3) apply_core_inputs)
    moreover have cause: "ev_cause v = CauseImage \<or> ev_cause v = CauseDB"
      using ra by (auto simp: raises_def causeEnabled_def alert_event_def split: if_splits)
    moreover have "queue_event DefaultConsumer v s1" using a(5) cause by (simp add: alert_cause_def)
    ultimately have "(candidate_policy (TenantID sb) s1, alert_event v row s1) \<in> set (pending_candidates DefaultConsumer s1)"
      unfolding pending_iff using a(1,2) by auto
    with ev(2) have "settled DefaultConsumer (candidate_policy (TenantID sb) s1, alert_event v row s1) s2" by blast
    then show ?thesis using ok ra by (simp add: settled_def Match_Inr)
  qed
  moreover have "EvaluateAlerts compare (\<lambda>_. None) DefaultConsumer batchSize e' m s1 = (Inr (Some (res, None)), n2, s2)"
    using ev(1) by (simp add: EvaluateAlerts_def Let_def)
  ultimately show ?thesis by blast
qed

definition demo_account :: store where
  "demo_account = empty_store\<lparr>sboms := [SBOM.extend demo_sbom \<lparr>rescan_requested_at = None\<rparr>], policies := [demo_policy]\<rparr>"

theorem scan_raises_alerts_witness:
  "\<exists>n1 s1 res n2 s2. ApplyScan demo_sbom ''grype'' demo_versions demo_vulns (calm_env 0) 0 demo_account = (Inr (), n1, s1) \<and>
     EvaluateAlerts None (\<lambda>_. None) DefaultConsumer 100 (calm_env 9) 0 s1 = (Inr (Some (res, None)), n2, s2)"
proof -
  have inv: "store_inv demo_account"
    by (simp add: store_inv_def demo_account_def empty_store_def)
  have no_runs: "scan_runs demo_account = []" by (simp add: demo_account_def empty_store_def)
  obtain n1 s1 where run: "ApplyScan demo_sbom ''grype'' demo_versions demo_vulns (calm_env 0) 0 demo_account = (Inr (), n1, s1)"
    using ApplyScan_total [of "calm_env 0" demo_sbom "''grype''" demo_versions 0 demo_account demo_vulns] no_runs by auto
  have row: "lookup_key ID (sboms demo_account) (ID demo_sbom) = Some (SBOM.extend demo_sbom \<lparr>rescan_requested_at = None\<rparr>)"
    by (simp add: demo_account_def demo_sbom_def SBOM.defs sbom_row.defs)
  from scan_raises_alerts [OF inv run row read_only_None no_faults_calm, of 100 9 0] run show ?thesis by auto
qed

end
